(* ===== verification/Prelude.thy ===== *)
theory Prelude
  imports Main "HOL-Library.Word"
begin

text \<open>
  The shared layer of the development: Rust's fixed-width checked and saturating
  arithmetic on words, its \<open>Result\<close> type with the \<open>?\<close> operator, early-return guards,
  iteration that stops at the first error, and the list facts the components share.

  \<^item> A \<open>u8\<close>/\<open>u16\<close>/\<open>u32\<close>/\<open>u64\<close> value is a word of that width; \<open>usize\<close> is 64 bits wide
    (the platforms the program ships for).
  \<^item> \<open>Result<T, E>\<close> is the sum type \<open>'e + 'a\<close>: \<open>Inl\<close> is \<open>Err\<close>, \<open>Inr\<close> is \<open>Ok\<close>.
  \<^item> A \<open>String\<close> is the list of its UTF-8 bytes, so \<open>length\<close> is Rust's \<open>len()\<close>.
\<close>

named_theorems res_simps \<open>rewrite rules for results, guards and error-stopping iteration\<close>
named_theorems arith_simps \<open>characterisations of checked and saturating word arithmetic\<close>

type_synonym u8 = "8 word"
type_synonym u16 = "16 word"
type_synonym u32 = "32 word"
type_synonym u64 = "64 word"
type_synonym usize = "64 word"

section \<open>Results\<close>

text \<open>\<open>and_then m f\<close> is \<open>let x = m?; f x\<close>.\<close>

definition and_then :: "'err + 'val \<Rightarrow> ('val \<Rightarrow> 'err + 'out) \<Rightarrow> 'err + 'out" where
  "and_then m f = (case m of Inl e \<Rightarrow> Inl e | Inr x \<Rightarrow> f x)"

text \<open>\<open>fail_if c e\<close> is \<open>if c { return Err(e) }\<close>.\<close>

definition fail_if :: "bool \<Rightarrow> 'e \<Rightarrow> 'e + unit" where
  "fail_if c e = (if c then Inl e else Inr ())"

definition ok_or :: "'a option \<Rightarrow> 'e \<Rightarrow> 'e + 'a" where
  "ok_or m e = (case m of None \<Rightarrow> Inl e | Some x \<Rightarrow> Inr x)"

definition map_err :: "('e \<Rightarrow> 'f) \<Rightarrow> 'e + 'a \<Rightarrow> 'f + 'a" where
  "map_err g m = (case m of Inl e \<Rightarrow> Inl (g e) | Inr x \<Rightarrow> Inr x)"

definition is_ok :: "'e + 'a \<Rightarrow> bool" where
  "is_ok m = (case m of Inl _ \<Rightarrow> False | Inr _ \<Rightarrow> True)"

definition ok :: "'e + 'a \<Rightarrow> 'a option" where
  "ok m = (case m of Inl _ \<Rightarrow> None | Inr x \<Rightarrow> Some x)"

text \<open>A \<open>for\<close> loop whose body ends in \<open>?\<close>, and one that threads an accumulator.\<close>

fun try_all :: "('a \<Rightarrow> 'e + unit) \<Rightarrow> 'a list \<Rightarrow> 'e + unit" where
  "try_all f [] = Inr ()"
| "try_all f (x # xs) = and_then (f x) (\<lambda>_. try_all f xs)"

fun try_fold :: "('s \<Rightarrow> 'a \<Rightarrow> 'e + 's) \<Rightarrow> 's \<Rightarrow> 'a list \<Rightarrow> 'e + 's" where
  "try_fold f s [] = Inr s"
| "try_fold f s (x # xs) = and_then (f s x) (\<lambda>s'. try_fold f s' xs)"

fun try_map :: "('item \<Rightarrow> 'err + 'out) \<Rightarrow> 'item list \<Rightarrow> 'err + 'out list" where
  "try_map f [] = Inr []"
| "try_map f (x # xs) = and_then (f x) (\<lambda>y. and_then (try_map f xs) (\<lambda>ys. Inr (y # ys)))"

lemma and_then_simps [simp, res_simps]:
  "and_then (Inl e) f = Inl e"
  "and_then (Inr x) f = f x"
  by (simp_all add: and_then_def)

lemma and_then_return [simp]: "and_then m Inr = m"
  by (simp add: and_then_def split: sum.split)

lemma and_then_Inr_iff [res_simps]:
  "and_then m f = Inr y \<longleftrightarrow> (\<exists>x. m = Inr x \<and> f x = Inr y)"
  by (cases m) auto

lemma and_then_unit_iff: "and_then m (\<lambda>_. n) = Inr u \<longleftrightarrow> m = Inr () \<and> n = Inr u"
  by (cases m) auto

lemma and_then_Inl_iff [res_simps]:
  "and_then m f = Inl e \<longleftrightarrow> m = Inl e \<or> (\<exists>x. m = Inr x \<and> f x = Inl e)"
  by (cases m) auto

lemma fail_if_iff [simp, res_simps]:
  "fail_if c e = Inr u \<longleftrightarrow> \<not> c"
  "fail_if c e = Inl e' \<longleftrightarrow> c \<and> e' = e"
  by (auto simp: fail_if_def)

lemma fail_if_const [simp]: "fail_if True e = Inl e" "fail_if False e = Inr ()"
  by (simp_all add: fail_if_def)

lemma ok_or_iff [simp, res_simps]:
  "ok_or m e = Inr x \<longleftrightarrow> m = Some x"
  "ok_or m e = Inl e' \<longleftrightarrow> m = None \<and> e' = e"
  by (auto simp: ok_or_def split: option.splits)

lemma ok_or_const [simp]: "ok_or None e = Inl e" "ok_or (Some x) e = Inr x"
  by (simp_all add: ok_or_def)

lemma map_err_iff [simp, res_simps]:
  "map_err g m = Inr x \<longleftrightarrow> m = Inr x"
  "map_err g m = Inl f \<longleftrightarrow> (\<exists>e. m = Inl e \<and> f = g e)"
  by (cases m; auto simp: map_err_def)+

lemma map_err_const [simp]: "map_err g (Inl e) = Inl (g e)" "map_err g (Inr x) = Inr x"
  by (simp_all add: map_err_def)

lemma is_ok_simps [simp]: "is_ok (Inr x)" "\<not> is_ok (Inl e)"
  by (simp_all add: is_ok_def)

lemma is_ok_iff: "is_ok m \<longleftrightarrow> (\<exists>x. m = Inr x)"
  by (cases m) auto

lemma ok_simps [simp]: "ok (Inr x) = Some x" "ok (Inl e) = None"
  by (simp_all add: ok_def)

lemma try_all_Inr_iff [res_simps]: "try_all f xs = Inr u \<longleftrightarrow> (\<forall>x\<in>set xs. f x = Inr ())"
  by (induction xs) (auto simp: and_then_Inr_iff)

lemma try_fold_append:
  "try_fold f s (xs @ ys) = and_then (try_fold f s xs) (\<lambda>s'. try_fold f s' ys)"
proof (induction xs arbitrary: s)
  case (Cons x xs)
  then show ?case by (cases "f s x") auto
qed simp

lemma try_fold_invariant:
  assumes "try_fold f s xs = Inr t" and "P s"
    and "\<And>s x s'. x \<in> set xs \<Longrightarrow> P s \<Longrightarrow> f s x = Inr s' \<Longrightarrow> P s'"
  shows "P t"
  using assms
proof (induction xs arbitrary: s)
  case (Cons x xs)
  from Cons.prems(1) obtain s' where step: "f s x = Inr s'" and rest: "try_fold f s' xs = Inr t"
    by (auto simp: and_then_Inr_iff)
  have "P s'" using Cons.prems(2,3) step by auto
  then show ?case using Cons.IH rest Cons.prems(3) by auto
qed simp

lemma try_map_Inr_iff [res_simps]:
  "try_map f xs = Inr ys \<longleftrightarrow> list_all2 (\<lambda>x y. f x = Inr y) xs ys"
proof (induction xs arbitrary: ys)
  case (Cons x xs)
  then show ?case by (cases ys) (auto simp: and_then_Inr_iff)
qed (auto simp: list_all2_Nil)

lemma try_map_length: "try_map f xs = Inr ys \<Longrightarrow> length ys = length xs"
  by (auto simp: try_map_Inr_iff dest: list_all2_lengthD)

section \<open>Results with state\<close>

text \<open>
  \<open>st_then m f\<close> is \<open>let x = m?; f x\<close> for operations on \<open>&mut self\<close>: an error leaves the
  method, but what was mutated before it stays mutated.
\<close>

definition st_then :: "('e + 'a) \<times> 's \<Rightarrow> ('a \<Rightarrow> 's \<Rightarrow> ('e + 'b) \<times> 's) \<Rightarrow> ('e + 'b) \<times> 's" where
  "st_then m f = (case m of (Inl e, s) \<Rightarrow> (Inl e, s) | (Inr x, s) \<Rightarrow> f x s)"

lemma st_then_simps [simp, res_simps]:
  "st_then (Inl e, s) f = (Inl e, s)"
  "st_then (Inr x, s) f = f x s"
  by (simp_all add: st_then_def)

lemma st_then_Inr_iff [res_simps]:
  "st_then m f = (Inr y, t) \<longleftrightarrow> (\<exists>x s. m = (Inr x, s) \<and> f x s = (Inr y, t))"
  by (cases m; cases "fst m") auto

lemma snd_st_then: "snd (st_then m f) = (case fst m of Inl _ \<Rightarrow> snd m | Inr x \<Rightarrow> snd (f x (snd m)))"
  by (cases m; cases "fst m") auto

section \<open>Fixed-width arithmetic\<close>

definition checked_add :: "'a::len word \<Rightarrow> 'a word \<Rightarrow> 'a word option" where
  "checked_add a b = (if unat a + unat b < 2 ^ LENGTH('a) then Some (a + b) else None)"

definition checked_sub :: "'a::len word \<Rightarrow> 'a word \<Rightarrow> 'a word option" where
  "checked_sub a b = (if b \<le> a then Some (a - b) else None)"

definition checked_mul :: "'a::len word \<Rightarrow> 'a word \<Rightarrow> 'a word option" where
  "checked_mul a b = (if unat a * unat b < 2 ^ LENGTH('a) then Some (a * b) else None)"

definition saturating_add :: "'a::len word \<Rightarrow> 'a word \<Rightarrow> 'a word" where
  "saturating_add a b = (case checked_add a b of None \<Rightarrow> - 1 | Some c \<Rightarrow> c)"

definition saturating_sub :: "'a::len word \<Rightarrow> 'a word \<Rightarrow> 'a word" where
  "saturating_sub a b = (if a \<le> b then 0 else a - b)"

definition saturating_mul :: "'a::len word \<Rightarrow> 'a word \<Rightarrow> 'a word" where
  "saturating_mul a b = (case checked_mul a b of None \<Rightarrow> - 1 | Some c \<Rightarrow> c)"

lemma checked_add_Some_iff [arith_simps]:
  fixes a :: "'a::len word"
  shows "checked_add a b = Some c \<longleftrightarrow> unat c = unat a + unat b"
proof
  assume "checked_add a b = Some c"
  then show "unat c = unat a + unat b"
    by (auto simp: checked_add_def unat_word_ariths(1) split: if_splits)
next
  assume eq: "unat c = unat a + unat b"
  have "unat a + unat b < 2 ^ LENGTH('a)" unfolding eq [symmetric] by (rule unsigned_less)
  moreover have "c = a + b" using arg_cong [OF eq, of "of_nat :: nat \<Rightarrow> 'a word"] by simp
  ultimately show "checked_add a b = Some c" unfolding checked_add_def by simp
qed

lemma checked_add_None_iff [arith_simps]:
  fixes a :: "'a::len word"
  shows "checked_add a b = None \<longleftrightarrow> 2 ^ LENGTH('a) \<le> unat a + unat b"
  by (auto simp: checked_add_def)

lemma checked_mul_Some_iff [arith_simps]:
  fixes a :: "'a::len word"
  shows "checked_mul a b = Some c \<longleftrightarrow> unat c = unat a * unat b"
proof
  assume "checked_mul a b = Some c"
  then show "unat c = unat a * unat b"
    by (auto simp: checked_mul_def unat_word_ariths(2) split: if_splits)
next
  assume eq: "unat c = unat a * unat b"
  have "unat a * unat b < 2 ^ LENGTH('a)" unfolding eq [symmetric] by (rule unsigned_less)
  moreover have "c = a * b" using arg_cong [OF eq, of "of_nat :: nat \<Rightarrow> 'a word"] by simp
  ultimately show "checked_mul a b = Some c" unfolding checked_mul_def by simp
qed

lemma checked_mul_None_iff [arith_simps]:
  fixes a :: "'a::len word"
  shows "checked_mul a b = None \<longleftrightarrow> 2 ^ LENGTH('a) \<le> unat a * unat b"
  by (auto simp: checked_mul_def)

lemma unat_minus_word: "b \<le> a \<Longrightarrow> unat (a - b) = unat a - unat b" for a :: "'a::len word"
  by (rule unat_sub)

lemma checked_sub_Some_iff [arith_simps]:
  fixes a :: "'a::len word"
  shows "checked_sub a b = Some c \<longleftrightarrow> unat b \<le> unat a \<and> unat c = unat a - unat b"
proof -
  have "a - b = c \<longleftrightarrow> unat c = unat a - unat b" if "b \<le> a"
    using that by (metis unat_minus_word unsigned_word_eqI)
  then show ?thesis by (auto simp: checked_sub_def word_le_nat_alt)
qed

lemma unat_saturating_sub [arith_simps, simp]: "unat (saturating_sub a b) = unat a - unat b"
  for a :: "'a::len word"
  by (auto simp: saturating_sub_def unat_minus_word word_le_nat_alt not_le)

lemma unat_minus_one_max: "unat (- 1 :: 'a::len word) = 2 ^ LENGTH('a) - 1"
  by (simp add: unsigned_minus_1_eq_mask mask_eq_exp_minus_1)

lemma unat_saturating_add [arith_simps]:
  fixes a :: "'a::len word"
  shows "unat (saturating_add a b) = min (2 ^ LENGTH('a) - 1) (unat a + unat b)"
proof (cases "checked_add a b")
  case None
  then show ?thesis
    by (auto simp: saturating_add_def unat_minus_one_max
        dest: checked_add_None_iff [THEN iffD1])
next
  case (Some c)
  then have eq: "unat c = unat a + unat b" by (simp add: checked_add_Some_iff)
  have "unat c < 2 ^ LENGTH('a)" by (rule unsigned_less)
  then show ?thesis using Some eq by (simp add: saturating_add_def)
qed

text \<open>\<open>let x = a.checked_add(b)\<close> followed by arithmetic on naturals: the word bound of a sum.\<close>

lemma unat_lt64 [simp]: "unat (x :: 64 word) < 18446744073709551616"
  using unsigned_less [of x] by simp

lemma unat_lt32 [simp]: "unat (x :: 32 word) < 4294967296"
  using unsigned_less [of x] by simp

lemma unat_lt8 [simp]: "unat (x :: 8 word) < 256"
  using unsigned_less [of x] by simp

lemma unat_word_of_nat_lt:
  "k < 2 ^ LENGTH('a) \<Longrightarrow> unat (word_of_nat k :: 'a::len word) = k"
  by (simp add: unat_of_nat)

lemma unat_word_of_nat_lt64: "k < 2 ^ 64 \<Longrightarrow> unat (word_of_nat k :: 64 word) = k"
  by (rule unat_word_of_nat_lt) simp

text \<open>Arithmetic that the guards have shown not to wrap reads as arithmetic on naturals.\<close>

lemma unat_add_nowrap:
  "unat a + unat b < 2 ^ LENGTH('a) \<Longrightarrow> unat (a + b) = unat a + unat b" for a :: "'a::len word"
  by (simp add: unat_word_ariths(1))

lemma unat_mult_nowrap:
  "unat a * unat b < 2 ^ LENGTH('a) \<Longrightarrow> unat (a * b) = unat a * unat b" for a :: "'a::len word"
  by (simp add: unat_word_ariths(2))

lemma checked_add_cases:
  fixes a :: "'a::len word"
  obtains (overflow) "checked_add a b = None" "2 ^ LENGTH('a) \<le> unat a + unat b"
  | (fits) c where "checked_add a b = Some c" "unat c = unat a + unat b"
  by (cases "checked_add a b") (auto simp: checked_add_Some_iff dest: checked_add_None_iff [THEN iffD1])

lemma bind_checked_add_Some:
  fixes a :: "'a::len word"
  shows "Option.bind (checked_add a b) f = Some y \<longleftrightarrow>
    unat a + unat b < 2 ^ LENGTH('a) \<and> f (a + b) = Some y"
  by (auto simp: checked_add_def)

lemma bind_checked_mul_Some:
  fixes a :: "'a::len word"
  shows "Option.bind (checked_mul a b) f = Some y \<longleftrightarrow>
    unat a * unat b < 2 ^ LENGTH('a) \<and> f (a * b) = Some y"
  by (auto simp: checked_mul_def)

lemma ex_checked_add:
  fixes a :: "'a::len word"
  shows "(\<exists>c. checked_add a b = Some c \<and> P c) \<longleftrightarrow> unat a + unat b < 2 ^ LENGTH('a) \<and> P (a + b)"
  by (auto simp: checked_add_def)

lemma ex_checked_mul:
  fixes a :: "'a::len word"
  shows "(\<exists>c. checked_mul a b = Some c \<and> P c) \<longleftrightarrow> unat a * unat b < 2 ^ LENGTH('a) \<and> P (a * b)"
  by (auto simp: checked_mul_def)

section \<open>Lists\<close>

text \<open>\<open>slice.get(from..to)\<close>: nothing outside the bounds.\<close>

definition slice_get :: "'a list \<Rightarrow> nat \<Rightarrow> nat \<Rightarrow> 'a list option" where
  "slice_get xs from to =
     (if from \<le> to \<and> to \<le> length xs then Some (take (to - from) (drop from xs)) else None)"

lemma slice_get_Some_iff:
  "slice_get xs a b = Some ys \<longleftrightarrow> a \<le> b \<and> b \<le> length xs \<and> ys = take (b - a) (drop a xs)"
  by (auto simp: slice_get_def)

lemma slice_get_append [simp]:
  "slice_get (xs @ ys @ zs) (length xs) (length xs + length ys) = Some ys"
  by (simp add: slice_get_def)

lemma find_SomeD: "find P xs = Some x \<Longrightarrow> P x \<and> x \<in> set xs"
  by (induction xs) (auto split: if_splits)

lemma sum_list_remove1:
  "x \<in> set xs \<Longrightarrow> sum_list (map f (remove1 x xs)) + f x = (sum_list (map f xs) :: nat)"
  by (induction xs) auto

lemma member_le_sum_list_map: "x \<in> set xs \<Longrightarrow> f x \<le> (sum_list (map f xs) :: nat)"
  by (induction xs) auto

lemma sorted_wrt_strict_distinct:
  "sorted_wrt (<) (map f xs) \<Longrightarrow> distinct (map f xs)" for f :: "'a \<Rightarrow> 'b::linorder"
  by (induction xs) auto

end
