(* ===== verification/Channel_Layout.thy ===== *)
theory Channel_Layout
  imports Prelude
begin

unbundle bit_operations_syntax

text \<open>
  Speaker masks and channel layouts (\<open>src/src/channel_layout.rs\<close>). A mask is a 32-bit
  word whose low 18 bits name speaker positions; a layout is one of the conventional
  arrangements or \<open>Unknown n\<close>. The lemmas show that the two views agree: the positions
  of a mask are its set bits in canonical order, conventional layouts survive the trip
  through their mask, and every mask keeps its channel count as a layout. Pan
  coordinates are whole degrees in the source and are modelled as integers.
\<close>

section \<open>Positions\<close>

datatype channel_position =
    FrontLeft | FrontRight | FrontCenter | Lfe1 | RearLeft | RearRight
  | FrontLeftCenter | FrontRightCenter | RearCenter | SideLeft | SideRight
  | TopCenter | TopFrontLeft | TopFrontCenter | TopFrontRight
  | TopRearLeft | TopRearCenter | TopRearRight

definition position_from_index :: "nat \<Rightarrow> channel_position option" where
  "position_from_index index =
    (if index = 0 then Some FrontLeft
     else if index = 1 then Some FrontRight
     else if index = 2 then Some FrontCenter
     else if index = 3 then Some Lfe1
     else if index = 4 then Some RearLeft
     else if index = 5 then Some RearRight
     else if index = 6 then Some FrontLeftCenter
     else if index = 7 then Some FrontRightCenter
     else if index = 8 then Some RearCenter
     else if index = 9 then Some SideLeft
     else if index = 10 then Some SideRight
     else if index = 11 then Some TopCenter
     else if index = 12 then Some TopFrontLeft
     else if index = 13 then Some TopFrontCenter
     else if index = 14 then Some TopFrontRight
     else if index = 15 then Some TopRearLeft
     else if index = 16 then Some TopRearCenter
     else if index = 17 then Some TopRearRight
     else None)"

fun position_label :: "channel_position \<Rightarrow> string" where
  "position_label FrontLeft = ''FL''"
| "position_label FrontRight = ''FR''"
| "position_label FrontCenter = ''FC''"
| "position_label Lfe1 = ''LFE''"
| "position_label RearLeft = ''RL''"
| "position_label RearRight = ''RR''"
| "position_label FrontLeftCenter = ''FLC''"
| "position_label FrontRightCenter = ''FRC''"
| "position_label RearCenter = ''RC''"
| "position_label SideLeft = ''SL''"
| "position_label SideRight = ''SR''"
| "position_label TopCenter = ''TC''"
| "position_label TopFrontLeft = ''TFL''"
| "position_label TopFrontCenter = ''TFC''"
| "position_label TopFrontRight = ''TFR''"
| "position_label TopRearLeft = ''TRL''"
| "position_label TopRearCenter = ''TRC''"
| "position_label TopRearRight = ''TRR''"

record pan_info =
  azimuth_degrees :: int
  elevation_degrees :: int
  gain :: int

definition pan_new :: "int \<Rightarrow> int \<Rightarrow> pan_info" where
  "pan_new azimuth elevation = \<lparr>azimuth_degrees = azimuth, elevation_degrees = elevation, gain = 1\<rparr>"

fun position_pan :: "channel_position \<Rightarrow> pan_info" where
  "position_pan FrontLeft = pan_new (-30) 0"
| "position_pan FrontRight = pan_new 30 0"
| "position_pan FrontCenter = pan_new 0 0"
| "position_pan Lfe1 = pan_new 0 (-10)"
| "position_pan RearLeft = pan_new (-110) 0"
| "position_pan RearRight = pan_new 110 0"
| "position_pan FrontLeftCenter = pan_new (-15) 0"
| "position_pan FrontRightCenter = pan_new 15 0"
| "position_pan RearCenter = pan_new 180 0"
| "position_pan SideLeft = pan_new (-90) 0"
| "position_pan SideRight = pan_new 90 0"
| "position_pan TopCenter = pan_new 0 90"
| "position_pan TopFrontLeft = pan_new (-30) 45"
| "position_pan TopFrontCenter = pan_new 0 45"
| "position_pan TopFrontRight = pan_new 30 45"
| "position_pan TopRearLeft = pan_new (-110) 45"
| "position_pan TopRearCenter = pan_new 180 45"
| "position_pan TopRearRight = pan_new 110 45"

section \<open>Masks\<close>

type_synonym channel_mask = u32

definition FRONT_LEFT :: u32 where "FRONT_LEFT = push_bit 0 1"
definition FRONT_RIGHT :: u32 where "FRONT_RIGHT = push_bit 1 1"
definition FRONT_CENTER :: u32 where "FRONT_CENTER = push_bit 2 1"
definition LFE1 :: u32 where "LFE1 = push_bit 3 1"
definition REAR_LEFT :: u32 where "REAR_LEFT = push_bit 4 1"
definition REAR_RIGHT :: u32 where "REAR_RIGHT = push_bit 5 1"
definition REAR_CENTER :: u32 where "REAR_CENTER = push_bit 8 1"
definition SIDE_LEFT :: u32 where "SIDE_LEFT = push_bit 9 1"
definition SIDE_RIGHT :: u32 where "SIDE_RIGHT = push_bit 10 1"

lemmas mask_consts = FRONT_LEFT_def FRONT_RIGHT_def FRONT_CENTER_def LFE1_def REAR_LEFT_def
  REAR_RIGHT_def REAR_CENTER_def SIDE_LEFT_def SIDE_RIGHT_def

definition mask_from_bits :: "u32 \<Rightarrow> channel_mask option" where
  "mask_from_bits bits = (if bits < push_bit 18 1 then Some bits else None)"

text \<open>\<open>u32::count_ones\<close>.\<close>

definition count_ones :: "u32 \<Rightarrow> nat" where
  "count_ones w = length (filter (bit w) [0..<32])"

definition mask_channels :: "channel_mask \<Rightarrow> nat" where
  "mask_channels m = count_ones m"

definition mask_positions :: "channel_mask \<Rightarrow> channel_position list" where
  "mask_positions m =
    List.map_filter position_from_index (filter (\<lambda>index. m AND push_bit index 1 \<noteq> 0) [0..<18])"

definition mask_position :: "channel_mask \<Rightarrow> nat \<Rightarrow> channel_position option" where
  "mask_position m channel =
    (let ps = mask_positions m in if channel < length ps then Some (ps ! channel) else None)"

definition mask_pan :: "channel_mask \<Rightarrow> pan_info list" where
  "mask_pan m = map position_pan (mask_positions m)"

section \<open>Layouts\<close>

datatype channel_layout =
    Mono | Stereo | TwoPointOne | Quad | FivePointZero | FivePointOne
  | SixPointOne | SevenPointOne | Unknown nat

definition layout_from_channel_count :: "nat \<Rightarrow> channel_layout" where
  "layout_from_channel_count channels =
    (if channels = 1 then Mono
     else if channels = 2 then Stereo
     else if channels = 3 then TwoPointOne
     else if channels = 4 then Quad
     else if channels = 5 then FivePointZero
     else if channels = 6 then FivePointOne
     else if channels = 7 then SixPointOne
     else if channels = 8 then SevenPointOne
     else Unknown channels)"

fun layout_channels :: "channel_layout \<Rightarrow> nat" where
  "layout_channels Mono = 1"
| "layout_channels Stereo = 2"
| "layout_channels TwoPointOne = 3"
| "layout_channels Quad = 4"
| "layout_channels FivePointZero = 5"
| "layout_channels FivePointOne = 6"
| "layout_channels SixPointOne = 7"
| "layout_channels SevenPointOne = 8"
| "layout_channels (Unknown channels) = channels"

fun layout_mask :: "channel_layout \<Rightarrow> channel_mask option" where
  "layout_mask Mono = Some FRONT_CENTER"
| "layout_mask Stereo = Some (FRONT_LEFT OR FRONT_RIGHT)"
| "layout_mask TwoPointOne = Some (FRONT_LEFT OR FRONT_RIGHT OR LFE1)"
| "layout_mask Quad = Some (FRONT_LEFT OR FRONT_RIGHT OR REAR_LEFT OR REAR_RIGHT)"
| "layout_mask FivePointZero =
     Some (FRONT_LEFT OR FRONT_RIGHT OR FRONT_CENTER OR REAR_LEFT OR REAR_RIGHT)"
| "layout_mask FivePointOne =
     Some (FRONT_LEFT OR FRONT_RIGHT OR FRONT_CENTER OR LFE1 OR REAR_LEFT OR REAR_RIGHT)"
| "layout_mask SixPointOne =
     Some (FRONT_LEFT OR FRONT_RIGHT OR FRONT_CENTER OR LFE1 OR REAR_CENTER OR SIDE_LEFT
           OR SIDE_RIGHT)"
| "layout_mask SevenPointOne =
     Some (FRONT_LEFT OR FRONT_RIGHT OR FRONT_CENTER OR LFE1 OR REAR_LEFT OR REAR_RIGHT
           OR SIDE_LEFT OR SIDE_RIGHT)"
| "layout_mask (Unknown _) = None"

definition layout_from_channel_mask :: "channel_mask \<Rightarrow> channel_layout" where
  "layout_from_channel_mask m =
    (case find (\<lambda>layout. layout_mask layout = Some m)
            [Mono, Stereo, TwoPointOne, Quad, FivePointZero, FivePointOne, SixPointOne, SevenPointOne]
     of Some layout \<Rightarrow> layout
      | None \<Rightarrow> Unknown (mask_channels m))"

fun layout_name :: "channel_layout \<Rightarrow> string" where
  "layout_name Mono = ''mono''"
| "layout_name Stereo = ''stereo''"
| "layout_name TwoPointOne = ''2.1''"
| "layout_name Quad = ''quad''"
| "layout_name FivePointZero = ''5.0''"
| "layout_name FivePointOne = ''5.1''"
| "layout_name SixPointOne = ''6.1''"
| "layout_name SevenPointOne = ''7.1''"
| "layout_name (Unknown _) = ''unknown''"

fun layout_is_surround :: "channel_layout \<Rightarrow> bool" where
  "layout_is_surround Mono = False"
| "layout_is_surround Stereo = False"
| "layout_is_surround (Unknown _) = False"
| "layout_is_surround _ = True"

section \<open>Correctness\<close>

text \<open>Testing a bit with \<open>self.0 & (1 << index)\<close> is reading that bit.\<close>

lemma and_shifted_one_bit: "(m AND push_bit index 1 \<noteq> 0) = bit m index" for m :: u32
  by (simp add: and_exp_eq_0_iff_not_bit)

text \<open>The mask bit of a position, the inverse of \<open>from_index\<close>.\<close>

fun position_bit :: "channel_position \<Rightarrow> nat" where
  "position_bit FrontLeft = 0"
| "position_bit FrontRight = 1"
| "position_bit FrontCenter = 2"
| "position_bit Lfe1 = 3"
| "position_bit RearLeft = 4"
| "position_bit RearRight = 5"
| "position_bit FrontLeftCenter = 6"
| "position_bit FrontRightCenter = 7"
| "position_bit RearCenter = 8"
| "position_bit SideLeft = 9"
| "position_bit SideRight = 10"
| "position_bit TopCenter = 11"
| "position_bit TopFrontLeft = 12"
| "position_bit TopFrontCenter = 13"
| "position_bit TopFrontRight = 14"
| "position_bit TopRearLeft = 15"
| "position_bit TopRearCenter = 16"
| "position_bit TopRearRight = 17"

lemma position_from_index_bit [simp]: "position_from_index (position_bit p) = Some p"
  by (cases p) (simp_all add: position_from_index_def)

lemma position_bit_from_index: "position_from_index i = Some p \<Longrightarrow> i = position_bit p"
  by (auto simp: position_from_index_def split: if_splits)

lemma position_from_index_Some: "index < 18 \<Longrightarrow> \<exists>p. position_from_index index = Some p"
  by (simp add: position_from_index_def) presburger

lemma position_from_index_inj:
  "position_from_index i = Some p \<Longrightarrow> position_from_index j = Some p \<Longrightarrow> i = j"
  using position_bit_from_index by blast

lemma map_filter_total:
  "(\<And>x. x \<in> set xs \<Longrightarrow> \<exists>y. f x = Some y) \<Longrightarrow> List.map_filter f xs = map (\<lambda>x. the (f x)) xs"
  by (induction xs) (force simp: List.map_filter_simps split: option.splits)+

lemma mask_positions_eq:
  "mask_positions m = map (\<lambda>i. the (position_from_index i)) (filter (bit m) [0..<18])"
  unfolding mask_positions_def and_shifted_one_bit using position_from_index_Some
  by (auto intro!: map_filter_total)

lemma bit_bound18: "m < push_bit 18 1 \<Longrightarrow> 18 \<le> n \<Longrightarrow> \<not> bit m n" for m :: u32
proof -
  assume "m < push_bit 18 1" and n: "18 \<le> n"
  then have "m AND mask 18 = m" by (intro less_mask_eq) simp
  moreover have "\<not> bit (m AND mask 18) n" using n by (simp add: bit_simps)
  ultimately show "\<not> bit m n" by simp
qed

lemma count_ones_18: "m < push_bit 18 1 \<Longrightarrow> count_ones m = length (filter (bit m) [0..<18])"
proof -
  assume m: "m < push_bit 18 1"
  have split: "[0..<32] = [0..<18] @ [18..<32]" by (simp flip: upt_add_eq_append [of 0 18 14, simplified])
  have "filter (bit m) [18..<32] = []" using m bit_bound18 by (auto simp: filter_empty_conv)
  then show ?thesis by (simp only: count_ones_def split filter_append) simp
qed

lemma mask_positions_length: "mask_from_bits b = Some m \<Longrightarrow> length (mask_positions m) = mask_channels m"
  by (auto simp: mask_from_bits_def mask_positions_eq mask_channels_def count_ones_18
      split: if_splits)

lemma mask_positions_distinct: "distinct (mask_positions m)"
proof -
  have "inj_on (\<lambda>i. the (position_from_index i)) (set (filter (bit m) [0..<18]))"
  proof (rule inj_onI)
    fix i j
    assume ij: "i \<in> set (filter (bit m) [0..<18])" "j \<in> set (filter (bit m) [0..<18])"
      and eq: "the (position_from_index i) = the (position_from_index j)"
    then obtain p q where "position_from_index i = Some p" "position_from_index j = Some q"
      using position_from_index_Some by fastforce
    with eq show "i = j" using position_from_index_inj by simp
  qed
  then show ?thesis by (simp add: mask_positions_eq distinct_map)
qed

lemma mask_positions_member:
  "position_from_index i = Some p \<Longrightarrow> p \<in> set (mask_positions m) \<longleftrightarrow> i < 18 \<and> bit m i"
  (is "?some \<Longrightarrow> _")
proof -
  assume i: ?some
  then have "i < 18" by (auto simp: position_from_index_def split: if_splits)
  moreover have "p \<in> set (mask_positions m) \<longleftrightarrow> (\<exists>j<18. bit m j \<and> position_from_index j = Some p)"
    using position_from_index_Some by (force simp: mask_positions_eq)
  ultimately show ?thesis using i position_from_index_inj by blast
qed

lemma layout_mask_values:
  "layout_mask Mono = Some 4" "layout_mask Stereo = Some 3" "layout_mask TwoPointOne = Some 11"
  "layout_mask Quad = Some 51" "layout_mask FivePointZero = Some 55"
  "layout_mask FivePointOne = Some 63" "layout_mask SixPointOne = Some 1807"
  "layout_mask SevenPointOne = Some 1599"
  by (simp_all add: mask_consts)

declare layout_mask.simps(1-8) [simp del]

text \<open>Every conventional layout has a mask with as many bits as it has channels.\<close>

lemma layout_mask_count:
  "layout_mask l = Some m \<Longrightarrow> mask_channels m = layout_channels l \<and> m < push_bit 18 1"
  by (cases l) (auto simp: layout_mask_values mask_channels_def count_ones_def upt_rec)

lemma layout_from_channel_count_channels: "layout_channels (layout_from_channel_count n) = n"
  by (simp add: layout_from_channel_count_def)

lemma layout_from_channel_count_known:
  "(\<And>k. l \<noteq> Unknown k) \<Longrightarrow> layout_from_channel_count (layout_channels l) = l"
  by (cases l) (simp_all add: layout_from_channel_count_def)

text \<open>The reverse pan of a left position is its right partner.\<close>

lemma position_pan_mirror:
  "(a, b) \<in> {(FrontLeft, FrontRight), (RearLeft, RearRight), (FrontLeftCenter, FrontRightCenter),
     (SideLeft, SideRight), (TopFrontLeft, TopFrontRight), (TopRearLeft, TopRearRight)} \<Longrightarrow>
   azimuth_degrees (position_pan a) = - azimuth_degrees (position_pan b) \<and>
   elevation_degrees (position_pan a) = elevation_degrees (position_pan b)"
  by (auto simp: pan_new_def)

text \<open>a conventional layout is recovered from its own mask, and the mask carries exactly
  the layout's number of channels and of speaker positions.\<close>

theorem layout_mask_roundtrip:
  assumes "layout_mask l = Some m"
  shows "layout_from_channel_mask m = l \<and> mask_channels m = layout_channels l
    \<and> length (mask_positions m) = layout_channels l \<and> mask_from_bits m = Some m"
proof -
  have "layout_from_channel_mask m = l"
    using assms by (cases l) (auto simp: layout_from_channel_mask_def layout_mask_values)
  moreover have "mask_from_bits m = Some m"
    using layout_mask_count [OF assms] by (simp add: mask_from_bits_def)
  ultimately show ?thesis
    using layout_mask_count [OF assms] mask_positions_length by simp
qed

theorem layout_mask_roundtrip_witness:
  "layout_from_channel_mask 63 = FivePointOne \<and> length (mask_positions 63) = 6"
  using layout_mask_roundtrip [of FivePointOne 63] by (simp add: layout_mask_values)

text \<open>Every standardized mask, conventional or not, keeps its channel count as a layout,
  and its positions are distinct, one per channel, with a lookup exactly for the channels it has.\<close>

theorem mask_layout_channels:
  assumes "mask_from_bits bits = Some m"
  shows "layout_channels (layout_from_channel_mask m) = mask_channels m
    \<and> length (mask_positions m) = mask_channels m \<and> distinct (mask_positions m)
    \<and> (mask_position m c \<noteq> None) = (c < mask_channels m)"
proof -
  have "layout_channels (layout_from_channel_mask m) = mask_channels m"
    using layout_mask_count find_SomeD
    by (force simp: layout_from_channel_mask_def simp del: find.simps split: option.splits)
  then show ?thesis
    using mask_positions_length [OF assms] mask_positions_distinct
    by (simp add: mask_position_def Let_def)
qed

theorem mask_layout_channels_witness:
  "layout_channels (layout_from_channel_mask 1025) = mask_channels 1025 \<and> mask_position 1025 1 \<noteq> None"
  using mask_layout_channels [of 1025 1025 1]
  by (simp add: mask_from_bits_def mask_channels_def count_ones_def upt_rec)

end
