(* ===== verification/Resource_Governor.thy ===== *)
theory Resource_Governor
  imports Prelude
begin

text \<open>
  Process-wide admission control (\<open>src/src/resource.rs\<close>) and the memory estimates it is
  fed with (\<open>src/src/audio.rs\<close>). The governor owns ceilings and the aggregate usage
  behind a mutex; a permit is the request it was issued for. Threads are interleaved by
  the step relation \<open>gov_step\<close>: non-blocking admission, the wait loop of a blocking
  admission (one step per turn of the loop under the lock), cancellation, release, and a
  panic under the lock, which poisons it. The interface \<open>admission_control\<close> states what
  admission and release promise per resource; the governor is its interpretation.
\<close>

section \<open>Estimates\<close>

text \<open>A decoded sample is an \<open>f64\<close>, whose value plays no part here: samples have any type.\<close>

definition estimate_audio_memory_bytes :: "'s list list \<Rightarrow> u64" where
  "estimate_audio_memory_bytes channels =
    (let samples = fold (\<lambda>channel total. saturating_add total (word_of_nat (length channel)))
                     channels 0
     in saturating_add (saturating_mul samples 8)
          (saturating_mul (word_of_nat (length channels)) 256))"

definition MIN_MEMORY_ESTIMATE_BYTES :: u64 where "MIN_MEMORY_ESTIMATE_BYTES = 1024 * 1024"

definition estimate_audio_working_set_bytes :: "'s list list \<Rightarrow> u64" where
  "estimate_audio_working_set_bytes channels =
    max (saturating_mul (estimate_audio_memory_bytes channels) 3) MIN_MEMORY_ESTIMATE_BYTES"

definition TEMPORARY_STAGE_OVERHEAD_BYTES :: u64 where
  "TEMPORARY_STAGE_OVERHEAD_BYTES = 1024 * 1024"
definition GPU_RUNTIME_ALLOWANCE_BYTES :: u64 where
  "GPU_RUNTIME_ALLOWANCE_BYTES = 128 * 1024 * 1024"
definition MODEL_RUNTIME_ALLOWANCE_BYTES :: u64 where
  "MODEL_RUNTIME_ALLOWANCE_BYTES = 64 * 1024 * 1024"
definition MODEL_RESERVATION_MULTIPLIER :: u64 where "MODEL_RESERVATION_MULTIPLIER = 3"
definition GPU_PCM_TRANSFER_COPIES :: u64 where "GPU_PCM_TRANSFER_COPIES = 2"

datatype resource = Memory | TemporaryDisk | CpuJobs | GpuJobs | GpuMemory

datatype gov_error =
    LimitMustBePositive resource
  | RequestExceedsLimit resource nat nat
  | ProcessReservationOverflow resource
  | CombinedReservationOverflow resource
  | TemporaryReservationOverflow
  | ModelReservationOverflow
  | GpuSessionReservationOverflow
  | GpuWorkerReservationOverflow
  | AdmissionCancelled
  | LockPoisoned

definition estimate_temporary_bytes :: "u64 \<Rightarrow> 's list list \<Rightarrow> gov_error + u64" where
  "estimate_temporary_bytes input_bytes channels =
    ok_or (Option.bind (Option.bind (checked_mul input_bytes 2)
             (\<lambda>bytes. checked_add bytes (estimate_audio_memory_bytes channels)))
             (\<lambda>bytes. checked_add bytes TEMPORARY_STAGE_OVERHEAD_BYTES))
      TemporaryReservationOverflow"

definition estimate_model_session_bytes :: "u64 \<Rightarrow> gov_error + u64" where
  "estimate_model_session_bytes model_file_bytes =
    ok_or (Option.bind (checked_mul model_file_bytes MODEL_RESERVATION_MULTIPLIER)
             (\<lambda>bytes. checked_add bytes MODEL_RUNTIME_ALLOWANCE_BYTES))
      ModelReservationOverflow"

definition estimate_gpu_session_bytes :: "u64 \<Rightarrow> gov_error + u64" where
  "estimate_gpu_session_bytes model_file_bytes =
    and_then (estimate_model_session_bytes model_file_bytes)
      (\<lambda>bytes. ok_or (checked_add bytes GPU_RUNTIME_ALLOWANCE_BYTES) GpuSessionReservationOverflow)"

definition estimate_gpu_worker_bytes :: "'s list list \<Rightarrow> gov_error + u64" where
  "estimate_gpu_worker_bytes channels =
    ok_or (checked_mul (estimate_audio_memory_bytes channels) GPU_PCM_TRANSFER_COPIES)
      GpuWorkerReservationOverflow"

section \<open>Limits, requests and usage\<close>

record resource_limits =
  max_memory_bytes :: "u64 option"
  max_temporary_bytes :: "u64 option"
  max_cpu_jobs :: "usize option"
  max_gpu_jobs :: "usize option"
  max_gpu_memory_bytes :: "u64 option"

definition limits_new :: resource_limits where
  "limits_new = \<lparr>max_memory_bytes = None, max_temporary_bytes = None, max_cpu_jobs = None,
     max_gpu_jobs = None, max_gpu_memory_bytes = None\<rparr>"

definition limits_validate :: "resource_limits \<Rightarrow> gov_error + unit" where
  "limits_validate limits =
    try_all (\<lambda>(name, limit). fail_if (limit = Some 0) (LimitMustBePositive name))
      [(CpuJobs, max_cpu_jobs limits), (GpuJobs, max_gpu_jobs limits)]"

record resource_request =
  req_memory_bytes :: u64
  req_temporary_bytes :: u64
  req_cpu_jobs :: usize
  req_gpu_jobs :: usize
  req_gpu_memory_bytes :: u64

definition request_new :: resource_request where
  "request_new = \<lparr>req_memory_bytes = 0, req_temporary_bytes = 0, req_cpu_jobs = 0,
     req_gpu_jobs = 0, req_gpu_memory_bytes = 0\<rparr>"

definition request_worker :: "u64 \<Rightarrow> u64 \<Rightarrow> resource_request" where
  "request_worker memory_bytes temporary_bytes =
    request_new\<lparr>req_memory_bytes := memory_bytes, req_temporary_bytes := temporary_bytes,
      req_cpu_jobs := 1\<rparr>"

definition request_checked_add ::
  "resource_request \<Rightarrow> resource_request \<Rightarrow> gov_error + resource_request" where
  "request_checked_add self other =
    and_then (ok_or (checked_add (req_memory_bytes self) (req_memory_bytes other))
                (CombinedReservationOverflow Memory)) (\<lambda>memory.
    and_then (ok_or (checked_add (req_temporary_bytes self) (req_temporary_bytes other))
                (CombinedReservationOverflow TemporaryDisk)) (\<lambda>temporary.
    and_then (ok_or (checked_add (req_cpu_jobs self) (req_cpu_jobs other))
                (CombinedReservationOverflow CpuJobs)) (\<lambda>cpu.
    and_then (ok_or (checked_add (req_gpu_jobs self) (req_gpu_jobs other))
                (CombinedReservationOverflow GpuJobs)) (\<lambda>gpu.
    and_then (ok_or (checked_add (req_gpu_memory_bytes self) (req_gpu_memory_bytes other))
                (CombinedReservationOverflow GpuMemory)) (\<lambda>gpu_memory.
    Inr \<lparr>req_memory_bytes = memory, req_temporary_bytes = temporary, req_cpu_jobs = cpu,
         req_gpu_jobs = gpu, req_gpu_memory_bytes = gpu_memory\<rparr>)))))"

record resource_usage =
  use_memory_bytes :: u64
  use_temporary_bytes :: u64
  use_cpu_jobs :: usize
  use_gpu_jobs :: usize
  use_gpu_memory_bytes :: u64

definition usage_default :: resource_usage where
  "usage_default = \<lparr>use_memory_bytes = 0, use_temporary_bytes = 0, use_cpu_jobs = 0,
     use_gpu_jobs = 0, use_gpu_memory_bytes = 0\<rparr>"

definition add_request :: "resource_usage \<Rightarrow> resource_request \<Rightarrow> gov_error + resource_usage" where
  "add_request usage request =
    and_then (ok_or (checked_add (use_memory_bytes usage) (req_memory_bytes request))
                (ProcessReservationOverflow Memory)) (\<lambda>memory.
    and_then (ok_or (checked_add (use_temporary_bytes usage) (req_temporary_bytes request))
                (ProcessReservationOverflow TemporaryDisk)) (\<lambda>temporary.
    and_then (ok_or (checked_add (use_cpu_jobs usage) (req_cpu_jobs request))
                (ProcessReservationOverflow CpuJobs)) (\<lambda>cpu.
    and_then (ok_or (checked_add (use_gpu_jobs usage) (req_gpu_jobs request))
                (ProcessReservationOverflow GpuJobs)) (\<lambda>gpu.
    and_then (ok_or (checked_add (use_gpu_memory_bytes usage) (req_gpu_memory_bytes request))
                (ProcessReservationOverflow GpuMemory)) (\<lambda>gpu_memory.
    Inr \<lparr>use_memory_bytes = memory, use_temporary_bytes = temporary, use_cpu_jobs = cpu,
         use_gpu_jobs = gpu, use_gpu_memory_bytes = gpu_memory\<rparr>)))))"

text \<open>\<open>limit.is_some_and(|limit| proposed > limit)\<close>.\<close>

definition over :: "'a::len word \<Rightarrow> 'a word option \<Rightarrow> bool" where
  "over proposed limit = (case limit of None \<Rightarrow> False | Some l \<Rightarrow> l < proposed)"

definition request_fits ::
  "resource_limits \<Rightarrow> resource_usage \<Rightarrow> resource_request \<Rightarrow> gov_error + bool" where
  "request_fits limits usage request =
    and_then (add_request usage request) (\<lambda>proposed.
      Inr (\<not> over (use_memory_bytes proposed) (max_memory_bytes limits)
         \<and> \<not> over (use_temporary_bytes proposed) (max_temporary_bytes limits)
         \<and> \<not> over (use_cpu_jobs proposed) (max_cpu_jobs limits)
         \<and> \<not> over (use_gpu_jobs proposed) (max_gpu_jobs limits)
         \<and> \<not> over (use_gpu_memory_bytes proposed) (max_gpu_memory_bytes limits)))"

section \<open>The governor\<close>

record governor =
  gov_limits :: resource_limits
  gov_usage :: resource_usage
  gov_poisoned :: bool

definition governor_new :: "resource_limits \<Rightarrow> gov_error + governor" where
  "governor_new limits =
    and_then (limits_validate limits) (\<lambda>_.
      Inr \<lparr>gov_limits = limits, gov_usage = usage_default, gov_poisoned = False\<rparr>)"

definition governor_usage :: "governor \<Rightarrow> gov_error + resource_usage" where
  "governor_usage g = (if gov_poisoned g then Inl LockPoisoned else Inr (gov_usage g))"

definition exceeds ::
  "resource \<times> 'a::len word \<times> 'a word option \<Rightarrow> gov_error + unit" where
  "exceeds = (\<lambda>(name, requested, limit).
     case limit of None \<Rightarrow> Inr ()
     | Some l \<Rightarrow> fail_if (l < requested) (RequestExceedsLimit name (unat requested) (unat l)))"

definition validate_request :: "governor \<Rightarrow> resource_request \<Rightarrow> gov_error + unit" where
  "validate_request g request =
    and_then (try_all exceeds
      [(Memory, req_memory_bytes request, max_memory_bytes (gov_limits g)),
       (TemporaryDisk, req_temporary_bytes request, max_temporary_bytes (gov_limits g)),
       (GpuMemory, req_gpu_memory_bytes request, max_gpu_memory_bytes (gov_limits g))]) (\<lambda>_.
    try_all exceeds
      [(CpuJobs, req_cpu_jobs request, max_cpu_jobs (gov_limits g)),
       (GpuJobs, req_gpu_jobs request, max_gpu_jobs (gov_limits g))])"

text \<open>A permit is the request it holds; \<open>Inr None\<close> is \<open>Ok(None)\<close>.\<close>

definition try_acquire ::
  "governor \<Rightarrow> resource_request \<Rightarrow> (gov_error + resource_request option) \<times> governor" where
  "try_acquire g request =
    (case validate_request g request of Inl e \<Rightarrow> (Inl e, g)
     | Inr _ \<Rightarrow>
       if gov_poisoned g then (Inl LockPoisoned, g)
       else (case request_fits (gov_limits g) (gov_usage g) request of
           Inl e \<Rightarrow> (Inl e, g)
         | Inr False \<Rightarrow> (Inr None, g)
         | Inr True \<Rightarrow>
             (case add_request (gov_usage g) request of
                Inl e \<Rightarrow> (Inl e, g)
              | Inr usage \<Rightarrow> (Inr (Some request), g\<lparr>gov_usage := usage\<rparr>))))"

text \<open>
  One turn of the loop of \<open>acquire_with_cancel\<close>, holding the lock: \<open>Inr None\<close> is a turn
  that goes on to \<open>wait_timeout\<close>. The answer of the cancellation predicate is an input.
\<close>

definition acquire_turn ::
  "governor \<Rightarrow> resource_request \<Rightarrow> bool \<Rightarrow> (gov_error + resource_request option) \<times> governor" where
  "acquire_turn g request cancelled =
    (if gov_poisoned g then (Inl LockPoisoned, g)
     else if cancelled then (Inl AdmissionCancelled, g)
     else (case request_fits (gov_limits g) (gov_usage g) request of
         Inl e \<Rightarrow> (Inl e, g)
       | Inr False \<Rightarrow> (Inr None, g)
       | Inr True \<Rightarrow>
           (case add_request (gov_usage g) request of
              Inl e \<Rightarrow> (Inl e, g)
            | Inr usage \<Rightarrow> (Inr (Some request), g\<lparr>gov_usage := usage\<rparr>))))"

text \<open>
  The loop itself, against what each turn finds under the lock (the governor other threads
  left, and the predicate's answer). \<open>None\<close>: every listed turn waited.
\<close>

fun acquire_loop ::
  "resource_request \<Rightarrow> (governor \<times> bool) list \<Rightarrow> ((gov_error + resource_request) \<times> governor) option" where
  "acquire_loop request [] = None"
| "acquire_loop request ((g, cancelled) # turns) =
    (case acquire_turn g request cancelled of
       (Inl e, g') \<Rightarrow> Some (Inl e, g')
     | (Inr (Some permit), g') \<Rightarrow> Some (Inr permit, g')
     | (Inr None, g') \<Rightarrow> acquire_loop request turns)"

definition acquire_with_cancel ::
  "governor \<Rightarrow> resource_request \<Rightarrow> (governor \<times> bool) list
     \<Rightarrow> ((gov_error + resource_request) \<times> governor) option" where
  "acquire_with_cancel g request turns =
    (case validate_request g request of
       Inl e \<Rightarrow> Some (Inl e, g)
     | Inr _ \<Rightarrow> acquire_loop request turns)"

definition governor_release :: "governor \<Rightarrow> resource_request \<Rightarrow> governor" where
  "governor_release g request =
    (if gov_poisoned g then g
     else g\<lparr>gov_usage :=
       \<lparr>use_memory_bytes = saturating_sub (use_memory_bytes (gov_usage g)) (req_memory_bytes request),
        use_temporary_bytes =
          saturating_sub (use_temporary_bytes (gov_usage g)) (req_temporary_bytes request),
        use_cpu_jobs = saturating_sub (use_cpu_jobs (gov_usage g)) (req_cpu_jobs request),
        use_gpu_jobs = saturating_sub (use_gpu_jobs (gov_usage g)) (req_gpu_jobs request),
        use_gpu_memory_bytes =
          saturating_sub (use_gpu_memory_bytes (gov_usage g)) (req_gpu_memory_bytes request)\<rparr>\<rparr>)"

text \<open>\<open>release_once\<close>: explicit release and \<open>Drop\<close> share it; the flag makes it idempotent.\<close>

record resource_permit =
  permit_request :: resource_request
  permit_released :: bool

definition release_once :: "governor \<Rightarrow> resource_permit \<Rightarrow> governor \<times> resource_permit" where
  "release_once g permit =
    (if permit_released permit then (g, permit)
     else (governor_release g (permit_request permit), permit\<lparr>permit_released := True\<rparr>))"

section \<open>Per-resource view\<close>

fun usage_of :: "resource_usage \<Rightarrow> resource \<Rightarrow> nat" where
  "usage_of u Memory = unat (use_memory_bytes u)"
| "usage_of u TemporaryDisk = unat (use_temporary_bytes u)"
| "usage_of u CpuJobs = unat (use_cpu_jobs u)"
| "usage_of u GpuJobs = unat (use_gpu_jobs u)"
| "usage_of u GpuMemory = unat (use_gpu_memory_bytes u)"

fun cost_of :: "resource_request \<Rightarrow> resource \<Rightarrow> nat" where
  "cost_of r Memory = unat (req_memory_bytes r)"
| "cost_of r TemporaryDisk = unat (req_temporary_bytes r)"
| "cost_of r CpuJobs = unat (req_cpu_jobs r)"
| "cost_of r GpuJobs = unat (req_gpu_jobs r)"
| "cost_of r GpuMemory = unat (req_gpu_memory_bytes r)"

fun ceiling_of :: "resource_limits \<Rightarrow> resource \<Rightarrow> nat option" where
  "ceiling_of l Memory = map_option unat (max_memory_bytes l)"
| "ceiling_of l TemporaryDisk = map_option unat (max_temporary_bytes l)"
| "ceiling_of l CpuJobs = map_option unat (max_cpu_jobs l)"
| "ceiling_of l GpuJobs = map_option unat (max_gpu_jobs l)"
| "ceiling_of l GpuMemory = map_option unat (max_gpu_memory_bytes l)"

lemma all_resource: "(\<forall>k. P k) \<longleftrightarrow> P Memory \<and> P TemporaryDisk \<and> P CpuJobs \<and> P GpuJobs \<and> P GpuMemory"
  by (metis resource.exhaust)

lemma over_iff: "over x limit \<longleftrightarrow> (\<exists>m. map_option unat limit = Some m \<and> m < unat x)"
  by (auto simp: over_def word_less_nat_alt split: option.splits)

lemma add_request_usage:
  "add_request u r = Inr u' \<longleftrightarrow> (\<forall>k. usage_of u' k = usage_of u k + cost_of r k)"
  unfolding all_resource usage_of.simps cost_of.simps arith_simps [symmetric]
  by (cases u') (auto simp: add_request_def res_simps)

lemma request_checked_add_cost:
  "request_checked_add a b = Inr c \<longleftrightarrow> (\<forall>k. cost_of c k = cost_of a k + cost_of b k)"
  unfolding all_resource cost_of.simps arith_simps [symmetric]
  by (cases c) (auto simp: request_checked_add_def res_simps)

lemma request_fits_True_iff:
  "request_fits l u r = Inr True \<longleftrightarrow>
     (\<exists>u'. add_request u r = Inr u' \<and> (\<forall>k m. ceiling_of l k = Some m \<longrightarrow> usage_of u' k \<le> m))"
proof -
  have "(\<forall>k m. ceiling_of l k = Some m \<longrightarrow> usage_of u' k \<le> m) \<longleftrightarrow>
      \<not> over (use_memory_bytes u') (max_memory_bytes l)
    \<and> \<not> over (use_temporary_bytes u') (max_temporary_bytes l)
    \<and> \<not> over (use_cpu_jobs u') (max_cpu_jobs l)
    \<and> \<not> over (use_gpu_jobs u') (max_gpu_jobs l)
    \<and> \<not> over (use_gpu_memory_bytes u') (max_gpu_memory_bytes l)" for u'
    unfolding all_resource over_iff ceiling_of.simps usage_of.simps by (auto simp: not_less)
  then show ?thesis by (auto simp: request_fits_def and_then_Inr_iff)
qed

lemma validate_request_ok_iff:
  "validate_request g r = Inr u \<longleftrightarrow>
     (\<forall>k m. ceiling_of (gov_limits g) k = Some m \<longrightarrow> cost_of r k \<le> m)"
proof -
  have ex: "exceeds (n, x, limit) = Inr () \<longleftrightarrow>
      (\<forall>m. map_option unat limit = Some m \<longrightarrow> unat x \<le> m)" for n limit and x :: u64
    by (auto simp: exceeds_def word_le_nat_alt not_less split: option.splits)
  show ?thesis
    unfolding all_resource validate_request_def and_then_unit_iff try_all_Inr_iff
    by (simp only: list.set ball_simps ex ceiling_of.simps cost_of.simps) argo
qed

section \<open>The interface and what a client may rely on\<close>

locale admission_control =
  fixes admit :: "'g \<Rightarrow> 'r \<Rightarrow> 'g option"
    and give_back :: "'g \<Rightarrow> 'r \<Rightarrow> 'g"
    and alive :: "'g \<Rightarrow> bool"
    and held :: "'g \<Rightarrow> 'k \<Rightarrow> nat"
    and cost :: "'r \<Rightarrow> 'k \<Rightarrow> nat"
    and top :: "'g \<Rightarrow> 'k \<Rightarrow> nat option"
  assumes admit_held: "admit g r = Some g' \<Longrightarrow> held g' k = held g k + cost r k"
    and admit_top: "admit g r = Some g' \<Longrightarrow> top g' k = Some m \<Longrightarrow> held g' k \<le> m"
    and admit_alive: "admit g r = Some g' \<Longrightarrow> alive g \<and> alive g'"
    and give_back_held: "alive g \<Longrightarrow> held (give_back g r) k = held g k - cost r k"
    and give_back_dead: "\<not> alive g \<Longrightarrow> give_back g r = g"
    and give_back_alive: "alive (give_back g r) = alive g"
    and give_back_top: "top (give_back g r) = top g"
begin

definition accounted :: "'g \<Rightarrow> 'r list \<Rightarrow> bool" where
  "accounted g live \<longleftrightarrow>
     (\<forall>k. (\<Sum>r\<leftarrow>live. cost r k) \<le> held g k \<and> (alive g \<longrightarrow> held g k = (\<Sum>r\<leftarrow>live. cost r k)))
   \<and> (\<forall>k m. top g k = Some m \<longrightarrow> held g k \<le> m)"

lemma accounted_admit: "accounted g live \<Longrightarrow> admit g r = Some g' \<Longrightarrow> accounted g' (r # live)"
  unfolding accounted_def
  by (simp add: admit_held [of g r g'] admit_alive [of g r g']) (metis admit_held admit_top)

lemma accounted_covers:
  assumes "accounted g live" and "r \<in> set live"
  shows "cost r k \<le> held g k"
proof -
  have "cost r k \<le> (\<Sum>r\<leftarrow>live. cost r k)"
    using assms(2) by (rule member_le_sum_list_map)
  with assms(1) show ?thesis by (auto simp: accounted_def intro: order_trans)
qed

lemma accounted_give_back:
  assumes acc: "accounted g live" and r: "r \<in> set live"
  shows "accounted (give_back g r) (remove1 r live)"
proof -
  have sum: "(\<Sum>x\<leftarrow>live. cost x k) = (\<Sum>x\<leftarrow>remove1 r live. cost x k) + cost r k" for k
    using sum_list_remove1 [OF r, of "\<lambda>x. cost x k"] by simp
  show ?thesis
  proof (cases "alive g")
    case True
    have "held (give_back g r) k = (\<Sum>x\<leftarrow>remove1 r live. cost x k)" for k
      using acc True by (simp add: accounted_def give_back_held sum)
    moreover have "held (give_back g r) k \<le> held g k" for k
      using True by (simp add: give_back_held)
    ultimately show ?thesis
      using acc True unfolding accounted_def give_back_top by (metis le_refl order_trans)
  next
    case False
    have "(\<Sum>x\<leftarrow>remove1 r live. cost x k) \<le> held g k" for k
    proof -
      have "(\<Sum>x\<leftarrow>live. cost x k) \<le> held g k" using acc by (simp add: accounted_def)
      with sum [of k] show ?thesis by linarith
    qed
    with acc False show ?thesis by (simp add: accounted_def give_back_dead)
  qed
qed

text \<open>Returning a permit undoes its admission.\<close>

lemma give_back_admitted: "admit g r = Some g' \<Longrightarrow> held (give_back g' r) k = held g k"
  using admit_held admit_alive give_back_held by fastforce

end

definition governor_admit :: "governor \<Rightarrow> resource_request \<Rightarrow> governor option" where
  "governor_admit g r =
    (if gov_poisoned g then None
     else if request_fits (gov_limits g) (gov_usage g) r = Inr True
     then map_option (\<lambda>u. g\<lparr>gov_usage := u\<rparr>) (ok (add_request (gov_usage g) r))
     else None)"

lemma governor_admit_Some_iff:
  "governor_admit g r = Some g' \<longleftrightarrow> \<not> gov_poisoned g
     \<and> (\<exists>u. g' = g\<lparr>gov_usage := u\<rparr> \<and> (\<forall>k. usage_of u k = usage_of (gov_usage g) k + cost_of r k)
          \<and> (\<forall>k m. ceiling_of (gov_limits g) k = Some m \<longrightarrow> usage_of u k \<le> m))"
  unfolding governor_admit_def request_fits_True_iff add_request_usage [symmetric]
  by (auto simp: ok_def)

interpretation governor: admission_control governor_admit governor_release
  "\<lambda>g. \<not> gov_poisoned g" "\<lambda>g. usage_of (gov_usage g)" cost_of "\<lambda>g. ceiling_of (gov_limits g)"
proof
  fix g :: governor and r k assume "\<not> gov_poisoned g"
  then show "usage_of (gov_usage (governor_release g r)) k = usage_of (gov_usage g) k - cost_of r k"
    by (cases k) (simp_all add: governor_release_def)
qed (auto simp: governor_admit_Some_iff governor_release_def)

lemma acquire_turn_cases:
  "acquire_turn g r cancelled = (res, g') \<Longrightarrow>
     (res = Inr (Some r) \<and> \<not> cancelled \<and> governor_admit g r = Some g')
   \<or> ((\<forall>p. res \<noteq> Inr (Some p)) \<and> g' = g)"
  by (auto simp: acquire_turn_def governor_admit_def split: if_splits sum.splits bool.splits)

lemma try_acquire_cases:
  "try_acquire g r = (res, g') \<Longrightarrow>
     (res = Inr (Some r) \<and> governor_admit g r = Some g') \<or> ((\<forall>p. res \<noteq> Inr (Some p)) \<and> g' = g)"
  by (auto simp: try_acquire_def governor_admit_def split: if_splits sum.splits bool.splits)

section \<open>Threads sharing one governor\<close>

text \<open>
  \<open>sys_live\<close> are the permits not yet released, \<open>sys_waiting\<close> the validated requests whose
  thread is inside the wait loop. A step is one critical section of some thread.
\<close>

record gov_system =
  sys_gov :: governor
  sys_live :: "resource_request list"
  sys_waiting :: "resource_request list"

fun granted :: "gov_error + resource_request option \<Rightarrow> resource_request list" where
  "granted (Inr (Some p)) = [p]"
| "granted _ = []"

inductive gov_step :: "gov_system \<Rightarrow> gov_system \<Rightarrow> bool" where
  attempt: "try_acquire (sys_gov s) r = (res, g') \<Longrightarrow>
    gov_step s (s\<lparr>sys_gov := g', sys_live := granted res @ sys_live s\<rparr>)"
| enter: "validate_request (sys_gov s) r = Inr () \<Longrightarrow>
    gov_step s (s\<lparr>sys_waiting := r # sys_waiting s\<rparr>)"
| turn_waits: "r \<in> set (sys_waiting s) \<Longrightarrow> acquire_turn (sys_gov s) r c = (Inr None, g') \<Longrightarrow>
    gov_step s (s\<lparr>sys_gov := g'\<rparr>)"
| turn_ends: "r \<in> set (sys_waiting s) \<Longrightarrow> acquire_turn (sys_gov s) r c = (res, g') \<Longrightarrow>
    res \<noteq> Inr None \<Longrightarrow>
    gov_step s (s\<lparr>sys_gov := g', sys_live := granted res @ sys_live s,
                  sys_waiting := remove1 r (sys_waiting s)\<rparr>)"
| release: "p \<in> set (sys_live s) \<Longrightarrow>
    gov_step s (s\<lparr>sys_gov := governor_release (sys_gov s) p, sys_live := remove1 p (sys_live s)\<rparr>)"
| panic: "gov_step s (s\<lparr>sys_gov := (sys_gov s)\<lparr>gov_poisoned := True\<rparr>\<rparr>)"

inductive gov_reachable :: "resource_limits \<Rightarrow> gov_system \<Rightarrow> bool" for limits where
  start: "governor_new limits = Inr g \<Longrightarrow>
    gov_reachable limits \<lparr>sys_gov = g, sys_live = [], sys_waiting = []\<rparr>"
| step: "gov_reachable limits s \<Longrightarrow> gov_step s t \<Longrightarrow> gov_reachable limits t"

lemma accounted_poison:
  "governor.accounted g live \<Longrightarrow> governor.accounted (g\<lparr>gov_poisoned := True\<rparr>) live"
  by (simp add: governor.accounted_def)

lemma accounted_granted:
  assumes "governor.accounted g live"
    and "(res = Inr (Some r) \<and> governor_admit g r = Some g') \<or> ((\<forall>p. res \<noteq> Inr (Some p)) \<and> g' = g)"
  shows "governor.accounted g' (granted res @ live)"
proof -
  have "granted res = []" if "\<forall>p. res \<noteq> Inr (Some p)"
    using that by (cases res rule: granted.cases) auto
  then show ?thesis using assms governor.accounted_admit by auto
qed

lemma gov_step_accounted:
  "gov_step s t \<Longrightarrow> governor.accounted (sys_gov s) (sys_live s) \<Longrightarrow>
   governor.accounted (sys_gov t) (sys_live t)"
proof (induction rule: gov_step.induct)
  case (attempt s r res g')
  then show ?case
    using accounted_granted [OF _ try_acquire_cases [OF attempt.hyps]] by simp
next
  case (turn_waits r s c g')
  then show ?case using acquire_turn_cases [OF turn_waits.hyps(2)] by auto
next
  case (turn_ends r s c res g')
  have "(res = Inr (Some r) \<and> governor_admit (sys_gov s) r = Some g')
      \<or> ((\<forall>p. res \<noteq> Inr (Some p)) \<and> g' = sys_gov s)"
    using acquire_turn_cases [OF turn_ends.hyps(2)] by blast
  from accounted_granted [OF turn_ends.prems this] show ?case by simp
next
  case (release p s)
  then show ?case by (simp add: governor.accounted_give_back)
next
  case (panic s)
  then show ?case by (simp add: accounted_poison)
qed simp

lemma reachable_accounted:
  "gov_reachable limits s \<Longrightarrow> governor.accounted (sys_gov s) (sys_live s)"
proof (induction rule: gov_reachable.induct)
  case (start g)
  then have "usage_of (gov_usage g) k = 0" for k
    by (cases k) (auto simp: governor_new_def usage_default_def and_then_Inr_iff)
  then show ?case by (simp add: governor.accounted_def)
next
  case (step s t)
  then show ?case by (blast intro: gov_step_accounted)
qed

lemma governor_admit_limits: "governor_admit g r = Some g' \<Longrightarrow> gov_limits g' = gov_limits g"
  by (auto simp: governor_admit_Some_iff)

lemma gov_step_limits: "gov_step s t \<Longrightarrow> gov_limits (sys_gov t) = gov_limits (sys_gov s)"
proof (induction rule: gov_step.induct)
  case (attempt s r res g')
  then show ?case using governor_admit_limits try_acquire_cases by fastforce
next
  case (turn_waits r s c g')
  then show ?case using acquire_turn_cases [OF turn_waits(2)] governor_admit_limits by auto
next
  case (turn_ends r s c res g')
  then show ?case using acquire_turn_cases [OF turn_ends(2)] governor_admit_limits by auto
qed (simp_all add: governor_release_def)

lemma reachable_limits: "gov_reachable limits s \<Longrightarrow> gov_limits (sys_gov s) = limits"
  by (induction rule: gov_reachable.induct)
    (auto simp: governor_new_def and_then_Inr_iff gov_step_limits)

text \<open>C24: however threads interleave, the recorded usage of every resource is exactly the sum
  of the permits still held (until a panic poisons the lock), and never exceeds its ceiling.\<close>

theorem governor_usage_exact:
  assumes "gov_reachable limits s"
  shows "(\<not> gov_poisoned (sys_gov s) \<longrightarrow>
      (\<forall>k. usage_of (gov_usage (sys_gov s)) k = (\<Sum>p\<leftarrow>sys_live s. cost_of p k)))
    \<and> (\<forall>k m. ceiling_of limits k = Some m \<longrightarrow> (\<Sum>p\<leftarrow>sys_live s. cost_of p k) \<le> m
          \<and> usage_of (gov_usage (sys_gov s)) k \<le> m)"
  using reachable_accounted [OF assms] reachable_limits [OF assms]
  by (fastforce simp: governor.accounted_def intro: order_trans)

definition one_gpu_limits :: resource_limits where
  "one_gpu_limits = limits_new\<lparr>max_memory_bytes := Some 100, max_gpu_jobs := Some 1\<rparr>"

lemma one_gpu_reachable:
  "gov_reachable one_gpu_limits
     \<lparr>sys_gov = \<lparr>gov_limits = one_gpu_limits,
        gov_usage = usage_default\<lparr>use_memory_bytes := 60, use_cpu_jobs := 1\<rparr>,
        gov_poisoned = False\<rparr>, sys_live = [request_worker 60 0], sys_waiting = []\<rparr>"
proof -
  let ?g = "\<lparr>gov_limits = one_gpu_limits, gov_usage = usage_default, gov_poisoned = False\<rparr>"
  let ?s = "\<lparr>sys_gov = ?g, sys_live = [], sys_waiting = []\<rparr>"
  have "governor_new one_gpu_limits = Inr ?g"
    by (simp add: governor_new_def limits_validate_def one_gpu_limits_def limits_new_def)
  then have "gov_reachable one_gpu_limits ?s" by (rule gov_reachable.start)
  moreover have "try_acquire (sys_gov ?s) (request_worker 60 0) =
      (Inr (Some (request_worker 60 0)),
       ?g\<lparr>gov_usage := usage_default\<lparr>use_memory_bytes := 60, use_cpu_jobs := 1\<rparr>\<rparr>)"
    by (simp add: try_acquire_def validate_request_def exceeds_def request_fits_def add_request_def
        over_def checked_add_def one_gpu_limits_def limits_new_def usage_default_def
        request_worker_def request_new_def)
  ultimately show ?thesis
    using gov_reachable.step gov_step.attempt by fastforce
qed

theorem governor_usage_exact_witness:
  "usage_of (usage_default\<lparr>use_memory_bytes := 60, use_cpu_jobs := 1\<rparr>) Memory = 60
   \<and> ceiling_of one_gpu_limits Memory = Some 100"
  using governor_usage_exact [OF one_gpu_reachable]
  by (auto simp: one_gpu_limits_def limits_new_def request_worker_def request_new_def)

text \<open>releasing a held permit subtracts exactly its request from every resource: the
  saturating subtraction of the code never saturates, so its debug assertions hold.\<close>

theorem governor_release_exact:
  assumes "gov_reachable limits s" and "p \<in> set (sys_live s)" and "\<not> gov_poisoned (sys_gov s)"
  shows "cost_of p k \<le> usage_of (gov_usage (sys_gov s)) k
    \<and> usage_of (gov_usage (governor_release (sys_gov s) p)) k + cost_of p k
        = usage_of (gov_usage (sys_gov s)) k"
  using governor.accounted_covers [OF reachable_accounted [OF assms(1)] assms(2), of k]
    governor.give_back_held [of "sys_gov s" p k] assms(3)
  by simp

theorem governor_release_exact_witness:
  "cost_of (request_worker 60 0) Memory \<le>
     usage_of (usage_default\<lparr>use_memory_bytes := 60, use_cpu_jobs := 1\<rparr>) Memory"
  using governor_release_exact [OF one_gpu_reachable, of "request_worker 60 0" Memory] by simp

text \<open>Admission of a validated request on an idle governor.\<close>

lemma idle_admits:
  assumes valid: "validate_request g r = Inr ()" and idle: "gov_usage g = usage_default"
    and live: "\<not> gov_poisoned g"
  shows "\<exists>g'. acquire_turn g r False = (Inr (Some r), g') \<and> (\<forall>k. usage_of (gov_usage g') k = cost_of r k)"
proof -
  let ?u = "\<lparr>use_memory_bytes = req_memory_bytes r, use_temporary_bytes = req_temporary_bytes r,
    use_cpu_jobs = req_cpu_jobs r, use_gpu_jobs = req_gpu_jobs r,
    use_gpu_memory_bytes = req_gpu_memory_bytes r\<rparr>"
  have u: "usage_of ?u k = usage_of (gov_usage g) k + cost_of r k" for k
    by (cases k) (simp_all add: idle usage_default_def)
  then have add: "add_request (gov_usage g) r = Inr ?u" by (simp add: add_request_usage)
  have zero: "usage_of (gov_usage g) k = 0" for k
    by (cases k) (simp_all add: idle usage_default_def)
  with u have cost: "usage_of ?u k = cost_of r k" for k by simp
  have "request_fits (gov_limits g) (gov_usage g) r = Inr True"
    using valid add cost unfolding request_fits_True_iff validate_request_ok_iff by metis
  with add live cost show ?thesis by (simp add: acquire_turn_def)
qed

text \<open>a blocking admission of a request the governor accepts as valid cannot wait past a turn
  that finds the governor idle: if some turn does, with no cancellation and no panic, the loop
  ends by that turn, and it ends by that turn's admission when the earlier turns only waited.\<close>

theorem acquire_ends_on_idle:
  assumes "validate_request g r = Inr ()"
    and "gov_usage g = usage_default" and "\<not> gov_poisoned g"
    and "\<forall>(h, c) \<in> set earlier. fst (acquire_turn h r c) = Inr None"
  shows "\<exists>g'. acquire_with_cancel g r (earlier @ (g, False) # later) = Some (Inr r, g')
    \<and> (\<forall>k. usage_of (gov_usage g') k = cost_of r k)"
proof -
  obtain g' where turn: "acquire_turn g r False = (Inr (Some r), g')"
    and held: "\<forall>k. usage_of (gov_usage g') k = cost_of r k"
    using idle_admits [OF assms(1-3)] by blast
  have "acquire_loop r (earlier @ (g, False) # later) = Some (Inr r, g')"
    using assms(4)
  proof (induction earlier)
    case Nil
    then show ?case by (simp add: turn)
  next
    case (Cons hc earlier)
    obtain h c where hc: "hc = (h, c)" by (cases hc)
    with Cons.prems obtain h' where "acquire_turn h r c = (Inr None, h')"
      by (cases "acquire_turn h r c") auto
    with Cons hc show ?case by simp
  qed
  with assms(1) held show ?thesis by (simp add: acquire_with_cancel_def)
qed

theorem acquire_ends_on_idle_witness:
  "\<exists>g'. acquire_with_cancel
      \<lparr>gov_limits = one_gpu_limits, gov_usage = usage_default, gov_poisoned = False\<rparr>
      (request_worker 60 0)
      [(\<lparr>gov_limits = one_gpu_limits, gov_usage = usage_default\<lparr>use_memory_bytes := 90\<rparr>,
         gov_poisoned = False\<rparr>, False),
       (\<lparr>gov_limits = one_gpu_limits, gov_usage = usage_default, gov_poisoned = False\<rparr>, False)]
    = Some (Inr (request_worker 60 0), g')"
proof -
  let ?g = "\<lparr>gov_limits = one_gpu_limits, gov_usage = usage_default, gov_poisoned = False\<rparr>"
  let ?busy = "(\<lparr>gov_limits = one_gpu_limits, gov_usage = usage_default\<lparr>use_memory_bytes := 90\<rparr>,
     gov_poisoned = False\<rparr>, False)"
  have "validate_request ?g (request_worker 60 0) = Inr ()"
    by (simp add: validate_request_def exceeds_def one_gpu_limits_def limits_new_def
        request_worker_def request_new_def)
  moreover have "\<forall>(h, c) \<in> set [?busy]. fst (acquire_turn h (request_worker 60 0) c) = Inr None"
    by (simp add: acquire_turn_def request_fits_def add_request_def over_def checked_add_def
        one_gpu_limits_def limits_new_def usage_default_def request_worker_def request_new_def)
  ultimately show ?thesis
    using acquire_ends_on_idle [of ?g "request_worker 60 0" "[?busy]" "[]"] by auto
qed

end
