(* ===== verification/Decode_Budget.thy ===== *)
theory Decode_Budget
  imports Prelude
begin

text \<open>
  Working-set accounting for whole-file decoding (\<open>src/src/decode/budget.rs\<close>). All sizes
  are 64-bit words; every product and sum is checked. A plane of decoded samples is its
  length and capacity. What \<open>try_reserve_exact\<close> does to a capacity is the allocator's
  choice: a parameter, of which only the documented guarantee is assumed (on success the
  capacity is at least the length plus the requested amount). Error messages carry a
  context label that plays no part in the control flow and is left out.
\<close>

definition MIN_NORMAL_WORKING_SET_BYTES :: u64 where
  "MIN_NORMAL_WORKING_SET_BYTES = 1024 * 1024"
definition F64_BYTES :: u64 where "F64_BYTES = 8"
definition CHANNEL_DESCRIPTOR_BYTES :: u64 where "CHANNEL_DESCRIPTOR_BYTES = 24"
definition NORMAL_CHANNEL_OVERHEAD_BYTES :: u64 where "NORMAL_CHANNEL_OVERHEAD_BYTES = 256"
definition MIN_INCREMENTAL_RESERVE_FRAMES :: usize where "MIN_INCREMENTAL_RESERVE_FRAMES = 1024"

datatype budget_error =
    RetainedBytesOverflow
  | WorkingSetOverflow
  | NormalChannelOverheadOverflow
  | NormalWorkingSetOverflow
  | DecodedBytesOverflow
  | PcmBytesOverflow
  | DescriptorBytesOverflow
  | PlaneCapacityOverflow
  | PlaneCapacityBytesOverflow
  | PlanarLengthsDiffer
  | FrameCountOverflow
  | TargetSmallerThanRetained usize usize
  | ReserveFailed
  | WorkingSetExceedsLimit u64 u64

record decode_budget =
  budget_limit :: "u64 option"
  budget_retained :: u64

definition budget_new :: "u64 option \<Rightarrow> decode_budget" where
  "budget_new max_working_set_bytes =
    \<lparr>budget_limit = max_working_set_bytes, budget_retained = 0\<rparr>"

definition check_requested :: "decode_budget \<Rightarrow> u64 \<Rightarrow> budget_error + unit" where
  "check_requested b requested =
    (case budget_limit b of
       None \<Rightarrow> Inr ()
     | Some limit \<Rightarrow>
         if limit < requested
         then Inl (WorkingSetExceedsLimit
                (saturating_add requested (MIN_NORMAL_WORKING_SET_BYTES - 1)
                   div MIN_NORMAL_WORKING_SET_BYTES)
                (limit div MIN_NORMAL_WORKING_SET_BYTES))
         else Inr ())"

definition check_peak :: "decode_budget \<Rightarrow> u64 \<Rightarrow> u64 \<Rightarrow> budget_error + unit" where
  "check_peak b retained_decoded_bytes temporary_bytes =
    and_then (ok_or (Option.bind (checked_add (budget_retained b) retained_decoded_bytes)
                (\<lambda>bytes. checked_add bytes temporary_bytes)) WorkingSetOverflow)
      (check_requested b)"

definition with_retained_bytes :: "decode_budget \<Rightarrow> u64 \<Rightarrow> budget_error + decode_budget" where
  "with_retained_bytes b retained_bytes =
    and_then (ok_or (checked_add (budget_retained b) retained_bytes) RetainedBytesOverflow) (\<lambda>total.
    let b' = b\<lparr>budget_retained := total\<rparr>
    in and_then (check_peak b' 0 0) (\<lambda>_. Inr b'))"

definition planar_pcm_bytes :: "usize \<Rightarrow> usize \<Rightarrow> budget_error + u64" where
  "planar_pcm_bytes channels frames =
    ok_or (Option.bind (checked_mul channels frames) (\<lambda>samples. checked_mul samples F64_BYTES))
      PcmBytesOverflow"

definition channel_descriptor_bytes :: "usize \<Rightarrow> budget_error + u64" where
  "channel_descriptor_bytes channels =
    ok_or (checked_mul channels CHANNEL_DESCRIPTOR_BYTES) DescriptorBytesOverflow"

definition check_planar_frames ::
  "decode_budget \<Rightarrow> usize \<Rightarrow> usize \<Rightarrow> u64 \<Rightarrow> budget_error + u64" where
  "check_planar_frames b channels frames temporary_bytes =
    and_then (planar_pcm_bytes channels frames) (\<lambda>pcm_bytes.
    and_then (channel_descriptor_bytes channels) (\<lambda>descriptor_bytes.
    and_then (ok_or (checked_mul channels NORMAL_CHANNEL_OVERHEAD_BYTES)
                NormalChannelOverheadOverflow) (\<lambda>normal_channel_overhead.
    and_then (ok_or (Option.bind (checked_add pcm_bytes normal_channel_overhead)
                (\<lambda>bytes. checked_mul bytes 3)) NormalWorkingSetOverflow) (\<lambda>normal.
    and_then (check_requested b (max normal MIN_NORMAL_WORKING_SET_BYTES)) (\<lambda>_.
    and_then (ok_or (checked_add pcm_bytes descriptor_bytes) DecodedBytesOverflow) (\<lambda>decoded.
    and_then (check_peak b decoded temporary_bytes) (\<lambda>_.
    Inr pcm_bytes)))))))"

record plane =
  plane_len :: usize
  plane_capacity :: usize

definition check_planar_capacities ::
  "decode_budget \<Rightarrow> plane list \<Rightarrow> u64 \<Rightarrow> budget_error + unit" where
  "check_planar_capacities b planes temporary_bytes =
    (let channels = word_of_nat (length planes);
         max_capacity = fold (\<lambda>p m. max (plane_capacity p) m) planes 0
     in and_then (check_planar_frames b channels max_capacity temporary_bytes) (\<lambda>_.
        and_then (try_fold (\<lambda>total p. ok_or (checked_add total (plane_capacity p))
                     PlaneCapacityOverflow) 0 planes) (\<lambda>capacity_samples.
        and_then (channel_descriptor_bytes channels) (\<lambda>descriptor_bytes.
        and_then (ok_or (Option.bind (checked_mul capacity_samples F64_BYTES)
                     (\<lambda>bytes. checked_add bytes descriptor_bytes)) PlaneCapacityBytesOverflow)
          (\<lambda>capacity_bytes. check_peak b capacity_bytes temporary_bytes)))))"

text \<open>The allocator: length, capacity and additional elements to the new capacity, or failure.\<close>

type_synonym allocator = "usize \<Rightarrow> usize \<Rightarrow> usize \<Rightarrow> usize option"

text \<open>Grow every plane below the target; a failure leaves the planes before it grown.\<close>

fun reserve_planes ::
  "allocator \<Rightarrow> usize \<Rightarrow> plane list \<Rightarrow> (budget_error + unit) \<times> plane list" where
  "reserve_planes alloc target [] = (Inr (), [])"
| "reserve_planes alloc target (p # ps) =
    (if plane_capacity p < target
     then (case alloc (plane_len p) (plane_capacity p) (target - plane_len p) of
             None \<Rightarrow> (Inl ReserveFailed, p # ps)
           | Some capacity \<Rightarrow>
               (let (res, ps') = reserve_planes alloc target ps
                in (res, p\<lparr>plane_capacity := capacity\<rparr> # ps')))
     else (let (res, ps') = reserve_planes alloc target ps in (res, p # ps')))"

definition reserve_planar_frames ::
  "allocator \<Rightarrow> decode_budget \<Rightarrow> plane list \<Rightarrow> usize \<Rightarrow> u64
     \<Rightarrow> (budget_error + unit) \<times> plane list" where
  "reserve_planar_frames alloc b planes target_frames temporary_bytes =
    (case and_then (check_planar_frames b (word_of_nat (length planes)) target_frames temporary_bytes)
        (\<lambda>_. try_all (\<lambda>p. fail_if (target_frames < plane_len p)
                 (TargetSmallerThanRetained target_frames (plane_len p))) planes) of
       Inl e \<Rightarrow> (Inl e, planes)
     | Inr _ \<Rightarrow> reserve_planes alloc target_frames planes)"

lemma growth_search_step:
  fixes fits fails :: usize
  assumes "1 < fails - fits"
  shows "unat (fails - (fits + (fails - fits) div 2)) < unat (fails - fits)"
    and "unat ((fails - fits) div 2) < unat (fails - fits)"
proof -
  let ?d = "fails - fits"
  have d: "1 < unat ?d" using assms by (simp add: word_less_nat_alt)
  have half: "unat (?d div 2) = unat ?d div 2" by (simp add: unat_div)
  have eq: "fails - (fits + ?d div 2) = ?d - ?d div 2" by simp
  have "?d div 2 \<le> ?d" using half by (simp add: word_le_nat_alt)
  then have "unat (?d - ?d div 2) = unat ?d - unat ?d div 2" by (simp add: unat_minus_word half)
  then show "unat (fails - (fits + ?d div 2)) < unat ?d" unfolding eq using d by linarith
  show "unat (?d div 2) < unat ?d" using d half by simp
qed

text \<open>The bisection of \<open>largest_growth_target\<close> between a size that fits and one that does not.\<close>

function growth_search :: "(usize \<Rightarrow> bool) \<Rightarrow> usize \<Rightarrow> usize \<Rightarrow> usize" where
  "growth_search fit fits fails =
    (if 1 < fails - fits
     then (let candidate = fits + (fails - fits) div 2
           in if fit candidate then growth_search fit candidate fails
              else growth_search fit fits candidate)
     else fits)"
  by pat_completeness auto

termination
  by (relation "measure (\<lambda>(fit, fits, fails). unat (fails - fits))")
    (auto simp: Let_def intro: growth_search_step)

declare growth_search.simps [simp del]

definition largest_growth_target ::
  "decode_budget \<Rightarrow> usize \<Rightarrow> usize \<Rightarrow> usize \<Rightarrow> u64 \<Rightarrow> budget_error + usize" where
  "largest_growth_target b channels required_frames geometric_frames temporary_bytes =
    (if is_ok (check_planar_frames b channels geometric_frames temporary_bytes)
     then Inr geometric_frames
     else and_then (check_planar_frames b channels required_frames temporary_bytes) (\<lambda>_.
       if required_frames = geometric_frames then Inr required_frames
       else Inr (growth_search
              (\<lambda>candidate. is_ok (check_planar_frames b channels candidate temporary_bytes))
              required_frames geometric_frames)))"

definition min_capacity :: "plane list \<Rightarrow> usize" where
  "min_capacity planes =
    (case planes of [] \<Rightarrow> 0
     | p # ps \<Rightarrow> fold (\<lambda>q m. min (plane_capacity q) m) ps (plane_capacity p))"

definition reserve_planar_additional ::
  "allocator \<Rightarrow> decode_budget \<Rightarrow> plane list \<Rightarrow> usize \<Rightarrow> u64
     \<Rightarrow> (budget_error + usize) \<times> plane list" where
  "reserve_planar_additional alloc b planes additional_frames temporary_bytes =
    (let channels = word_of_nat (length planes);
         current_frames = fold (\<lambda>p m. max (plane_len p) m) planes 0
     in if \<exists>p \<in> set planes. plane_len p \<noteq> current_frames then (Inl PlanarLengthsDiffer, planes)
     else case checked_add current_frames additional_frames of
       None \<Rightarrow> (Inl FrameCountOverflow, planes)
     | Some required_frames \<Rightarrow>
       if \<forall>p \<in> set planes. required_frames \<le> plane_capacity p
       then (and_then (check_planar_frames b channels required_frames temporary_bytes) (\<lambda>_.
             and_then (check_planar_capacities b planes temporary_bytes) (\<lambda>_.
             Inr required_frames)), planes)
       else
         (let current_capacity = min_capacity planes;
              doubled = (case checked_mul current_capacity 2 of None \<Rightarrow> - 1 | Some n \<Rightarrow> n);
              geometric_frames = max (max doubled MIN_INCREMENTAL_RESERVE_FRAMES) required_frames
          in case largest_growth_target b channels required_frames geometric_frames temporary_bytes of
            Inl e \<Rightarrow> (Inl e, planes)
          | Inr reserve_frames \<Rightarrow>
              (case reserve_planes alloc reserve_frames planes of
                 (Inl e, planes') \<Rightarrow> (Inl e, planes')
               | (Inr _, planes') \<Rightarrow>
                   (and_then (check_planar_capacities b planes' temporary_bytes)
                      (\<lambda>_. Inr required_frames), planes'))))"

section \<open>The budget as plain arithmetic\<close>

text \<open>
  The reference: a decode of the given geometry fits when its numbers, taken in the naturals,
  stay below \<open>2 ^ 64\<close> and, if a limit is set, below the limit.
\<close>

definition peak_bytes :: "decode_budget \<Rightarrow> nat \<Rightarrow> nat \<Rightarrow> nat \<Rightarrow> nat" where
  "peak_bytes b channels frames temporary =
    unat (budget_retained b) + (channels * frames * 8 + channels * 24) + temporary"

definition normal_bytes :: "nat \<Rightarrow> nat \<Rightarrow> nat" where
  "normal_bytes channels frames = 3 * (channels * frames * 8 + channels * 256)"

definition within_limit :: "decode_budget \<Rightarrow> nat \<Rightarrow> bool" where
  "within_limit b n \<longleftrightarrow> n < 2 ^ 64 \<and> (\<forall>limit. budget_limit b = Some limit \<longrightarrow> n \<le> unat limit)"

definition planar_fits :: "decode_budget \<Rightarrow> nat \<Rightarrow> nat \<Rightarrow> nat \<Rightarrow> bool" where
  "planar_fits b channels frames temporary \<longleftrightarrow>
     within_limit b (max (normal_bytes channels frames) (2 ^ 20))
   \<and> within_limit b (peak_bytes b channels frames temporary)"

lemma within_limit_mono: "within_limit b n \<Longrightarrow> m \<le> n \<Longrightarrow> within_limit b m"
  by (auto simp: within_limit_def)

lemma planar_fits_mono:
  assumes "planar_fits b channels frames temporary" and "frames' \<le> frames" and "temporary' \<le> temporary"
  shows "planar_fits b channels frames' temporary'"
proof -
  have "channels * frames' \<le> channels * frames" using assms(2) by simp
  with assms(3) have "normal_bytes channels frames' \<le> normal_bytes channels frames"
    and "peak_bytes b channels frames' temporary' \<le> peak_bytes b channels frames temporary"
    unfolding normal_bytes_def peak_bytes_def by presburger+
  then have "max (normal_bytes channels frames') (2 ^ 20) \<le> max (normal_bytes channels frames) (2 ^ 20)"
    and "peak_bytes b channels frames' temporary' \<le> peak_bytes b channels frames temporary"
    by linarith+
  then show ?thesis
    using assms(1) within_limit_mono unfolding planar_fits_def by blast
qed

lemma check_requested_ok: "check_requested b n = Inr u \<longleftrightarrow> within_limit b (unat n)"
  by (auto simp: check_requested_def within_limit_def word_less_nat_alt split: option.splits)

lemma bind_checked_add2_Some:
  fixes x :: "64 word"
  shows "Option.bind (checked_add x y) (\<lambda>s. checked_add s z) = Some n \<longleftrightarrow>
    unat n = unat x + unat y + unat z"
proof
  assume "Option.bind (checked_add x y) (\<lambda>s. checked_add s z) = Some n"
  then obtain s where "checked_add x y = Some s" "checked_add s z = Some n"
    by (auto simp: bind_eq_Some_conv)
  then show "unat n = unat x + unat y + unat z" by (simp add: checked_add_Some_iff)
next
  assume n: "unat n = unat x + unat y + unat z"
  have "unat n < 2 ^ 64" by simp
  then have "checked_add x y = Some (x + y)" and u: "unat (x + y) = unat x + unat y"
    using n by (simp_all add: checked_add_def unat_add_nowrap)
  moreover have "checked_add (x + y) z = Some n" using u n by (simp add: checked_add_Some_iff)
  ultimately show "Option.bind (checked_add x y) (\<lambda>s. checked_add s z) = Some n" by simp
qed

lemma ex_unat64: "(\<exists>n :: 64 word. unat n = k \<and> P (unat n)) \<longleftrightarrow> k < 2 ^ 64 \<and> P k"
proof
  assume k: "k < 2 ^ 64 \<and> P k"
  then have "unat (word_of_nat k :: 64 word) = k" by (simp add: unat_of_nat)
  with k show "\<exists>n :: 64 word. unat n = k \<and> P (unat n)" by metis
next
  assume "\<exists>n :: 64 word. unat n = k \<and> P (unat n)"
  then obtain n :: "64 word" where n: "unat n = k" "P (unat n)" by blast
  have "unat n < 2 ^ 64" using unsigned_less [of n] by simp
  with n show "k < 2 ^ 64 \<and> P k" by simp
qed

lemma check_peak_ok:
  "check_peak b x y = Inr u \<longleftrightarrow> within_limit b (unat (budget_retained b) + unat x + unat y)"
  unfolding check_peak_def and_then_Inr_iff ok_or_iff bind_checked_add2_Some check_requested_ok
    ex_unat64
  by (auto simp: within_limit_def)

lemma channel_descriptor_bytes_ok:
  "channel_descriptor_bytes c = Inr n \<longleftrightarrow> unat n = unat c * 24"
  by (simp add: channel_descriptor_bytes_def CHANNEL_DESCRIPTOR_BYTES_def checked_mul_Some_iff)

lemma bind_checked_scale_Some:
  fixes x :: "'a::len word"
  assumes m: "\<And>s. m = Some s \<longleftrightarrow> unat s = k" and k: "0 < unat c"
  shows "Option.bind m (\<lambda>s. checked_mul s c) = Some (n :: 'a word) \<longleftrightarrow> unat n = k * unat c"
proof
  assume "Option.bind m (\<lambda>s. checked_mul s c) = Some n"
  then obtain s where "m = Some s" "checked_mul s c = Some n" by (auto simp: bind_eq_Some_conv)
  then show "unat n = k * unat c" using m by (simp add: checked_mul_Some_iff)
next
  assume n: "unat n = k * unat c"
  have "unat n < 2 ^ LENGTH('a)" by (rule unsigned_less)
  moreover have "k * 1 \<le> k * unat c" using k by (intro mult_le_mono) auto
  ultimately have "unat (word_of_nat k :: 'a word) = k" using n by (intro unat_word_of_nat_lt) linarith
  then show "Option.bind m (\<lambda>s. checked_mul s c) = Some n"
    using m [of "word_of_nat k"] n by (simp add: checked_mul_Some_iff)
qed

lemma planar_pcm_bytes_ok:
  "planar_pcm_bytes c f = Inr n \<longleftrightarrow> unat n = unat c * unat f * 8"
  using bind_checked_scale_Some [of "checked_mul c f" "unat c * unat f" F64_BYTES n]
  by (simp add: planar_pcm_bytes_def checked_mul_Some_iff F64_BYTES_def)

lemma check_planar_frames_iff:
  "check_planar_frames b c f t = Inr n \<longleftrightarrow>
     unat n = unat c * unat f * 8 \<and> planar_fits b (unat c) (unat f) (unat t)"
proof -
  let ?pcm = "unat c * unat f * 8" and ?desc = "unat c * 24" and ?over = "unat c * 256"
  have normal: "Option.bind (checked_add p v) (\<lambda>s. checked_mul s 3) = Some m \<longleftrightarrow>
      unat m = 3 * (unat p + unat v)" for p v m :: u64
    using bind_checked_scale_Some [of "checked_add p v" "unat p + unat v" 3 m]
    by (simp add: checked_add_Some_iff mult.commute)
  have over: "checked_mul c NORMAL_CHANNEL_OVERHEAD_BYTES = Some v \<longleftrightarrow> unat v = ?over" for v
    by (simp add: checked_mul_Some_iff NORMAL_CHANNEL_OVERHEAD_BYTES_def)
  have floor: "unat (max m MIN_NORMAL_WORKING_SET_BYTES) = max (unat m) (2 ^ 20)" for m
    by (simp add: max_def MIN_NORMAL_WORKING_SET_BYTES_def word_le_nat_alt)
  show ?thesis (is "_ \<longleftrightarrow> ?rhs")
  proof
    assume "check_planar_frames b c f t = Inr n"
    then obtain d v m q :: u64 where *: "unat n = ?pcm" "unat d = ?desc" "unat v = ?over"
      "unat m = 3 * (unat n + unat v)" "within_limit b (max (unat m) (2 ^ 20))"
      "unat q = unat n + unat d" "within_limit b (unat (budget_retained b) + unat q + unat t)"
      unfolding check_planar_frames_def and_then_Inr_iff planar_pcm_bytes_ok ok_or_iff
        channel_descriptor_bytes_ok over normal floor check_requested_ok check_peak_ok
        checked_add_Some_iff sum.inject by blast
    show ?rhs using *(5,7) unfolding *(4,6) *(2,3) unfolding *(1)
      by (simp add: planar_fits_def normal_bytes_def peak_bytes_def *(1))
  next
    assume r: ?rhs
    then have bound: "3 * (?pcm + ?over) < 2 ^ 64"
      by (simp add: planar_fits_def within_limit_def normal_bytes_def)
    define d v m :: u64 where "d = word_of_nat ?desc" and "v = word_of_nat ?over"
      and "m = word_of_nat (3 * (?pcm + ?over))"
    define q :: u64 where "q = word_of_nat (?pcm + ?desc)"
    have eqs: "unat d = ?desc" "unat v = ?over" "unat m = 3 * (?pcm + ?over)" "unat q = ?pcm + ?desc"
      unfolding d_def v_def m_def q_def
      by - (rule unat_word_of_nat_lt64, rule le_less_trans [OF _ bound], use zero_le in presburger)+
    have "planar_pcm_bytes c f = Inr n" "channel_descriptor_bytes c = Inr d"
      "checked_mul c NORMAL_CHANNEL_OVERHEAD_BYTES = Some v"
      "Option.bind (checked_add n v) (\<lambda>s. checked_mul s 3) = Some m" "checked_add n d = Some q"
      using r eqs by (simp_all add: planar_pcm_bytes_ok channel_descriptor_bytes_ok over normal
          checked_add_Some_iff)
    moreover have "check_requested b (max m MIN_NORMAL_WORKING_SET_BYTES) = Inr ()" "check_peak b q t = Inr ()"
      using r eqs by (simp_all add: check_requested_ok check_peak_ok floor planar_fits_def
          normal_bytes_def peak_bytes_def add.assoc)
    ultimately show "check_planar_frames b c f t = Inr n" by (simp add: check_planar_frames_def)
  qed
qed

lemma check_planar_frames_ok:
  "is_ok (check_planar_frames b c f t) \<longleftrightarrow> planar_fits b (unat c) (unat f) (unat t)"
proof
  assume "is_ok (check_planar_frames b c f t)"
  then show "planar_fits b (unat c) (unat f) (unat t)" by (auto simp: is_ok_iff check_planar_frames_iff)
next
  assume fits: "planar_fits b (unat c) (unat f) (unat t)"
  then have "unat c * unat f * 8 < 2 ^ 64"
    by (simp add: planar_fits_def within_limit_def normal_bytes_def)
  then have "unat (word_of_nat (unat c * unat f * 8) :: u64) = unat c * unat f * 8"
    by (rule unat_word_of_nat_lt64)
  with fits show "is_ok (check_planar_frames b c f t)"
    unfolding is_ok_iff check_planar_frames_iff by blast
qed

section \<open>The growth search\<close>

text \<open>
  The interface the bisection relies on: a test of word sizes that is closed downwards. Its
  client lemma says that the search stops at the last size that passes.
\<close>

locale monotone_fit =
  fixes fit :: "usize \<Rightarrow> bool"
  assumes fit_antitone: "fit n \<Longrightarrow> m \<le> n \<Longrightarrow> fit m"
begin

lemma growth_search_boundary:
  assumes "fit fits" and "\<not> fit fails" and "fits < fails"
  shows "fits \<le> growth_search fit fits fails \<and> growth_search fit fits fails < fails
    \<and> fit (growth_search fit fits fails) \<and> \<not> fit (growth_search fit fits fails + 1)"
  using assms
proof (induction fit fits fails rule: growth_search.induct)
  case (1 f fits fails)
  let ?d = "fails - fits"
  let ?c = "fits + ?d div 2"
  have d: "unat ?d = unat fails - unat fits"
    using "1.prems"(3) by (intro unat_minus_word) simp
  have lt: "unat fits < unat fails" using "1.prems"(3) by (simp add: word_less_nat_alt)
  have half: "unat (?d div 2) = (unat fails - unat fits) div 2" by (simp add: unat_div d)
  have top: "unat fails < 2 ^ 64" by simp
  then have "unat fits + unat (?d div 2) < 2 ^ 64" unfolding half using lt by linarith
  then have c: "unat ?c = unat fits + (unat fails - unat fits) div 2"
    by (simp add: unat_add_nowrap half)
  show ?case
  proof (cases "1 < ?d")
    case True
    then have gap: "1 < unat fails - unat fits" by (simp add: word_less_nat_alt d)
    have "fits < ?c" "?c < fails"
      using gap lt by (simp_all add: word_less_nat_alt c)
    then show ?thesis
      using True "1.IH"(1) [OF True refl] "1.IH"(2) [OF True refl] "1.prems"
      by (cases "f ?c"; subst (1 2 3 4) growth_search.simps; force simp: Let_def)
  next
    case False
    then have "unat fails = unat fits + 1"
      using lt by (simp add: word_less_nat_alt d)
    then have "fails = fits + 1"
      using top using lt by (metis add_diff_cancel_left' d diff_add_cancel unsigned_1 unsigned_word_eqI)
    then show ?thesis using False "1.prems" by (simp add: growth_search.simps [of f fits "fits + 1"])
  qed
qed

lemma growth_search_largest:
  assumes "fit fits" and "\<not> fit fails" and "fits < fails"
  shows "fit n \<longleftrightarrow> n \<le> growth_search fit fits fails"
proof -
  let ?g = "growth_search fit fits fails"
  have g: "fit ?g" "\<not> fit (?g + 1)" "?g < fails"
    using growth_search_boundary [OF assms] by blast+
  have "?g < n \<Longrightarrow> ?g + 1 \<le> n" by (simp add: inc_le)
  then show ?thesis using g fit_antitone by (meson linorder_not_le)
qed

end

interpretation planar: monotone_fit "\<lambda>n. is_ok (check_planar_frames b channels n temporary)"
  for b channels temporary
  by unfold_locales (auto simp: check_planar_frames_ok word_le_nat_alt elim: planar_fits_mono)

lemma growth_target_cases:
  assumes "largest_growth_target b c required geometric t = Inr n" and "required \<le> geometric"
  shows "n \<le> geometric \<and> required \<le> n \<and> is_ok (check_planar_frames b c n t)
    \<and> (n = geometric \<or> \<not> is_ok (check_planar_frames b c (n + 1) t))"
proof (cases "is_ok (check_planar_frames b c geometric t)")
  case True
  then show ?thesis using assms by (simp add: largest_growth_target_def)
next
  case False
  then have req: "is_ok (check_planar_frames b c required t)"
    using assms by (auto simp: largest_growth_target_def and_then_Inr_iff is_ok_iff)
  with False have lt: "required < geometric" using assms(2) by (metis order_le_less)
  then have "n = growth_search (\<lambda>m. is_ok (check_planar_frames b c m t)) required geometric"
    using assms(1) False by (auto simp: largest_growth_target_def and_then_Inr_iff split: if_splits)
  then show ?thesis
    using planar.growth_search_boundary [OF req False lt] by (simp add: less_imp_le)
qed

lemma growth_target_maximal_step:
  assumes "\<not> is_ok (check_planar_frames b c (n + 1) t)" and "n < m"
  shows "\<not> is_ok (check_planar_frames b c m t)"
  using assms planar.fit_antitone inc_le by blast

text \<open>The growth target is the best one. When \<open>largest_growth_target\<close> succeeds, the
  frame count lies between the required and the geometric size, it fits the budget, and no
  larger size up to the geometric one does.\<close>

theorem growth_target_maximal:
  assumes "largest_growth_target b channels required geometric temporary = Inr n"
    and "required \<le> geometric"
  shows "required \<le> n \<and> n \<le> geometric
    \<and> planar_fits b (unat channels) (unat n) (unat temporary)
    \<and> (\<forall>m. n < m \<and> m \<le> geometric \<longrightarrow>
          \<not> planar_fits b (unat channels) (unat m) (unat temporary))"
  using growth_target_cases [OF assms] growth_target_maximal_step [of b channels n temporary]
  unfolding check_planar_frames_ok by (metis linorder_not_le)

theorem growth_target_maximal_witness:
  "\<exists>n. largest_growth_target (budget_new (Some (2 ^ 21))) 2 10 65536 0 = Inr n
    \<and> 10 \<le> n \<and> n \<le> 65536 \<and> planar_fits (budget_new (Some (2 ^ 21))) 2 (unat n) 0"
proof -
  let ?b = "budget_new (Some (2 ^ 21))"
  have no: "\<not> is_ok (check_planar_frames ?b 2 65536 0)"
    and yes: "is_ok (check_planar_frames ?b 2 10 0)"
    unfolding check_planar_frames_ok
    by (simp_all add: planar_fits_def within_limit_def normal_bytes_def peak_bytes_def budget_new_def)
  then obtain p where "check_planar_frames ?b 2 10 0 = Inr p" by (auto simp: is_ok_iff)
  with no obtain n where n: "largest_growth_target ?b 2 10 65536 0 = Inr n"
    by (simp add: largest_growth_target_def)
  from growth_target_maximal [OF n] n show ?thesis by simp
qed

text \<open>C25: The word-level check agrees with plain arithmetic. \<open>check_planar_frames\<close> accepts
  a geometry, and returns its PCM byte count, exactly when the working set and the decode
  peak, computed in the naturals, are below \<open>2 ^ 64\<close> and below the configured limit; so no
  wrap-around hides an oversized input and no intermediate check rejects a fitting one.\<close>

theorem planar_check_exact:
  "check_planar_frames b channels frames temporary = Inr n \<longleftrightarrow>
     unat n = unat channels * unat frames * 8
   \<and> planar_fits b (unat channels) (unat frames) (unat temporary)"
  by (rule check_planar_frames_iff)

section \<open>Growing the planes\<close>

definition allocator_grows :: "allocator \<Rightarrow> bool" where
  "allocator_grows alloc \<longleftrightarrow>
    (\<forall>len cap add c. alloc len cap add = Some c \<longrightarrow> unat len + unat add \<le> unat c)"

definition capacity_bytes :: "plane list \<Rightarrow> nat" where
  "capacity_bytes planes = 8 * sum_list (map (\<lambda>p. unat (plane_capacity p)) planes) + 24 * length planes"

lemma fold_max_ge: "x \<le> fold (\<lambda>p m. max (f p) m) ps (x :: 'a::linorder)"
  by (induction ps arbitrary: x) (simp, metis fold_simps(2) max.bounded_iff max.cobounded2 order_refl)

lemma fold_max_member:
  "p \<in> set ps \<Longrightarrow> f p \<le> fold (\<lambda>p m. max (f p) m) ps (x :: 'a::linorder)"
proof (induction ps arbitrary: x)
  case (Cons q ps)
  then show ?case
    using fold_max_ge [of "max (f q) x" f ps] by (auto intro: order_trans)
qed simp

lemma capacity_sum:
  "try_fold (\<lambda>total p. ok_or (checked_add total (plane_capacity p)) e) s planes = Inr n \<Longrightarrow>
   unat n = unat s + sum_list (map (\<lambda>p. unat (plane_capacity p)) planes)"
  by (induction planes arbitrary: s) (auto simp: and_then_Inr_iff checked_add_Some_iff)

lemma check_planar_capacities_sound:
  assumes "check_planar_capacities b planes t = Inr u" and "length planes < 2 ^ 64"
  shows "within_limit b (unat (budget_retained b) + capacity_bytes planes + unat t)"
proof -
  obtain s d :: u64 and m where *: "unat s = sum_list (map (\<lambda>p. unat (plane_capacity p)) planes)"
    "unat d = length planes * 24"
    "Option.bind (checked_mul s F64_BYTES) (\<lambda>bytes. checked_add bytes d) = Some m"
    "within_limit b (unat (budget_retained b) + unat m + unat t)"
    using assms
    by (auto simp: check_planar_capacities_def Let_def and_then_Inr_iff channel_descriptor_bytes_ok
        check_peak_ok unat_word_of_nat_lt64 dest!: capacity_sum)
  from *(3) have "unat m = unat s * 8 + unat d"
    by (auto simp: bind_eq_Some_conv checked_mul_Some_iff checked_add_Some_iff F64_BYTES_def)
  then show ?thesis using * by (simp add: capacity_bytes_def mult.commute)
qed

lemma reserve_planes_ok:
  assumes "reserve_planes alloc target planes = (Inr u, planes')" and "allocator_grows alloc"
    and "\<forall>p \<in> set planes. plane_len p \<le> target"
  shows "map plane_len planes' = map plane_len planes \<and> (\<forall>p \<in> set planes'. target \<le> plane_capacity p)"
  using assms
proof (induction planes arbitrary: planes')
  case (Cons p ps)
  have len: "unat (target - plane_len p) = unat target - unat (plane_len p)"
    using Cons.prems(3) by (intro unat_minus_word) simp
  have le: "unat (plane_len p) \<le> unat target" using Cons.prems(3) by (simp add: word_le_nat_alt)
  have grown: "target \<le> c" if "alloc (plane_len p) (plane_capacity p) (target - plane_len p) = Some c" for c
    using that Cons.prems(2) len le unfolding allocator_grows_def word_le_nat_alt by fastforce
  show ?case
    using Cons.prems Cons.IH grown
    by (auto split: if_splits option.splits prod.splits)
qed simp

lemma fold_max_all_equal:
  assumes "\<not> (\<exists>p \<in> set ps. f p \<noteq> fold (\<lambda>p m. max (f p) m) ps (x :: 'a::linorder))" and "p \<in> set ps"
  shows "f p = fold (\<lambda>p m. max (f p) m) ps x"
  using assms by blast

text \<open>Growing the planes keeps the samples and meets the request. If the allocator keeps
  its documented promise and \<open>reserve_planar_additional\<close> succeeds, the planes keep their
  number and lengths, the returned frame count is the common length plus the request, every
  plane can hold that many frames, and the bytes of all capacities, together with the retained
  input and the temporary buffers, stay within the limit.\<close>

theorem reserve_additional_sound:
  assumes "reserve_planar_additional alloc b planes additional temporary = (Inr required, planes')"
    and "allocator_grows alloc" and "length planes < 2 ^ 64"
  shows "map plane_len planes' = map plane_len planes
    \<and> (\<forall>p \<in> set planes'. unat required = unat (plane_len p) + unat additional
         \<and> required \<le> plane_capacity p)
    \<and> within_limit b (unat (budget_retained b) + capacity_bytes planes' + unat temporary)"
proof -
  define current where "current = fold (\<lambda>p m. max (plane_len p) m) planes 0"
  have same: "\<forall>p \<in> set planes. plane_len p = current"
    and add: "checked_add current additional = Some required"
    using assms(1)
    by (auto simp: reserve_planar_additional_def Let_def and_then_Inr_iff current_def
        split: if_splits option.splits sum.splits prod.splits)
  have sum: "unat required = unat current + unat additional" using add by (simp add: checked_add_Some_iff)
  have *: "map plane_len planes' = map plane_len planes \<and> (\<forall>p \<in> set planes'. required \<le> plane_capacity p)
    \<and> check_planar_capacities b planes' temporary = Inr ()"
  proof (cases "\<forall>p \<in> set planes. required \<le> plane_capacity p")
    case True
    then show ?thesis
      using assms(1) same add
      by (auto simp: reserve_planar_additional_def Let_def and_then_Inr_iff current_def [symmetric])
  next
    case False
    define geometric where "geometric = max (max (case checked_mul (min_capacity planes) 2 of
      None \<Rightarrow> - 1 | Some n \<Rightarrow> n) MIN_INCREMENTAL_RESERVE_FRAMES) required"
    obtain n where n: "largest_growth_target b (word_of_nat (length planes)) required geometric temporary = Inr n"
      and grown: "reserve_planes alloc n planes = (Inr (), planes')"
      and caps: "check_planar_capacities b planes' temporary = Inr ()"
      using assms(1) False same add
      by (auto simp: reserve_planar_additional_def Let_def and_then_Inr_iff current_def [symmetric]
          geometric_def split: sum.splits prod.splits)
    have le: "required \<le> n"
      using growth_target_cases [OF n] by (simp add: geometric_def)
    have "plane_len p \<le> n" if "p \<in> set planes" for p
      using same that sum le by (auto simp: word_le_nat_alt)
    then show ?thesis
      using reserve_planes_ok [OF grown assms(2)] caps le by (auto intro: order_trans)
  qed
  then have len: "length planes' = length planes" by (metis length_map)
  have "plane_len p = current" if "p \<in> set planes'" for p
    using that same * by (metis (mono_tags, lifting) image_eqI image_iff list.set_map)
  then show ?thesis
    using * sum len assms(3) check_planar_capacities_sound [of b planes' temporary] by auto
qed

definition exact_allocator :: allocator where
  "exact_allocator len cap add = checked_add len add"

lemma exact_allocator_grows: "allocator_grows exact_allocator"
  by (auto simp: allocator_grows_def exact_allocator_def checked_add_Some_iff)

theorem reserve_additional_sound_witness:
  "\<exists>planes'. reserve_planar_additional exact_allocator (budget_new None)
       [\<lparr>plane_len = 3, plane_capacity = 4\<rparr>, \<lparr>plane_len = 3, plane_capacity = 8\<rparr>] 5 0 = (Inr 8, planes')
     \<and> map plane_len planes' = [3, 3] \<and> (\<forall>p \<in> set planes'. 8 \<le> plane_capacity p)"
proof -
  let ?b = "budget_new None"
  let ?ps = "[\<lparr>plane_len = 3, plane_capacity = 4\<rparr>, \<lparr>plane_len = 3, plane_capacity = 8\<rparr>]"
  let ?qs = "[\<lparr>plane_len = 3, plane_capacity = 1024\<rparr>, \<lparr>plane_len = 3, plane_capacity = 1024\<rparr>]"
  have run: "reserve_planar_additional exact_allocator ?b ?ps 5 0 = (Inr 8, ?qs)"
    by (simp add: reserve_planar_additional_def largest_growth_target_def check_planar_capacities_def
        check_planar_frames_def planar_pcm_bytes_def channel_descriptor_bytes_def check_requested_def
        check_peak_def budget_new_def exact_allocator_def checked_add_def checked_mul_def min_capacity_def
        F64_BYTES_def CHANNEL_DESCRIPTOR_BYTES_def NORMAL_CHANNEL_OVERHEAD_BYTES_def
        MIN_NORMAL_WORKING_SET_BYTES_def MIN_INCREMENTAL_RESERVE_FRAMES_def max_def min_def)
  show ?thesis
    using reserve_additional_sound [OF run exact_allocator_grows] run by simp
qed

end
