(* ===== verification/Wire_Text.thy ===== *)
theory Wire_Text
  imports Prelude "HOL-Library.Char_ord" "HOL-Library.List_Lexorder"
begin

text \<open>
  Text and byte strings as the program handles them: ASCII classes, hexadecimal
  (\<open>encode_hex\<close>/\<open>decode_hex\<close> of \<open>src/src/ipc/storage.rs\<close>, \<open>Digest\<close> of
  \<open>src/src/batch_resume.rs\<close>), little-endian integers, splitting at a separator, UTF-8
  character boundaries and control characters, and the binary search of sorted slices.
  A \<open>String\<close> is the list of its bytes; the lexicographic order of \<open>List_Lexorder\<close> on it is
  the order of Rust's \<open>Ord for str\<close>.
\<close>

unbundle bit_operations_syntax

section \<open>Bytes and characters\<close>

definition as_bytes :: "string \<Rightarrow> u8 list" where "as_bytes s = map of_char s"

lemma of_char_u8_inj: "of_char c = (of_char d :: u8) \<longleftrightarrow> c = d"
proof
  assume eq: "of_char c = (of_char d :: u8)"
  have "unat (of_char x :: u8) = of_char x" for x
  proof -
    have "(of_char x :: nat) < 256" by simp
    then have "unat (word_of_nat (of_char x) :: u8) = of_char x" by (intro unat_word_of_nat_lt) simp
    then show ?thesis by (simp only: of_nat_of_char)
  qed
  then have "(of_char c :: nat) = of_char d" using eq by metis
  then show "c = d" by simp
qed simp

lemma as_bytes_inj [simp]: "as_bytes s = as_bytes t \<longleftrightarrow> s = t"
proof (induction s arbitrary: t)
  case (Cons c s)
  then show ?case by (cases t) (auto simp: as_bytes_def of_char_u8_inj)
qed (auto simp: as_bytes_def)

lemma length_as_bytes [simp]: "length (as_bytes s) = length s"
  by (simp add: as_bytes_def)

definition bytes_string :: "u8 list \<Rightarrow> string" where "bytes_string bs = map (\<lambda>b. char_of (unat b)) bs"

lemma as_bytes_bytes_string [simp]: "as_bytes (bytes_string bs) = bs"
proof -
  have "of_char (char_of (unat b)) = b" for b :: u8
  proof -
    have "(of_char (char_of (unat b)) :: nat) = unat b" by simp
    then have "word_of_nat (of_char (char_of (unat b))) = (word_of_nat (unat b) :: u8)" by (rule arg_cong)
    also have "\<dots> = b" by simp
    finally show ?thesis by (simp only: of_nat_of_char)
  qed
  then show ?thesis by (simp add: as_bytes_def bytes_string_def comp_def)
qed

definition is_ascii_digit :: "char \<Rightarrow> bool" where
  "is_ascii_digit c \<longleftrightarrow> CHR ''0'' \<le> c \<and> c \<le> CHR ''9''"
definition is_ascii_uppercase :: "char \<Rightarrow> bool" where
  "is_ascii_uppercase c \<longleftrightarrow> CHR ''A'' \<le> c \<and> c \<le> CHR ''Z''"
definition is_ascii_lowercase :: "char \<Rightarrow> bool" where
  "is_ascii_lowercase c \<longleftrightarrow> CHR ''a'' \<le> c \<and> c \<le> CHR ''z''"
definition is_ascii_alphanumeric :: "char \<Rightarrow> bool" where
  "is_ascii_alphanumeric c \<longleftrightarrow> is_ascii_digit c \<or> is_ascii_uppercase c \<or> is_ascii_lowercase c"
definition is_ascii_hexdigit :: "char \<Rightarrow> bool" where
  "is_ascii_hexdigit c \<longleftrightarrow> is_ascii_digit c
     \<or> (CHR ''a'' \<le> c \<and> c \<le> CHR ''f'') \<or> (CHR ''A'' \<le> c \<and> c \<le> CHR ''F'')"

text \<open>\<open>chars().any(char::is_control)\<close>: U+0000 to U+001F, U+007F, and U+0080 to U+009F, whose
  UTF-8 form is the byte C2 and a byte below A0.\<close>

fun has_control :: "string \<Rightarrow> bool" where
  "has_control [] = False"
| "has_control (c # s) = ((of_char c :: nat) < 32 \<or> (of_char c :: nat) = 127
     \<or> (of_char c = (194 :: nat) \<and> s \<noteq> [] \<and> (of_char (hd s) :: nat) < 160) \<or> has_control s)"

text \<open>\<open>str::is_char_boundary\<close>: the ends of the string, and every byte that is no continuation.\<close>

definition is_char_boundary :: "string \<Rightarrow> nat \<Rightarrow> bool" where
  "is_char_boundary s i \<longleftrightarrow> i = 0 \<or> i = length s
     \<or> (i < length s \<and> \<not> (128 \<le> (of_char (s ! i) :: nat) \<and> (of_char (s ! i) :: nat) < 192))"

text \<open>\<open>str::split(sep)\<close>: the pieces between the separators, the empty ones included.\<close>

fun split_on :: "'a \<Rightarrow> 'a list \<Rightarrow> 'a list list" where
  "split_on sep [] = [[]]"
| "split_on sep (c # s) =
    (if c = sep then [] # split_on sep s
     else (case split_on sep s of [] \<Rightarrow> [[c]] | p # ps \<Rightarrow> (c # p) # ps))"

fun join_with :: "'a \<Rightarrow> 'a list list \<Rightarrow> 'a list" where
  "join_with sep [] = []"
| "join_with sep [p] = p"
| "join_with sep (p # q # ps) = p @ sep # join_with sep (q # ps)"

lemma split_on_nonempty [simp]: "split_on sep s \<noteq> []"
  by (induction s) (auto split: list.splits)

lemma split_on_no_sep: "p \<in> set (split_on sep s) \<Longrightarrow> sep \<notin> set p"
proof (induction s arbitrary: p)
  case (Cons c s)
  then show ?case by (cases "split_on sep s") (auto split: if_splits)
qed simp

lemma split_on_plain: "sep \<notin> set p \<Longrightarrow> split_on sep p = [p]"
  by (induction p) auto

lemma split_on_append: "sep \<notin> set p \<Longrightarrow> split_on sep (p @ sep # s) = p # split_on sep s"
  by (induction p) auto

lemma split_join:
  assumes "ps \<noteq> []" and "\<And>p. p \<in> set ps \<Longrightarrow> sep \<notin> set p"
  shows "split_on sep (join_with sep ps) = ps"
  using assms by (induction sep ps rule: join_with.induct) (auto simp: split_on_plain split_on_append)

lemma join_split: "join_with sep (split_on sep s) = s"
proof (induction s)
  case (Cons c s)
  obtain p ps where "split_on sep s = p # ps" by (cases "split_on sep s") auto
  with Cons show ?case by (cases ps) auto
qed simp

section \<open>Hexadecimal\<close>

definition hex_digit :: "nat \<Rightarrow> char" where "hex_digit n = ''0123456789abcdef'' ! n"

definition encode_hex :: "u8 list \<Rightarrow> string" where
  "encode_hex bs = concat (map (\<lambda>b. [hex_digit (unat (drop_bit 4 b)), hex_digit (unat (b AND 15))]) bs)"

text \<open>\<open>char::to_digit(16)\<close>.\<close>

definition to_digit16 :: "char \<Rightarrow> u32 option" where
  "to_digit16 c =
    (if is_ascii_digit c then Some (of_char c - 48)
     else if CHR ''a'' \<le> c \<and> c \<le> CHR ''f'' then Some (of_char c - 87)
     else if CHR ''A'' \<le> c \<and> c \<le> CHR ''F'' then Some (of_char c - 55) else None)"

fun decode_hex_pairs :: "string \<Rightarrow> u8 list option" where
  "decode_hex_pairs [] = Some []"
| "decode_hex_pairs [c] = Some []"
| "decode_hex_pairs (c # d # s) =
    Option.bind (to_digit16 c) (\<lambda>high. Option.bind (to_digit16 d) (\<lambda>low.
    map_option ((#) (ucast (push_bit 4 high OR low))) (decode_hex_pairs s)))"

definition decode_hex :: "string \<Rightarrow> u8 list option" where
  "decode_hex value = (if length value mod 2 \<noteq> 0 then None else decode_hex_pairs value)"

lemma below_16: "list_all P [0..<16] \<Longrightarrow> n < 16 \<Longrightarrow> P n"
  by (simp add: list_all_iff)

lemma upt_16: "[0..<16] = [0, 1, 2, 3, 4, 5, 6, 7, 8, 9, 10, 11, 12, 13, 14, 15]" by (simp add: upt_rec)

lemma to_digit16_hex_digit: "n < 16 \<Longrightarrow> to_digit16 (hex_digit n) = Some (word_of_nat n)"
  by (rule below_16 [where n = n], unfold upt_16)
    (simp_all add: hex_digit_def to_digit16_def is_ascii_digit_def less_eq_char_def)

lemma hex_digit_class: "n < 16 \<Longrightarrow> is_ascii_hexdigit (hex_digit n) \<and> \<not> is_ascii_uppercase (hex_digit n)"
  by (rule below_16 [where n = n], unfold upt_16)
    (simp_all add: hex_digit_def is_ascii_hexdigit_def is_ascii_digit_def is_ascii_uppercase_def
      less_eq_char_def)

lemma nibble_bounds: "unat (drop_bit 4 b) < 16" "unat (b AND 15) < 16" for b :: u8
proof -
  show "unat (drop_bit 4 b) < 16" by (simp add: drop_bit_eq_div unat_div less_mult_imp_div_less)
  have "b AND 15 \<le> 15" by (rule word_and_le1)
  then show "unat (b AND 15) < 16" by (simp add: word_le_nat_alt)
qed

lemma nibbles_byte:
  "ucast (push_bit 4 (ucast (drop_bit 4 b) :: u32) OR ucast (b AND 15)) = b" for b :: u8
proof -
  have m: "(15 :: u8) = mask 4" by (simp add: mask_eq_exp_minus_1)
  show ?thesis
    unfolding m
    by (rule bit_eqI) (auto simp: bit_simps)
qed

lemma decode_encode_hex: "decode_hex (encode_hex bs) = Some bs"
proof -
  have "decode_hex_pairs (encode_hex bs) = Some bs"
  proof (induction bs)
    case (Cons b bs)
    then show ?case
      using nibbles_byte [of b]
      by (simp add: encode_hex_def to_digit16_hex_digit nibble_bounds)
  qed (simp add: encode_hex_def)
  moreover have "length (encode_hex bs) = 2 * length bs"
    by (induction bs) (simp_all add: encode_hex_def)
  ultimately show ?thesis by (simp add: decode_hex_def)
qed

lemma length_encode_hex [simp]: "length (encode_hex bs) = 2 * length bs"
  by (induction bs) (simp_all add: encode_hex_def)

lemma encode_hex_lower:
  "c \<in> set (encode_hex bs) \<Longrightarrow> is_ascii_hexdigit c \<and> \<not> is_ascii_uppercase c"
  unfolding encode_hex_def using hex_digit_class nibble_bounds by auto

section \<open>Little-endian integers\<close>

primrec to_le :: "nat \<Rightarrow> 'a::len word \<Rightarrow> u8 list" where
  "to_le 0 x = []"
| "to_le (Suc k) x = ucast x # to_le k (drop_bit 8 x)"

fun of_le :: "u8 list \<Rightarrow> 'a::len word" where
  "of_le [] = 0"
| "of_le (b # bs) = ucast b OR push_bit 8 (of_le bs)"

definition to_le_bytes64 :: "u64 \<Rightarrow> u8 list" where "to_le_bytes64 x = to_le 8 x"

lemma length_to_le [simp]: "length (to_le k x) = k"
  by (induction k arbitrary: x) auto

lemma of_le_to_le: "of_le (to_le k x) = take_bit (8 * k) x"
proof (induction k arbitrary: x)
  case (Suc k)
  show ?case
    by (rule bit_eqI) (auto simp: Suc bit_simps)
qed simp

lemma of_le_to_le_full: "LENGTH('a) \<le> 8 * k \<Longrightarrow> of_le (to_le k x) = (x :: 'a::len word)"
  by (simp add: of_le_to_le take_bit_word_eq_self)

lemma to_le_inj: "LENGTH('a) \<le> 8 * k \<Longrightarrow> to_le k x = to_le k y \<longleftrightarrow> x = (y :: 'a::len word)"
  by (metis of_le_to_le_full)

lemma length_to_le_bytes64 [simp]: "length (to_le_bytes64 x) = 8"
  by (simp add: to_le_bytes64_def)

lemma to_le_bytes64_inj [simp]: "to_le_bytes64 x = to_le_bytes64 y \<longleftrightarrow> x = y"
  unfolding to_le_bytes64_def by (rule to_le_inj) simp

section \<open>Searching sorted slices\<close>

text \<open>\<open>slice::binary_search_by\<close>: bisection of the half-open index range.\<close>

function binary_search :: "('a \<Rightarrow> 'k::linorder) \<Rightarrow> 'k \<Rightarrow> 'a list \<Rightarrow> nat \<Rightarrow> nat \<Rightarrow> nat option" where
  "binary_search key k xs lo hi =
    (if lo < hi
     then (let mid = lo + (hi - lo) div 2
           in if key (xs ! mid) = k then Some mid
              else if key (xs ! mid) < k then binary_search key k xs (mid + 1) hi
              else binary_search key k xs lo mid)
     else None)"
  by pat_completeness auto

termination by (relation "measure (\<lambda>(key, k, xs, lo, hi). hi - lo)") (auto simp: Let_def)

declare binary_search.simps [simp del]

lemma binary_search_Some:
  "binary_search key k xs lo hi = Some i \<Longrightarrow> lo \<le> i \<and> i < hi \<and> key (xs ! i) = k"
proof (induction key k xs lo hi rule: binary_search.induct)
  case (1 key k xs lo hi)
  let ?mid = "lo + (hi - lo) div 2"
  have lt: "lo < hi"
    using "1.prems" unfolding binary_search.simps [of key k xs lo hi] by (cases "lo < hi") simp_all
  then have mid: "lo \<le> ?mid" "?mid < hi" by linarith+
  have step: "(if key (xs ! ?mid) = k then Some ?mid
      else if key (xs ! ?mid) < k then binary_search key k xs (?mid + 1) hi
      else binary_search key k xs lo ?mid) = Some i"
    using "1.prems" lt unfolding binary_search.simps [of key k xs lo hi] by (simp add: Let_def)
  show ?case
  proof (cases "key (xs ! ?mid) = k")
    case True
    then show ?thesis using step mid by simp
  next
    case False
    then show ?thesis
      using step mid "1.IH"(1) [OF lt refl False] "1.IH"(2) [OF lt refl False]
      by (cases "key (xs ! ?mid) < k") auto
  qed
qed

lemma binary_search_None:
  assumes "sorted_wrt (<) (map key xs)" and "hi \<le> length xs"
    and "binary_search key k xs lo hi = None" and "lo \<le> i" and "i < hi"
  shows "key (xs ! i) \<noteq> k"
  using assms
proof (induction key k xs lo hi rule: binary_search.induct)
  case (1 key k xs lo hi)
  let ?mid = "lo + (hi - lo) div 2"
  have lt: "lo < hi" using "1.prems"(4,5) by simp
  then have mid: "?mid < hi" by linarith
  have less: "key (xs ! a) < key (xs ! b)" if "a < b" "b < length xs" for a b
    using "1.prems"(1) that by (auto simp: sorted_wrt_iff_nth_less)
  have res: "key (xs ! ?mid) \<noteq> k"
    "if key (xs ! ?mid) < k then binary_search key k xs (?mid + 1) hi = None
      else binary_search key k xs lo ?mid = None"
    using "1.prems"(3) lt unfolding binary_search.simps [of key k xs lo hi]
    by (simp_all only: Let_def if_True if_False split: if_splits) simp_all
  consider "i = ?mid" | "i < ?mid" "key (xs ! ?mid) < k" | "i < ?mid" "\<not> key (xs ! ?mid) < k"
    | "?mid < i" "key (xs ! ?mid) < k" | "?mid < i" "\<not> key (xs ! ?mid) < k" by linarith
  then show ?case
  proof cases
    case 1
    then show ?thesis using res(1) by simp
  next
    case 2
    then show ?thesis using less [of i ?mid] mid "1.prems"(2) by force
  next
    case 3
    have "binary_search key k xs lo ?mid = None" using res(2) 3(2) by simp
    then show ?thesis
      using "1.IH"(2) [OF lt refl res(1) 3(2) "1.prems"(1)] mid "1.prems"(2,4) 3(1) by linarith
  next
    case 4
    have "binary_search key k xs (?mid + 1) hi = None" using res(2) 4(2) by simp
    then show ?thesis
      using "1.IH"(1) [OF lt refl res(1) 4(2) "1.prems"(1,2)] "1.prems"(5) 4(1) by linarith
  next
    case 5
    have "key (xs ! ?mid) < key (xs ! i)" using less [of ?mid i] 5(1) "1.prems"(2,5) by simp
    then show ?thesis using 5(2) by force
  qed
qed

lemma binary_search_iff:
  assumes "sorted_wrt (<) (map key xs)"
  shows "(\<exists>i. binary_search key k xs 0 (length xs) = Some i) \<longleftrightarrow> k \<in> key ` set xs"
proof
  assume "\<exists>i. binary_search key k xs 0 (length xs) = Some i"
  then show "k \<in> key ` set xs" by (auto dest!: binary_search_Some)
next
  assume "k \<in> key ` set xs"
  then obtain i where "i < length xs" "key (xs ! i) = k" by (auto simp: in_set_conv_nth)
  then show "\<exists>i. binary_search key k xs 0 (length xs) = Some i"
    using binary_search_None [OF assms order_refl, of k 0 i] by (cases "binary_search key k xs 0 (length xs)") auto
qed

end
