(* ===== verification/Fingerprint.thy ===== *)
theory Fingerprint
  imports Wire_Text
begin

text \<open>
  Content identities (\<open>src/src/batch_resume.rs\<close>): the SHA-256 \<open>Digest\<close> with its hexadecimal
  text form, and \<open>FileFingerprint\<close>; and the length-prefixed messages that
  \<open>src/src/execution.rs\<close> hashes and signs (\<open>domain_message\<close>, \<open>domain_digest\<close>). SHA-256
  is a parameter.
\<close>

datatype digest = Digest (as_digest_bytes: "u8 list")

text \<open>The Rust type holds an array of 32 bytes.\<close>

definition digest_wf :: "digest \<Rightarrow> bool" where "digest_wf d \<longleftrightarrow> length (as_digest_bytes d) = 32"

instantiation digest :: linorder
begin

definition less_eq_digest :: "digest \<Rightarrow> digest \<Rightarrow> bool" where
  "less_eq_digest a b \<longleftrightarrow> as_digest_bytes a \<le> as_digest_bytes b"

definition less_digest :: "digest \<Rightarrow> digest \<Rightarrow> bool" where
  "less_digest a b \<longleftrightarrow> as_digest_bytes a < as_digest_bytes b"

instance
  by standard (auto simp: less_eq_digest_def less_digest_def digest.expand)

end

definition as_hex :: "digest \<Rightarrow> string" where "as_hex d = encode_hex (as_digest_bytes d)"

definition digest_from_str :: "string \<Rightarrow> digest option" where
  "digest_from_str value =
    (if length value \<noteq> 64 \<or> \<not> list_all is_ascii_hexdigit value then None
     else map_option Digest (decode_hex_pairs value))"

record file_fingerprint =
  fp_len :: u64
  fp_digest :: digest

type_synonym sha256 = "u8 list \<Rightarrow> u8 list"

definition domain_bytes :: "u8 list \<Rightarrow> u8 list \<Rightarrow> u8 list" where
  "domain_bytes tag value =
    to_le_bytes64 (word_of_nat (length tag)) @ tag @ to_le_bytes64 (word_of_nat (length value)) @ value"

definition domain_digest :: "sha256 \<Rightarrow> u8 list \<Rightarrow> u8 list \<Rightarrow> digest" where
  "domain_digest sha tag value = Digest (sha (domain_bytes tag value))"

text \<open>\<open>None\<close> is the overflow of the capacity computation; the allocation itself is not modelled.\<close>

definition domain_message :: "u8 list \<Rightarrow> u8 list \<Rightarrow> u8 list option" where
  "domain_message tag value =
    Option.bind (Option.bind (checked_add 16 (word_of_nat (length tag) :: usize))
        (\<lambda>size. checked_add size (word_of_nat (length value))))
      (\<lambda>_. Some (domain_bytes tag value))"

lemma digest_hex_roundtrip_wf:
  assumes "digest_wf d"
  shows "digest_from_str (as_hex d) = Some d"
proof -
  have "decode_hex_pairs (as_hex d) = Some (as_digest_bytes d)"
    using decode_encode_hex [of "as_digest_bytes d"] by (simp add: as_hex_def decode_hex_def)
  moreover have "list_all is_ascii_hexdigit (as_hex d)"
    using encode_hex_lower by (auto simp: as_hex_def list_all_iff)
  ultimately show ?thesis using assms by (simp add: digest_from_str_def as_hex_def digest_wf_def)
qed

lemma domain_bytes_inj:
  assumes "domain_bytes d v = domain_bytes d' v'"
    and "length d < 2 ^ 64" "length d' < 2 ^ 64" "length v < 2 ^ 64" "length v' < 2 ^ 64"
  shows "d = d' \<and> v = v'"
proof -
  have word: "n = m" if "(word_of_nat n :: u64) = word_of_nat m" "n < 2 ^ 64" "m < 2 ^ 64" for n m
    using that unat_word_of_nat_lt64 by metis
  from assms(1) have "(word_of_nat (length d) :: u64) = word_of_nat (length d')"
    and rest: "d @ to_le_bytes64 (word_of_nat (length v)) @ v = d' @ to_le_bytes64 (word_of_nat (length v')) @ v'"
    by (simp_all add: domain_bytes_def append_eq_append_conv)
  then have "length d = length d'" using word assms(2,3) by blast
  with rest show ?thesis by (simp add: append_eq_append_conv)
qed

end
