(* ===== verification/Paths.thy ===== *)
theory Paths
  imports Wire_Text
begin

text \<open>
  UTF-8 and Unix paths as the standard library gives them to the program: decoding of one
  character, \<open>str::from_utf8\<close>, \<open>to_string_lossy\<close>; and \<open>Path\<close> as the list of its
  components (the form in which Rust compares, joins and prefixes paths). What the
  filesystem answers (\<open>canonicalize\<close>, \<open>symlink_metadata\<close>, \<open>is_dir\<close>) is a parameter of
  the operations that ask it.
\<close>

section \<open>UTF-8\<close>

definition in_range :: "nat \<Rightarrow> nat \<Rightarrow> nat list \<Rightarrow> nat \<Rightarrow> bool" where
  "in_range lo hi bs i \<longleftrightarrow> i < length bs \<and> lo \<le> bs ! i \<and> bs ! i \<le> hi"

text \<open>Length of the next character and \<open>True\<close>, or of the maximal invalid prefix and \<open>False\<close>.\<close>

definition utf8_head :: "nat list \<Rightarrow> nat \<times> bool" where
  "utf8_head bs =
    (let b = hd bs in
     if b < 128 then (1, True)
     else if 194 \<le> b \<and> b \<le> 223 then (if in_range 128 191 bs 1 then (2, True) else (1, False))
     else if 224 \<le> b \<and> b \<le> 239 then
       (if \<not> in_range (if b = 224 then 160 else 128) (if b = 237 then 159 else 191) bs 1 then (1, False)
        else if in_range 128 191 bs 2 then (3, True) else (2, False))
     else if 240 \<le> b \<and> b \<le> 244 then
       (if \<not> in_range (if b = 240 then 144 else 128) (if b = 244 then 143 else 191) bs 1 then (1, False)
        else if \<not> in_range 128 191 bs 2 then (2, False)
        else if in_range 128 191 bs 3 then (4, True) else (3, False))
     else (1, False))"

lemma utf8_head_pos: "0 < fst (utf8_head bs)"
  by (simp add: utf8_head_def Let_def)

lemma utf8_head_posD: "(n, good) = utf8_head bs \<Longrightarrow> 0 < n"
  using utf8_head_pos [of bs] by (metis fst_conv)

function utf8_valid :: "nat list \<Rightarrow> bool" where
  "utf8_valid [] = True"
| "utf8_valid (b # bs) = (case utf8_head (b # bs) of (n, good) \<Rightarrow> good \<and> utf8_valid (drop n (b # bs)))"
  by pat_completeness auto

termination by (relation "measure length") (auto dest: utf8_head_posD)

text \<open>\<open>String::from_utf8_lossy\<close>: every maximal invalid piece becomes U+FFFD.\<close>

function utf8_lossy :: "nat list \<Rightarrow> nat list" where
  "utf8_lossy [] = []"
| "utf8_lossy (b # bs) = (case utf8_head (b # bs) of (n, good) \<Rightarrow>
     (if good then take n (b # bs) else [239, 191, 189]) @ utf8_lossy (drop n (b # bs)))"
  by pat_completeness auto

termination by (relation "measure length") (auto dest: utf8_head_posD)

definition char_codes :: "string \<Rightarrow> nat list" where "char_codes s = map of_char s"
definition utf8_text :: "string \<Rightarrow> bool" where "utf8_text s \<longleftrightarrow> utf8_valid (char_codes s)"
definition to_string_lossy :: "string \<Rightarrow> string" where
  "to_string_lossy s = map char_of (utf8_lossy (char_codes s))"

lemma utf8_lossy_valid: "utf8_valid bs \<Longrightarrow> utf8_lossy bs = bs"
  by (induction bs rule: utf8_valid.induct) (auto split: prod.splits)

lemma to_string_lossy_valid: "utf8_text s \<Longrightarrow> to_string_lossy s = s"
  by (simp add: utf8_text_def to_string_lossy_def utf8_lossy_valid char_codes_def comp_def)

lemma utf8_valid_ascii: "\<forall>b \<in> set bs. b < 128 \<Longrightarrow> utf8_valid bs"
  by (induction bs) (auto simp: utf8_head_def)

section \<open>Paths\<close>

datatype path_component = RootDir | CurDir | ParentDir | Normal string

type_synonym path = "path_component list"

text \<open>\<open>Path::components\<close>: empty pieces and inner \<open>.\<close> pieces vanish.\<close>

definition component_of :: "string \<Rightarrow> path_component" where
  "component_of s = (if s = ''..'' then ParentDir else Normal s)"

definition path_of :: "string \<Rightarrow> path" where
  "path_of s =
    (let pieces = split_on CHR ''/'' s;
         inner = map component_of (filter (\<lambda>p. p \<noteq> [] \<and> p \<noteq> ''.'') pieces)
     in if s \<noteq> [] \<and> hd s = CHR ''/'' then RootDir # inner
        else if hd pieces = ''.'' then CurDir # inner
        else inner)"

fun component_string :: "path_component \<Rightarrow> string" where
  "component_string RootDir = []"
| "component_string CurDir = ''.''"
| "component_string ParentDir = ''..''"
| "component_string (Normal s) = s"

definition path_string :: "path \<Rightarrow> string" where
  "path_string p = (if p = [RootDir] then ''/'' else join_with CHR ''/'' (map component_string p))"

definition is_absolute :: "path \<Rightarrow> bool" where
  "is_absolute p \<longleftrightarrow> p \<noteq> [] \<and> hd p = RootDir"

definition is_prefix :: "'a list \<Rightarrow> 'a list \<Rightarrow> bool" where
  "is_prefix p whole \<longleftrightarrow> take (length p) whole = p"

definition starts_with :: "path \<Rightarrow> path \<Rightarrow> bool" where "starts_with p root = is_prefix root p"

definition strip_prefix :: "path \<Rightarrow> path \<Rightarrow> path option" where
  "strip_prefix p root = (if starts_with p root then Some (drop (length root) p) else None)"

definition file_name :: "path \<Rightarrow> string option" where
  "file_name p = (case rev p of Normal s # _ \<Rightarrow> Some s | _ \<Rightarrow> None)"

definition parent :: "path \<Rightarrow> path option" where
  "parent p = (if p = [] \<or> p = [RootDir] then None else Some (butlast p))"

text \<open>\<open>PathBuf::push\<close> of another path; an absolute one replaces the first.\<close>

definition push :: "path \<Rightarrow> path \<Rightarrow> path" where
  "push p q = (if is_absolute q \<or> p = [] then q else p @ filter (\<lambda>c. c \<noteq> CurDir) q)"

lemma is_prefix_step [simp]:
  "is_prefix [] whole" "\<not> is_prefix (c # p) []"
  "is_prefix (c # p) (d # whole) \<longleftrightarrow> is_prefix p whole \<and> d = c"
  by (auto simp: is_prefix_def)

lemma is_prefix_iff: "is_prefix p whole \<longleftrightarrow> (\<exists>rest. whole = p @ rest)"
  unfolding is_prefix_def by (metis append_eq_conv_conj append_take_drop_id)

lemma starts_with_iff: "starts_with p root \<longleftrightarrow> (\<exists>rest. p = root @ rest)"
  by (simp add: starts_with_def is_prefix_iff)

lemma path_of_piece:
  assumes "s \<noteq> []" "s \<noteq> ''.''" "s \<noteq> ''..''" "CHR ''/'' \<notin> set s"
  shows "path_of s = [Normal s]"
  using assms by (auto simp: path_of_def split_on_plain component_of_def Let_def dest: hd_in_set)

end
