(* ===== verification/Execution_Plan.thy ===== *)
theory Execution_Plan
  imports Fingerprint Paths "HOL-Library.Multiset"
begin

text \<open>
  Execution plans (\<open>src/src/execution.rs\<close>): portable locators, plan items, the canonical
  plan and its validation. \<open>serde_json\<close> is a parameter (a serializer returns the buffers it
  writes, or nothing on failure); error messages keep their case but not their text.
\<close>

section \<open>Constants\<close>

definition CARGO_PKG_VERSION :: string where "CARGO_PKG_VERSION = ''0.90.2''"
definition EXECUTION_PLAN_SCHEMA :: string where "EXECUTION_PLAN_SCHEMA = ''denoize-execution-plan-v1''"
definition STREAM_EXECUTION_PLAN_SCHEMA :: string where
  "STREAM_EXECUTION_PLAN_SCHEMA = ''denoize-execution-plan-v2''"
definition EXECUTION_SCHEMA_VERSION :: u32 where "EXECUTION_SCHEMA_VERSION = 1"
definition STREAM_EXECUTION_SCHEMA_VERSION :: u32 where "STREAM_EXECUTION_SCHEMA_VERSION = 2"
definition MAX_JSON_BYTES :: u64 where "MAX_JSON_BYTES = 64 * 1024 * 1024"
definition MAX_JSON_SAFE_INTEGER :: u64 where "MAX_JSON_SAFE_INTEGER = 2 ^ 53 - 1"
definition MAX_ITEMS :: nat where "MAX_ITEMS = 200000"
definition MAX_LOCATOR_BYTES :: nat where "MAX_LOCATOR_BYTES = 4096"
definition MAX_TEXT_BYTES :: nat where "MAX_TEXT_BYTES = 1024"
definition PLAN_DIGEST_DOMAIN :: "u8 list" where
  "PLAN_DIGEST_DOMAIN = as_bytes ''denoize-execution-plan-digest-v1''"
definition EXECUTION_ITEM_ID_DOMAIN :: "u8 list" where
  "EXECUTION_ITEM_ID_DOMAIN = as_bytes ''denoize-execution-item-id-v1''"

section \<open>Errors\<close>

datatype locator_error =
    LocatorLength | LocatorNotPortable | LocatorUnsafeComponent | LocatorEmpty
  | LocatorNotUtf8 | LocatorNotContained | OutsideLocatorRoot | NoFileName

datatype action_error =
    UnknownPublication string | UnknownAction string
  | ProcessBindsExisting | ProcessUnpublished | ProcessStdoutPublication | StdoutNeedsStdoutLocator
  | SkipWithoutExisting | SkipPublishes | SkipStdout | SkipReservesResources
  | ProcessWithoutCpu | ProcessWithoutMemory

datatype exec_error =
    UnsafeText | Locator locator_error | Action action_error
  | FingerprintLength | JsonUnsafeInteger | GpuResourcesDisagree
  | StdioNeedsStream | ZeroGeometry | GeometryUnsafeInteger
  | UnsupportedSchema string | UnsupportedSchemaVersion u32 | UnknownMetadataPolicy string
  | NoItems | TooManyItems | ItemsNotIncreasing | DuplicateOutputLocator string
  | SerializeFailed | JsonTooLarge u64 | StreamNeedsStreamConstructor | IdentityLengthOverflow
  | OutputUnresolved | OutputEscapesRoot

section \<open>Serialized size\<close>

text \<open>The buffers \<open>serde_json\<close> writes, pretty-printed or not.\<close>

type_synonym 'a serializer = "bool \<Rightarrow> 'a \<Rightarrow> u8 list list option"

definition json_size_counter :: "u8 list list \<Rightarrow> u64" where
  "json_size_counter buffers =
    fold (\<lambda>buffer bytes. saturating_add bytes (word_of_nat (length buffer))) buffers 0"

definition ensure_serialized_json_size ::
  "'a serializer \<Rightarrow> 'a \<Rightarrow> bool \<Rightarrow> bool \<Rightarrow> u64 \<Rightarrow> exec_error + unit" where
  "ensure_serialized_json_size ser value pretty newline maximum =
    and_then (ok_or (ser pretty value) SerializeFailed) (\<lambda>buffers.
    let bytes = saturating_add (json_size_counter buffers) (if newline then 1 else 0)
    in fail_if (maximum < bytes) (JsonTooLarge bytes))"

section \<open>Text, locators and fingerprints\<close>

definition validate_text :: "string \<Rightarrow> exec_error + unit" where
  "validate_text value =
    fail_if (value = [] \<or> MAX_TEXT_BYTES < length value \<or> has_control value) UnsafeText"

definition validate_locator :: "string \<Rightarrow> exec_error + unit" where
  "validate_locator locator =
    and_then (fail_if (locator = [] \<or> MAX_LOCATOR_BYTES < length locator) (Locator LocatorLength)) (\<lambda>_.
    and_then (fail_if (hd locator = CHR ''/'' \<or> last locator = CHR ''/''
        \<or> CHR 0x5C \<in> set locator \<or> CHR '':'' \<in> set locator \<or> has_control locator)
      (Locator LocatorNotPortable)) (\<lambda>_.
    try_all (\<lambda>part. fail_if (part = [] \<or> part = ''.'' \<or> part = ''..'' \<or> 255 < length part)
        (Locator LocatorUnsafeComponent)) (split_on CHR ''/'' locator)))"

text \<open>\<open>Component::Prefix\<close> occurs on Windows only.\<close>

fun locator_parts :: "path \<Rightarrow> exec_error + string list" where
  "locator_parts [] = Inr []"
| "locator_parts (Normal value # cs) =
    (if \<not> utf8_text value then Inl (Locator LocatorNotUtf8)
     else and_then (locator_parts cs) (\<lambda>parts. Inr (value # parts)))"
| "locator_parts (CurDir # cs) = locator_parts cs"
| "locator_parts (ParentDir # cs) = Inl (Locator LocatorNotContained)"
| "locator_parts (RootDir # cs) = Inl (Locator LocatorNotContained)"

definition components_to_locator :: "path \<Rightarrow> exec_error + string" where
  "components_to_locator p =
    and_then (locator_parts p) (\<lambda>parts.
    and_then (fail_if (parts = []) (Locator LocatorEmpty)) (\<lambda>_.
    let locator = join_with CHR ''/'' parts
    in and_then (validate_locator locator) (\<lambda>_. Inr locator)))"

definition portable_locator :: "path \<Rightarrow> path \<Rightarrow> exec_error + string" where
  "portable_locator p root =
    and_then (ok_or (strip_prefix p root) (Locator OutsideLocatorRoot)) components_to_locator"

definition portable_file_locator :: "path \<Rightarrow> exec_error + string" where
  "portable_file_locator p =
    and_then (ok_or (file_name p) (Locator NoFileName)) (\<lambda>name. components_to_locator (path_of name))"

definition validate_fingerprint :: "file_fingerprint \<Rightarrow> exec_error + unit" where
  "validate_fingerprint fingerprint =
    fail_if (fp_len fingerprint = 0 \<or> MAX_JSON_SAFE_INTEGER < fp_len fingerprint) FingerprintLength"

record planned_artifact =
  art_path :: string
  art_fingerprint :: file_fingerprint

definition validate_artifact :: "planned_artifact \<Rightarrow> exec_error + unit" where
  "validate_artifact artifact =
    and_then (validate_locator (art_path artifact)) (\<lambda>_.
    validate_fingerprint (art_fingerprint artifact))"

section \<open>Plans\<close>

datatype execution_kind = File | Batch | Stream

record planned_output =
  out_path :: string
  out_format :: string
  out_publication :: string
  out_action :: string
  out_reason :: string
  out_existing_fingerprint :: "file_fingerprint option"

record planned_resources =
  res_memory_bytes :: u64
  res_temporary_bytes :: u64
  res_cpu_jobs :: u64
  res_gpu_jobs :: u64
  res_gpu_memory_bytes :: u64

record execution_plan_item =
  item_id :: digest
  item_input :: planned_artifact
  item_output :: planned_output
  item_model :: "planned_artifact option"
  item_recipe :: digest
  item_backend :: string
  item_accelerator :: string
  item_input_format :: string
  item_input_codec :: string
  item_channels :: u64
  item_frames :: u64
  item_sample_rate :: u32
  item_resources :: planned_resources

record execution_plan =
  plan_schema :: string
  plan_schema_version :: u32
  plan_denoize_version :: string
  plan_kind :: execution_kind
  plan_deterministic :: bool
  plan_metadata_policy :: string
  plan_items :: "execution_plan_item list"

definition require_execution_schema ::
  "string \<Rightarrow> u32 \<Rightarrow> execution_kind \<Rightarrow> string \<Rightarrow> string \<Rightarrow> exec_error + unit" where
  "require_execution_schema actual version kind legacy stream =
    (let (expected_schema, expected_version) =
       (if kind = Stream then (stream, STREAM_EXECUTION_SCHEMA_VERSION)
        else (legacy, EXECUTION_SCHEMA_VERSION))
     in and_then (fail_if (actual \<noteq> expected_schema) (UnsupportedSchema actual)) (\<lambda>_.
        fail_if (version \<noteq> expected_version) (UnsupportedSchemaVersion version)))"

definition validate_resources :: "planned_resources \<Rightarrow> exec_error + unit" where
  "validate_resources resources =
    and_then (try_all (\<lambda>value. fail_if (MAX_JSON_SAFE_INTEGER < value) JsonUnsafeInteger)
      [res_memory_bytes resources, res_temporary_bytes resources, res_cpu_jobs resources,
       res_gpu_jobs resources, res_gpu_memory_bytes resources]) (\<lambda>_.
    fail_if ((res_gpu_jobs resources = 0) \<noteq> (res_gpu_memory_bytes resources = 0)) GpuResourcesDisagree)"

definition check_publication :: "execution_kind \<Rightarrow> planned_output \<Rightarrow> exec_error + unit" where
  "check_publication kind out =
    fail_if (\<not> (out_publication out \<in> {''no-clobber'', ''replace'', ''none''}
        \<or> (out_publication out = ''stdout'' \<and> kind = Stream \<and> out_path out = ''-'')))
      (Action (UnknownPublication (out_publication out)))"

definition check_action :: "planned_output \<Rightarrow> planned_resources \<Rightarrow> exec_error + unit" where
  "check_action out resources =
    (if out_action out = ''process'' then
       (if out_existing_fingerprint out \<noteq> None then Inl (Action ProcessBindsExisting)
        else if out_publication out = ''none'' then Inl (Action ProcessUnpublished)
        else if out_path out = ''-'' \<and> out_publication out \<noteq> ''stdout'' then Inl (Action ProcessStdoutPublication)
        else if out_path out \<noteq> ''-'' \<and> out_publication out = ''stdout'' then Inl (Action StdoutNeedsStdoutLocator)
        else Inr ())
     else if out_action out = ''skip'' then
       (if out_existing_fingerprint out = None then Inl (Action SkipWithoutExisting)
        else if out_publication out \<noteq> ''none'' then Inl (Action SkipPublishes)
        else if out_path out = ''-'' then Inl (Action SkipStdout)
        else if res_memory_bytes resources \<noteq> 0 \<or> res_temporary_bytes resources \<noteq> 0
          \<or> res_cpu_jobs resources \<noteq> 0 \<or> res_gpu_jobs resources \<noteq> 0
          \<or> res_gpu_memory_bytes resources \<noteq> 0 then Inl (Action SkipReservesResources)
        else Inr ())
     else Inl (Action (UnknownAction (out_action out))))"

text \<open>\<open>if let Some(x) = m { check(x)? }\<close>.\<close>

definition check_some :: "('a \<Rightarrow> 'e + unit) \<Rightarrow> 'a option \<Rightarrow> 'e + unit" where
  "check_some check m = (case m of None \<Rightarrow> Inr () | Some x \<Rightarrow> check x)"

definition validate_plan_item :: "execution_kind \<Rightarrow> execution_plan_item \<Rightarrow> exec_error + unit" where
  "validate_plan_item kind item =
    and_then (validate_artifact (item_input item)) (\<lambda>_.
    and_then (validate_locator (out_path (item_output item))) (\<lambda>_.
    and_then (fail_if (kind \<noteq> Stream
        \<and> (art_path (item_input item) = ''-'' \<or> out_path (item_output item) = ''-'')) StdioNeedsStream) (\<lambda>_.
    and_then (validate_text (out_format (item_output item))) (\<lambda>_.
    and_then (check_publication kind (item_output item)) (\<lambda>_.
    and_then (check_action (item_output item) (item_resources item)) (\<lambda>_.
    and_then (check_some validate_fingerprint (out_existing_fingerprint (item_output item))) (\<lambda>_.
    and_then (validate_text (out_reason (item_output item))) (\<lambda>_.
    and_then (check_some validate_artifact (item_model item)) (\<lambda>_.
    and_then (try_all validate_text
      [item_backend item, item_accelerator item, item_input_format item, item_input_codec item]) (\<lambda>_.
    and_then (fail_if (item_channels item = 0 \<or> item_frames item = 0 \<or> item_sample_rate item = 0)
      ZeroGeometry) (\<lambda>_.
    and_then (fail_if (MAX_JSON_SAFE_INTEGER < item_channels item
        \<or> MAX_JSON_SAFE_INTEGER < item_frames item) GeometryUnsafeInteger) (\<lambda>_.
    and_then (validate_resources (item_resources item)) (\<lambda>_.
    and_then (fail_if (res_cpu_jobs (item_resources item) = 0
        \<and> out_action (item_output item) = ''process'') (Action ProcessWithoutCpu)) (\<lambda>_.
    fail_if (out_action (item_output item) = ''process''
        \<and> (res_memory_bytes (item_resources item) = 0
          \<or> res_temporary_bytes (item_resources item) = 0)) (Action ProcessWithoutMemory)))))))))))))))"

text \<open>
  The loop of the three \<open>validate\<close> methods over identified items with output locators: the
  identities increase, each item passes its check, no locator repeats.
\<close>

fun validate_sequence ::
  "('i \<Rightarrow> digest) \<Rightarrow> ('i \<Rightarrow> string) \<Rightarrow> ('i \<Rightarrow> exec_error + unit) \<Rightarrow> digest option \<Rightarrow> string set
     \<Rightarrow> 'i list \<Rightarrow> exec_error + unit" where
  "validate_sequence ident path check previous output_paths [] = Inr ()"
| "validate_sequence ident path check previous output_paths (item # items) =
    (if (case previous of None \<Rightarrow> False | Some value \<Rightarrow> ident item \<le> value) then Inl ItemsNotIncreasing
     else and_then (check item) (\<lambda>_.
       if path item \<in> output_paths then Inl (DuplicateOutputLocator (path item))
       else validate_sequence ident path check (Some (ident item)) (insert (path item) output_paths) items))"

definition plan_validate :: "execution_plan serializer \<Rightarrow> execution_plan \<Rightarrow> exec_error + unit" where
  "plan_validate ser plan =
    and_then (require_execution_schema (plan_schema plan) (plan_schema_version plan) (plan_kind plan)
      EXECUTION_PLAN_SCHEMA STREAM_EXECUTION_PLAN_SCHEMA) (\<lambda>_.
    and_then (validate_text (plan_denoize_version plan)) (\<lambda>_.
    and_then (fail_if (plan_metadata_policy plan \<notin> {''preserve'', ''drop''})
      (UnknownMetadataPolicy (plan_metadata_policy plan))) (\<lambda>_.
    and_then (fail_if (plan_items plan = []) NoItems) (\<lambda>_.
    and_then (fail_if (MAX_ITEMS < length (plan_items plan)) TooManyItems) (\<lambda>_.
    and_then (validate_sequence item_id (\<lambda>item. out_path (item_output item))
      (validate_plan_item (plan_kind plan)) None {} (plan_items plan)) (\<lambda>_.
    ensure_serialized_json_size ser plan False False (MAX_JSON_BYTES - 1)))))))"

definition plan_new_with_schema ::
  "execution_plan serializer \<Rightarrow> string \<Rightarrow> u32 \<Rightarrow> execution_kind \<Rightarrow> bool \<Rightarrow> string
     \<Rightarrow> execution_plan_item list \<Rightarrow> exec_error + execution_plan" where
  "plan_new_with_schema ser schema schema_version kind deterministic metadata_policy items =
    (let plan = \<lparr>plan_schema = schema, plan_schema_version = schema_version,
       plan_denoize_version = CARGO_PKG_VERSION, plan_kind = kind, plan_deterministic = deterministic,
       plan_metadata_policy = metadata_policy, plan_items = sort_key item_id items\<rparr>
     in and_then (plan_validate ser plan) (\<lambda>_. Inr plan))"

definition plan_new ::
  "execution_plan serializer \<Rightarrow> execution_kind \<Rightarrow> bool \<Rightarrow> string \<Rightarrow> execution_plan_item list
     \<Rightarrow> exec_error + execution_plan" where
  "plan_new ser kind deterministic metadata_policy items =
    (if kind = Stream then Inl StreamNeedsStreamConstructor
     else plan_new_with_schema ser EXECUTION_PLAN_SCHEMA EXECUTION_SCHEMA_VERSION kind deterministic
       metadata_policy items)"

definition plan_new_stream ::
  "execution_plan serializer \<Rightarrow> bool \<Rightarrow> string \<Rightarrow> execution_plan_item list \<Rightarrow> exec_error + execution_plan" where
  "plan_new_stream ser deterministic metadata_policy items =
    plan_new_with_schema ser STREAM_EXECUTION_PLAN_SCHEMA STREAM_EXECUTION_SCHEMA_VERSION Stream
      deterministic metadata_policy items"

definition plan_digest :: "sha256 \<Rightarrow> execution_plan serializer \<Rightarrow> execution_plan \<Rightarrow> exec_error + digest" where
  "plan_digest sha ser plan =
    and_then (plan_validate ser plan) (\<lambda>_.
    and_then (ok_or (ser False plan) SerializeFailed) (\<lambda>buffers.
    Inr (domain_digest sha PLAN_DIGEST_DOMAIN (concat buffers))))"

definition execution_item_bytes :: "file_fingerprint \<Rightarrow> string \<Rightarrow> digest \<Rightarrow> u8 list" where
  "execution_item_bytes input output_locator recipe =
    to_le_bytes64 (fp_len input) @ as_digest_bytes (fp_digest input)
    @ to_le_bytes64 (word_of_nat (length output_locator)) @ as_bytes output_locator @ as_digest_bytes recipe"

definition execution_item_id ::
  "sha256 \<Rightarrow> file_fingerprint \<Rightarrow> string \<Rightarrow> digest \<Rightarrow> exec_error + digest" where
  "execution_item_id sha input output_locator recipe =
    and_then (validate_locator output_locator) (\<lambda>_.
    and_then (ok_or (Option.bind (Option.bind (Option.bind (checked_add 8 (32 :: usize))
        (\<lambda>value. checked_add value 8)) (\<lambda>value. checked_add value (word_of_nat (length output_locator))))
        (\<lambda>value. checked_add value 32)) IdentityLengthOverflow) (\<lambda>_.
    Inr (domain_digest sha EXECUTION_ITEM_ID_DOMAIN (execution_item_bytes input output_locator recipe))))"

text \<open>\<open>resolve_locator\<close>: \<open>canonicalize\<close> is the filesystem's answer.\<close>

definition resolve_locator :: "(path \<Rightarrow> path option) \<Rightarrow> path \<Rightarrow> string \<Rightarrow> exec_error + path" where
  "resolve_locator canonicalize root locator =
    and_then (validate_locator locator) (\<lambda>_.
    let candidate = fold (\<lambda>component p. push p (path_of component)) (split_on CHR ''/'' locator) root
    in and_then (ok_or (canonicalize candidate) OutputUnresolved) (\<lambda>resolved.
       if starts_with resolved root then Inr resolved else Inl OutputEscapesRoot))"

section \<open>Facts about the checks\<close>

lemma check_some_iff [res_simps]:
  "check_some check m = Inr u \<longleftrightarrow> (\<forall>x. m = Some x \<longrightarrow> check x = Inr ())"
  by (cases m) (auto simp: check_some_def)

lemma validate_sequence_iff:
  "validate_sequence ident path check previous seen items = Inr u \<longleftrightarrow>
     (\<forall>item \<in> set items. check item = Inr ()
        \<and> (\<forall>value. previous = Some value \<longrightarrow> value < ident item) \<and> path item \<notin> seen)
   \<and> sorted_wrt (<) (map ident items) \<and> distinct (map path items)"
proof (induction items arbitrary: previous seen)
  case (Cons item items)
  let ?rest = "\<lambda>p s. validate_sequence ident path check p s items = Inr u"
  have "validate_sequence ident path check previous seen (item # items) = Inr u \<longleftrightarrow>
      (\<forall>value. previous = Some value \<longrightarrow> value < ident item) \<and> check item = Inr ()
      \<and> path item \<notin> seen \<and> ?rest (Some (ident item)) (insert (path item) seen)"
    by (cases previous) (auto simp: and_then_unit_iff not_le)
  also have "\<dots> \<longleftrightarrow> (\<forall>i \<in> set (item # items). check i = Inr ()
        \<and> (\<forall>value. previous = Some value \<longrightarrow> value < ident i) \<and> path i \<notin> seen)
   \<and> sorted_wrt (<) (map ident (item # items)) \<and> distinct (map path (item # items))"
    unfolding Cons.IH by (auto intro: less_trans) (metis image_eqI)
  finally show ?case .
qed simp

lemma validate_locator_iff:
  "validate_locator l = Inr u \<longleftrightarrow> l \<noteq> [] \<and> length l \<le> MAX_LOCATOR_BYTES
     \<and> hd l \<noteq> CHR ''/'' \<and> last l \<noteq> CHR ''/'' \<and> CHR 0x5C \<notin> set l \<and> CHR '':'' \<notin> set l \<and> \<not> has_control l
     \<and> (\<forall>part \<in> set (split_on CHR ''/'' l). part \<noteq> [] \<and> part \<noteq> ''.'' \<and> part \<noteq> ''..'' \<and> length part \<le> 255)"
  by (auto simp: validate_locator_def and_then_Inr_iff try_all_Inr_iff not_less)

lemma locator_path:
  assumes "validate_locator l = Inr ()"
  shows "path_of l = map Normal (split_on CHR ''/'' l)"
proof -
  have pieces: "\<forall>p \<in> set (split_on CHR ''/'' l). p \<noteq> [] \<and> p \<noteq> ''.'' \<and> p \<noteq> ''..''"
    and head: "hd l \<noteq> CHR ''/''"
    using assms by (auto simp: validate_locator_iff)
  then have "filter (\<lambda>p. p \<noteq> [] \<and> p \<noteq> ''.'') (split_on CHR ''/'' l) = split_on CHR ''/'' l"
    by (auto simp: filter_id_conv)
  moreover have "map component_of (split_on CHR ''/'' l) = map Normal (split_on CHR ''/'' l)"
    using pieces by (auto simp: component_of_def)
  moreover have "hd (split_on CHR ''/'' l) \<noteq> ''.''"
    using bspec [OF pieces hd_in_set [OF split_on_nonempty]] by (elim conjE)
  ultimately show ?thesis using head by (simp add: path_of_def)
qed

lemma push_pieces:
  assumes "\<And>p. p \<in> set ps \<Longrightarrow> p \<noteq> [] \<and> p \<noteq> ''.'' \<and> p \<noteq> ''..'' \<and> CHR ''/'' \<notin> set p"
  shows "fold (\<lambda>component p. push p (path_of component)) ps root = root @ map Normal ps"
  using assms
proof (induction ps arbitrary: root)
  case (Cons p ps)
  have "path_of p = [Normal p]" using Cons.prems [of p] by (simp add: path_of_piece)
  then have "push root (path_of p) = root @ [Normal p]" by (simp add: push_def is_absolute_def)
  then show ?case using Cons by simp
qed simp

lemma locator_candidate:
  assumes "validate_locator l = Inr ()"
  shows "fold (\<lambda>component p. push p (path_of component)) (split_on CHR ''/'' l) root
    = root @ map Normal (split_on CHR ''/'' l)"
  using assms by (intro push_pieces) (auto simp: validate_locator_iff dest: split_on_no_sep)

section \<open>Properties\<close>

text \<open>A constructed plan is canonical. When \<open>ExecutionPlan::new\<close> succeeds, the plan holds
  exactly the given items in strictly increasing order of identity, no two items share an
  identity or an output locator, every item passes validation, and the plan itself validates.\<close>

theorem plan_new_canonical:
  assumes "plan_new ser kind deterministic policy items = Inr plan"
  shows "mset (plan_items plan) = mset items \<and> sorted_wrt (<) (map item_id (plan_items plan))
    \<and> distinct (map (\<lambda>item. out_path (item_output item)) (plan_items plan))
    \<and> (\<forall>item \<in> set items. validate_plan_item kind item = Inr ())
    \<and> plan_validate ser plan = Inr ()"
proof -
  have plan: "plan_items plan = sort_key item_id items" "plan_kind plan = kind"
    and valid: "plan_validate ser plan = Inr ()"
    using assms by (auto simp: plan_new_def plan_new_with_schema_def Let_def and_then_Inr_iff split: if_splits)
  then have "validate_sequence item_id (\<lambda>item. out_path (item_output item))
      (validate_plan_item kind) None {} (plan_items plan) = Inr ()"
    by (simp add: plan_validate_def and_then_unit_iff)
  then show ?thesis using plan valid by (auto simp: validate_sequence_iff)
qed

text \<open>C19: Output locators stay below the root. A locator that resolves was asked for at the
  root followed by plain names only, with no parent, root or current-directory component, and
  the resolved file lies below the root.\<close>

theorem resolved_locator_contained:
  assumes "resolve_locator canonicalize root locator = Inr p"
  shows "canonicalize (root @ map Normal (split_on CHR ''/'' locator)) = Some p
    \<and> starts_with p root \<and> path_of locator = map Normal (split_on CHR ''/'' locator)"
  using assms locator_candidate [of locator root] locator_path [of locator]
  by (auto simp: resolve_locator_def Let_def and_then_Inr_iff split: if_splits)

theorem resolved_locator_contained_witness:
  "\<exists>p. resolve_locator Some (path_of ''/srv/out'') ''a/b.wav'' = Inr p
    \<and> starts_with p [RootDir, Normal ''srv'', Normal ''out'']"
proof -
  have root: "path_of ''/srv/out'' = [RootDir, Normal ''srv'', Normal ''out'']" by code_simp
  have "resolve_locator Some (path_of ''/srv/out'') ''a/b.wav''
      = Inr [RootDir, Normal ''srv'', Normal ''out'', Normal ''a'', Normal ''b.wav'']"
    by code_simp
  from resolved_locator_contained [OF this] this root show ?thesis by simp
qed

text \<open>A concrete plan item: a WAV file processed into a new file.\<close>

definition sample_artifact :: planned_artifact where
  "sample_artifact = \<lparr>art_path = ''in.wav'',
     art_fingerprint = \<lparr>fp_len = 44, fp_digest = Digest (replicate 32 7)\<rparr>\<rparr>"

definition sample_item :: "u8 \<Rightarrow> string \<Rightarrow> execution_plan_item" where
  "sample_item n out = \<lparr>item_id = Digest (replicate 32 n), item_input = sample_artifact,
     item_output = \<lparr>out_path = out, out_format = ''wav'', out_publication = ''no-clobber'',
       out_action = ''process'', out_reason = ''missing'', out_existing_fingerprint = None\<rparr>,
     item_model = None, item_recipe = Digest (replicate 32 9), item_backend = ''classical'',
     item_accelerator = ''cpu'', item_input_format = ''wav'', item_input_codec = ''pcm'',
     item_channels = 1, item_frames = 480, item_sample_rate = 48000,
     item_resources = \<lparr>res_memory_bytes = 4096, res_temporary_bytes = 4096, res_cpu_jobs = 1,
       res_gpu_jobs = 0, res_gpu_memory_bytes = 0\<rparr>\<rparr>"

definition sample_serializer :: "'a serializer" where "sample_serializer pretty x = Some [[123, 125]]"

lemmas sample_eval = sample_item_def sample_artifact_def validate_plan_item_def validate_artifact_def
  validate_locator_def validate_fingerprint_def validate_text_def check_publication_def check_action_def
  check_some_def validate_resources_def MAX_JSON_SAFE_INTEGER_def MAX_LOCATOR_BYTES_def MAX_TEXT_BYTES_def

lemma sample_item_valid:
  "out = ''a.wav'' \<or> out = ''b.wav'' \<Longrightarrow> validate_plan_item File (sample_item n out) = Inr ()"
  by (auto simp: sample_eval)

definition sample_plan :: execution_plan where
  "sample_plan = \<lparr>plan_schema = EXECUTION_PLAN_SCHEMA, plan_schema_version = EXECUTION_SCHEMA_VERSION,
    plan_denoize_version = CARGO_PKG_VERSION, plan_kind = File, plan_deterministic = True,
    plan_metadata_policy = ''drop'', plan_items = [sample_item 1 ''a.wav'', sample_item 2 ''b.wav'']\<rparr>"

lemma sample_ids_less: "Digest (replicate 32 1) < Digest (replicate 32 2)"
  by (simp add: less_digest_def numeral_eq_Suc)

lemma sample_version: "validate_text CARGO_PKG_VERSION = Inr ()"
  by (simp add: CARGO_PKG_VERSION_def validate_text_def MAX_TEXT_BYTES_def)

lemma sample_size: "ensure_serialized_json_size sample_serializer x pretty False (MAX_JSON_BYTES - 1) = Inr ()"
  by (simp add: ensure_serialized_json_size_def sample_serializer_def json_size_counter_def
      saturating_add_def checked_add_def MAX_JSON_BYTES_def)

lemma sample_plan_valid: "plan_validate sample_serializer sample_plan = Inr ()"
proof -
  have "validate_sequence item_id (\<lambda>item. out_path (item_output item)) (validate_plan_item File) None {}
      [sample_item 1 ''a.wav'', sample_item 2 ''b.wav''] = Inr ()"
    using sample_ids_less unfolding validate_sequence_iff
    by (simp add: sample_item_valid) (simp add: sample_item_def)
  then show ?thesis
    using sample_version sample_size
    by (simp add: sample_plan_def plan_validate_def require_execution_schema_def MAX_ITEMS_def
        del: validate_sequence.simps)
qed

lemma sample_plan_new:
  "plan_new sample_serializer File True ''drop'' [sample_item 2 ''b.wav'', sample_item 1 ''a.wav''] = Inr sample_plan"
proof -
  have sorted: "sort_key item_id [sample_item 2 ''b.wav'', sample_item 1 ''a.wav''] =
    [sample_item 1 ''a.wav'', sample_item 2 ''b.wav'']"
    using sample_ids_less by (simp add: sample_item_def)
  show ?thesis
    using sample_plan_valid unfolding plan_new_def plan_new_with_schema_def sorted
    by (simp add: sample_plan_def Let_def)
qed

theorem plan_new_canonical_witness:
  "plan_new sample_serializer File True ''drop'' [sample_item 2 ''b.wav'', sample_item 1 ''a.wav''] = Inr sample_plan
    \<and> sorted_wrt (<) (map item_id (plan_items sample_plan))
    \<and> mset (plan_items sample_plan) = mset [sample_item 2 ''b.wav'', sample_item 1 ''a.wav'']"
  using plan_new_canonical [OF sample_plan_new] sample_plan_new by blast

text \<open>A locator names its file and nothing else. A valid locator, anchored below any
  root, is given back by \<open>portable_locator\<close> (its pieces being UTF-8, as those of a Rust
  string are).\<close>

theorem portable_locator_roundtrip:
  assumes "validate_locator locator = Inr ()"
    and "\<forall>part \<in> set (split_on CHR ''/'' locator). utf8_text part"
  shows "portable_locator (root @ path_of locator) root = Inr locator"
proof -
  have parts: "locator_parts (map Normal ps) = Inr ps" if "\<forall>p \<in> set ps. utf8_text p" for ps
    using that by (induction ps) auto
  have "strip_prefix (root @ path_of locator) root = Some (path_of locator)"
    by (simp add: strip_prefix_def starts_with_iff)
  moreover have "components_to_locator (path_of locator) = Inr locator"
    using assms by (simp add: components_to_locator_def locator_path parts join_split)
  ultimately show ?thesis by (simp add: portable_locator_def)
qed

theorem portable_locator_roundtrip_witness:
  "portable_locator (path_of ''/srv/out'' @ path_of ''a/b.wav'') (path_of ''/srv/out'') = Inr ''a/b.wav''"
  by (rule portable_locator_roundtrip)
    (simp_all add: validate_locator_def MAX_LOCATOR_BYTES_def utf8_text_def utf8_head_def char_codes_def)

text \<open>An item's identity covers every part of it. Two items whose hashed bytes agree have
  the same input length and digest, the same output locator and the same recipe.\<close>

theorem item_identity_injective:
  assumes "execution_item_bytes input locator recipe = execution_item_bytes input' locator' recipe'"
    and "digest_wf (fp_digest input)" "digest_wf (fp_digest input')"
    and "validate_locator locator = Inr ()" "validate_locator locator' = Inr ()"
  shows "input = input' \<and> locator = locator' \<and> recipe = recipe'"
proof -
  let ?n = "\<lambda>l. word_of_nat (length l) :: u64"
  have len: "fp_len input = fp_len input'"
    and rest: "as_digest_bytes (fp_digest input) @ to_le_bytes64 (?n locator) @ as_bytes locator @ as_digest_bytes recipe
      = as_digest_bytes (fp_digest input') @ to_le_bytes64 (?n locator') @ as_bytes locator' @ as_digest_bytes recipe'"
    using assms(1) by (simp_all add: execution_item_bytes_def append_eq_append_conv)
  then have dig: "fp_digest input = fp_digest input'" and n: "?n locator = ?n locator'"
    and tail: "as_bytes locator @ as_digest_bytes recipe = as_bytes locator' @ as_digest_bytes recipe'"
    using assms(2,3) by (simp_all add: append_eq_append_conv digest_wf_def digest.expand)
  have "length l < 2 ^ 64" if "validate_locator l = Inr ()" for l
    using that by (auto simp: validate_locator_iff MAX_LOCATOR_BYTES_def)
  with assms(4,5) n have "length locator = length locator'"
    using unat_word_of_nat_lt64 by metis
  with tail have "locator = locator' \<and> recipe = recipe'"
    by (simp add: append_eq_append_conv digest.expand)
  with len dig show ?thesis by simp
qed

theorem item_identity_injective_witness:
  "\<exists>input. execution_item_bytes input ''a.wav'' (Digest [1]) = execution_item_bytes input ''a.wav'' (Digest [1])
    \<and> input = input \<and> digest_wf (fp_digest input)"
proof -
  let ?fp = "\<lparr>fp_len = 44, fp_digest = Digest (replicate 32 7)\<rparr>"
  have "?fp = ?fp \<and> ''a.wav'' = ''a.wav'' \<and> Digest [1] = Digest [1]"
    by (rule item_identity_injective)
      (simp_all add: digest_wf_def validate_locator_def MAX_LOCATOR_BYTES_def)
  then show ?thesis by (intro exI [of _ ?fp]) (simp add: digest_wf_def)
qed

end
