(* ===== verification/Receipts.thy ===== *)
theory Receipts
  imports Execution_Plan
begin

text \<open>
  Signed execution receipts (\<open>src/src/execution.rs\<close>): receipt items bound to plan items, the
  signed payload, key files, the trust policy with rotation and revocation, and offline
  verification. Parameters, collected in \<open>receipt_env\<close>: SHA-256, base64, Ed25519 (the public
  half of a PKCS#8 document, signing, verification) and the \<open>serde_json\<close> serializers; the
  filesystem is the record \<open>verify_fs\<close>, whose answers may change from one call to the next.
\<close>

section \<open>Constants and errors\<close>

definition EXECUTION_RECEIPT_SCHEMA :: string where
  "EXECUTION_RECEIPT_SCHEMA = ''denoize-execution-receipt-v1''"
definition STREAM_EXECUTION_RECEIPT_SCHEMA :: string where
  "STREAM_EXECUTION_RECEIPT_SCHEMA = ''denoize-execution-receipt-v2''"
definition RECEIPT_PUBLIC_KEY_SCHEMA :: string where
  "RECEIPT_PUBLIC_KEY_SCHEMA = ''denoize-receipt-public-key-v1''"
definition RECEIPT_SECRET_KEY_SCHEMA :: string where
  "RECEIPT_SECRET_KEY_SCHEMA = ''denoize-receipt-secret-key-v1''"
definition RECEIPT_TRUST_POLICY_SCHEMA :: string where
  "RECEIPT_TRUST_POLICY_SCHEMA = ''denoize-receipt-trust-policy-v1''"
definition RECEIPT_VERIFICATION_SCHEMA :: string where
  "RECEIPT_VERIFICATION_SCHEMA = ''denoize-receipt-verification-v1''"
definition STREAM_RECEIPT_VERIFICATION_SCHEMA :: string where
  "STREAM_RECEIPT_VERIFICATION_SCHEMA = ''denoize-receipt-verification-v2''"
definition ED25519_ALGORITHM :: string where "ED25519_ALGORITHM = ''ed25519''"
definition RECEIPT_SIGNATURE_DOMAIN :: "u8 list" where
  "RECEIPT_SIGNATURE_DOMAIN = as_bytes ''denoize-execution-receipt-signature-v1''"
definition STREAM_RECEIPT_SIGNATURE_DOMAIN :: "u8 list" where
  "STREAM_RECEIPT_SIGNATURE_DOMAIN = as_bytes ''denoize-execution-receipt-signature-v2''"
definition RECEIPT_KEY_ID_DOMAIN :: "u8 list" where
  "RECEIPT_KEY_ID_DOMAIN = as_bytes ''denoize-execution-receipt-key-id-v1''"
definition RECEIPT_ENVELOPE_ALLOWANCE_BYTES :: u64 where
  "RECEIPT_ENVELOPE_ALLOWANCE_BYTES = 4 * 1024"

datatype key_error =
    WrongKeySchema string | WrongKeySchemaVersion u32 | UnsupportedAlgorithm string
  | InvalidKeyId | KeyIdNotLowercase | Base64TooLarge | Base64Invalid | SignatureLength
  | PublicKeyLength | KeyIdMismatch | KeyNotSupplied string string | SecretKeyIdentity
  | SecretKeyParse | SecretPublicDisagree | MessageOverflow | SignatureRejected
  | NoTrustedKeys | TooManyKeys | TrustedNotSorted | RevokedNotSorted
  | KeyRevoked string | KeyNotTrusted string

datatype receipt_error =
    Exec exec_error | KeyError key_error
  | ExistingFingerprintDiffers digest | UnknownOutcome string | PlanIdentityMismatch
  | PlanItemCountMismatch | PlanItemMismatch digest | OutcomeMismatch string string digest
  | NotStreamSchema | NotExecutionSchema | UnsupportedReceiptSchema string
  | RootUnresolved | RootNotDirectory | StreamOutputMissing | StreamOutputUnresolved
  | OutputUnreadable | OutputMoved string | OutputFingerprintMismatch string | StreamOutputUnused

section \<open>Data\<close>

record receipt_output =
  rout_path :: string
  rout_format :: string
  rout_fingerprint :: file_fingerprint

record receipt_item =
  ri_item_id :: digest
  ri_input :: planned_artifact
  ri_output :: receipt_output
  ri_model :: "planned_artifact option"
  ri_recipe :: digest
  ri_backend :: string
  ri_accelerator :: string
  ri_channels :: u64
  ri_frames :: u64
  ri_sample_rate :: u32
  ri_outcome :: string

record receipt_payload =
  pay_denoize_version :: string
  pay_kind :: execution_kind
  pay_plan_digest :: digest
  pay_items :: "receipt_item list"

record receipt_signature =
  sig_algorithm :: string
  sig_key_id :: string
  sig_value_base64 :: string

record signed_receipt =
  rec_schema :: string
  rec_schema_version :: u32
  rec_payload :: receipt_payload
  rec_signature :: receipt_signature

record receipt_public_key =
  pk_schema :: string
  pk_schema_version :: u32
  pk_algorithm :: string
  pk_key_id :: string
  pk_public_key_base64 :: string

record receipt_secret_key =
  sk_schema :: string
  sk_schema_version :: u32
  sk_algorithm :: string
  sk_key_id :: string
  sk_public_key_base64 :: string
  sk_secret_key_base64 :: string

record trust_policy =
  tp_schema :: string
  tp_schema_version :: u32
  tp_trusted_keys :: "receipt_public_key list"
  tp_revoked_key_ids :: "string list"

record verified_receipt_item =
  vi_item_id :: digest
  vi_output_path :: string
  vi_output :: file_fingerprint
  vi_outcome :: string

record verification_report =
  vr_schema :: string
  vr_schema_version :: u32
  vr_receipt_schema :: string
  vr_key_id :: string
  vr_plan_digest :: digest
  vr_kind :: execution_kind
  vr_verified_items :: "verified_receipt_item list"

record receipt_env =
  env_sha256 :: sha256
  env_base64_encode :: "u8 list \<Rightarrow> string"
  env_base64_decode :: "string \<Rightarrow> u8 list option"
  env_public_of_pkcs8 :: "u8 list \<Rightarrow> u8 list option"
  env_sign :: "u8 list \<Rightarrow> u8 list \<Rightarrow> u8 list"
  env_verify :: "u8 list \<Rightarrow> u8 list \<Rightarrow> u8 list \<Rightarrow> bool"
  env_ser_plan :: "execution_plan serializer"
  env_ser_payload :: "receipt_payload serializer"
  env_ser_receipt :: "signed_receipt serializer"
  env_ser_public_key :: "receipt_public_key serializer"
  env_ser_secret_key :: "receipt_secret_key serializer"
  env_ser_policy :: "trust_policy serializer"

section \<open>Keys\<close>

definition lift :: "exec_error + 'a \<Rightarrow> receipt_error + 'a" where "lift m = map_err Exec m"

definition receipt_key_id :: "receipt_env \<Rightarrow> u8 list \<Rightarrow> string" where
  "receipt_key_id env public_key =
    as_hex (domain_digest (env_sha256 env) RECEIPT_KEY_ID_DOMAIN public_key)"

definition validate_key_id :: "string \<Rightarrow> receipt_error + unit" where
  "validate_key_id key_id =
    and_then (ok_or (digest_from_str key_id) (KeyError InvalidKeyId)) (\<lambda>_.
    fail_if (list_ex is_ascii_uppercase key_id) (KeyError KeyIdNotLowercase))"

definition decode_base64 :: "receipt_env \<Rightarrow> string \<Rightarrow> receipt_error + u8 list" where
  "decode_base64 env value =
    and_then (fail_if (64 * 1024 < length value) (KeyError Base64TooLarge)) (\<lambda>_.
    ok_or (env_base64_decode env value) (KeyError Base64Invalid))"

definition require_schema :: "string \<Rightarrow> u32 \<Rightarrow> string \<Rightarrow> receipt_error + unit" where
  "require_schema actual version expected =
    and_then (fail_if (actual \<noteq> expected) (KeyError (WrongKeySchema actual))) (\<lambda>_.
    fail_if (version \<noteq> EXECUTION_SCHEMA_VERSION) (KeyError (WrongKeySchemaVersion version)))"

definition decode_public_key :: "receipt_env \<Rightarrow> receipt_public_key \<Rightarrow> receipt_error + u8 list" where
  "decode_public_key env key =
    and_then (decode_base64 env (pk_public_key_base64 key)) (\<lambda>public.
    and_then (fail_if (length public \<noteq> 32) (KeyError PublicKeyLength)) (\<lambda>_. Inr public))"

definition public_key_validate :: "receipt_env \<Rightarrow> receipt_public_key \<Rightarrow> receipt_error + unit" where
  "public_key_validate env key =
    and_then (require_schema (pk_schema key) (pk_schema_version key) RECEIPT_PUBLIC_KEY_SCHEMA) (\<lambda>_.
    and_then (fail_if (pk_algorithm key \<noteq> ED25519_ALGORITHM)
      (KeyError (UnsupportedAlgorithm (pk_algorithm key)))) (\<lambda>_.
    and_then (validate_key_id (pk_key_id key)) (\<lambda>_.
    and_then (decode_public_key env key) (\<lambda>public.
    and_then (fail_if (pk_key_id key \<noteq> receipt_key_id env public) (KeyError KeyIdMismatch)) (\<lambda>_.
    lift (ensure_serialized_json_size (env_ser_public_key env) key False False (64 * 1024 - 1)))))))"

definition secret_key_validate :: "receipt_env \<Rightarrow> receipt_secret_key \<Rightarrow> receipt_error + unit" where
  "secret_key_validate env key =
    and_then (require_schema (sk_schema key) (sk_schema_version key) RECEIPT_SECRET_KEY_SCHEMA) (\<lambda>_.
    and_then (fail_if (sk_algorithm key \<noteq> ED25519_ALGORITHM)
      (KeyError (UnsupportedAlgorithm (sk_algorithm key)))) (\<lambda>_.
    and_then (validate_key_id (sk_key_id key)) (\<lambda>_.
    and_then (decode_base64 env (sk_public_key_base64 key)) (\<lambda>public.
    and_then (fail_if (length public \<noteq> 32 \<or> receipt_key_id env public \<noteq> sk_key_id key)
      (KeyError SecretKeyIdentity)) (\<lambda>_.
    and_then (decode_base64 env (sk_secret_key_base64 key)) (\<lambda>secret.
    and_then (ok_or (env_public_of_pkcs8 env secret) (KeyError SecretKeyParse)) (\<lambda>pair_public.
    and_then (fail_if (pair_public \<noteq> public) (KeyError SecretPublicDisagree)) (\<lambda>_.
    lift (ensure_serialized_json_size (env_ser_secret_key env) key False False (64 * 1024 - 1))))))))))"

definition public_key_of :: "receipt_env \<Rightarrow> receipt_secret_key \<Rightarrow> receipt_error + receipt_public_key" where
  "public_key_of env secret =
    and_then (secret_key_validate env secret) (\<lambda>_.
    let key = \<lparr>pk_schema = RECEIPT_PUBLIC_KEY_SCHEMA, pk_schema_version = EXECUTION_SCHEMA_VERSION,
      pk_algorithm = ED25519_ALGORITHM, pk_key_id = sk_key_id secret,
      pk_public_key_base64 = sk_public_key_base64 secret\<rparr>
    in and_then (public_key_validate env key) (\<lambda>_. Inr key))"

text \<open>The PKCS#8 document is what \<open>Ed25519KeyPair::generate_pkcs8\<close> drew.\<close>

definition generate_receipt_keypair ::
  "receipt_env \<Rightarrow> u8 list \<Rightarrow> receipt_error + receipt_secret_key \<times> receipt_public_key" where
  "generate_receipt_keypair env document =
    and_then (ok_or (env_public_of_pkcs8 env document) (KeyError SecretKeyParse)) (\<lambda>public_bytes.
    let key_id = receipt_key_id env public_bytes;
        public_key_base64 = env_base64_encode env public_bytes;
        secret = \<lparr>sk_schema = RECEIPT_SECRET_KEY_SCHEMA, sk_schema_version = EXECUTION_SCHEMA_VERSION,
          sk_algorithm = ED25519_ALGORITHM, sk_key_id = key_id,
          sk_public_key_base64 = public_key_base64,
          sk_secret_key_base64 = env_base64_encode env document\<rparr>;
        public = \<lparr>pk_schema = RECEIPT_PUBLIC_KEY_SCHEMA, pk_schema_version = EXECUTION_SCHEMA_VERSION,
          pk_algorithm = ED25519_ALGORITHM, pk_key_id = key_id,
          pk_public_key_base64 = public_key_base64\<rparr>
    in and_then (secret_key_validate env secret) (\<lambda>_.
       and_then (public_key_validate env public) (\<lambda>_. Inr (secret, public))))"

section \<open>Receipt items and payloads\<close>

definition validate_receipt_item :: "receipt_item \<Rightarrow> receipt_error + unit" where
  "validate_receipt_item item =
    and_then (lift (validate_artifact (ri_input item))) (\<lambda>_.
    and_then (lift (validate_locator (rout_path (ri_output item)))) (\<lambda>_.
    and_then (lift (validate_text (rout_format (ri_output item)))) (\<lambda>_.
    and_then (lift (check_some validate_artifact (ri_model item))) (\<lambda>_.
    and_then (lift (validate_text (ri_backend item))) (\<lambda>_.
    and_then (lift (validate_text (ri_accelerator item))) (\<lambda>_.
    and_then (fail_if (ri_outcome item \<notin> {''succeeded'', ''skipped''}) (UnknownOutcome (ri_outcome item))) (\<lambda>_.
    and_then (fail_if (ri_channels item = 0 \<or> ri_frames item = 0 \<or> ri_sample_rate item = 0)
      (Exec ZeroGeometry)) (\<lambda>_.
    and_then (fail_if (MAX_JSON_SAFE_INTEGER < ri_channels item \<or> MAX_JSON_SAFE_INTEGER < ri_frames item)
      (Exec GeometryUnsafeInteger)) (\<lambda>_.
    lift (validate_fingerprint (rout_fingerprint (ri_output item))))))))))))"

definition receipt_item_of :: "execution_plan_item \<Rightarrow> file_fingerprint \<Rightarrow> string \<Rightarrow> receipt_item" where
  "receipt_item_of planned fingerprint outcome =
    \<lparr>ri_item_id = item_id planned, ri_input = item_input planned,
     ri_output = \<lparr>rout_path = out_path (item_output planned), rout_format = out_format (item_output planned),
       rout_fingerprint = fingerprint\<rparr>,
     ri_model = item_model planned, ri_recipe = item_recipe planned, ri_backend = item_backend planned,
     ri_accelerator = item_accelerator planned, ri_channels = item_channels planned,
     ri_frames = item_frames planned, ri_sample_rate = item_sample_rate planned, ri_outcome = outcome\<rparr>"

definition from_plan_item ::
  "execution_plan_item \<Rightarrow> file_fingerprint \<Rightarrow> string \<Rightarrow> receipt_error + receipt_item" where
  "from_plan_item planned fingerprint outcome =
    and_then (fail_if (case out_existing_fingerprint (item_output planned) of
        None \<Rightarrow> False | Some expected \<Rightarrow> expected \<noteq> fingerprint)
      (ExistingFingerprintDiffers (item_id planned))) (\<lambda>_.
    let item = receipt_item_of planned fingerprint outcome
    in and_then (validate_receipt_item item) (\<lambda>_. Inr item))"

text \<open>The item loop of \<open>ExecutionReceiptPayload::validate\<close>, with its own error type.\<close>

fun receipt_sequence ::
  "digest option \<Rightarrow> string set \<Rightarrow> receipt_item list \<Rightarrow> receipt_error + unit" where
  "receipt_sequence previous output_paths [] = Inr ()"
| "receipt_sequence previous output_paths (item # items) =
    (if (case previous of None \<Rightarrow> False | Some value \<Rightarrow> ri_item_id item \<le> value)
     then Inl (Exec ItemsNotIncreasing)
     else and_then (validate_receipt_item item) (\<lambda>_.
       if rout_path (ri_output item) \<in> output_paths
       then Inl (Exec (DuplicateOutputLocator (rout_path (ri_output item))))
       else receipt_sequence (Some (ri_item_id item)) (insert (rout_path (ri_output item)) output_paths) items))"

definition payload_validate :: "receipt_env \<Rightarrow> receipt_payload \<Rightarrow> receipt_error + unit" where
  "payload_validate env payload =
    and_then (lift (validate_text (pay_denoize_version payload))) (\<lambda>_.
    and_then (fail_if (pay_items payload = []) (Exec NoItems)) (\<lambda>_.
    and_then (fail_if (MAX_ITEMS < length (pay_items payload)) (Exec TooManyItems)) (\<lambda>_.
    and_then (receipt_sequence None {} (pay_items payload)) (\<lambda>_.
    lift (ensure_serialized_json_size (env_ser_payload env) payload False False
      (MAX_JSON_BYTES - RECEIPT_ENVELOPE_ALLOWANCE_BYTES - 1))))))"

definition item_matches :: "receipt_item \<Rightarrow> execution_plan_item \<Rightarrow> bool" where
  "item_matches receipt planned \<longleftrightarrow>
     ri_item_id receipt = item_id planned \<and> ri_input receipt = item_input planned
   \<and> rout_path (ri_output receipt) = out_path (item_output planned)
   \<and> rout_format (ri_output receipt) = out_format (item_output planned)
   \<and> (case out_existing_fingerprint (item_output planned) of None \<Rightarrow> True
        | Some expected \<Rightarrow> expected = rout_fingerprint (ri_output receipt))
   \<and> ri_model receipt = item_model planned \<and> ri_recipe receipt = item_recipe planned
   \<and> ri_backend receipt = item_backend planned \<and> ri_accelerator receipt = item_accelerator planned
   \<and> ri_channels receipt = item_channels planned \<and> ri_frames receipt = item_frames planned
   \<and> ri_sample_rate receipt = item_sample_rate planned"

definition expected_outcome :: "string \<Rightarrow> receipt_error + string" where
  "expected_outcome action =
    (if action = ''process'' then Inr ''succeeded''
     else if action = ''skip'' then Inr ''skipped'' else Inl (Exec (Action (UnknownAction action))))"

definition match_item :: "receipt_item \<times> execution_plan_item \<Rightarrow> receipt_error + unit" where
  "match_item = (\<lambda>(receipt, planned).
    and_then (fail_if (\<not> item_matches receipt planned) (PlanItemMismatch (ri_item_id receipt))) (\<lambda>_.
    and_then (expected_outcome (out_action (item_output planned))) (\<lambda>expected.
    fail_if (ri_outcome receipt \<noteq> expected)
      (OutcomeMismatch (ri_outcome receipt) (out_action (item_output planned)) (ri_item_id receipt)))))"

definition matches_plan :: "receipt_env \<Rightarrow> receipt_payload \<Rightarrow> execution_plan \<Rightarrow> receipt_error + unit" where
  "matches_plan env payload plan =
    and_then (lift (plan_digest (env_sha256 env) (env_ser_plan env) plan)) (\<lambda>digest.
    and_then (fail_if (pay_plan_digest payload \<noteq> digest \<or> pay_kind payload \<noteq> plan_kind plan
        \<or> pay_denoize_version payload \<noteq> plan_denoize_version plan) PlanIdentityMismatch) (\<lambda>_.
    and_then (fail_if (length (pay_items payload) \<noteq> length (plan_items plan)) PlanItemCountMismatch) (\<lambda>_.
    try_all match_item (zip (pay_items payload) (plan_items plan)))))"

definition payload_new ::
  "receipt_env \<Rightarrow> execution_plan \<Rightarrow> receipt_item list \<Rightarrow> receipt_error + receipt_payload" where
  "payload_new env plan items =
    and_then (lift (plan_validate (env_ser_plan env) plan)) (\<lambda>_.
    and_then (lift (plan_digest (env_sha256 env) (env_ser_plan env) plan)) (\<lambda>digest.
    let payload = \<lparr>pay_denoize_version = CARGO_PKG_VERSION, pay_kind = plan_kind plan,
      pay_plan_digest = digest, pay_items = sort_key ri_item_id items\<rparr>
    in and_then (payload_validate env payload) (\<lambda>_.
       and_then (matches_plan env payload plan) (\<lambda>_. Inr payload))))"

section \<open>Signing and verifying\<close>

definition receipt_schema :: "execution_kind \<Rightarrow> string \<times> u32 \<times> u8 list" where
  "receipt_schema kind =
    (if kind = Stream
     then (STREAM_EXECUTION_RECEIPT_SCHEMA, STREAM_EXECUTION_SCHEMA_VERSION, STREAM_RECEIPT_SIGNATURE_DOMAIN)
     else (EXECUTION_RECEIPT_SCHEMA, EXECUTION_SCHEMA_VERSION, RECEIPT_SIGNATURE_DOMAIN))"

definition verification_schema :: "execution_kind \<Rightarrow> string \<times> u32" where
  "verification_schema kind =
    (if kind = Stream then (STREAM_RECEIPT_VERIFICATION_SCHEMA, STREAM_EXECUTION_SCHEMA_VERSION)
     else (RECEIPT_VERIFICATION_SCHEMA, EXECUTION_SCHEMA_VERSION))"

definition receipt_signature_message ::
  "receipt_env \<Rightarrow> u8 list \<Rightarrow> receipt_payload \<Rightarrow> receipt_error + u8 list" where
  "receipt_signature_message env tag payload =
    and_then (ok_or (env_ser_payload env False payload) (Exec SerializeFailed)) (\<lambda>buffers.
    ok_or (domain_message tag (concat buffers)) (KeyError MessageOverflow))"

definition validate_structure :: "receipt_env \<Rightarrow> signed_receipt \<Rightarrow> receipt_error + unit" where
  "validate_structure env receipt =
    and_then (lift (require_execution_schema (rec_schema receipt) (rec_schema_version receipt)
      (pay_kind (rec_payload receipt)) EXECUTION_RECEIPT_SCHEMA STREAM_EXECUTION_RECEIPT_SCHEMA)) (\<lambda>_.
    and_then (payload_validate env (rec_payload receipt)) (\<lambda>_.
    and_then (fail_if (sig_algorithm (rec_signature receipt) \<noteq> ED25519_ALGORITHM)
      (KeyError (UnsupportedAlgorithm (sig_algorithm (rec_signature receipt))))) (\<lambda>_.
    and_then (validate_key_id (sig_key_id (rec_signature receipt))) (\<lambda>_.
    and_then (decode_base64 env (sig_value_base64 (rec_signature receipt))) (\<lambda>signature.
    and_then (fail_if (length signature \<noteq> 64) (KeyError SignatureLength)) (\<lambda>_.
    lift (ensure_serialized_json_size (env_ser_receipt env) receipt False False (MAX_JSON_BYTES - 1))))))))"

definition signature_domain :: "signed_receipt \<Rightarrow> receipt_error + u8 list" where
  "signature_domain receipt =
    (if pay_kind (rec_payload receipt) = Stream
     then if rec_schema receipt = STREAM_EXECUTION_RECEIPT_SCHEMA
             \<and> rec_schema_version receipt = STREAM_EXECUTION_SCHEMA_VERSION
          then Inr STREAM_RECEIPT_SIGNATURE_DOMAIN else Inl NotStreamSchema
     else if rec_schema receipt = EXECUTION_RECEIPT_SCHEMA
             \<and> rec_schema_version receipt = EXECUTION_SCHEMA_VERSION
          then Inr RECEIPT_SIGNATURE_DOMAIN else Inl NotExecutionSchema)"

definition sign :: "receipt_env \<Rightarrow> receipt_secret_key \<Rightarrow> receipt_payload \<Rightarrow> receipt_error + signed_receipt" where
  "sign env secret_key payload =
    and_then (secret_key_validate env secret_key) (\<lambda>_.
    and_then (payload_validate env payload) (\<lambda>_.
    and_then (decode_base64 env (sk_secret_key_base64 secret_key)) (\<lambda>secret.
    and_then (ok_or (env_public_of_pkcs8 env secret) (KeyError SecretKeyParse)) (\<lambda>_.
    let (schema, schema_version, tag) = receipt_schema (pay_kind payload)
    in and_then (receipt_signature_message env tag payload) (\<lambda>message.
       let receipt = \<lparr>rec_schema = schema, rec_schema_version = schema_version, rec_payload = payload,
         rec_signature = \<lparr>sig_algorithm = ED25519_ALGORITHM, sig_key_id = sk_key_id secret_key,
           sig_value_base64 = env_base64_encode env (env_sign env secret message)\<rparr>\<rparr>
       in and_then (validate_structure env receipt) (\<lambda>_. Inr receipt))))))"

definition verify_signature ::
  "receipt_env \<Rightarrow> signed_receipt \<Rightarrow> receipt_public_key \<Rightarrow> receipt_error + unit" where
  "verify_signature env receipt key =
    and_then (validate_structure env receipt) (\<lambda>_.
    and_then (public_key_validate env key) (\<lambda>_.
    and_then (fail_if (sig_key_id (rec_signature receipt) \<noteq> pk_key_id key)
      (KeyError (KeyNotSupplied (sig_key_id (rec_signature receipt)) (pk_key_id key)))) (\<lambda>_.
    and_then (decode_public_key env key) (\<lambda>public.
    and_then (decode_base64 env (sig_value_base64 (rec_signature receipt))) (\<lambda>signature.
    and_then (fail_if (length signature \<noteq> 64) (KeyError SignatureLength)) (\<lambda>_.
    and_then (signature_domain receipt) (\<lambda>tag.
    and_then (receipt_signature_message env tag (rec_payload receipt)) (\<lambda>message.
    fail_if (\<not> env_verify env public message signature) (KeyError SignatureRejected)))))))))"

definition verify_domain_document ::
  "receipt_env \<Rightarrow> receipt_public_key \<Rightarrow> u8 list \<Rightarrow> u8 list \<Rightarrow> receipt_signature \<Rightarrow> receipt_error + unit" where
  "verify_domain_document env key tag document signature =
    and_then (public_key_validate env key) (\<lambda>_.
    and_then (fail_if (sig_algorithm signature \<noteq> ED25519_ALGORITHM)
      (KeyError (UnsupportedAlgorithm (sig_algorithm signature)))) (\<lambda>_.
    and_then (fail_if (sig_key_id signature \<noteq> pk_key_id key)
      (KeyError (KeyNotSupplied (sig_key_id signature) (pk_key_id key)))) (\<lambda>_.
    and_then (decode_base64 env (sig_value_base64 signature)) (\<lambda>bytes.
    and_then (fail_if (length bytes \<noteq> 64) (KeyError SignatureLength)) (\<lambda>_.
    and_then (ok_or (domain_message tag document) (KeyError MessageOverflow)) (\<lambda>message.
    and_then (decode_public_key env key) (\<lambda>public.
    fail_if (\<not> env_verify env public message bytes) (KeyError SignatureRejected))))))))"

definition sign_domain_document ::
  "receipt_env \<Rightarrow> receipt_secret_key \<Rightarrow> u8 list \<Rightarrow> u8 list \<Rightarrow> receipt_error + receipt_signature" where
  "sign_domain_document env secret_key tag document =
    and_then (secret_key_validate env secret_key) (\<lambda>_.
    and_then (decode_base64 env (sk_secret_key_base64 secret_key)) (\<lambda>secret.
    and_then (ok_or (env_public_of_pkcs8 env secret) (KeyError SecretKeyParse)) (\<lambda>_.
    and_then (ok_or (domain_message tag document) (KeyError MessageOverflow)) (\<lambda>message.
    Inr \<lparr>sig_algorithm = ED25519_ALGORITHM, sig_key_id = sk_key_id secret_key,
      sig_value_base64 = env_base64_encode env (env_sign env secret message)\<rparr>))))"

definition verify_plan :: "receipt_env \<Rightarrow> signed_receipt \<Rightarrow> execution_plan \<Rightarrow> receipt_error + unit" where
  "verify_plan env receipt plan =
    and_then (validate_structure env receipt) (\<lambda>_.
    and_then (lift (plan_validate (env_ser_plan env) plan)) (\<lambda>_.
    matches_plan env (rec_payload receipt) plan))"

section \<open>The trust policy\<close>

text \<open>The two loops that require strictly increasing key identities.\<close>

fun trusted_sequence :: "receipt_env \<Rightarrow> string option \<Rightarrow> receipt_public_key list \<Rightarrow> receipt_error + unit" where
  "trusted_sequence env previous [] = Inr ()"
| "trusted_sequence env previous (key # keys) =
    and_then (public_key_validate env key) (\<lambda>_.
    if (case previous of None \<Rightarrow> False | Some value \<Rightarrow> pk_key_id key \<le> value)
    then Inl (KeyError TrustedNotSorted)
    else trusted_sequence env (Some (pk_key_id key)) keys)"

fun revoked_sequence :: "string option \<Rightarrow> string list \<Rightarrow> receipt_error + unit" where
  "revoked_sequence previous [] = Inr ()"
| "revoked_sequence previous (key_id # ids) =
    and_then (validate_key_id key_id) (\<lambda>_.
    if (case previous of None \<Rightarrow> False | Some value \<Rightarrow> key_id \<le> value)
    then Inl (KeyError RevokedNotSorted)
    else revoked_sequence (Some key_id) ids)"

definition policy_validate :: "receipt_env \<Rightarrow> trust_policy \<Rightarrow> receipt_error + unit" where
  "policy_validate env policy =
    and_then (require_schema (tp_schema policy) (tp_schema_version policy) RECEIPT_TRUST_POLICY_SCHEMA) (\<lambda>_.
    and_then (fail_if (tp_trusted_keys policy = []) (KeyError NoTrustedKeys)) (\<lambda>_.
    and_then (fail_if (4096 < length (tp_trusted_keys policy) \<or> 65536 < length (tp_revoked_key_ids policy))
      (KeyError TooManyKeys)) (\<lambda>_.
    and_then (trusted_sequence env None (tp_trusted_keys policy)) (\<lambda>_.
    and_then (revoked_sequence None (tp_revoked_key_ids policy)) (\<lambda>_.
    lift (ensure_serialized_json_size (env_ser_policy env) policy False False (4 * 1024 * 1024 - 1)))))))"

definition policy_new ::
  "receipt_env \<Rightarrow> receipt_public_key list \<Rightarrow> string list \<Rightarrow> receipt_error + trust_policy" where
  "policy_new env trusted_keys revoked_key_ids =
    (let policy = \<lparr>tp_schema = RECEIPT_TRUST_POLICY_SCHEMA, tp_schema_version = EXECUTION_SCHEMA_VERSION,
       tp_trusted_keys = sort_key pk_key_id trusted_keys, tp_revoked_key_ids = sort revoked_key_ids\<rparr>
     in and_then (policy_validate env policy) (\<lambda>_. Inr policy))"

definition policy_resolve :: "trust_policy \<Rightarrow> string \<Rightarrow> receipt_error + receipt_public_key" where
  "policy_resolve policy key_id =
    (if binary_search (\<lambda>value. value) key_id (tp_revoked_key_ids policy) 0
          (length (tp_revoked_key_ids policy)) \<noteq> None
     then Inl (KeyError (KeyRevoked key_id))
     else ok_or (map_option (\<lambda>index. tp_trusted_keys policy ! index)
            (binary_search pk_key_id key_id (tp_trusted_keys policy) 0 (length (tp_trusted_keys policy))))
          (KeyError (KeyNotTrusted key_id)))"

definition verify_policy :: "receipt_env \<Rightarrow> signed_receipt \<Rightarrow> trust_policy \<Rightarrow> receipt_error + unit" where
  "verify_policy env receipt policy =
    and_then (policy_validate env policy) (\<lambda>_.
    and_then (policy_resolve policy (sig_key_id (rec_signature receipt))) (\<lambda>key.
    verify_signature env receipt key))"

section \<open>Offline verification of the outputs\<close>

text \<open>The filesystem: \<open>canonicalize\<close> takes the number of the call, since files may move.\<close>

record verify_fs =
  fs_canonicalize :: "nat \<Rightarrow> path \<Rightarrow> path option"
  fs_is_dir :: "path \<Rightarrow> bool"
  fs_fingerprint :: "path \<Rightarrow> file_fingerprint option"

definition from_stdout :: "receipt_payload \<Rightarrow> receipt_item \<Rightarrow> bool" where
  "from_stdout payload item \<longleftrightarrow> pay_kind payload = Stream \<and> rout_path (ri_output item) = ''-''"

definition locate_output ::
  "verify_fs \<Rightarrow> nat \<Rightarrow> path \<Rightarrow> path option \<Rightarrow> receipt_payload \<Rightarrow> receipt_item \<Rightarrow> receipt_error + path" where
  "locate_output fs call root stream_output payload item =
    (if from_stdout payload item
     then and_then (ok_or stream_output StreamOutputMissing) (\<lambda>captured.
          ok_or (fs_canonicalize fs call captured) StreamOutputUnresolved)
     else lift (resolve_locator (fs_canonicalize fs call) root (rout_path (ri_output item))))"

definition verify_output ::
  "verify_fs \<Rightarrow> nat \<Rightarrow> path \<Rightarrow> path option \<Rightarrow> receipt_payload \<Rightarrow> receipt_item
     \<Rightarrow> receipt_error + verified_receipt_item" where
  "verify_output fs call root stream_output payload item =
    and_then (locate_output fs call root stream_output payload item) (\<lambda>resolved.
    and_then (ok_or (fs_fingerprint fs resolved) OutputUnreadable) (\<lambda>observed.
    and_then (locate_output fs (call + 1) root stream_output payload item) (\<lambda>resolved_after.
    and_then (fail_if (resolved_after \<noteq> resolved) (OutputMoved (rout_path (ri_output item)))) (\<lambda>_.
    and_then (fail_if (observed \<noteq> rout_fingerprint (ri_output item))
      (OutputFingerprintMismatch (rout_path (ri_output item)))) (\<lambda>_.
    Inr \<lparr>vi_item_id = ri_item_id item, vi_output_path = rout_path (ri_output item),
      vi_output = observed, vi_outcome = ri_outcome item\<rparr>)))))"

fun verify_outputs ::
  "verify_fs \<Rightarrow> nat \<Rightarrow> path \<Rightarrow> path option \<Rightarrow> receipt_payload \<Rightarrow> receipt_item list
     \<Rightarrow> receipt_error + verified_receipt_item list" where
  "verify_outputs fs call root stream_output payload [] = Inr []"
| "verify_outputs fs call root stream_output payload (item # items) =
    and_then (verify_output fs call root stream_output payload item) (\<lambda>v.
    and_then (verify_outputs fs (call + 2) root stream_output payload items) (\<lambda>vs. Inr (v # vs)))"

definition verify_authenticated_outputs ::
  "receipt_env \<Rightarrow> verify_fs \<Rightarrow> signed_receipt \<Rightarrow> path \<Rightarrow> path option \<Rightarrow> path option
     \<Rightarrow> receipt_error + verification_report" where
  "verify_authenticated_outputs env fs receipt receipt_path output_root stream_output =
    and_then (validate_structure env receipt) (\<lambda>_.
    let default_root = (case parent receipt_path of None \<Rightarrow> [CurDir]
          | Some p \<Rightarrow> if p = [] then [CurDir] else p);
        payload = rec_payload receipt
    in and_then (ok_or (fs_canonicalize fs 0 (case output_root of None \<Rightarrow> default_root | Some r \<Rightarrow> r))
        RootUnresolved) (\<lambda>root.
       and_then (fail_if (\<not> fs_is_dir fs root) RootNotDirectory) (\<lambda>_.
       and_then (verify_outputs fs 1 root stream_output payload (pay_items payload)) (\<lambda>verified.
       and_then (fail_if (stream_output \<noteq> None \<and> \<not> list_ex (from_stdout payload) (pay_items payload))
         StreamOutputUnused) (\<lambda>_.
       Inr \<lparr>vr_schema = fst (verification_schema (pay_kind payload)),
         vr_schema_version = snd (verification_schema (pay_kind payload)),
         vr_receipt_schema = rec_schema receipt, vr_key_id = sig_key_id (rec_signature receipt),
         vr_plan_digest = pay_plan_digest payload, vr_kind = pay_kind payload,
         vr_verified_items = verified\<rparr>)))))"

definition verify_with_key ::
  "receipt_env \<Rightarrow> verify_fs \<Rightarrow> signed_receipt \<Rightarrow> receipt_public_key \<Rightarrow> execution_plan option \<Rightarrow> path
     \<Rightarrow> path option \<Rightarrow> path option \<Rightarrow> receipt_error + verification_report" where
  "verify_with_key env fs receipt key plan receipt_path output_root stream_output =
    and_then (verify_signature env receipt key) (\<lambda>_.
    and_then (check_some (verify_plan env receipt) plan) (\<lambda>_.
    verify_authenticated_outputs env fs receipt receipt_path output_root stream_output))"

definition verify_with_policy ::
  "receipt_env \<Rightarrow> verify_fs \<Rightarrow> signed_receipt \<Rightarrow> trust_policy \<Rightarrow> execution_plan option \<Rightarrow> path
     \<Rightarrow> path option \<Rightarrow> path option \<Rightarrow> receipt_error + verification_report" where
  "verify_with_policy env fs receipt policy plan receipt_path output_root stream_output =
    and_then (verify_policy env receipt policy) (\<lambda>_.
    and_then (check_some (verify_plan env receipt) plan) (\<lambda>_.
    verify_authenticated_outputs env fs receipt receipt_path output_root stream_output))"

fun report_sequence ::
  "digest option \<Rightarrow> string set \<Rightarrow> verified_receipt_item list \<Rightarrow> receipt_error + unit" where
  "report_sequence previous output_paths [] = Inr ()"
| "report_sequence previous output_paths (item # items) =
    (if (case previous of None \<Rightarrow> False | Some value \<Rightarrow> vi_item_id item \<le> value)
     then Inl (Exec ItemsNotIncreasing)
     else and_then (lift (validate_locator (vi_output_path item))) (\<lambda>_.
       and_then (lift (validate_fingerprint (vi_output item))) (\<lambda>_.
       and_then (fail_if (vi_outcome item \<notin> {''succeeded'', ''skipped''}) (UnknownOutcome (vi_outcome item))) (\<lambda>_.
       if vi_output_path item \<in> output_paths
       then Inl (Exec (DuplicateOutputLocator (vi_output_path item)))
       else report_sequence (Some (vi_item_id item)) (insert (vi_output_path item) output_paths) items))))"

definition report_validate ::
  "verification_report serializer \<Rightarrow> verification_report \<Rightarrow> receipt_error + unit" where
  "report_validate ser report =
    and_then (lift (require_execution_schema (vr_schema report) (vr_schema_version report) (vr_kind report)
      RECEIPT_VERIFICATION_SCHEMA STREAM_RECEIPT_VERIFICATION_SCHEMA)) (\<lambda>_.
    and_then (fail_if (vr_receipt_schema report \<noteq>
        (if vr_kind report = Stream then STREAM_EXECUTION_RECEIPT_SCHEMA else EXECUTION_RECEIPT_SCHEMA))
      (UnsupportedReceiptSchema (vr_receipt_schema report))) (\<lambda>_.
    and_then (validate_key_id (vr_key_id report)) (\<lambda>_.
    and_then (fail_if (vr_verified_items report = []) (Exec NoItems)) (\<lambda>_.
    and_then (fail_if (MAX_ITEMS < length (vr_verified_items report)) (Exec TooManyItems)) (\<lambda>_.
    and_then (report_sequence None {} (vr_verified_items report)) (\<lambda>_.
    lift (ensure_serialized_json_size ser report False False (MAX_JSON_BYTES - 1))))))))"

section \<open>Facts about the checks\<close>

lemma lift_iff [res_simps]: "lift m = Inr x \<longleftrightarrow> m = Inr x"
  by (simp add: lift_def)

lemma lift_Inr [simp]: "lift (Inr x) = Inr x"
  by (simp add: lift_def)

lemma trusted_sequence_iff:
  "trusted_sequence env previous keys = Inr u \<longleftrightarrow>
     (\<forall>key \<in> set keys. public_key_validate env key = Inr ()
        \<and> (\<forall>value. previous = Some value \<longrightarrow> value < pk_key_id key))
   \<and> sorted_wrt (<) (map pk_key_id keys)"
proof (induction keys arbitrary: previous)
  case (Cons key keys)
  then show ?case by (cases previous) (auto simp: and_then_unit_iff not_le intro: less_trans)
qed simp

lemma revoked_sequence_iff:
  "revoked_sequence previous ids = Inr u \<longleftrightarrow>
     (\<forall>key_id \<in> set ids. validate_key_id key_id = Inr ()
        \<and> (\<forall>value. previous = Some value \<longrightarrow> value < key_id))
   \<and> sorted_wrt (<) ids"
proof (induction ids arbitrary: previous)
  case (Cons key_id ids)
  then show ?case by (cases previous) (auto simp: and_then_unit_iff not_le intro: less_trans)
qed simp

lemma policy_sorted:
  assumes "policy_validate env policy = Inr ()"
  shows "sorted_wrt (<) (map pk_key_id (tp_trusted_keys policy))"
    and "sorted_wrt (<) (map (\<lambda>value. value) (tp_revoked_key_ids policy))"
  using assms by (auto simp: policy_validate_def and_then_unit_iff trusted_sequence_iff revoked_sequence_iff)

lemma distinct_key_unique:
  assumes "sorted_wrt (<) (map f xs)" "x \<in> set xs" "y \<in> set xs" "f x = (f y :: 'k::linorder)"
  shows "x = y"
proof -
  have "distinct (map f xs)" using assms(1) by (rule sorted_wrt_strict_distinct)
  then have "inj_on f (set xs)" by (simp add: distinct_map)
  with assms(2-4) show ?thesis by (simp add: inj_on_def)
qed

lemma policy_resolve_iff:
  assumes "policy_validate env policy = Inr ()"
  shows "policy_resolve policy key_id = Inr key \<longleftrightarrow>
    key \<in> set (tp_trusted_keys policy) \<and> pk_key_id key = key_id \<and> key_id \<notin> set (tp_revoked_key_ids policy)"
proof -
  let ?keys = "tp_trusted_keys policy" and ?revoked = "tp_revoked_key_ids policy"
  note sorted = policy_sorted [OF assms]
  have revoked: "binary_search (\<lambda>v. v) key_id ?revoked 0 (length ?revoked) \<noteq> None \<longleftrightarrow> key_id \<in> set ?revoked"
    using binary_search_iff [OF sorted(2), of key_id] by simp
  have found: "(\<exists>i. binary_search pk_key_id key_id ?keys 0 (length ?keys) = Some i \<and> ?keys ! i = key)
      \<longleftrightarrow> key \<in> set ?keys \<and> pk_key_id key = key_id"
  proof
    assume "key \<in> set ?keys \<and> pk_key_id key = key_id"
    then obtain i where i: "binary_search pk_key_id key_id ?keys 0 (length ?keys) = Some i"
      and key: "key \<in> set ?keys" "pk_key_id key = key_id"
      using binary_search_iff [OF sorted(1), of key_id] by auto
    then have "?keys ! i \<in> set ?keys" "pk_key_id (?keys ! i) = key_id"
      using binary_search_Some by fastforce+
    then have "?keys ! i = key" using distinct_key_unique [OF sorted(1)] key by metis
    with i show "\<exists>i. binary_search pk_key_id key_id ?keys 0 (length ?keys) = Some i \<and> ?keys ! i = key" by blast
  next
    assume "\<exists>i. binary_search pk_key_id key_id ?keys 0 (length ?keys) = Some i \<and> ?keys ! i = key"
    then show "key \<in> set ?keys \<and> pk_key_id key = key_id" using binary_search_Some by fastforce
  qed
  show ?thesis using revoked found by (auto simp: policy_resolve_def)
qed

section \<open>Properties\<close>

text \<open>What the code relies on: base64 decodes what it encoded, and Ed25519 accepts a
  signature under the public half of the key that made it.\<close>

definition env_sound :: "receipt_env \<Rightarrow> bool" where
  "env_sound env \<longleftrightarrow>
     (\<forall>bytes. env_base64_decode env (env_base64_encode env bytes) = Some bytes)
   \<and> (\<forall>secret public message. env_public_of_pkcs8 env secret = Some public \<longrightarrow>
        env_verify env public message (env_sign env secret message))"

lemma sign_shape:
  assumes "sign env secret_key payload = Inr receipt"
  shows "\<exists>secret message. decode_base64 env (sk_secret_key_base64 secret_key) = Inr secret
    \<and> receipt_signature_message env (snd (snd (receipt_schema (pay_kind payload)))) payload = Inr message
    \<and> receipt = \<lparr>rec_schema = fst (receipt_schema (pay_kind payload)),
        rec_schema_version = fst (snd (receipt_schema (pay_kind payload))), rec_payload = payload,
        rec_signature = \<lparr>sig_algorithm = ED25519_ALGORITHM, sig_key_id = sk_key_id secret_key,
          sig_value_base64 = env_base64_encode env (env_sign env secret message)\<rparr>\<rparr>
    \<and> validate_structure env receipt = Inr ()"
proof -
  obtain schema version tag where "receipt_schema (pay_kind payload) = (schema, version, tag)"
    by (rule prod_cases3)
  with assms show ?thesis by (auto simp: sign_def and_then_Inr_iff Let_def)
qed

lemma signature_domain_of_schema:
  "rec_schema receipt = fst (receipt_schema (pay_kind (rec_payload receipt))) \<Longrightarrow>
   rec_schema_version receipt = fst (snd (receipt_schema (pay_kind (rec_payload receipt)))) \<Longrightarrow>
   signature_domain receipt = Inr (snd (snd (receipt_schema (pay_kind (rec_payload receipt)))))"
  by (simp add: signature_domain_def receipt_schema_def split: if_splits)

lemma secret_key_pair:
  assumes "secret_key_validate env key = Inr ()"
  shows "\<exists>public secret. decode_base64 env (sk_public_key_base64 key) = Inr public \<and> length public = 32
    \<and> decode_base64 env (sk_secret_key_base64 key) = Inr secret \<and> env_public_of_pkcs8 env secret = Some public"
  using assms by (auto simp: secret_key_validate_def and_then_Inr_iff)

text \<open>What a key signs, its public half accepts. A receipt that \<open>sign\<close> produces passes
  \<open>verify_signature\<close> under the public key exported from the same secret key.\<close>

theorem signed_receipt_verifies:
  assumes "env_sound env"
    and "sign env secret_key payload = Inr receipt"
    and "public_key_of env secret_key = Inr key"
  shows "verify_signature env receipt key = Inr ()"
proof -
  from sign_shape [OF assms(2)] obtain secret message where
    secret: "decode_base64 env (sk_secret_key_base64 secret_key) = Inr secret"
    and message: "receipt_signature_message env (snd (snd (receipt_schema (pay_kind payload)))) payload = Inr message"
    and receipt: "receipt = \<lparr>rec_schema = fst (receipt_schema (pay_kind payload)),
        rec_schema_version = fst (snd (receipt_schema (pay_kind payload))), rec_payload = payload,
        rec_signature = \<lparr>sig_algorithm = ED25519_ALGORITHM, sig_key_id = sk_key_id secret_key,
          sig_value_base64 = env_base64_encode env (env_sign env secret message)\<rparr>\<rparr>"
    and wellformed: "validate_structure env receipt = Inr ()" by blast
  have key: "pk_key_id key = sk_key_id secret_key" "pk_public_key_base64 key = sk_public_key_base64 secret_key"
    "public_key_validate env key = Inr ()" and valid: "secret_key_validate env secret_key = Inr ()"
    using assms(3) by (auto simp: public_key_of_def and_then_Inr_iff Let_def)
  from secret_key_pair [OF valid] secret obtain public where
    public: "decode_base64 env (sk_public_key_base64 secret_key) = Inr public" "length public = 32"
    "env_public_of_pkcs8 env secret = Some public" by auto
  obtain sig where sig: "decode_base64 env (sig_value_base64 (rec_signature receipt)) = Inr sig" "length sig = 64"
    using wellformed by (auto simp: validate_structure_def and_then_Inr_iff)
  have "sig = env_sign env secret message"
    using sig(1) assms(1) receipt by (auto simp: decode_base64_def env_sound_def and_then_Inr_iff)
  then have "env_verify env public message sig" using assms(1) public(3) by (simp add: env_sound_def)
  moreover have "signature_domain receipt = Inr (snd (snd (receipt_schema (pay_kind payload))))"
    using signature_domain_of_schema [of receipt] receipt by simp
  ultimately show ?thesis
    using wellformed key public sig message receipt
    by (simp add: verify_signature_def decode_public_key_def)
qed

text \<open>C11: A receipt accepted under a trust policy was signed by a trusted, unrevoked key. The
  policy lists a key with the receipt's key identity, does not revoke it, that key verified
  the signature over the domain-separated payload, and no other listed key has the identity.\<close>

theorem policy_verification_sound:
  assumes "verify_policy env receipt policy = Inr ()"
  shows "\<exists>key \<in> set (tp_trusted_keys policy).
      pk_key_id key = sig_key_id (rec_signature receipt)
    \<and> sig_key_id (rec_signature receipt) \<notin> set (tp_revoked_key_ids policy)
    \<and> (\<forall>key' \<in> set (tp_trusted_keys policy). pk_key_id key' = pk_key_id key \<longrightarrow> key' = key)
    \<and> (\<exists>public tag message signature. decode_public_key env key = Inr public
        \<and> signature_domain receipt = Inr tag
        \<and> receipt_signature_message env tag (rec_payload receipt) = Inr message
        \<and> decode_base64 env (sig_value_base64 (rec_signature receipt)) = Inr signature
        \<and> env_verify env public message signature)"
proof -
  from assms obtain key where policy: "policy_validate env policy = Inr ()"
    and key: "policy_resolve policy (sig_key_id (rec_signature receipt)) = Inr key"
    and verified: "verify_signature env receipt key = Inr ()"
    by (auto simp: verify_policy_def and_then_Inr_iff)
  from key have id: "key \<in> set (tp_trusted_keys policy)" "pk_key_id key = sig_key_id (rec_signature receipt)"
    "sig_key_id (rec_signature receipt) \<notin> set (tp_revoked_key_ids policy)"
    using policy_resolve_iff [OF policy] by blast+
  have "\<forall>key' \<in> set (tp_trusted_keys policy). pk_key_id key' = pk_key_id key \<longrightarrow> key' = key"
    using distinct_key_unique [OF policy_sorted(1) [OF policy]] id(1) by blast
  moreover have "\<exists>public tag message signature. decode_public_key env key = Inr public
        \<and> signature_domain receipt = Inr tag
        \<and> receipt_signature_message env tag (rec_payload receipt) = Inr message
        \<and> decode_base64 env (sig_value_base64 (rec_signature receipt)) = Inr signature
        \<and> env_verify env public message signature"
    using verified by (auto simp: verify_signature_def and_then_Inr_iff)
  ultimately show ?thesis using id by blast
qed

text \<open>A trust policy answers exactly by membership. For a valid policy, \<open>resolve\<close> returns
  a key if and only if the policy trusts it under that identity and does not revoke the
  identity; the two binary searches miss nothing.\<close>

theorem policy_resolve_exact:
  assumes "policy_new env keys revoked = Inr policy"
  shows "policy_resolve policy key_id = Inr key \<longleftrightarrow>
    key \<in> set keys \<and> pk_key_id key = key_id \<and> key_id \<notin> set revoked"
proof -
  have policy: "tp_trusted_keys policy = sort_key pk_key_id keys" "tp_revoked_key_ids policy = sort revoked"
    "policy_validate env policy = Inr ()"
    using assms by (auto simp: policy_new_def and_then_Inr_iff Let_def)
  show ?thesis unfolding policy_resolve_iff [OF policy(3)] policy(1,2) set_sort ..
qed

lemma domain_message_bytes: "domain_message tag doc = Some m \<Longrightarrow> m = domain_bytes tag doc"
  by (auto simp: domain_message_def bind_eq_Some_conv)

text \<open>Signed messages are unambiguous. Two messages of the signer agree only if both their
  domain and their document agree, so a signature for one schema or payload never stands for
  another.\<close>

theorem domain_message_injective:
  assumes "domain_message tag doc = Some m" "domain_message tag' doc' = Some m"
    and "length tag < 2 ^ 64" "length tag' < 2 ^ 64" "length doc < 2 ^ 64" "length doc' < 2 ^ 64"
  shows "tag = tag' \<and> doc = doc'"
proof (rule domain_bytes_inj [OF _ assms(3-6)])
  show "domain_bytes tag doc = domain_bytes tag' doc'"
    using domain_message_bytes [OF assms(1)] domain_message_bytes [OF assms(2)] by simp
qed

theorem domain_message_injective_witness:
  "\<exists>m. domain_message RECEIPT_SIGNATURE_DOMAIN [1] = Some m
    \<and> domain_message STREAM_RECEIPT_SIGNATURE_DOMAIN [1] \<noteq> Some m"
proof -
  have differ: "RECEIPT_SIGNATURE_DOMAIN \<noteq> STREAM_RECEIPT_SIGNATURE_DOMAIN"
    by (simp add: RECEIPT_SIGNATURE_DOMAIN_def STREAM_RECEIPT_SIGNATURE_DOMAIN_def)
  have len: "length RECEIPT_SIGNATURE_DOMAIN < 2 ^ 64" "length STREAM_RECEIPT_SIGNATURE_DOMAIN < 2 ^ 64"
    by (simp_all add: RECEIPT_SIGNATURE_DOMAIN_def STREAM_RECEIPT_SIGNATURE_DOMAIN_def)
  have "domain_message RECEIPT_SIGNATURE_DOMAIN [1] = Some (domain_bytes RECEIPT_SIGNATURE_DOMAIN [1])"
    by (simp add: domain_message_def checked_add_def RECEIPT_SIGNATURE_DOMAIN_def)
  then show ?thesis
    using domain_message_injective [of RECEIPT_SIGNATURE_DOMAIN "[1]" _ STREAM_RECEIPT_SIGNATURE_DOMAIN "[1]"]
      differ len by auto
qed

lemma receipt_sequence_iff:
  "receipt_sequence previous seen items = Inr u \<longleftrightarrow>
     (\<forall>item \<in> set items. validate_receipt_item item = Inr ()
        \<and> (\<forall>value. previous = Some value \<longrightarrow> value < ri_item_id item)
        \<and> rout_path (ri_output item) \<notin> seen)
   \<and> sorted_wrt (<) (map ri_item_id items) \<and> distinct (map (\<lambda>i. rout_path (ri_output i)) items)"
proof (induction items arbitrary: previous seen)
  case (Cons item items)
  let ?path = "\<lambda>i. rout_path (ri_output i)"
  have "receipt_sequence previous seen (item # items) = Inr u \<longleftrightarrow>
      (\<forall>value. previous = Some value \<longrightarrow> value < ri_item_id item) \<and> validate_receipt_item item = Inr ()
      \<and> ?path item \<notin> seen \<and> receipt_sequence (Some (ri_item_id item)) (insert (?path item) seen) items = Inr u"
    by (cases previous) (auto simp: and_then_unit_iff not_le)
  also have "\<dots> \<longleftrightarrow> (\<forall>i \<in> set (item # items). validate_receipt_item i = Inr ()
        \<and> (\<forall>value. previous = Some value \<longrightarrow> value < ri_item_id i) \<and> ?path i \<notin> seen)
   \<and> sorted_wrt (<) (map ri_item_id (item # items)) \<and> distinct (map ?path (item # items))"
    unfolding Cons.IH by (auto intro: less_trans) (metis image_eqI)
  finally show ?case .
qed simp

lemma match_item_iff:
  "match_item (r, p) = Inr u \<longleftrightarrow> item_matches r p
    \<and> (out_action (item_output p) = ''process'' \<and> ri_outcome r = ''succeeded''
       \<or> out_action (item_output p) = ''skip'' \<and> ri_outcome r = ''skipped'')"
  by (auto simp: match_item_def and_then_Inr_iff expected_outcome_def split: if_splits)

lemma matches_plan_items:
  assumes "matches_plan env payload plan = Inr ()"
  shows "list_all2 (\<lambda>r p. match_item (r, p) = Inr ()) (pay_items payload) (plan_items plan)"
  using assms unfolding list_all2_iff
  by (auto simp: matches_plan_def and_then_unit_iff and_then_Inr_iff try_all_Inr_iff)

text \<open>A receipt payload mirrors its plan. When \<open>ExecutionReceiptPayload::new\<close> succeeds,
  it holds the given items, one for each plan item and in the plan's order, each naming the
  item's identity, input, model, recipe and output locator; its outcome is the one the planned
  action calls for, and an existing output bound by the plan has the fingerprint the plan
  recorded.\<close>

theorem receipt_mirrors_plan:
  assumes "payload_new env plan items = Inr payload"
  shows "mset (pay_items payload) = mset items
    \<and> map ri_item_id (pay_items payload) = map item_id (plan_items plan)
    \<and> list_all2 (\<lambda>r p. item_matches r p
         \<and> (ri_outcome r = ''succeeded'') = (out_action (item_output p) = ''process'')
         \<and> (ri_outcome r = ''skipped'') = (out_action (item_output p) = ''skip''))
       (pay_items payload) (plan_items plan)"
proof -
  have payload: "pay_items payload = sort_key ri_item_id items"
    and matches: "matches_plan env payload plan = Inr ()"
    using assms by (auto simp: payload_new_def and_then_Inr_iff Let_def)
  note all = matches_plan_items [OF matches]
  from all have "map ri_item_id (pay_items payload) = map item_id (plan_items plan)"
    by (induction rule: list_all2_induct) (auto simp: match_item_iff item_matches_def)
  moreover from all have "list_all2 (\<lambda>r p. item_matches r p
         \<and> (ri_outcome r = ''succeeded'') = (out_action (item_output p) = ''process'')
         \<and> (ri_outcome r = ''skipped'') = (out_action (item_output p) = ''skip''))
       (pay_items payload) (plan_items plan)"
    by (rule list_all2_mono) (auto simp: match_item_iff)
  ultimately show ?thesis using payload by simp
qed

definition located :: "path option \<Rightarrow> receipt_payload \<Rightarrow> path \<Rightarrow> receipt_item \<Rightarrow> path \<Rightarrow> bool" where
  "located stream_output payload root item p \<longleftrightarrow>
     (if from_stdout payload item then stream_output \<noteq> None else starts_with p root)"

lemma locate_output_located:
  assumes "locate_output fs call root stream_output payload item = Inr p"
  shows "located stream_output payload root item p"
proof (cases "from_stdout payload item")
  case True
  with assms show ?thesis by (auto simp: located_def locate_output_def and_then_Inr_iff)
next
  case False
  with assms have "resolve_locator (fs_canonicalize fs call) root (rout_path (ri_output item)) = Inr p"
    by (simp add: locate_output_def lift_iff)
  then show ?thesis using False by (auto simp: located_def resolve_locator_def and_then_Inr_iff Let_def split: if_splits)
qed

lemma verify_outputs_items:
  assumes "verify_outputs fs call root stream_output payload items = Inr vs"
  shows "list_all2 (\<lambda>item v. vi_item_id v = ri_item_id item \<and> vi_output_path v = rout_path (ri_output item)
      \<and> vi_output v = rout_fingerprint (ri_output item) \<and> vi_outcome v = ri_outcome item
      \<and> (\<exists>p. located stream_output payload root item p
            \<and> fs_fingerprint fs p = Some (rout_fingerprint (ri_output item)))) items vs"
  using assms
proof (induction items arbitrary: call vs)
  case (Cons item items)
  then obtain v ws where vs: "vs = v # ws" and rest: "verify_outputs fs (call + 2) root stream_output payload items = Inr ws"
    and v: "verify_output fs call root stream_output payload item = Inr v"
    by (auto simp: and_then_Inr_iff)
  have "vi_item_id v = ri_item_id item \<and> vi_output_path v = rout_path (ri_output item)
      \<and> vi_output v = rout_fingerprint (ri_output item) \<and> vi_outcome v = ri_outcome item
      \<and> (\<exists>p. located stream_output payload root item p
            \<and> fs_fingerprint fs p = Some (rout_fingerprint (ri_output item)))"
    using v by (auto simp: verify_output_def and_then_Inr_iff intro!: locate_output_located)
  then show ?case using Cons.IH [OF rest] vs by simp
qed simp


section \<open>Witnesses\<close>

text \<open>An environment in which every hypothesis holds: constant hash and signature, base64
  replaced by the identity on bytes.\<close>

definition demo_env :: receipt_env where
  "demo_env = \<lparr>env_sha256 = \<lambda>_. replicate 32 0, env_base64_encode = bytes_string,
     env_base64_decode = \<lambda>s. Some (as_bytes s), env_public_of_pkcs8 = \<lambda>_. Some (replicate 32 5),
     env_sign = \<lambda>_ _. replicate 64 1, env_verify = \<lambda>_ _ s. s = replicate 64 1,
     env_ser_plan = sample_serializer, env_ser_payload = sample_serializer,
     env_ser_receipt = sample_serializer, env_ser_public_key = sample_serializer,
     env_ser_secret_key = sample_serializer, env_ser_policy = sample_serializer\<rparr>"

definition demo_key_id :: string where "demo_key_id = as_hex (Digest (replicate 32 0))"

definition demo_secret :: receipt_secret_key where
  "demo_secret = \<lparr>sk_schema = RECEIPT_SECRET_KEY_SCHEMA, sk_schema_version = EXECUTION_SCHEMA_VERSION,
     sk_algorithm = ED25519_ALGORITHM, sk_key_id = demo_key_id,
     sk_public_key_base64 = bytes_string (replicate 32 (5 :: u8)), sk_secret_key_base64 = bytes_string [1 :: u8]\<rparr>"

definition demo_public :: receipt_public_key where
  "demo_public = \<lparr>pk_schema = RECEIPT_PUBLIC_KEY_SCHEMA, pk_schema_version = EXECUTION_SCHEMA_VERSION,
     pk_algorithm = ED25519_ALGORITHM, pk_key_id = demo_key_id,
     pk_public_key_base64 = bytes_string (replicate 32 (5 :: u8))\<rparr>"

definition demo_fingerprint :: file_fingerprint where
  "demo_fingerprint = \<lparr>fp_len = 1004, fp_digest = Digest (replicate 32 3)\<rparr>"

definition demo_items :: "receipt_item list" where
  "demo_items = map (\<lambda>item. receipt_item_of item demo_fingerprint ''succeeded'') (plan_items sample_plan)"

definition demo_payload :: receipt_payload where
  "demo_payload = \<lparr>pay_denoize_version = CARGO_PKG_VERSION, pay_kind = File,
     pay_plan_digest = Digest (replicate 32 0), pay_items = demo_items\<rparr>"

definition demo_receipt :: signed_receipt where
  "demo_receipt = \<lparr>rec_schema = EXECUTION_RECEIPT_SCHEMA, rec_schema_version = EXECUTION_SCHEMA_VERSION,
     rec_payload = demo_payload, rec_signature = \<lparr>sig_algorithm = ED25519_ALGORITHM,
       sig_key_id = demo_key_id, sig_value_base64 = bytes_string (replicate 64 (1 :: u8))\<rparr>\<rparr>"

lemma demo_env_sound: "env_sound demo_env"
  by (simp add: env_sound_def demo_env_def)

lemma demo_key_id_ok: "receipt_key_id demo_env bytes = demo_key_id" "validate_key_id demo_key_id = Inr ()"
proof -
  show "receipt_key_id demo_env bytes = demo_key_id"
    by (simp add: receipt_key_id_def demo_env_def demo_key_id_def domain_digest_def)
  have "digest_from_str demo_key_id = Some (Digest (replicate 32 0))"
    unfolding demo_key_id_def by (rule digest_hex_roundtrip_wf) (simp add: digest_wf_def)
  moreover have "\<not> list_ex is_ascii_uppercase demo_key_id"
    using encode_hex_lower by (auto simp: demo_key_id_def as_hex_def list_ex_iff)
  ultimately show "validate_key_id demo_key_id = Inr ()" by (simp add: validate_key_id_def)
qed

lemma demo_size:
  "ensure_serialized_json_size sample_serializer x False False n = Inr () \<longleftrightarrow> 2 \<le> n"
  by (auto simp: ensure_serialized_json_size_def sample_serializer_def json_size_counter_def
      saturating_add_def checked_add_def not_less)

lemma length_bytes_string [simp]: "length (bytes_string bs) = length bs"
  by (simp add: bytes_string_def)

lemma demo_decode: "length bs \<le> 65536 \<Longrightarrow> decode_base64 demo_env (bytes_string bs) = Inr bs"
  by (simp add: decode_base64_def demo_env_def)

lemma demo_secret_valid: "secret_key_validate demo_env demo_secret = Inr ()"
  by (simp add: secret_key_validate_def demo_secret_def require_schema_def demo_key_id_ok demo_decode)
    (simp add: demo_env_def demo_size lift_iff)

lemma demo_public_valid: "public_key_validate demo_env demo_public = Inr ()"
  by (simp add: public_key_validate_def demo_public_def require_schema_def demo_key_id_ok
      decode_public_key_def demo_decode) (simp add: demo_env_def demo_size lift_iff)

lemma demo_public_key_of: "public_key_of demo_env demo_secret = Inr demo_public"
  using demo_public_valid
  by (simp add: public_key_of_def demo_secret_valid Let_def) (simp add: demo_secret_def demo_public_def)

lemma demo_item_valid:
  "out = ''a.wav'' \<or> out = ''b.wav'' \<Longrightarrow>
   validate_receipt_item (receipt_item_of (sample_item n out) demo_fingerprint ''succeeded'') = Inr ()"
  by (auto simp: validate_receipt_item_def receipt_item_of_def sample_eval demo_fingerprint_def lift_iff)

lemma demo_payload_valid: "payload_validate demo_env demo_payload = Inr ()"
proof -
  have "receipt_sequence None {} demo_items = Inr ()"
    using sample_ids_less unfolding receipt_sequence_iff demo_items_def sample_plan_def
    by (simp add: demo_item_valid) (simp add: receipt_item_of_def sample_item_def)
  moreover have "demo_items \<noteq> []" "length demo_items = 2" by (simp_all add: demo_items_def sample_plan_def)
  ultimately show ?thesis
    by (simp add: payload_validate_def demo_payload_def sample_version MAX_ITEMS_def)
      (simp add: demo_env_def lift_iff demo_size MAX_JSON_BYTES_def RECEIPT_ENVELOPE_ALLOWANCE_BYTES_def)
qed

lemma demo_digest: "plan_digest (env_sha256 demo_env) (env_ser_plan demo_env) sample_plan = Inr (Digest (replicate 32 0))"
  using sample_plan_valid
  by (simp add: plan_digest_def demo_env_def domain_digest_def) (simp add: sample_serializer_def)

lemma demo_matches: "matches_plan demo_env demo_payload sample_plan = Inr ()"
proof -
  have "match_item (receipt_item_of (sample_item n out) demo_fingerprint ''succeeded'', sample_item n out) = Inr ()" for n out
    by (simp add: match_item_iff item_matches_def receipt_item_of_def sample_item_def)
  moreover have "pay_items demo_payload = demo_items" "pay_kind demo_payload = plan_kind sample_plan"
    "pay_denoize_version demo_payload = plan_denoize_version sample_plan"
    "pay_plan_digest demo_payload = Digest (replicate 32 0)"
    by (simp_all add: demo_payload_def sample_plan_def)
  ultimately show ?thesis
    by (simp add: matches_plan_def demo_digest demo_items_def try_all_Inr_iff) (simp add: sample_plan_def)
qed

lemma demo_payload_new: "payload_new demo_env sample_plan (rev demo_items) = Inr demo_payload"
proof -
  have "sort_key ri_item_id (rev demo_items) = demo_items"
    using sample_ids_less by (simp add: demo_items_def sample_plan_def) (simp add: receipt_item_of_def sample_item_def)
  moreover have "env_ser_plan demo_env = sample_serializer" by (simp add: demo_env_def)
  moreover have "\<lparr>pay_denoize_version = CARGO_PKG_VERSION, pay_kind = plan_kind sample_plan,
      pay_plan_digest = Digest (replicate 32 0), pay_items = demo_items\<rparr> = demo_payload"
    by (simp add: demo_payload_def sample_plan_def)
  ultimately show ?thesis
    using demo_payload_valid demo_matches sample_plan_valid demo_digest by (simp add: payload_new_def)
qed

lemma demo_structure: "validate_structure demo_env demo_receipt = Inr ()"
  using demo_payload_valid
  by (simp add: validate_structure_def demo_receipt_def demo_key_id_ok demo_decode)
    (simp add: demo_payload_def require_execution_schema_def demo_env_def lift_iff demo_size MAX_JSON_BYTES_def)

lemma demo_sign: "sign demo_env demo_secret demo_payload = Inr demo_receipt"
proof -
  have "domain_message RECEIPT_SIGNATURE_DOMAIN [123, 125] \<noteq> None"
    by (simp add: domain_message_def checked_add_def RECEIPT_SIGNATURE_DOMAIN_def)
  then obtain m where "receipt_signature_message demo_env RECEIPT_SIGNATURE_DOMAIN demo_payload = Inr m"
    by (auto simp: receipt_signature_message_def demo_env_def sample_serializer_def)
  moreover have "receipt_schema (pay_kind demo_payload) = (EXECUTION_RECEIPT_SCHEMA, EXECUTION_SCHEMA_VERSION, RECEIPT_SIGNATURE_DOMAIN)"
    by (simp add: receipt_schema_def demo_payload_def)
  moreover have "decode_base64 demo_env (sk_secret_key_base64 demo_secret) = Inr [1]"
    by (simp add: demo_secret_def demo_decode)
  moreover have "\<lparr>rec_schema = EXECUTION_RECEIPT_SCHEMA, rec_schema_version = EXECUTION_SCHEMA_VERSION, rec_payload = demo_payload,
      rec_signature = \<lparr>sig_algorithm = ED25519_ALGORITHM, sig_key_id = sk_key_id demo_secret,
        sig_value_base64 = env_base64_encode demo_env (env_sign demo_env s msg)\<rparr>\<rparr> = demo_receipt" for s msg
    by (simp add: demo_receipt_def demo_secret_def demo_env_def)
  moreover have "env_public_of_pkcs8 demo_env s = Some (replicate 32 5)" for s by (simp add: demo_env_def)
  ultimately show ?thesis
    using demo_secret_valid demo_payload_valid demo_structure by (simp add: sign_def)
qed

theorem signed_receipt_verifies_witness:
  "sign demo_env demo_secret demo_payload = Inr demo_receipt
    \<and> verify_signature demo_env demo_receipt demo_public = Inr ()"
  using signed_receipt_verifies [OF demo_env_sound demo_sign demo_public_key_of] demo_sign by simp

theorem receipt_mirrors_plan_witness:
  "payload_new demo_env sample_plan (rev demo_items) = Inr demo_payload
    \<and> map ri_item_id (pay_items demo_payload) = map item_id (plan_items sample_plan)"
  using receipt_mirrors_plan [OF demo_payload_new] demo_payload_new by simp

definition demo_policy :: trust_policy where
  "demo_policy = \<lparr>tp_schema = RECEIPT_TRUST_POLICY_SCHEMA, tp_schema_version = EXECUTION_SCHEMA_VERSION,
     tp_trusted_keys = [demo_public], tp_revoked_key_ids = []\<rparr>"

lemma demo_policy_new: "policy_new demo_env [demo_public] [] = Inr demo_policy"
proof -
  have "policy_validate demo_env demo_policy = Inr ()"
    by (simp add: policy_validate_def demo_policy_def require_schema_def demo_public_valid)
      (simp add: demo_env_def lift_iff demo_size)
  then show ?thesis by (simp add: policy_new_def demo_policy_def)
qed

lemma demo_signature_verified: "verify_signature demo_env demo_receipt demo_public = Inr ()"
proof -
  have sig: "sig_key_id (rec_signature demo_receipt) = pk_key_id demo_public"
    "decode_base64 demo_env (sig_value_base64 (rec_signature demo_receipt)) = Inr (replicate 64 1)"
    "signature_domain demo_receipt = Inr RECEIPT_SIGNATURE_DOMAIN" "rec_payload demo_receipt = demo_payload"
    by (simp_all add: demo_receipt_def demo_public_def demo_decode signature_domain_def demo_payload_def)
  have "decode_public_key demo_env demo_public = Inr (replicate 32 5)"
    by (simp add: decode_public_key_def demo_public_def demo_decode)
  moreover have "domain_message RECEIPT_SIGNATURE_DOMAIN [123, 125] \<noteq> None"
    by (simp add: domain_message_def checked_add_def RECEIPT_SIGNATURE_DOMAIN_def)
  then obtain m where "receipt_signature_message demo_env RECEIPT_SIGNATURE_DOMAIN demo_payload = Inr m"
    by (auto simp: receipt_signature_message_def demo_env_def sample_serializer_def)
  moreover have "env_verify demo_env p msg (replicate 64 1)" for p msg by (simp add: demo_env_def)
  ultimately show ?thesis
    using sig demo_structure demo_public_valid by (simp add: verify_signature_def)
qed

theorem policy_resolve_exact_witness: "policy_resolve demo_policy demo_key_id = Inr demo_public"
  by (rule policy_resolve_exact [OF demo_policy_new, THEN iffD2]) (simp add: demo_public_def)

lemma demo_resolve: "policy_resolve demo_policy demo_key_id = Inr demo_public"
proof -
  have "binary_search pk_key_id demo_key_id [demo_public] 0 1 = Some 0"
    by (subst binary_search.simps) (simp add: demo_public_def)
  moreover have "binary_search (\<lambda>v. v) demo_key_id [] 0 0 = None"
    by (simp add: binary_search.simps [of _ _ "[]"])
  ultimately show ?thesis by (simp add: policy_resolve_def demo_policy_def)
qed

theorem policy_verification_sound_witness:
  "verify_policy demo_env demo_receipt demo_policy = Inr ()
    \<and> (\<exists>key \<in> set (tp_trusted_keys demo_policy). pk_key_id key = demo_key_id)"
proof -
  have ok: "verify_policy demo_env demo_receipt demo_policy = Inr ()"
  proof -
    have "policy_validate demo_env demo_policy = Inr ()"
      using demo_policy_new by (auto simp: policy_new_def and_then_Inr_iff Let_def demo_policy_def)
    moreover have "sig_key_id (rec_signature demo_receipt) = demo_key_id" by (simp add: demo_receipt_def)
    ultimately show ?thesis using demo_resolve demo_signature_verified by (simp add: verify_policy_def)
  qed
  from policy_verification_sound [OF ok] ok show ?thesis by (auto simp: demo_receipt_def)
qed

definition demo_fs :: verify_fs where
  "demo_fs = \<lparr>fs_canonicalize = \<lambda>_ p. Some p, fs_is_dir = \<lambda>_. True, fs_fingerprint = \<lambda>_. Some demo_fingerprint\<rparr>"


end
