(* ===== verification/Ipc_Contracts.thy ===== *)
theory Ipc_Contracts
  imports Execution_Plan
begin

text \<open>
  The documents of the local job server (\<open>src/src/ipc/contracts.rs\<close>): limits, grants and
  their policies, jobs, statuses, history, requests and responses, each with its validation.
  An \<open>i16\<close> priority is only compared, so it is an \<open>int\<close>; the serializer of the execution
  plan is a parameter, as in \<open>Execution_Plan\<close>. Validation errors keep their case, not
  the labels of their messages.
\<close>

section \<open>Constants and errors\<close>

definition IPC_SCHEMA_VERSION :: u32 where "IPC_SCHEMA_VERSION = 1"
definition IPC_DISCOVERY_SCHEMA :: string where "IPC_DISCOVERY_SCHEMA = ''denoize-ipc-discovery-v1''"
definition IPC_GRANT_SCHEMA :: string where "IPC_GRANT_SCHEMA = ''denoize-ipc-capability-v1''"
definition IPC_CAPABILITY_SCHEMA :: string where
  "IPC_CAPABILITY_SCHEMA = ''denoize-ipc-capability-summary-v1''"
definition IPC_REQUEST_SCHEMA :: string where "IPC_REQUEST_SCHEMA = ''denoize-ipc-request-v1''"
definition IPC_RESPONSE_SCHEMA :: string where "IPC_RESPONSE_SCHEMA = ''denoize-ipc-response-v1''"
definition IPC_DRY_RUN_SCHEMA :: string where "IPC_DRY_RUN_SCHEMA = ''denoize-job-dry-run-v1''"
definition IPC_JOB_STATUS_SCHEMA :: string where "IPC_JOB_STATUS_SCHEMA = ''denoize-job-status-v1''"
definition IPC_HISTORY_SCHEMA :: string where "IPC_HISTORY_SCHEMA = ''denoize-job-history-v1''"
definition MAX_ID_BYTES :: nat where "MAX_ID_BYTES = 128"
definition MAX_LABEL_BYTES :: nat where "MAX_LABEL_BYTES = 256"
definition MAX_PATH_BYTES :: nat where "MAX_PATH_BYTES = 4096"
definition MAX_ARGUMENT_BYTES :: nat where "MAX_ARGUMENT_BYTES = 4096"
definition MAX_ARGUMENTS :: nat where "MAX_ARGUMENTS = 256"
definition MAX_ROOTS :: nat where "MAX_ROOTS = 256"
definition MAX_CAPABILITIES :: nat where "MAX_CAPABILITIES = 16"
definition MIN_PRIORITY :: int where "MIN_PRIORITY = - 100"
definition MAX_PRIORITY :: int where "MAX_PRIORITY = 100"

datatype contract_error =
    BadSchema string u32 | BadText | BadId | BadDigest | BadLimit | BadLimitOrder | NotSerial
  | LimitTooSmall | BadTransport string | BadEndpoint | ZeroProcess | BadCapabilityCount
  | TooManyRoots | NotSortedUnique | BadPriority | RootsRequired | RevocationPredates
  | NotDurable | TooManyArguments | BadOverwritePolicy string | BadResumable | BadFinish
  | NonTerminalHistory | BadListLimit | TooManyEntries | FieldsDisagree | BadPlan exec_error

section \<open>Shared checks\<close>

definition require_schema :: "string \<Rightarrow> u32 \<Rightarrow> string \<Rightarrow> contract_error + unit" where
  "require_schema schema version expected =
    fail_if (schema \<noteq> expected \<or> version \<noteq> IPC_SCHEMA_VERSION) (BadSchema schema version)"

definition validate_text :: "string \<Rightarrow> nat \<Rightarrow> nat \<Rightarrow> contract_error + unit" where
  "validate_text value minimum maximum =
    fail_if (length value < minimum \<or> maximum < length value \<or> CHR 0x00 \<in> set value) BadText"

definition validate_id :: "string \<Rightarrow> contract_error + unit" where
  "validate_id value =
    and_then (validate_text value 1 MAX_ID_BYTES) (\<lambda>_.
    fail_if (\<not> list_all (\<lambda>byte. is_ascii_alphanumeric byte \<or> byte = CHR ''-'' \<or> byte = CHR ''_'') value) BadId)"

definition validate_digest :: "string \<Rightarrow> contract_error + unit" where
  "validate_digest value = fail_if (length value \<noteq> 64 \<or> \<not> list_all is_ascii_hexdigit value) BadDigest"

definition ensure_sorted_unique :: "'a::linorder list \<Rightarrow> contract_error + unit" where
  "ensure_sorted_unique values = fail_if (\<exists>(a, b) \<in> set (zip values (tl values)). b \<le> a) NotSortedUnique"

section \<open>Limits and discovery\<close>

record ipc_limits =
  max_request_bytes :: u64
  max_response_bytes :: u64
  request_timeout_millis :: u64
  planning_timeout_millis :: u64
  job_timeout_millis :: u64
  max_connections :: u32
  max_queue_entries :: u32
  max_history_entries :: u32
  max_running_jobs :: u32
  max_memory_bytes :: "u64 option"
  max_temporary_bytes :: "u64 option"
  max_gpu_memory_bytes :: "u64 option"

definition limits_default :: ipc_limits where
  "limits_default = \<lparr>max_request_bytes = 1024 * 1024, max_response_bytes = 16 * 1024 * 1024,
     request_timeout_millis = 15 * 60 * 1000, planning_timeout_millis = 15 * 60 * 1000,
     job_timeout_millis = 24 * 60 * 60 * 1000, max_connections = 8, max_queue_entries = 1024,
     max_history_entries = 1024, max_running_jobs = 1, max_memory_bytes = None,
     max_temporary_bytes = None, max_gpu_memory_bytes = None\<rparr>"

definition limits_validate :: "ipc_limits \<Rightarrow> contract_error + unit" where
  "limits_validate limits =
    and_then (fail_if (\<not> (4 * 1024 \<le> max_request_bytes limits \<and> max_request_bytes limits \<le> 16 * 1024 * 1024)) BadLimit) (\<lambda>_.
    and_then (fail_if (max_response_bytes limits < max_request_bytes limits
        \<or> 64 * 1024 * 1024 < max_response_bytes limits) BadLimitOrder) (\<lambda>_.
    and_then (fail_if (\<not> (100 \<le> request_timeout_millis limits \<and> request_timeout_millis limits \<le> 60 * 60 * 1000)) BadLimit) (\<lambda>_.
    and_then (fail_if (\<not> (100 \<le> planning_timeout_millis limits \<and> planning_timeout_millis limits \<le> 60 * 60 * 1000)) BadLimit) (\<lambda>_.
    and_then (fail_if (\<not> (100 \<le> job_timeout_millis limits \<and> job_timeout_millis limits \<le> 7 * 24 * 60 * 60 * 1000)) BadLimit) (\<lambda>_.
    and_then (fail_if (\<not> (1 \<le> max_connections limits \<and> max_connections limits \<le> 64)) BadLimit) (\<lambda>_.
    and_then (fail_if (\<not> (1 \<le> max_queue_entries limits \<and> max_queue_entries limits \<le> 100000)) BadLimit) (\<lambda>_.
    and_then (fail_if (\<not> (1 \<le> max_history_entries limits \<and> max_history_entries limits \<le> 100000)) BadLimit) (\<lambda>_.
    and_then (fail_if (max_running_jobs limits \<noteq> 1) NotSerial) (\<lambda>_.
    try_all (\<lambda>limit. fail_if (case limit of None \<Rightarrow> False | Some bytes \<Rightarrow> bytes < 1024 * 1024) LimitTooSmall)
      [max_memory_bytes limits, max_temporary_bytes limits, max_gpu_memory_bytes limits])))))))))"

record ipc_discovery =
  disc_schema :: string
  disc_schema_version :: u32
  disc_denoize_version :: string
  disc_server_id :: string
  disc_transport :: string
  disc_endpoint :: string
  disc_process_id :: u32
  disc_started_at_unix_millis :: u64
  disc_limits :: ipc_limits

definition discovery_validate :: "ipc_discovery \<Rightarrow> contract_error + unit" where
  "discovery_validate d =
    and_then (require_schema (disc_schema d) (disc_schema_version d) IPC_DISCOVERY_SCHEMA) (\<lambda>_.
    and_then (validate_id (disc_server_id d)) (\<lambda>_.
    and_then (fail_if (disc_transport d \<noteq> ''loopback-tcp'') (BadTransport (disc_transport d))) (\<lambda>_.
    and_then (fail_if (MAX_PATH_BYTES < length (disc_endpoint d) \<or> \<not> is_prefix ''tcp://'' (disc_endpoint d)) BadEndpoint) (\<lambda>_.
    and_then (fail_if (disc_process_id d = 0) ZeroProcess) (\<lambda>_.
    limits_validate (disc_limits d))))))"

section \<open>Grants\<close>

datatype ipc_capability =
  Plan | Submit | ReadOwn | ReadAll | ControlOwn | ControlAll | ManageGrants | Shutdown

text \<open>The derived \<open>Ord\<close> is the order of declaration.\<close>

fun capability_index :: "ipc_capability \<Rightarrow> nat" where
  "capability_index Plan = 0" | "capability_index Submit = 1" | "capability_index ReadOwn = 2"
| "capability_index ReadAll = 3" | "capability_index ControlOwn = 4" | "capability_index ControlAll = 5"
| "capability_index ManageGrants = 6" | "capability_index Shutdown = 7"

lemma capability_index_inj [simp]: "capability_index a = capability_index b \<longleftrightarrow> a = b"
  by (cases a; cases b) simp_all

instantiation ipc_capability :: linorder
begin

definition less_eq_ipc_capability :: "ipc_capability \<Rightarrow> ipc_capability \<Rightarrow> bool" where
  "less_eq_ipc_capability a b \<longleftrightarrow> capability_index a \<le> capability_index b"

definition less_ipc_capability :: "ipc_capability \<Rightarrow> ipc_capability \<Rightarrow> bool" where
  "less_ipc_capability a b \<longleftrightarrow> capability_index a < capability_index b"

instance
  by standard (auto simp: less_eq_ipc_capability_def less_ipc_capability_def dest: antisym)

end

record grant_policy =
  pol_label :: string
  pol_capabilities :: "ipc_capability list"
  pol_input_roots :: "string list"
  pol_output_roots :: "string list"
  pol_max_priority :: int
  pol_expires_at_unix_millis :: "u64 option"

definition grant_policy_new :: "string \<Rightarrow> ipc_capability list \<Rightarrow> string list \<Rightarrow> string list \<Rightarrow> grant_policy" where
  "grant_policy_new label capabilities input_roots output_roots =
    \<lparr>pol_label = label, pol_capabilities = capabilities, pol_input_roots = input_roots,
     pol_output_roots = output_roots, pol_max_priority = 0, pol_expires_at_unix_millis = None\<rparr>"

definition policy_validate :: "grant_policy \<Rightarrow> contract_error + unit" where
  "policy_validate p =
    and_then (validate_text (pol_label p) 1 MAX_LABEL_BYTES) (\<lambda>_.
    and_then (fail_if (pol_capabilities p = [] \<or> MAX_CAPABILITIES < length (pol_capabilities p)) BadCapabilityCount) (\<lambda>_.
    and_then (ensure_sorted_unique (pol_capabilities p)) (\<lambda>_.
    and_then (fail_if (MAX_ROOTS < length (pol_input_roots p) \<or> MAX_ROOTS < length (pol_output_roots p)) TooManyRoots) (\<lambda>_.
    and_then (ensure_sorted_unique (pol_input_roots p)) (\<lambda>_.
    and_then (ensure_sorted_unique (pol_output_roots p)) (\<lambda>_.
    and_then (try_all (\<lambda>root. validate_text root 1 MAX_PATH_BYTES) (pol_input_roots p)) (\<lambda>_.
    and_then (try_all (\<lambda>root. validate_text root 1 MAX_PATH_BYTES) (pol_output_roots p)) (\<lambda>_.
    and_then (fail_if (\<not> (MIN_PRIORITY \<le> pol_max_priority p \<and> pol_max_priority p \<le> MAX_PRIORITY)) BadPriority) (\<lambda>_.
    fail_if (list_ex (\<lambda>c. c = Plan \<or> c = Submit) (pol_capabilities p)
        \<and> (pol_input_roots p = [] \<or> pol_output_roots p = [])) RootsRequired)))))))))"

text \<open>A \<open>BTreeSet\<close> lists its elements in order, once each; \<open>dedup\<close> drops equal neighbours.\<close>

definition canonicalize_policy :: "grant_policy \<Rightarrow> grant_policy" where
  "canonicalize_policy p =
    p\<lparr>pol_capabilities := sorted_list_of_set (set (pol_capabilities p)),
      pol_input_roots := remdups_adj (sort (pol_input_roots p)),
      pol_output_roots := remdups_adj (sort (pol_output_roots p))\<rparr>"

record grant_document =
  doc_schema :: string
  doc_schema_version :: u32
  doc_server_id :: string
  doc_grant_id :: string
  doc_token :: string
  doc_policy :: grant_policy
  doc_issued_at_unix_millis :: u64

definition grant_document_validate :: "grant_document \<Rightarrow> contract_error + unit" where
  "grant_document_validate d =
    and_then (require_schema (doc_schema d) (doc_schema_version d) IPC_GRANT_SCHEMA) (\<lambda>_.
    and_then (validate_id (doc_server_id d)) (\<lambda>_.
    and_then (validate_id (doc_grant_id d)) (\<lambda>_.
    and_then (validate_text (doc_token d) 32 256) (\<lambda>_.
    policy_validate (doc_policy d)))))"

record grant_summary =
  sum_schema :: string
  sum_schema_version :: u32
  sum_server_id :: string
  sum_grant_id :: string
  sum_policy :: grant_policy
  sum_issued_at_unix_millis :: u64
  sum_revoked_at_unix_millis :: "u64 option"

definition grant_summary_validate :: "grant_summary \<Rightarrow> contract_error + unit" where
  "grant_summary_validate s =
    and_then (require_schema (sum_schema s) (sum_schema_version s) IPC_CAPABILITY_SCHEMA) (\<lambda>_.
    and_then (validate_id (sum_server_id s)) (\<lambda>_.
    and_then (validate_id (sum_grant_id s)) (\<lambda>_.
    and_then (policy_validate (sum_policy s)) (\<lambda>_.
    fail_if (case sum_revoked_at_unix_millis s of None \<Rightarrow> False
      | Some revoked \<Rightarrow> revoked < sum_issued_at_unix_millis s) RevocationPredates))))"

section \<open>Jobs\<close>

datatype job_kind = FileJob | BatchJob | StreamJob

fun resumable :: "job_kind \<Rightarrow> bool" where
  "resumable FileJob = False" | "resumable BatchJob = True" | "resumable StreamJob = True"

record job_spec =
  spec_kind :: job_kind
  spec_input :: string
  spec_output :: string
  spec_arguments :: "string list"
  spec_priority :: int

definition job_spec_new :: "job_kind \<Rightarrow> string \<Rightarrow> string \<Rightarrow> job_spec" where
  "job_spec_new kind input output_path =
    \<lparr>spec_kind = kind, spec_input = input, spec_output = output_path, spec_arguments = [], spec_priority = 0\<rparr>"

definition job_spec_validate :: "job_spec \<Rightarrow> contract_error + unit" where
  "job_spec_validate j =
    and_then (validate_text (spec_input j) 1 MAX_PATH_BYTES) (\<lambda>_.
    and_then (validate_text (spec_output j) 1 MAX_PATH_BYTES) (\<lambda>_.
    and_then (fail_if (spec_input j = ''-'' \<or> spec_output j = ''-'') NotDurable) (\<lambda>_.
    and_then (fail_if (MAX_ARGUMENTS < length (spec_arguments j)) TooManyArguments) (\<lambda>_.
    and_then (try_all (\<lambda>argument. and_then (validate_text argument 1 MAX_ARGUMENT_BYTES)
        (\<lambda>_. fail_if (CHR 0x00 \<in> set argument) BadText)) (spec_arguments j)) (\<lambda>_.
    fail_if (\<not> (MIN_PRIORITY \<le> spec_priority j \<and> spec_priority j \<le> MAX_PRIORITY)) BadPriority)))))"

record resource_summary =
  rs_memory_bytes :: u64
  rs_temporary_bytes :: u64
  rs_cpu_jobs :: u64
  rs_gpu_jobs :: u64
  rs_gpu_memory_bytes :: u64

record destination_summary =
  ds_process :: u64
  ds_create :: u64
  ds_replace :: u64
  ds_skip :: u64

record dry_run_report =
  dry_schema :: string
  dry_schema_version :: u32
  dry_plan_digest :: string
  dry_resources :: resource_summary
  dry_destinations :: destination_summary
  dry_overwrite_policy :: string
  dry_pause_supported :: bool
  dry_plan :: execution_plan

definition known_overwrite_policy :: "string \<Rightarrow> bool" where
  "known_overwrite_policy s \<longleftrightarrow> s \<in> {''no-clobber'', ''replace'', ''mixed'', ''none''}"

definition dry_run_validate :: "execution_plan serializer \<Rightarrow> dry_run_report \<Rightarrow> contract_error + unit" where
  "dry_run_validate ser r =
    and_then (require_schema (dry_schema r) (dry_schema_version r) IPC_DRY_RUN_SCHEMA) (\<lambda>_.
    and_then (validate_digest (dry_plan_digest r)) (\<lambda>_.
    and_then (fail_if (\<not> known_overwrite_policy (dry_overwrite_policy r)) (BadOverwritePolicy (dry_overwrite_policy r))) (\<lambda>_.
    map_err BadPlan (plan_validate ser (dry_plan r)))))"

datatype job_state =
  Queued | Running | PauseRequested | Paused | CancelRequested | Recovering | Completed | Failed | Cancelled

definition terminal :: "job_state \<Rightarrow> bool" where
  "terminal s \<longleftrightarrow> s = Completed \<or> s = Failed \<or> s = Cancelled"

record job_status =
  st_schema :: string
  st_schema_version :: u32
  st_job_id :: string
  st_state :: job_state
  st_kind :: job_kind
  st_priority :: int
  st_queue_position :: "u32 option"
  st_submitted_at_unix_millis :: u64
  st_started_at_unix_millis :: "u64 option"
  st_finished_at_unix_millis :: "u64 option"
  st_attempt :: u32
  st_resumable :: bool
  st_plan_digest :: string
  st_receipt :: "file_fingerprint option"
  st_error :: "string option"

definition job_status_validate :: "job_status \<Rightarrow> contract_error + unit" where
  "job_status_validate s =
    and_then (require_schema (st_schema s) (st_schema_version s) IPC_JOB_STATUS_SCHEMA) (\<lambda>_.
    and_then (validate_id (st_job_id s)) (\<lambda>_.
    and_then (validate_digest (st_plan_digest s)) (\<lambda>_.
    and_then (fail_if (\<not> (MIN_PRIORITY \<le> st_priority s \<and> st_priority s \<le> MAX_PRIORITY)) BadPriority) (\<lambda>_.
    and_then (fail_if (st_resumable s \<noteq> resumable (st_kind s)) BadResumable) (\<lambda>_.
    and_then (fail_if (terminal (st_state s) \<noteq> (st_finished_at_unix_millis s \<noteq> None)) BadFinish) (\<lambda>_.
    check_some (\<lambda>error. validate_text error 1 4096) (st_error s)))))))"

record history_entry =
  he_job_id :: string
  he_state :: job_state
  he_kind :: job_kind
  he_priority :: int
  he_submitted_at_unix_millis :: u64
  he_started_at_unix_millis :: "u64 option"
  he_finished_at_unix_millis :: u64
  he_attempt :: u32
  he_plan_digest :: string
  he_resources :: resource_summary
  he_destinations :: destination_summary
  he_overwrite_policy :: string
  he_receipt :: "file_fingerprint option"
  he_error_code :: "string option"

definition history_entry_validate :: "history_entry \<Rightarrow> contract_error + unit" where
  "history_entry_validate e =
    and_then (validate_id (he_job_id e)) (\<lambda>_.
    and_then (fail_if (\<not> terminal (he_state e)) NonTerminalHistory) (\<lambda>_.
    and_then (fail_if (\<not> (MIN_PRIORITY \<le> he_priority e \<and> he_priority e \<le> MAX_PRIORITY)) BadPriority) (\<lambda>_.
    and_then (validate_digest (he_plan_digest e)) (\<lambda>_.
    and_then (fail_if (\<not> known_overwrite_policy (he_overwrite_policy e)) (BadOverwritePolicy (he_overwrite_policy e))) (\<lambda>_.
    check_some (\<lambda>code. validate_text code 1 128) (he_error_code e))))))"

record history_report =
  hr_schema :: string
  hr_schema_version :: u32
  hr_entries :: "history_entry list"
  hr_truncated :: bool

definition history_report_validate :: "history_report \<Rightarrow> contract_error + unit" where
  "history_report_validate r =
    and_then (require_schema (hr_schema r) (hr_schema_version r) IPC_HISTORY_SCHEMA) (\<lambda>_.
    and_then (fail_if (10000 < length (hr_entries r)) TooManyEntries) (\<lambda>_.
    try_all history_entry_validate (hr_entries r)))"

section \<open>Requests and responses\<close>

datatype ipc_operation =
    Ping
  | DryRun job_spec
  | SubmitJob job_spec
  | Status string
  | ListJobs u32
  | History u32
  | Cancel string
  | Pause string
  | Resume string
  | CreateGrant grant_policy
  | RevokeGrant string
  | ListGrants u32
  | ShutdownServer bool

definition list_limit_ok :: "u32 \<Rightarrow> contract_error + unit" where
  "list_limit_ok limit = fail_if (\<not> (1 \<le> limit \<and> limit \<le> 10000)) BadListLimit"

fun operation_validate :: "ipc_operation \<Rightarrow> contract_error + unit" where
  "operation_validate Ping = Inr ()"
| "operation_validate (ShutdownServer force) = Inr ()"
| "operation_validate (DryRun job) = job_spec_validate job"
| "operation_validate (SubmitJob job) = job_spec_validate job"
| "operation_validate (Status job_id) = validate_id job_id"
| "operation_validate (Cancel job_id) = validate_id job_id"
| "operation_validate (Pause job_id) = validate_id job_id"
| "operation_validate (Resume job_id) = validate_id job_id"
| "operation_validate (RevokeGrant grant_id) = validate_id grant_id"
| "operation_validate (ListJobs limit) = list_limit_ok limit"
| "operation_validate (History limit) = list_limit_ok limit"
| "operation_validate (ListGrants limit) = list_limit_ok limit"
| "operation_validate (CreateGrant policy) = policy_validate policy"

record request_envelope =
  req_schema :: string
  req_schema_version :: u32
  req_request_id :: string
  req_server_id :: string
  req_grant_id :: string
  req_token :: string
  req_operation :: ipc_operation

definition request_validate :: "request_envelope \<Rightarrow> contract_error + unit" where
  "request_validate r =
    and_then (require_schema (req_schema r) (req_schema_version r) IPC_REQUEST_SCHEMA) (\<lambda>_.
    and_then (validate_id (req_request_id r)) (\<lambda>_.
    and_then (validate_id (req_server_id r)) (\<lambda>_.
    and_then (validate_id (req_grant_id r)) (\<lambda>_.
    and_then (validate_text (req_token r) 32 256) (\<lambda>_.
    operation_validate (req_operation r))))))"

record ipc_error =
  err_code :: string
  err_message :: string
  err_retryable :: bool

datatype response_result =
    Pong u64
  | DryRunResult dry_run_report
  | Submitted job_status
  | StatusResult job_status
  | Jobs "job_status list"
  | HistoryResult history_report
  | Grant grant_document
  | Grants "grant_summary list"
  | Acknowledged

fun result_validate :: "execution_plan serializer \<Rightarrow> response_result \<Rightarrow> contract_error + unit" where
  "result_validate ser (Pong server_time) = Inr ()"
| "result_validate ser Acknowledged = Inr ()"
| "result_validate ser (DryRunResult report) = dry_run_validate ser report"
| "result_validate ser (Submitted status) = job_status_validate status"
| "result_validate ser (StatusResult status) = job_status_validate status"
| "result_validate ser (Jobs statuses) =
    and_then (fail_if (10000 < length statuses) TooManyEntries) (\<lambda>_. try_all job_status_validate statuses)"
| "result_validate ser (HistoryResult report) = history_report_validate report"
| "result_validate ser (Grant document) = grant_document_validate document"
| "result_validate ser (Grants grants) =
    and_then (fail_if (10000 < length grants) TooManyEntries) (\<lambda>_. try_all grant_summary_validate grants)"

definition matches_operation :: "response_result \<Rightarrow> ipc_operation \<Rightarrow> bool" where
  "matches_operation res operation =
    (case operation of
       Ping \<Rightarrow> (case res of Pong _ \<Rightarrow> True | _ \<Rightarrow> False)
     | DryRun _ \<Rightarrow> (case res of DryRunResult _ \<Rightarrow> True | _ \<Rightarrow> False)
     | SubmitJob _ \<Rightarrow> (case res of Submitted _ \<Rightarrow> True | _ \<Rightarrow> False)
     | Status _ \<Rightarrow> (case res of StatusResult _ \<Rightarrow> True | _ \<Rightarrow> False)
     | ListJobs _ \<Rightarrow> (case res of Jobs _ \<Rightarrow> True | _ \<Rightarrow> False)
     | History _ \<Rightarrow> (case res of HistoryResult _ \<Rightarrow> True | _ \<Rightarrow> False)
     | Cancel _ \<Rightarrow> res = Acknowledged
     | Pause _ \<Rightarrow> res = Acknowledged
     | Resume _ \<Rightarrow> (case res of StatusResult _ \<Rightarrow> True | _ \<Rightarrow> False)
     | CreateGrant _ \<Rightarrow> (case res of Grant _ \<Rightarrow> True | _ \<Rightarrow> False)
     | RevokeGrant _ \<Rightarrow> res = Acknowledged
     | ListGrants _ \<Rightarrow> (case res of Grants _ \<Rightarrow> True | _ \<Rightarrow> False)
     | ShutdownServer _ \<Rightarrow> res = Acknowledged)"

record response_envelope =
  resp_schema :: string
  resp_schema_version :: u32
  resp_request_id :: string
  resp_ok :: bool
  resp_result :: "response_result option"
  resp_error :: "ipc_error option"

definition response_success :: "string \<Rightarrow> response_result \<Rightarrow> response_envelope" where
  "response_success request_id res =
    \<lparr>resp_schema = IPC_RESPONSE_SCHEMA, resp_schema_version = IPC_SCHEMA_VERSION,
     resp_request_id = request_id, resp_ok = True, resp_result = Some res, resp_error = None\<rparr>"

definition response_failure :: "string \<Rightarrow> ipc_error \<Rightarrow> response_envelope" where
  "response_failure request_id error =
    \<lparr>resp_schema = IPC_RESPONSE_SCHEMA, resp_schema_version = IPC_SCHEMA_VERSION,
     resp_request_id = request_id, resp_ok = False, resp_result = None, resp_error = Some error\<rparr>"

definition response_validate :: "execution_plan serializer \<Rightarrow> response_envelope \<Rightarrow> contract_error + unit" where
  "response_validate ser r =
    and_then (require_schema (resp_schema r) (resp_schema_version r) IPC_RESPONSE_SCHEMA) (\<lambda>_.
    and_then (validate_id (resp_request_id r)) (\<lambda>_.
    and_then (fail_if (resp_ok r \<noteq> (resp_result r \<noteq> None) \<or> resp_ok r = (resp_error r \<noteq> None)) FieldsDisagree) (\<lambda>_.
    and_then (check_some (result_validate ser) (resp_result r)) (\<lambda>_.
    check_some (\<lambda>error. and_then (validate_text (err_code error) 1 128)
      (\<lambda>_. validate_text (err_message error) 1 4096)) (resp_error r)))))"

section \<open>Facts about the checks\<close>

lemma ensure_sorted_unique_iff: "ensure_sorted_unique xs = Inr u \<longleftrightarrow> sorted_wrt (<) xs"
proof -
  have "(\<exists>(a, b) \<in> set (zip xs (tl xs)). b \<le> a) \<longleftrightarrow> \<not> sorted_wrt (<) xs"
  proof (induction xs)
    case (Cons x xs)
    then show ?case
    proof (cases xs)
      case (Cons y ys)
      have "sorted_wrt (<) (x # y # ys) \<longleftrightarrow> x < y \<and> sorted_wrt (<) (y # ys)"
        by (auto intro: less_trans)
      with Cons.IH Cons show ?thesis by (auto simp: not_less)
    qed simp
  qed simp
  then show ?thesis by (simp add: ensure_sorted_unique_def)
qed

lemma ensure_sorted_uniqueI [simp]: "sorted_wrt (<) xs \<Longrightarrow> ensure_sorted_unique xs = Inr ()"
  by (simp add: ensure_sorted_unique_iff)

lemma sorted_remdups_adj_strict: "sorted xs \<Longrightarrow> sorted_wrt (<) (remdups_adj xs)"
  by (induction xs rule: remdups_adj.induct) (auto simp: less_le intro: order.trans)

lemma canonical_fixpoint:
  "sorted_wrt (<) xs \<Longrightarrow> remdups_adj (sort xs) = xs"
  "sorted_wrt (<) xs \<Longrightarrow> sorted_list_of_set (set xs) = xs" for xs :: "'a::linorder list"
proof -
  assume sorted: "sorted_wrt (<) xs"
  then have "sorted xs" by (simp add: strict_sorted_imp_sorted)
  then have "sort xs = xs" by (simp add: sorted_sort_id)
  moreover have "distinct xs" using sorted sorted_wrt_strict_distinct [of "\<lambda>x. x" xs] by simp
  ultimately show "remdups_adj (sort xs) = xs" by (simp add: remdups_adj_distinct)
  show "sorted_list_of_set (set xs) = xs"
    using \<open>sorted xs\<close> \<open>distinct xs\<close> by (simp add: sorted_list_of_set.idem_if_sorted_distinct)
qed

lemma policy_validate_sorted:
  assumes "policy_validate p = Inr ()"
  shows "sorted_wrt (<) (pol_capabilities p)" "sorted_wrt (<) (pol_input_roots p)"
    "sorted_wrt (<) (pol_output_roots p)"
  using assms by (auto simp: policy_validate_def and_then_unit_iff ensure_sorted_unique_iff)

section \<open>Properties\<close>

text \<open>Canonicalising a policy keeps its authority and makes it ordered. The result grants
  the same capabilities over the same roots, lists each once in increasing order, and a second
  pass changes nothing; a policy that already validates is its own canonical form.\<close>

theorem canonicalize_policy_canonical:
  "let c = canonicalize_policy p in
     set (pol_capabilities c) = set (pol_capabilities p)
   \<and> set (pol_input_roots c) = set (pol_input_roots p)
   \<and> set (pol_output_roots c) = set (pol_output_roots p)
   \<and> ensure_sorted_unique (pol_capabilities c) = Inr ()
   \<and> ensure_sorted_unique (pol_input_roots c) = Inr ()
   \<and> ensure_sorted_unique (pol_output_roots c) = Inr ()
   \<and> canonicalize_policy c = c
   \<and> (policy_validate p = Inr () \<longrightarrow> c = p)"
proof -
  have sorted: "sorted_wrt (<) (pol_capabilities (canonicalize_policy p))"
    "sorted_wrt (<) (pol_input_roots (canonicalize_policy p))"
    "sorted_wrt (<) (pol_output_roots (canonicalize_policy p))"
    by (simp_all add: canonicalize_policy_def sorted_remdups_adj_strict)
  have fixpoint: "canonicalize_policy q = q"
    if "sorted_wrt (<) (pol_capabilities q)" "sorted_wrt (<) (pol_input_roots q)" "sorted_wrt (<) (pol_output_roots q)" for q
    using that by (simp add: canonicalize_policy_def canonical_fixpoint)
  have "canonicalize_policy (canonicalize_policy p) = canonicalize_policy p" using sorted by (rule fixpoint)
  moreover have "policy_validate p = Inr () \<longrightarrow> canonicalize_policy p = p"
    using fixpoint policy_validate_sorted by blast
  moreover have "set (pol_capabilities (canonicalize_policy p)) = set (pol_capabilities p)"
    "set (pol_input_roots (canonicalize_policy p)) = set (pol_input_roots p)"
    "set (pol_output_roots (canonicalize_policy p)) = set (pol_output_roots p)"
    by (simp_all add: canonicalize_policy_def)
  ultimately show ?thesis using sorted by (simp add: ensure_sorted_unique_iff Let_def)
qed

definition sample_policy :: grant_policy where
  "sample_policy = grant_policy_new ''worker'' [Plan, Submit, ReadOwn, ControlOwn] [''/in''] [''/out'']"

lemma sample_policy_valid: "policy_validate sample_policy = Inr ()"
  by (simp add: policy_validate_def sample_policy_def grant_policy_new_def validate_text_def
      ensure_sorted_unique_iff less_ipc_capability_def MAX_LABEL_BYTES_def MAX_CAPABILITIES_def
      MAX_ROOTS_def MAX_PATH_BYTES_def MIN_PRIORITY_def MAX_PRIORITY_def)

theorem canonicalize_policy_canonical_witness:
  "policy_validate sample_policy = Inr () \<and> canonicalize_policy sample_policy = sample_policy"
  using canonicalize_policy_canonical [of sample_policy] sample_policy_valid by (simp add: Let_def)

text \<open>A response says exactly one thing. A response validates exactly when its schema
  and request identity do and it carries either a valid result, flagged ok, or a valid error,
  flagged not ok; in particular the envelopes that \<open>success\<close> and \<open>failure\<close> build are
  valid whenever their content is.\<close>

theorem response_valid_iff:
  "response_validate ser r = Inr () \<longleftrightarrow>
     resp_schema r = IPC_RESPONSE_SCHEMA \<and> resp_schema_version r = IPC_SCHEMA_VERSION
   \<and> validate_id (resp_request_id r) = Inr ()
   \<and> ((\<exists>res. result_validate ser res = Inr () \<and> r = response_success (resp_request_id r) res)
     \<or> (\<exists>e. validate_text (err_code e) 1 128 = Inr () \<and> validate_text (err_message e) 1 4096 = Inr ()
          \<and> r = response_failure (resp_request_id r) e))"
proof -
  obtain sc v i k res err where r: "r = \<lparr>resp_schema = sc, resp_schema_version = v, resp_request_id = i,
    resp_ok = k, resp_result = res, resp_error = err\<rparr>"
    by (cases r) auto
  show ?thesis
    unfolding r
    by (cases k; cases res; cases err)
      (auto simp: response_validate_def and_then_unit_iff and_then_Inr_iff require_schema_def
        check_some_def response_success_def response_failure_def)
qed

end
