(* ===== verification/Ordered_Map.thy ===== *)
theory Ordered_Map
  imports Prelude
begin

text \<open>
  The \<open>BTreeMap\<close>s of the program: a list of entries in strictly increasing order of key,
  with lookup, insertion, removal and in-place update (\<open>get_mut\<close>). The interface that
  their clients use is the locale \<open>ordered_map\<close>; the implementation is interpreted
  below as \<open>bt\<close>.
\<close>

section \<open>The interface\<close>

locale ordered_map =
  fixes wf :: "'m \<Rightarrow> bool"
    and empty :: 'm
    and get :: "'m \<Rightarrow> 'k::linorder \<Rightarrow> 'v option"
    and put :: "'k \<Rightarrow> 'v \<Rightarrow> 'm \<Rightarrow> 'm"
    and del :: "'k \<Rightarrow> 'm \<Rightarrow> 'm"
    and upd :: "('v \<Rightarrow> 'v) \<Rightarrow> 'k \<Rightarrow> 'm \<Rightarrow> 'm"
    and entries :: "'m \<Rightarrow> ('k \<times> 'v) list"
  assumes wf_empty: "wf empty"
    and wf_put: "wf m \<Longrightarrow> wf (put k v m)"
    and wf_del: "wf m \<Longrightarrow> wf (del k m)"
    and wf_upd: "wf m \<Longrightarrow> wf (upd f k m)"
    and get_empty: "get empty k = None"
    and get_put: "wf m \<Longrightarrow> get (put k v m) k' = (if k' = k then Some v else get m k')"
    and get_del: "wf m \<Longrightarrow> get (del k m) k' = (if k' = k then None else get m k')"
    and get_upd: "wf m \<Longrightarrow> get (upd f k m) k' = (if k' = k then map_option f (get m k) else get m k')"
    and entries_get: "wf m \<Longrightarrow> (k, v) \<in> set (entries m) \<longleftrightarrow> get m k = Some v"
    and entries_sorted: "wf m \<Longrightarrow> sorted_wrt (<) (map fst (entries m))"
begin

text \<open>Clients reason about all entries at once and about their number.\<close>

definition all_entries :: "('k \<Rightarrow> 'v \<Rightarrow> bool) \<Rightarrow> 'm \<Rightarrow> bool" where
  "all_entries P m \<longleftrightarrow> (\<forall>(k, v) \<in> set (entries m). P k v)"

lemma all_entries_get: "wf m \<Longrightarrow> all_entries P m \<longleftrightarrow> (\<forall>k v. get m k = Some v \<longrightarrow> P k v)"
  by (auto simp: all_entries_def entries_get)

lemma all_entries_put: "wf m \<Longrightarrow> all_entries P m \<Longrightarrow> P k v \<Longrightarrow> all_entries P (put k v m)"
  by (auto simp: all_entries_get wf_put get_put)

lemma all_entries_del: "wf m \<Longrightarrow> all_entries P m \<Longrightarrow> all_entries P (del k m)"
  by (auto simp: all_entries_get wf_del get_del)

lemma all_entries_upd:
  "wf m \<Longrightarrow> all_entries P m \<Longrightarrow> (\<And>v. get m k = Some v \<Longrightarrow> P k (f v)) \<Longrightarrow> all_entries P (upd f k m)"
  by (auto simp: all_entries_get wf_upd get_upd)

lemma entries_length: "wf m \<Longrightarrow> length (entries m) = card (dom (get m))"
proof -
  assume wf: "wf m"
  have "distinct (map fst (entries m))"
    using entries_sorted [OF wf] sorted_wrt_strict_distinct [of fst] by blast
  then have "length (entries m) = card (fst ` set (entries m))"
    by (metis distinct_card length_map list.set_map)
  also have "fst ` set (entries m) = dom (get m)"
    using entries_get [OF wf] by force
  finally show ?thesis .
qed

lemma finite_dom: "wf m \<Longrightarrow> finite (dom (get m))"
proof -
  assume wf: "wf m"
  have "dom (get m) = fst ` set (entries m)" using entries_get [OF wf] by force
  then show ?thesis by simp
qed

lemma length_put: "wf m \<Longrightarrow> length (entries (put k v m)) \<le> Suc (length (entries m))"
proof -
  assume wf: "wf m"
  have "dom (get (put k v m)) = insert k (dom (get m))" using get_put [OF wf] by (auto split: if_splits)
  then show ?thesis
    using finite_dom [OF wf] by (simp add: entries_length wf wf_put card_insert_if)
qed

lemma length_del: "wf m \<Longrightarrow> length (entries (del k m)) \<le> length (entries m)"
proof -
  assume wf: "wf m"
  have "dom (get (del k m)) \<subseteq> dom (get m)" using get_del [OF wf] by (auto split: if_splits)
  then show ?thesis using finite_dom [OF wf] by (simp add: entries_length wf wf_del card_mono)
qed

lemma length_upd: "wf m \<Longrightarrow> length (entries (upd f k m)) = length (entries m)"
proof -
  assume wf: "wf m"
  have "dom (get (upd f k m)) = dom (get m)" using get_upd [OF wf] by (auto split: if_splits)
  then show ?thesis by (simp add: entries_length wf wf_upd)
qed

end

section \<open>The implementation\<close>

type_synonym ('k, 'v) btree = "('k \<times> 'v) list"

definition bt_wf :: "('k::linorder, 'v) btree \<Rightarrow> bool" where
  "bt_wf m \<longleftrightarrow> sorted_wrt (<) (map fst m)"

fun bt_insert :: "'k::linorder \<Rightarrow> 'v \<Rightarrow> ('k, 'v) btree \<Rightarrow> ('k, 'v) btree" where
  "bt_insert k v [] = [(k, v)]"
| "bt_insert k v ((k', v') # m) =
    (if k < k' then (k, v) # (k', v') # m
     else if k = k' then (k, v) # m
     else (k', v') # bt_insert k v m)"

definition bt_remove :: "'k \<Rightarrow> ('k, 'v) btree \<Rightarrow> ('k, 'v) btree" where
  "bt_remove k m = filter (\<lambda>e. fst e \<noteq> k) m"

definition bt_update :: "('v \<Rightarrow> 'v) \<Rightarrow> 'k \<Rightarrow> ('k, 'v) btree \<Rightarrow> ('k, 'v) btree" where
  "bt_update f k m = map (\<lambda>e. if fst e = k then (fst e, f (snd e)) else e) m"

lemma fst_bt_insert: "set (map fst (bt_insert k v m)) = insert k (set (map fst m))"
  by (induction k v m rule: bt_insert.induct) auto

lemma set_bt_insert: "set (bt_insert k v m) \<subseteq> insert (k, v) (set m)"
  by (induction k v m rule: bt_insert.induct) auto

lemma bt_insert_wf: "bt_wf m \<Longrightarrow> bt_wf (bt_insert k v m)"
proof (induction k v m rule: bt_insert.induct)
  case (2 k v k' v' m)
  have "fst ` set (bt_insert k v m) = insert k (fst ` set m)" using fst_bt_insert [of k v m] by simp
  moreover have "bt_wf m" using "2.prems" by (simp add: bt_wf_def)
  ultimately show ?case using 2 by (auto simp: bt_wf_def)
qed (simp add: bt_wf_def)

lemma bt_get_insert: "bt_wf m \<Longrightarrow> map_of (bt_insert k v m) k' = (if k' = k then Some v else map_of m k')"
proof (induction k v m rule: bt_insert.induct)
  case (2 k v j w m)
  then have "bt_wf m" by (simp add: bt_wf_def)
  with 2 show ?case by auto
qed simp

lemma bt_get_remove: "map_of (bt_remove k m) k' = (if k' = k then None else map_of m k')"
  by (induction m) (auto simp: bt_remove_def)

lemma bt_get_update: "map_of (bt_update f k m) k' = (if k' = k then map_option f (map_of m k) else map_of m k')"
  by (induction m) (auto simp: bt_update_def)

lemma bt_remove_wf: "bt_wf m \<Longrightarrow> bt_wf (bt_remove k m)"
  by (induction m) (auto simp: bt_wf_def bt_remove_def)

lemma bt_update_keys: "map fst (bt_update f k m) = map fst m"
  by (simp add: bt_update_def)

lemma bt_update_wf: "bt_wf m \<Longrightarrow> bt_wf (bt_update f k m)"
  by (simp add: bt_wf_def bt_update_keys)

lemma bt_wf_Nil: "bt_wf []"
  by (simp add: bt_wf_def)

lemma bt_wf_distinct: "bt_wf m \<Longrightarrow> distinct (map fst m)"
  using sorted_wrt_strict_distinct [of fst] by (auto simp: bt_wf_def)

interpretation bt: ordered_map bt_wf "[]" map_of bt_insert bt_remove bt_update "\<lambda>m. m"
proof (unfold_locales, goal_cases)
  case (9 m k v)
  then show ?case using bt_wf_distinct by fastforce
next
  case (10 m)
  then show ?case by (simp add: bt_wf_def)
qed (simp_all add: bt_wf_Nil bt_insert_wf bt_remove_wf bt_update_wf bt_get_insert bt_get_remove bt_get_update)

end
