(* ===== verification/Ipc_Store.thy ===== *)
theory Ipc_Store
  imports Ipc_Contracts Ordered_Map "HOL-Library.Product_Lexorder"
begin

text \<open>
  The durable state of the job server (\<open>src/src/ipc/storage.rs\<close>): the registry of
  capability grants and the queue of jobs with its history. Every operation takes and returns
  the store; an error leaves in memory what was mutated before it, as in the source.
  Parameters (\<open>store_env\<close>): the \<open>serde_json\<close> serializer of plans, the two private state
  files as written by \<open>write_private_json\<close> (success or not, and what the file then holds),
  HMAC-SHA-256, URL-safe base64, and the filesystem. Random bytes and the clock are arguments;
  \<open>None\<close> random bytes stand for a failing generator.
\<close>

section \<open>State\<close>

record authenticated_grant =
  auth_grant_id :: string
  auth_policy :: grant_policy

record stored_grant =
  sg_summary :: grant_summary
  sg_token_digest :: string

record registry_state =
  reg_schema :: string
  reg_schema_version :: u32
  reg_server_id :: string
  reg_generation :: u64
  reg_limits :: ipc_limits
  reg_grants :: "(string, stored_grant) btree"

record stored_job =
  job_status :: job_status
  job_owner_grant_id :: string
  job_sequence :: u64
  job_spec :: job_spec
  job_dry_run :: dry_run_report
  job_process_id :: "u32 option"

record stored_history_entry =
  hist_public :: history_entry
  hist_owner_grant_id :: string
  hist_error :: "string option"

record queue_state =
  q_schema :: string
  q_schema_version :: u32
  q_server_id :: string
  q_generation :: u64
  q_next_sequence :: u64
  q_jobs :: "(string, stored_job) btree"
  q_history :: "stored_history_entry list"

text \<open>The store with the files of its state directory.\<close>

record state_store =
  registry :: registry_state
  queue :: queue_state
  registry_file :: registry_state
  queue_file :: queue_state
  state_files :: "string list"

datatype metadata_answer = Found | NotFound | Unreadable

record store_env =
  se_ser_plan :: "execution_plan serializer"
  se_write_registry :: "registry_state \<Rightarrow> registry_state \<Rightarrow> bool \<times> registry_state"
  se_write_queue :: "queue_state \<Rightarrow> queue_state \<Rightarrow> bool \<times> queue_state"
  se_removable :: "string \<Rightarrow> bool"
  se_hmac :: "u8 list \<Rightarrow> u8 list \<Rightarrow> u8 list"
  se_base64_url :: "u8 list \<Rightarrow> string"
  se_canonicalize :: "path \<Rightarrow> path option"
  se_is_dir :: "path \<Rightarrow> bool"
  se_metadata :: "path \<Rightarrow> metadata_answer"

datatype grant_error =
    DifferentServer | GrantUnknown | GrantRevoked | GrantExpired | InvalidTokenDigest
  | AuthenticationFailed | GrantMissing | FinalManager | RegistryGeneration | RegistrySchema
  | GrantCount | GrantIdentity | TokenDigestFormat | AdminPolicy

datatype path_error =
    RootNotAbsolute | RootUnresolvable | RootNotDirectory | InputUnresolvable | PathNotAbsolute
  | ParentComponent | FutureUnresolvable | OutputUninspectable | OutsideRoots string
  | InputMoved | OutputMoved

datatype store_error =
    Contract contract_error | GrantError grant_error | PathError path_error
  | RandomFailed | WriteFailed | QueueGeneration | QueueSchema | QueueBounds | ActiveIdentity
  | ActiveContract | HistoryNonTerminal | QueueFull | SequenceOverflow | JobMissing
  | NotRunnable | AttemptOverflow | NoProcessState | NotQueued | InitialPlan | NonResumable
  | CannotPause | CannotCancel | NotPaused | NoPauseRequest | NotTerminal | NotRecoverable
  | CleanupFailed string | AlreadyInitialized

definition contract :: "contract_error + 'a \<Rightarrow> store_error + 'a" where "contract m = map_err Contract m"

section \<open>Constants\<close>

definition REGISTRY_SCHEMA :: string where "REGISTRY_SCHEMA = ''denoize-ipc-registry-v1''"
definition QUEUE_SCHEMA :: string where "QUEUE_SCHEMA = ''denoize-ipc-queue-v1''"
definition JOB_RECEIPT_SUFFIX :: string where "JOB_RECEIPT_SUFFIX = ''.receipt.json''"
definition TOKEN_DIGEST_DOMAIN :: "u8 list" where
  "TOKEN_DIGEST_DOMAIN = as_bytes ''denoize-ipc-bearer-token-v1'' @ [0]"
definition ORPHAN_LEASE_TEXT :: string where
  "ORPHAN_LEASE_TEXT = ''waiting for an orphaned IPC child lease''"
definition RESUMING_TEXT :: string where
  "RESUMING_TEXT = ''resuming from the last verified checkpoint''"
definition FORCED_SHUTDOWN_TEXT :: string where
  "FORCED_SHUTDOWN_TEXT = ''cancelled by forced IPC shutdown''"

section \<open>Helpers\<close>

definition random_id :: "string \<Rightarrow> u8 list option \<Rightarrow> store_error + string" where
  "random_id prefix_text bytes =
    and_then (ok_or bytes RandomFailed) (\<lambda>b. Inr (prefix_text @ CHR ''-'' # encode_hex b))"

definition random_token :: "store_env \<Rightarrow> u8 list option \<Rightarrow> store_error + string" where
  "random_token env bytes = and_then (ok_or bytes RandomFailed) (\<lambda>b. Inr (se_base64_url env b))"

definition token_digest :: "store_env \<Rightarrow> string \<Rightarrow> string" where
  "token_digest env token = encode_hex (se_hmac env (as_bytes token) TOKEN_DIGEST_DOMAIN)"

text \<open>\<open>bounded_text\<close>: cut at a character boundary, with an ellipsis of three bytes.\<close>

fun boundary_below :: "string \<Rightarrow> nat \<Rightarrow> nat" where
  "boundary_below value 0 = 0"
| "boundary_below value (Suc n) =
    (if is_char_boundary value (Suc n) then Suc n else boundary_below value n)"

definition bounded_text :: "string \<Rightarrow> nat \<Rightarrow> string" where
  "bounded_text value limit =
    (if length value \<le> limit then value
     else take (boundary_below value (limit - 3)) value @ [CHR 0xE2, CHR 0x80, CHR 0xA6])"

definition history_status :: "history_entry \<Rightarrow> string option \<Rightarrow> job_status" where
  "history_status e error =
    \<lparr>st_schema = IPC_JOB_STATUS_SCHEMA, st_schema_version = IPC_SCHEMA_VERSION, st_job_id = he_job_id e,
     st_state = he_state e, st_kind = he_kind e, st_priority = he_priority e, st_queue_position = None,
     st_submitted_at_unix_millis = he_submitted_at_unix_millis e,
     st_started_at_unix_millis = he_started_at_unix_millis e,
     st_finished_at_unix_millis = Some (he_finished_at_unix_millis e), st_attempt = he_attempt e,
     st_resumable = resumable (he_kind e), st_plan_digest = he_plan_digest e,
     st_receipt = he_receipt e, st_error = error\<rparr>"

definition new_grant_summary :: "string \<Rightarrow> string \<Rightarrow> grant_policy \<Rightarrow> u64 \<Rightarrow> grant_summary" where
  "new_grant_summary server_id grant_id policy issued =
    \<lparr>sum_schema = IPC_CAPABILITY_SCHEMA, sum_schema_version = IPC_SCHEMA_VERSION,
     sum_server_id = server_id, sum_grant_id = grant_id, sum_policy = policy,
     sum_issued_at_unix_millis = issued, sum_revoked_at_unix_millis = None\<rparr>"

section \<open>Validation of the state\<close>

definition validate_admin_policy :: "grant_policy \<Rightarrow> store_error + unit" where
  "validate_admin_policy p =
    fail_if (pol_label p \<noteq> ''administrator'' \<or> ManageGrants \<notin> set (pol_capabilities p)
        \<or> Shutdown \<notin> set (pol_capabilities p) \<or> pol_input_roots p \<noteq> [] \<or> pol_output_roots p \<noteq> []
        \<or> pol_max_priority p \<noteq> 100 \<or> pol_expires_at_unix_millis p \<noteq> None) (GrantError AdminPolicy)"

definition validate_stored_grant :: "string \<Rightarrow> string \<times> stored_grant \<Rightarrow> store_error + unit" where
  "validate_stored_grant server_id = (\<lambda>(id, grant).
    and_then (contract (validate_id id)) (\<lambda>_.
    and_then (fail_if (sum_grant_id (sg_summary grant) \<noteq> id \<or> sum_server_id (sg_summary grant) \<noteq> server_id)
      (GrantError GrantIdentity)) (\<lambda>_.
    and_then (fail_if (length (sg_token_digest grant) \<noteq> 64 \<or> \<not> list_all is_ascii_hexdigit (sg_token_digest grant))
      (GrantError TokenDigestFormat)) (\<lambda>_.
    if pol_label (sum_policy (sg_summary grant)) = ''administrator''
    then validate_admin_policy (sum_policy (sg_summary grant))
    else contract (policy_validate (sum_policy (sg_summary grant)))))))"

definition validate_registry :: "registry_state \<Rightarrow> store_error + unit" where
  "validate_registry r =
    and_then (fail_if (reg_schema r \<noteq> REGISTRY_SCHEMA \<or> reg_schema_version r \<noteq> IPC_SCHEMA_VERSION)
      (GrantError RegistrySchema)) (\<lambda>_.
    and_then (contract (validate_id (reg_server_id r))) (\<lambda>_.
    and_then (contract (limits_validate (reg_limits r))) (\<lambda>_.
    and_then (fail_if (reg_grants r = [] \<or> 100000 < length (reg_grants r)) (GrantError GrantCount)) (\<lambda>_.
    try_all (validate_stored_grant (reg_server_id r)) (reg_grants r)))))"

definition validate_active_job :: "execution_plan serializer \<Rightarrow> string \<times> stored_job \<Rightarrow> store_error + unit" where
  "validate_active_job ser = (\<lambda>(id, job).
    and_then (fail_if (id \<noteq> st_job_id (job_status job) \<or> terminal (st_state (job_status job))) ActiveIdentity) (\<lambda>_.
    and_then (contract (job_status_validate (job_status job))) (\<lambda>_.
    and_then (contract (job_spec_validate (job_spec job))) (\<lambda>_.
    and_then (contract (dry_run_validate ser (job_dry_run job))) (\<lambda>_.
    fail_if (spec_kind (job_spec job) \<noteq> st_kind (job_status job)
        \<or> spec_priority (job_spec job) \<noteq> st_priority (job_status job)
        \<or> dry_plan_digest (job_dry_run job) \<noteq> st_plan_digest (job_status job)) ActiveContract)))))"

definition validate_history_record :: "stored_history_entry \<Rightarrow> store_error + unit" where
  "validate_history_record e =
    and_then (fail_if (\<not> terminal (he_state (hist_public e))) HistoryNonTerminal) (\<lambda>_.
    and_then (contract (validate_id (he_job_id (hist_public e)))) (\<lambda>_.
    and_then (contract (validate_id (hist_owner_grant_id e))) (\<lambda>_.
    and_then (contract (validate_digest (he_plan_digest (hist_public e)))) (\<lambda>_.
    fail_if (\<not> known_overwrite_policy (he_overwrite_policy (hist_public e)))
      (Contract (BadOverwritePolicy (he_overwrite_policy (hist_public e))))))))"

definition validate_queue :: "execution_plan serializer \<Rightarrow> queue_state \<Rightarrow> registry_state \<Rightarrow> store_error + unit" where
  "validate_queue ser q r =
    and_then (fail_if (q_schema q \<noteq> QUEUE_SCHEMA \<or> q_schema_version q \<noteq> IPC_SCHEMA_VERSION
        \<or> q_server_id q \<noteq> reg_server_id r) QueueSchema) (\<lambda>_.
    and_then (fail_if (unat (max_queue_entries (reg_limits r)) < length (q_jobs q)
        \<or> unat (max_history_entries (reg_limits r)) < length (q_history q)) QueueBounds) (\<lambda>_.
    and_then (try_all (validate_active_job ser) (q_jobs q)) (\<lambda>_.
    try_all validate_history_record (q_history q))))"

section \<open>Saving\<close>

definition save_registry :: "store_env \<Rightarrow> state_store \<Rightarrow> (store_error + unit) \<times> state_store" where
  "save_registry env s =
    (case checked_add (reg_generation (registry s)) 1 of
       None \<Rightarrow> (Inl (GrantError RegistryGeneration), s)
     | Some g \<Rightarrow>
         let r = (registry s)\<lparr>reg_generation := g\<rparr>; s' = s\<lparr>registry := r\<rparr>
         in case validate_registry r of
              Inl e \<Rightarrow> (Inl e, s')
            | Inr _ \<Rightarrow> (case se_write_registry env r (registry_file s) of
                (written, disk) \<Rightarrow> (if written then Inr () else Inl WriteFailed, s'\<lparr>registry_file := disk\<rparr>)))"

definition save_queue :: "store_env \<Rightarrow> state_store \<Rightarrow> (store_error + unit) \<times> state_store" where
  "save_queue env s =
    (case checked_add (q_generation (queue s)) 1 of
       None \<Rightarrow> (Inl QueueGeneration, s)
     | Some g \<Rightarrow>
         let q = (queue s)\<lparr>q_generation := g\<rparr>; s' = s\<lparr>queue := q\<rparr>
         in case validate_queue (se_ser_plan env) q (registry s) of
              Inl e \<Rightarrow> (Inl e, s')
            | Inr _ \<Rightarrow> (case se_write_queue env q (queue_file s) of
                (written, disk) \<Rightarrow> (if written then Inr () else Inl WriteFailed, s'\<lparr>queue_file := disk\<rparr>)))"

section \<open>Opening\<close>

definition receipt_name :: "string \<Rightarrow> string" where "receipt_name job_id = job_id @ JOB_RECEIPT_SUFFIX"

definition strip_suffix :: "string \<Rightarrow> string \<Rightarrow> string option" where
  "strip_suffix name suffix =
    (if is_prefix (rev suffix) (rev name) then Some (take (length name - length suffix) name) else None)"

definition orphaned :: "state_store \<Rightarrow> string \<Rightarrow> bool" where
  "orphaned s name =
    (case strip_suffix name JOB_RECEIPT_SUFFIX of None \<Rightarrow> False
     | Some job_id \<Rightarrow> is_prefix ''job-'' job_id \<and> is_ok (validate_id job_id)
         \<and> job_id \<notin> set (map fst (q_jobs (queue s))) \<union> set (map (\<lambda>e. he_job_id (hist_public e)) (q_history (queue s))))"

fun cleanup_files :: "store_env \<Rightarrow> state_store \<Rightarrow> string list \<Rightarrow> (store_error + unit) \<times> state_store" where
  "cleanup_files env s [] = (Inr (), s)"
| "cleanup_files env s (name # names) =
    (if orphaned s name
     then if se_removable env name
          then cleanup_files env (s\<lparr>state_files := removeAll name (state_files s)\<rparr>) names
          else (Inl (CleanupFailed name), s)
     else cleanup_files env s names)"

definition cleanup_unreferenced_receipts :: "store_env \<Rightarrow> state_store \<Rightarrow> (store_error + unit) \<times> state_store" where
  "cleanup_unreferenced_receipts env s = cleanup_files env s (state_files s)"

definition store_open ::
  "store_env \<Rightarrow> registry_state \<Rightarrow> queue_state \<Rightarrow> string list \<Rightarrow> store_error + state_store" where
  "store_open env registry_document queue_document files =
    and_then (validate_registry registry_document) (\<lambda>_.
    and_then (validate_queue (se_ser_plan env) queue_document registry_document) (\<lambda>_.
    let s = \<lparr>registry = registry_document, queue = queue_document, registry_file = registry_document,
             queue_file = queue_document, state_files = files\<rparr>
    in case cleanup_unreferenced_receipts env s of
         (Inl e, _) \<Rightarrow> Inl e
       | (Inr _, s') \<Rightarrow> Inr s'))"

definition admin_policy :: grant_policy where
  "admin_policy = canonicalize_policy \<lparr>pol_label = ''administrator'',
     pol_capabilities = [ReadAll, ControlAll, ManageGrants, Shutdown], pol_input_roots = [],
     pol_output_roots = [], pol_max_priority = 100, pol_expires_at_unix_millis = None\<rparr>"

text \<open>
  The documents that \<open>initialize\<close> creates, before it writes them one after the other; the
  caller has found no registry and no administrator document.
\<close>

definition initialize_documents ::
  "store_env \<Rightarrow> ipc_limits \<Rightarrow> u64 \<Rightarrow> u8 list option \<Rightarrow> u8 list option \<Rightarrow> u8 list option
     \<Rightarrow> store_error + registry_state \<times> queue_state \<times> grant_document" where
  "initialize_documents env limits now server_bytes grant_bytes token_bytes =
    and_then (contract (limits_validate limits)) (\<lambda>_.
    and_then (random_id ''srv'' server_bytes) (\<lambda>server_id.
    and_then (random_id ''grant'' grant_bytes) (\<lambda>grant_id.
    and_then (random_token env token_bytes) (\<lambda>token.
    and_then (validate_admin_policy admin_policy) (\<lambda>_.
    let document = \<lparr>doc_schema = IPC_GRANT_SCHEMA, doc_schema_version = IPC_SCHEMA_VERSION,
          doc_server_id = server_id, doc_grant_id = grant_id, doc_token = token,
          doc_policy = admin_policy, doc_issued_at_unix_millis = now\<rparr>;
        registry = \<lparr>reg_schema = REGISTRY_SCHEMA, reg_schema_version = IPC_SCHEMA_VERSION,
          reg_server_id = server_id, reg_generation = 1, reg_limits = limits,
          reg_grants = [(grant_id, \<lparr>sg_summary = new_grant_summary server_id grant_id admin_policy now,
            sg_token_digest = token_digest env token\<rparr>)]\<rparr>;
        queue = \<lparr>q_schema = QUEUE_SCHEMA, q_schema_version = IPC_SCHEMA_VERSION, q_server_id = server_id,
          q_generation = 1, q_next_sequence = 1, q_jobs = [], q_history = []\<rparr>
    in and_then (contract (grant_document_validate document)) (\<lambda>_.
       and_then (validate_registry registry) (\<lambda>_.
       and_then (validate_queue (se_ser_plan env) queue registry) (\<lambda>_.
       Inr (registry, queue, document)))))))))"

section \<open>Grants\<close>

definition authenticate ::
  "store_env \<Rightarrow> state_store \<Rightarrow> string \<Rightarrow> string \<Rightarrow> string \<Rightarrow> u64 \<Rightarrow> store_error + authenticated_grant" where
  "authenticate env s server_id grant_id token now =
    and_then (fail_if (server_id \<noteq> reg_server_id (registry s)) (GrantError DifferentServer)) (\<lambda>_.
    and_then (ok_or (map_of (reg_grants (registry s)) grant_id) (GrantError GrantUnknown)) (\<lambda>grant.
    and_then (fail_if (sum_revoked_at_unix_millis (sg_summary grant) \<noteq> None) (GrantError GrantRevoked)) (\<lambda>_.
    and_then (fail_if (case pol_expires_at_unix_millis (sum_policy (sg_summary grant)) of
        None \<Rightarrow> False | Some expiry \<Rightarrow> expiry \<le> now) (GrantError GrantExpired)) (\<lambda>_.
    and_then (ok_or (decode_hex (sg_token_digest grant)) (GrantError InvalidTokenDigest)) (\<lambda>expected.
    and_then (fail_if (se_hmac env (as_bytes token) TOKEN_DIGEST_DOMAIN \<noteq> expected)
      (GrantError AuthenticationFailed)) (\<lambda>_.
    Inr \<lparr>auth_grant_id = grant_id, auth_policy = sum_policy (sg_summary grant)\<rparr>))))))"

definition canonical_directory :: "store_env \<Rightarrow> string \<Rightarrow> store_error + path" where
  "canonical_directory env root =
    (let p = path_of root in
     and_then (fail_if (\<not> is_absolute p) (PathError RootNotAbsolute)) (\<lambda>_.
     and_then (ok_or (se_canonicalize env p) (PathError RootUnresolvable)) (\<lambda>resolved.
     and_then (fail_if (\<not> se_is_dir env resolved) (PathError RootNotDirectory)) (\<lambda>_. Inr resolved))))"

definition normalize_roots :: "store_env \<Rightarrow> string list \<Rightarrow> store_error + string list" where
  "normalize_roots env roots =
    and_then (try_map (canonical_directory env) roots) (\<lambda>paths.
    Inr (map (\<lambda>p. to_string_lossy (path_string p)) paths))"

definition normalize_policy_roots :: "store_env \<Rightarrow> grant_policy \<Rightarrow> store_error + grant_policy" where
  "normalize_policy_roots env p =
    and_then (normalize_roots env (pol_input_roots p)) (\<lambda>input_roots.
    and_then (normalize_roots env (pol_output_roots p)) (\<lambda>output_roots.
    Inr (p\<lparr>pol_input_roots := remdups_adj (sort input_roots),
           pol_output_roots := remdups_adj (sort output_roots)\<rparr>)))"

definition create_grant ::
  "store_env \<Rightarrow> grant_policy \<Rightarrow> u64 \<Rightarrow> u8 list option \<Rightarrow> u8 list option \<Rightarrow> state_store
     \<Rightarrow> (store_error + grant_document) \<times> state_store" where
  "create_grant env requested now grant_bytes token_bytes s =
    (case and_then (normalize_policy_roots env (canonicalize_policy requested)) (\<lambda>policy.
          and_then (contract (policy_validate policy)) (\<lambda>_.
          and_then (random_id ''grant'' grant_bytes) (\<lambda>grant_id.
          and_then (random_token env token_bytes) (\<lambda>token.
          let document = \<lparr>doc_schema = IPC_GRANT_SCHEMA, doc_schema_version = IPC_SCHEMA_VERSION,
                doc_server_id = reg_server_id (registry s), doc_grant_id = grant_id, doc_token = token,
                doc_policy = policy, doc_issued_at_unix_millis = now\<rparr>
          in and_then (contract (grant_document_validate document)) (\<lambda>_. Inr document))))) of
       Inl e \<Rightarrow> (Inl e, s)
     | Inr document \<Rightarrow>
         let grant = \<lparr>sg_summary = new_grant_summary (reg_server_id (registry s)) (doc_grant_id document)
                 (doc_policy document) now, sg_token_digest = token_digest env (doc_token document)\<rparr>;
             r = registry s
         in st_then (save_registry env
              (s\<lparr>registry := r\<lparr>reg_grants := bt_insert (doc_grant_id document) grant (reg_grants r)\<rparr>\<rparr>))
            (\<lambda>_ s'. (Inr document, s')))"

definition manages :: "stored_grant \<Rightarrow> bool" where
  "manages grant \<longleftrightarrow> ManageGrants \<in> set (pol_capabilities (sum_policy (sg_summary grant)))"

definition live_manager :: "stored_grant \<Rightarrow> bool" where
  "live_manager grant \<longleftrightarrow> sum_revoked_at_unix_millis (sg_summary grant) = None \<and> manages grant"

definition mark_revoked :: "u64 \<Rightarrow> stored_grant \<Rightarrow> stored_grant" where
  "mark_revoked now grant =
    grant\<lparr>sg_summary := (sg_summary grant)\<lparr>sum_revoked_at_unix_millis :=
      (case sum_revoked_at_unix_millis (sg_summary grant) of None \<Rightarrow> Some now | Some t \<Rightarrow> Some t)\<rparr>\<rparr>"

definition revoke_grant :: "store_env \<Rightarrow> string \<Rightarrow> u64 \<Rightarrow> state_store \<Rightarrow> (store_error + unit) \<times> state_store" where
  "revoke_grant env grant_id now s =
    (let r = registry s;
         final_manager = (length (filter live_manager (map snd (reg_grants r))) = 1)
     in case map_of (reg_grants r) grant_id of
          None \<Rightarrow> (Inl (GrantError GrantMissing), s)
        | Some grant \<Rightarrow>
            if manages grant \<and> final_manager then (Inl (GrantError FinalManager), s)
            else save_registry env
              (s\<lparr>registry := r\<lparr>reg_grants := bt_update (mark_revoked now) grant_id (reg_grants r)\<rparr>\<rparr>))"

definition list_grants :: "state_store \<Rightarrow> u32 \<Rightarrow> grant_summary list" where
  "list_grants s limit = map sg_summary (take (unat limit) (rev (map snd (reg_grants (registry s)))))"

section \<open>Paths of a job\<close>

definition require_below_roots :: "path \<Rightarrow> string list \<Rightarrow> string \<Rightarrow> store_error + unit" where
  "require_below_roots p roots label =
    fail_if (\<not> list_ex (\<lambda>root. starts_with p (path_of root)) roots) (PathError (OutsideRoots label))"

text \<open>Walk up to the first ancestor that exists; the names below it, outermost first.\<close>

function existing_ancestor :: "store_env \<Rightarrow> path \<Rightarrow> string list \<Rightarrow> store_error + path \<times> string list" where
  "existing_ancestor env ancestor suffix =
    (case se_metadata env ancestor of
       Found \<Rightarrow> Inr (ancestor, suffix)
     | Unreadable \<Rightarrow> Inl (PathError OutputUninspectable)
     | NotFound \<Rightarrow> (case file_name ancestor of
         None \<Rightarrow> Inl (PathError FutureUnresolvable)
       | Some name \<Rightarrow> (case parent ancestor of
           None \<Rightarrow> Inl (PathError FutureUnresolvable)
         | Some up \<Rightarrow> existing_ancestor env up (name # suffix))))"
  by pat_completeness auto

termination
  by (relation "measure (\<lambda>(env, ancestor, suffix). length ancestor)")
    (auto simp: parent_def split: if_splits)

declare existing_ancestor.simps [simp del]

definition resolve_future_path :: "store_env \<Rightarrow> path \<Rightarrow> store_error + path" where
  "resolve_future_path env p =
    and_then (fail_if (\<not> is_absolute p) (PathError PathNotAbsolute)) (\<lambda>_.
    and_then (fail_if (ParentDir \<in> set p) (PathError ParentComponent)) (\<lambda>_.
    and_then (existing_ancestor env p []) (\<lambda>(ancestor, suffix).
    and_then (ok_or (se_canonicalize env ancestor) (PathError FutureUnresolvable)) (\<lambda>resolved.
    Inr (fold (\<lambda>name q. push q [Normal name]) suffix resolved)))))"

definition authorize_job_paths ::
  "store_env \<Rightarrow> authenticated_grant \<Rightarrow> job_spec \<Rightarrow> store_error + path \<times> path" where
  "authorize_job_paths env grant job =
    and_then (ok_or (se_canonicalize env (path_of (spec_input job))) (PathError InputUnresolvable)) (\<lambda>input.
    and_then (resolve_future_path env (path_of (spec_output job))) (\<lambda>out.
    and_then (require_below_roots input (pol_input_roots (auth_policy grant)) ''input'') (\<lambda>_.
    and_then (require_below_roots out (pol_output_roots (auth_policy grant)) ''output'') (\<lambda>_.
    Inr (input, out)))))"

definition validate_bound_job_paths :: "store_env \<Rightarrow> job_spec \<Rightarrow> store_error + unit" where
  "validate_bound_job_paths env job =
    (let expected_input = path_of (spec_input job); expected_output = path_of (spec_output job) in
     and_then (ok_or (se_canonicalize env expected_input) (PathError InputUnresolvable)) (\<lambda>input.
     and_then (fail_if (input \<noteq> expected_input) (PathError InputMoved)) (\<lambda>_.
     and_then (resolve_future_path env expected_output) (\<lambda>out.
     fail_if (out \<noteq> expected_output) (PathError OutputMoved)))))"

end
