(* ===== verification/Ipc_Queue.thy ===== *)
theory Ipc_Queue
  imports Ipc_Store
begin

text \<open>
  The job queue of the server (\<open>src/src/ipc/storage.rs\<close>, the second \<open>impl StateStore\<close>):
  submission, selection by priority and age, every state transition of a job, recovery after
  a restart, and the bounded history. Each operation is a function of the store; what it
  mutates before an error stays mutated.
\<close>

section \<open>Reading the queue\<close>

definition active_jobs :: "state_store \<Rightarrow> stored_job list" where
  "active_jobs s = map snd (q_jobs (queue s))"

definition is_queued :: "stored_job \<Rightarrow> bool" where
  "is_queued job \<longleftrightarrow> st_state (job_status job) = Queued"

text \<open>The order of service: higher priority first, then the earlier submission.\<close>

definition service_key :: "stored_job \<Rightarrow> int \<times> u64" where
  "service_key job = (- st_priority (job_status job), job_sequence job)"

fun position_of :: "('a \<Rightarrow> bool) \<Rightarrow> 'a list \<Rightarrow> nat option" where
  "position_of P [] = None"
| "position_of P (x # xs) = (if P x then Some 0 else map_option Suc (position_of P xs))"

definition status_with_position :: "state_store \<Rightarrow> string \<Rightarrow> job_status option" where
  "status_with_position s job_id =
    map_option (\<lambda>job.
      if is_queued job
      then (job_status job)\<lparr>st_queue_position :=
        Option.bind (position_of (\<lambda>candidate. st_job_id (job_status candidate) = job_id)
            (sort_key service_key (filter is_queued (active_jobs s))))
          (\<lambda>position. if position + 1 < 2 ^ 32 then Some (word_of_nat (position + 1)) else None)\<rparr>
      else job_status job) (map_of (q_jobs (queue s)) job_id)"

definition status_or :: "state_store \<Rightarrow> string \<Rightarrow> job_status \<Rightarrow> job_status" where
  "status_or s job_id status = (case status_with_position s job_id of None \<Rightarrow> status | Some st \<Rightarrow> st)"

definition store_status :: "state_store \<Rightarrow> string \<Rightarrow> (string \<times> job_status) option" where
  "store_status s job_id =
    (case map_of (q_jobs (queue s)) job_id of
       Some job \<Rightarrow> Some (job_owner_grant_id job, status_or s job_id (job_status job))
     | None \<Rightarrow> map_option (\<lambda>e. (hist_owner_grant_id e, history_status (hist_public e) (hist_error e)))
         (find (\<lambda>e. he_job_id (hist_public e) = job_id) (q_history (queue s))))"

definition owned_by :: "string option \<Rightarrow> string \<Rightarrow> bool" where
  "owned_by filter_owner owner = (case filter_owner of None \<Rightarrow> True | Some o' \<Rightarrow> owner = o')"

text \<open>A stable sort in decreasing order of submission time, then of identity.\<close>

definition list_jobs :: "state_store \<Rightarrow> u32 \<Rightarrow> string option \<Rightarrow> (string \<times> job_status) list" where
  "list_jobs s limit owner_grant_id =
    (let jobs = map (\<lambda>(id, job). (job_owner_grant_id job, status_or s id (job_status job)))
           (filter (\<lambda>(id, job). owned_by owner_grant_id (job_owner_grant_id job)) (q_jobs (queue s)))
     in take (unat limit)
          (rev (sort_key (\<lambda>(_, st). (st_submitted_at_unix_millis st, st_job_id st)) (rev jobs))))"

definition store_history :: "state_store \<Rightarrow> u32 \<Rightarrow> string option \<Rightarrow> (string \<times> history_entry) list" where
  "store_history s limit owner_grant_id =
    map (\<lambda>e. (hist_owner_grant_id e, hist_public e))
      (take (unat limit) (filter (\<lambda>e. owned_by owner_grant_id (hist_owner_grant_id e)) (rev (q_history (queue s)))))"

text \<open>\<open>max_by\<close> keeps the last of equal elements.\<close>

definition better :: "stored_job \<Rightarrow> stored_job option \<Rightarrow> stored_job option" where
  "better job best =
    (case best of None \<Rightarrow> Some job
     | Some b \<Rightarrow> if service_key b < service_key job then Some b else Some job)"

definition next_job :: "state_store \<Rightarrow> stored_job option" where
  "next_job s = fold better (filter is_queued (active_jobs s)) None"

definition in_recovery :: "stored_job \<Rightarrow> bool" where
  "in_recovery job \<longleftrightarrow> st_state (job_status job) \<in> {Recovering, PauseRequested, CancelRequested}"

definition recovery_jobs :: "state_store \<Rightarrow> stored_job list" where
  "recovery_jobs s = filter in_recovery (active_jobs s)"

section \<open>Submission\<close>

definition new_job_status :: "string \<Rightarrow> job_spec \<Rightarrow> dry_run_report \<Rightarrow> u64 \<Rightarrow> job_status" where
  "new_job_status job_id spec dry_run now =
    \<lparr>st_schema = IPC_JOB_STATUS_SCHEMA, st_schema_version = IPC_SCHEMA_VERSION, st_job_id = job_id,
     st_state = Queued, st_kind = spec_kind spec, st_priority = spec_priority spec,
     st_queue_position = None, st_submitted_at_unix_millis = now, st_started_at_unix_millis = None,
     st_finished_at_unix_millis = None, st_attempt = 0, st_resumable = resumable (spec_kind spec),
     st_plan_digest = dry_plan_digest dry_run, st_receipt = None, st_error = None\<rparr>"

definition insert_job ::
  "store_env \<Rightarrow> string \<Rightarrow> job_spec \<Rightarrow> dry_run_report \<Rightarrow> u64 \<Rightarrow> u8 list option \<Rightarrow> state_store
     \<Rightarrow> (store_error + job_status) \<times> state_store" where
  "insert_job env owner_grant_id spec dry_run now id_bytes s =
    (let q = queue s in
     if unat (max_queue_entries (reg_limits (registry s))) \<le> length (q_jobs q) then (Inl QueueFull, s)
     else case and_then (contract (job_spec_validate spec)) (\<lambda>_.
            and_then (contract (dry_run_validate (se_ser_plan env) dry_run)) (\<lambda>_.
            ok_or (checked_add (q_next_sequence q) 1) SequenceOverflow)) of
       Inl e \<Rightarrow> (Inl e, s)
     | Inr next \<Rightarrow>
         let s1 = s\<lparr>queue := q\<lparr>q_next_sequence := next\<rparr>\<rparr>
         in case and_then (random_id ''job'' id_bytes) (\<lambda>job_id.
              let status = new_job_status job_id spec dry_run now
              in and_then (contract (job_status_validate status)) (\<lambda>_. Inr status)) of
           Inl e \<Rightarrow> (Inl e, s1)
         | Inr status \<Rightarrow>
             let job = \<lparr>job_status = status, job_owner_grant_id = owner_grant_id,
                   job_sequence = q_next_sequence q, job_spec = spec, job_dry_run = dry_run,
                   job_process_id = None\<rparr>;
                 s2 = s1\<lparr>queue := (queue s1)\<lparr>q_jobs := bt_insert (st_job_id status) job (q_jobs q)\<rparr>\<rparr>
             in st_then (save_queue env s2) (\<lambda>_ s3. (Inr (status_or s3 (st_job_id status) status), s3)))"

section \<open>Transitions of one job\<close>

definition update_job :: "(stored_job \<Rightarrow> stored_job) \<Rightarrow> string \<Rightarrow> state_store \<Rightarrow> state_store" where
  "update_job f job_id s = s\<lparr>queue := (queue s)\<lparr>q_jobs := bt_update f job_id (q_jobs (queue s))\<rparr>\<rparr>"

definition set_state :: "job_state \<Rightarrow> stored_job \<Rightarrow> stored_job" where
  "set_state st job = job\<lparr>job_status := (job_status job)\<lparr>st_state := st\<rparr>\<rparr>"

definition start_attempt :: "u64 \<Rightarrow> stored_job \<Rightarrow> stored_job" where
  "start_attempt now job =
    job\<lparr>job_status := (job_status job)\<lparr>st_state := Running,
      st_started_at_unix_millis := (case st_started_at_unix_millis (job_status job) of
        None \<Rightarrow> Some now | Some t \<Rightarrow> Some t)\<rparr>\<rparr>"

definition count_attempt :: "u32 \<Rightarrow> u32 \<Rightarrow> stored_job \<Rightarrow> stored_job" where
  "count_attempt attempt process_id job =
    job\<lparr>job_status := (job_status job)\<lparr>st_attempt := attempt, st_queue_position := None, st_error := None\<rparr>,
        job_process_id := Some process_id\<rparr>"

definition mark_running ::
  "store_env \<Rightarrow> string \<Rightarrow> u32 \<Rightarrow> u64 \<Rightarrow> state_store \<Rightarrow> (store_error + job_status) \<times> state_store" where
  "mark_running env job_id process_id now s =
    (case map_of (q_jobs (queue s)) job_id of
       None \<Rightarrow> (Inl JobMissing, s)
     | Some job \<Rightarrow>
         if st_state (job_status job) \<noteq> Queued \<and> st_state (job_status job) \<noteq> Paused then (Inl NotRunnable, s)
         else case checked_add (st_attempt (job_status job)) 1 of
                None \<Rightarrow> (Inl AttemptOverflow, update_job (start_attempt now) job_id s)
              | Some attempt \<Rightarrow>
                  let f = count_attempt attempt process_id \<circ> start_attempt now
                  in st_then (save_queue env (update_job f job_id s)) (\<lambda>_ s'. (Inr (job_status (f job)), s')))"

definition update_process_id ::
  "store_env \<Rightarrow> string \<Rightarrow> u32 \<Rightarrow> state_store \<Rightarrow> (store_error + unit) \<times> state_store" where
  "update_process_id env job_id process_id s =
    (case map_of (q_jobs (queue s)) job_id of
       None \<Rightarrow> (Inl JobMissing, s)
     | Some job \<Rightarrow>
         if st_state (job_status job) \<notin> {Running, PauseRequested, CancelRequested, Recovering}
         then (Inl NoProcessState, s)
         else save_queue env (update_job (\<lambda>j. j\<lparr>job_process_id := Some process_id\<rparr>) job_id s))"

definition set_dry_run :: "dry_run_report \<Rightarrow> stored_job \<Rightarrow> stored_job" where
  "set_dry_run dry_run job =
    job\<lparr>job_status := (job_status job)\<lparr>st_plan_digest := dry_plan_digest dry_run\<rparr>, job_dry_run := dry_run\<rparr>"

definition replace_dry_run ::
  "store_env \<Rightarrow> string \<Rightarrow> dry_run_report \<Rightarrow> state_store \<Rightarrow> (store_error + job_status) \<times> state_store" where
  "replace_dry_run env job_id dry_run s =
    (case contract (dry_run_validate (se_ser_plan env) dry_run) of
       Inl e \<Rightarrow> (Inl e, s)
     | Inr _ \<Rightarrow> (case map_of (q_jobs (queue s)) job_id of
         None \<Rightarrow> (Inl JobMissing, s)
       | Some job \<Rightarrow>
           if st_state (job_status job) \<noteq> Queued then (Inl NotQueued, s)
           else if st_attempt (job_status job) = 0 then (Inl InitialPlan, s)
           else st_then (save_queue env (update_job (set_dry_run dry_run) job_id s))
             (\<lambda>_ s'. (Inr (status_or s' job_id (job_status (set_dry_run dry_run job))), s'))))"

definition control_target :: "bool \<Rightarrow> stored_job \<Rightarrow> store_error + job_state" where
  "control_target pause job =
    (if pause
     then if \<not> st_resumable (job_status job) then Inl NonResumable
          else if st_state (job_status job) \<in> {Running, Recovering} then Inr PauseRequested
          else if st_state (job_status job) = Queued then Inr Paused
          else Inl CannotPause
     else if st_state (job_status job) \<in> {Queued, Paused, Running, Recovering, PauseRequested}
          then Inr CancelRequested
          else Inl CannotCancel)"

definition request_control ::
  "store_env \<Rightarrow> string \<Rightarrow> bool \<Rightarrow> state_store \<Rightarrow> (store_error + stored_job \<times> job_status) \<times> state_store" where
  "request_control env job_id pause s =
    (case map_of (q_jobs (queue s)) job_id of
       None \<Rightarrow> (Inl JobMissing, s)
     | Some job \<Rightarrow> (case control_target pause job of
         Inl e \<Rightarrow> (Inl e, s)
       | Inr target \<Rightarrow>
           st_then (save_queue env (update_job (set_state target) job_id s))
             (\<lambda>_ s'. (Inr (set_state target job, job_status (set_state target job)), s'))))"

definition resume :: "store_env \<Rightarrow> string \<Rightarrow> state_store \<Rightarrow> (store_error + job_status) \<times> state_store" where
  "resume env job_id s =
    (case map_of (q_jobs (queue s)) job_id of
       None \<Rightarrow> (Inl JobMissing, s)
     | Some job \<Rightarrow>
         if st_state (job_status job) \<noteq> Paused then (Inl NotPaused, s)
         else st_then (save_queue env (update_job (set_state Queued) job_id s))
           (\<lambda>_ s'. (Inr (status_or s' job_id (job_status (set_state Queued job))), s')))"

definition clear_process :: "stored_job \<Rightarrow> stored_job" where
  "clear_process job = job\<lparr>job_process_id := None\<rparr>"

definition mark_paused :: "store_env \<Rightarrow> string \<Rightarrow> state_store \<Rightarrow> (store_error + job_status) \<times> state_store" where
  "mark_paused env job_id s =
    (case map_of (q_jobs (queue s)) job_id of
       None \<Rightarrow> (Inl JobMissing, s)
     | Some job \<Rightarrow>
         if st_state (job_status job) \<noteq> PauseRequested then (Inl NoPauseRequest, s)
         else st_then (save_queue env (update_job (clear_process \<circ> set_state Paused) job_id s))
           (\<lambda>_ s'. (Inr (job_status (set_state Paused job)), s')))"

section \<open>The end of a job\<close>

definition finish_job :: "job_state \<Rightarrow> file_fingerprint option \<Rightarrow> string option \<Rightarrow> u64 \<Rightarrow> stored_job \<Rightarrow> stored_job" where
  "finish_job st receipt error now job =
    job\<lparr>job_status := (job_status job)\<lparr>st_state := st, st_finished_at_unix_millis := Some now,
          st_receipt := receipt, st_error := map_option (\<lambda>value. bounded_text value 4096) error,
          st_queue_position := None\<rparr>,
        job_process_id := None\<rparr>"

definition history_record :: "stored_job \<Rightarrow> u64 \<Rightarrow> string option \<Rightarrow> stored_history_entry" where
  "history_record job now error_code =
    \<lparr>hist_public = \<lparr>he_job_id = st_job_id (job_status job), he_state = st_state (job_status job),
       he_kind = st_kind (job_status job), he_priority = st_priority (job_status job),
       he_submitted_at_unix_millis = st_submitted_at_unix_millis (job_status job),
       he_started_at_unix_millis = st_started_at_unix_millis (job_status job),
       he_finished_at_unix_millis = now, he_attempt = st_attempt (job_status job),
       he_plan_digest = st_plan_digest (job_status job), he_resources = dry_resources (job_dry_run job),
       he_destinations = dry_destinations (job_dry_run job),
       he_overwrite_policy = dry_overwrite_policy (job_dry_run job),
       he_receipt = st_receipt (job_status job), he_error_code = error_code\<rparr>,
     hist_owner_grant_id = job_owner_grant_id job, hist_error = st_error (job_status job)\<rparr>"

text \<open>Dropped history entries lose their receipt files; a failing removal is only reported.\<close>

definition prune_receipts :: "store_env \<Rightarrow> string list \<Rightarrow> state_store \<Rightarrow> state_store" where
  "prune_receipts env job_ids s =
    s\<lparr>state_files := filter (\<lambda>name. \<not> (name \<in> receipt_name ` set job_ids \<and> se_removable env name)) (state_files s)\<rparr>"

definition terminalize ::
  "store_env \<Rightarrow> string \<Rightarrow> job_state \<Rightarrow> file_fingerprint option \<Rightarrow> string option \<Rightarrow> string option \<Rightarrow> u64
     \<Rightarrow> state_store \<Rightarrow> (store_error + job_status) \<times> state_store" where
  "terminalize env job_id st receipt error error_code now s =
    (if \<not> terminal st then (Inl NotTerminal, s)
     else case map_of (q_jobs (queue s)) job_id of
       None \<Rightarrow> (Inl JobMissing, s)
     | Some stored \<Rightarrow>
         let q = queue s;
             job = finish_job st receipt error now stored;
             s1 = s\<lparr>queue := q\<lparr>q_jobs := bt_remove job_id (q_jobs q)\<rparr>\<rparr>
         in case contract (job_status_validate (job_status job)) of
              Inl e \<Rightarrow> (Inl e, s1)
            | Inr _ \<Rightarrow>
                let history = q_history q @ [history_record job now error_code];
                    limit = unat (max_history_entries (reg_limits (registry s)));
                    drop_count = length history - limit;
                    s2 = s1\<lparr>queue := (queue s1)\<lparr>q_history := drop drop_count history\<rparr>\<rparr>
                in st_then (save_queue env s2) (\<lambda>_ s3.
                     (Inr (job_status job),
                      prune_receipts env (map (\<lambda>e. he_job_id (hist_public e)) (take drop_count history)) s3)))"

section \<open>Recovery and shutdown\<close>

definition needs_recovery :: "stored_job \<Rightarrow> bool" where
  "needs_recovery job \<longleftrightarrow> st_state (job_status job) \<in> {Running, PauseRequested, CancelRequested, Recovering}"

definition orphan_running :: "stored_job \<Rightarrow> stored_job" where
  "orphan_running job =
    (if st_state (job_status job) = Running
     then job\<lparr>job_status := (job_status job)\<lparr>st_state := Recovering, st_error := Some ORPHAN_LEASE_TEXT\<rparr>\<rparr>
     else job)"

definition prepare_recovery :: "store_env \<Rightarrow> state_store \<Rightarrow> (store_error + unit) \<times> state_store" where
  "prepare_recovery env s =
    (let ids = map fst (filter (\<lambda>e. needs_recovery (snd e)) (q_jobs (queue s)))
     in if ids = [] then (Inr (), s) else save_queue env (fold (update_job orphan_running) ids s))"

definition requeue :: "stored_job \<Rightarrow> stored_job" where
  "requeue job =
    job\<lparr>job_status := (job_status job)\<lparr>st_state := Queued, st_error := Some RESUMING_TEXT\<rparr>,
        job_process_id := None\<rparr>"

definition requeue_recovered :: "store_env \<Rightarrow> string \<Rightarrow> state_store \<Rightarrow> (store_error + job_status) \<times> state_store" where
  "requeue_recovered env job_id s =
    (case map_of (q_jobs (queue s)) job_id of
       None \<Rightarrow> (Inl JobMissing, s)
     | Some job \<Rightarrow>
         if st_state (job_status job) \<noteq> Recovering \<or> \<not> st_resumable (job_status job) then (Inl NotRecoverable, s)
         else st_then (save_queue env (update_job requeue job_id s))
           (\<lambda>_ s'. (Inr (status_or s' job_id (job_status (requeue job))), s')))"

definition is_waiting :: "stored_job \<Rightarrow> bool" where
  "is_waiting job \<longleftrightarrow> st_state (job_status job) \<in> {Queued, Paused}"

fun cancel_each :: "store_env \<Rightarrow> u64 \<Rightarrow> string list \<Rightarrow> state_store \<Rightarrow> (store_error + unit) \<times> state_store" where
  "cancel_each env now [] s = (Inr (), s)"
| "cancel_each env now (job_id # ids) s =
    st_then (terminalize env job_id Cancelled None (Some FORCED_SHUTDOWN_TEXT) (Some ''cancelled'') now s)
      (\<lambda>_ s'. cancel_each env now ids s')"

definition is_interruptible :: "stored_job \<Rightarrow> bool" where
  "is_interruptible job \<longleftrightarrow> st_state (job_status job) \<in> {Running, Recovering, PauseRequested}"

definition interrupt_all :: "state_store \<Rightarrow> state_store" where
  "interrupt_all s =
    s\<lparr>queue := (queue s)\<lparr>q_jobs := map (\<lambda>e. (fst e,
      if is_interruptible (snd e) then set_state CancelRequested (snd e) else snd e)) (q_jobs (queue s))\<rparr>\<rparr>"

definition cancel_waiting_jobs :: "store_env \<Rightarrow> u64 \<Rightarrow> state_store \<Rightarrow> (store_error + unit) \<times> state_store" where
  "cancel_waiting_jobs env now s =
    st_then (cancel_each env now (map fst (filter (\<lambda>e. is_waiting (snd e)) (q_jobs (queue s)))) s)
      (\<lambda>_ s'. if list_ex is_interruptible (active_jobs s')
               then save_queue env (interrupt_all s') else (Inr (), s'))"

section \<open>The invariant\<close>

definition job_ok :: "execution_plan serializer \<Rightarrow> string \<Rightarrow> stored_job \<Rightarrow> bool" where
  "job_ok ser job_id job \<longleftrightarrow>
     validate_active_job ser (job_id, job) = Inr () \<and> validate_id (job_owner_grant_id job) = Inr ()"

definition store_inv :: "execution_plan serializer \<Rightarrow> state_store \<Rightarrow> bool" where
  "store_inv ser s \<longleftrightarrow>
     bt_wf (q_jobs (queue s))
   \<and> bt.all_entries (job_ok ser) (q_jobs (queue s))
   \<and> validate_queue ser (queue s) (registry s) = Inr ()
   \<and> bt.all_entries (\<lambda>_ job. job_sequence job < q_next_sequence (queue s)) (q_jobs (queue s))
   \<and> inj_on (\<lambda>e. job_sequence (snd e)) (set (q_jobs (queue s)))"

lemma contract_iff [res_simps, simp]: "contract m = Inr x \<longleftrightarrow> m = Inr x"
  by (simp add: contract_def)

lemma contract_Inr [simp]: "contract (Inr x) = Inr x"
  by (simp add: contract_def)

lemma job_status_validate_iff:
  "job_status_validate st = Inr u \<longleftrightarrow>
     st_schema st = IPC_JOB_STATUS_SCHEMA \<and> st_schema_version st = IPC_SCHEMA_VERSION
   \<and> validate_id (st_job_id st) = Inr () \<and> validate_digest (st_plan_digest st) = Inr ()
   \<and> MIN_PRIORITY \<le> st_priority st \<and> st_priority st \<le> MAX_PRIORITY
   \<and> st_resumable st = resumable (st_kind st)
   \<and> terminal (st_state st) = (st_finished_at_unix_millis st \<noteq> None)
   \<and> (\<forall>e. st_error st = Some e \<longrightarrow> validate_text e 1 4096 = Inr ())"
  by (auto simp: job_status_validate_def and_then_unit_iff require_schema_def check_some_iff)

lemma job_ok_iff:
  "job_ok ser job_id job \<longleftrightarrow>
     job_id = st_job_id (job_status job) \<and> \<not> terminal (st_state (job_status job))
   \<and> job_status_validate (job_status job) = Inr ()
   \<and> job_spec_validate (job_spec job) = Inr ()
   \<and> dry_run_validate ser (job_dry_run job) = Inr ()
   \<and> spec_kind (job_spec job) = st_kind (job_status job)
   \<and> spec_priority (job_spec job) = st_priority (job_status job)
   \<and> dry_plan_digest (job_dry_run job) = st_plan_digest (job_status job)
   \<and> validate_id (job_owner_grant_id job) = Inr ()"
  by (auto simp: job_ok_def validate_active_job_def and_then_unit_iff)

lemma validate_queue_iff:
  "validate_queue ser q r = Inr u \<longleftrightarrow>
     q_schema q = QUEUE_SCHEMA \<and> q_schema_version q = IPC_SCHEMA_VERSION \<and> q_server_id q = reg_server_id r
   \<and> length (q_jobs q) \<le> unat (max_queue_entries (reg_limits r))
   \<and> length (q_history q) \<le> unat (max_history_entries (reg_limits r))
   \<and> (\<forall>e \<in> set (q_jobs q). validate_active_job ser e = Inr ())
   \<and> (\<forall>e \<in> set (q_history q). validate_history_record e = Inr ())"
  by (auto simp: validate_queue_def and_then_unit_iff try_all_Inr_iff not_less)

text \<open>The queue's part of the invariant, with the two lists and the counter it speaks of.\<close>

definition queue_inv ::
  "execution_plan serializer \<Rightarrow> ipc_limits \<Rightarrow> u64 \<Rightarrow> (string, stored_job) btree
     \<Rightarrow> stored_history_entry list \<Rightarrow> bool" where
  "queue_inv ser limits next jobs history \<longleftrightarrow>
     bt_wf jobs \<and> bt.all_entries (\<lambda>k job. job_ok ser k job \<and> job_sequence job < next) jobs
   \<and> inj_on (\<lambda>e. job_sequence (snd e)) (set jobs)
   \<and> length jobs \<le> unat (max_queue_entries limits)
   \<and> length history \<le> unat (max_history_entries limits)
   \<and> (\<forall>e \<in> set history. validate_history_record e = Inr ())"

lemma store_inv_iff:
  "store_inv ser s \<longleftrightarrow>
     q_schema (queue s) = QUEUE_SCHEMA \<and> q_schema_version (queue s) = IPC_SCHEMA_VERSION
   \<and> q_server_id (queue s) = reg_server_id (registry s)
   \<and> queue_inv ser (reg_limits (registry s)) (q_next_sequence (queue s)) (q_jobs (queue s)) (q_history (queue s))"
  unfolding store_inv_def queue_inv_def validate_queue_iff bt.all_entries_def job_ok_def by fast

lemma save_queue_cases:
  "snd (save_queue env s) = s \<or>
   (\<exists>g disk. snd (save_queue env s) = s\<lparr>queue := (queue s)\<lparr>q_generation := g\<rparr>, queue_file := disk\<rparr>)
   \<or> (\<exists>g. snd (save_queue env s) = s\<lparr>queue := (queue s)\<lparr>q_generation := g\<rparr>\<rparr>)"
  by (auto simp: save_queue_def Let_def split: option.split sum.split prod.split)

lemma save_queue_frame [simp]:
  "q_jobs (queue (snd (save_queue env s))) = q_jobs (queue s)"
  "q_history (queue (snd (save_queue env s))) = q_history (queue s)"
  "q_next_sequence (queue (snd (save_queue env s))) = q_next_sequence (queue s)"
  "q_schema (queue (snd (save_queue env s))) = q_schema (queue s)"
  "q_schema_version (queue (snd (save_queue env s))) = q_schema_version (queue s)"
  "q_server_id (queue (snd (save_queue env s))) = q_server_id (queue s)"
  "registry (snd (save_queue env s)) = registry s"
  using save_queue_cases [of env s] by auto

lemma save_queue_inv [simp]: "store_inv ser (snd (save_queue env s)) = store_inv ser s"
  by (simp add: store_inv_iff)

text \<open>An operation that ends in \<open>save_queue\<close> leaves the state that it saved.\<close>

lemma snd_then_save [simp]: "snd (st_then (save_queue env s) (\<lambda>_ s'. (f s', s'))) = snd (save_queue env s)"
  by (simp add: snd_st_then split: sum.split)

lemma update_job_frame [simp]:
  "registry (update_job f k s) = registry s"
  "q_history (queue (update_job f k s)) = q_history (queue s)"
  "q_jobs (queue (update_job f k s)) = bt_update f k (q_jobs (queue s))"
  "q_next_sequence (queue (update_job f k s)) = q_next_sequence (queue s)"
  "q_schema (queue (update_job f k s)) = q_schema (queue s)"
  "q_schema_version (queue (update_job f k s)) = q_schema_version (queue s)"
  "q_server_id (queue (update_job f k s)) = q_server_id (queue s)"
  by (simp_all add: update_job_def)

lemma bt_update_seq_inj:
  assumes "inj_on (\<lambda>e. job_sequence (snd e)) (set m)" and "\<And>j. job_sequence (f j) = job_sequence j"
  shows "inj_on (\<lambda>e. job_sequence (snd e)) (set (bt_update f k m))"
proof -
  have "inj_on (\<lambda>e. job_sequence (snd e)) ((\<lambda>e. if fst e = k then (fst e, f (snd e)) else e) ` set m)"
  proof (rule inj_onI, elim imageE, goal_cases)
    case (1 x y a b)
    then have "job_sequence (snd a) = job_sequence (snd b)"
      using assms(2) by (auto split: if_splits)
    then have "a = b" using assms(1) 1 by (auto dest: inj_onD)
    then show ?case using 1 by simp
  qed
  then show ?thesis by (simp add: bt_update_def)
qed

lemma all_entries_getD:
  "bt_wf m \<Longrightarrow> bt.all_entries P m \<Longrightarrow> map_of m k = Some v \<Longrightarrow> P k v"
  by (simp add: bt.all_entries_get)

lemma update_job_inv:
  assumes inv: "store_inv ser s" and seq: "\<And>j. job_sequence (f j) = job_sequence j"
    and ok: "\<And>job. map_of (q_jobs (queue s)) k = Some job \<Longrightarrow> job_ok ser k job \<Longrightarrow> job_ok ser k (f job)"
  shows "store_inv ser (update_job f k s)"
proof -
  let ?P = "\<lambda>k job. job_ok ser k job \<and> job_sequence job < q_next_sequence (queue s)"
  have q: "queue_inv ser (reg_limits (registry s)) (q_next_sequence (queue s)) (q_jobs (queue s)) (q_history (queue s))"
    using inv by (simp add: store_inv_iff)
  then have wf: "bt_wf (q_jobs (queue s))" and all: "bt.all_entries ?P (q_jobs (queue s))"
    by (simp_all add: queue_inv_def)
  have "bt.all_entries ?P (bt_update f k (q_jobs (queue s)))"
    using all_entries_getD [OF wf all] ok seq by (intro bt.all_entries_upd [OF wf all]) auto
  then show ?thesis
    using inv q seq by (simp add: store_inv_iff queue_inv_def bt.wf_upd bt_update_seq_inj bt.length_upd)
qed

section \<open>Every operation keeps the invariant\<close>

lemma fixed_texts_ok:
  "validate_text ORPHAN_LEASE_TEXT 1 4096 = Inr ()" "validate_text RESUMING_TEXT 1 4096 = Inr ()"
  by (simp_all add: Ipc_Contracts.validate_text_def ORPHAN_LEASE_TEXT_def RESUMING_TEXT_def)

lemma job_ok_set_state:
  "job_ok ser k job \<Longrightarrow> \<not> terminal st \<Longrightarrow> job_ok ser k (set_state st job)"
  by (auto simp: job_ok_iff set_state_def job_status_validate_iff)

lemma job_ok_running:
  "job_ok ser k job \<Longrightarrow> job_ok ser k (start_attempt now job)"
  "job_ok ser k job \<Longrightarrow> job_ok ser k (count_attempt n p job)"
  by (auto simp: job_ok_iff start_attempt_def count_attempt_def job_status_validate_iff terminal_def)

lemma job_ok_process:
  "job_ok ser k job \<Longrightarrow> job_ok ser k (job\<lparr>job_process_id := p\<rparr>)"
  "job_ok ser k job \<Longrightarrow> job_ok ser k (clear_process job)"
  by (auto simp: job_ok_iff clear_process_def)

lemma job_ok_set_dry_run:
  "job_ok ser k job \<Longrightarrow> dry_run_validate ser d = Inr () \<Longrightarrow> job_ok ser k (set_dry_run d job)"
proof -
  assume "job_ok ser k job" and d: "dry_run_validate ser d = Inr ()"
  moreover have "validate_digest (dry_plan_digest d) = Inr ()"
    using d by (auto simp: dry_run_validate_def and_then_unit_iff)
  ultimately show ?thesis by (auto simp: job_ok_iff set_dry_run_def job_status_validate_iff)
qed

lemma job_ok_recovery:
  "job_ok ser k job \<Longrightarrow> job_ok ser k (orphan_running job)"
  "job_ok ser k job \<Longrightarrow> job_ok ser k (requeue job)"
  using fixed_texts_ok
  by (auto simp: job_ok_iff orphan_running_def requeue_def job_status_validate_iff terminal_def)

lemma job_sequence_frame [simp]:
  "job_sequence (set_state st job) = job_sequence job"
  "job_sequence (start_attempt now job) = job_sequence job"
  "job_sequence (count_attempt n p job) = job_sequence job"
  "job_sequence (clear_process job) = job_sequence job"
  "job_sequence (set_dry_run d job) = job_sequence job"
  "job_sequence (orphan_running job) = job_sequence job"
  "job_sequence (requeue job) = job_sequence job"
  by (simp_all add: set_state_def start_attempt_def count_attempt_def clear_process_def set_dry_run_def
      orphan_running_def requeue_def)

lemma control_target_state:
  "control_target pause job = Inr st \<Longrightarrow> st = PauseRequested \<or> st = Paused \<or> st = CancelRequested"
  by (auto simp: control_target_def split: if_splits)

lemma mark_running_inv: "store_inv ser s \<Longrightarrow> store_inv ser (snd (mark_running env k p now s))"
  by (auto simp: mark_running_def Let_def split: option.split
      intro!: update_job_inv job_ok_running)

lemma update_process_id_inv: "store_inv ser s \<Longrightarrow> store_inv ser (snd (update_process_id env k p s))"
  by (auto simp: update_process_id_def split: option.split intro!: update_job_inv job_ok_process)

lemma replace_dry_run_inv:
  assumes "store_inv (se_ser_plan env) s"
  shows "store_inv (se_ser_plan env) (snd (replace_dry_run env k d s))"
  using assms
  by (auto simp: replace_dry_run_def contract_def map_err_def split: option.split sum.split
      intro!: update_job_inv job_ok_set_dry_run)

lemma request_control_inv: "store_inv ser s \<Longrightarrow> store_inv ser (snd (request_control env k pause s))"
  by (auto simp: request_control_def terminal_def split: option.split sum.split dest!: control_target_state
      intro!: update_job_inv job_ok_set_state)

lemma resume_inv: "store_inv ser s \<Longrightarrow> store_inv ser (snd (resume env k s))"
  by (auto simp: resume_def terminal_def split: option.split intro!: update_job_inv job_ok_set_state)

lemma mark_paused_inv: "store_inv ser s \<Longrightarrow> store_inv ser (snd (mark_paused env k s))"
  by (auto simp: mark_paused_def terminal_def split: option.split
      intro!: update_job_inv job_ok_set_state job_ok_process)

lemma requeue_recovered_inv: "store_inv ser s \<Longrightarrow> store_inv ser (snd (requeue_recovered env k s))"
  by (auto simp: requeue_recovered_def split: option.split intro!: update_job_inv job_ok_recovery)

lemma prepare_recovery_inv:
  assumes "store_inv ser s"
  shows "store_inv ser (snd (prepare_recovery env s))"
proof -
  have "store_inv ser (fold (update_job orphan_running) ids t)" if "store_inv ser t" for ids t
    using that by (induction ids arbitrary: t) (simp_all add: update_job_inv job_ok_recovery)
  then show ?thesis using assms by (simp add: prepare_recovery_def Let_def)
qed

lemma random_id_prefix: "random_id p b = Inr i \<Longrightarrow> \<exists>bytes. b = Some bytes \<and> i = p @ CHR ''-'' # encode_hex bytes"
  by (auto simp: random_id_def and_then_Inr_iff)

lemma insert_job_inv:
  assumes inv: "store_inv (se_ser_plan env) s" and owner: "validate_id owner = Inr ()"
  shows "store_inv (se_ser_plan env) (snd (insert_job env owner spec d now b s))"
proof (cases "unat (max_queue_entries (reg_limits (registry s))) \<le> length (q_jobs (queue s))")
  case True
  then show ?thesis using inv by (simp add: insert_job_def)
next
  case room: False
  let ?ser = "se_ser_plan env" and ?jobs = "q_jobs (queue s)"
  let ?pre = "and_then (contract (job_spec_validate spec)) (\<lambda>_. and_then (contract (dry_run_validate ?ser d)) (\<lambda>_.
            ok_or (checked_add (q_next_sequence (queue s)) 1) SequenceOverflow))"
  let ?mid = "and_then (random_id ''job'' b) (\<lambda>job_id. let status = new_job_status job_id spec d now
              in and_then (contract (job_status_validate status)) (\<lambda>_. Inr status))"
  show ?thesis
  proof (cases ?pre)
    case (Inl e)
    then show ?thesis using inv room by (simp add: insert_job_def Let_def)
  next
    case (Inr nxt)
    then have valid: "job_spec_validate spec = Inr ()" "dry_run_validate ?ser d = Inr ()"
      and seq: "unat nxt = unat (q_next_sequence (queue s)) + 1"
      by (auto simp: and_then_Inr_iff checked_add_Some_iff)
    define s1 where "s1 = s\<lparr>queue := (queue s)\<lparr>q_next_sequence := nxt\<rparr>\<rparr>"
    have q: "queue_inv ?ser (reg_limits (registry s)) (q_next_sequence (queue s)) ?jobs (q_history (queue s))"
      using inv by (simp add: store_inv_iff)
    then have wf: "bt_wf ?jobs" by (simp add: queue_inv_def)
    have lt: "q_next_sequence (queue s) < nxt" using seq by (simp add: word_less_nat_alt)
    have all1: "bt.all_entries (\<lambda>k job. job_ok ?ser k job \<and> job_sequence job < nxt) ?jobs"
      using q lt by (auto simp: queue_inv_def bt.all_entries_def intro: less_trans)
    have inv1: "store_inv ?ser s1"
      using inv q all1 by (simp add: store_inv_iff queue_inv_def s1_def)
    show ?thesis
    proof (cases ?mid)
      case (Inl e)
      then show ?thesis using inv1 room Inr by (simp add: insert_job_def Let_def s1_def)
    next
      case (Inr status)
      then have st: "st_state status = Queued" "st_kind status = spec_kind spec"
        "st_priority status = spec_priority spec" "st_plan_digest status = dry_plan_digest d"
        "job_status_validate status = Inr ()"
        by (auto simp: and_then_Inr_iff Let_def new_job_status_def)
      define job where "job = \<lparr>job_status = status, job_owner_grant_id = owner,
        job_sequence = q_next_sequence (queue s), job_spec = spec, job_dry_run = d, job_process_id = None\<rparr>"
      let ?new = "bt_insert (st_job_id status) job ?jobs"
      let ?s2 = "s1\<lparr>queue := (queue s1)\<lparr>q_jobs := ?new\<rparr>\<rparr>"
      have "job_ok ?ser (st_job_id status) job"
        using st valid owner unfolding job_ok_iff by (simp add: job_def terminal_def)
      then have "bt.all_entries (\<lambda>k job. job_ok ?ser k job \<and> job_sequence job < nxt) ?new"
        using lt by (intro bt.all_entries_put [OF wf all1]) (simp add: job_def)
      moreover have "inj_on (\<lambda>e. job_sequence (snd e)) (set ?new)"
      proof -
        have old: "inj_on (\<lambda>e. job_sequence (snd e)) (set ?jobs)"
          and fresh: "\<forall>e \<in> set ?jobs. job_sequence (snd e) < q_next_sequence (queue s)"
          using q by (auto simp: queue_inv_def bt.all_entries_def)
        have "set ?new \<subseteq> insert (st_job_id status, job) (set ?jobs)" by (rule set_bt_insert)
        moreover have "inj_on (\<lambda>e. job_sequence (snd e)) (insert (st_job_id status, job) (set ?jobs))"
          using old fresh by (auto simp: job_def)
        ultimately show ?thesis by (rule inj_on_subset [rotated])
      qed
      moreover have "length ?new \<le> unat (max_queue_entries (reg_limits (registry s)))"
        using bt.length_put [OF wf, of "st_job_id status" job] room by linarith
      ultimately have "store_inv ?ser ?s2"
        using inv1 by (simp add: store_inv_iff queue_inv_def s1_def bt.wf_put)
      then show ?thesis using room Inr \<open>?pre = Inr nxt\<close>
        by (simp add: insert_job_def Let_def s1_def job_def)
    qed
  qed
qed

lemma bt_remove_subset: "set (bt_remove k m) \<subseteq> set m"
  by (auto simp: bt_remove_def)

lemma history_record_ok:
  assumes "job_ok ser k stored" and "job = finish_job st receipt error now stored" and "terminal st"
  shows "validate_history_record (history_record job now code) = Inr ()"
proof -
  have "known_overwrite_policy (dry_overwrite_policy (job_dry_run stored))"
    using assms(1) by (auto simp: job_ok_iff dry_run_validate_def and_then_unit_iff)
  then show ?thesis
    using assms by (auto simp: validate_history_record_def history_record_def finish_job_def job_ok_iff
        job_status_validate_iff)
qed

lemma prune_receipts_inv [simp]: "store_inv ser (prune_receipts env ids s) = store_inv ser s"
  by (simp add: prune_receipts_def store_inv_iff)

lemma terminalize_inv:
  assumes inv: "store_inv ser s"
  shows "store_inv ser (snd (terminalize env k st receipt error code now s))"
proof (cases "terminal st \<and> map_of (q_jobs (queue s)) k \<noteq> None")
  case False
  then show ?thesis using inv by (auto simp: terminalize_def split: option.split)
next
  case True
  then obtain stored where stored: "map_of (q_jobs (queue s)) k = Some stored" and st: "terminal st" by blast
  define job where "job = finish_job st receipt error now stored"
  let ?jobs = "q_jobs (queue s)" and ?history = "q_history (queue s) @ [history_record job now code]"
  let ?limit = "unat (max_history_entries (reg_limits (registry s)))"
  let ?P = "\<lambda>k job. job_ok ser k job \<and> job_sequence job < q_next_sequence (queue s)"
  have q: "queue_inv ser (reg_limits (registry s)) (q_next_sequence (queue s)) ?jobs (q_history (queue s))"
    using inv by (simp add: store_inv_iff)
  then have wf: "bt_wf ?jobs" and all: "bt.all_entries ?P ?jobs"
    by (simp_all add: queue_inv_def)
  have rec: "validate_history_record (history_record job now code) = Inr ()"
    using all_entries_getD [OF wf all stored] st job_def by (intro history_record_ok) auto
  have jobs: "queue_inv ser (reg_limits (registry s)) (q_next_sequence (queue s)) (bt_remove k ?jobs) h"
    if "length h \<le> ?limit" "\<forall>e \<in> set h. validate_history_record e = Inr ()" for h
    using q that bt.wf_del [OF wf] bt.all_entries_del [OF wf all] bt.length_del [OF wf, of k]
      inj_on_subset [OF _ bt_remove_subset] by (auto simp: queue_inv_def)
  have "length (drop (length ?history - ?limit) ?history) \<le> ?limit" by simp
  moreover have "\<forall>e \<in> set (drop (length ?history - ?limit) ?history). validate_history_record e = Inr ()"
    using q rec by (auto simp: queue_inv_def dest!: in_set_dropD)
  ultimately have kept: "queue_inv ser (reg_limits (registry s)) (q_next_sequence (queue s)) (bt_remove k ?jobs)
      (drop (length ?history - ?limit) ?history)" by (rule jobs)
  have lost: "queue_inv ser (reg_limits (registry s)) (q_next_sequence (queue s)) (bt_remove k ?jobs) (q_history (queue s))"
    using q by (intro jobs) (auto simp: queue_inv_def)
  show ?thesis
  proof (cases "contract (job_status_validate (job_status job))")
    case (Inl e)
    then show ?thesis using inv stored st lost by (simp add: terminalize_def job_def Let_def store_inv_iff)
  next
    case (Inr u)
    define s2 where "s2 = s\<lparr>queue := (queue s)\<lparr>q_jobs := bt_remove k ?jobs,
      q_history := drop (length ?history - ?limit) ?history\<rparr>\<rparr>"
    have "store_inv ser s2" using inv kept by (simp add: store_inv_iff s2_def)
    moreover have "snd (terminalize env k st receipt error code now s) = snd (save_queue env s2)
        \<or> (\<exists>ids. snd (terminalize env k st receipt error code now s) = prune_receipts env ids (snd (save_queue env s2)))"
      using stored st Inr by (simp add: terminalize_def job_def [symmetric] Let_def snd_st_then s2_def split: sum.split) blast
    ultimately show ?thesis by auto
  qed
qed

lemma cancel_each_inv: "store_inv ser s \<Longrightarrow> store_inv ser (snd (cancel_each env now ids s))"
proof (induction ids arbitrary: s)
  case (Cons k ids)
  then show ?case by (simp add: snd_st_then terminalize_inv split: sum.split)
qed simp

lemma interrupt_all_inv:
  assumes inv: "store_inv ser s"
  shows "store_inv ser (interrupt_all s)"
proof -
  let ?g = "\<lambda>job. if is_interruptible job then set_state CancelRequested job else job"
  let ?f = "\<lambda>e. (fst e, ?g (snd e))"
  let ?jobs = "q_jobs (queue s)"
  have q: "queue_inv ser (reg_limits (registry s)) (q_next_sequence (queue s)) ?jobs (q_history (queue s))"
    using inv by (simp add: store_inv_iff)
  have ok: "job_ok ser k (?g job)" if "job_ok ser k job" for k job
    using that by (simp add: job_ok_set_state terminal_def)
  have "bt_wf (map ?f ?jobs)" using q by (simp add: queue_inv_def bt_wf_def comp_def)
  moreover have "bt.all_entries (\<lambda>k job. job_ok ser k job \<and> job_sequence job < q_next_sequence (queue s)) (map ?f ?jobs)"
    using q ok by (fastforce simp: queue_inv_def bt.all_entries_def)
  moreover have "inj_on (\<lambda>e. job_sequence (snd e)) (set (map ?f ?jobs))"
  proof (rule inj_onI, clarsimp, goal_cases)
    case (1 a j b j')
    then have "job_sequence j = job_sequence j'" by (auto split: if_splits)
    have "inj_on (\<lambda>e. job_sequence (snd e)) (set ?jobs)" using q by (simp add: queue_inv_def)
    then have "(a, j) = (b, j')" by (rule inj_onD) (use 1 \<open>job_sequence j = job_sequence j'\<close> in simp_all)
    then show ?case by simp
  qed
  ultimately show ?thesis using inv q by (simp add: store_inv_iff queue_inv_def interrupt_all_def)
qed

lemma cancel_waiting_jobs_inv: "store_inv ser s \<Longrightarrow> store_inv ser (snd (cancel_waiting_jobs env now s))"
  by (auto simp: cancel_waiting_jobs_def snd_st_then cancel_each_inv interrupt_all_inv split: sum.split)

end
