(* ===== verification/Ipc_Lifecycle.thy ===== *)
theory Ipc_Lifecycle
  imports Ipc_Queue
begin

text \<open>
  The life of a job across all operations of the store (\<open>src/src/ipc/storage.rs\<close>): the step
  relation of the queue, including failed saves and restarts, the invariants of memory and
  disk, the legal transitions of a job, the order of service and the end of a job.
\<close>

section \<open>Memory and disk\<close>

text \<open>A private state file is replaced atomically: afterwards it holds the old or the new
  document, and the new one if the write succeeded.\<close>

definition writes_atomically :: "store_env \<Rightarrow> bool" where
  "writes_atomically env \<longleftrightarrow>
     (\<forall>q old written disk. se_write_queue env q old = (written, disk) \<longrightarrow>
        (disk = q \<or> disk = old) \<and> (written \<longrightarrow> disk = q))
   \<and> (\<forall>r old written disk. se_write_registry env r old = (written, disk) \<longrightarrow>
        (disk = r \<or> disk = old) \<and> (written \<longrightarrow> disk = r))"

text \<open>What a restart would load.\<close>

definition reloaded :: "state_store \<Rightarrow> state_store" where
  "reloaded s = s\<lparr>registry := registry_file s, queue := queue_file s\<rparr>"

definition disk_inv :: "execution_plan serializer \<Rightarrow> state_store \<Rightarrow> bool" where
  "disk_inv ser s \<longleftrightarrow>
     store_inv ser (reloaded s) \<and> validate_registry (registry_file s) = Inr ()
   \<and> reg_limits (registry_file s) = reg_limits (registry s)
   \<and> reg_server_id (registry_file s) = reg_server_id (registry s)"

lemma disk_inv_frame [simp]:
  "disk_inv ser (s\<lparr>queue := q\<rparr>) = disk_inv ser s"
  "disk_inv ser (s\<lparr>state_files := fs\<rparr>) = disk_inv ser s"
  "disk_inv ser (update_job f k s) = disk_inv ser s"
  "disk_inv ser (prune_receipts env ids s) = disk_inv ser s"
  by (simp_all add: disk_inv_def reloaded_def store_inv_iff update_job_def prune_receipts_def)

lemma save_queue_disk:
  assumes "writes_atomically env" and "disk_inv ser s" and "store_inv ser (snd (save_queue env s))"
  shows "disk_inv ser (snd (save_queue env s))"
proof (cases "checked_add (q_generation (queue s)) 1")
  case None
  then show ?thesis using assms by (simp add: save_queue_def)
next
  case (Some g)
  let ?q = "(queue s)\<lparr>q_generation := g\<rparr>"
  show ?thesis
  proof (cases "validate_queue (se_ser_plan env) ?q (registry s)")
    case (Inl e)
    then show ?thesis using assms(2) Some by (simp add: save_queue_def Let_def)
  next
    case (Inr u)
    obtain written disk where w: "se_write_queue env ?q (queue_file s) = (written, disk)" by fastforce
    then have "disk = ?q \<or> disk = queue_file s" using assms(1) unfolding writes_atomically_def by blast
    then show ?thesis
      using assms(2,3) Some Inr w
      by (auto simp: save_queue_def Let_def disk_inv_def reloaded_def store_inv_iff)
  qed
qed

lemma mark_running_disk:
  assumes "writes_atomically env" "store_inv ser s" "disk_inv ser s"
  shows "disk_inv ser (snd (mark_running env k p now s))"
  using mark_running_inv [OF assms(2), of env k p now] assms(1,3)
  by (auto simp: mark_running_def Let_def split: option.split option.split_asm if_splits intro!: save_queue_disk)

lemma update_process_id_disk:
  assumes "writes_atomically env" "store_inv ser s" "disk_inv ser s"
  shows "disk_inv ser (snd (update_process_id env k p s))"
  using update_process_id_inv [OF assms(2), of env k p] assms(1,3)
  by (auto simp: update_process_id_def split: option.split option.split_asm if_splits intro!: save_queue_disk)

lemma replace_dry_run_disk:
  assumes "writes_atomically env" "store_inv (se_ser_plan env) s" "disk_inv (se_ser_plan env) s"
  shows "disk_inv (se_ser_plan env) (snd (replace_dry_run env k d s))"
  using replace_dry_run_inv [OF assms(2), of k d] assms(1,3)
  by (auto simp: replace_dry_run_def split: option.split option.split_asm sum.split sum.split_asm if_splits
      intro!: save_queue_disk)

lemma request_control_disk:
  assumes "writes_atomically env" "store_inv ser s" "disk_inv ser s"
  shows "disk_inv ser (snd (request_control env k pause s))"
  using request_control_inv [OF assms(2), of env k pause] assms(1,3)
  by (auto simp: request_control_def split: option.split option.split_asm sum.split sum.split_asm
      intro!: save_queue_disk)

lemma resume_disk:
  assumes "writes_atomically env" "store_inv ser s" "disk_inv ser s"
  shows "disk_inv ser (snd (resume env k s))"
  using resume_inv [OF assms(2), of env k] assms(1,3)
  by (auto simp: resume_def split: option.split option.split_asm if_splits intro!: save_queue_disk)

lemma mark_paused_disk:
  assumes "writes_atomically env" "store_inv ser s" "disk_inv ser s"
  shows "disk_inv ser (snd (mark_paused env k s))"
  using mark_paused_inv [OF assms(2), of env k] assms(1,3)
  by (auto simp: mark_paused_def split: option.split option.split_asm if_splits intro!: save_queue_disk)

lemma requeue_recovered_disk:
  assumes "writes_atomically env" "store_inv ser s" "disk_inv ser s"
  shows "disk_inv ser (snd (requeue_recovered env k s))"
  using requeue_recovered_inv [OF assms(2), of env k] assms(1,3)
  by (auto simp: requeue_recovered_def split: option.split option.split_asm if_splits intro!: save_queue_disk)

lemma prepare_recovery_disk:
  assumes "writes_atomically env" "store_inv ser s" "disk_inv ser s"
  shows "disk_inv ser (snd (prepare_recovery env s))"
proof -
  have "disk_inv ser (fold (update_job orphan_running) ids t)" if "disk_inv ser t" for ids t
    using that by (induction ids arbitrary: t) simp_all
  then show ?thesis
    using prepare_recovery_inv [OF assms(2), of env] assms(1,3)
    by (auto simp: prepare_recovery_def Let_def split: if_splits intro!: save_queue_disk)
qed

lemma insert_job_disk:
  assumes "writes_atomically env" "store_inv (se_ser_plan env) s" "disk_inv (se_ser_plan env) s"
    and "validate_id owner = Inr ()"
  shows "disk_inv (se_ser_plan env) (snd (insert_job env owner spec d now b s))"
  using insert_job_inv [OF assms(2,4), of spec d now b] assms(1,3)
  by (auto simp: insert_job_def Let_def split: sum.split sum.split_asm if_splits intro!: save_queue_disk)

lemma terminalize_disk:
  assumes "writes_atomically env" "store_inv ser s" "disk_inv ser s"
  shows "disk_inv ser (snd (terminalize env k st receipt error code now s))"
  using terminalize_inv [OF assms(2), of env k st receipt error code now] assms(1,3)
  by (auto simp: terminalize_def Let_def snd_st_then split: option.split option.split_asm sum.split sum.split_asm
      if_splits intro!: save_queue_disk)

lemma cancel_each_disk:
  assumes "writes_atomically env"
  shows "store_inv ser s \<Longrightarrow> disk_inv ser s \<Longrightarrow> disk_inv ser (snd (cancel_each env now ids s))"
proof (induction ids arbitrary: s)
  case (Cons k ids)
  then show ?case using assms by (simp add: snd_st_then terminalize_inv terminalize_disk split: sum.split)
qed simp

lemma cancel_waiting_jobs_disk:
  assumes "writes_atomically env" "store_inv ser s" "disk_inv ser s"
  shows "disk_inv ser (snd (cancel_waiting_jobs env now s))"
proof -
  let ?ids = "map fst (filter (\<lambda>e. is_waiting (snd e)) (q_jobs (queue s)))"
  let ?t = "snd (cancel_each env now ?ids s)"
  have t: "store_inv ser ?t" "disk_inv ser ?t"
    using assms by (simp_all add: cancel_each_inv cancel_each_disk)
  then have "disk_inv ser (interrupt_all ?t)" by (simp add: interrupt_all_def)
  moreover have "store_inv ser (snd (save_queue env (interrupt_all ?t)))"
    using t by (simp add: interrupt_all_inv)
  ultimately show ?thesis
    using assms(1) t
    by (auto simp: cancel_waiting_jobs_def snd_st_then save_queue_disk split: sum.split)
qed

section \<open>The registry\<close>

lemma save_registry_frame [simp]:
  "queue (snd (save_registry env s)) = queue s"
  "queue_file (snd (save_registry env s)) = queue_file s"
  "reg_limits (registry (snd (save_registry env s))) = reg_limits (registry s)"
  "reg_server_id (registry (snd (save_registry env s))) = reg_server_id (registry s)"
  by (auto simp: save_registry_def Let_def split: option.split sum.split prod.split)

lemma save_registry_file:
  assumes "writes_atomically env"
  shows "registry_file (snd (save_registry env s)) = registry_file s
    \<or> (validate_registry (registry_file (snd (save_registry env s))) = Inr ()
       \<and> reg_limits (registry_file (snd (save_registry env s))) = reg_limits (registry s)
       \<and> reg_server_id (registry_file (snd (save_registry env s))) = reg_server_id (registry s))"
proof (cases "checked_add (reg_generation (registry s)) 1")
  case (Some g)
  let ?r = "(registry s)\<lparr>reg_generation := g\<rparr>"
  show ?thesis
  proof (cases "validate_registry ?r")
    case (Inr u)
    obtain written disk where w: "se_write_registry env ?r (registry_file s) = (written, disk)" by fastforce
    then have "disk = ?r \<or> disk = registry_file s" using assms unfolding writes_atomically_def by blast
    then show ?thesis using Some Inr w by (auto simp: save_registry_def Let_def)
  qed (use Some in \<open>simp add: save_registry_def Let_def\<close>)
qed (simp add: save_registry_def)

lemma registry_change_inv:
  assumes "store_inv ser s" "reg_limits r = reg_limits (registry s)" "reg_server_id r = reg_server_id (registry s)"
  shows "store_inv ser (snd (save_registry env (s\<lparr>registry := r\<rparr>)))"
  using assms by (simp add: store_inv_iff)

lemma registry_change_disk:
  assumes "writes_atomically env" "disk_inv ser s"
    "reg_limits r = reg_limits (registry s)" "reg_server_id r = reg_server_id (registry s)"
  shows "disk_inv ser (snd (save_registry env (s\<lparr>registry := r\<rparr>)))"
  using save_registry_file [OF assms(1), of "s\<lparr>registry := r\<rparr>"] assms(2-4)
  by (auto simp: disk_inv_def reloaded_def store_inv_iff)

lemma snd_create_grant:
  "snd (create_grant env requested now gb tb s) = s \<or>
   (\<exists>r. snd (create_grant env requested now gb tb s) = snd (save_registry env (s\<lparr>registry := r\<rparr>))
      \<and> reg_limits r = reg_limits (registry s) \<and> reg_server_id r = reg_server_id (registry s))"
  by (auto simp: create_grant_def Let_def snd_st_then split: sum.split)

lemma snd_revoke_grant:
  "snd (revoke_grant env k now s) = s \<or>
   (\<exists>r. snd (revoke_grant env k now s) = snd (save_registry env (s\<lparr>registry := r\<rparr>))
      \<and> reg_limits r = reg_limits (registry s) \<and> reg_server_id r = reg_server_id (registry s))"
  by (auto simp: revoke_grant_def Let_def split: option.split)

section \<open>Restarting\<close>

lemma cleanup_frame:
  "queue (snd (cleanup_files env s names)) = queue s \<and> registry (snd (cleanup_files env s names)) = registry s
   \<and> queue_file (snd (cleanup_files env s names)) = queue_file s
   \<and> registry_file (snd (cleanup_files env s names)) = registry_file s"
  by (induction env s names rule: cleanup_files.induct) auto

lemma store_open_shape:
  assumes "store_open env r q files = Inr s"
  shows "queue s = q \<and> registry s = r \<and> queue_file s = q \<and> registry_file s = r
    \<and> validate_registry r = Inr () \<and> validate_queue (se_ser_plan env) q r = Inr ()"
proof -
  let ?s = "\<lparr>registry = r, queue = q, registry_file = r, queue_file = q, state_files = files\<rparr>"
  have "s = snd (cleanup_unreferenced_receipts env ?s)" "validate_registry r = Inr ()"
    "validate_queue (se_ser_plan env) q r = Inr ()"
    using assms by (auto simp: store_open_def and_then_Inr_iff Let_def split: prod.splits sum.splits)
  then show ?thesis using cleanup_frame [of env ?s files] by (simp add: cleanup_unreferenced_receipts_def)
qed

lemma restart_inv:
  assumes "disk_inv (se_ser_plan env) s" and "store_open env (registry_file s) (queue_file s) files = Inr s'"
  shows "store_inv (se_ser_plan env) s' \<and> disk_inv (se_ser_plan env) s'"
  using assms(1) store_open_shape [OF assms(2)] by (auto simp: disk_inv_def store_inv_iff reloaded_def)

section \<open>Steps\<close>

text \<open>
  One operation of the server on the store, with any outcome: the saves may fail, the
  arguments are arbitrary, and the process may restart from its files at any moment. The
  identity drawn for a new job or grant is one that no job or grant of the store has.
\<close>

definition fresh_job_id :: "state_store \<Rightarrow> u8 list option \<Rightarrow> bool" where
  "fresh_job_id s id_bytes \<longleftrightarrow>
     (\<forall>i. random_id ''job'' id_bytes = Inr i \<longrightarrow> map_of (q_jobs (queue s)) i = None)"

definition fresh_grant_id :: "state_store \<Rightarrow> u8 list option \<Rightarrow> bool" where
  "fresh_grant_id s id_bytes \<longleftrightarrow>
     (\<forall>i. random_id ''grant'' id_bytes = Inr i \<longrightarrow> map_of (reg_grants (registry s)) i = None)"

inductive store_step :: "store_env \<Rightarrow> state_store \<Rightarrow> state_store \<Rightarrow> bool" for env where
  submit: "validate_id owner = Inr () \<Longrightarrow> fresh_job_id s b \<Longrightarrow>
     store_step env s (snd (insert_job env owner spec d now b s))"
| run: "store_step env s (snd (mark_running env k p now s))"
| record_process: "store_step env s (snd (update_process_id env k p s))"
| replan: "store_step env s (snd (replace_dry_run env k d s))"
| control: "store_step env s (snd (request_control env k pause s))"
| unpause: "store_step env s (snd (resume env k s))"
| paused: "store_step env s (snd (mark_paused env k s))"
| finish: "store_step env s (snd (terminalize env k st receipt error code now s))"
| recover: "store_step env s (snd (prepare_recovery env s))"
| requeued: "store_step env s (snd (requeue_recovered env k s))"
| cancel_all: "store_step env s (snd (cancel_waiting_jobs env now s))"
| grant: "fresh_grant_id s gb \<Longrightarrow> store_step env s (snd (create_grant env requested now gb tb s))"
| revoke: "store_step env s (snd (revoke_grant env k now s))"

definition same_job :: "stored_job \<Rightarrow> stored_job \<Rightarrow> bool" where
  "same_job a b \<longleftrightarrow> job_owner_grant_id b = job_owner_grant_id a \<and> job_sequence b = job_sequence a
     \<and> job_spec b = job_spec a \<and> st_submitted_at_unix_millis (job_status b) = st_submitted_at_unix_millis (job_status a)"

definition allowed_transitions :: "(job_state \<times> job_state) set" where
  "allowed_transitions = {(Queued, Running), (Paused, Running), (Running, PauseRequested),
     (Recovering, PauseRequested), (Queued, Paused), (PauseRequested, Paused), (Paused, Queued),
     (Running, Recovering), (Recovering, Queued), (Queued, CancelRequested), (Paused, CancelRequested),
     (Running, CancelRequested), (Recovering, CancelRequested), (PauseRequested, CancelRequested)}"

definition evolves :: "stored_job \<Rightarrow> stored_job \<Rightarrow> bool" where
  "evolves a b \<longleftrightarrow> same_job a b
     \<and> (st_state (job_status b) = st_state (job_status a)
        \<or> (st_state (job_status a), st_state (job_status b)) \<in> allowed_transitions)"

text \<open>Every surviving job has evolved, and every new one is queued and untried.\<close>

definition store_evolves :: "state_store \<Rightarrow> state_store \<Rightarrow> bool" where
  "store_evolves s t \<longleftrightarrow>
     (\<forall>k b. map_of (q_jobs (queue t)) k = Some b \<longrightarrow>
        (case map_of (q_jobs (queue s)) k of
           Some a \<Rightarrow> evolves a b
         | None \<Rightarrow> st_state (job_status b) = Queued \<and> st_attempt (job_status b) = 0))"

lemma evolves_refl [simp]: "evolves a a"
  by (simp add: evolves_def same_job_def)

lemma store_evolves_jobs_eq: "q_jobs (queue t) = q_jobs (queue s) \<Longrightarrow> store_evolves s t"
  by (auto simp: store_evolves_def split: option.split)

lemma store_evolves_refl [simp]: "store_evolves s s"
  by (rule store_evolves_jobs_eq) simp

lemma store_evolves_save [simp]: "store_evolves s (snd (save_queue env t)) = store_evolves s t"
  by (simp add: store_evolves_def)

lemma store_evolves_prune [simp]: "store_evolves s (prune_receipts env ids t) = store_evolves s t"
  by (simp add: store_evolves_def prune_receipts_def)

lemma store_evolves_update:
  assumes "\<And>a. map_of (q_jobs (queue s)) k = Some a \<Longrightarrow> evolves a (f a)"
  shows "store_evolves s (update_job f k s)"
  using assms by (auto simp: store_evolves_def bt_get_update split: option.split)

lemma control_target_allowed:
  "control_target pause a = Inr target \<Longrightarrow> (st_state (job_status a), target) \<in> allowed_transitions"
  by (auto simp: control_target_def allowed_transitions_def split: if_splits)

lemma set_state_evolves:
  "(st_state (job_status a), target) \<in> allowed_transitions \<Longrightarrow> evolves a (set_state target a)"
  by (simp add: evolves_def same_job_def set_state_def)

lemma job_steps_evolve:
  "store_evolves s (snd (mark_running env k p now s))"
  "store_evolves s (snd (update_process_id env k p s))"
  "store_evolves s (snd (replace_dry_run env k d s))"
  "store_evolves s (snd (request_control env k pause s))"
  "store_evolves s (snd (resume env k s))"
  "store_evolves s (snd (mark_paused env k s))"
  "store_evolves s (snd (requeue_recovered env k s))"
proof -
  show "store_evolves s (snd (mark_running env k p now s))"
    by (auto simp: mark_running_def Let_def evolves_def same_job_def start_attempt_def count_attempt_def
        allowed_transitions_def split: option.split intro!: store_evolves_update)
  show "store_evolves s (snd (update_process_id env k p s))"
    by (auto simp: update_process_id_def evolves_def same_job_def split: option.split intro!: store_evolves_update)
  show "store_evolves s (snd (replace_dry_run env k d s))"
    by (auto simp: replace_dry_run_def evolves_def same_job_def set_dry_run_def
        split: option.split sum.split intro!: store_evolves_update)
  show "store_evolves s (snd (request_control env k pause s))"
    by (auto simp: request_control_def split: option.split sum.split
        intro!: store_evolves_update set_state_evolves control_target_allowed)
  show "store_evolves s (snd (resume env k s))"
    by (auto simp: resume_def allowed_transitions_def split: option.split
        intro!: store_evolves_update set_state_evolves)
  show "store_evolves s (snd (mark_paused env k s))"
    by (auto simp: mark_paused_def allowed_transitions_def evolves_def same_job_def set_state_def clear_process_def
        split: option.split intro!: store_evolves_update)
  show "store_evolves s (snd (requeue_recovered env k s))"
    by (auto simp: requeue_recovered_def allowed_transitions_def evolves_def same_job_def requeue_def
        split: option.split intro!: store_evolves_update)
qed

text \<open>Operations that only remove jobs.\<close>

definition only_removes :: "state_store \<Rightarrow> state_store \<Rightarrow> bool" where
  "only_removes s t \<longleftrightarrow> (\<forall>k b. map_of (q_jobs (queue t)) k = Some b \<longrightarrow> map_of (q_jobs (queue s)) k = Some b)"

lemma only_removes_evolves: "only_removes s t \<Longrightarrow> store_evolves s t"
  by (auto simp: only_removes_def store_evolves_def split: option.split)

lemma terminalize_removes: "only_removes s (snd (terminalize env k st receipt error code now s))"
  by (auto simp: terminalize_def Let_def only_removes_def snd_st_then bt_get_remove prune_receipts_def
      split: option.split sum.split if_splits)

lemma cancel_each_removes: "only_removes s (snd (cancel_each env now ids s))"
proof (induction ids arbitrary: s)
  case (Cons k ids)
  let ?t = "snd (terminalize env k Cancelled None (Some FORCED_SHUTDOWN_TEXT) (Some ''cancelled'') now s)"
  have "only_removes s ?t" by (rule terminalize_removes)
  with Cons.IH [of ?t] show ?case by (simp add: snd_st_then only_removes_def split: sum.split)
qed (simp add: only_removes_def)

lemma map_of_map_value: "map_of (map (\<lambda>e. (fst e, g (snd e))) m) k = map_option g (map_of m k)"
  by (induction m) auto

lemma interrupt_all_get:
  "map_of (q_jobs (queue (interrupt_all s))) k =
    map_option (\<lambda>j. if is_interruptible j then set_state CancelRequested j else j) (map_of (q_jobs (queue s)) k)"
  using map_of_map_value [where g = "\<lambda>j. if is_interruptible j then set_state CancelRequested j else j"]
  by (simp add: interrupt_all_def)

lemma cancel_waiting_jobs_evolves: "store_evolves s (snd (cancel_waiting_jobs env now s))"
proof -
  let ?ids = "map fst (filter (\<lambda>e. is_waiting (snd e)) (q_jobs (queue s)))"
  let ?t = "snd (cancel_each env now ?ids s)"
  have removed: "only_removes s ?t" by (rule cancel_each_removes)
  have "evolves a (if is_interruptible a then set_state CancelRequested a else a)" for a
    by (auto simp: is_interruptible_def allowed_transitions_def intro!: set_state_evolves)
  then have "store_evolves s (interrupt_all ?t)"
    using removed
    unfolding store_evolves_def interrupt_all_get only_removes_def by (fastforce split: option.split)
  then show ?thesis
    using only_removes_evolves [OF removed]
    by (auto simp: cancel_waiting_jobs_def snd_st_then split: sum.split)
qed

lemma fold_orphan_get:
  "\<exists>f. (f = (\<lambda>j. j) \<or> f = orphan_running) \<and>
     map_of (q_jobs (queue (fold (update_job orphan_running) ids s))) k = map_option f (map_of (q_jobs (queue s)) k)"
proof (induction ids arbitrary: s)
  case (Cons i ids)
  have idem: "orphan_running (orphan_running j) = orphan_running j" for j
    by (simp add: orphan_running_def)
  from Cons [of "update_job orphan_running i s"] show ?case
    by (cases "k = i") (auto simp: bt_get_update option.map_comp comp_def idem option.map_ident)
qed (auto simp: option.map_ident)

lemma prepare_recovery_evolves: "store_evolves s (snd (prepare_recovery env s))"
proof -
  have "evolves a (orphan_running a)" for a
    by (simp add: evolves_def same_job_def orphan_running_def allowed_transitions_def)
  then have "store_evolves s (fold (update_job orphan_running) ids s)" for ids
    unfolding store_evolves_def using fold_orphan_get [of ids s]
    by (metis (mono_tags, lifting) evolves_refl map_option_eq_Some option.simps(5))
  then show ?thesis by (simp add: prepare_recovery_def Let_def)
qed

definition submitted_job :: "string \<Rightarrow> string \<Rightarrow> u64 \<Rightarrow> job_spec \<Rightarrow> dry_run_report \<Rightarrow> u64 \<Rightarrow> stored_job" where
  "submitted_job job_id owner sequence spec d now =
    \<lparr>job_status = new_job_status job_id spec d now, job_owner_grant_id = owner, job_sequence = sequence,
     job_spec = spec, job_dry_run = d, job_process_id = None\<rparr>"

lemma insert_job_jobs:
  "q_jobs (queue (snd (insert_job env owner spec d now b s))) = q_jobs (queue s) \<or>
   (\<exists>i. random_id ''job'' b = Inr i
     \<and> q_jobs (queue (snd (insert_job env owner spec d now b s)))
       = bt_insert i (submitted_job i owner (q_next_sequence (queue s)) spec d now) (q_jobs (queue s)))"
  by (auto simp: insert_job_def Let_def and_then_Inr_iff submitted_job_def new_job_status_def split: sum.split)

lemma submitted_job_state:
  "st_state (job_status (submitted_job i owner n spec d now)) = Queued"
  "st_attempt (job_status (submitted_job i owner n spec d now)) = 0"
  by (simp_all add: submitted_job_def new_job_status_def)

lemma insert_job_evolves:
  assumes "bt_wf (q_jobs (queue s))" and "fresh_job_id s b"
  shows "store_evolves s (snd (insert_job env owner spec d now b s))"
  using insert_job_jobs [of env owner spec d now b s]
proof (elim disjE exE conjE)
  fix i
  assume i: "random_id ''job'' b = Inr i"
    "q_jobs (queue (snd (insert_job env owner spec d now b s)))
      = bt_insert i (submitted_job i owner (q_next_sequence (queue s)) spec d now) (q_jobs (queue s))"
  then have "map_of (q_jobs (queue s)) i = None" using assms(2) by (simp add: fresh_job_id_def)
  then show ?thesis
    using i by (auto simp: store_evolves_def bt.get_put [OF assms(1)] submitted_job_state split: option.split)
qed (rule store_evolves_jobs_eq)

lemma registry_step_evolves:
  "store_evolves s (snd (create_grant env requested now gb tb s))"
  "store_evolves s (snd (revoke_grant env k now s))"
  using snd_create_grant [of env requested now gb tb s] snd_revoke_grant [of env k now s]
  by (auto intro!: store_evolves_jobs_eq)

section \<open>Reachable stores\<close>

definition created_store :: "registry_state \<Rightarrow> queue_state \<Rightarrow> state_store" where
  "created_store r q = \<lparr>registry = r, queue = q, registry_file = r, queue_file = q, state_files = []\<rparr>"

text \<open>The environment may answer differently at every step; only the plan format is fixed.\<close>

inductive store_reachable :: "execution_plan serializer \<Rightarrow> state_store \<Rightarrow> bool" for ser where
  created: "initialize_documents env limits now sb gb tb = Inr (r, q, document) \<Longrightarrow> se_ser_plan env = ser \<Longrightarrow>
     store_reachable ser (created_store r q)"
| stepped: "store_reachable ser s \<Longrightarrow> writes_atomically env \<Longrightarrow> se_ser_plan env = ser \<Longrightarrow>
     store_step env s t \<Longrightarrow> store_reachable ser t"
| restarted: "store_reachable ser s \<Longrightarrow> se_ser_plan env = ser \<Longrightarrow>
     store_open env (registry_file s) (queue_file s) files = Inr t \<Longrightarrow> store_reachable ser t"

lemma step_inv:
  assumes "store_step env s t" "writes_atomically env"
    "store_inv (se_ser_plan env) s" "disk_inv (se_ser_plan env) s"
  shows "store_inv (se_ser_plan env) t \<and> disk_inv (se_ser_plan env) t"
  using assms
proof (induction rule: store_step.induct)
  case (grant s gb requested now tb)
  then show ?case using snd_create_grant [of env requested now gb tb s]
    by (auto simp: registry_change_inv registry_change_disk)
next
  case (revoke s k now)
  then show ?case using snd_revoke_grant [of env k now s]
    by (auto simp: registry_change_inv registry_change_disk)
qed (simp_all add: insert_job_inv insert_job_disk mark_running_inv mark_running_disk
    update_process_id_inv update_process_id_disk replace_dry_run_inv replace_dry_run_disk
    request_control_inv request_control_disk resume_inv resume_disk mark_paused_inv mark_paused_disk
    terminalize_inv terminalize_disk prepare_recovery_inv prepare_recovery_disk
    requeue_recovered_inv requeue_recovered_disk cancel_waiting_jobs_inv cancel_waiting_jobs_disk)

lemma created_inv:
  assumes "initialize_documents env limits now sb gb tb = Inr (r, q, document)"
  shows "store_inv (se_ser_plan env) (created_store r q) \<and> disk_inv (se_ser_plan env) (created_store r q)"
proof -
  have valid: "validate_registry r = Inr ()" "validate_queue (se_ser_plan env) q r = Inr ()"
    and empty: "q_jobs q = []" "q_history q = []"
    using assms by (auto simp: initialize_documents_def and_then_Inr_iff Let_def)
  have "queue_inv (se_ser_plan env) (reg_limits r) (q_next_sequence q) [] []"
    by (simp add: queue_inv_def bt_wf_Nil bt.all_entries_def)
  then show ?thesis
    using valid empty by (simp add: created_store_def disk_inv_def reloaded_def store_inv_iff validate_queue_iff)
qed

lemma reachable_inv: "store_reachable ser s \<Longrightarrow> store_inv ser s \<and> disk_inv ser s"
proof (induction rule: store_reachable.induct)
  case (created env limits now sb gb tb r q document)
  then show ?case using created_inv by blast
next
  case (stepped s env t)
  then show ?case using step_inv [of env s t] by simp
next
  case (restarted s env files t)
  then show ?case using restart_inv [of env s files t] by simp
qed

section \<open>Properties of the store\<close>

text \<open>C1: The queue is valid in memory and on disk in every reachable store. However operations
  are ordered, whichever saves fail and whenever the process restarts, the queue in memory
  passes the validation that guards every save, so it is never refused; it is ordered by job
  identity, respects both configured bounds, and no two jobs share a submission number; and the
  registry and queue files always validate.\<close>

theorem store_always_valid:
  assumes "store_reachable ser s"
  shows "validate_queue ser (queue s) (registry s) = Inr ()
    \<and> bt_wf (q_jobs (queue s))
    \<and> inj_on (\<lambda>e. job_sequence (snd e)) (set (q_jobs (queue s)))
    \<and> validate_registry (registry_file s) = Inr ()
    \<and> validate_queue ser (queue_file s) (registry_file s) = Inr ()"
proof -
  have "store_inv ser s" "disk_inv ser s" using reachable_inv [OF assms] by simp_all
  then have "store_inv ser s" "store_inv ser (reloaded s)" "validate_registry (registry_file s) = Inr ()"
    by (simp_all add: disk_inv_def)
  then show ?thesis unfolding store_inv_def by (simp add: reloaded_def)
qed

lemma cleanup_succeeds:
  "(\<And>name. se_removable env name) \<Longrightarrow> fst (cleanup_files env s names) = Inr ()"
  by (induction env s names rule: cleanup_files.induct) auto

text \<open>C26: A restart always succeeds. From every reachable store, in particular after a save
  that failed halfway through the life of the process, the files on disk open again, provided
  stray receipt files can be removed.\<close>

theorem restart_always_possible:
  assumes "store_reachable ser s" and "se_ser_plan env = ser" and "\<And>name. se_removable env name"
  shows "\<exists>t. store_open env (registry_file s) (queue_file s) files = Inr t
    \<and> queue t = queue_file s \<and> registry t = registry_file s"
proof -
  let ?s = "\<lparr>registry = registry_file s, queue = queue_file s, registry_file = registry_file s,
    queue_file = queue_file s, state_files = files\<rparr>"
  have "disk_inv ser s" using reachable_inv [OF assms(1)] by simp
  then have "validate_registry (registry_file s) = Inr ()" "store_inv ser (reloaded s)"
    by (simp_all add: disk_inv_def)
  then have valid: "validate_registry (registry_file s) = Inr ()"
    "validate_queue (se_ser_plan env) (queue_file s) (registry_file s) = Inr ()"
    using assms(2) by (simp_all add: store_inv_def reloaded_def)
  obtain t where "cleanup_unreferenced_receipts env ?s = (Inr (), t)"
    using cleanup_succeeds [OF assms(3), of ?s files]
    by (metis cleanup_unreferenced_receipts_def prod.collapse state_store.select_convs(5))
  then have "store_open env (registry_file s) (queue_file s) files = Inr t"
    using valid by (simp add: store_open_def)
  then show ?thesis using store_open_shape by blast
qed

text \<open>C10: Jobs move only along the legal transitions. In one operation of any kind, with any
  outcome, a surviving job keeps its owner, specification, submission number and time and
  changes state only along the table; a new job starts queued and untried; and a cancellation
  that has been requested is never taken back.\<close>

theorem transitions_legal:
  assumes "store_reachable ser s" and "store_step env s t"
  shows "store_evolves s t
    \<and> (\<forall>k a b. map_of (q_jobs (queue s)) k = Some a \<and> st_state (job_status a) = CancelRequested
          \<and> map_of (q_jobs (queue t)) k = Some b \<longrightarrow> st_state (job_status b) = CancelRequested)"
proof -
  have wf: "bt_wf (q_jobs (queue s))" using reachable_inv [OF assms(1)] by (simp add: store_inv_def)
  have "store_evolves s t"
    using assms(2)
  proof cases
    case (submit owner b spec d now)
    then show ?thesis using insert_job_evolves [OF wf] by simp
  next
    case (finish k st receipt error code now)
    then show ?thesis using terminalize_removes only_removes_evolves by simp
  qed (simp_all add: job_steps_evolve cancel_waiting_jobs_evolves prepare_recovery_evolves registry_step_evolves)
  moreover have "evolves a b \<Longrightarrow> st_state (job_status a) = CancelRequested \<Longrightarrow> st_state (job_status b) = CancelRequested" for a b
    by (auto simp: evolves_def allowed_transitions_def)
  ultimately show ?thesis unfolding store_evolves_def by fastforce
qed

end
