(* ===== verification/Ipc_Outcomes.thy ===== *)
theory Ipc_Outcomes
  imports Ipc_Lifecycle
begin

text \<open>
  The order of service, the end of a job and what a failed save leaves behind
  (\<open>src/src/ipc/storage.rs\<close>); concrete stores that witness the hypotheses of the
  theorems on reachable stores.
\<close>

section \<open>Order of service\<close>

lemma better_some: "better j m \<noteq> None"
  by (simp add: better_def split: option.split)

lemma fold_better:
  assumes "fold better js m = Some j"
  shows "(j \<in> set js \<or> m = Some j) \<and> (\<forall>i \<in> set js. service_key j \<le> service_key i)
    \<and> (\<forall>i. m = Some i \<longrightarrow> service_key j \<le> service_key i)"
  using assms
proof (induction js arbitrary: m)
  case (Cons x js)
  have "fold better js (better x m) = Some j" using Cons.prems by simp
  from Cons.IH [OF this] show ?case
    by (cases m) (auto simp: better_def not_less split: if_splits intro: order_trans less_imp_le)
qed simp

lemma next_job_spec:
  assumes "next_job s = Some j"
  shows "j \<in> set (active_jobs s) \<and> is_queued j
    \<and> (\<forall>i \<in> set (active_jobs s). is_queued i \<longrightarrow> service_key j \<le> service_key i)"
  using fold_better [OF assms [unfolded next_job_def]] by auto

lemma next_job_none: "next_job s = None \<longleftrightarrow> (\<forall>i \<in> set (active_jobs s). \<not> is_queued i)"
proof -
  have "fold better js m = None \<longleftrightarrow> js = [] \<and> m = None" for js m
  proof (induction js arbitrary: m)
    case (Cons x js)
    then show ?case using better_some [of x m] by simp
  qed simp
  then show ?thesis by (auto simp: next_job_def filter_empty_conv)
qed

lemma position_of_hd:
  "xs \<noteq> [] \<Longrightarrow> P (hd xs) \<Longrightarrow> position_of P xs = Some 0"
  by (cases xs) auto

lemma sort_key_hd_least:
  "x \<in> set xs \<Longrightarrow> f (hd (sort_key f xs)) \<le> f x"
proof -
  assume x: "x \<in> set xs"
  have sorted: "sorted (map f (sort_key f xs))" by simp
  have "x \<in> set (sort_key f xs)" using x by simp
  then show ?thesis using sorted by (cases "sort_key f xs") auto
qed

lemma active_get:
  assumes "store_inv ser s"
  shows "j \<in> set (active_jobs s) \<longleftrightarrow> map_of (q_jobs (queue s)) (st_job_id (job_status j)) = Some j"
proof -
  have wf: "bt_wf (q_jobs (queue s))" and all: "bt.all_entries (job_ok ser) (q_jobs (queue s))"
    using assms by (simp_all add: store_inv_def)
  have "fst e = st_job_id (job_status (snd e))" if "e \<in> set (q_jobs (queue s))" for e
    using that all by (auto simp: bt.all_entries_def job_ok_iff)
  then show ?thesis
    using bt.entries_get [OF wf] unfolding active_jobs_def by force
qed

text \<open>The queue serves the most important job first, and reports it as first. When a job
  is waiting in a reachable store, \<open>next_job\<close> returns a queued job of the highest priority,
  the earliest submission among those; no other job ties with it; and its status shows queue
  position one. It returns nothing only if no job is queued.\<close>

theorem next_job_is_first:
  assumes "store_reachable ser s"
  shows "(next_job s = None \<longleftrightarrow> (\<forall>i \<in> set (active_jobs s). st_state (job_status i) \<noteq> Queued))
    \<and> (\<forall>j. next_job s = Some j \<longrightarrow>
         j \<in> set (active_jobs s) \<and> st_state (job_status j) = Queued
       \<and> (\<forall>i \<in> set (active_jobs s). st_state (job_status i) = Queued \<and> i \<noteq> j \<longrightarrow>
            st_priority (job_status i) < st_priority (job_status j)
          \<or> (st_priority (job_status i) = st_priority (job_status j) \<and> job_sequence j < job_sequence i))
       \<and> map_option st_queue_position (status_with_position s (st_job_id (job_status j))) = Some (Some 1))"
proof (intro conjI allI impI)
  show "next_job s = None \<longleftrightarrow> (\<forall>i \<in> set (active_jobs s). st_state (job_status i) \<noteq> Queued)"
    by (simp add: next_job_none is_queued_def)
next
  fix j
  assume j: "next_job s = Some j"
  have inv: "store_inv ser s" using reachable_inv [OF assms] by simp
  note spec = next_job_spec [OF j]
  have uniq: "job_sequence a = job_sequence b \<Longrightarrow> a \<in> set (active_jobs s) \<Longrightarrow> b \<in> set (active_jobs s) \<Longrightarrow> a = b" for a b
    using inv unfolding store_inv_def active_jobs_def by (force dest: inj_onD)
  show "j \<in> set (active_jobs s)" "st_state (job_status j) = Queued"
    using spec by (simp_all add: is_queued_def)
  show "\<forall>i \<in> set (active_jobs s). st_state (job_status i) = Queued \<and> i \<noteq> j \<longrightarrow>
            st_priority (job_status i) < st_priority (job_status j)
          \<or> (st_priority (job_status i) = st_priority (job_status j) \<and> job_sequence j < job_sequence i)"
  proof (intro ballI impI)
    fix i
    assume i: "i \<in> set (active_jobs s)" "st_state (job_status i) = Queued \<and> i \<noteq> j"
    then have "service_key j \<le> service_key i" using spec by (simp add: is_queued_def)
    moreover have "job_sequence j \<noteq> job_sequence i" using uniq [of j i] spec i by blast
    ultimately show "st_priority (job_status i) < st_priority (job_status j)
          \<or> (st_priority (job_status i) = st_priority (job_status j) \<and> job_sequence j < job_sequence i)"
      by (auto simp: service_key_def less_eq_prod_def)
  qed
  let ?queued = "filter is_queued (active_jobs s)"
  let ?id = "st_job_id (job_status j)"
  have jq: "j \<in> set ?queued" using spec by simp
  then have nonempty: "sort_key service_key ?queued \<noteq> []" by (metis empty_iff list.set(1) set_sort)
  then have hd: "hd (sort_key service_key ?queued) \<in> set ?queued" by (metis hd_in_set set_sort)
  have "service_key (hd (sort_key service_key ?queued)) \<le> service_key j" by (rule sort_key_hd_least [OF jq])
  moreover have "service_key j \<le> service_key (hd (sort_key service_key ?queued))" using spec hd by auto
  ultimately have "job_sequence (hd (sort_key service_key ?queued)) = job_sequence j"
    by (auto simp: service_key_def dest: antisym)
  then have "hd (sort_key service_key ?queued) = j" using uniq hd jq by auto
  then have "position_of (\<lambda>c. st_job_id (job_status c) = ?id) (sort_key service_key ?queued) = Some 0"
    using nonempty by (intro position_of_hd) simp_all
  moreover have "map_of (q_jobs (queue s)) ?id = Some j" using active_get [OF inv] spec by blast
  ultimately show "map_option st_queue_position (status_with_position s ?id) = Some (Some 1)"
    using spec by (simp add: status_with_position_def)
qed

section \<open>The end of a job\<close>

lemma terminalize_shape:
  assumes "terminalize env k st receipt error code now s = (Inr status, t)"
  shows "\<exists>job s2 ids. map_of (q_jobs (queue s)) k = Some job \<and> terminal st
    \<and> status = job_status (finish_job st receipt error now job)
    \<and> t = prune_receipts env ids (snd (save_queue env s2)) \<and> registry s2 = registry s
    \<and> q_jobs (queue s2) = bt_remove k (q_jobs (queue s))
    \<and> q_history (queue s2) = drop (length (q_history (queue s)) + 1 - unat (max_history_entries (reg_limits (registry s))))
        (q_history (queue s) @ [history_record (finish_job st receipt error now job) now code])"
proof -
  from assms obtain job where job: "map_of (q_jobs (queue s)) k = Some job" "terminal st"
    by (auto simp: terminalize_def split: if_splits option.splits)
  let ?job = "finish_job st receipt error now job"
  let ?history = "q_history (queue s) @ [history_record ?job now code]"
  let ?n = "length ?history - unat (max_history_entries (reg_limits (registry s)))"
  define s2 where "s2 = s\<lparr>queue := (queue s)\<lparr>q_jobs := bt_remove k (q_jobs (queue s)), q_history := drop ?n ?history\<rparr>\<rparr>"
  let ?ids = "map (\<lambda>e. he_job_id (hist_public e)) (take ?n ?history)"
  have "status = job_status ?job \<and> t = prune_receipts env ?ids (snd (save_queue env s2))"
  proof (cases "contract (job_status_validate (job_status ?job))")
    case (Inl e)
    then show ?thesis using assms job by (simp add: terminalize_def Let_def)
  next
    case (Inr u)
    then have "st_then (save_queue env s2) (\<lambda>_ s3. (Inr (job_status ?job), prune_receipts env ?ids s3)) = (Inr status, t)"
      using assms job unfolding terminalize_def s2_def by (simp add: Let_def)
    then obtain x s3 where "save_queue env s2 = (Inr x, s3)" "(Inr (job_status ?job), prune_receipts env ?ids s3) = (Inr status, t)"
      unfolding st_then_Inr_iff by blast
    then show ?thesis by simp
  qed
  then show ?thesis using job by (intro exI [of _ job] exI [of _ s2] exI [of _ ?ids]) (simp add: s2_def)
qed

lemma prune_receipts_frame [simp]:
  "queue (prune_receipts env ids s) = queue s" "registry (prune_receipts env ids s) = registry s"
  by (simp_all add: prune_receipts_def)

lemma reachable_history_limit:
  assumes "store_reachable ser s"
  shows "1 \<le> unat (max_history_entries (reg_limits (registry s)))"
proof -
  have "disk_inv ser s" using reachable_inv [OF assms] by simp
  then have "limits_validate (reg_limits (registry s)) = Inr ()"
    by (auto simp: disk_inv_def validate_registry_def and_then_unit_iff)
  then have "1 \<le> max_history_entries (reg_limits (registry s))"
    by (auto simp: limits_validate_def and_then_unit_iff)
  then show ?thesis by (simp add: word_le_nat_alt)
qed

text \<open>A finished job is recorded. When a job ends in a terminal state with a well-formed
  error text, and the save succeeds, the job leaves the queue, its record is the newest of the
  history, which keeps within its bound by dropping only the oldest records, and asking for
  its status answers with the terminal state, its owner and its result.\<close>

theorem terminalize_records:
  assumes "store_reachable (se_ser_plan env) s"
    and "terminalize env job_id st receipt error code now s = (Inr status, t)"
  shows "terminal st \<and> st_state status = st \<and> st_receipt status = receipt
    \<and> map_of (q_jobs (queue t)) job_id = None
    \<and> (\<exists>job n. map_of (q_jobs (queue s)) job_id = Some job
        \<and> q_history (queue t) = drop n (q_history (queue s))
            @ [history_record (finish_job st receipt error now job) now code]
        \<and> length (q_history (queue t)) \<le> unat (max_history_entries (reg_limits (registry t))))"
proof -
  let ?limit = "unat (max_history_entries (reg_limits (registry s)))"
  let ?n = "length (q_history (queue s)) + 1 - ?limit"
  from terminalize_shape [OF assms(2)] obtain job where job: "map_of (q_jobs (queue s)) job_id = Some job" "terminal st"
    and status: "status = job_status (finish_job st receipt error now job)"
    and reg: "registry t = registry s" and jobs: "q_jobs (queue t) = bt_remove job_id (q_jobs (queue s))"
    and history: "q_history (queue t) = drop ?n (q_history (queue s) @ [history_record (finish_job st receipt error now job) now code])"
    by auto
  have limit: "1 \<le> ?limit" by (rule reachable_history_limit [OF assms(1)])
  then have "q_history (queue t) = drop ?n (q_history (queue s))
      @ [history_record (finish_job st receipt error now job) now code]"
    using history by (simp add: diff_le_self)
  moreover from this have "length (q_history (queue t)) \<le> ?limit" using limit by simp
  ultimately show ?thesis using job status reg jobs by (auto simp: bt_get_remove finish_job_def)
qed

text \<open>C30: A job whose error text is unusable disappears. The error text is checked only after
  the job has left the queue: if the text is empty or contains a NUL byte (and is short enough
  not to be cut), \<open>terminalize\<close> fails, and the job is then neither in the queue nor in the
  history, so its status is unknown.\<close>

theorem unusable_error_text_loses_job:
  assumes "map_of (q_jobs (queue s)) job_id = Some job" and "terminal st"
    and "error = [] \<or> CHR 0x00 \<in> set error" and "length error \<le> 4096"
    and "\<forall>e \<in> set (q_history (queue s)). he_job_id (hist_public e) \<noteq> job_id"
  shows "\<exists>e t. terminalize env job_id st receipt (Some error) code now s = (Inl e, t)
    \<and> map_of (q_jobs (queue t)) job_id = None
    \<and> q_history (queue t) = q_history (queue s) \<and> store_status t job_id = None"
proof -
  let ?job = "finish_job st receipt (Some error) now job"
  have "Ipc_Contracts.validate_text (bounded_text error 4096) 1 4096 \<noteq> Inr ()"
    using assms(3,4) by (auto simp: bounded_text_def Ipc_Contracts.validate_text_def)
  then have "job_status_validate (job_status ?job) \<noteq> Inr ()"
    by (simp add: job_status_validate_iff finish_job_def)
  then obtain e where e: "job_status_validate (job_status ?job) = Inl e"
    by (cases "job_status_validate (job_status ?job)") auto
  let ?t = "s\<lparr>queue := (queue s)\<lparr>q_jobs := bt_remove job_id (q_jobs (queue s))\<rparr>\<rparr>"
  have "terminalize env job_id st receipt (Some error) code now s = (Inl (Contract e), ?t)"
    using assms(1,2) e by (simp add: terminalize_def Let_def contract_def map_err_def)
  moreover have "find (\<lambda>e. he_job_id (hist_public e) = job_id) (q_history (queue s)) = None"
    using assms(5) by (simp add: find_None_iff)
  ultimately show ?thesis by (simp add: bt_get_remove store_status_def)
qed

lemma boundary_below_le: "boundary_below value n \<le> n \<and> is_char_boundary value (boundary_below value n)"
  by (induction n) (auto simp: is_char_boundary_def)

text \<open>Bounded texts stay within their bound and are cut between characters. The result
  has at most \<open>limit\<close> bytes; it is the text itself, or a prefix of it that ends at a character
  boundary, followed by an ellipsis.\<close>

theorem bounded_text_within:
  assumes "3 \<le> limit"
  shows "length (bounded_text t limit) \<le> limit
    \<and> (bounded_text t limit = t
     \<or> (\<exists>n. n + 3 \<le> limit \<and> is_char_boundary t n
          \<and> bounded_text t limit = take n t @ [CHR 0xE2, CHR 0x80, CHR 0xA6]))"
proof (cases "length t \<le> limit")
  case False
  let ?n = "boundary_below t (limit - 3)"
  have "?n + 3 \<le> limit" "is_char_boundary t ?n" using boundary_below_le [of t "limit - 3"] assms by auto
  then show ?thesis using False by (auto simp: bounded_text_def)
qed (simp add: bounded_text_def)

theorem bounded_text_within_witness: "length (bounded_text ''abcdefgh'' 6) \<le> 6"
  using bounded_text_within [of 6 "''abcdefgh''"] by simp

section \<open>Failed saves\<close>

lemma insert_job_saves:
  assumes "length (q_jobs (queue s)) < unat (max_queue_entries (reg_limits (registry s)))"
    and "job_spec_validate spec = Inr ()" "dry_run_validate (se_ser_plan env) d = Inr ()"
    and "checked_add (q_next_sequence (queue s)) 1 \<noteq> None"
    and "random_id ''job'' b = Inr i" "validate_id i = Inr ()"
  obtains u where "insert_job env owner spec d now b s =
      st_then (save_queue env u) (\<lambda>_ s3. (Inr (status_or s3 i (new_job_status i spec d now)), s3))"
    and "q_jobs (queue u) = bt_insert i (submitted_job i owner (q_next_sequence (queue s)) spec d now) (q_jobs (queue s))"
    and "q_history (queue u) = q_history (queue s)" and "q_generation (queue u) = q_generation (queue s)"
    and "registry u = registry s"
proof -
  obtain seq where seq: "checked_add (q_next_sequence (queue s)) 1 = Some seq" using assms(4) by blast
  have "job_status_validate (new_job_status i spec d now) = Inr ()"
    using assms(2,3,6)
    by (auto simp: job_status_validate_iff new_job_status_def job_spec_validate_def dry_run_validate_def
        and_then_unit_iff and_then_Inr_iff terminal_def)
  moreover have "st_job_id (new_job_status i spec d now) = i" by (simp add: new_job_status_def)
  moreover define u where "u = s\<lparr>queue := (queue s)\<lparr>q_next_sequence := seq, q_jobs :=
      bt_insert i (submitted_job i owner (q_next_sequence (queue s)) spec d now) (q_jobs (queue s))\<rparr>\<rparr>"
  ultimately have mid: "and_then (random_id ''job'' b) (\<lambda>job_id. let status = new_job_status job_id spec d now
      in and_then (contract (job_status_validate status)) (\<lambda>_. Inr status)) = Inr (new_job_status i spec d now)"
    and i: "st_job_id (new_job_status i spec d now) = i"
    using assms(5) by simp_all
  have pre: "and_then (contract (job_spec_validate spec)) (\<lambda>_. and_then (contract (dry_run_validate (se_ser_plan env) d))
      (\<lambda>_. ok_or (checked_add (q_next_sequence (queue s)) 1) SequenceOverflow)) = Inr seq"
    using assms(2,3) seq by simp
  have room: "\<not> unat (max_queue_entries (reg_limits (registry s))) \<le> length (q_jobs (queue s))"
    using assms(1) by simp
  have "insert_job env owner spec d now b s =
      st_then (save_queue env u) (\<lambda>_ s3. (Inr (status_or s3 i (new_job_status i spec d now)), s3))"
    unfolding insert_job_def Let_def [where s = "queue s"] if_not_P [OF room] pre sum.case Let_def mid i
    unfolding mid [unfolded Let_def] sum.case i by (simp add: u_def submitted_job_def)
  then show thesis by (rule that) (simp_all add: u_def)
qed

text \<open>A submission whose save fails stays queued. If everything about a submission is valid
  but writing the queue file fails, the caller is told that it failed, yet the job remains in
  memory, queued under its new identity, and will be served.\<close>

theorem unsaved_submission_stays_queued:
  assumes "length (q_jobs (queue s)) < unat (max_queue_entries (reg_limits (registry s)))"
    and "job_spec_validate spec = Inr ()" "dry_run_validate (se_ser_plan env) d = Inr ()"
    and "checked_add (q_next_sequence (queue s)) 1 \<noteq> None"
    and "random_id ''job'' b = Inr i" "validate_id i = Inr ()"
    and "\<And>q old. fst (se_write_queue env q old) = False" and "bt_wf (q_jobs (queue s))"
  shows "\<exists>e t. insert_job env owner spec d now b s = (Inl e, t)
    \<and> map_of (q_jobs (queue t)) i = Some (submitted_job i owner (q_next_sequence (queue s)) spec d now)
    \<and> next_job t \<noteq> None"
proof -
  have failing: "fst (save_queue env u) \<noteq> Inr ()" for u
    using assms(7) by (auto simp: save_queue_def Let_def split: option.split sum.split prod.split)
      (metis fst_conv)
  obtain u where u: "insert_job env owner spec d now b s =
      st_then (save_queue env u) (\<lambda>_ s3. (Inr (status_or s3 i (new_job_status i spec d now)), s3))"
    and jobs: "q_jobs (queue u) = bt_insert i (submitted_job i owner (q_next_sequence (queue s)) spec d now) (q_jobs (queue s))"
    by (rule insert_job_saves [OF assms(1-6)])
  obtain e t where saved: "save_queue env u = (Inl e, t)"
    using failing [of u] by (cases "save_queue env u"; cases "fst (save_queue env u)") auto
  then have "insert_job env owner spec d now b s = (Inl e, t)" using u by simp
  moreover have got: "map_of (q_jobs (queue t)) i =
      Some (submitted_job i owner (q_next_sequence (queue s)) spec d now)"
    using jobs save_queue_frame(1) [of env u] by (simp add: saved bt.get_put [OF assms(8)])
  moreover have "next_job t \<noteq> None"
  proof -
    have "submitted_job i owner (q_next_sequence (queue s)) spec d now \<in> set (active_jobs t)"
      using got map_of_SomeD unfolding active_jobs_def by force
    then show ?thesis unfolding next_job_none is_queued_def using submitted_job_state(1) by blast
  qed
  ultimately show ?thesis by blast
qed

section \<open>Concrete stores\<close>

definition demo_store_env :: "bool \<Rightarrow> store_env" where
  "demo_store_env written = \<lparr>se_ser_plan = sample_serializer,
     se_write_registry = \<lambda>r old. (written, if written then r else old),
     se_write_queue = \<lambda>q old. (written, if written then q else old), se_removable = \<lambda>_. True,
     se_hmac = \<lambda>_ _. replicate 32 0, se_base64_url = encode_hex, se_canonicalize = (\<lambda>p. if is_absolute p then Some p else None),
     se_is_dir = \<lambda>_. True, se_metadata = \<lambda>_. Found\<rparr>"

lemma demo_store_env_atomic: "writes_atomically (demo_store_env written)"
  by (simp add: writes_atomically_def demo_store_env_def)

lemma demo_store_env_ser [simp]: "se_ser_plan (demo_store_env written) = sample_serializer"
  by (simp add: demo_store_env_def)

lemma random_id_valid:
  assumes "random_id p b = Inr i" "list_all is_ascii_alphanumeric p" "length p \<le> 10"
    and "\<And>bytes. b = Some bytes \<Longrightarrow> length bytes \<le> 32"
  shows "validate_id i = Inr ()"
proof -
  from random_id_prefix [OF assms(1)] obtain bytes where b: "b = Some bytes" "i = p @ CHR ''-'' # encode_hex bytes" by blast
  have alnum: "is_ascii_alphanumeric c" if "is_ascii_hexdigit c" for c
    using that by (auto simp: is_ascii_hexdigit_def is_ascii_alphanumeric_def is_ascii_uppercase_def
        is_ascii_lowercase_def less_eq_char_def)
  have nonnull: "c \<noteq> CHR 0x00" if "is_ascii_alphanumeric c" for c
    using that by (auto simp: is_ascii_alphanumeric_def is_ascii_digit_def is_ascii_uppercase_def
        is_ascii_lowercase_def less_eq_char_def)
  have all: "\<forall>c \<in> set i. c = CHR ''-'' \<or> is_ascii_alphanumeric c"
    using b(2) assms(2) encode_hex_lower alnum by (auto simp: list_all_iff)
  moreover have "CHR 0x00 \<notin> set i" using all nonnull by force
  moreover have "length i \<le> 128" using b assms(3,4) by simp
  ultimately show ?thesis
    by (auto simp: validate_id_def and_then_unit_iff Ipc_Contracts.validate_text_def MAX_ID_BYTES_def list_all_iff b(2))
qed

lemma demo_limits: "limits_validate limits_default = Inr ()"
  by (simp add: limits_validate_def limits_default_def)

lemma hex_digest_ok: "length bs = 32 \<Longrightarrow> length (encode_hex bs) = 64 \<and> list_all is_ascii_hexdigit (encode_hex bs)"
  using encode_hex_lower by (auto simp: list_all_iff)

lemma admin_policy_fields:
  "pol_capabilities admin_policy = [ReadAll, ControlAll, ManageGrants, Shutdown]"
  "pol_label admin_policy = ''administrator''" "pol_input_roots admin_policy = []"
  "pol_output_roots admin_policy = []" "pol_max_priority admin_policy = 100"
  "pol_expires_at_unix_millis admin_policy = None"
  by (simp_all add: admin_policy_def canonicalize_policy_def less_eq_ipc_capability_def)

lemma admin_policy_valid: "policy_validate admin_policy = Inr ()" "validate_admin_policy admin_policy = Inr ()"
  by (simp_all add: policy_validate_def admin_policy_fields Ipc_Contracts.validate_text_def MAX_LABEL_BYTES_def
      MAX_CAPABILITIES_def MAX_ROOTS_def MIN_PRIORITY_def MAX_PRIORITY_def validate_admin_policy_def
      less_ipc_capability_def)

definition demo_token :: string where "demo_token = encode_hex (replicate 32 2)"

definition demo_admin :: "string \<Rightarrow> string \<Rightarrow> stored_grant" where
  "demo_admin server_id i = \<lparr>sg_summary = new_grant_summary server_id i admin_policy 5,
     sg_token_digest = token_digest (demo_store_env True) demo_token\<rparr>"

lemma demo_created:
  "\<exists>r q document. initialize_documents (demo_store_env True) limits_default 5 (Some (replicate 16 0))
      (Some (replicate 16 1)) (Some (replicate 32 2)) = Inr (r, q, document)
    \<and> q_jobs q = [] \<and> q_history q = [] \<and> q_next_sequence q = 1 \<and> q_generation q = 1 \<and> reg_limits r = limits_default
    \<and> reg_generation r = 1 \<and> (\<exists>i. random_id ''grant'' (Some (replicate 16 1)) = Inr i \<and> reg_grants r = [(i, demo_admin (reg_server_id r) i)])"
proof -
  let ?env = "demo_store_env True"
  obtain srv grant where ids: "random_id ''srv'' (Some (replicate 16 0)) = Inr srv"
    "random_id ''grant'' (Some (replicate 16 1)) = Inr grant"
    by (simp add: random_id_def)
  have valid: "validate_id srv = Inr ()" "validate_id grant = Inr ()"
    using ids by (auto intro!: random_id_valid simp: is_ascii_alphanumeric_def is_ascii_digit_def
        is_ascii_uppercase_def is_ascii_lowercase_def less_eq_char_def)
  let ?token = "encode_hex (replicate 32 2)"
  have token: "random_token ?env (Some (replicate 32 2)) = Inr ?token"
    by (simp add: random_token_def demo_store_env_def)
  have "CHR 0x00 \<notin> set ?token"
    using encode_hex_lower [of "CHR 0x00" "replicate 32 2"]
    by (auto simp: is_ascii_hexdigit_def is_ascii_digit_def less_eq_char_def)
  then have token_text: "Ipc_Contracts.validate_text ?token 32 256 = Inr ()"
    by (simp add: Ipc_Contracts.validate_text_def)
  have digest: "length (token_digest ?env ?token) = 64 \<and> list_all is_ascii_hexdigit (token_digest ?env ?token)"
    unfolding token_digest_def by (rule hex_digest_ok) (simp add: demo_store_env_def)
  show ?thesis
    using ids valid token token_text admin_policy_fields(2) digest demo_limits admin_policy_valid
    by (simp add: initialize_documents_def grant_document_validate_def Ipc_Contracts.require_schema_def
        validate_registry_def validate_stored_grant_def new_grant_summary_def validate_queue_def
        demo_admin_def demo_token_def)
qed

text \<open>The environment of the examples writes every file as asked, or fails every write.\<close>

lemma save_queue_succeeds:
  assumes "store_inv (se_ser_plan env) s" and "checked_add (q_generation (queue s)) 1 = Some g"
    and "\<And>q old. fst (se_write_queue env q old)"
  shows "fst (save_queue env s) = Inr ()"
proof -
  have "validate_queue (se_ser_plan env) ((queue s)\<lparr>q_generation := g\<rparr>) (registry s) = Inr ()"
    using assms(1) by (simp add: store_inv_def validate_queue_def)
  then show ?thesis
    using assms(2) assms(3) [of "(queue s)\<lparr>q_generation := g\<rparr>" "queue_file s"]
    by (auto simp: save_queue_def Let_def split: prod.split)
qed

lemma save_queue_generation:
  "fst (save_queue env s) = Inr () \<Longrightarrow>
     checked_add (q_generation (queue s)) 1 = Some (q_generation (queue (snd (save_queue env s))))"
  by (auto simp: save_queue_def Let_def split: option.splits sum.splits prod.splits)

definition demo_report :: dry_run_report where
  "demo_report = \<lparr>dry_schema = IPC_DRY_RUN_SCHEMA, dry_schema_version = IPC_SCHEMA_VERSION,
     dry_plan_digest = encode_hex (replicate 32 7), dry_resources = \<lparr>rs_memory_bytes = 0, rs_temporary_bytes = 0,
       rs_cpu_jobs = 1, rs_gpu_jobs = 0, rs_gpu_memory_bytes = 0\<rparr>,
     dry_destinations = \<lparr>ds_process = 1, ds_create = 1, ds_replace = 0, ds_skip = 0\<rparr>,
     dry_overwrite_policy = ''no-clobber'', dry_pause_supported = True, dry_plan = sample_plan\<rparr>"

definition demo_spec :: job_spec where "demo_spec = job_spec_new FileJob ''/in/a.wav'' ''/out/a.wav''"

lemma demo_report_valid: "dry_run_validate sample_serializer demo_report = Inr ()"
proof -
  have "length (encode_hex (replicate 32 7)) = 64 \<and> list_all is_ascii_hexdigit (encode_hex (replicate 32 7))"
    by (rule hex_digest_ok) simp
  then show ?thesis
    using sample_plan_valid
    by (simp add: dry_run_validate_def demo_report_def Ipc_Contracts.require_schema_def Ipc_Contracts.validate_digest_def
        known_overwrite_policy_def)
qed

lemma demo_spec_valid: "job_spec_validate demo_spec = Inr ()"
  by (simp add: job_spec_validate_def demo_spec_def job_spec_new_def Ipc_Contracts.validate_text_def
      MAX_PATH_BYTES_def MAX_ARGUMENTS_def MIN_PRIORITY_def MAX_PRIORITY_def)

abbreviation demo_owner :: string where "demo_owner \<equiv> ''grant-demo''"

lemma demo_owner_valid: "validate_id demo_owner = Inr ()"
  by (simp add: validate_id_def Ipc_Contracts.validate_text_def MAX_ID_BYTES_def
      is_ascii_alphanumeric_def is_ascii_uppercase_def is_ascii_lowercase_def is_ascii_digit_def less_eq_char_def)

text \<open>A store just created, with no jobs.\<close>

lemma demo_store:
  obtains s where "store_reachable sample_serializer s" and "q_jobs (queue s) = []" and "q_history (queue s) = []"
    and "q_next_sequence (queue s) = 1" and "q_generation (queue s) = 1" and "reg_limits (registry s) = limits_default"
    and "reg_generation (registry s) = 1" and "validate_registry (registry s) = Inr ()"
    and "\<exists>i. random_id ''grant'' (Some (replicate 16 1)) = Inr i \<and> reg_grants (registry s) = [(i, demo_admin (reg_server_id (registry s)) i)]"
    and "\<exists>r q document. initialize_documents (demo_store_env True) limits_default 5 (Some (replicate 16 0))
      (Some (replicate 16 1)) (Some (replicate 32 2)) = Inr (r, q, document) \<and> s = created_store r q"
proof -
  obtain r q document where c: "initialize_documents (demo_store_env True) limits_default 5 (Some (replicate 16 0))
      (Some (replicate 16 1)) (Some (replicate 32 2)) = Inr (r, q, document)"
    and q: "q_jobs q = []" "q_history q = []" "q_next_sequence q = 1" "q_generation q = 1" "reg_limits r = limits_default"
      "reg_generation r = 1" "\<exists>i. random_id ''grant'' (Some (replicate 16 1)) = Inr i \<and> reg_grants r = [(i, demo_admin (reg_server_id r) i)]"
    using demo_created by blast
  have "validate_registry r = Inr ()"
    using c by (auto simp: initialize_documents_def and_then_Inr_iff Let_def)
  show thesis
    by (rule that [OF store_reachable.created [OF c demo_store_env_ser]]) (use q c \<open>validate_registry r = Inr ()\<close> in \<open>auto simp: created_store_def\<close>)
qed

lemma demo_room: "unat (max_queue_entries limits_default) = 1024" "unat (max_history_entries limits_default) = 1024"
  by (simp_all add: limits_default_def)

text \<open>A store with one queued job.\<close>

lemma demo_job_of:
  assumes spec: "job_spec_validate spec = Inr ()"
  obtains s i where "store_reachable sample_serializer s"
    and "q_jobs (queue s) = [(i, submitted_job i demo_owner 1 spec demo_report 9)]"
    and "q_history (queue s) = []" and "q_generation (queue s) = 2" and "validate_id i = Inr ()"
    and "\<exists>j. reg_grants (registry s) = [(j, demo_admin (reg_server_id (registry s)) j)]"
    and "validate_registry (registry s) = Inr ()"
proof -
  let ?env = "demo_store_env True" and ?b = "Some (replicate 16 (3::u8))"
  obtain s where s: "store_reachable sample_serializer s" "q_jobs (queue s) = []" "q_history (queue s) = []"
    "q_next_sequence (queue s) = 1" "q_generation (queue s) = 1" "reg_limits (registry s) = limits_default"
    and reg: "validate_registry (registry s) = Inr ()"
      "\<exists>i. random_id ''grant'' (Some (replicate 16 1)) = Inr i \<and> reg_grants (registry s) = [(i, demo_admin (reg_server_id (registry s)) i)]"
    by (rule demo_store)
  obtain i where i: "random_id ''job'' ?b = Inr i" by (simp add: random_id_def)
  have valid: "validate_id i = Inr ()"
    using i by (rule random_id_valid) (auto simp: is_ascii_alphanumeric_def is_ascii_uppercase_def
        is_ascii_lowercase_def is_ascii_digit_def less_eq_char_def)
  obtain u where u: "insert_job ?env demo_owner spec demo_report 9 ?b s =
      st_then (save_queue ?env u) (\<lambda>_ s3. (Inr (status_or s3 i (new_job_status i spec demo_report 9)), s3))"
    and jobs: "q_jobs (queue u) = bt_insert i (submitted_job i demo_owner (q_next_sequence (queue s)) spec demo_report 9)
        (q_jobs (queue s))" and hist: "q_history (queue u) = q_history (queue s)"
    and gen: "q_generation (queue u) = q_generation (queue s)" and registry: "registry u = registry s"
    by (rule insert_job_saves [of s spec ?env demo_report ?b i demo_owner 9])
      (simp_all add: s demo_room spec demo_report_valid i valid checked_add_def)
  let ?t = "snd (insert_job ?env demo_owner spec demo_report 9 ?b s)"
  have "store_step ?env s ?t"
    by (rule store_step.submit) (simp_all add: demo_owner_valid fresh_job_id_def s(2))
  then have t: "store_reachable sample_serializer ?t"
    by (rule store_reachable.stepped [OF s(1) demo_store_env_atomic demo_store_env_ser])
  have shape: "?t = snd (save_queue ?env u)" unfolding u by simp
  have "store_inv (se_ser_plan ?env) u"
    using reachable_inv [OF t] by (simp add: shape)
  then have "fst (save_queue ?env u) = Inr ()"
    by (rule save_queue_succeeds [where g = 2]) (simp_all add: gen s(5) checked_add_def demo_store_env_def)
  from save_queue_generation [OF this] have "q_generation (queue ?t) = 2"
    by (simp add: gen s(5) checked_add_def shape)
  moreover have "q_jobs (queue ?t) = [(i, submitted_job i demo_owner 1 spec demo_report 9)]"
    using jobs by (simp add: shape s)
  moreover have "q_history (queue ?t) = []" using hist s(3) by (simp add: shape)
  moreover have "registry ?t = registry s" using registry by (simp add: shape)
  ultimately show thesis using that [OF t] valid reg by (metis (no_types, lifting))
qed

lemma demo_job:
  obtains s i where "store_reachable sample_serializer s"
    and "q_jobs (queue s) = [(i, submitted_job i demo_owner 1 demo_spec demo_report 9)]"
    and "q_history (queue s) = []" and "q_generation (queue s) = 2" and "validate_id i = Inr ()"
    and "\<exists>j. reg_grants (registry s) = [(j, demo_admin (reg_server_id (registry s)) j)]"
    and "validate_registry (registry s) = Inr ()"
  by (rule demo_job_of [OF demo_spec_valid]) (rule that)

theorem store_always_valid_witness:
  "\<exists>s. store_reachable sample_serializer s \<and> length (q_jobs (queue s)) = 1
     \<and> validate_queue sample_serializer (queue s) (registry s) = Inr ()
     \<and> validate_queue sample_serializer (queue_file s) (registry_file s) = Inr ()"
proof -
  obtain s i where s: "store_reachable sample_serializer s"
    "q_jobs (queue s) = [(i, submitted_job i demo_owner 1 demo_spec demo_report 9)]" by (rule demo_job)
  then show ?thesis using store_always_valid [OF s(1)] by (intro exI [of _ s]) simp
qed

theorem restart_always_possible_witness:
  "\<exists>s t. store_reachable sample_serializer s \<and> length (q_jobs (queue s)) = 1
     \<and> store_open (demo_store_env True) (registry_file s) (queue_file s) [] = Inr t \<and> queue t = queue_file s"
proof -
  obtain s i where s: "store_reachable sample_serializer s"
    "q_jobs (queue s) = [(i, submitted_job i demo_owner 1 demo_spec demo_report 9)]" by (rule demo_job)
  show ?thesis
    using restart_always_possible [OF s(1) demo_store_env_ser, of True "[]"] s
    by (auto simp: demo_store_env_def)
qed

theorem transitions_legal_witness:
  "\<exists>s t. store_reachable sample_serializer s \<and> q_jobs (queue s) \<noteq> []
     \<and> store_step (demo_store_env True) s t \<and> store_evolves s t"
proof -
  obtain s i where s: "store_reachable sample_serializer s"
    "q_jobs (queue s) = [(i, submitted_job i demo_owner 1 demo_spec demo_report 9)]" by (rule demo_job)
  then show ?thesis using transitions_legal [OF s(1) store_step.run [of "demo_store_env True" s i 41 10]]
      store_step.run [of "demo_store_env True" s i 41 10] by (intro exI conjI) auto
qed

theorem next_job_is_first_witness:
  "\<exists>s j. store_reachable sample_serializer s \<and> next_job s = Some j \<and> st_state (job_status j) = Queued
     \<and> map_option st_queue_position (status_with_position s (st_job_id (job_status j))) = Some (Some 1)"
proof -
  obtain s i where s: "store_reachable sample_serializer s"
    "q_jobs (queue s) = [(i, submitted_job i demo_owner 1 demo_spec demo_report 9)]" by (rule demo_job)
  have "\<not> (\<forall>i \<in> set (active_jobs s). st_state (job_status i) \<noteq> Queued)"
    by (simp add: active_jobs_def s(2) submitted_job_state)
  then show ?thesis using next_job_is_first [OF s(1)] s(1) by (cases "next_job s") auto
qed

lemma submitted_cancels:
  assumes "validate_id i = Inr ()"
  shows "job_status_validate (job_status (finish_job Cancelled None None now
      (submitted_job i demo_owner 1 demo_spec demo_report 9))) = Inr ()"
proof -
  have "validate_digest (dry_plan_digest demo_report) = Inr ()"
    using demo_report_valid by (auto simp: dry_run_validate_def and_then_unit_iff)
  then show ?thesis
    using assms by (simp add: job_status_validate_iff finish_job_def submitted_job_def new_job_status_def
        demo_spec_def job_spec_new_def terminal_def MIN_PRIORITY_def MAX_PRIORITY_def)
qed

theorem terminalize_records_witness:
  "\<exists>s i status t. store_reachable sample_serializer s
     \<and> terminalize (demo_store_env True) i Cancelled None None None 12 s = (Inr status, t)
     \<and> st_state status = Cancelled \<and> map_of (q_jobs (queue t)) i = None \<and> length (q_history (queue t)) \<le> 1024"
proof -
  let ?env = "demo_store_env True"
  obtain s i where s: "store_reachable sample_serializer s"
    "q_jobs (queue s) = [(i, submitted_job i demo_owner 1 demo_spec demo_report 9)]"
    "q_history (queue s) = []" "q_generation (queue s) = 2" "validate_id i = Inr ()" by (rule demo_job)
  let ?s2 = "s\<lparr>queue := (queue s)\<lparr>q_jobs := bt_remove i (q_jobs (queue s)), q_history :=
     drop (1 - unat (max_history_entries (reg_limits (registry s))))
       [history_record (finish_job Cancelled None None 12 (submitted_job i demo_owner 1 demo_spec demo_report 9)) 12 None]\<rparr>\<rparr>"
  have shape: "terminalize ?env i Cancelled None None None 12 s = st_then (save_queue ?env ?s2) (\<lambda>_ s3.
      (Inr (job_status (finish_job Cancelled None None 12 (submitted_job i demo_owner 1 demo_spec demo_report 9))),
       prune_receipts ?env (map (\<lambda>e. he_job_id (hist_public e))
         (take (1 - unat (max_history_entries (reg_limits (registry s))))
           [history_record (finish_job Cancelled None None 12 (submitted_job i demo_owner 1 demo_spec demo_report 9)) 12 None])) s3))"
    by (simp add: terminalize_def Let_def s(2,3) terminal_def submitted_cancels [OF s(5)])
  have "store_inv sample_serializer s" using reachable_inv [OF s(1)] by simp
  from terminalize_inv [OF this, of ?env i Cancelled None None None 12]
  have "store_inv (se_ser_plan ?env) ?s2"
    unfolding shape by (simp add: snd_st_then split: sum.splits)
  then have "fst (save_queue ?env ?s2) = Inr ()"
    by (rule save_queue_succeeds [where g = 3]) (simp_all add: s(4) checked_add_def demo_store_env_def)
  then obtain s3 where "save_queue ?env ?s2 = (Inr (), s3)" by (cases "save_queue ?env ?s2") auto
  then obtain status t where done_: "terminalize ?env i Cancelled None None None 12 s = (Inr status, t)"
    unfolding shape by simp
  from terminalize_records [OF _ this] s(1) have r: "st_state status = Cancelled" "map_of (q_jobs (queue t)) i = None"
    "length (q_history (queue t)) \<le> 1"
    by (auto simp: s(3))
  show ?thesis
    by (rule exI [of _ s], rule exI [of _ i], rule exI [of _ status], rule exI [of _ t])
      (use s(1) done_ r in simp)
qed

theorem unusable_error_text_loses_job_witness:
  "\<exists>s i e t. store_reachable sample_serializer s \<and> map_of (q_jobs (queue s)) i \<noteq> None
     \<and> terminalize (demo_store_env True) i Failed None (Some []) None 12 s = (Inl e, t) \<and> store_status t i = None"
proof -
  obtain s i where s: "store_reachable sample_serializer s"
    "q_jobs (queue s) = [(i, submitted_job i demo_owner 1 demo_spec demo_report 9)]"
    "q_history (queue s) = []" by (rule demo_job)
  have stored: "map_of (q_jobs (queue s)) i = Some (submitted_job i demo_owner 1 demo_spec demo_report 9)"
    by (simp add: s(2))
  then show ?thesis
    using unusable_error_text_loses_job [OF stored, of Failed "[]" "demo_store_env True" None None 12] s(1)
    by (auto simp: s(3) terminal_def)
qed

theorem unsaved_submission_stays_queued_witness:
  "\<exists>s e t. store_reachable sample_serializer s
     \<and> insert_job (demo_store_env False) demo_owner demo_spec demo_report 9 (Some (replicate 16 3)) s = (Inl e, t)
     \<and> next_job t \<noteq> None"
proof -
  let ?b = "Some (replicate 16 (3::u8))"
  obtain s where s: "store_reachable sample_serializer s" "q_jobs (queue s) = []" "q_next_sequence (queue s) = 1"
    "reg_limits (registry s) = limits_default" by (rule demo_store)
  obtain i where i: "random_id ''job'' ?b = Inr i" by (simp add: random_id_def)
  have valid: "validate_id i = Inr ()"
    using i by (rule random_id_valid) (auto simp: is_ascii_alphanumeric_def is_ascii_uppercase_def
        is_ascii_lowercase_def is_ascii_digit_def less_eq_char_def)
  have "\<exists>e t. insert_job (demo_store_env False) demo_owner demo_spec demo_report 9 ?b s = (Inl e, t)
      \<and> map_of (q_jobs (queue t)) i = Some (submitted_job i demo_owner (q_next_sequence (queue s)) demo_spec demo_report 9)
      \<and> next_job t \<noteq> None"
    by (rule unsaved_submission_stays_queued)
      (simp_all add: s demo_room demo_spec_valid demo_report_valid i valid checked_add_def demo_store_env_def bt_wf_def)
  then show ?thesis using s(1) by blast
qed

end
