(* ===== verification/Ipc_Grants.thy ===== *)
theory Ipc_Grants
  imports Ipc_Outcomes
begin

text \<open>
  Capability grants over the life of the store (\<open>src/src/ipc/storage.rs\<close>): what an issued
  token is worth, what revocation means in every later state and across restarts, who can
  still manage grants, and which paths a grant admits.
\<close>

section \<open>The registry under every operation\<close>

lemma save_queue_registry_file [simp]: "registry_file (snd (save_queue env s)) = registry_file s"
  using save_queue_cases [of env s] by auto

lemma update_job_registry [simp]:
  "registry (update_job f k s) = registry s" "registry_file (update_job f k s) = registry_file s"
  by (simp_all add: update_job_def)

lemma prune_receipts_registry [simp]:
  "registry (prune_receipts env ids s) = registry s" "registry_file (prune_receipts env ids s) = registry_file s"
  by (simp_all add: prune_receipts_def)

definition same_registry :: "state_store \<Rightarrow> state_store \<Rightarrow> bool" where
  "same_registry s t \<longleftrightarrow> registry t = registry s \<and> registry_file t = registry_file s"

lemma queue_steps_registry:
  "same_registry s (snd (insert_job env owner spec d now b s))"
  "same_registry s (snd (mark_running env k p now s))"
  "same_registry s (snd (update_process_id env k p s))"
  "same_registry s (snd (replace_dry_run env k d s))"
  "same_registry s (snd (request_control env k pause s))"
  "same_registry s (snd (resume env k s))"
  "same_registry s (snd (mark_paused env k s))"
  "same_registry s (snd (requeue_recovered env k s))"
  by (auto simp: same_registry_def insert_job_def mark_running_def update_process_id_def replace_dry_run_def
      request_control_def resume_def mark_paused_def requeue_recovered_def Let_def
      split: option.split sum.split)

lemma terminalize_registry: "same_registry s (snd (terminalize env k st receipt error code now s))"
  by (auto simp: same_registry_def terminalize_def Let_def snd_st_then split: option.split sum.split)

lemma cancel_each_registry: "same_registry s (snd (cancel_each env now ids s))"
proof (induction ids arbitrary: s)
  case (Cons k ids)
  then show ?case
    using terminalize_registry [of s env k Cancelled None "Some FORCED_SHUTDOWN_TEXT" "Some ''cancelled''" now]
    by (auto simp: snd_st_then same_registry_def split: sum.split)
qed (simp add: same_registry_def)

lemma cancel_waiting_jobs_registry: "same_registry s (snd (cancel_waiting_jobs env now s))"
  using cancel_each_registry [of s env now "map fst (filter (\<lambda>e. is_waiting (snd e)) (q_jobs (queue s)))"]
  by (auto simp: cancel_waiting_jobs_def same_registry_def snd_st_then interrupt_all_def split: sum.split)

lemma prepare_recovery_registry: "same_registry s (snd (prepare_recovery env s))"
proof -
  have "same_registry s (fold (update_job orphan_running) ids s)" for ids
    by (induction ids arbitrary: s) (auto simp: same_registry_def)
  then show ?thesis by (auto simp: prepare_recovery_def same_registry_def Let_def)
qed

lemmas steps_registry = queue_steps_registry terminalize_registry cancel_waiting_jobs_registry prepare_recovery_registry

section \<open>What a step does to the grants\<close>

lemma save_registry_grants [simp]:
  "reg_grants (registry (snd (save_registry env s))) = reg_grants (registry s)"
  by (auto simp: save_registry_def Let_def split: option.split sum.split prod.split)

lemma save_registry_written:
  assumes "writes_atomically env"
  shows "reg_grants (registry_file (snd (save_registry env s))) = reg_grants (registry_file s)
       \<or> reg_grants (registry_file (snd (save_registry env s))) = reg_grants (registry s)"
    and "fst (save_registry env s) = Inr () \<Longrightarrow>
       reg_grants (registry_file (snd (save_registry env s))) = reg_grants (registry s)"
proof -
  have "(disk = r \<or> disk = old) \<and> (written \<longrightarrow> disk = r)" if "se_write_registry env r old = (written, disk)" for r old written disk
    using assms that unfolding writes_atomically_def by blast
  then show "reg_grants (registry_file (snd (save_registry env s))) = reg_grants (registry_file s)
       \<or> reg_grants (registry_file (snd (save_registry env s))) = reg_grants (registry s)"
    and "fst (save_registry env s) = Inr () \<Longrightarrow>
       reg_grants (registry_file (snd (save_registry env s))) = reg_grants (registry s)"
    by (fastforce simp: save_registry_def Let_def split: option.splits sum.splits prod.splits if_splits)+
qed

lemma snd_then_registry [simp]:
  "snd (st_then (save_registry env s) (\<lambda>_ s'. (f s', s'))) = snd (save_registry env s)"
  by (simp add: snd_st_then split: sum.split)

definition issued_grant :: "store_env \<Rightarrow> state_store \<Rightarrow> grant_document \<Rightarrow> u64 \<Rightarrow> stored_grant" where
  "issued_grant env s document now =
    \<lparr>sg_summary = new_grant_summary (reg_server_id (registry s)) (doc_grant_id document) (doc_policy document) now,
     sg_token_digest = token_digest env (doc_token document)\<rparr>"

definition with_grants :: "(string, stored_grant) btree \<Rightarrow> state_store \<Rightarrow> state_store" where
  "with_grants g s = s\<lparr>registry := (registry s)\<lparr>reg_grants := g\<rparr>\<rparr>"

text \<open>The two outcomes of \<open>create_grant\<close>: refused before anything changed, or inserted and saved.\<close>

lemma create_grant_cases:
  obtains (refused) e where "create_grant env requested now gb tb s = (Inl e, s)"
  | (issued) document where "random_id ''grant'' gb = Inr (doc_grant_id document)"
    "doc_server_id document = reg_server_id (registry s)"
    "grant_document_validate document = Inr ()" "policy_validate (doc_policy document) = Inr ()"
    "create_grant env requested now gb tb s = st_then (save_registry env
       (with_grants (bt_insert (doc_grant_id document) (issued_grant env s document now) (reg_grants (registry s))) s))
       (\<lambda>_ s'. (Inr document, s'))"
proof -
  let ?D = "and_then (normalize_policy_roots env (canonicalize_policy requested)) (\<lambda>policy.
          and_then (contract (policy_validate policy)) (\<lambda>_.
          and_then (random_id ''grant'' gb) (\<lambda>grant_id.
          and_then (random_token env tb) (\<lambda>token.
          let document = \<lparr>doc_schema = IPC_GRANT_SCHEMA, doc_schema_version = IPC_SCHEMA_VERSION,
                doc_server_id = reg_server_id (registry s), doc_grant_id = grant_id, doc_token = token,
                doc_policy = policy, doc_issued_at_unix_millis = now\<rparr>
          in and_then (contract (grant_document_validate document)) (\<lambda>_. Inr document)))))"
  show thesis
  proof (cases ?D)
    case (Inl e)
    show ?thesis by (rule refused) (unfold create_grant_def, unfold Inl sum.case, rule refl)
  next
    case (Inr document)
    have shape: "create_grant env requested now gb tb s = st_then (save_registry env
       (with_grants (bt_insert (doc_grant_id document) (issued_grant env s document now) (reg_grants (registry s))) s))
       (\<lambda>_ s'. (Inr document, s'))"
      unfolding create_grant_def unfolding Inr sum.case unfolding Let_def issued_grant_def with_grants_def by (rule refl)
    from Inr show ?thesis
      by (auto simp: and_then_Inr_iff Let_def intro!: issued [OF _ _ _ _ shape])
  qed
qed

lemma revoke_grant_cases:
  obtains (refused) e where "revoke_grant env k now s = (Inl e, s)"
  | (marked) grant where "map_of (reg_grants (registry s)) k = Some grant"
    "\<not> (manages grant \<and> length (filter live_manager (map snd (reg_grants (registry s)))) = 1)"
    "revoke_grant env k now s =
       save_registry env (with_grants (bt_update (mark_revoked now) k (reg_grants (registry s))) s)"
proof (cases "map_of (reg_grants (registry s)) k")
  case None
  then show ?thesis by (intro refused) (simp add: revoke_grant_def Let_def)
next
  case (Some grant)
  show ?thesis
  proof (cases "manages grant \<and> length (filter live_manager (map snd (reg_grants (registry s)))) = 1")
    case True
    then show ?thesis by (intro refused) (simp add: revoke_grant_def Let_def Some)
  next
    case False
    show ?thesis
      by (rule marked [OF Some False])
        (unfold revoke_grant_def Let_def Some option.case if_not_P [OF False] with_grants_def, rule refl)
  qed
qed

text \<open>An invariant of the grants that creation and revocation keep holds in memory and on disk
  after every step.\<close>

definition grants_both :: "((string, stored_grant) btree \<Rightarrow> bool) \<Rightarrow> state_store \<Rightarrow> bool" where
  "grants_both P s \<longleftrightarrow> bt_wf (reg_grants (registry s)) \<and> bt_wf (reg_grants (registry_file s))
     \<and> P (reg_grants (registry s)) \<and> P (reg_grants (registry_file s))"

lemma grants_both_frame: "same_registry s t \<Longrightarrow> grants_both P s \<Longrightarrow> grants_both P t"
  by (simp add: same_registry_def grants_both_def)

lemma grants_both_saved:
  assumes "writes_atomically env" "grants_both P s" "bt_wf g" "P g"
  shows "grants_both P (snd (save_registry env (with_grants g s)))"
  using save_registry_written(1) [OF assms(1), of "with_grants g s"] assms(2-4)
  by (auto simp: grants_both_def with_grants_def)

lemma grants_both_step:
  assumes step: "store_step env s t" and env: "writes_atomically env" and inv: "grants_both P s"
    and create: "\<And>i g. map_of (reg_grants (registry s)) i = None \<Longrightarrow> P (bt_insert i g (reg_grants (registry s)))"
    and revoke: "\<And>k now grant. map_of (reg_grants (registry s)) k = Some grant \<Longrightarrow>
        \<not> (manages grant \<and> length (filter live_manager (map snd (reg_grants (registry s)))) = 1) \<Longrightarrow>
        P (bt_update (mark_revoked now) k (reg_grants (registry s)))"
  shows "grants_both P t"
proof -
  have wf: "bt_wf (reg_grants (registry s))" using inv by (simp add: grants_both_def)
  note kept = steps_registry [THEN grants_both_frame]
  from step show ?thesis
  proof cases
    case (grant gb requested now tb)
    show ?thesis
    proof (cases rule: create_grant_cases [of env requested now gb tb s])
      case (issued document)
      then show ?thesis using grant create
        by (auto simp: fresh_grant_id_def intro!: grants_both_saved [OF env inv] bt_insert_wf [OF wf])
    qed (use grant inv in simp)
  next
    case (revoke k now)
    show ?thesis
    proof (cases rule: revoke_grant_cases [of env k now s])
      case (marked g)
      then show ?thesis using revoke assms(5)
        by (auto intro!: grants_both_saved [OF env inv] bt_update_wf [OF wf])
    qed (use revoke inv in simp)
  qed (use inv in \<open>simp_all add: kept\<close>)
qed

section \<open>Invariants of the grants\<close>

definition revoked_grant :: "string \<Rightarrow> (string, stored_grant) btree \<Rightarrow> bool" where
  "revoked_grant k m \<longleftrightarrow>
     (\<exists>grant. map_of m k = Some grant \<and> sum_revoked_at_unix_millis (sg_summary grant) \<noteq> None)"

definition has_manager :: "(string, stored_grant) btree \<Rightarrow> bool" where
  "has_manager m \<longleftrightarrow> list_ex live_manager (map snd m)"

lemma mark_revoked_simps [simp]:
  "sum_revoked_at_unix_millis (sg_summary (mark_revoked now grant)) =
     Some (case sum_revoked_at_unix_millis (sg_summary grant) of None \<Rightarrow> now | Some t \<Rightarrow> t)"
  "sum_policy (sg_summary (mark_revoked now grant)) = sum_policy (sg_summary grant)"
  by (simp_all add: mark_revoked_def split: option.split)

lemma revoked_grant_insert:
  assumes "bt_wf m" "map_of m i = None" "revoked_grant k m"
  shows "revoked_grant k (bt_insert i g m)"
  using assms by (auto simp: revoked_grant_def bt_get_insert)

lemma revoked_grant_update: "revoked_grant k m \<Longrightarrow> revoked_grant k (bt_update (mark_revoked now) j m)"
  by (cases "k = j") (auto simp: revoked_grant_def bt_get_update)

lemma has_manager_get: "bt_wf m \<Longrightarrow> has_manager m \<longleftrightarrow> (\<exists>k grant. map_of m k = Some grant \<and> live_manager grant)"
  using bt.entries_get [of m] by (force simp: has_manager_def list_ex_iff)

lemma has_manager_insert:
  assumes "bt_wf m" "map_of m i = None" "has_manager m"
  shows "has_manager (bt_insert i g m)"
proof -
  obtain k grant where "map_of m k = Some grant" "live_manager grant" using assms(1,3) has_manager_get by blast
  then have "map_of (bt_insert i g m) k = Some grant" using assms(1,2) by (auto simp: bt_get_insert)
  then show ?thesis using \<open>live_manager grant\<close> has_manager_get [OF bt_insert_wf [OF assms(1)]] by blast
qed

text \<open>Of two live managers one has another identity than the one that is revoked.\<close>

lemma has_manager_update:
  assumes wf: "bt_wf m" and some: "map_of m k = Some grant" "has_manager m"
    and other: "\<not> (manages grant \<and> length (filter live_manager (map snd m)) = 1)"
  shows "has_manager (bt_update (mark_revoked now) k m)"
proof -
  obtain j g where j: "map_of m j = Some g" "live_manager g" using some(2) has_manager_get [OF wf] by blast
  have "\<exists>i h. i \<noteq> k \<and> map_of m i = Some h \<and> live_manager h"
  proof (rule ccontr)
    assume none: "\<not> ?thesis"
    then have "j = k" using j by blast
    then have here: "j = k" "g = grant" using j some(1) by simp_all
    have only: "(a, b) = (k, grant)" if "(a, b) \<in> set m" "live_manager b" for a b
    proof -
      have got: "map_of m a = Some b" using that(1) bt_wf_distinct [OF wf] by simp
      then have "a = k" using none that(2) by blast
      then show ?thesis using got some(1) by simp
    qed
    have mem: "(k, grant) \<in> set m" using some(1) by (rule map_of_SomeD)
    have live: "live_manager grant" using here j(2) by simp
    have "set (filter (\<lambda>e. live_manager (snd e)) m) \<subseteq> {(k, grant)}"
    proof
      fix e assume "e \<in> set (filter (\<lambda>e. live_manager (snd e)) m)"
      then have "(fst e, snd e) \<in> set m" "live_manager (snd e)" by simp_all
      then have "(fst e, snd e) = (k, grant)" by (rule only)
      then show "e \<in> {(k, grant)}" by simp
    qed
    moreover have "{(k, grant)} \<subseteq> set (filter (\<lambda>e. live_manager (snd e)) m)" using mem live by simp
    ultimately have "set (filter (\<lambda>e. live_manager (snd e)) m) = {(k, grant)}" by (rule equalityI)
    moreover have "distinct (filter (\<lambda>e. live_manager (snd e)) m)"
      using bt_wf_distinct [OF wf] by (simp add: distinct_map)
    ultimately have "length (filter (\<lambda>e. live_manager (snd e)) m) = 1" using distinct_card by (metis card_1_singleton_iff One_nat_def)
    then have "length (filter live_manager (map snd m)) = 1" by (simp add: filter_map comp_def)
    then show False using other j(2) here by (simp add: live_manager_def)
  qed
  then obtain i h where "i \<noteq> k" "map_of m i = Some h" "live_manager h" by blast
  then show ?thesis using has_manager_get [OF bt_update_wf [OF wf]] by (auto simp: bt_get_update)
qed

lemma created_grants:
  assumes "initialize_documents env limits now sb gb tb = Inr (r, q, document)"
  shows "bt_wf (reg_grants r) \<and> has_manager (reg_grants r)"
  using assms
  by (auto simp: initialize_documents_def and_then_Inr_iff Let_def bt_wf_def has_manager_def live_manager_def manages_def
      new_grant_summary_def validate_admin_policy_def)

lemma reachable_managers: "store_reachable ser s \<Longrightarrow> grants_both has_manager s"
proof (induction rule: store_reachable.induct)
  case (created env limits now sb gb tb r q document)
  then show ?case using created_grants by (simp add: grants_both_def created_store_def)
next
  case (stepped s env t)
  from stepped.IH have wf: "bt_wf (reg_grants (registry s))" "has_manager (reg_grants (registry s))"
    by (simp_all add: grants_both_def)
  show ?case
    by (rule grants_both_step [OF stepped.hyps(4,2) stepped.IH])
      (auto intro: has_manager_insert [OF wf(1) _ wf(2)] has_manager_update [OF wf(1) _ wf(2)])
next
  case (restarted s env files t)
  then show ?case using store_open_shape [OF restarted.hyps(3)] by (simp add: grants_both_def)
qed

section \<open>What comes after\<close>

inductive store_later :: "execution_plan serializer \<Rightarrow> state_store \<Rightarrow> state_store \<Rightarrow> bool" for ser s where
  later_refl: "store_later ser s s"
| later_step: "store_later ser s t \<Longrightarrow> writes_atomically env \<Longrightarrow> se_ser_plan env = ser \<Longrightarrow> store_step env t u \<Longrightarrow>
     store_later ser s u"
| later_restart: "store_later ser s t \<Longrightarrow> se_ser_plan env = ser \<Longrightarrow>
     store_open env (registry_file t) (queue_file t) files = Inr u \<Longrightarrow> store_later ser s u"

lemma revoked_later:
  assumes "store_later ser s t" and "grants_both (revoked_grant k) s"
  shows "grants_both (revoked_grant k) t"
  using assms
proof (induction rule: store_later.induct)
  case (later_step t env u)
  then have inv: "grants_both (revoked_grant k) t" by simp
  then have wf: "bt_wf (reg_grants (registry t))" "revoked_grant k (reg_grants (registry t))"
    by (simp_all add: grants_both_def)
  show ?case
    by (rule grants_both_step [OF later_step.hyps(4,2) inv])
      (auto intro: revoked_grant_insert [OF wf(1) _ wf(2)] revoked_grant_update wf(2))
next
  case (later_restart t env files u)
  then show ?case using store_open_shape [OF later_restart.hyps(3)] by (simp add: grants_both_def)
qed simp

lemma revoke_succeeds:
  assumes "writes_atomically env" and "grants_both P s" and "revoke_grant env k now s = (Inr (), t)"
  shows "grants_both (revoked_grant k) t"
proof (cases rule: revoke_grant_cases [of env k now s])
  case (marked grant)
  let ?m = "bt_update (mark_revoked now) k (reg_grants (registry s))"
  have wf: "bt_wf ?m" using assms(2) by (simp add: grants_both_def bt_update_wf)
  have rev: "revoked_grant k ?m" using marked(1) by (simp add: revoked_grant_def bt_get_update)
  have t: "save_registry env (with_grants ?m s) = (Inr (), t)" using marked(3) assms(3) by simp
  then have "reg_grants (registry t) = ?m" "reg_grants (registry_file t) = ?m"
    using save_registry_grants [of env "with_grants ?m s"] save_registry_written(2) [OF assms(1), of "with_grants ?m s"]
    by (simp_all add: with_grants_def)
  then show ?thesis using wf rev by (simp add: grants_both_def)
qed (use assms(3) in simp)

section \<open>Properties of grants\<close>

text \<open>C27: Revocation is permanent. Once \<open>revoke_grant\<close> has succeeded, no token authenticates
  for that grant in any later state of the store: not after further operations, failed saves or
  restarts from the state files, whatever token, clock or server identity is presented.\<close>

theorem revocation_permanent:
  assumes "store_reachable ser s" and "writes_atomically env"
    and "revoke_grant env k now s = (Inr (), t)" and "store_later ser t u"
  shows "\<not> is_ok (authenticate env' u server_id k token later)"
proof -
  have "grants_both (revoked_grant k) u"
    by (rule revoked_later [OF assms(4) revoke_succeeds [OF assms(2) reachable_managers [OF assms(1)] assms(3)]])
  then obtain grant where "map_of (reg_grants (registry u)) k = Some grant"
    "sum_revoked_at_unix_millis (sg_summary grant) \<noteq> None"
    by (auto simp: grants_both_def revoked_grant_def)
  then show ?thesis by (auto simp: authenticate_def is_ok_iff and_then_Inr_iff)
qed

text \<open>C28: Someone can always manage grants. Every reachable store, and the registry file that a
  restart would load, holds a grant that manages grants and is not revoked, although every grant
  may be revoked by identity. (The expiry of that grant is not looked at.)\<close>

theorem manager_always_left:
  assumes "store_reachable ser s"
  shows "(\<exists>k grant. map_of (reg_grants (registry s)) k = Some grant \<and> live_manager grant)
    \<and> (\<exists>k grant. map_of (reg_grants (registry_file s)) k = Some grant \<and> live_manager grant)"
  using reachable_managers [OF assms] by (auto simp: grants_both_def has_manager_get)

lemma created_grant_stored:
  assumes "store_reachable ser s" and "create_grant env requested now gb tb s = (Inr document, t)"
  shows "map_of (reg_grants (registry t)) (doc_grant_id document) = Some (issued_grant env s document now)"
    and "reg_server_id (registry t) = doc_server_id document"
proof -
  obtain "map_of (reg_grants (registry t)) (doc_grant_id document) = Some (issued_grant env s document now)"
    "reg_server_id (registry t) = doc_server_id document"
  proof (cases rule: create_grant_cases [of env requested now gb tb s])
    case (issued d)
    have wf: "bt_wf (reg_grants (registry s))" using reachable_managers [OF assms(1)] by (simp add: grants_both_def)
    have t: "d = document" "t = snd (save_registry env
        (with_grants (bt_insert (doc_grant_id d) (issued_grant env s d now) (reg_grants (registry s))) s))"
      using assms(2) issued(5) by (auto simp: st_then_Inr_iff)
    show ?thesis by (rule that) (use issued(2) in \<open>simp_all add: t with_grants_def bt_get_insert [OF wf]\<close>)
  qed (use assms(2) in simp)
  then show "map_of (reg_grants (registry t)) (doc_grant_id document) = Some (issued_grant env s document now)"
    and "reg_server_id (registry t) = doc_server_id document" by simp_all
qed

text \<open>An issued token is worth its policy, until it expires. When \<open>create_grant\<close> returns
  a document, the store authenticates the document's token for the document's grant, with exactly
  the policy of the document, at every time before its expiry and at no other time.\<close>

theorem issued_token_authenticates:
  assumes "store_reachable ser s" and "create_grant env requested now gb tb s = (Inr document, t)"
  shows "authenticate env t (doc_server_id document) (doc_grant_id document) (doc_token document) later =
    (if (\<forall>expiry. pol_expires_at_unix_millis (doc_policy document) = Some expiry \<longrightarrow> later < expiry)
     then Inr \<lparr>auth_grant_id = doc_grant_id document, auth_policy = doc_policy document\<rparr>
     else Inl (GrantError GrantExpired))"
  using created_grant_stored [OF assms]
  by (auto simp: authenticate_def issued_grant_def new_grant_summary_def token_digest_def decode_encode_hex
      fail_if_def not_less not_le split: option.splits)

section \<open>Concrete grants\<close>

theorem manager_always_left_witness:
  "\<exists>s. store_reachable sample_serializer s \<and> (\<exists>k grant. map_of (reg_grants (registry_file s)) k = Some grant \<and> live_manager grant)"
proof -
  obtain s where "store_reachable sample_serializer s" by (rule demo_store)
  then show ?thesis using manager_always_left by blast
qed

lemma encode_hex_inj: "encode_hex a = encode_hex b \<longleftrightarrow> a = b"
  by (metis decode_encode_hex option.inject)

lemma save_registry_succeeds:
  assumes "validate_registry (registry s) = Inr ()" and "checked_add (reg_generation (registry s)) 1 = Some g"
    and "\<And>r old. fst (se_write_registry env r old)"
  shows "fst (save_registry env s) = Inr ()" "registry (snd (save_registry env s)) = (registry s)\<lparr>reg_generation := g\<rparr>"
proof -
  have "validate_registry ((registry s)\<lparr>reg_generation := g\<rparr>) = Inr ()"
    using assms(1) by (simp add: validate_registry_def)
  then show "fst (save_registry env s) = Inr ()" "registry (snd (save_registry env s)) = (registry s)\<lparr>reg_generation := g\<rparr>"
    using assms(2) assms(3) [of "(registry s)\<lparr>reg_generation := g\<rparr>" "registry_file s"]
    by (auto simp: save_registry_def Let_def split: prod.split)
qed

lemma validate_registry_grants:
  assumes "validate_registry r = Inr ()"
  shows "validate_registry (r\<lparr>reg_grants := m\<rparr>) = Inr () \<longleftrightarrow>
    m \<noteq> [] \<and> length m \<le> 100000 \<and> (\<forall>e \<in> set m. validate_stored_grant (reg_server_id r) e = Inr ())"
  using assms by (auto simp: validate_registry_def and_then_unit_iff try_all_Inr_iff)

lemma demo_policy_normal: "normalize_policy_roots (demo_store_env written) (canonicalize_policy sample_policy) = Inr sample_policy"
proof -
  have "canonicalize_policy sample_policy = sample_policy"
    using canonical_fixpoint sample_policy_valid policy_validate_sorted
    by (simp add: canonicalize_policy_def sample_policy_def grant_policy_new_def less_eq_ipc_capability_def)
  moreover have "to_string_lossy ''/in'' = ''/in''" "to_string_lossy ''/out'' = ''/out''"
    by (rule to_string_lossy_valid, simp add: utf8_text_def char_codes_def utf8_head_def)+
  ultimately show ?thesis
    by (simp add: normalize_policy_roots_def normalize_roots_def canonical_directory_def sample_policy_def
        grant_policy_new_def demo_store_env_def path_of_def component_of_def is_absolute_def Let_def path_string_def)
qed

text \<open>A store with the administrator's grant and one more, which manages nothing.\<close>

lemma demo_grant:
  obtains s document t where "store_reachable sample_serializer s"
    "create_grant (demo_store_env True) sample_policy 6 (Some (replicate 16 4)) (Some (replicate 32 5)) s = (Inr document, t)"
    "store_reachable sample_serializer t" "doc_policy document = sample_policy"
    "validate_registry (registry t) = Inr ()" "reg_generation (registry t) = 2"
    "\<exists>g. map_of (reg_grants (registry t)) (doc_grant_id document) = Some g \<and> \<not> manages g"
    "queue t = queue s" "reg_limits (registry t) = limits_default"
    "\<exists>r q document. initialize_documents (demo_store_env True) limits_default 5 (Some (replicate 16 0))
      (Some (replicate 16 1)) (Some (replicate 32 2)) = Inr (r, q, document) \<and> s = created_store r q"
    "q_jobs (queue s) = []" "q_history (queue s) = []" "q_next_sequence (queue s) = 1" "q_generation (queue s) = 1"
    "\<exists>i. random_id ''grant'' (Some (replicate 16 1)) = Inr i
      \<and> reg_grants (registry s) = [(i, demo_admin (reg_server_id (registry s)) i)]"
    "fresh_grant_id s (Some (replicate 16 4))" "validate_registry (registry s) = Inr ()"
proof -
  let ?env = "demo_store_env True" and ?gb = "Some (replicate 16 (4::u8))"
  obtain s where s: "store_reachable sample_serializer s" "validate_registry (registry s) = Inr ()"
    "reg_generation (registry s) = 1"
    and queue: "q_jobs (queue s) = []" "q_history (queue s) = []" "q_next_sequence (queue s) = 1" "q_generation (queue s) = 1"
      "reg_limits (registry s) = limits_default"
    and origin: "\<exists>r q document. initialize_documents (demo_store_env True) limits_default 5 (Some (replicate 16 0))
      (Some (replicate 16 1)) (Some (replicate 32 2)) = Inr (r, q, document) \<and> s = created_store r q"
    and admin: "\<exists>i. random_id ''grant'' (Some (replicate 16 1)) = Inr i
      \<and> reg_grants (registry s) = [(i, demo_admin (reg_server_id (registry s)) i)]"
    by (rule demo_store)
  from admin obtain i0 g0 where grants: "random_id ''grant'' (Some (replicate 16 1)) = Inr i0" "reg_grants (registry s) = [(i0, g0)]"
    by blast
  obtain i where i: "random_id ''grant'' ?gb = Inr i" by (simp add: random_id_def)
  have valid_i: "validate_id i = Inr ()"
    using i by (rule random_id_valid) (auto simp: is_ascii_alphanumeric_def is_ascii_uppercase_def
        is_ascii_lowercase_def is_ascii_digit_def less_eq_char_def)
  have "replicate 16 (1::u8) \<noteq> replicate 16 4" by simp
  then have other: "i \<noteq> i0" using i grants(1) by (auto simp: random_id_def encode_hex_inj)
  have valid_srv: "validate_id (reg_server_id (registry s)) = Inr ()"
    using s(2) by (auto simp: validate_registry_def and_then_unit_iff)
  define token where "token = encode_hex (replicate 32 (5::u8))"
  have token: "random_token ?env (Some (replicate 32 5)) = Inr token"
    by (simp add: random_token_def demo_store_env_def token_def)
  have "CHR 0x00 \<notin> set token"
    using encode_hex_lower [of "CHR 0x00" "replicate 32 5"]
    by (auto simp: token_def is_ascii_hexdigit_def is_ascii_digit_def less_eq_char_def)
  then have token_text: "Ipc_Contracts.validate_text token 32 256 = Inr ()"
    by (simp add: Ipc_Contracts.validate_text_def token_def)
  define document where "document = \<lparr>doc_schema = IPC_GRANT_SCHEMA, doc_schema_version = IPC_SCHEMA_VERSION,
    doc_server_id = reg_server_id (registry s), doc_grant_id = i, doc_token = token,
    doc_policy = sample_policy, doc_issued_at_unix_millis = 6\<rparr>"
  have doc_ok: "grant_document_validate document = Inr ()"
    using valid_i valid_srv token_text sample_policy_valid
    by (simp add: grant_document_validate_def document_def Ipc_Contracts.require_schema_def sample_policy_def
        grant_policy_new_def)
  let ?u = "with_grants (bt_insert i (issued_grant ?env s document 6) (reg_grants (registry s))) s"
  have created: "create_grant ?env sample_policy 6 ?gb (Some (replicate 32 5)) s =
      st_then (save_registry ?env ?u) (\<lambda>_ s'. (Inr document, s'))"
    using demo_policy_normal [of True] sample_policy_valid i token doc_ok
    by (simp add: create_grant_def Let_def document_def [symmetric] with_grants_def issued_grant_def)
      (simp add: document_def)
  have digest: "length (token_digest ?env token) = 64 \<and> list_all is_ascii_hexdigit (token_digest ?env token)"
    unfolding token_digest_def by (rule hex_digest_ok) (simp add: demo_store_env_def)
  have "validate_stored_grant (reg_server_id (registry s)) (i, issued_grant ?env s document 6) = Inr ()"
    using valid_i digest sample_policy_valid
    by (simp add: validate_stored_grant_def issued_grant_def new_grant_summary_def document_def sample_policy_def
        grant_policy_new_def)
  moreover have "validate_stored_grant (reg_server_id (registry s)) (i0, g0) = Inr ()"
    using validate_registry_grants [OF s(2), of "reg_grants (registry s)"] s(2) by (simp flip: grants(2)) (simp add: grants(2))
  ultimately have reg: "validate_registry (registry ?u) = Inr ()"
    using validate_registry_grants [OF s(2)] other by (simp add: with_grants_def grants(2))
  have gen: "checked_add (reg_generation (registry ?u)) 1 = Some 2" "\<And>r old. fst (se_write_registry ?env r old)"
    using s(3) by (simp_all add: with_grants_def checked_add_def demo_store_env_def)
  let ?t = "snd (save_registry ?env ?u)"
  have t: "create_grant ?env sample_policy 6 ?gb (Some (replicate 32 5)) s = (Inr document, ?t)"
    using save_registry_succeeds(1) [OF reg gen] created
    by (cases "save_registry ?env ?u") simp
  have fresh: "fresh_grant_id s ?gb" using i grants(2) other by (simp add: fresh_grant_id_def)
  then have "store_step ?env s (snd (create_grant ?env sample_policy 6 ?gb (Some (replicate 32 5)) s))"
    by (rule store_step.grant)
  then have "store_reachable sample_serializer ?t"
    using store_reachable.stepped [OF s(1) demo_store_env_atomic demo_store_env_ser] t by simp
  moreover have "map_of (reg_grants (registry ?t)) (doc_grant_id document) = Some (issued_grant ?env s document 6)"
    using bt_get_insert [of "reg_grants (registry s)" i] grants(2) by (simp add: with_grants_def document_def bt_wf_def)
  moreover have "\<not> manages (issued_grant ?env s document 6)"
    by (simp add: manages_def issued_grant_def new_grant_summary_def document_def sample_policy_def grant_policy_new_def)
  moreover note after = save_registry_succeeds(2) [OF reg gen]
  moreover have "reg_generation (registry ?t) = 2" by (simp add: after)
  moreover have "validate_registry (registry ?t) = Inr ()"
    using reg by (simp add: after validate_registry_def)
  moreover have "doc_policy document = sample_policy" by (simp add: document_def)
  moreover have "queue ?t = queue s" by (simp add: with_grants_def)
  moreover have "reg_limits (registry ?t) = limits_default" using queue(5) by (simp add: with_grants_def)
  ultimately show thesis using that [OF s(1) t] queue origin admin fresh s(2) by blast
qed

theorem issued_token_authenticates_witness:
  "\<exists>s t document. store_reachable sample_serializer s
     \<and> create_grant (demo_store_env True) sample_policy 6 (Some (replicate 16 4)) (Some (replicate 32 5)) s = (Inr document, t)
     \<and> authenticate (demo_store_env True) t (doc_server_id document) (doc_grant_id document) (doc_token document) 7
         = Inr \<lparr>auth_grant_id = doc_grant_id document, auth_policy = sample_policy\<rparr>"
proof -
  obtain s document t where d: "store_reachable sample_serializer s"
    "create_grant (demo_store_env True) sample_policy 6 (Some (replicate 16 4)) (Some (replicate 32 5)) s = (Inr document, t)"
    "doc_policy document = sample_policy" by (rule demo_grant)
  have "pol_expires_at_unix_millis sample_policy = None" by (simp add: sample_policy_def grant_policy_new_def)
  then show ?thesis using issued_token_authenticates [OF d(1,2), of 7] d by auto
qed

theorem revocation_permanent_witness:
  "\<exists>s k t. store_reachable sample_serializer s \<and> revoke_grant (demo_store_env True) k 8 s = (Inr (), t)
     \<and> \<not> is_ok (authenticate (demo_store_env True) t (reg_server_id (registry t)) k (encode_hex (replicate 32 (5::u8))) 9)"
proof -
  obtain s0 document t where "store_reachable sample_serializer s0"
    "create_grant (demo_store_env True) sample_policy 6 (Some (replicate 16 4)) (Some (replicate 32 5)) s0 = (Inr document, t)"
    and s: "store_reachable sample_serializer t"
    and "doc_policy document = sample_policy"
    and t: "validate_registry (registry t) = Inr ()" "reg_generation (registry t) = 2"
    and some: "\<exists>g. map_of (reg_grants (registry t)) (doc_grant_id document) = Some g \<and> \<not> manages g"
    by (rule demo_grant)
  from some obtain g where g: "map_of (reg_grants (registry t)) (doc_grant_id document) = Some g" "\<not> manages g" by blast
  let ?env = "demo_store_env True" and ?k = "doc_grant_id document"
  let ?u = "with_grants (bt_update (mark_revoked 8) ?k (reg_grants (registry t))) t"
  have shape: "revoke_grant ?env ?k 8 t = save_registry ?env ?u"
    using g by (simp add: revoke_grant_def Let_def with_grants_def)
  have "validate_stored_grant srv (i, mark_revoked 8 h) = validate_stored_grant srv (i, h)" for srv i h
    by (simp add: validate_stored_grant_def mark_revoked_def)
  then have "\<forall>e \<in> set (bt_update (mark_revoked 8) ?k (reg_grants (registry t))).
      validate_stored_grant (reg_server_id (registry t)) e = Inr ()"
    using t(1) validate_registry_grants [OF t(1), of "reg_grants (registry t)"] by (auto simp: bt_update_def)
  moreover have "reg_grants (registry t) \<noteq> []" "length (reg_grants (registry t)) \<le> 100000"
    using t(1) by (auto simp: validate_registry_def and_then_unit_iff)
  ultimately have "validate_registry (registry ?u) = Inr ()"
    using validate_registry_grants [OF t(1)] by (simp add: with_grants_def bt_update_def)
  then have "fst (save_registry ?env ?u) = Inr ()"
    by (rule save_registry_succeeds(1) [where g = 3])
      (simp_all add: with_grants_def t(2) checked_add_def demo_store_env_def)
  then obtain v where v: "revoke_grant ?env ?k 8 t = (Inr (), v)" unfolding shape by (cases "save_registry ?env ?u") simp
  have "\<not> is_ok (authenticate ?env v (reg_server_id (registry v)) ?k (encode_hex (replicate 32 (5::u8))) 9)"
    by (rule revocation_permanent [OF s demo_store_env_atomic v later_refl])
  then show ?thesis using s v by blast
qed

section \<open>Paths a grant admits\<close>

lemma last_name: "file_name p = Some name \<Longrightarrow> p = butlast p @ [Normal name]"
  by (cases p rule: rev_cases) (auto simp: file_name_def split: path_component.splits)

lemma existing_ancestor_split:
  "existing_ancestor env p suffix = Inr (a, names) \<Longrightarrow>
     p @ map Normal suffix = a @ map Normal names \<and> se_metadata env a = Found
   \<and> (\<forall>q. length a < length q \<and> length q \<le> length p \<and> is_prefix q p \<longrightarrow> se_metadata env q = NotFound)"
proof (induction env p suffix rule: existing_ancestor.induct)
  case (1 env p suffix)
  show ?case
  proof (cases "se_metadata env p")
    case Found
    then show ?thesis using "1.prems" by (auto simp: existing_ancestor.simps [of env p])
  next
    case NotFound
    then obtain name up where up: "file_name p = Some name" "parent p = Some up"
      "existing_ancestor env up (name # suffix) = Inr (a, names)"
      using "1.prems" by (subst (asm) existing_ancestor.simps) (auto split: option.splits)
    have p: "p = up @ [Normal name]" using last_name [OF up(1)] up(2) by (auto simp: parent_def split: if_splits)
    have IH: "up @ map Normal (name # suffix) = a @ map Normal names" "se_metadata env a = Found"
      "\<forall>q. length a < length q \<and> length q \<le> length up \<and> is_prefix q up \<longrightarrow> se_metadata env q = NotFound"
      using "1.IH" [OF NotFound up] by blast+
    have "se_metadata env q = NotFound" if "length a < length q" "length q \<le> length p" "is_prefix q p" for q
    proof (cases "length q = length p")
      case True
      then show ?thesis using that(3) NotFound by (auto simp: is_prefix_iff)
    next
      case False
      then have "length q \<le> length up" "is_prefix q up" using that p by (auto simp: is_prefix_def)
      then show ?thesis using IH(3) that(1) by blast
    qed
    then show ?thesis using IH(1,2) p by simp
  qed (use "1.prems" in \<open>simp add: existing_ancestor.simps [of env p]\<close>)
qed

lemma push_names: "fold (\<lambda>name q. push q [Normal name]) names q = q @ map Normal names"
  by (induction names arbitrary: q) (auto simp: push_def is_absolute_def)

lemma authorized_paths:
  assumes "authorize_job_paths env grant job = Inr (input, out)"
  shows "se_canonicalize env (path_of (spec_input job)) = Some input"
    and "\<exists>a names resolved. se_canonicalize env a = Some resolved \<and> out = resolved @ map Normal names"
  using assms
  by (auto simp: authorize_job_paths_def resolve_future_path_def push_names and_then_Inr_iff)

text \<open>C29: An authorized job stays below the roots of its grant. When \<open>authorize_job_paths\<close>
  accepts, the input as the filesystem resolves it lies below an input root, and the output lies
  below an output root, where the output is the requested path with its longest existing ancestor
  resolved by the filesystem and only plain names after it, so no parent component and no
  symbolic link of an existing directory leads out of the roots.\<close>

theorem authorized_paths_contained:
  assumes "authorize_job_paths env grant job = Inr (input, out)"
  shows "(\<exists>root \<in> set (pol_input_roots (auth_policy grant)). \<exists>rest. input = path_of root @ rest)
    \<and> se_canonicalize env (path_of (spec_input job)) = Some input
    \<and> (\<exists>root \<in> set (pol_output_roots (auth_policy grant)). \<exists>rest. out = path_of root @ rest)
    \<and> ParentDir \<notin> set (path_of (spec_output job))
    \<and> (\<exists>a names resolved. path_of (spec_output job) = a @ map Normal names
        \<and> se_metadata env a = Found \<and> se_canonicalize env a = Some resolved
        \<and> (\<forall>q. length a < length q \<and> is_prefix q (path_of (spec_output job)) \<longrightarrow> se_metadata env q = NotFound)
        \<and> out = resolved @ map Normal names)"
proof -
  let ?p = "path_of (spec_output job)"
  from assms have input: "se_canonicalize env (path_of (spec_input job)) = Some input"
    and out: "resolve_future_path env ?p = Inr out"
    and roots: "require_below_roots input (pol_input_roots (auth_policy grant)) ''input'' = Inr ()"
      "require_below_roots out (pol_output_roots (auth_policy grant)) ''output'' = Inr ()"
    by (auto simp: authorize_job_paths_def and_then_Inr_iff)
  from out obtain a names resolved where a: "existing_ancestor env ?p [] = Inr (a, names)"
    "se_canonicalize env a = Some resolved" "out = fold (\<lambda>name q. push q [Normal name]) names resolved"
    and plain: "ParentDir \<notin> set ?p"
    by (auto simp: resolve_future_path_def and_then_Inr_iff)
  note split = existing_ancestor_split [OF a(1)]
  have "\<forall>q. length a < length q \<and> is_prefix q ?p \<longrightarrow> se_metadata env q = NotFound"
    using split by (auto simp: is_prefix_iff)
  then have resolution: "?p = a @ map Normal names \<and> se_metadata env a = Found \<and> se_canonicalize env a = Some resolved
      \<and> (\<forall>q. length a < length q \<and> is_prefix q ?p \<longrightarrow> se_metadata env q = NotFound)
      \<and> out = resolved @ map Normal names"
    using split a(2,3) by (simp add: push_names)
  have "\<exists>root \<in> set (pol_input_roots (auth_policy grant)). \<exists>rest. input = path_of root @ rest"
    "\<exists>root \<in> set (pol_output_roots (auth_policy grant)). \<exists>rest. out = path_of root @ rest"
    using roots by (auto simp: require_below_roots_def list_ex_iff starts_with_iff)
  then show ?thesis using input plain resolution by blast
qed

theorem authorized_paths_contained_witness:
  "\<exists>input out. authorize_job_paths (demo_store_env True) \<lparr>auth_grant_id = ''grant-demo'', auth_policy = sample_policy\<rparr> demo_spec
      = Inr (input, out) \<and> (\<exists>rest. out = path_of ''/out'' @ rest)"
proof -
  have "authorize_job_paths (demo_store_env True) \<lparr>auth_grant_id = ''grant-demo'', auth_policy = sample_policy\<rparr> demo_spec
      = Inr ([RootDir, Normal ''in'', Normal ''a.wav''], [RootDir, Normal ''out'', Normal ''a.wav''])"
    by (simp add: authorize_job_paths_def demo_store_env_def demo_spec_def job_spec_new_def path_of_def component_of_def
        Let_def resolve_future_path_def is_absolute_def existing_ancestor.simps require_below_roots_def sample_policy_def
        grant_policy_new_def starts_with_def)
  from authorized_paths_contained [OF this] this show ?thesis
    by (auto simp: sample_policy_def grant_policy_new_def)
qed

end
