(* ===== verification/Ipc_Access.thy ===== *)
theory Ipc_Access
  imports Ipc_Grants
begin

text \<open>
  Requests to the job server (\<open>src/src/ipc/server.rs\<close>): capability checks, the authorization
  and normalization of a job, planning and its summary, the arguments of the child process,
  control of a job, and \<open>dispatch_request\<close>. The state is the store, the one active child,
  the control files written for jobs, and the two shutdown flags. Parameters (\<open>server_env\<close>):
  the store's environment, the text of an error (\<open>Display\<close> and \<open>format!\<close>), the planning
  child process and the \<open>serde_json\<close> parser of its output, SHA-256, and whether writing a
  control file or killing a child succeeds. Mutexes serialize the operations; a poisoned mutex
  (a panic elsewhere) is not modelled.
\<close>

section \<open>State\<close>

datatype control_action = RunAction | PauseAction | CancelAction

record active_child =
  ac_job_id :: string
  ac_control_generation :: u64
  ac_killed :: bool

record shared =
  sh_store :: state_store
  sh_active :: "active_child option"
  sh_controls :: "string \<rightharpoonup> control_action \<times> u64"
  sh_shutdown :: bool
  sh_force_shutdown :: bool

text \<open>How a planning child ends, with everything it wrote to its two outputs.\<close>

datatype child_result = NotRun | TimedOut | Exited bool "u8 list" "u8 list"

datatype plan_error =
    PlanPaths store_error | LimitBelowMiB string | ChildNotRun | ChildTimedOut | StdoutTooLong
  | StderrTooLong | PlanExit "u8 list" | PlanParse | PlanInvalid exec_error | PlanKindMismatch
  | UnsupportedPublication string | UnsupportedAction string | PlannedLimit string u64 u64
  | ReportInvalid contract_error

datatype error_cause =
    Fixed string | FromStore store_error | FromContract contract_error | FromPlan plan_error
  | DeniedOption string | ClockFailed | ControlNotWritten | ChildNotKilled

record server_env =
  sv_store :: store_env
  sv_render :: "error_cause \<Rightarrow> string"
  sv_run_child :: "string list \<Rightarrow> child_result"
  sv_parse_plan :: "u8 list \<Rightarrow> execution_plan option"
  sv_sha256 :: "u8 list \<Rightarrow> u8 list"
  sv_write_control :: "string \<Rightarrow> control_action \<Rightarrow> u64 \<Rightarrow> bool"
  sv_kill :: "string \<Rightarrow> bool"

definition MAX_CHILD_DIAGNOSTIC_BYTES :: u64 where "MAX_CHILD_DIAGNOSTIC_BYTES = 1024 * 1024"

section \<open>Errors\<close>

definition bounded_message :: "string \<Rightarrow> string" where
  "bounded_message value =
    (if length value \<le> 4096 then value
     else take (boundary_below value (4096 - 3)) value @ [CHR 0xE2, CHR 0x80, CHR 0xA6])"

definition ipc_error_of :: "string \<Rightarrow> string \<Rightarrow> bool \<Rightarrow> ipc_error" where
  "ipc_error_of code message retryable =
    \<lparr>err_code = code, err_message = bounded_message message, err_retryable = retryable\<rparr>"

text \<open>\<open>result.map_err(|error| ipc_error(code, &error, retryable))\<close>.\<close>

definition or_ipc :: "server_env \<Rightarrow> string \<Rightarrow> bool \<Rightarrow> ('e \<Rightarrow> error_cause) \<Rightarrow> 'e + 'a \<Rightarrow> ipc_error + 'a" where
  "or_ipc env code retryable cause m = map_err (\<lambda>e. ipc_error_of code (sv_render env (cause e)) retryable) m"

section \<open>Capabilities\<close>

definition has_capability :: "authenticated_grant \<Rightarrow> ipc_capability \<Rightarrow> bool" where
  "has_capability grant capability \<longleftrightarrow> capability \<in> set (pol_capabilities (auth_policy grant))"

definition require_capability :: "authenticated_grant \<Rightarrow> ipc_capability \<Rightarrow> ipc_error + unit" where
  "require_capability grant capability =
    (if has_capability grant capability then Inr ()
     else Inl (ipc_error_of ''forbidden'' ''IPC capability does not authorize this operation'' False))"

definition require_any_capability :: "authenticated_grant \<Rightarrow> ipc_capability list \<Rightarrow> ipc_error + unit" where
  "require_any_capability grant capabilities =
    (if list_ex (has_capability grant) capabilities then Inr ()
     else Inl (ipc_error_of ''forbidden'' ''IPC capability does not authorize this operation'' False))"

definition require_read_access :: "authenticated_grant \<Rightarrow> string \<Rightarrow> ipc_error + unit" where
  "require_read_access grant owner =
    (if has_capability grant ReadAll \<or> (owner = auth_grant_id grant \<and> has_capability grant ReadOwn) then Inr ()
     else Inl (ipc_error_of ''forbidden'' ''IPC job is outside read scope'' False))"

definition require_control_access :: "authenticated_grant \<Rightarrow> string \<Rightarrow> ipc_error + unit" where
  "require_control_access grant owner =
    (if has_capability grant ControlAll \<or> (owner = auth_grant_id grant \<and> has_capability grant ControlOwn) then Inr ()
     else Inl (ipc_error_of ''forbidden'' ''IPC job is outside control scope'' False))"

section \<open>The job that is admitted\<close>

definition DENIED :: "string list" where
  "DENIED = [''--batch'', ''--stream'', ''--receipt'', ''--receipt-key'', ''--plan'', ''--report'', ''--isolate'',
     ''--jobs'', ''--max-memory'', ''--max-process-memory'', ''--max-temp-space'', ''--max-gpu-memory'',
     ''--max-gpu-jobs'', ''--json'', ''--pretty'', ''--config'', ''--onnx-model'', ''--model-package'',
     ''--model-package-key'', ''--receipt-dir'', ''--input-device'', ''--output-device'', ''--list-devices'',
     ''-V'', ''--version'', ''-h'', ''--help'']"

text \<open>What stands before the first \<open>=\<close>, or the whole argument.\<close>

definition option_name :: "string \<Rightarrow> string" where
  "option_name argument = takeWhile (\<lambda>c. c \<noteq> CHR ''='') argument"

fun validate_job_arguments :: "string list \<Rightarrow> string + unit" where
  "validate_job_arguments [] = Inr ()"
| "validate_job_arguments (argument # arguments) =
    (if option_name argument \<in> set DENIED then Inl (option_name argument) else validate_job_arguments arguments)"

definition authorize_and_normalize_job ::
  "server_env \<Rightarrow> authenticated_grant \<Rightarrow> job_spec \<Rightarrow> ipc_error + job_spec" where
  "authorize_and_normalize_job env grant requested =
    (if pol_max_priority (auth_policy grant) < spec_priority requested
     then Inl (ipc_error_of ''forbidden'' ''IPC job priority exceeds the capability limit'' False)
     else and_then (or_ipc env ''invalid-job'' False DeniedOption (validate_job_arguments (spec_arguments requested))) (\<lambda>_.
          and_then (or_ipc env ''forbidden'' False FromStore (authorize_job_paths (sv_store env) grant requested)) (\<lambda>(input, out).
          let normalized = \<lparr>spec_kind = spec_kind requested, spec_input = to_string_lossy (path_string input),
                spec_output = to_string_lossy (path_string out), spec_arguments = spec_arguments requested,
                spec_priority = spec_priority requested\<rparr>
          in and_then (or_ipc env ''invalid-job'' False FromContract (job_spec_validate normalized)) (\<lambda>_.
             Inr normalized))))"

end
