(* ===== verification/Ipc_Planning.thy ===== *)
theory Ipc_Planning
  imports Ipc_Access
begin

text \<open>
  Planning a job in a bounded child process (\<open>src/src/ipc/server.rs\<close>): the arguments of the
  child (\<open>job_command_arguments\<close>), the bounded capture of its outputs, the checks of the plan it
  prints and the summary that is kept with the job (\<open>summarize_plan\<close>).
\<close>

section \<open>Arguments of the child\<close>

text \<open>\<open>u64::to_string\<close>.\<close>

fun decimal :: "nat \<Rightarrow> string" where
  "decimal n = (if n < 10 then [char_of (48 + n)] else decimal (n div 10) @ [char_of (48 + n mod 10)])"

declare decimal.simps [simp del]

definition append_byte_limit :: "string list \<Rightarrow> string \<Rightarrow> u64 option \<Rightarrow> plan_error + string list" where
  "append_byte_limit arguments flag bytes =
    (case bytes of
       None \<Rightarrow> Inr arguments
     | Some b \<Rightarrow>
         let mib = b div (1024 * 1024)
         in if mib = 0 then Inl (LimitBelowMiB flag) else Inr (arguments @ [flag, decimal (unat mib)]))"

definition job_command_arguments :: "job_spec \<Rightarrow> ipc_limits \<Rightarrow> plan_error + string list" where
  "job_command_arguments job limits =
    (let a0 = [spec_input job, spec_output job]
           @ (case spec_kind job of FileJob \<Rightarrow> [] | BatchJob \<Rightarrow> [''--batch''] | StreamJob \<Rightarrow> [''--stream''])
           @ spec_arguments job;
         a1 = (if spec_kind job = BatchJob then a0 @ [''--jobs'', ''1''] else a0);
         a2 = (if resumable (spec_kind job) \<and> ''--resume'' \<notin> set (spec_arguments job) then a1 @ [''--resume''] else a1)
     in and_then (append_byte_limit a2 ''--max-memory'' (max_memory_bytes limits)) (\<lambda>a3.
        and_then (append_byte_limit a3 ''--max-temp-space'' (max_temporary_bytes limits)) (\<lambda>a4.
        and_then (append_byte_limit a4 ''--max-gpu-memory'' (max_gpu_memory_bytes limits)) (\<lambda>a5.
        Inr (a5 @ [''--max-gpu-jobs'', ''1''])))))"

section \<open>The child\<close>

text \<open>The reader of a pipe takes one byte more than its limit, and fails if it gets it.\<close>

definition bounded_reader :: "u64 \<Rightarrow> plan_error \<Rightarrow> u8 list \<Rightarrow> plan_error + u8 list" where
  "bounded_reader limit too_long produced =
    (let bytes = take (unat (saturating_add limit 1)) produced
     in if unat limit < length bytes then Inl too_long else Inr bytes)"

definition run_bounded_child :: "child_result \<Rightarrow> u64 \<Rightarrow> u64 \<Rightarrow> plan_error + bool \<times> u8 list \<times> u8 list" where
  "run_bounded_child child stdout_limit stderr_limit =
    (case child of
       NotRun \<Rightarrow> Inl ChildNotRun
     | TimedOut \<Rightarrow> Inl ChildTimedOut
     | Exited success stdout stderr \<Rightarrow>
         and_then (bounded_reader stdout_limit StdoutTooLong stdout) (\<lambda>captured_stdout.
         and_then (bounded_reader stderr_limit StderrTooLong stderr) (\<lambda>captured_stderr.
         Inr (success, captured_stdout, captured_stderr))))"

section \<open>The summary of a plan\<close>

record plan_tally =
  tally_resources :: resource_summary
  tally_destinations :: destination_summary
  tally_create :: bool
  tally_replace :: bool

definition no_resources :: resource_summary where
  "no_resources = \<lparr>rs_memory_bytes = 0, rs_temporary_bytes = 0, rs_cpu_jobs = 0, rs_gpu_jobs = 0, rs_gpu_memory_bytes = 0\<rparr>"

definition no_destinations :: destination_summary where
  "no_destinations = \<lparr>ds_process = 0, ds_create = 0, ds_replace = 0, ds_skip = 0\<rparr>"

definition empty_tally :: plan_tally where
  "empty_tally = \<lparr>tally_resources = no_resources, tally_destinations = no_destinations,
     tally_create = False, tally_replace = False\<rparr>"

definition max_resources :: "resource_summary \<Rightarrow> planned_resources \<Rightarrow> resource_summary" where
  "max_resources r p =
    \<lparr>rs_memory_bytes = max (rs_memory_bytes r) (res_memory_bytes p),
     rs_temporary_bytes = max (rs_temporary_bytes r) (res_temporary_bytes p),
     rs_cpu_jobs = max (rs_cpu_jobs r) (res_cpu_jobs p),
     rs_gpu_jobs = max (rs_gpu_jobs r) (res_gpu_jobs p),
     rs_gpu_memory_bytes = max (rs_gpu_memory_bytes r) (res_gpu_memory_bytes p)\<rparr>"

definition tally_item :: "plan_tally \<Rightarrow> execution_plan_item \<Rightarrow> plan_error + plan_tally" where
  "tally_item t item =
    (let t1 = t\<lparr>tally_resources := max_resources (tally_resources t) (item_resources item)\<rparr>;
         d = tally_destinations t; action = out_action (item_output item); publication = out_publication (item_output item)
     in if action = ''skip'' then Inr (t1\<lparr>tally_destinations := d\<lparr>ds_skip := saturating_add (ds_skip d) 1\<rparr>\<rparr>)
        else if action = ''process'' then
          (let d1 = d\<lparr>ds_process := saturating_add (ds_process d) 1\<rparr>
           in if publication = ''no-clobber''
              then Inr (t1\<lparr>tally_destinations := d1\<lparr>ds_create := saturating_add (ds_create d1) 1\<rparr>, tally_create := True\<rparr>)
              else if publication = ''replace''
              then Inr (t1\<lparr>tally_destinations := d1\<lparr>ds_replace := saturating_add (ds_replace d1) 1\<rparr>, tally_replace := True\<rparr>)
              else Inl (UnsupportedPublication publication))
        else Inl (UnsupportedAction action))"

definition enforce_planned_limit :: "string \<Rightarrow> u64 \<Rightarrow> u64 option \<Rightarrow> plan_error + unit" where
  "enforce_planned_limit label requested limit =
    (case limit of None \<Rightarrow> Inr () | Some l \<Rightarrow> fail_if (l < requested) (PlannedLimit label requested l))"

definition overwrite_policy_of :: "bool \<Rightarrow> bool \<Rightarrow> string" where
  "overwrite_policy_of saw_create saw_replace =
    (if saw_create \<and> saw_replace then ''mixed'' else if saw_create then ''no-clobber''
     else if saw_replace then ''replace'' else ''none'')"

definition summarize_plan :: "server_env \<Rightarrow> execution_plan \<Rightarrow> job_kind \<Rightarrow> ipc_limits \<Rightarrow> plan_error + dry_run_report" where
  "summarize_plan env plan kind limits =
    and_then (try_fold tally_item empty_tally (plan_items plan)) (\<lambda>t.
    let r = tally_resources t in
    and_then (enforce_planned_limit ''memory'' (rs_memory_bytes r) (max_memory_bytes limits)) (\<lambda>_.
    and_then (enforce_planned_limit ''temporary storage'' (rs_temporary_bytes r) (max_temporary_bytes limits)) (\<lambda>_.
    and_then (enforce_planned_limit ''GPU memory'' (rs_gpu_memory_bytes r) (max_gpu_memory_bytes limits)) (\<lambda>_.
    and_then (map_err PlanInvalid (plan_digest (sv_sha256 env) (se_ser_plan (sv_store env)) plan)) (\<lambda>digest.
    let report = \<lparr>dry_schema = IPC_DRY_RUN_SCHEMA, dry_schema_version = IPC_SCHEMA_VERSION,
          dry_plan_digest = as_hex digest, dry_resources = r, dry_destinations = tally_destinations t,
          dry_overwrite_policy = overwrite_policy_of (tally_create t) (tally_replace t),
          dry_pause_supported = resumable kind, dry_plan = plan\<rparr>
    in and_then (map_err ReportInvalid (dry_run_validate (se_ser_plan (sv_store env)) report)) (\<lambda>_. Inr report))))))"

definition expected_kind :: "job_kind \<Rightarrow> execution_kind" where
  "expected_kind kind = (case kind of FileJob \<Rightarrow> File | BatchJob \<Rightarrow> Batch | StreamJob \<Rightarrow> Stream)"

definition plan_job :: "server_env \<Rightarrow> ipc_limits \<Rightarrow> job_spec \<Rightarrow> plan_error + dry_run_report" where
  "plan_job env limits job =
    and_then (map_err PlanPaths (validate_bound_job_paths (sv_store env) job)) (\<lambda>_.
    and_then (job_command_arguments job limits) (\<lambda>arguments.
    and_then (run_bounded_child (sv_run_child env (''plan'' # arguments)) (max_response_bytes limits)
      MAX_CHILD_DIAGNOSTIC_BYTES) (\<lambda>(success, stdout, stderr).
    and_then (fail_if (\<not> success) (PlanExit stderr)) (\<lambda>_.
    and_then (ok_or (sv_parse_plan env stdout) PlanParse) (\<lambda>plan.
    and_then (map_err PlanInvalid (plan_validate (se_ser_plan (sv_store env)) plan)) (\<lambda>_.
    and_then (fail_if (plan_kind plan \<noteq> expected_kind (spec_kind job)) PlanKindMismatch) (\<lambda>_.
    summarize_plan env plan (spec_kind job) limits)))))))"

section \<open>The server's options\<close>

definition denied :: "string \<Rightarrow> bool" where "denied argument \<longleftrightarrow> option_name argument \<in> set DENIED"

lemma validate_job_arguments_iff: "validate_job_arguments xs = Inr u \<longleftrightarrow> filter denied xs = []"
  by (induction xs) (auto simp: denied_def)

lemma denied_dash: "denied a \<Longrightarrow> a \<noteq> [] \<and> hd a = CHR ''-''"
  by (cases a) (auto simp: denied_def option_name_def DENIED_def split: if_splits)

lemma decimal_digits: "set (decimal n) \<subseteq> (\<lambda>d :: nat. char_of (48 + d)) ` {..<10}"
proof (induction n rule: decimal.induct)
  case (1 n)
  show ?case
  proof (cases "n < 10")
    case False
    then have "set (decimal (n div 10)) \<subseteq> (\<lambda>d :: nat. char_of (48 + d)) ` {..<10}" using 1 by simp
    with False show ?thesis by (subst decimal.simps) auto
  next
    case True
    then show ?thesis by (subst decimal.simps) auto
  qed
qed

lemma decimal_nonempty: "decimal n \<noteq> []"
  by (subst decimal.simps) simp

lemma dash_not_digit: "CHR ''-'' \<noteq> (char_of (48 + d) :: char)" if "d < 10" for d :: nat
proof
  assume "CHR ''-'' = (char_of (48 + d) :: char)"
  then have "of_char (CHR ''-'') = (of_char (char_of (48 + d) :: char) :: nat)" by simp
  then show False using that by simp
qed

lemma decimal_not_denied [simp]: "\<not> denied (decimal n)"
  using denied_dash [of "decimal n"] decimal_digits [of n] dash_not_digit hd_in_set [OF decimal_nonempty [of n]] by force

lemma server_flags_denied:
  "denied ''--batch''" "denied ''--stream''" "denied ''--jobs''" "denied ''--max-memory''"
  "denied ''--max-temp-space''" "denied ''--max-gpu-memory''" "denied ''--max-gpu-jobs''"
  "\<not> denied ''--resume''" "\<not> denied ''1''"
  by (simp_all add: denied_def option_name_def DENIED_def)

definition limit_arguments :: "string \<Rightarrow> u64 option \<Rightarrow> string list" where
  "limit_arguments flag bytes =
     (case bytes of None \<Rightarrow> [] | Some b \<Rightarrow> [flag, decimal (unat b div (1024 * 1024))])"

lemma append_byte_limit_iff:
  "append_byte_limit xs flag bytes = Inr ys \<longleftrightarrow>
     (\<forall>b. bytes = Some b \<longrightarrow> 1024 * 1024 \<le> unat b) \<and> ys = xs @ limit_arguments flag bytes"
proof (cases bytes)
  case (Some b)
  have "b div (1024 * 1024) = 0 \<longleftrightarrow> unat b div (1024 * 1024) = 0"
    by (simp add: unat_eq_0 [symmetric] unat_div)
  then show ?thesis using Some
    by (auto simp: append_byte_limit_def Let_def unat_div limit_arguments_def div_eq_0_iff)
qed (auto simp: append_byte_limit_def limit_arguments_def)

definition base_arguments :: "job_spec \<Rightarrow> string list" where
  "base_arguments job =
     [spec_input job, spec_output job]
     @ (case spec_kind job of FileJob \<Rightarrow> [] | BatchJob \<Rightarrow> [''--batch''] | StreamJob \<Rightarrow> [''--stream''])
     @ spec_arguments job @ (if spec_kind job = BatchJob then [''--jobs'', ''1''] else [])
     @ (if resumable (spec_kind job) \<and> ''--resume'' \<notin> set (spec_arguments job) then [''--resume''] else [])"

lemma job_command_arguments_iff:
  "job_command_arguments job limits = Inr args \<longleftrightarrow>
     (\<forall>b \<in> set_option (max_memory_bytes limits) \<union> set_option (max_temporary_bytes limits)
         \<union> set_option (max_gpu_memory_bytes limits). 1024 * 1024 \<le> unat b)
   \<and> args = base_arguments job @ limit_arguments ''--max-memory'' (max_memory_bytes limits)
       @ limit_arguments ''--max-temp-space'' (max_temporary_bytes limits)
       @ limit_arguments ''--max-gpu-memory'' (max_gpu_memory_bytes limits) @ [''--max-gpu-jobs'', ''1'']"
proof -
  have base: "(let a0 = [spec_input job, spec_output job]
           @ (case spec_kind job of FileJob \<Rightarrow> [] | BatchJob \<Rightarrow> [''--batch''] | StreamJob \<Rightarrow> [''--stream''])
           @ spec_arguments job;
         a1 = (if spec_kind job = BatchJob then a0 @ [''--jobs'', ''1''] else a0)
     in (if resumable (spec_kind job) \<and> ''--resume'' \<notin> set (spec_arguments job) then a1 @ [''--resume''] else a1))
     = base_arguments job"
    by (simp add: base_arguments_def Let_def)
  show ?thesis
    unfolding job_command_arguments_def Let_def base [unfolded Let_def] and_then_Inr_iff append_byte_limit_iff
    by auto
qed

definition server_options :: "job_kind \<Rightarrow> ipc_limits \<Rightarrow> string list" where
  "server_options kind limits =
     (case kind of FileJob \<Rightarrow> [] | BatchJob \<Rightarrow> [''--batch'', ''--jobs''] | StreamJob \<Rightarrow> [''--stream''])
     @ (if max_memory_bytes limits = None then [] else [''--max-memory''])
     @ (if max_temporary_bytes limits = None then [] else [''--max-temp-space''])
     @ (if max_gpu_memory_bytes limits = None then [] else [''--max-gpu-memory''])
     @ [''--max-gpu-jobs'']"

lemma command_options:
  assumes "job_command_arguments job limits = Inr args" and "validate_job_arguments (spec_arguments job) = Inr ()"
    and "\<not> denied (spec_input job)" "\<not> denied (spec_output job)"
  shows "filter denied args = server_options (spec_kind job) limits"
proof -
  have "filter denied (base_arguments job) =
      (case spec_kind job of FileJob \<Rightarrow> [] | BatchJob \<Rightarrow> [''--batch'', ''--jobs''] | StreamJob \<Rightarrow> [''--stream''])"
    using assms(2-4) by (simp add: base_arguments_def server_flags_denied validate_job_arguments_iff split: job_kind.split)
  moreover have "filter denied (limit_arguments flag bytes) = (if bytes = None then [] else [flag])" if "denied flag" for flag bytes
    using that by (simp add: limit_arguments_def split: option.split)
  ultimately show ?thesis
    using assms(1) by (simp add: job_command_arguments_iff server_options_def server_flags_denied)
qed

lemma absolute_text: "is_absolute p \<Longrightarrow> \<exists>rest. to_string_lossy (path_string p) = CHR ''/'' # rest"
proof -
  assume "is_absolute p"
  then obtain q where p: "p = RootDir # q" by (cases p) (auto simp: is_absolute_def)
  have "\<exists>rest. path_string p = CHR ''/'' # rest"
  proof (cases q)
    case (Cons c cs)
    then show ?thesis unfolding p by (simp add: path_string_def)
  qed (simp add: p path_string_def)
  then obtain rest where rest: "path_string p = CHR ''/'' # rest" by blast
  have "char_of (of_char (CHR ''/'') :: nat) = CHR ''/''" by (rule char_of_char)
  then show ?thesis by (simp add: rest to_string_lossy_def char_codes_def utf8_head_def)
qed

section \<open>The tally of a plan\<close>

definition processed :: "string \<Rightarrow> execution_plan_item \<Rightarrow> bool" where
  "processed publication item \<longleftrightarrow>
     out_action (item_output item) = ''process'' \<and> out_publication (item_output item) = publication"

definition skipped :: "execution_plan_item \<Rightarrow> bool" where
  "skipped item \<longleftrightarrow> out_action (item_output item) = ''skip''"

definition most :: "(planned_resources \<Rightarrow> u64) \<Rightarrow> execution_plan_item list \<Rightarrow> u64" where
  "most f items = fold (\<lambda>item m. max m (f (item_resources item))) items 0"

definition exact_tally :: "execution_plan_item list \<Rightarrow> plan_tally \<Rightarrow> bool" where
  "exact_tally items t \<longleftrightarrow>
     tally_resources t = \<lparr>rs_memory_bytes = most res_memory_bytes items, rs_temporary_bytes = most res_temporary_bytes items,
       rs_cpu_jobs = most res_cpu_jobs items, rs_gpu_jobs = most res_gpu_jobs items,
       rs_gpu_memory_bytes = most res_gpu_memory_bytes items\<rparr>
   \<and> unat (ds_create (tally_destinations t)) = length (filter (processed ''no-clobber'') items)
   \<and> unat (ds_replace (tally_destinations t)) = length (filter (processed ''replace'') items)
   \<and> unat (ds_skip (tally_destinations t)) = length (filter skipped items)
   \<and> unat (ds_process (tally_destinations t)) + length (filter skipped items) = length items
   \<and> length (filter (processed ''no-clobber'') items) + length (filter (processed ''replace'') items)
       + length (filter skipped items) = length items
   \<and> tally_create t = list_ex (processed ''no-clobber'') items
   \<and> tally_replace t = list_ex (processed ''replace'') items"

lemma unat_saturating_add1: "unat (a :: u64) < 2 ^ 64 - 1 \<Longrightarrow> unat (saturating_add a 1) = unat a + 1"
  by (simp add: unat_saturating_add)

lemma tally_item_exact:
  assumes "exact_tally items t" and "tally_item t item = Inr t'" and "length items < 2 ^ 64 - 1"
  shows "exact_tally (items @ [item]) t'"
proof -
  let ?d = "tally_destinations t"
  have le: "length (filter (processed p) items) \<le> length items" "length (filter skipped items) \<le> length items" for p
    by simp_all
  have room: "unat (ds_create ?d) < 2 ^ 64 - 1" "unat (ds_replace ?d) < 2 ^ 64 - 1"
    "unat (ds_skip ?d) < 2 ^ 64 - 1" "unat (ds_process ?d) < 2 ^ 64 - 1"
    using assms(1,3) le(1) [of "''no-clobber''"] le(1) [of "''replace''"] le(2) unfolding exact_tally_def by linarith+
  note step = room [THEN unat_saturating_add1]
  have most: "most f (items @ [item]) = max (most f items) (f (item_resources item))" for f
    by (simp add: most_def)
  consider (skip) "out_action (item_output item) = ''skip''"
    | (create) "out_action (item_output item) = ''process''" "out_publication (item_output item) = ''no-clobber''"
    | (replace) "out_action (item_output item) = ''process''" "out_publication (item_output item) = ''replace''"
    using assms(2) by (auto simp: tally_item_def Let_def split: if_splits)
  then show ?thesis
  proof cases
    case skip
    then have "t' = t\<lparr>tally_resources := max_resources (tally_resources t) (item_resources item),
        tally_destinations := ?d\<lparr>ds_skip := saturating_add (ds_skip ?d) 1\<rparr>\<rparr>"
      using assms(2) by (simp add: tally_item_def Let_def)
    then show ?thesis
      using assms(1) step(3) skip by (simp add: exact_tally_def max_resources_def most processed_def skipped_def)
  next
    case create
    then have "t' = t\<lparr>tally_resources := max_resources (tally_resources t) (item_resources item),
        tally_destinations := ?d\<lparr>ds_process := saturating_add (ds_process ?d) 1, ds_create := saturating_add (ds_create ?d) 1\<rparr>,
        tally_create := True\<rparr>"
      using assms(2) by (simp add: tally_item_def Let_def)
    then show ?thesis
      using assms(1) step(1,4) create by (simp add: exact_tally_def max_resources_def most processed_def skipped_def)
  next
    case replace
    then have "t' = t\<lparr>tally_resources := max_resources (tally_resources t) (item_resources item),
        tally_destinations := ?d\<lparr>ds_process := saturating_add (ds_process ?d) 1, ds_replace := saturating_add (ds_replace ?d) 1\<rparr>,
        tally_replace := True\<rparr>"
      using assms(2) by (simp add: tally_item_def Let_def)
    then show ?thesis
      using assms(1) step(2,4) replace by (simp add: exact_tally_def max_resources_def most processed_def skipped_def)
  qed
qed

lemma tally_exact:
  assumes "try_fold tally_item empty_tally items = Inr t" and "length items < 2 ^ 64"
  shows "exact_tally items t"
  using assms
proof (induction items arbitrary: t rule: rev_induct)
  case Nil
  then show ?case
    by (auto simp: exact_tally_def empty_tally_def no_resources_def no_destinations_def most_def)
next
  case (snoc item items)
  then obtain u where "try_fold tally_item empty_tally items = Inr u" "tally_item u item = Inr t"
    by (auto simp: try_fold_append and_then_Inr_iff)
  with snoc show ?case by (intro tally_item_exact) auto
qed

lemma most_ge: "item \<in> set items \<Longrightarrow> f (item_resources item) \<le> most f items"
proof (induction items rule: rev_induct)
  case (snoc x xs)
  then show ?case by (auto simp: most_def le_max_iff_disj)
qed simp

lemma most_attained: "most f items = 0 \<or> (\<exists>item \<in> set items. most f items = f (item_resources item))"
  by (induction items rule: rev_induct) (auto simp: most_def max_def)

lemma enforced_limit: "enforce_planned_limit label requested limit = Inr () \<Longrightarrow> limit = Some l \<longrightarrow> requested \<le> l"
  by (auto simp: enforce_planned_limit_def not_less)

section \<open>Properties of planning\<close>

text \<open>The summary says exactly what the plan does. When \<open>summarize_plan\<close> accepts, its
  report holds the plan; every resource is the largest request of an item, and no item exceeds a
  configured limit; the counts are the numbers of created, replaced and skipped outputs, and
  together they account for every item; and the overwrite policy names exactly the modes that
  occur. The report itself validates.\<close>

theorem plan_summary_exact:
  assumes "summarize_plan env plan kind limits = Inr report"
  shows "let items = plan_items plan; r = dry_resources report; d = dry_destinations report in
     dry_plan report = plan \<and> dry_run_validate (se_ser_plan (sv_store env)) report = Inr ()
   \<and> (\<forall>item \<in> set items. res_memory_bytes (item_resources item) \<le> rs_memory_bytes r
        \<and> res_temporary_bytes (item_resources item) \<le> rs_temporary_bytes r
        \<and> res_gpu_memory_bytes (item_resources item) \<le> rs_gpu_memory_bytes r
        \<and> res_cpu_jobs (item_resources item) \<le> rs_cpu_jobs r \<and> res_gpu_jobs (item_resources item) \<le> rs_gpu_jobs r)
   \<and> (rs_memory_bytes r = 0 \<or> (\<exists>item \<in> set items. rs_memory_bytes r = res_memory_bytes (item_resources item)))
   \<and> (\<forall>l. max_memory_bytes limits = Some l \<longrightarrow> rs_memory_bytes r \<le> l)
   \<and> (\<forall>l. max_temporary_bytes limits = Some l \<longrightarrow> rs_temporary_bytes r \<le> l)
   \<and> (\<forall>l. max_gpu_memory_bytes limits = Some l \<longrightarrow> rs_gpu_memory_bytes r \<le> l)
   \<and> unat (ds_create d) = length (filter (processed ''no-clobber'') items)
   \<and> unat (ds_replace d) = length (filter (processed ''replace'') items)
   \<and> unat (ds_skip d) = length (filter skipped items)
   \<and> unat (ds_process d) = unat (ds_create d) + unat (ds_replace d)
   \<and> unat (ds_process d) + unat (ds_skip d) = length items
   \<and> dry_overwrite_policy report =
       overwrite_policy_of (list_ex (processed ''no-clobber'') items) (list_ex (processed ''replace'') items)"
proof -
  from assms obtain t where t: "try_fold tally_item empty_tally (plan_items plan) = Inr t"
    and limits: "enforce_planned_limit ''memory'' (rs_memory_bytes (tally_resources t)) (max_memory_bytes limits) = Inr ()"
      "enforce_planned_limit ''temporary storage'' (rs_temporary_bytes (tally_resources t)) (max_temporary_bytes limits) = Inr ()"
      "enforce_planned_limit ''GPU memory'' (rs_gpu_memory_bytes (tally_resources t)) (max_gpu_memory_bytes limits) = Inr ()"
    and report: "dry_plan report = plan" "dry_resources report = tally_resources t"
      "dry_destinations report = tally_destinations t"
      "dry_overwrite_policy report = overwrite_policy_of (tally_create t) (tally_replace t)"
    and valid: "dry_run_validate (se_ser_plan (sv_store env)) report = Inr ()"
    by (auto simp: summarize_plan_def Let_def and_then_Inr_iff)
  have "length (plan_items plan) \<le> MAX_ITEMS"
    using valid report(1) by (auto simp: dry_run_validate_def plan_validate_def and_then_unit_iff)
  then have "exact_tally (plan_items plan) t"
    by (intro tally_exact [OF t]) (simp add: MAX_ITEMS_def)
  then show ?thesis
    using report valid most_ge [of _ "plan_items plan"] most_attained [of res_memory_bytes "plan_items plan"]
      limits [THEN enforced_limit]
    by (simp add: exact_tally_def Let_def)
qed

text \<open>The server's options prevail. Of the options that the server controls, a child process
  of an admitted job is given exactly the server's own, each once: whatever arguments the client
  submits, it can neither repeat nor override them. This relies on \<open>canonicalize\<close> returning
  absolute paths.\<close>

theorem server_options_prevail:
  assumes "authorize_and_normalize_job env grant requested = Inr job"
    and "job_command_arguments job limits = Inr args"
    and "\<And>p q. se_canonicalize (sv_store env) p = Some q \<Longrightarrow> is_absolute q"
  shows "filter denied args = server_options (spec_kind requested) limits"
proof -
  from assms(1) obtain input out where paths: "authorize_job_paths (sv_store env) grant requested = Inr (input, out)"
    and job: "spec_input job = to_string_lossy (path_string input)" "spec_output job = to_string_lossy (path_string out)"
      "spec_arguments job = spec_arguments requested" "spec_kind job = spec_kind requested"
    and ok: "validate_job_arguments (spec_arguments requested) = Inr ()"
    by (auto simp: authorize_and_normalize_job_def and_then_Inr_iff or_ipc_def Let_def split: if_splits)
  note contained = authorized_paths [OF paths]
  have "is_absolute input" using contained(1) assms(3) by blast
  moreover have "is_absolute out"
  proof -
    obtain a names resolved where "se_canonicalize (sv_store env) a = Some resolved" "out = resolved @ map Normal names"
      using contained(2) by blast
    then show ?thesis using assms(3) by (auto simp: is_absolute_def)
  qed
  ultimately have "\<not> denied (spec_input job)" "\<not> denied (spec_output job)"
    unfolding job(1,2) by (auto dest!: absolute_text denied_dash)
  then show ?thesis using command_options [OF assms(2)] ok job by simp
qed

section \<open>A concrete plan\<close>

definition demo_server_env :: server_env where
  "demo_server_env = \<lparr>sv_store = demo_store_env True, sv_render = (\<lambda>_. ''rejected''),
     sv_run_child = (\<lambda>_. Exited True [123, 125] []), sv_parse_plan = (\<lambda>_. Some sample_plan),
     sv_sha256 = (\<lambda>_. replicate 32 0), sv_write_control = (\<lambda>_ _ _. True), sv_kill = (\<lambda>_. True)\<rparr>"

lemma demo_digest_text: "validate_digest (encode_hex (replicate 32 0)) = Inr ()"
  using hex_digest_ok [of "replicate 32 0"] by (simp add: Ipc_Contracts.validate_digest_def)

lemma demo_summary:
  "\<exists>report. summarize_plan demo_server_env sample_plan FileJob limits_default = Inr report"
proof -
  have digest: "plan_digest (sv_sha256 demo_server_env) (se_ser_plan (sv_store demo_server_env)) sample_plan
      = Inr (Digest (replicate 32 0))"
    using sample_plan_valid
    by (simp add: plan_digest_def demo_server_env_def domain_digest_def)
      (simp add: sample_serializer_def)
  have tally: "\<exists>t. try_fold tally_item empty_tally (plan_items sample_plan) = Inr t
      \<and> overwrite_policy_of (tally_create t) (tally_replace t) = ''no-clobber''"
    by (simp add: sample_plan_def sample_item_def tally_item_def empty_tally_def overwrite_policy_of_def)
  have limits: "max_memory_bytes limits_default = None" "max_temporary_bytes limits_default = None"
    "max_gpu_memory_bytes limits_default = None"
    by (simp_all add: limits_default_def)
  have valid: "plan_validate (se_ser_plan (sv_store demo_server_env)) sample_plan = Inr ()"
    using sample_plan_valid by (simp add: demo_server_env_def)
  from tally show ?thesis
    using digest valid demo_digest_text
    by (auto simp: summarize_plan_def Let_def enforce_planned_limit_def limits dry_run_validate_def as_hex_def
        Ipc_Contracts.require_schema_def known_overwrite_policy_def)
qed

theorem plan_summary_exact_witness:
  "\<exists>report. summarize_plan demo_server_env sample_plan FileJob limits_default = Inr report
     \<and> unat (ds_process (dry_destinations report)) + unat (ds_skip (dry_destinations report)) = 2"
proof -
  obtain report where "summarize_plan demo_server_env sample_plan FileJob limits_default = Inr report"
    using demo_summary by blast
  with plan_summary_exact [OF this] show ?thesis by (simp add: Let_def sample_plan_def)
qed

definition demo_grant_auth :: authenticated_grant where
  "demo_grant_auth = \<lparr>auth_grant_id = ''grant-demo'', auth_policy = sample_policy\<rparr>"

lemma demo_job_admitted:
  assumes "auth_policy grant = sample_policy"
  shows "authorize_and_normalize_job demo_server_env grant demo_spec = Inr demo_spec"
proof -
  have "authorize_job_paths (demo_store_env True) grant demo_spec
      = Inr ([RootDir, Normal ''in'', Normal ''a.wav''], [RootDir, Normal ''out'', Normal ''a.wav''])"
    by (simp add: authorize_job_paths_def assms demo_store_env_def demo_spec_def job_spec_new_def path_of_def
        component_of_def Let_def resolve_future_path_def is_absolute_def existing_ancestor.simps require_below_roots_def
        sample_policy_def grant_policy_new_def starts_with_def)
  moreover have "to_string_lossy ''/in/a.wav'' = ''/in/a.wav''" "to_string_lossy ''/out/a.wav'' = ''/out/a.wav''"
    by (rule to_string_lossy_valid, simp add: utf8_text_def char_codes_def utf8_head_def)+
  moreover have "\<not> pol_max_priority sample_policy < spec_priority demo_spec"
    by (simp add: sample_policy_def grant_policy_new_def demo_spec_def job_spec_new_def)
  ultimately show ?thesis
    using demo_spec_valid assms
    by (simp add: authorize_and_normalize_job_def demo_server_env_def or_ipc_def path_string_def Let_def assms)
      (simp add: demo_spec_def job_spec_new_def)
qed

theorem server_options_prevail_witness:
  "\<exists>args. job_command_arguments demo_spec limits_default = Inr args
     \<and> filter denied args = [''--max-gpu-jobs'']"
proof -
  have none: "max_memory_bytes limits_default = None" "max_temporary_bytes limits_default = None"
    "max_gpu_memory_bytes limits_default = None"
    by (simp_all add: limits_default_def)
  obtain args where args: "job_command_arguments demo_spec limits_default = Inr args"
    by (simp add: job_command_arguments_iff none)
  have absolute: "is_absolute q" if "se_canonicalize (sv_store demo_server_env) p = Some q" for p q
    using that by (simp add: demo_server_env_def demo_store_env_def split: if_splits)
  have "filter denied args = server_options (spec_kind demo_spec) limits_default"
    by (rule server_options_prevail [OF demo_job_admitted [of demo_grant_auth] args absolute]) (simp add: demo_grant_auth_def)
  then show ?thesis using args by (simp add: server_options_def demo_spec_def job_spec_new_def none)
qed

lemma demo_plan_job: "\<exists>report. plan_job demo_server_env limits_default demo_spec = Inr report"
proof -
  have none: "max_memory_bytes limits_default = None" "max_temporary_bytes limits_default = None"
    "max_gpu_memory_bytes limits_default = None"
    by (simp_all add: limits_default_def)
  obtain args where args: "job_command_arguments demo_spec limits_default = Inr args"
    by (simp add: job_command_arguments_iff none)
  have kind: "spec_kind demo_spec = FileJob" "spec_input demo_spec = ''/in/a.wav''" "spec_output demo_spec = ''/out/a.wav''"
    by (simp_all add: demo_spec_def job_spec_new_def)
  have bound: "validate_bound_job_paths (demo_store_env True) demo_spec = Inr ()"
    by (simp add: validate_bound_job_paths_def kind demo_store_env_def path_of_def component_of_def Let_def
        resolve_future_path_def is_absolute_def existing_ancestor.simps)
  have run: "run_bounded_child (sv_run_child demo_server_env arguments) (max_response_bytes limits_default)
      MAX_CHILD_DIAGNOSTIC_BYTES = Inr (True, [123, 125], [])" for arguments
    by (simp add: run_bounded_child_def demo_server_env_def bounded_reader_def limits_default_def MAX_CHILD_DIAGNOSTIC_BYTES_def
        saturating_add_def checked_add_def)
  have "sv_store demo_server_env = demo_store_env True" "sv_parse_plan demo_server_env out = Some sample_plan"
    "plan_kind sample_plan = File" "expected_kind FileJob = File" for out
    by (simp_all add: demo_server_env_def sample_plan_def expected_kind_def)
  then show ?thesis
    using bound args run demo_summary sample_plan_valid by (simp add: plan_job_def kind)
qed

end
