(* ===== verification/Ipc_Requests.thy ===== *)
theory Ipc_Requests
  imports Ipc_Planning
begin

text \<open>
  Serving one request (\<open>src/src/ipc/server.rs\<close>): \<open>control_job\<close> and \<open>dispatch_request\<close> as
  functions of the shared state, and the envelope of \<open>handle_connection\<close>. The clock and the
  random bytes a request draws are its inputs. The store's lock is taken for each store operation;
  the model runs one request at a time.
\<close>

record request_inputs =
  ri_now :: "u64 option"
  ri_later :: "u64 option"
  ri_job_bytes :: "u8 list option"
  ri_grant_bytes :: "u8 list option"
  ri_token_bytes :: "u8 list option"

section \<open>Control of a job\<close>

text \<open>Run a store operation under the lock and keep what it left behind.\<close>

definition on_store :: "(state_store \<Rightarrow> ('e + 'a) \<times> state_store) \<Rightarrow> shared \<Rightarrow> ('e + 'a) \<times> shared" where
  "on_store f sh = (case f (sh_store sh) of (r, s) \<Rightarrow> (r, sh\<lparr>sh_store := s\<rparr>))"

definition or_ipc_st ::
  "server_env \<Rightarrow> string \<Rightarrow> bool \<Rightarrow> (store_error + 'a) \<times> shared \<Rightarrow> (ipc_error + 'a) \<times> shared" where
  "or_ipc_st env code retryable m = (or_ipc env code retryable FromStore (fst m), snd m)"

definition job_owner :: "shared \<Rightarrow> string \<Rightarrow> ipc_error + string" where
  "job_owner sh job_id =
    ok_or (map_option fst (store_status (sh_store sh) job_id)) (ipc_error_of ''not-found'' ''IPC job does not exist'' False)"

text \<open>What \<open>control_job\<close> does for a job with a process: write its control file, count the
  generation of the active child, and kill it when it is to be cancelled.\<close>

definition signal_child ::
  "server_env \<Rightarrow> stored_job \<Rightarrow> string \<Rightarrow> control_action \<Rightarrow> shared \<Rightarrow> (ipc_error + unit) \<times> shared" where
  "signal_child env job job_id action sh =
    (let generation = saturating_add (ucast (st_attempt (job_status job))) 1 in
     if \<not> sv_write_control env (st_job_id (job_status job)) action generation
     then (Inl (ipc_error_of ''control-failed'' (sv_render env ControlNotWritten) True), sh)
     else let sh1 = sh\<lparr>sh_controls := (sh_controls sh)(st_job_id (job_status job) \<mapsto> (action, generation))\<rparr> in
       case sh_active sh1 of
         None \<Rightarrow> (Inr (), sh1)
       | Some active \<Rightarrow>
           if ac_job_id active \<noteq> job_id then (Inr (), sh1)
           else let a = active\<lparr>ac_control_generation := saturating_add (ac_control_generation active) 1\<rparr> in
             if action \<noteq> CancelAction then (Inr (), sh1\<lparr>sh_active := Some a\<rparr>)
             else if sv_kill env job_id then (Inr (), sh1\<lparr>sh_active := Some (a\<lparr>ac_killed := True\<rparr>)\<rparr>)
             else (Inl (ipc_error_of ''control-failed'' (sv_render env ChildNotKilled) True), sh1\<lparr>sh_active := Some a\<rparr>))"

definition control_job ::
  "server_env \<Rightarrow> u64 option \<Rightarrow> authenticated_grant \<Rightarrow> string \<Rightarrow> control_action \<Rightarrow> shared
     \<Rightarrow> (ipc_error + unit) \<times> shared" where
  "control_job env later grant job_id action sh =
    (case and_then (job_owner sh job_id) (require_control_access grant) of
       Inl e \<Rightarrow> (Inl e, sh)
     | Inr _ \<Rightarrow>
         st_then (or_ipc_st env ''invalid-state'' False
             (on_store (request_control (sv_store env) job_id (action = PauseAction)) sh)) (\<lambda>(job, _) sh1.
         if job_process_id job \<noteq> None then signal_child env job job_id action sh1
         else if action = CancelAction then
           (case later of
              None \<Rightarrow> (Inl (ipc_error_of ''clock-error'' (sv_render env ClockFailed) True), sh1)
            | Some now \<Rightarrow>
                st_then (or_ipc_st env ''control-failed'' True
                    (on_store (terminalize (sv_store env) job_id Cancelled None (Some ''cancelled before execution'')
                      (Some ''cancelled'') now) sh1)) (\<lambda>_ sh2. (Inr (), sh2)))
         else (Inr (), sh1)))"

section \<open>Dispatch\<close>

definition admit_and_plan ::
  "server_env \<Rightarrow> authenticated_grant \<Rightarrow> ipc_capability \<Rightarrow> job_spec \<Rightarrow> shared \<Rightarrow> ipc_error + job_spec \<times> dry_run_report" where
  "admit_and_plan env grant capability requested sh =
    and_then (require_capability grant capability) (\<lambda>_.
    and_then (authorize_and_normalize_job env grant requested) (\<lambda>job.
    and_then (or_ipc env ''planning-failed'' False FromPlan
      (plan_job env (reg_limits (registry (sh_store sh))) job)) (\<lambda>report. Inr (job, report))))"

text \<open>Whose jobs a reader sees: everyone's, or its own.\<close>

definition read_scope :: "authenticated_grant \<Rightarrow> string option" where
  "read_scope grant = (if has_capability grant ReadAll then None else Some (auth_grant_id grant))"

definition has_active_or_queued_jobs :: "shared \<Rightarrow> bool" where
  "has_active_or_queued_jobs sh \<longleftrightarrow> list_jobs (sh_store sh) 1 None \<noteq> []"

definition serve ::
  "server_env \<Rightarrow> request_inputs \<Rightarrow> u64 \<Rightarrow> authenticated_grant \<Rightarrow> ipc_operation \<Rightarrow> shared
     \<Rightarrow> (ipc_error + response_result) \<times> shared" where
  "serve env inputs now grant operation sh =
    (let s = sh_store sh; se = sv_store env in
     case operation of
       Ping \<Rightarrow> (Inr (Pong now), sh)
     | DryRun job \<Rightarrow> (and_then (admit_and_plan env grant Plan job sh) (\<lambda>(_, report). Inr (DryRunResult report)), sh)
     | SubmitJob requested \<Rightarrow> (case admit_and_plan env grant Submit requested sh of
         Inl e \<Rightarrow> (Inl e, sh)
       | Inr (job, report) \<Rightarrow>
           st_then (or_ipc_st env ''queue-rejected'' True
               (on_store (insert_job se (auth_grant_id grant) job report now (ri_job_bytes inputs)) sh))
             (\<lambda>status sh1. (Inr (Submitted status), sh1)))
     | Status job_id \<Rightarrow>
         (and_then (ok_or (store_status s job_id) (ipc_error_of ''not-found'' ''IPC job does not exist'' False))
           (\<lambda>(owner, status). and_then (require_read_access grant owner) (\<lambda>_. Inr (StatusResult status))), sh)
     | ListJobs limit \<Rightarrow>
         (and_then (require_any_capability grant [ReadOwn, ReadAll]) (\<lambda>_.
            Inr (Jobs (map snd (list_jobs s limit (read_scope grant))))), sh)
     | History limit \<Rightarrow>
         (and_then (require_any_capability grant [ReadOwn, ReadAll]) (\<lambda>_.
            let entries = map snd (store_history s (saturating_add limit 1) (read_scope grant))
            in Inr (HistoryResult \<lparr>hr_schema = IPC_HISTORY_SCHEMA, hr_schema_version = IPC_SCHEMA_VERSION,
                 hr_entries = take (unat limit) entries, hr_truncated = (unat limit < length entries)\<rparr>)), sh)
     | Cancel job_id \<Rightarrow> st_then (control_job env (ri_later inputs) grant job_id CancelAction sh) (\<lambda>_ sh1. (Inr Acknowledged, sh1))
     | Pause job_id \<Rightarrow> st_then (control_job env (ri_later inputs) grant job_id PauseAction sh) (\<lambda>_ sh1. (Inr Acknowledged, sh1))
     | Resume job_id \<Rightarrow> (case and_then (job_owner sh job_id) (require_control_access grant) of
         Inl e \<Rightarrow> (Inl e, sh)
       | Inr _ \<Rightarrow> st_then (or_ipc_st env ''invalid-state'' False (on_store (resume se job_id) sh))
           (\<lambda>status sh1. (Inr (StatusResult status), sh1)))
     | CreateGrant policy \<Rightarrow> (case require_capability grant ManageGrants of
         Inl e \<Rightarrow> (Inl e, sh)
       | Inr _ \<Rightarrow> st_then (or_ipc_st env ''grant-rejected'' False
             (on_store (create_grant se policy now (ri_grant_bytes inputs) (ri_token_bytes inputs)) sh))
           (\<lambda>document sh1. (Inr (Grant document), sh1)))
     | RevokeGrant grant_id \<Rightarrow> (case require_capability grant ManageGrants of
         Inl e \<Rightarrow> (Inl e, sh)
       | Inr _ \<Rightarrow> st_then (or_ipc_st env ''grant-rejected'' False (on_store (revoke_grant se grant_id now) sh))
           (\<lambda>_ sh1. (Inr Acknowledged, sh1)))
     | ListGrants limit \<Rightarrow>
         (and_then (require_capability grant ManageGrants) (\<lambda>_. Inr (Grants (list_grants s limit))), sh)
     | ShutdownServer force \<Rightarrow> (case require_capability grant Shutdown of
         Inl e \<Rightarrow> (Inl e, sh)
       | Inr _ \<Rightarrow>
           if \<not> force \<and> has_active_or_queued_jobs sh
           then (Inl (ipc_error_of ''jobs-active'' ''IPC jobs remain active; use force shutdown to cancel them'' True), sh)
           else (Inr Acknowledged, sh\<lparr>sh_force_shutdown := force, sh_shutdown := True\<rparr>)))"

definition dispatch_request ::
  "server_env \<Rightarrow> request_inputs \<Rightarrow> request_envelope \<Rightarrow> shared \<Rightarrow> (ipc_error + response_result) \<times> shared" where
  "dispatch_request env inputs request sh =
    (case ri_now inputs of
       None \<Rightarrow> (Inl (ipc_error_of ''clock-error'' (sv_render env ClockFailed) True), sh)
     | Some now \<Rightarrow> (case or_ipc env ''unauthorized'' False FromStore
           (authenticate (sv_store env) (sh_store sh) (req_server_id request) (req_grant_id request) (req_token request) now) of
         Inl e \<Rightarrow> (Inl e, sh)
       | Inr grant \<Rightarrow> serve env inputs now grant (req_operation request) sh))"

definition answer :: "request_envelope \<Rightarrow> ipc_error + response_result \<Rightarrow> response_envelope" where
  "answer request r =
    (case r of Inr res \<Rightarrow> response_success (req_request_id request) res
     | Inl e \<Rightarrow> response_failure (req_request_id request) e)"

section \<open>Facts about requests\<close>

lemma ipc_error_of_code [simp]: "err_code (ipc_error_of code message retryable) = code"
  by (simp add: ipc_error_of_def)

lemma or_ipc_iff [simp]:
  "or_ipc env code retryable cause m = Inr x \<longleftrightarrow> m = Inr x"
  by (simp add: or_ipc_def map_err_def split: sum.split)

lemma or_ipc_Inr [simp]: "or_ipc env code retryable cause (Inr x) = Inr x"
  by (simp add: or_ipc_def map_err_def)

lemma or_ipc_code: "or_ipc env code retryable cause m = Inl e \<Longrightarrow> err_code e = code"
  by (auto simp: or_ipc_def map_err_def split: sum.splits)

lemma or_ipc_st_Inr [simp]: "or_ipc_st env code retryable m = (Inr x, sh) \<longleftrightarrow> m = (Inr x, sh)"
  by (cases m) (simp add: or_ipc_st_def)

lemma or_ipc_st_ok [simp]: "or_ipc_st env code retryable (Inr x, sh) = (Inr x, sh)"
  by (simp add: or_ipc_st_def)

lemma or_ipc_st_code: "or_ipc_st env code retryable m = (Inl e, sh) \<Longrightarrow> err_code e = code"
  by (auto simp: or_ipc_st_def dest: or_ipc_code)

lemma snd_or_ipc_st [simp]: "snd (or_ipc_st env code retryable m) = snd m"
  by (simp add: or_ipc_st_def)

lemma on_store_Inr: "on_store f sh = (Inr x, sh') \<longleftrightarrow> (\<exists>s. f (sh_store sh) = (Inr x, s) \<and> sh' = sh\<lparr>sh_store := s\<rparr>)"
  by (auto simp: on_store_def split: prod.splits)

lemma snd_on_store: "snd (on_store f sh) = sh\<lparr>sh_store := snd (f (sh_store sh))\<rparr>"
  by (simp add: on_store_def split: prod.split)

lemma st_then_Inl_code:
  assumes "st_then (or_ipc_st env code retryable m) (\<lambda>x s. (Inr (f x), g x s)) = (Inl e, sh)"
  shows "err_code e = code"
  using assms by (cases "or_ipc_st env code retryable m"; cases "fst (or_ipc_st env code retryable m)")
    (auto dest: or_ipc_st_code)

text \<open>The codes of the answers given before anything is changed.\<close>

definition refusal_codes :: "string set" where
  "refusal_codes = {''unauthorized'', ''forbidden'', ''not-found'', ''invalid-job'', ''planning-failed'', ''jobs-active''}"

lemma signal_child_code:
  "signal_child env job job_id action sh = (Inl e, sh') \<Longrightarrow> err_code e = ''control-failed''"
  by (auto simp: signal_child_def Let_def split: if_splits option.splits)

lemma control_job_refused:
  assumes "control_job env later grant job_id action sh = (Inl e, sh')" and "err_code e \<in> refusal_codes"
  shows "sh' = sh"
proof (cases "and_then (job_owner sh job_id) (require_control_access grant)")
  case (Inl d)
  then show ?thesis using assms(1) by (simp add: control_job_def)
next
  case (Inr u)
  let ?m = "or_ipc_st env ''invalid-state'' False
    (on_store (request_control (sv_store env) job_id (action = PauseAction)) sh)"
  obtain r sh1 where m: "?m = (r, sh1)" by (cases ?m)
  show ?thesis
  proof (cases r)
    case (Inl d)
    then have "err_code d = ''invalid-state''" using m or_ipc_st_code by simp
    then show ?thesis using assms Inr Inl m by (simp add: control_job_def refusal_codes_def)
  next
    case (Inr x)
    then have "err_code e = ''control-failed'' \<or> err_code e = ''clock-error''"
      using assms(1) \<open>and_then _ _ = Inr u\<close> m
      by (auto simp: control_job_def split: prod.splits if_splits option.splits dest: signal_child_code st_then_Inl_code)
    then show ?thesis using assms(2) by (auto simp: refusal_codes_def)
  qed
qed

lemma after_control_refused:
  assumes "st_then (control_job env later grant job_id action sh) (\<lambda>_ sh1. (Inr x, sh1)) = (Inl e, sh')"
    and "err_code e \<in> refusal_codes"
  shows "sh' = sh"
  using assms control_job_refused [of env later grant job_id action sh e sh']
  by (cases "control_job env later grant job_id action sh"; cases "fst (control_job env later grant job_id action sh)") auto

lemma serve_refused:
  assumes "serve env inputs now grant operation sh = (Inl e, sh')" and "err_code e \<in> refusal_codes"
  shows "sh' = sh"
proof -
  have codes: "err_code e \<noteq> ''queue-rejected''" "err_code e \<noteq> ''invalid-state''" "err_code e \<noteq> ''grant-rejected''"
    using assms(2) by (auto simp: refusal_codes_def)
  show ?thesis
  proof (cases operation)
    case (SubmitJob requested)
    then show ?thesis using assms(1) codes
      by (auto simp: serve_def Let_def split: sum.splits prod.splits dest: st_then_Inl_code)
  next
    case (Cancel job_id)
    then show ?thesis using assms(1) by (simp add: serve_def Let_def after_control_refused [OF _ assms(2)])
  next
    case (Pause job_id)
    then show ?thesis using assms(1) by (simp add: serve_def Let_def after_control_refused [OF _ assms(2)])
  next
    case (Resume job_id)
    then show ?thesis using assms(1) codes by (auto simp: serve_def Let_def split: sum.splits dest: st_then_Inl_code)
  next
    case (CreateGrant policy)
    then show ?thesis using assms(1) codes by (auto simp: serve_def Let_def split: sum.splits dest: st_then_Inl_code)
  next
    case (RevokeGrant grant_id)
    then show ?thesis using assms(1) codes by (auto simp: serve_def Let_def split: sum.splits dest: st_then_Inl_code)
  next
    case (ShutdownServer force)
    then show ?thesis using assms(1) by (auto simp: serve_def Let_def split: sum.splits if_splits)
  qed (use assms(1) in \<open>simp_all add: serve_def Let_def\<close>)
qed

section \<open>Properties of requests\<close>

text \<open>A refused request changes nothing. When a request is answered with an error that says
  it was refused (unauthenticated, forbidden, unknown job, invalid job, failed planning, or jobs
  still active), the store, the active child, the control files and the shutdown flags are
  exactly what they were.\<close>

theorem refused_request_changes_nothing:
  assumes "dispatch_request env inputs request sh = (Inl e, sh')" and "err_code e \<in> refusal_codes"
  shows "sh' = sh"
proof (cases "ri_now inputs")
  case None
  then show ?thesis using assms(1) by (simp add: dispatch_request_def)
next
  case (Some now)
  show ?thesis
  proof (cases "or_ipc env ''unauthorized'' False FromStore
      (authenticate (sv_store env) (sh_store sh) (req_server_id request) (req_grant_id request) (req_token request) now)")
    case (Inl d)
    then show ?thesis using assms(1) Some by (simp add: dispatch_request_def)
  next
    case (Inr grant)
    then have "serve env inputs now grant (req_operation request) sh = (Inl e, sh')"
      using assms(1) Some by (simp add: dispatch_request_def)
    then show ?thesis by (rule serve_refused [OF _ assms(2)])
  qed
qed

lemma dispatch_Inr:
  assumes "dispatch_request env inputs request sh = (Inr res, sh')"
  obtains now grant where "ri_now inputs = Some now"
    "authenticate (sv_store env) (sh_store sh) (req_server_id request) (req_grant_id request) (req_token request) now = Inr grant"
    "serve env inputs now grant (req_operation request) sh = (Inr res, sh')"
  using assms by (auto simp: dispatch_request_def split: option.splits sum.splits)

lemma control_job_Inr:
  assumes "control_job env later grant job_id action sh = (Inr u, sh')"
  obtains owner status job st s where "store_status (sh_store sh) job_id = Some (owner, status)"
    "require_control_access grant owner = Inr ()"
    "request_control (sv_store env) job_id (action = PauseAction) (sh_store sh) = (Inr (job, st), s)"
    "if job_process_id job \<noteq> None then signal_child env job job_id action (sh\<lparr>sh_store := s\<rparr>) = (Inr (), sh')
     else if action = CancelAction then \<exists>now done t. terminalize (sv_store env) job_id Cancelled None
        (Some ''cancelled before execution'') (Some ''cancelled'') now s = (Inr done, t) \<and> sh' = sh\<lparr>sh_store := t\<rparr>
     else sh' = sh\<lparr>sh_store := s\<rparr>"
proof -
  from assms obtain owner status where status: "store_status (sh_store sh) job_id = Some (owner, status)"
    and access: "require_control_access grant owner = Inr ()"
    by (auto simp: control_job_def job_owner_def and_then_Inr_iff split: sum.splits)
  from this obtain job st s where control: "request_control (sv_store env) job_id (action = PauseAction) (sh_store sh) = (Inr (job, st), s)"
    and rest: "(if job_process_id job \<noteq> None then signal_child env job job_id action (sh\<lparr>sh_store := s\<rparr>)
         else if action = CancelAction then
           (case later of
              None \<Rightarrow> (Inl (ipc_error_of ''clock-error'' (sv_render env ClockFailed) True), sh\<lparr>sh_store := s\<rparr>)
            | Some now \<Rightarrow>
                st_then (or_ipc_st env ''control-failed'' True
                    (on_store (terminalize (sv_store env) job_id Cancelled None (Some ''cancelled before execution'')
                      (Some ''cancelled'') now) (sh\<lparr>sh_store := s\<rparr>))) (\<lambda>_ sh2. (Inr (), sh2)))
         else (Inr (), sh\<lparr>sh_store := s\<rparr>)) = (Inr u, sh')"
    using assms by (auto simp: control_job_def job_owner_def st_then_Inr_iff on_store_Inr)
  have "if job_process_id job \<noteq> None then signal_child env job job_id action (sh\<lparr>sh_store := s\<rparr>) = (Inr (), sh')
     else if action = CancelAction then \<exists>now done t. terminalize (sv_store env) job_id Cancelled None
        (Some ''cancelled before execution'') (Some ''cancelled'') now s = (Inr done, t) \<and> sh' = sh\<lparr>sh_store := t\<rparr>
     else sh' = sh\<lparr>sh_store := s\<rparr>"
    using rest by (auto simp: st_then_Inr_iff on_store_Inr split: if_splits option.splits)
  with status access control show thesis by (rule that)
qed

text \<open>C31: An answer has the type its request asks for. Whatever \<open>dispatch_request\<close> returns
  on success passes the client's check \<open>matches_operation\<close> for the operation of the request.\<close>

theorem answers_match:
  assumes "dispatch_request env inputs request sh = (Inr res, sh')"
  shows "matches_operation res (req_operation request)"
proof -
  obtain now grant where "serve env inputs now grant (req_operation request) sh = (Inr res, sh')"
    using assms by (rule dispatch_Inr)
  then show ?thesis
    by (cases "req_operation request")
      (auto simp: serve_def matches_operation_def Let_def and_then_Inr_iff st_then_Inr_iff split: sum.splits if_splits prod.splits)
qed

text \<open>C32: A grant without the \<open>All\<close> capabilities is confined to its own jobs. When a request
  under such a grant succeeds, the job it asked about or controlled is one the grant itself
  submitted, and every job and every history entry in its answer is one the grant submitted.\<close>

theorem own_scope:
  assumes "dispatch_request env inputs request sh = (Inr res, sh')"
    and "ri_now inputs = Some now"
    and "authenticate (sv_store env) (sh_store sh) (req_server_id request) (req_grant_id request) (req_token request) now = Inr grant"
    and "\<not> has_capability grant ReadAll" and "\<not> has_capability grant ControlAll"
  shows "(\<forall>job_id. req_operation request \<in> {Status job_id, Cancel job_id, Pause job_id, Resume job_id} \<longrightarrow>
        (\<exists>status. store_status (sh_store sh) job_id = Some (req_grant_id request, status)))
    \<and> (\<forall>statuses. res = Jobs statuses \<longrightarrow> (\<forall>status \<in> set statuses. \<exists>(id, job) \<in> set (q_jobs (queue (sh_store sh))).
        job_owner_grant_id job = req_grant_id request \<and> status = status_or (sh_store sh) id (job_status job)))
    \<and> (\<forall>report. res = HistoryResult report \<longrightarrow> (\<forall>entry \<in> set (hr_entries report).
        \<exists>e \<in> set (q_history (queue (sh_store sh))). hist_public e = entry \<and> hist_owner_grant_id e = req_grant_id request))"
proof -
  have gid: "auth_grant_id grant = req_grant_id request" using assms(3) by (auto simp: authenticate_def and_then_Inr_iff)
  have served: "serve env inputs now grant (req_operation request) sh = (Inr res, sh')"
    using assms(1-3) by (simp add: dispatch_request_def)
  have control: "owner = req_grant_id request" if "require_control_access grant owner = Inr ()" for owner
    using that assms(5) gid by (auto simp: require_control_access_def split: if_splits)
  have read: "owner = req_grant_id request" if "require_read_access grant owner = Inr ()" for owner
    using that assms(4) gid by (auto simp: require_read_access_def split: if_splits)
  have scope: "read_scope grant = Some (req_grant_id request)" using assms(4) gid by (simp add: read_scope_def)
  show ?thesis
  proof (cases "req_operation request")
    case (Status job_id)
    then show ?thesis using served read by (auto simp: serve_def Let_def and_then_Inr_iff)
  next
    case (ListJobs limit)
    then show ?thesis using served scope
      by (auto simp: serve_def Let_def and_then_Inr_iff list_jobs_def owned_by_def dest!: in_set_takeD) force
  next
    case (History limit)
    then show ?thesis using served scope
      by (auto simp: serve_def Let_def and_then_Inr_iff store_history_def owned_by_def dest!: in_set_takeD) blast
  next
    case (Cancel job_id)
    then obtain u where "control_job env (ri_later inputs) grant job_id CancelAction sh = (Inr u, sh')" "res = Acknowledged"
      using served by (auto simp: serve_def Let_def st_then_Inr_iff)
    then show ?thesis using Cancel control by (auto elim!: control_job_Inr)
  next
    case (Pause job_id)
    then obtain u where "control_job env (ri_later inputs) grant job_id PauseAction sh = (Inr u, sh')" "res = Acknowledged"
      using served by (auto simp: serve_def Let_def st_then_Inr_iff)
    then show ?thesis using Pause control by (auto elim!: control_job_Inr)
  next
    case (Resume job_id)
    then show ?thesis using served control
      by (auto simp: serve_def Let_def st_then_Inr_iff job_owner_def and_then_Inr_iff split: sum.splits)
  qed (use served in \<open>auto simp: serve_def Let_def and_then_Inr_iff st_then_Inr_iff split: sum.splits if_splits prod.splits\<close>)
qed

section \<open>Requests as steps of the store\<close>

lemma sh_store_after [simp]:
  "sh_store (snd (st_then (or_ipc_st env code retryable (on_store f sh)) (\<lambda>x sh1. (Inr (g x), sh1)))) = snd (f (sh_store sh))"
  using snd_or_ipc_st [of env code retryable "on_store f sh"] snd_on_store [of f sh]
  by (simp add: snd_st_then split: sum.split)

lemma signal_child_store [simp]: "sh_store (snd (signal_child env job job_id action sh)) = sh_store sh"
  by (simp add: signal_child_def Let_def split: option.split)

lemma control_job_store:
  "sh_store (snd (control_job env later grant job_id action sh)) \<in>
    {sh_store sh, snd (request_control (sv_store env) job_id (action = PauseAction) (sh_store sh))}
    \<union> (\<lambda>now. snd (terminalize (sv_store env) job_id Cancelled None (Some ''cancelled before execution'')
        (Some ''cancelled'') now (snd (request_control (sv_store env) job_id (action = PauseAction) (sh_store sh))))) ` UNIV"
proof (cases "and_then (job_owner sh job_id) (require_control_access grant)")
  case (Inr u)
  let ?m = "or_ipc_st env ''invalid-state'' False
    (on_store (request_control (sv_store env) job_id (action = PauseAction)) sh)"
  obtain x sh1 where m: "?m = (x, sh1)" by (cases ?m)
  then have sh1: "sh_store sh1 = snd (request_control (sv_store env) job_id (action = PauseAction) (sh_store sh))"
    using snd_or_ipc_st [of env "''invalid-state''" False "on_store (request_control (sv_store env) job_id (action = PauseAction)) sh"]
    by (simp add: snd_on_store)
  show ?thesis
  proof (cases x)
    case (Inl e)
    then show ?thesis using Inr m sh1 by (simp add: control_job_def)
  next
    case (Inr y)
    then show ?thesis using \<open>and_then _ _ = Inr u\<close> m sh1
      by (cases y) (auto simp: control_job_def split: option.split)
  qed
qed (simp add: control_job_def)

lemma sh_store_then [simp]:
  "sh_store (snd (st_then m (\<lambda>_ sh1. (Inr x, sh1)))) = sh_store (snd m)"
  by (simp add: snd_st_then split: sum.split)

lemma sh_store_sum [simp]:
  "sh_store (snd (case m of Inl e \<Rightarrow> (Inl e, sh) | Inr x \<Rightarrow> f x)) = (case m of Inl e \<Rightarrow> sh_store sh | Inr x \<Rightarrow> sh_store (snd (f x)))"
  by (simp split: sum.split)


section \<open>Cancelling\<close>

lemma request_control_Inr:
  assumes "request_control env k pause s = (Inr (job, st), t)"
  obtains old target where "map_of (q_jobs (queue s)) k = Some old" "control_target pause old = Inr target"
    "job = set_state target old" "map_of (q_jobs (queue t)) k = Some job"
proof -
  from assms obtain old target where job: "map_of (q_jobs (queue s)) k = Some old" "control_target pause old = Inr target"
    "job = set_state target old" "t = snd (save_queue env (update_job (set_state target) k s))"
    by (auto simp: request_control_def st_then_Inr_iff split: option.splits sum.splits)
  then have "map_of (q_jobs (queue t)) k = Some job" by (simp add: update_job_def bt_get_update)
  with job show thesis using that by blast
qed

lemma control_target_cancel: "control_target False job = Inr target \<Longrightarrow> target = CancelRequested"
  by (auto simp: control_target_def split: if_splits)


section \<open>Concrete requests\<close>

definition idle_server :: "state_store \<Rightarrow> shared" where
  "idle_server s = \<lparr>sh_store = s, sh_active = None, sh_controls = Map.empty, sh_shutdown = False, sh_force_shutdown = False\<rparr>"

definition demo_inputs :: request_inputs where
  "demo_inputs = \<lparr>ri_now = Some 20, ri_later = Some 21, ri_job_bytes = Some (replicate 16 6),
     ri_grant_bytes = Some (replicate 16 7), ri_token_bytes = Some (replicate 32 8)\<rparr>"

definition demo_request :: "state_store \<Rightarrow> string \<Rightarrow> string \<Rightarrow> ipc_operation \<Rightarrow> request_envelope" where
  "demo_request s grant_id token operation = \<lparr>req_schema = IPC_REQUEST_SCHEMA, req_schema_version = IPC_SCHEMA_VERSION,
     req_request_id = ''req-1'', req_server_id = reg_server_id (registry s), req_grant_id = grant_id,
     req_token = token, req_operation = operation\<rparr>"

lemma demo_server_store [simp]: "sv_store demo_server_env = demo_store_env True" "sv_kill demo_server_env k"
  "sv_write_control demo_server_env k action generation"
  by (simp_all add: demo_server_env_def)

theorem refused_request_changes_nothing_witness:
  "\<exists>s e sh'. store_reachable sample_serializer s \<and>
     dispatch_request demo_server_env demo_inputs (demo_request s ''nobody'' demo_token Ping) (idle_server s) = (Inl e, sh')
     \<and> err_code e = ''unauthorized'' \<and> sh' = idle_server s"
proof -
  obtain s where s: "store_reachable sample_serializer s"
    and admin: "\<exists>i. random_id ''grant'' (Some (replicate 16 1)) = Inr i
      \<and> reg_grants (registry s) = [(i, demo_admin (reg_server_id (registry s)) i)]"
    by (rule demo_store)
  from admin have "map_of (reg_grants (registry s)) ''nobody'' = None" by (auto simp: random_id_def)
  then have "authenticate (demo_store_env True) s (reg_server_id (registry s)) ''nobody'' demo_token 20 = Inl (GrantError GrantUnknown)"
    by (simp add: authenticate_def)
  then have d: "dispatch_request demo_server_env demo_inputs (demo_request s ''nobody'' demo_token Ping) (idle_server s) =
      (Inl (ipc_error_of ''unauthorized'' (sv_render demo_server_env (FromStore (GrantError GrantUnknown))) False), idle_server s)"
    by (simp add: dispatch_request_def demo_request_def demo_inputs_def idle_server_def or_ipc_def map_err_def)
  have "idle_server s = idle_server s"
    by (rule refused_request_changes_nothing [OF d]) (simp add: refusal_codes_def)
  then show ?thesis using s d by (intro exI conjI) (assumption | simp)+
qed

lemma demo_admin_authenticates:
  assumes "reg_grants (registry s) = [(j, demo_admin (reg_server_id (registry s)) j)]"
  shows "authenticate (demo_store_env True) s (reg_server_id (registry s)) j demo_token now
    = Inr \<lparr>auth_grant_id = j, auth_policy = admin_policy\<rparr>"
  using assms
  by (simp add: authenticate_def demo_admin_def new_grant_summary_def admin_policy_fields token_digest_def decode_encode_hex)

theorem answers_match_witness:
  "\<exists>s j res sh'. store_reachable sample_serializer s \<and>
     dispatch_request demo_server_env demo_inputs (demo_request s j demo_token (ListJobs 5)) (idle_server s) = (Inr res, sh')
     \<and> matches_operation res (ListJobs 5) \<and> length (q_jobs (queue s)) = 1"
proof -
  obtain s i where s: "store_reachable sample_serializer s"
    "q_jobs (queue s) = [(i, submitted_job i demo_owner 1 demo_spec demo_report 9)]"
    and admin: "\<exists>j. reg_grants (registry s) = [(j, demo_admin (reg_server_id (registry s)) j)]"
    by (rule demo_job)
  from admin obtain j where j: "reg_grants (registry s) = [(j, demo_admin (reg_server_id (registry s)) j)]" by blast
  obtain res sh' where d: "dispatch_request demo_server_env demo_inputs (demo_request s j demo_token (ListJobs 5)) (idle_server s) = (Inr res, sh')"
    using demo_admin_authenticates [OF j, of 20]
    by (simp add: dispatch_request_def demo_request_def demo_inputs_def idle_server_def serve_def Let_def
        require_any_capability_def has_capability_def admin_policy_fields)
  have "matches_operation res (req_operation (demo_request s j demo_token (ListJobs 5)))" by (rule answers_match [OF d])
  then show ?thesis using s d by (intro exI conjI) (assumption | simp add: demo_request_def)+
qed


theorem own_scope_witness:
  "\<exists>t grant_id token res sh'. store_reachable sample_serializer t \<and>
     dispatch_request demo_server_env demo_inputs (demo_request t grant_id token (ListJobs 5)) (idle_server t) = (Inr res, sh')
     \<and> (\<forall>statuses. res = Jobs statuses \<longrightarrow> (\<forall>status \<in> set statuses. \<exists>(id, job) \<in> set (q_jobs (queue t)).
        job_owner_grant_id job = grant_id \<and> status = status_or t id (job_status job)))"
proof -
  obtain s document t where d: "store_reachable sample_serializer s"
    "create_grant (demo_store_env True) sample_policy 6 (Some (replicate 16 4)) (Some (replicate 32 5)) s = (Inr document, t)"
    "store_reachable sample_serializer t" "doc_policy document = sample_policy"
    by (rule demo_grant)
  let ?request = "demo_request t (doc_grant_id document) (doc_token document) (ListJobs 5)"
    and ?grant = "\<lparr>auth_grant_id = doc_grant_id document, auth_policy = sample_policy\<rparr>"
  have auth: "authenticate (demo_store_env True) t (reg_server_id (registry t)) (doc_grant_id document) (doc_token document) 20
      = Inr ?grant"
    using created_grant_stored [OF d(1,2)] d(4)
    by (simp add: authenticate_def issued_grant_def new_grant_summary_def token_digest_def decode_encode_hex
        sample_policy_def grant_policy_new_def)
  have caps: "has_capability ?grant ReadOwn" "\<not> has_capability ?grant ReadAll" "\<not> has_capability ?grant ControlAll"
    by (simp_all add: has_capability_def sample_policy_def grant_policy_new_def)
  obtain res sh' where r: "dispatch_request demo_server_env demo_inputs ?request (idle_server t) = (Inr res, sh')"
    using auth caps(1)
    by (simp add: dispatch_request_def demo_request_def demo_inputs_def idle_server_def serve_def Let_def
        require_any_capability_def)
  have now: "ri_now demo_inputs = Some 20" by (simp add: demo_inputs_def)
  have auth': "authenticate (sv_store demo_server_env) (sh_store (idle_server t)) (req_server_id ?request)
      (req_grant_id ?request) (req_token ?request) 20 = Inr ?grant"
    using auth by (simp add: demo_request_def idle_server_def)
  note own_scope [OF r now auth' caps(2,3)]
  then have "\<forall>statuses. res = Jobs statuses \<longrightarrow> (\<forall>status \<in> set statuses. \<exists>(id, job) \<in> set (q_jobs (queue t)).
        job_owner_grant_id job = doc_grant_id document \<and> status = status_or t id (job_status job))"
    by (simp add: demo_request_def idle_server_def)
  then show ?thesis using d(3) r by (intro exI conjI)
qed

lemma finish_cancelled:
  assumes "validate_id i = Inr ()" and "error = None \<or> error = Some ''cancelled before execution''"
  shows "job_status_validate (job_status (finish_job Cancelled None error now
      (set_state target (submitted_job i demo_owner 1 demo_spec demo_report 9)))) = Inr ()"
  using submitted_cancels [OF assms(1), of now] assms(2)
  by (auto simp: job_status_validate_iff finish_job_def set_state_def bounded_text_def Ipc_Contracts.validate_text_def)

lemma request_control_saved:
  assumes "store_inv (se_ser_plan env) s" and "map_of (q_jobs (queue s)) k = Some job"
    and "control_target pause job = Inr target"
    and "checked_add (q_generation (queue s)) 1 = Some g" and "\<And>q old. fst (se_write_queue env q old)"
  obtains t where "request_control env k pause s = (Inr (set_state target job, job_status (set_state target job)), t)"
    "store_inv (se_ser_plan env) t" "q_generation (queue t) = g"
    "q_jobs (queue t) = bt_update (set_state target) k (q_jobs (queue s))" "q_history (queue t) = q_history (queue s)"
    "registry t = registry s"
proof -
  let ?u = "update_job (set_state target) k s"
  have shape: "request_control env k pause s = st_then (save_queue env ?u)
      (\<lambda>_ s'. (Inr (set_state target job, job_status (set_state target job)), s'))"
    using assms(2,3) by (simp add: request_control_def)
  have "store_inv (se_ser_plan env) (snd (request_control env k pause s))"
    by (rule request_control_inv [OF assms(1)])
  then have inv: "store_inv (se_ser_plan env) ?u" unfolding shape by simp
  have "q_generation (queue ?u) = q_generation (queue s)" by (simp add: update_job_def)
  then have "fst (save_queue env ?u) = Inr ()"
    using save_queue_succeeds [OF inv _ assms(5), of g] assms(4) by simp
  moreover from this have "checked_add (q_generation (queue ?u)) 1 = Some (q_generation (queue (snd (save_queue env ?u))))"
    by (rule save_queue_generation)
  ultimately show thesis
    using that [of "snd (save_queue env ?u)"] inv assms(4)
    by (cases "save_queue env ?u") (simp add: shape update_job_def)
qed

lemma terminalize_saved:
  assumes "store_inv (se_ser_plan env) s" and "map_of (q_jobs (queue s)) k = Some job" and "terminal st"
    and "job_status_validate (job_status (finish_job st receipt error now job)) = Inr ()"
    and "checked_add (q_generation (queue s)) 1 = Some g" and "\<And>q old. fst (se_write_queue env q old)"
  obtains t where "terminalize env k st receipt error code now s = (Inr (job_status (finish_job st receipt error now job)), t)"
proof -
  let ?job = "finish_job st receipt error now job"
  let ?history = "q_history (queue s) @ [history_record ?job now code]"
  let ?n = "length ?history - unat (max_history_entries (reg_limits (registry s)))"
  let ?s2 = "s\<lparr>queue := (queue s)\<lparr>q_jobs := bt_remove k (q_jobs (queue s)), q_history := drop ?n ?history\<rparr>\<rparr>"
  have shape: "terminalize env k st receipt error code now s = st_then (save_queue env ?s2)
      (\<lambda>_ s3. (Inr (job_status ?job), prune_receipts env (map (\<lambda>e. he_job_id (hist_public e)) (take ?n ?history)) s3))"
    using assms(2-4) by (simp add: terminalize_def Let_def)
  have "store_inv (se_ser_plan env) (snd (terminalize env k st receipt error code now s))"
    by (rule terminalize_inv [OF assms(1)])
  then have inv: "store_inv (se_ser_plan env) ?s2" unfolding shape by (simp add: snd_st_then split: sum.splits)
  have "checked_add (q_generation (queue ?s2)) 1 = Some g" using assms(5) by simp
  from save_queue_succeeds [OF inv this assms(6)] show thesis
    using that by (cases "save_queue env ?s2") (simp add: shape)
qed


end
