(* ===== verification/Ipc_Scheduler.thy ===== *)
theory Ipc_Scheduler
  imports Receipts Ipc_Requests
begin

text \<open>
  The scheduler of the job server (\<open>src/src/ipc/server.rs\<close>): \<open>scheduler_loop\<close>,
  \<open>recover_orphaned_job\<close>, \<open>execute_job\<close>, \<open>terminalize_scheduler_failure\<close>, the start of
  \<open>run_ipc_server\<close> and \<open>cancel_active_child\<close>. The state adds to the one of the requests the
  files of each job: its plan, its lease and its receipt. A receipt file exists when its name is
  in the listing of the store, and \<open>svc_receipts\<close> holds its bytes.

  \<open>execute_job\<close> is cut where it waits for the child: \<open>start_job\<close> is what it does before,
  \<open>finish_job_run\<close> what it does after the child has ended, and \<open>report_timeout\<close> what the waiting
  loop does when the time is over; requests are served in between. Parameters (\<open>sched_env\<close>):
  whether a file operation succeeds, the lock on the lease, the child process, the parser of
  the receipt file and its fingerprint, and the text of an error.
\<close>

section \<open>State\<close>

record service =
  svc_shared :: shared
  svc_plans :: "string \<rightharpoonup> execution_plan"
  svc_leases :: "string set"
  svc_receipts :: "string \<Rightarrow> u8 list"

datatype lock_result = Locked | Contended | LockError

datatype sched_error =
    InStore store_error | InPlanning plan_error | InReceipt receipt_error
  | ReceiptUnreadable | SecretUnreadable | FingerprintFailed | NoClock | PlanNotWritten
  | ControlFileNotWritten | LeaseNotWritten | LeaseNotOpened | LeaseMissing | LeaseHeld | LeaseNotLocked
  | LeaseNotUnlocked | ReceiptNotRemoved | PathNotUtf8 | ChildNotSpawned | ReadersNotStarted | ChildNotStopped | JobDisappeared

record sched_env =
  sd_server :: server_env
  sd_receipts :: receipt_env
  sd_secret :: "receipt_secret_key option"
  sd_read_receipt :: "u8 list \<Rightarrow> signed_receipt option"
  sd_fingerprint :: "u8 list \<Rightarrow> file_fingerprint option"
  sd_root :: path
  sd_process_id :: u32
  sd_write_plan :: "string \<Rightarrow> bool"
  sd_write_lease :: "string \<Rightarrow> bool"
  sd_open_lease :: "string \<Rightarrow> bool"
  sd_lock_lease :: "string \<Rightarrow> lock_result"
  sd_unlock_lease :: "string \<Rightarrow> bool"
  sd_remove_receipt :: "string \<Rightarrow> bool"
  sd_spawn :: "string list \<Rightarrow> u32 option"
  sd_start_readers :: bool
  sd_render :: "sched_error \<Rightarrow> string"

abbreviation sd_store :: "sched_env \<Rightarrow> store_env" where "sd_store env \<equiv> sv_store (sd_server env)"

text \<open>The end of a child: its exit code (none after a signal) and the text it left on its error
  output, or of the reason why that could not be read.\<close>

record child_exit =
  cx_code :: "int option"
  cx_stderr :: "u8 list"
  cx_timed_out :: bool

abbreviation svc_store :: "service \<Rightarrow> state_store" where "svc_store v \<equiv> sh_store (svc_shared v)"

definition receipt_of :: "service \<Rightarrow> string \<Rightarrow> u8 list option" where
  "receipt_of v job_id =
    (if receipt_name job_id \<in> set (state_files (svc_store v)) then Some (svc_receipts v job_id) else None)"

section \<open>Effects\<close>

definition check :: "sched_error + 'a \<Rightarrow> service \<Rightarrow> (sched_error + 'a) \<times> service" where
  "check m v = (m, v)"

definition perform :: "bool \<Rightarrow> sched_error \<Rightarrow> (service \<Rightarrow> service) \<Rightarrow> service \<Rightarrow> (sched_error + unit) \<times> service" where
  "perform success e change v = (if success then (Inr (), change v) else (Inl e, v))"

definition set_store :: "state_store \<Rightarrow> service \<Rightarrow> service" where
  "set_store s v = v\<lparr>svc_shared := (svc_shared v)\<lparr>sh_store := s\<rparr>\<rparr>"

definition in_store :: "(state_store \<Rightarrow> (store_error + 'a) \<times> state_store) \<Rightarrow> service \<Rightarrow> (sched_error + 'a) \<times> service" where
  "in_store f v = (case f (svc_store v) of (r, s) \<Rightarrow> (map_err InStore r, set_store s v))"

definition set_active :: "active_child option \<Rightarrow> service \<Rightarrow> service" where
  "set_active a v = v\<lparr>svc_shared := (svc_shared v)\<lparr>sh_active := a\<rparr>\<rparr>"

definition write_control_file ::
  "sched_env \<Rightarrow> string \<Rightarrow> control_action \<Rightarrow> u64 \<Rightarrow> service \<Rightarrow> (sched_error + unit) \<times> service" where
  "write_control_file env job_id action generation v =
    perform (sv_write_control (sd_server env) job_id action generation) ControlFileNotWritten
      (\<lambda>v. v\<lparr>svc_shared := (svc_shared v)\<lparr>sh_controls :=
         (sh_controls (svc_shared v))(job_id \<mapsto> (action, generation))\<rparr>\<rparr>) v"

definition remove_receipt :: "sched_env \<Rightarrow> string \<Rightarrow> service \<Rightarrow> (sched_error + unit) \<times> service" where
  "remove_receipt env job_id v =
    perform (sd_remove_receipt env job_id) ReceiptNotRemoved
      (\<lambda>v. set_store ((svc_store v)\<lparr>state_files := removeAll (receipt_name job_id) (state_files (svc_store v))\<rparr>) v) v"

text \<open>A removal that fails is only reported.\<close>

definition cleanup_job_control_files :: "string \<Rightarrow> service \<Rightarrow> service" where
  "cleanup_job_control_files job_id v =
    v\<lparr>svc_plans := (svc_plans v)(job_id := None),
      svc_leases := svc_leases v - {job_id},
      svc_shared := (svc_shared v)\<lparr>sh_controls := (sh_controls (svc_shared v))(job_id := None)\<rparr>\<rparr>"

definition open_existing_job_lease :: "sched_env \<Rightarrow> string \<Rightarrow> service \<Rightarrow> sched_error + bool" where
  "open_existing_job_lease env job_id v =
    (if job_id \<notin> svc_leases v then Inr False
     else if sd_open_lease env job_id then Inr True else Inl LeaseNotOpened)"

definition open_job_lease :: "sched_env \<Rightarrow> string \<Rightarrow> service \<Rightarrow> sched_error + unit" where
  "open_job_lease env job_id v =
    and_then (open_existing_job_lease env job_id v) (\<lambda>opened. fail_if (\<not> opened) LeaseMissing)"

definition validate_completed_receipt :: "sched_env \<Rightarrow> u8 list \<Rightarrow> execution_plan \<Rightarrow> sched_error + file_fingerprint" where
  "validate_completed_receipt env bytes plan =
    and_then (ok_or (sd_secret env) SecretUnreadable) (\<lambda>secret.
    and_then (map_err InReceipt (secret_key_validate (sd_receipts env) secret)) (\<lambda>_.
    and_then (map_err InReceipt (public_key_of (sd_receipts env) secret)) (\<lambda>public.
    and_then (ok_or (sd_read_receipt env bytes) ReceiptUnreadable) (\<lambda>receipt.
    and_then (map_err InReceipt (validate_structure (sd_receipts env) receipt)) (\<lambda>_.
    and_then (map_err InReceipt (verify_signature (sd_receipts env) receipt public)) (\<lambda>_.
    and_then (map_err InReceipt (verify_plan (sd_receipts env) receipt plan)) (\<lambda>_.
    ok_or (sd_fingerprint env bytes) FingerprintFailed)))))))"

definition complete :: "sched_env \<Rightarrow> string \<Rightarrow> file_fingerprint \<Rightarrow> u64 \<Rightarrow> service \<Rightarrow> (sched_error + job_status) \<times> service" where
  "complete env job_id fingerprint now v =
    in_store (terminalize (sd_store env) job_id Completed (Some fingerprint) None None now) v"

section \<open>Running a job\<close>

text \<open>The files of the job: its plan, the action \<open>run\<close>, and a lease that is taken.\<close>

definition prepare_files :: "sched_env \<Rightarrow> stored_job \<Rightarrow> service \<Rightarrow> (sched_error + unit) \<times> service" where
  "prepare_files env job v =
    (let job_id = st_job_id (job_status job) in
     st_then (check (map_err InStore (validate_bound_job_paths (sd_store env) (job_spec job))) v) (\<lambda>_ v.
     st_then (perform (sd_write_plan env job_id) PlanNotWritten
       (\<lambda>v. v\<lparr>svc_plans := (svc_plans v)(job_id \<mapsto> dry_plan (job_dry_run job))\<rparr>) v) (\<lambda>_ v.
     st_then (write_control_file env job_id RunAction (ucast (st_attempt (job_status job)) + 1) v) (\<lambda>_ v.
     st_then (perform (sd_write_lease env job_id) LeaseNotWritten (\<lambda>v. v\<lparr>svc_leases := insert job_id (svc_leases v)\<rparr>) v) (\<lambda>_ v.
     st_then (check (open_job_lease env job_id v) v) (\<lambda>_ v.
     check (case sd_lock_lease env job_id of Locked \<Rightarrow> Inr () | Contended \<Rightarrow> Inl LeaseHeld | LockError \<Rightarrow> Inl LeaseNotLocked) v))))))"

text \<open>A receipt from an earlier attempt: it completes the job, or it is removed.\<close>

definition settle_receipt :: "sched_env \<Rightarrow> u64 option \<Rightarrow> stored_job \<Rightarrow> service \<Rightarrow> (sched_error + bool) \<times> service" where
  "settle_receipt env now job v =
    (let job_id = st_job_id (job_status job) in
     case receipt_of v job_id of
       None \<Rightarrow> (Inr False, v)
     | Some bytes \<Rightarrow> (case validate_completed_receipt env bytes (dry_plan (job_dry_run job)) of
         Inr fingerprint \<Rightarrow> (case now of
             None \<Rightarrow> (Inl NoClock, v)
           | Some t \<Rightarrow> st_then (complete env job_id fingerprint t v) (\<lambda>_ v. (Inr True, cleanup_job_control_files job_id v)))
       | Inl _ \<Rightarrow> st_then (remove_receipt env job_id v) (\<lambda>_ v. (Inr False, v))))"

definition child_arguments :: "sched_env \<Rightarrow> ipc_limits \<Rightarrow> stored_job \<Rightarrow> sched_error + string list" where
  "child_arguments env limits job =
    (let file = (\<lambda>name. path_string (push (sd_root env) [Normal name]));
         plan = file (st_job_id (job_status job) @ ''.plan.json'');
         receipt = file (receipt_name (st_job_id (job_status job)));
         secret = file ''receipt-secret.json''
     in and_then (map_err InPlanning (job_command_arguments (job_spec job) limits)) (\<lambda>arguments.
        and_then (fail_if (\<not> utf8_text plan \<or> \<not> utf8_text receipt \<or> \<not> utf8_text secret) PathNotUtf8) (\<lambda>_.
        Inr (arguments @ [''--plan'', plan, ''--receipt'', receipt, ''--receipt-key'', secret]))))"

definition launch_child :: "sched_env \<Rightarrow> u64 option \<Rightarrow> ipc_limits \<Rightarrow> stored_job \<Rightarrow> service \<Rightarrow> (sched_error + unit) \<times> service" where
  "launch_child env now limits job v =
    (let job_id = st_job_id (job_status job) in
     case now of
       None \<Rightarrow> (Inl NoClock, v)
     | Some t \<Rightarrow>
         st_then (in_store (mark_running (sd_store env) job_id (sd_process_id env) t) v) (\<lambda>_ v.
         st_then (check (child_arguments env limits job) v) (\<lambda>arguments v.
         st_then (check (ok_or (sd_spawn env arguments) ChildNotSpawned) v) (\<lambda>process_id v.
         st_then (check (fail_if (\<not> sd_start_readers env) ReadersNotStarted) v) (\<lambda>_ v.
         st_then (in_store (update_process_id (sd_store env) job_id process_id)
           (set_active (Some \<lparr>ac_job_id = job_id, ac_control_generation = ucast (st_attempt (job_status job)) + 1,
              ac_killed = False\<rparr>) v)) (\<lambda>_ v.
         perform (sd_unlock_lease env job_id) LeaseNotUnlocked (\<lambda>v. v) v))))))"

text \<open>\<open>execute_job\<close> up to the wait: \<open>True\<close> when a child now runs.\<close>

definition start_job :: "sched_env \<Rightarrow> u64 option \<Rightarrow> stored_job \<Rightarrow> service \<Rightarrow> (sched_error + bool) \<times> service" where
  "start_job env now job v =
    (let limits = reg_limits (registry (svc_store v)) in
     st_then (prepare_files env job v) (\<lambda>_ v.
     st_then (settle_receipt env now job v) (\<lambda>finished v.
     if finished then (Inr False, v)
     else st_then (launch_child env now limits job v) (\<lambda>_ v. (Inr True, v)))))"

definition kill_active :: "sched_env \<Rightarrow> service \<Rightarrow> service" where
  "kill_active env v =
    (case sh_active (svc_shared v) of
       Some active \<Rightarrow> if sv_kill (sd_server env) (ac_job_id active) then set_active (Some (active\<lparr>ac_killed := True\<rparr>)) v else v
     | None \<Rightarrow> v)"

definition report_timeout :: "sched_env \<Rightarrow> stored_job \<Rightarrow> service \<Rightarrow> (sched_error + unit) \<times> service" where
  "report_timeout env job v =
    st_then (write_control_file env (st_job_id (job_status job)) CancelAction (ucast (st_attempt (job_status job)) + 2) v)
      (\<lambda>_ v. (Inr (), kill_active env v))"

section \<open>The end of a run\<close>

text \<open>\<open>str::trim\<close>: the encodings of the characters with the property \<open>White_Space\<close>.\<close>

definition WHITE_SPACE :: "string list" where
  "WHITE_SPACE = map (map (\<lambda>n :: nat. char_of n))
    ([[9], [10], [11], [12], [13], [32], [0xC2, 0x85], [0xC2, 0xA0], [0xE1, 0x9A, 0x80],
      [0xE2, 0x80, 0xA8], [0xE2, 0x80, 0xA9], [0xE2, 0x80, 0xAF], [0xE2, 0x81, 0x9F], [0xE3, 0x80, 0x80]]
     @ map (\<lambda>k. [0xE2, 0x80, 0x80 + k]) [0..<11])"

fun trim_start :: "string list \<Rightarrow> nat \<Rightarrow> string \<Rightarrow> string" where
  "trim_start spaces 0 s = s"
| "trim_start spaces (Suc fuel) s =
    (case find (\<lambda>w. is_prefix w s) spaces of None \<Rightarrow> s | Some w \<Rightarrow> trim_start spaces fuel (drop (length w) s))"

definition trim :: "string \<Rightarrow> string" where
  "trim s = (let front = trim_start WHITE_SPACE (length s) s
     in rev (trim_start (map rev WHITE_SPACE) (length front) (rev front)))"

definition display_diagnostic :: "u8 list \<Rightarrow> string" where
  "display_diagnostic bytes =
    (let trimmed = trim (to_string_lossy (bytes_string bytes))
     in if trimmed = [] then ''no diagnostic output'' else bounded_message trimmed)"

definition exit_description :: "int option \<Rightarrow> string" where
  "exit_description code =
    (case code of None \<Rightarrow> ''termination by signal''
     | Some n \<Rightarrow> if n < 0 then CHR ''-'' # decimal (nat (- n)) else decimal (nat n))"

fun contains_text :: "string \<Rightarrow> string \<Rightarrow> bool" where
  "contains_text [] pattern \<longleftrightarrow> pattern = []"
| "contains_text (c # s) pattern \<longleftrightarrow> is_prefix pattern (c # s) \<or> contains_text s pattern"

definition stderr_says :: "child_exit \<Rightarrow> string \<Rightarrow> bool" where
  "stderr_says exit marker \<longleftrightarrow> contains_text (to_string_lossy (bytes_string (cx_stderr exit))) marker"

definition PAUSED_MARKER :: string where "PAUSED_MARKER = ''[denoize-ipc-paused]''"
definition CANCELLED_MARKER :: string where "CANCELLED_MARKER = ''[denoize-ipc-cancelled]''"

definition failure_message :: "child_exit \<Rightarrow> ipc_limits \<Rightarrow> string" where
  "failure_message exit limits =
    (if cx_timed_out exit then ''IPC job exceeded its '' @ decimal (unat (job_timeout_millis limits)) @ '' ms timeout''
     else ''denoize job exited with '' @ exit_description (cx_code exit) @ '': '' @ display_diagnostic (cx_stderr exit))"

definition settle_exit :: "sched_env \<Rightarrow> child_exit \<Rightarrow> ipc_limits \<Rightarrow> u64 \<Rightarrow> job_state \<Rightarrow> stored_job \<Rightarrow> service
     \<Rightarrow> (sched_error + job_status) \<times> service" where
  "settle_exit env exit limits now current job v =
    (let job_id = st_job_id (job_status job); se = sd_store env in
     if cx_code exit = Some 0 then
       st_then (check (and_then (ok_or (receipt_of v job_id) ReceiptUnreadable)
         (\<lambda>bytes. validate_completed_receipt env bytes (dry_plan (job_dry_run job)))) v)
         (\<lambda>fingerprint v. complete env job_id fingerprint now v)
     else if current = PauseRequested \<or> stderr_says exit PAUSED_MARKER then in_store (mark_paused se job_id) v
     else if current = CancelRequested \<or> stderr_says exit CANCELLED_MARKER then
       in_store (terminalize se job_id Cancelled None (Some ''IPC job was cancelled'') (Some ''cancelled'') now) v
     else in_store (terminalize se job_id Failed None (Some (failure_message exit limits))
       (Some (if cx_timed_out exit then ''timeout'' else ''execution-failed'')) now) v)"

text \<open>\<open>execute_job\<close> after the wait.\<close>

definition finish_job_run :: "sched_env \<Rightarrow> child_exit \<Rightarrow> u64 option \<Rightarrow> stored_job \<Rightarrow> service \<Rightarrow> (sched_error + unit) \<times> service" where
  "finish_job_run env exit now job v =
    (let job_id = st_job_id (job_status job);
         limits = reg_limits (registry (svc_store v));
         v1 = set_active None v
     in case store_status (svc_store v1) job_id of
          None \<Rightarrow> (Inl JobDisappeared, v1)
        | Some (_, status) \<Rightarrow> (case now of
            None \<Rightarrow> (Inl NoClock, v1)
          | Some t \<Rightarrow> st_then (settle_exit env exit limits t (st_state status) job v1)
              (\<lambda>_ v. (Inr (), cleanup_job_control_files job_id v))))"

section \<open>A failure of the scheduler\<close>

definition stop_active :: "sched_env \<Rightarrow> string \<Rightarrow> service \<Rightarrow> service" where
  "stop_active env job_id v =
    (case sh_active (svc_shared v) of
       None \<Rightarrow> v
     | Some active \<Rightarrow>
         if ac_job_id active \<noteq> job_id then v
         else snd (write_control_file env job_id CancelAction (saturating_add (ac_control_generation active) 1)
           (set_active None v)))"

definition terminalize_scheduler_failure ::
  "sched_env \<Rightarrow> u64 option \<Rightarrow> stored_job \<Rightarrow> string \<Rightarrow> string \<Rightarrow> service \<Rightarrow> (sched_error + unit) \<times> service" where
  "terminalize_scheduler_failure env now job message error_code v =
    (let job_id = st_job_id (job_status job);
         v1 = stop_active env job_id v
     in case map_of (q_jobs (queue (svc_store v1))) job_id of
          None \<Rightarrow> (Inr (), v1)
        | Some _ \<Rightarrow>
            let receipt = Option.bind (receipt_of v1 job_id)
                  (\<lambda>bytes. ok (validate_completed_receipt env bytes (dry_plan (job_dry_run job))))
            in case now of
                 None \<Rightarrow> (Inl NoClock, v1)
               | Some t \<Rightarrow>
                   st_then (in_store (terminalize (sd_store env) job_id
                       (if receipt \<noteq> None then Completed else Failed) receipt
                       (if receipt = None then Some message else None) (if receipt = None then Some error_code else None) t) v1)
                     (\<lambda>_ v. (Inr (), cleanup_job_control_files job_id v)))"

section \<open>Recovery after a restart\<close>

definition UNCERTAIN_TEXT :: string where
  "UNCERTAIN_TEXT = ''daemon restarted after a non-resumable job began; publication is uncertain and the job was not retried''"

definition requested_action :: "job_state \<Rightarrow> control_action option" where
  "requested_action st =
    (if st = PauseRequested then Some PauseAction else if st = CancelRequested then Some CancelAction else None)"

definition resolve_orphan ::
  "sched_env \<Rightarrow> u64 \<Rightarrow> stored_job \<Rightarrow> job_state \<Rightarrow> service \<Rightarrow> (sched_error + bool) \<times> service" where
  "resolve_orphan env now job current v =
    (let job_id = st_job_id (job_status job); se = sd_store env; resolved = (\<lambda>_ v. (Inr True, v)) in
     if current = CancelRequested then
       st_then (in_store (terminalize se job_id Cancelled None
         (Some ''IPC job was cancelled during daemon recovery'') (Some ''cancelled'') now) v) resolved
     else if current = PauseRequested then st_then (in_store (mark_paused se job_id) v) resolved
     else if current = Recovering \<and> st_resumable (job_status job) then
       st_then (in_store (requeue_recovered se job_id) v) resolved
     else if current = Recovering then
       st_then (in_store (terminalize se job_id Failed None (Some UNCERTAIN_TEXT) (Some ''uncertain-publication'') now) v)
         resolved
     else (Inr False, v))"

definition recover_unleased :: "sched_env \<Rightarrow> u64 option \<Rightarrow> stored_job \<Rightarrow> service \<Rightarrow> (sched_error + unit) \<times> service" where
  "recover_unleased env now job v =
    (let job_id = st_job_id (job_status job);
         receipt = Option.bind (receipt_of v job_id)
           (\<lambda>bytes. ok (validate_completed_receipt env bytes (dry_plan (job_dry_run job))))
     in case now of
          None \<Rightarrow> (Inl NoClock, v)
        | Some t \<Rightarrow> (case map_of (q_jobs (queue (svc_store v))) job_id of
            None \<Rightarrow> (Inr (), v)
          | Some current \<Rightarrow> (case receipt of
              Some fingerprint \<Rightarrow>
                st_then (complete env job_id fingerprint t v) (\<lambda>_ v. (Inr (), cleanup_job_control_files job_id v))
            | None \<Rightarrow>
                st_then (if receipt_of v job_id \<noteq> None then remove_receipt env job_id v else (Inr (), v)) (\<lambda>_ v.
                st_then (resolve_orphan env t job (st_state (job_status current)) v) (\<lambda>resolved v.
                (Inr (), if resolved then cleanup_job_control_files job_id v else v))))))"

definition recover_orphaned_job :: "sched_env \<Rightarrow> u64 option \<Rightarrow> stored_job \<Rightarrow> service \<Rightarrow> (sched_error + unit) \<times> service" where
  "recover_orphaned_job env now job v =
    (let job_id = st_job_id (job_status job) in
     st_then (case requested_action (st_state (job_status job)) of
         Some action \<Rightarrow> write_control_file env job_id action (saturating_add (ucast (st_attempt (job_status job))) 1) v
       | None \<Rightarrow> (Inr (), v)) (\<lambda>_ v.
     st_then (check (open_existing_job_lease env job_id v) v) (\<lambda>opened v.
     if opened \<and> sd_lock_lease env job_id = Contended then (Inr (), v)
     else if opened \<and> sd_lock_lease env job_id = LockError then (Inl LeaseNotLocked, v)
     else recover_unleased env now job v)))"

fun recover_each :: "sched_env \<Rightarrow> u64 option \<Rightarrow> stored_job list \<Rightarrow> service \<Rightarrow> (sched_error + unit) \<times> service" where
  "recover_each env now [] v = (Inr (), v)"
| "recover_each env now (job # jobs) v =
    st_then (recover_orphaned_job env now job v) (\<lambda>_ v. recover_each env now jobs v)"

definition recover_orphaned_jobs :: "sched_env \<Rightarrow> u64 option \<Rightarrow> service \<Rightarrow> (sched_error + unit) \<times> service" where
  "recover_orphaned_jobs env now v = recover_each env now (recovery_jobs (svc_store v)) v"

section \<open>The loop\<close>

text \<open>What one round of \<open>scheduler_loop\<close> came to.\<close>

datatype round = Stopped | Idle | Served | Launched

definition shutdown_requested :: "sched_env \<Rightarrow> u64 option \<Rightarrow> service \<Rightarrow> (sched_error + bool) \<times> service" where
  "shutdown_requested env now v =
    (if \<not> sh_shutdown (svc_shared v) then (Inr False, v)
     else st_then (if \<not> sh_force_shutdown (svc_shared v) then (Inr (), v)
         else case now of None \<Rightarrow> (Inl NoClock, v)
         | Some t \<Rightarrow> in_store (cancel_waiting_jobs (sd_store env) t) v) (\<lambda>_ v.
       (Inr (sh_active (svc_shared v) = None \<and> list_jobs (svc_store v) 1 None = []), v)))"

text \<open>A job that was started before is planned again; \<open>None\<close> when that failed and the job is closed.\<close>

definition replan_job :: "sched_env \<Rightarrow> u64 option \<Rightarrow> stored_job \<Rightarrow> service \<Rightarrow> (sched_error + stored_job option) \<times> service" where
  "replan_job env now job v =
    (if st_attempt (job_status job) = 0 then (Inr (Some job), v)
     else case plan_job (sd_server env) (reg_limits (registry (svc_store v))) (job_spec job) of
       Inr report \<Rightarrow>
         st_then (in_store (replace_dry_run (sd_store env) (st_job_id (job_status job)) report) v)
           (\<lambda>_ v. (Inr (Some (set_dry_run report job)), v))
     | Inl e \<Rightarrow>
         st_then (terminalize_scheduler_failure env now job
             (''resume planning failed: '' @ sd_render env (InPlanning e)) ''planning-failed'' v)
           (\<lambda>_ v. (Inr None, v)))"

definition or_failed ::
  "sched_env \<Rightarrow> u64 option \<Rightarrow> stored_job \<Rightarrow> (sched_error + round) \<times> service \<Rightarrow> (sched_error + round) \<times> service" where
  "or_failed env now job m =
    (case m of (Inr round, v) \<Rightarrow> (Inr round, v)
     | (Inl e, v) \<Rightarrow> st_then (terminalize_scheduler_failure env now job
         (''IPC scheduler failed to execute the job: '' @ sd_render env e) ''scheduler-failed'' v)
         (\<lambda>_ v. (Inr Served, v)))"

text \<open>The next job, unless the server is to stop.\<close>

definition select_job :: "sched_env \<Rightarrow> u64 option \<Rightarrow> service \<Rightarrow> (sched_error + round + stored_job) \<times> service" where
  "select_job env now v =
    st_then (shutdown_requested env now v) (\<lambda>stop v.
    (Inr (if stop then Inl Stopped
       else case next_job (svc_store v) of None \<Rightarrow> Inl Idle | Some job \<Rightarrow> Inr job), v))"

definition serve_job :: "sched_env \<Rightarrow> u64 option \<Rightarrow> stored_job \<Rightarrow> service \<Rightarrow> (sched_error + round \<times> stored_job) \<times> service" where
  "serve_job env now job v =
    st_then (replan_job env now job v) (\<lambda>planned v. case planned of
      None \<Rightarrow> (Inr (Served, job), v)
    | Some job \<Rightarrow> st_then (or_failed env now job
        (st_then (start_job env now job v) (\<lambda>launched v. (Inr (if launched then Launched else Served), v))))
        (\<lambda>round v. (Inr (round, job), v)))"

text \<open>A round of the loop that no request interrupts.\<close>

definition scheduler_round :: "sched_env \<Rightarrow> u64 option \<Rightarrow> service \<Rightarrow> (sched_error + round) \<times> service" where
  "scheduler_round env now v =
    st_then (recover_orphaned_jobs env now v) (\<lambda>_ v.
    st_then (select_job env now v) (\<lambda>selected v. case selected of
      Inl round \<Rightarrow> (Inr round, v)
    | Inr job \<Rightarrow> st_then (serve_job env now job v) (\<lambda>(round, _) v. (Inr round, v))))"

definition child_ended :: "sched_env \<Rightarrow> child_exit \<Rightarrow> u64 option \<Rightarrow> stored_job \<Rightarrow> service \<Rightarrow> (sched_error + round) \<times> service" where
  "child_ended env exit now job v =
    or_failed env now job
      (st_then (finish_job_run env exit now job v) (\<lambda>_ v. (Inr Served, v)))"

text \<open>The waiting loop after the time is over: if the control file cannot be written, \<open>execute_job\<close> fails.\<close>

definition child_late :: "sched_env \<Rightarrow> u64 option \<Rightarrow> stored_job \<Rightarrow> service \<Rightarrow> (sched_error + round) \<times> service" where
  "child_late env now job v =
    or_failed env now job (st_then (report_timeout env job v) (\<lambda>_ v. (Inr Launched, v)))"

section \<open>Start and forced end of the server\<close>

definition run_ipc_server :: "sched_env \<Rightarrow> registry_state \<Rightarrow> queue_state \<Rightarrow> service \<Rightarrow> sched_error + service" where
  "run_ipc_server env registry_document queue_document v =
    and_then (map_err InStore (store_open (sd_store env) registry_document queue_document (state_files (svc_store v)))) (\<lambda>s.
    case prepare_recovery (sd_store env) s of
      (Inl e, _) \<Rightarrow> Inl (InStore e)
    | (Inr _, s) \<Rightarrow> Inr (v\<lparr>svc_shared := \<lparr>sh_store = s, sh_active = None, sh_controls = sh_controls (svc_shared v),
          sh_shutdown = False, sh_force_shutdown = False\<rparr>\<rparr>))"

definition cancel_active_child :: "sched_env \<Rightarrow> control_action \<Rightarrow> service \<Rightarrow> (sched_error + unit) \<times> service" where
  "cancel_active_child env action v =
    (case sh_active (svc_shared v) of
       None \<Rightarrow> (Inr (), v)
     | Some active \<Rightarrow>
         let generation = saturating_add (ac_control_generation active) 1;
             v1 = set_active (Some (active\<lparr>ac_control_generation := generation\<rparr>)) v
         in st_then (write_control_file env (ac_job_id active) action generation v1) (\<lambda>_ v.
            perform (sv_kill (sd_server env) (ac_job_id active)) ChildNotStopped
              (set_active (Some (active\<lparr>ac_control_generation := generation, ac_killed := True\<rparr>))) v))"

end
