(* ===== verification/Ipc_Once.thy ===== *)
theory Ipc_Once
  imports Ipc_Grants
begin

text \<open>
  How often a job is started (\<open>src/src/ipc/storage.rs\<close>): a job that cannot be resumed is started
  at most once in the life of the store, whatever operations, failed saves and restarts follow;
  and a pause that was acknowledged for a queued job does not keep \<open>mark_running\<close> from starting it.
\<close>

section \<open>What holds in memory and on disk\<close>

definition held :: "(queue_state \<Rightarrow> bool) \<Rightarrow> state_store \<Rightarrow> bool" where
  "held P s \<longleftrightarrow> P (queue s) \<and> P (queue_file s)"

lemma held_save:
  assumes "writes_atomically env" and "held P s" and "\<And>q g. P (q\<lparr>q_generation := g\<rparr>) = P q"
  shows "held P (snd (save_queue env s))"
proof (cases "checked_add (q_generation (queue s)) 1")
  case (Some g)
  let ?q = "(queue s)\<lparr>q_generation := g\<rparr>"
  show ?thesis
  proof (cases "validate_queue (se_ser_plan env) ?q (registry s)")
    case (Inr u)
    obtain written disk where w: "se_write_queue env ?q (queue_file s) = (written, disk)" by fastforce
    then have "disk = ?q \<or> disk = queue_file s" using assms(1) unfolding writes_atomically_def by blast
    then show ?thesis using assms(2,3) Some Inr w by (auto simp: save_queue_def Let_def held_def)
  qed (use assms Some in \<open>simp add: save_queue_def Let_def held_def\<close>)
qed (use assms in \<open>simp add: save_queue_def\<close>)

text \<open>When a save succeeds, the disk holds what is in memory.\<close>

lemma save_queue_written:
  assumes "writes_atomically env" and "save_queue env s = (Inr u, t)"
  shows "queue_file t = queue t"
proof -
  from assms(2) obtain g disk where g: "checked_add (q_generation (queue s)) 1 = Some g"
    and w: "se_write_queue env ((queue s)\<lparr>q_generation := g\<rparr>) (queue_file s) = (True, disk)"
    and t: "queue t = (queue s)\<lparr>q_generation := g\<rparr>" "queue_file t = disk"
    by (auto simp: save_queue_def Let_def split: option.splits sum.splits prod.splits if_splits)
  have "disk = (queue s)\<lparr>q_generation := g\<rparr>" using assms(1) w unfolding writes_atomically_def by blast
  then show ?thesis using t by simp
qed

section \<open>A started job\<close>

definition begun :: "u64 \<Rightarrow> stored_job \<Rightarrow> bool" where
  "begun n job \<longleftrightarrow> (job_sequence job = n \<longrightarrow>
     \<not> st_resumable (job_status job) \<and> st_state (job_status job) \<in> {Running, Recovering, CancelRequested})"

definition only_begun :: "u64 \<Rightarrow> queue_state \<Rightarrow> bool" where
  "only_begun n q \<longleftrightarrow> bt_wf (q_jobs q) \<and> n < q_next_sequence q \<and> (\<forall>k job. map_of (q_jobs q) k = Some job \<longrightarrow> begun n job)"

lemma only_begun_generation [simp]: "only_begun n (q\<lparr>q_generation := g\<rparr>) = only_begun n q"
  by (simp add: only_begun_def)

lemma held_begun_save:
  "writes_atomically env \<Longrightarrow> held (only_begun n) s \<Longrightarrow> held (only_begun n) (snd (save_queue env s))"
  by (rule held_save) simp_all

lemma held_begun_update:
  assumes "held (only_begun n) s" and "\<And>job. map_of (q_jobs (queue s)) k = Some job \<Longrightarrow> begun n job \<Longrightarrow> begun n (f job)"
  shows "held (only_begun n) (update_job f k s)"
  using assms
  by (auto simp: held_def only_begun_def update_job_def bt_get_update bt_update_wf split: if_splits)

lemma held_begunD: "held (only_begun n) s \<Longrightarrow> map_of (q_jobs (queue s)) k = Some job \<Longrightarrow> begun n job"
  by (simp add: held_def only_begun_def)

lemma begun_steps:
  assumes "writes_atomically env" and "held (only_begun n) s"
  shows "held (only_begun n) (snd (mark_running env k p now s))"
    and "held (only_begun n) (snd (update_process_id env k p s))"
    and "held (only_begun n) (snd (replace_dry_run env k d s))"
    and "held (only_begun n) (snd (request_control env k pause s))"
    and "held (only_begun n) (snd (resume env k s))"
    and "held (only_begun n) (snd (mark_paused env k s))"
    and "held (only_begun n) (snd (requeue_recovered env k s))"
proof -
  show "held (only_begun n) (snd (mark_running env k p now s))"
    using assms held_begunD [OF assms(2), of k]
    by (auto simp: mark_running_def Let_def begun_def start_attempt_def count_attempt_def
        intro!: held_begun_save held_begun_update split: option.split)
  show "held (only_begun n) (snd (update_process_id env k p s))"
    using assms by (auto simp: update_process_id_def begun_def intro!: held_begun_save held_begun_update split: option.split)
  show "held (only_begun n) (snd (replace_dry_run env k d s))"
    using assms by (auto simp: replace_dry_run_def begun_def set_dry_run_def intro!: held_begun_save held_begun_update
        split: option.split sum.split)
  show "held (only_begun n) (snd (request_control env k pause s))"
    using assms held_begunD [OF assms(2), of k]
    by (auto simp: request_control_def begun_def set_state_def control_target_def intro!: held_begun_save held_begun_update
        split: option.split sum.split if_splits)
  show "held (only_begun n) (snd (resume env k s))"
    using assms held_begunD [OF assms(2), of k]
    by (auto simp: resume_def begun_def set_state_def intro!: held_begun_save held_begun_update split: option.split)
  show "held (only_begun n) (snd (mark_paused env k s))"
    using assms held_begunD [OF assms(2), of k]
    by (auto simp: mark_paused_def begun_def set_state_def clear_process_def
        intro!: held_begun_save held_begun_update split: option.split)
  show "held (only_begun n) (snd (requeue_recovered env k s))"
    using assms held_begunD [OF assms(2), of k]
    by (auto simp: requeue_recovered_def begun_def requeue_def intro!: held_begun_save held_begun_update split: option.split)
qed

lemma held_frame [simp]: "held P (prune_receipts env ids s) = held P s" "held P (s\<lparr>state_files := fs\<rparr>) = held P s"
  by (simp_all add: held_def prune_receipts_def)

lemma begun_terminalize:
  assumes "writes_atomically env" and "held (only_begun n) s"
  shows "held (only_begun n) (snd (terminalize env k st receipt error code now s))"
proof -
  have removed: "held (only_begun n) (s\<lparr>queue := (queue s)\<lparr>q_jobs := bt_remove k (q_jobs (queue s)), q_history := h\<rparr>\<rparr>)"
    "held (only_begun n) (s\<lparr>queue := (queue s)\<lparr>q_jobs := bt_remove k (q_jobs (queue s))\<rparr>\<rparr>)" for h
    using assms(2) by (auto simp: held_def only_begun_def bt_get_remove bt_remove_wf split: if_splits)
  show ?thesis
    using assms held_begun_save [OF assms(1) removed(1)] removed(2)
    by (simp add: terminalize_def Let_def snd_st_then split: option.split sum.split)
qed

lemma begun_cancel_each:
  assumes "writes_atomically env"
  shows "held (only_begun n) s \<Longrightarrow> held (only_begun n) (snd (cancel_each env now ids s))"
  by (induction ids arbitrary: s) (simp_all add: snd_st_then begun_terminalize [OF assms] split: sum.split)

lemma begun_cancel_waiting:
  assumes "writes_atomically env" and "held (only_begun n) s"
  shows "held (only_begun n) (snd (cancel_waiting_jobs env now s))"
proof -
  let ?t = "snd (cancel_each env now (map fst (filter (\<lambda>e. is_waiting (snd e)) (q_jobs (queue s)))) s)"
  have t: "held (only_begun n) ?t" by (rule begun_cancel_each [OF assms])
  have kept: "begun n (if is_interruptible j then set_state CancelRequested j else j)" if "begun n j" for j
    using that by (simp add: begun_def set_state_def)
  have "begun n job" if "map_of (q_jobs (queue (interrupt_all ?t))) k = Some job" for k job
    using that kept held_begunD [OF t] by (auto simp: interrupt_all_get)
  moreover have "bt_wf (q_jobs (queue (interrupt_all ?t)))" "q_next_sequence (queue (interrupt_all ?t)) = q_next_sequence (queue ?t)"
    "queue_file (interrupt_all ?t) = queue_file ?t"
    using t by (simp_all add: held_def only_begun_def bt_wf_def interrupt_all_def comp_def)
  ultimately have "held (only_begun n) (interrupt_all ?t)" using t by (simp add: held_def only_begun_def)
  then show ?thesis using t assms(1)
    by (auto simp: cancel_waiting_jobs_def snd_st_then intro!: held_begun_save split: sum.split)
qed

lemma begun_recovery:
  assumes "writes_atomically env" and "held (only_begun n) s"
  shows "held (only_begun n) (snd (prepare_recovery env s))"
proof -
  have "held (only_begun n) (fold (update_job orphan_running) ids s)" for ids
    using assms(2)
  proof (induction ids arbitrary: s)
    case (Cons k ids)
    have "held (only_begun n) (update_job orphan_running k s)"
      by (rule held_begun_update [OF Cons.prems]) (auto simp: begun_def orphan_running_def)
    then show ?case using Cons.IH by simp
  qed simp
  then show ?thesis using assms by (auto simp: prepare_recovery_def Let_def intro!: held_begun_save)
qed

lemma begun_insert:
  assumes "writes_atomically env" and "held (only_begun n) s"
  shows "held (only_begun n) (snd (insert_job env owner spec d now b s))"
proof -
  have wf: "bt_wf (q_jobs (queue s))" and bound: "n < q_next_sequence (queue s)" using assms(2) by (simp_all add: held_def only_begun_def)
  have later: "n < seq" if "checked_add (q_next_sequence (queue s)) 1 = Some seq" for seq
    using that bound by (simp add: checked_add_Some_iff word_less_nat_alt)
  have inserted: "held (only_begun n) (s\<lparr>queue := (queue s)\<lparr>q_next_sequence := seq, q_jobs := bt_insert i job (q_jobs (queue s))\<rparr>\<rparr>)"
    if "checked_add (q_next_sequence (queue s)) 1 = Some seq" "job_sequence job = q_next_sequence (queue s)" for seq i job
  proof -
    have "job_sequence job \<noteq> n" using that(2) bound by simp
    then have "begun n job" by (simp add: begun_def)
    then show ?thesis using assms(2) later [OF that(1)]
      by (simp add: held_def only_begun_def bt.get_put [OF wf] bt_insert_wf)
  qed
  have counted: "held (only_begun n) (s\<lparr>queue := (queue s)\<lparr>q_next_sequence := seq\<rparr>\<rparr>)"
    if "checked_add (q_next_sequence (queue s)) 1 = Some seq" for seq
    using assms(2) later [OF that] by (simp add: held_def only_begun_def)
  let ?pre = "and_then (contract (job_spec_validate spec)) (\<lambda>_. and_then (contract (dry_run_validate (se_ser_plan env) d))
      (\<lambda>_. ok_or (checked_add (q_next_sequence (queue s)) 1) SequenceOverflow))"
  show ?thesis
  proof (cases ?pre)
    case (Inr seq)
    then have seq: "checked_add (q_next_sequence (queue s)) 1 = Some seq" by (auto simp: and_then_Inr_iff)
    show ?thesis using assms Inr counted [OF seq]
      by (auto simp: insert_job_def Let_def inserted [OF seq] intro!: held_begun_save split: sum.split)
  qed (use assms in \<open>simp add: insert_job_def Let_def\<close>)
qed

lemma begun_step:
  assumes "store_step env s t" and "writes_atomically env" and "held (only_begun n) s"
  shows "held (only_begun n) t"
  using assms
proof (induction rule: store_step.induct)
  case (grant s gb requested now tb)
  then show ?case using snd_create_grant [of env requested now gb tb s] by (auto simp: held_def)
next
  case (revoke s k now)
  then show ?case using snd_revoke_grant [of env k now s] by (auto simp: held_def)
qed (simp_all add: begun_steps begun_terminalize begun_cancel_waiting begun_recovery begun_insert)

lemma begun_later:
  assumes "store_later ser s t" and "held (only_begun n) s"
  shows "held (only_begun n) t"
  using assms
proof (induction rule: store_later.induct)
  case (later_step t env u)
  then show ?case using begun_step by blast
next
  case (later_restart t env files u)
  then show ?case using store_open_shape [OF later_restart.hyps(3)] by (simp add: held_def)
qed simp

lemma mark_running_Inr:
  assumes "mark_running env k p now s = (Inr st, t)"
  obtains job attempt u where "map_of (q_jobs (queue s)) k = Some job" "st_state (job_status job) \<in> {Queued, Paused}"
    "save_queue env (update_job (count_attempt attempt p \<circ> start_attempt now) k s) = (Inr u, t)"
    "checked_add (st_attempt (job_status job)) 1 = Some attempt"
  using assms by (auto simp: mark_running_def Let_def st_then_Inr_iff split: option.splits if_splits)

text \<open>C4: A job that cannot be resumed is started at most once. Once \<open>mark_running\<close> has succeeded
  for a job of such a kind, no later \<open>mark_running\<close> succeeds for that job (the one with its
  submission number), after any further operations, failed saves and restarts from the state
  files; it is refused as not runnable, so an uncertain publication is never repeated.\<close>

theorem started_at_most_once:
  assumes "store_reachable (se_ser_plan env) s" and "writes_atomically env"
    and "map_of (q_jobs (queue s)) k = Some job" and "\<not> st_resumable (job_status job)"
    and "mark_running env k p now s = (Inr st, t)"
    and "store_later ser t u" and "map_of (q_jobs (queue u)) k' = Some job'" and "job_sequence job' = job_sequence job"
  shows "mark_running env' k' p' now' u = (Inl NotRunnable, u)"
proof -
  have inv: "store_inv (se_ser_plan env) s" using reachable_inv [OF assms(1)] by simp
  then have wf: "bt_wf (q_jobs (queue s))" and uniq: "inj_on (\<lambda>e. job_sequence (snd e)) (set (q_jobs (queue s)))"
    and older: "bt.all_entries (\<lambda>_ job. job_sequence job < q_next_sequence (queue s)) (q_jobs (queue s))"
    by (simp_all add: store_inv_def)
  from assms(5) obtain attempt w where saved: "save_queue env (update_job (count_attempt attempt p \<circ> start_attempt now) k s) = (Inr w, t)"
    by (rule mark_running_Inr)
  let ?f = "count_attempt attempt p \<circ> start_attempt now" and ?n = "job_sequence job"
  have jobs: "q_jobs (queue t) = bt_update ?f k (q_jobs (queue s))"
    "q_next_sequence (queue t) = q_next_sequence (queue s)"
    using save_queue_frame(1,3) [of env "update_job ?f k s"] by (simp_all add: saved)
  have member: "(k, job) \<in> set (q_jobs (queue s))" by (rule map_of_SomeD [OF assms(3)])
  have "begun ?n b" if "map_of (q_jobs (queue t)) a = Some b" for a b
  proof (cases "a = k")
    case True
    then show ?thesis using that assms(3,4)
      by (auto simp: jobs bt_get_update begun_def count_attempt_def start_attempt_def)
  next
    case False
    then have "(a, b) \<in> set (q_jobs (queue s))" using that by (auto simp: jobs bt_get_update dest: map_of_SomeD)
    then have "job_sequence b \<noteq> ?n" using inj_onD [OF uniq _ _ member] False by fastforce
    then show ?thesis by (simp add: begun_def)
  qed
  moreover have "?n < q_next_sequence (queue t)" using older member unfolding bt.all_entries_def jobs by fastforce
  ultimately have "only_begun ?n (queue t)" using wf by (simp add: only_begun_def jobs bt_update_wf)
  then have "held (only_begun ?n) t" using save_queue_written [OF assms(2) saved] by (simp add: held_def)
  then have "held (only_begun ?n) u" by (rule begun_later [OF assms(6)])
  then have "st_state (job_status job') \<in> {Running, Recovering, CancelRequested}"
    using held_begunD [OF _ assms(7)] assms(8) by (auto simp: begun_def)
  then show ?thesis using assms(7) by (auto simp: mark_running_def)
qed

theorem started_at_most_once_witness:
  "\<exists>s i st t. store_reachable sample_serializer s \<and> mark_running (demo_store_env True) i 41 10 s = (Inr st, t)
     \<and> mark_running (demo_store_env True) i 42 11 t = (Inl NotRunnable, t)"
proof -
  let ?env = "demo_store_env True"
  obtain s i where s: "store_reachable sample_serializer s"
    "q_jobs (queue s) = [(i, submitted_job i demo_owner 1 demo_spec demo_report 9)]"
    "q_history (queue s) = []" "q_generation (queue s) = 2" by (rule demo_job)
  let ?job = "submitted_job i demo_owner 1 demo_spec demo_report 9" and ?f = "count_attempt 1 41 \<circ> start_attempt 10"
  have job: "map_of (q_jobs (queue s)) i = Some ?job" "st_state (job_status ?job) = Queued" "st_attempt (job_status ?job) = 0"
    "\<not> st_resumable (job_status ?job)" "job_sequence ?job = 1"
    by (simp_all add: s(2)) (simp_all add: submitted_job_def new_job_status_def demo_spec_def job_spec_new_def)
  have shape: "mark_running ?env i 41 10 s = st_then (save_queue ?env (update_job ?f i s)) (\<lambda>_ s'. (Inr (job_status (?f ?job)), s'))"
    using job(1-3) by (simp add: mark_running_def checked_add_def)
  have "store_inv (se_ser_plan ?env) (snd (mark_running ?env i 41 10 s))"
    by (rule mark_running_inv) (use reachable_inv [OF s(1)] in simp)
  then have "store_inv (se_ser_plan ?env) (update_job ?f i s)" by (simp add: shape)
  then have "fst (save_queue ?env (update_job ?f i s)) = Inr ()"
    by (rule save_queue_succeeds [where g = 3]) (simp_all add: update_job_def s(4) checked_add_def demo_store_env_def)
  then obtain st t where t: "mark_running ?env i 41 10 s = (Inr st, t)" and jobs: "t = snd (save_queue ?env (update_job ?f i s))"
    using shape by (cases "save_queue ?env (update_job ?f i s)") simp
  have again: "map_of (q_jobs (queue t)) i = Some (?f ?job)" "job_sequence (?f ?job) = job_sequence ?job"
    using job(1) by (simp_all add: jobs bt_get_update count_attempt_def start_attempt_def)
  have "store_reachable (se_ser_plan ?env) s" using s(1) by simp
  from started_at_most_once [OF this demo_store_env_atomic job(1,4) t later_refl again]
  show ?thesis using s(1) t by blast
qed

end
