(* ===== verification/Ipc_Service.thy ===== *)
theory Ipc_Service
  imports Ipc_Scheduler Ipc_Once
begin

text \<open>
  The running job server as a state machine: requests from any number of connections, the
  scheduler thread of \<open>Ipc_Scheduler\<close> with the jobs it holds copies of, children that write
  receipts, and crashes followed by a restart. A request may be served between any two steps of
  the scheduler thread; one operation on the store, one request and one function of the
  scheduler (recovery of a job, selection, launch, the end of a child) are atomic. The
  machine is used to prove what the history says of completed jobs.
\<close>

section \<open>What the history may say\<close>

text \<open>A plan digest is that of the planned work.\<close>

definition planned :: "sched_env \<Rightarrow> dry_run_report \<Rightarrow> bool" where
  "planned base report \<longleftrightarrow> (\<exists>d.
     plan_digest (env_sha256 (sd_receipts base)) (env_ser_plan (sd_receipts base)) (dry_plan report) = Inr d
   \<and> dry_plan_digest report = as_hex d)"

text \<open>A receipt file that the server's key signed for the plan with a digest.\<close>

definition attests :: "sched_env \<Rightarrow> string \<Rightarrow> file_fingerprint option \<Rightarrow> bool" where
  "attests base plan_digest_text fingerprint \<longleftrightarrow> (\<exists>bytes secret public receipt.
     sd_secret base = Some secret \<and> public_key_of (sd_receipts base) secret = Inr public
   \<and> sd_read_receipt base bytes = Some receipt
   \<and> verify_signature (sd_receipts base) receipt public = Inr ()
   \<and> as_hex (pay_plan_digest (rec_payload receipt)) = plan_digest_text
   \<and> sd_fingerprint base bytes = fingerprint \<and> fingerprint \<noteq> None)"

definition entry_ok :: "sched_env \<Rightarrow> stored_history_entry \<Rightarrow> bool" where
  "entry_ok base e \<longleftrightarrow>
     (he_state (hist_public e) = Completed \<longrightarrow> attests base (he_plan_digest (hist_public e)) (he_receipt (hist_public e)))"

definition queue_ok :: "sched_env \<Rightarrow> queue_state \<Rightarrow> bool" where
  "queue_ok base q \<longleftrightarrow> (\<forall>e \<in> set (q_history q). entry_ok base e) \<and> (\<forall>e \<in> set (q_jobs q). planned base (job_dry_run (snd e)))"

definition both_ok :: "sched_env \<Rightarrow> state_store \<Rightarrow> bool" where
  "both_ok base s \<longleftrightarrow> queue_ok base (queue s) \<and> queue_ok base (queue_file s)"

text \<open>No job's report has changed, and no job is new.\<close>

definition same_reports :: "state_store \<Rightarrow> state_store \<Rightarrow> bool" where
  "same_reports s t \<longleftrightarrow> (\<forall>k b. map_of (q_jobs (queue t)) k = Some b \<longrightarrow>
     (\<exists>a. map_of (q_jobs (queue s)) k = Some a \<and> job_dry_run b = job_dry_run a))"

section \<open>One operation of the store\<close>

lemma queue_ok_frame [simp]:
  "queue_ok base (q\<lparr>q_generation := g\<rparr>) = queue_ok base q"
  "queue_ok base (q\<lparr>q_next_sequence := n\<rparr>) = queue_ok base q"
  by (simp_all add: queue_ok_def)

lemma both_ok_held: "both_ok base = held (queue_ok base)"
  by (simp add: fun_eq_iff both_ok_def held_def)

lemma both_ok_save:
  "writes_atomically env \<Longrightarrow> both_ok base s \<Longrightarrow> both_ok base (snd (save_queue env s))"
  unfolding both_ok_held by (rule held_save) simp_all

lemma both_ok_registry: "both_ok base (snd (save_registry env (s\<lparr>registry := r\<rparr>))) = both_ok base s"
  by (simp add: both_ok_def)

lemma all_bt_update:
  assumes "\<forall>e \<in> set m. P (snd e)" and "\<And>a. P a \<Longrightarrow> P (f a)"
  shows "\<forall>e \<in> set (bt_update f k m). P (snd e)"
  using assms by (auto simp: bt_update_def)

lemma both_ok_update:
  assumes "both_ok base s" and "\<And>j. job_dry_run (f j) = job_dry_run j"
  shows "both_ok base (update_job f k s)"
proof -
  have "\<forall>e \<in> set (bt_update f k (q_jobs (queue s))). planned base (job_dry_run (snd e))"
    by (rule all_bt_update) (use assms in \<open>auto simp: both_ok_def queue_ok_def\<close>)
  then show ?thesis using assms(1) by (simp add: both_ok_def queue_ok_def update_job_def)
qed

lemma keeps_report [simp]:
  "job_dry_run (set_state st j) = job_dry_run j" "job_dry_run (start_attempt now j) = job_dry_run j"
  "job_dry_run (count_attempt n p j) = job_dry_run j" "job_dry_run (clear_process j) = job_dry_run j"
  "job_dry_run (requeue j) = job_dry_run j" "job_dry_run (orphan_running j) = job_dry_run j"
  by (simp_all add: set_state_def start_attempt_def count_attempt_def clear_process_def requeue_def orphan_running_def)

lemma small_steps_ok:
  assumes "writes_atomically env" and "both_ok base s"
  shows "both_ok base (snd (mark_running env k p now s))"
    and "both_ok base (snd (update_process_id env k p s))"
    and "both_ok base (snd (request_control env k pause s))"
    and "both_ok base (snd (resume env k s))"
    and "both_ok base (snd (mark_paused env k s))"
    and "both_ok base (snd (requeue_recovered env k s))"
  using assms
  by (auto simp: mark_running_def update_process_id_def request_control_def resume_def mark_paused_def
      requeue_recovered_def Let_def split: option.split sum.split intro!: both_ok_save both_ok_update)

lemma same_reports_refl [simp]: "same_reports s s"
  by (simp add: same_reports_def)

lemma same_reports_trans: "same_reports s t \<Longrightarrow> same_reports t u \<Longrightarrow> same_reports s u"
  unfolding same_reports_def by fastforce

lemma same_reports_jobs: "q_jobs (queue t) = q_jobs (queue s) \<Longrightarrow> same_reports s t"
  by (simp add: same_reports_def)

lemma same_reports_save [simp]: "same_reports s (snd (save_queue env t)) = same_reports s t"
  by (simp add: same_reports_def)

lemma same_reports_update: "(\<And>j. job_dry_run (f j) = job_dry_run j) \<Longrightarrow> same_reports s (update_job f k s)"
  by (auto simp: same_reports_def bt_get_update split: if_splits)

lemma small_steps_reports:
  "same_reports s (snd (mark_running env k p now s))"
  "same_reports s (snd (update_process_id env k p s))"
  "same_reports s (snd (request_control env k pause s))"
  "same_reports s (snd (resume env k s))"
  "same_reports s (snd (mark_paused env k s))"
  "same_reports s (snd (requeue_recovered env k s))"
  by (auto simp: mark_running_def update_process_id_def request_control_def resume_def mark_paused_def
      requeue_recovered_def Let_def split: option.split sum.split intro!: same_reports_update)

lemma removes_same_reports: "only_removes s t \<Longrightarrow> same_reports s t"
  unfolding only_removes_def same_reports_def by fastforce

lemma terminalize_ok:
  assumes "writes_atomically env" and "store_inv ser s" and "both_ok base s"
    and "\<And>job. map_of (q_jobs (queue s)) k = Some job \<Longrightarrow> st = Completed \<Longrightarrow>
      attests base (dry_plan_digest (job_dry_run job)) receipt"
  shows "both_ok base (snd (terminalize env k st receipt error code now s))"
proof (cases "map_of (q_jobs (queue s)) k")
  case (Some job)
  let ?job = "finish_job st receipt error now job"
  let ?s1 = "s\<lparr>queue := (queue s)\<lparr>q_jobs := bt_remove k (q_jobs (queue s))\<rparr>\<rparr>"
  let ?history = "q_history (queue s) @ [history_record ?job now code]"
  let ?n = "length ?history - unat (max_history_entries (reg_limits (registry s)))"
  let ?s2 = "?s1\<lparr>queue := (queue ?s1)\<lparr>q_history := drop ?n ?history\<rparr>\<rparr>"
  have "bt.all_entries (job_ok ser) (q_jobs (queue s))" using assms(2) by (simp add: store_inv_def)
  then have "job_ok ser k job" using Some map_of_SomeD unfolding bt.all_entries_def by fastforce
  then have "st_plan_digest (job_status job) = dry_plan_digest (job_dry_run job)" by (simp add: job_ok_iff)
  then have entry: "entry_ok base (history_record ?job now code)"
    using assms(4) [OF Some] by (simp add: entry_ok_def history_record_def finish_job_def)
  have s1: "both_ok base ?s1"
    using assms(3) by (auto simp: both_ok_def queue_ok_def bt_remove_def)
  then have "both_ok base ?s2"
    using entry by (auto simp: both_ok_def queue_ok_def dest: in_set_dropD)
  then have saved: "both_ok base (snd (save_queue env ?s2))" by (rule both_ok_save [OF assms(1)])
  have "both_ok base (prune_receipts env ids t) = both_ok base t" for ids t
    by (simp add: prune_receipts_def both_ok_def)
  then show ?thesis
    using Some s1 saved assms(3)
    by (simp add: terminalize_def Let_def snd_st_then split: sum.split)
qed (use assms in \<open>simp add: terminalize_def\<close>)

lemma cancel_each_ok:
  assumes "writes_atomically env"
  shows "store_inv ser s \<Longrightarrow> both_ok base s \<Longrightarrow> both_ok base (snd (cancel_each env now ids s))"
proof (induction ids arbitrary: s)
  case (Cons k ids)
  then show ?case using assms terminalize_ok [OF assms Cons.prems, of k Cancelled]
    by (simp add: snd_st_then terminalize_inv split: sum.split)
qed simp

lemma cancel_waiting_jobs_ok:
  assumes "writes_atomically env" "store_inv ser s" "both_ok base s"
  shows "both_ok base (snd (cancel_waiting_jobs env now s))"
proof -
  let ?t = "snd (cancel_each env now (map fst (filter (\<lambda>e. is_waiting (snd e)) (q_jobs (queue s)))) s)"
  have t: "both_ok base ?t" by (rule cancel_each_ok [OF assms])
  then have "both_ok base (interrupt_all ?t)" by (auto simp: both_ok_def queue_ok_def interrupt_all_def)
  then show ?thesis using t assms(1) by (auto simp: cancel_waiting_jobs_def snd_st_then both_ok_save split: sum.split)
qed

lemma cancel_waiting_jobs_reports: "same_reports s (snd (cancel_waiting_jobs env now s))"
proof -
  let ?t = "snd (cancel_each env now (map fst (filter (\<lambda>e. is_waiting (snd e)) (q_jobs (queue s)))) s)"
  have t: "same_reports s ?t" by (rule removes_same_reports [OF cancel_each_removes])
  have "same_reports ?t (interrupt_all ?t)"
    by (auto simp: same_reports_def interrupt_all_get split: if_splits)
  with t have "same_reports s (interrupt_all ?t)" by (rule same_reports_trans)
  then show ?thesis using t by (auto simp: cancel_waiting_jobs_def snd_st_then split: sum.split)
qed

lemma prepare_recovery_ok:
  assumes "writes_atomically env" and "both_ok base s"
  shows "both_ok base (snd (prepare_recovery env s))"
proof -
  have "both_ok base (fold (update_job orphan_running) ids s)" for ids
    using assms(2) by (induction ids arbitrary: s) (simp_all add: both_ok_update)
  then show ?thesis using assms by (simp add: prepare_recovery_def Let_def both_ok_save)
qed

lemma insert_job_ok:
  assumes "writes_atomically env" "both_ok base s" "planned base d"
  shows "both_ok base (snd (insert_job env owner spec d now b s))"
proof -
  have "both_ok base (s\<lparr>queue := (queue s)\<lparr>q_next_sequence := n, q_jobs := bt_insert i job (q_jobs (queue s))\<rparr>\<rparr>)"
    if "job_dry_run job = d" for n i job
    using assms(2,3) that set_bt_insert [of i job "q_jobs (queue s)"]
    by (auto simp: both_ok_def queue_ok_def)
  moreover have "both_ok base (s\<lparr>queue := (queue s)\<lparr>q_next_sequence := n\<rparr>\<rparr>)" for n
    using assms(2) by (simp add: both_ok_def)
  ultimately show ?thesis
    using assms(1,2) by (auto simp: insert_job_def Let_def intro!: both_ok_save split: sum.split)
qed

lemma replace_dry_run_ok:
  assumes "writes_atomically env" "both_ok base s" "planned base d"
  shows "both_ok base (snd (replace_dry_run env k d s))"
proof -
  have "\<forall>e \<in> set (bt_update (set_dry_run d) k (q_jobs (queue s))). planned base (job_dry_run (snd e))"
    by (rule all_bt_update) (use assms in \<open>auto simp: both_ok_def queue_ok_def set_dry_run_def\<close>)
  then have "both_ok base (update_job (set_dry_run d) k s)"
    using assms(2) by (simp add: both_ok_def queue_ok_def update_job_def)
  then show ?thesis
    using assms(1,2) by (auto simp: replace_dry_run_def intro!: both_ok_save split: sum.split option.split)
qed

lemma grant_steps_ok:
  assumes "both_ok base s"
  shows "both_ok base (snd (create_grant env requested now gb tb s))" "both_ok base (snd (revoke_grant env k now s))"
  using snd_create_grant [of env requested now gb tb s] snd_revoke_grant [of env k now s] assms
  by (auto simp: both_ok_registry)

lemma grant_steps_reports:
  "same_reports s (snd (create_grant env requested now gb tb s))" "same_reports s (snd (revoke_grant env k now s))"
  using snd_create_grant [of env requested now gb tb s] snd_revoke_grant [of env k now s]
  by (auto intro!: same_reports_jobs)

section \<open>One request\<close>

text \<open>Two environments with the same keys, parsers and hashes; everything else may answer
  differently at each step.\<close>

definition same_server :: "sched_env \<Rightarrow> sched_env \<Rightarrow> bool" where
  "same_server base env \<longleftrightarrow>
     sd_receipts env = sd_receipts base \<and> sd_secret env = sd_secret base
   \<and> sd_read_receipt env = sd_read_receipt base \<and> sd_fingerprint env = sd_fingerprint base
   \<and> sv_sha256 (sd_server env) = env_sha256 (sd_receipts base)
   \<and> se_ser_plan (sd_store env) = env_ser_plan (sd_receipts base)
   \<and> writes_atomically (sd_store env)"

abbreviation base_ser :: "sched_env \<Rightarrow> execution_plan serializer" where "base_ser base \<equiv> env_ser_plan (sd_receipts base)"

definition store_ok :: "sched_env \<Rightarrow> state_store \<Rightarrow> bool" where
  "store_ok base s \<longleftrightarrow> store_inv (base_ser base) s \<and> disk_inv (base_ser base) s \<and> both_ok base s"

lemma plan_job_planned:
  assumes "same_server base env" and "plan_job (sd_server env) limits job = Inr report"
  shows "planned base report"
  using assms
  by (auto simp: plan_job_def summarize_plan_def and_then_Inr_iff Let_def planned_def same_server_def)

lemma admit_planned:
  assumes "same_server base env" and "admit_and_plan (sd_server env) grant capability requested sh = Inr (job, report)"
  shows "planned base report"
  using assms(2) by (auto simp: admit_and_plan_def and_then_Inr_iff dest: plan_job_planned [OF assms(1)])

lemma store_ok_step:
  assumes "same_server base env" and "store_ok base s" and "store_step (sd_store env) s t" and "both_ok base t"
  shows "store_ok base t"
  using step_inv [OF assms(3)] assms by (simp add: store_ok_def same_server_def)

lemma control_job_ok:
  assumes env: "same_server base env" and "store_ok base (sh_store sh)"
  shows "store_ok base (sh_store (snd (control_job (sd_server env) later grant job_id action sh)))
    \<and> same_reports (sh_store sh) (sh_store (snd (control_job (sd_server env) later grant job_id action sh)))"
proof -
  let ?s = "sh_store sh" and ?env = "sd_store env"
  let ?t = "snd (request_control ?env job_id (action = PauseAction) ?s)"
  have atomic: "writes_atomically ?env" using env by (simp add: same_server_def)
  have "both_ok base ?t" using small_steps_ok(3) [OF atomic] assms(2) by (simp add: store_ok_def)
  then have t: "store_ok base ?t" by (rule store_ok_step [OF assms store_step.control])
  let ?u = "\<lambda>now. snd (terminalize ?env job_id Cancelled None (Some ''cancelled before execution'') (Some ''cancelled'') now ?t)"
  have "both_ok base (?u now)" for now
    by (rule terminalize_ok [OF atomic, where ser = "base_ser base"]) (use t in \<open>simp_all add: store_ok_def\<close>)
  then have u: "store_ok base (?u now)" for now by (rule store_ok_step [OF env t store_step.finish])
  have reports: "same_reports ?s ?t" "same_reports ?s (?u now)" for now
    using small_steps_reports(3) removes_same_reports [OF terminalize_removes] same_reports_trans by blast+
  show ?thesis
    using control_job_store [of "sd_server env" later grant job_id action sh] assms(2) t u reports by auto
qed

text \<open>The jobs that a request may have added.\<close>

definition reports_or_new :: "string option \<Rightarrow> state_store \<Rightarrow> state_store \<Rightarrow> bool" where
  "reports_or_new new s t \<longleftrightarrow> (\<forall>k b. map_of (q_jobs (queue t)) k = Some b \<longrightarrow>
     new = Some k \<or> (\<exists>a. map_of (q_jobs (queue s)) k = Some a \<and> job_dry_run b = job_dry_run a))"

lemma same_reports_new: "same_reports s t \<Longrightarrow> reports_or_new new s t"
  by (simp add: same_reports_def reports_or_new_def)

lemma insert_job_reports:
  assumes "bt_wf (q_jobs (queue s))"
  shows "reports_or_new (ok (random_id ''job'' b)) s (snd (insert_job env owner spec d now b s))"
  using insert_job_jobs [of env owner spec d now b s] bt.get_put [OF assms]
  by (auto simp: reports_or_new_def split: if_splits)

lemma serve_ok:
  assumes env: "same_server base env" and s: "store_ok base (sh_store sh)"
    and owner: "validate_id (auth_grant_id grant) = Inr ()"
    and fresh: "fresh_job_id (sh_store sh) (ri_job_bytes inputs)" "fresh_grant_id (sh_store sh) (ri_grant_bytes inputs)"
  shows "store_ok base (sh_store (snd (serve (sd_server env) inputs now grant operation sh)))
    \<and> reports_or_new (ok (random_id ''job'' (ri_job_bytes inputs))) (sh_store sh)
        (sh_store (snd (serve (sd_server env) inputs now grant operation sh)))"
proof -
  let ?s = "sh_store sh" and ?env = "sd_store env"
  have atomic: "writes_atomically ?env" using env by (simp add: same_server_def)
  have both: "both_ok base ?s" and wf: "bt_wf (q_jobs (queue ?s))"
    using s by (simp_all add: store_ok_def store_inv_def)
  have same: "store_ok base ?s" "reports_or_new new ?s ?s" for new
    using s by (simp_all add: same_reports_new)
  have control: "store_ok base (sh_store (snd (control_job (sd_server env) later grant job_id action sh)))"
    "reports_or_new new ?s (sh_store (snd (control_job (sd_server env) later grant job_id action sh)))" for later job_id action new
    using control_job_ok [OF env s] same_reports_new by blast+
  have submit: "store_ok base (snd (insert_job ?env (auth_grant_id grant) job report now (ri_job_bytes inputs) ?s))"
    if "admit_and_plan (sd_server env) grant Submit requested sh = Inr (job, report)" for requested job report
    by (rule store_ok_step [OF env s store_step.submit [OF owner fresh(1)]])
      (rule insert_job_ok [OF atomic both admit_planned [OF env that]])
  have others: "store_ok base (snd (resume ?env k ?s))" "reports_or_new new ?s (snd (resume ?env k ?s))"
    "store_ok base (snd (create_grant ?env policy now (ri_grant_bytes inputs) (ri_token_bytes inputs) ?s))"
    "reports_or_new new ?s (snd (create_grant ?env policy now (ri_grant_bytes inputs) (ri_token_bytes inputs) ?s))"
    "store_ok base (snd (revoke_grant ?env k now ?s))" "reports_or_new new ?s (snd (revoke_grant ?env k now ?s))"
    for k policy new
    by (rule store_ok_step [OF env s store_step.unpause small_steps_ok(4) [OF atomic both]]
        store_ok_step [OF env s store_step.grant [OF fresh(2)] grant_steps_ok(1) [OF both]]
        store_ok_step [OF env s store_step.revoke grant_steps_ok(2) [OF both]]
        same_reports_new [OF small_steps_reports(4)] same_reports_new [OF grant_steps_reports(1)]
        same_reports_new [OF grant_steps_reports(2)])+
  show ?thesis
    by (cases operation)
      (auto simp: serve_def Let_def same control others insert_job_reports [OF wf] snd_on_store submit
        split: sum.split prod.split)
qed

section \<open>The functions of the scheduler\<close>

text \<open>A copy of a job that the scheduler holds: if the job still exists, its report is the copy's.\<close>

definition snapshot_ok :: "stored_job \<Rightarrow> state_store \<Rightarrow> bool" where
  "snapshot_ok job s \<longleftrightarrow> (\<forall>stored. map_of (q_jobs (queue s)) (st_job_id (job_status job)) = Some stored \<longrightarrow>
     job_dry_run stored = job_dry_run job)"

lemma snapshot_reports: "snapshot_ok job s \<Longrightarrow> same_reports s t \<Longrightarrow> snapshot_ok job t"
  unfolding snapshot_ok_def same_reports_def by fastforce

text \<open>Whatever a function of the scheduler left behind is a valid store that keeps the reports of \<open>s\<close>.\<close>

definition good :: "sched_env \<Rightarrow> state_store \<Rightarrow> service \<Rightarrow> bool" where
  "good base s v \<longleftrightarrow> store_ok base (svc_store v) \<and> same_reports s (svc_store v)"

named_theorems good_intros \<open>the functions of the scheduler keep the store good\<close>

lemma good_then [good_intros]:
  assumes "good base s (snd m)" and "\<And>x v. m = (Inr x, v) \<Longrightarrow> good base s v \<Longrightarrow> good base s (snd (f x v))"
  shows "good base s (snd (st_then m f))"
  using assms by (cases m; cases "fst m") auto

lemma good_store: "svc_store v' = svc_store v \<Longrightarrow> good base s v' = good base s v"
  by (simp add: good_def)

lemma good_check [simp]: "good base s (snd (check m v)) = good base s v"
  by (simp add: check_def)

lemma good_perform [good_intros]: "good base s v \<Longrightarrow> good base s (change v) \<Longrightarrow> good base s (snd (perform success e change v))"
  by (simp add: perform_def)

lemma store_ok_files [simp]: "store_ok base (s\<lparr>state_files := fs\<rparr>) = store_ok base s"
  by (simp add: store_ok_def store_inv_iff both_ok_def)

lemma good_frame [simp]:
  "good base s (v\<lparr>svc_plans := ps\<rparr>) = good base s v"
  "good base s (v\<lparr>svc_leases := ls\<rparr>) = good base s v"
  "good base s (v\<lparr>svc_receipts := rs\<rparr>) = good base s v"
  "good base s (v\<lparr>svc_shared := (svc_shared v)\<lparr>sh_controls := cs\<rparr>\<rparr>) = good base s v"
  "good base s (set_active a v) = good base s v"
  "good base s (cleanup_job_control_files job_id v) = good base s v"
  "good base s (kill_active env v) = good base s v"
  "good base s (set_store ((svc_store v)\<lparr>state_files := fs\<rparr>) v) = good base s v"
  by (auto simp: good_def set_active_def cleanup_job_control_files_def kill_active_def set_store_def same_reports_def
      split: option.split)

lemma good_write [good_intros]: "good base s v \<Longrightarrow> good base s (snd (write_control_file env job_id action generation v))"
  by (simp add: write_control_file_def good_perform)

lemma good_remove [good_intros]: "good base s v \<Longrightarrow> good base s (snd (remove_receipt env job_id v))"
  by (simp add: remove_receipt_def good_perform)

lemma good_stop [good_intros]: "good base s v \<Longrightarrow> good base s (stop_active env job_id v)"
  by (simp add: stop_active_def good_write split: option.split)

lemma good_in_store:
  assumes "same_server base env" and "good base s v"
    and "store_step (sd_store env) (svc_store v) (snd (f (svc_store v)))"
    and "both_ok base (snd (f (svc_store v)))" and "same_reports (svc_store v) (snd (f (svc_store v)))"
  shows "good base s (snd (in_store f v))"
  using store_ok_step [OF assms(1) _ assms(3,4)] assms(2,5) same_reports_trans
  by (auto simp: good_def in_store_def set_store_def split: prod.split)

lemma good_parts: "good base s v \<Longrightarrow> store_inv (base_ser base) (svc_store v) \<and> both_ok base (svc_store v)"
  by (simp add: good_def store_ok_def)

lemma atomic_server: "same_server base env \<Longrightarrow> writes_atomically (sd_store env)"
  by (simp add: same_server_def)

lemma good_operations [good_intros]:
  assumes "same_server base env" and "good base s v"
  shows "good base s (snd (in_store (mark_running (sd_store env) k p now) v))"
    and "good base s (snd (in_store (update_process_id (sd_store env) k p) v))"
    and "good base s (snd (in_store (mark_paused (sd_store env) k) v))"
    and "good base s (snd (in_store (requeue_recovered (sd_store env) k) v))"
    and "good base s (snd (in_store (cancel_waiting_jobs (sd_store env) now) v))"
    and "st \<noteq> Completed \<Longrightarrow> good base s (snd (in_store (terminalize (sd_store env) k st receipt error code now) v))"
proof -
  note parts = good_parts [OF assms(2), THEN conjunct1] good_parts [OF assms(2), THEN conjunct2]
  note steps = small_steps_ok [OF atomic_server [OF assms(1)] parts(2)] small_steps_reports
  show "good base s (snd (in_store (mark_running (sd_store env) k p now) v))"
    by (rule good_in_store, rule assms(1), rule assms(2), rule store_step.run) (rule steps)+
  show "good base s (snd (in_store (update_process_id (sd_store env) k p) v))"
    by (rule good_in_store, rule assms(1), rule assms(2), rule store_step.record_process) (rule steps)+
  show "good base s (snd (in_store (mark_paused (sd_store env) k) v))"
    by (rule good_in_store, rule assms(1), rule assms(2), rule store_step.paused) (rule steps)+
  show "good base s (snd (in_store (requeue_recovered (sd_store env) k) v))"
    by (rule good_in_store, rule assms(1), rule assms(2), rule store_step.requeued) (rule steps)+
  show "good base s (snd (in_store (cancel_waiting_jobs (sd_store env) now) v))"
    by (rule good_in_store, rule assms(1), rule assms(2), rule store_step.cancel_all)
      (rule cancel_waiting_jobs_ok [OF atomic_server [OF assms(1)] parts] cancel_waiting_jobs_reports)+
  show "good base s (snd (in_store (terminalize (sd_store env) k st receipt error code now) v))" if "st \<noteq> Completed"
    by (rule good_in_store, rule assms(1), rule assms(2), rule store_step.finish)
      (rule terminalize_ok [OF atomic_server [OF assms(1)] parts], simp add: that, rule removes_same_reports [OF terminalize_removes])
qed

lemma validated_receipt:
  assumes "same_server base env" and "validate_completed_receipt env bytes (dry_plan report) = Inr fingerprint"
    and "planned base report"
  shows "attests base (dry_plan_digest report) (Some fingerprint)"
proof -
  from assms(1,2) obtain secret public receipt d where
    keys: "sd_secret base = Some secret" "public_key_of (sd_receipts base) secret = Inr public"
    and receipt: "sd_read_receipt base bytes = Some receipt"
      "verify_signature (sd_receipts base) receipt public = Inr ()" "sd_fingerprint base bytes = Some fingerprint"
    and digest: "plan_digest (env_sha256 (sd_receipts base)) (env_ser_plan (sd_receipts base)) (dry_plan report) = Inr d"
      "pay_plan_digest (rec_payload receipt) = d"
    by (auto simp: validate_completed_receipt_def and_then_Inr_iff verify_plan_def matches_plan_def same_server_def lift_iff)
  moreover have "as_hex d = dry_plan_digest report" using assms(3) digest(1) by (auto simp: planned_def)
  ultimately show ?thesis unfolding attests_def by blast
qed

lemma good_complete:
  assumes "same_server base env" and "good base s v" and "snapshot_ok job s"
    and "validate_completed_receipt env bytes (dry_plan (job_dry_run job)) = Inr fingerprint"
  shows "good base s (snd (complete env (st_job_id (job_status job)) fingerprint now v))"
  unfolding complete_def
proof (rule good_in_store, rule assms(1), rule assms(2), rule store_step.finish)
  note parts = good_parts [OF assms(2), THEN conjunct1] good_parts [OF assms(2), THEN conjunct2]
  show "both_ok base (snd (terminalize (sd_store env) (st_job_id (job_status job)) Completed (Some fingerprint) None None now (svc_store v)))"
  proof (rule terminalize_ok [OF atomic_server [OF assms(1)] parts])
    fix stored
    assume stored: "map_of (q_jobs (queue (svc_store v))) (st_job_id (job_status job)) = Some stored"
    then have "job_dry_run stored = job_dry_run job"
      using snapshot_reports [OF assms(3), of "svc_store v"] assms(2) by (simp add: good_def snapshot_ok_def)
    moreover have "planned base (job_dry_run stored)"
      using parts(2) map_of_SomeD [OF stored] unfolding both_ok_def queue_ok_def by fastforce
    ultimately show "attests base (dry_plan_digest (job_dry_run stored)) (Some fingerprint)"
      using validated_receipt [OF assms(1,4)] by simp
  qed
qed (rule removes_same_reports [OF terminalize_removes])

lemma prepare_files_good [good_intros]: "good base s v \<Longrightarrow> good base s (snd (prepare_files env job v))"
  by (auto simp: prepare_files_def Let_def intro!: good_intros)

lemma settle_receipt_good [good_intros]:
  assumes "same_server base env" "good base s v" "snapshot_ok job s"
  shows "good base s (snd (settle_receipt env now job v))"
  using assms
  by (auto simp: settle_receipt_def Let_def intro!: good_intros good_complete split: option.split sum.split)

lemma launch_child_good [good_intros]:
  assumes "same_server base env" "good base s v"
  shows "good base s (snd (launch_child env now limits job v))"
  using assms by (auto simp: launch_child_def Let_def intro!: good_intros split: option.split)

lemma start_job_good [good_intros]:
  assumes "same_server base env" "good base s v" "snapshot_ok job s"
  shows "good base s (snd (start_job env now job v))"
  using assms by (auto simp: start_job_def Let_def intro!: good_intros)

lemma report_timeout_good [good_intros]: "good base s v \<Longrightarrow> good base s (snd (report_timeout env job v))"
  by (auto simp: report_timeout_def intro!: good_intros)

lemma settle_exit_good [good_intros]:
  assumes "same_server base env" "good base s v" "snapshot_ok job s"
  shows "good base s (snd (settle_exit env exit limits now current job v))"
proof (cases "cx_code exit = Some 0")
  case True
  show ?thesis
    unfolding settle_exit_def Let_def if_P [OF True]
  proof (rule good_then)
    fix fingerprint w
    assume "check (and_then (ok_or (receipt_of v (st_job_id (job_status job))) ReceiptUnreadable)
        (\<lambda>bytes. validate_completed_receipt env bytes (dry_plan (job_dry_run job)))) v = (Inr fingerprint, w)"
      and w: "good base s w"
    then obtain bytes where "validate_completed_receipt env bytes (dry_plan (job_dry_run job)) = Inr fingerprint"
      by (auto simp: check_def and_then_Inr_iff)
    then show "good base s (snd (complete env (st_job_id (job_status job)) fingerprint now w))"
      by (rule good_complete [OF assms(1) w assms(3)])
  qed (simp add: assms(2))
next
  case False
  then show ?thesis using assms(1,2) by (auto simp: settle_exit_def Let_def intro!: good_intros)
qed

lemma finish_job_run_good [good_intros]:
  assumes "same_server base env" "good base s v" "snapshot_ok job s"
  shows "good base s (snd (finish_job_run env exit now job v))"
  using assms by (auto simp: finish_job_run_def Let_def intro!: good_intros split: option.split)

lemma bind_ok_iff: "Option.bind m (\<lambda>x. ok (f x)) = Some y \<longleftrightarrow> (\<exists>x. m = Some x \<and> f x = Inr y)"
  by (cases m) (auto simp: ok_def split: sum.splits)

lemma failure_good [good_intros]:
  assumes env: "same_server base env" and v: "good base s v" and snap: "snapshot_ok job s"
  shows "good base s (snd (terminalize_scheduler_failure env now job message code v))"
proof -
  let ?v = "stop_active env (st_job_id (job_status job)) v"
  let ?validated = "\<lambda>bytes. ok (validate_completed_receipt env bytes (dry_plan (job_dry_run job)))"
  have stopped: "good base s ?v" using v by (rule good_stop)
  have "good base s (snd (in_store (terminalize (sd_store env) (st_job_id (job_status job))
      (if r \<noteq> None then Completed else Failed) r (if r = None then Some message else None)
      (if r = None then Some code else None) t) ?v))"
    if "r = Option.bind (receipt_of ?v (st_job_id (job_status job))) ?validated" for r t
  proof (cases r)
    case None
    then show ?thesis by (simp add: good_operations(6) [OF env stopped])
  next
    case (Some fingerprint)
    with that have bound: "Option.bind (receipt_of ?v (st_job_id (job_status job))) ?validated = Some fingerprint" by simp
    from bind_ok_iff [THEN iffD1, OF bound]
    obtain bytes where "validate_completed_receipt env bytes (dry_plan (job_dry_run job)) = Inr fingerprint" by blast
    from good_complete [OF env stopped snap this] show ?thesis using Some by (simp add: complete_def)
  qed
  then show ?thesis using stopped
    by (auto simp: terminalize_scheduler_failure_def Let_def intro!: good_then split: option.split)
qed

lemma or_failed_good [good_intros]:
  assumes "same_server base env" "good base s (snd m)" "snapshot_ok job s"
  shows "good base s (snd (or_failed env now job m))"
  using assms by (auto simp: or_failed_def intro!: good_intros split: prod.split sum.split)

lemma child_steps_good:
  assumes "same_server base env" "good base s v" "snapshot_ok job s"
  shows "good base s (snd (child_ended env exit now job v))" and "good base s (snd (child_late env now job v))"
  using assms by (auto simp: child_ended_def child_late_def intro!: good_intros)

lemma resolve_orphan_good [good_intros]:
  assumes "same_server base env" "good base s v"
  shows "good base s (snd (resolve_orphan env now job current v))"
  using assms by (auto simp: resolve_orphan_def Let_def intro!: good_intros)

lemma recover_unleased_good [good_intros]:
  assumes "same_server base env" "good base s v" "snapshot_ok job s"
  shows "good base s (snd (recover_unleased env now job v))"
proof (cases "Option.bind (receipt_of v (st_job_id (job_status job)))
    (\<lambda>bytes. ok (validate_completed_receipt env bytes (dry_plan (job_dry_run job))))")
  case None
  then show ?thesis using assms(1,2)
    by (auto simp: recover_unleased_def Let_def intro!: good_intros split: option.split)
next
  case (Some fingerprint)
  from bind_ok_iff [THEN iffD1, OF this]
  obtain bytes where "validate_completed_receipt env bytes (dry_plan (job_dry_run job)) = Inr fingerprint" by blast
  then have done_: "good base s (snd (complete env (st_job_id (job_status job)) fingerprint t v))" for t
    by (rule good_complete [OF assms])
  have "good base s (snd (st_then (complete env (st_job_id (job_status job)) fingerprint t v)
      (\<lambda>_ v. (Inr (), cleanup_job_control_files (st_job_id (job_status job)) v))))" for t
    by (rule good_then [OF done_]) simp
  then show ?thesis using assms(2)
    unfolding recover_unleased_def Let_def Some option.case by (simp split: option.split)
qed

lemma recover_orphaned_job_good [good_intros]:
  assumes "same_server base env" "good base s v" "snapshot_ok job s"
  shows "good base s (snd (recover_orphaned_job env now job v))"
  using assms by (auto simp: recover_orphaned_job_def Let_def intro!: good_intros split: option.split)

lemma select_job_good [good_intros]:
  assumes "same_server base env" "good base s v"
  shows "good base s (snd (select_job env now v))"
  using assms by (auto simp: select_job_def shutdown_requested_def intro!: good_intros split: option.split)

lemma good_start: "store_ok base (svc_store v) \<Longrightarrow> good base (svc_store v) v"
  by (simp add: good_def)

lemma replaced_report:
  assumes "replace_dry_run env k d s = (Inr st, t)" and "map_of (q_jobs (queue t)) k = Some b"
  shows "job_dry_run b = d"
proof -
  have "q_jobs (queue t) = bt_update (set_dry_run d) k (q_jobs (queue s))"
    using assms(1)
    by (auto simp: replace_dry_run_def st_then_Inr_iff split: sum.splits option.splits if_splits
        dest!: arg_cong [where f = "\<lambda>m. q_jobs (queue (snd m))"])
  then show ?thesis using assms(2) by (auto simp: bt_get_update set_dry_run_def)
qed

lemma replan_job_ok:
  assumes env: "same_server base env" and v: "store_ok base (svc_store v)" and snap: "snapshot_ok job (svc_store v)"
    and replan: "replan_job env now job v = (r, v')"
  shows "store_ok base (svc_store v') \<and> (\<forall>job'. r = Inr (Some job') \<longrightarrow> snapshot_ok job' (svc_store v'))"
proof (cases "st_attempt (job_status job) = 0")
  case True
  then show ?thesis using replan v snap by (auto simp: replan_job_def)
next
  case attempted: False
  let ?plan = "plan_job (sd_server env) (reg_limits (registry (svc_store v))) (job_spec job)"
  show ?thesis
  proof (cases ?plan)
    case (Inl e)
    then obtain message where m: "st_then (terminalize_scheduler_failure env now job message ''planning-failed'' v)
        (\<lambda>_ v. (Inr None, v)) = (r, v')"
      using replan attempted by (auto simp: replan_job_def)
    have "good base (svc_store v) (snd (st_then (terminalize_scheduler_failure env now job message ''planning-failed'' v)
        (\<lambda>_ v. (Inr None :: sched_error + stored_job option, v))))"
      by (rule good_then [OF failure_good [OF env good_start [OF v] snap]]) simp
    then have "good base (svc_store v) v'" and "\<forall>job'. r \<noteq> Inr (Some job')"
      using m by (auto simp: st_then_Inr_iff)
    then show ?thesis by (simp add: good_def)
  next
    case (Inr report)
    let ?k = "st_job_id (job_status job)"
    let ?t = "snd (replace_dry_run (sd_store env) ?k report (svc_store v))"
    have v': "svc_store v' = ?t"
      using replan attempted Inr
      by (cases "replace_dry_run (sd_store env) ?k report (svc_store v)"; cases "fst (replace_dry_run (sd_store env) ?k report (svc_store v))")
        (auto simp: replan_job_def in_store_def set_store_def)
    have "both_ok base ?t"
      by (rule replace_dry_run_ok [OF atomic_server [OF env] _ plan_job_planned [OF env Inr]]) (use v in \<open>simp add: store_ok_def\<close>)
    then have t: "store_ok base ?t" by (rule store_ok_step [OF env v store_step.replan])
    have "snapshot_ok job' (svc_store v')" if "r = Inr (Some job')" for job'
    proof -
      have "job' = set_dry_run report job" and "\<exists>st. fst (replace_dry_run (sd_store env) ?k report (svc_store v)) = Inr st"
        using that replan attempted Inr
        by (cases "replace_dry_run (sd_store env) ?k report (svc_store v)"; cases "fst (replace_dry_run (sd_store env) ?k report (svc_store v))";
            auto simp: replan_job_def in_store_def)+
      then show ?thesis
        using replaced_report [of "sd_store env" ?k report "svc_store v" _ ?t]
        by (auto simp: snapshot_ok_def v' set_dry_run_def prod_eq_iff)
    qed
    then show ?thesis using t v' by simp
  qed
qed

lemma serve_job_ok:
  assumes env: "same_server base env" and v: "store_ok base (svc_store v)" and snap: "snapshot_ok job (svc_store v)"
    and serve: "serve_job env now job v = (r, v')"
  shows "store_ok base (svc_store v') \<and> (\<forall>round job'. r = Inr (round, job') \<and> round = Launched \<longrightarrow> snapshot_ok job' (svc_store v'))"
proof -
  obtain planned w where replan: "replan_job env now job v = (planned, w)" by (cases "replan_job env now job v")
  note w = replan_job_ok [OF env v snap replan]
  consider (failed) e where "planned = Inl e" | (closed) "planned = Inr None" | (run) job' where "planned = Inr (Some job')"
    by (metis not_None_eq obj_sumE)
  then show ?thesis
  proof cases
    case run
    then have snap': "snapshot_ok job' (svc_store w)" using w by simp
    let ?m = "or_failed env now job' (st_then (start_job env now job' w) (\<lambda>launched v. (Inr (if launched then Launched else Served), v)))"
    have "good base (svc_store w) (snd (st_then (start_job env now job' w) (\<lambda>launched v. (Inr (if launched then Launched else Served), v))))"
      by (rule good_then [OF start_job_good [OF env good_start snap']]) (use w in simp_all)
    then have m: "good base (svc_store w) (snd ?m)" by (rule or_failed_good [OF env _ snap'])
    have "v' = snd ?m" "\<forall>round j. r = Inr (round, j) \<longrightarrow> j = job'"
      using serve replan run by (cases ?m; cases "fst ?m"; auto simp: serve_job_def)+
    moreover have "snapshot_ok job' (svc_store (snd ?m))"
      using m snapshot_reports [OF snap'] by (simp add: good_def)
    ultimately show ?thesis using m by (auto simp: good_def)
  qed (use serve replan w in \<open>auto simp: serve_job_def\<close>)
qed

section \<open>The machine\<close>

datatype scheduler_at = Looking | Recovery "stored_job list" | Selected stored_job | Waiting stored_job | Ended

fun copies :: "scheduler_at \<Rightarrow> stored_job list" where
  "copies (Recovery jobs) = jobs"
| "copies (Selected job) = [job]"
| "copies (Waiting job) = [job]"
| "copies _ = []"

definition after_selection :: "sched_error + round + stored_job \<Rightarrow> scheduler_at" where
  "after_selection r = (case r of Inr (Inr job) \<Rightarrow> Selected job | Inr (Inl Idle) \<Rightarrow> Looking | _ \<Rightarrow> Ended)"

definition after_serving :: "sched_error + round \<times> stored_job \<Rightarrow> scheduler_at" where
  "after_serving r = (case r of Inr (round, job) \<Rightarrow> if round = Launched then Waiting job else Looking | Inl _ \<Rightarrow> Ended)"

definition while_waiting :: "stored_job \<Rightarrow> sched_error + round \<Rightarrow> scheduler_at" where
  "while_waiting job r = (case r of Inr round \<Rightarrow> if round = Launched then Waiting job else Looking | Inl _ \<Rightarrow> Ended)"

text \<open>
  One step of the server. The identities that a request draws are new, also among the jobs that
  the scheduler holds copies of. Anything may be written to a receipt file at any time. After a
  crash at any point the next process opens the state files.
\<close>

inductive server_step :: "sched_env \<Rightarrow> scheduler_at \<times> service \<Rightarrow> scheduler_at \<times> service \<Rightarrow> bool" for base where
  request: "same_server base env \<Longrightarrow> request_validate req = Inr () \<Longrightarrow>
     fresh_job_id (svc_store v) (ri_job_bytes inputs) \<Longrightarrow> fresh_grant_id (svc_store v) (ri_grant_bytes inputs) \<Longrightarrow>
     (\<And>i. random_id ''job'' (ri_job_bytes inputs) = Inr i \<Longrightarrow> i \<notin> (st_job_id \<circ> job_status) ` set (copies pc)) \<Longrightarrow>
     server_step base (pc, v) (pc, v\<lparr>svc_shared := snd (dispatch_request (sd_server env) inputs req (svc_shared v))\<rparr>)"
| receipt_written: "server_step base (pc, v)
     (pc, set_store ((svc_store v)\<lparr>state_files := receipt_name i # state_files (svc_store v)\<rparr>)
        (v\<lparr>svc_receipts := (svc_receipts v)(i := bytes)\<rparr>))"
| look: "server_step base (Looking, v) (Recovery (recovery_jobs (svc_store v)), v)"
| recover: "same_server base env \<Longrightarrow> recover_orphaned_job env now job v = (r, v') \<Longrightarrow>
     server_step base (Recovery (job # jobs), v) (if is_ok r then Recovery jobs else Ended, v')"
| select: "same_server base env \<Longrightarrow> select_job env now v = (r, v') \<Longrightarrow>
     server_step base (Recovery [], v) (after_selection r, v')"
| serve: "same_server base env \<Longrightarrow> serve_job env now job v = (r, v') \<Longrightarrow>
     server_step base (Selected job, v) (after_serving r, v')"
| late: "same_server base env \<Longrightarrow> child_late env now job v = (r, v') \<Longrightarrow>
     server_step base (Waiting job, v) (while_waiting job r, v')"
| ended: "same_server base env \<Longrightarrow> child_ended env exit now job v = (r, v') \<Longrightarrow>
     server_step base (Waiting job, v) (while_waiting job r, v')"
| interrupted: "server_step base (pc, v) (pc, snd (cancel_active_child env CancelAction v))"
| restart: "same_server base env \<Longrightarrow>
     run_ipc_server env (registry_file (svc_store v)) (queue_file (svc_store v)) v = Inr v' \<Longrightarrow>
     server_step base (pc, v) (Looking, v')"

definition new_service :: "state_store \<Rightarrow> service" where
  "new_service s = \<lparr>svc_shared = idle_server s, svc_plans = Map.empty, svc_leases = {}, svc_receipts = (\<lambda>_. [])\<rparr>"

inductive server_reachable :: "sched_env \<Rightarrow> scheduler_at \<Rightarrow> service \<Rightarrow> bool" for base where
  initial: "initialize_documents (sd_store env) limits now sb gb tb = Inr (r, q, document) \<Longrightarrow> same_server base env \<Longrightarrow>
     server_reachable base Looking (new_service (created_store r q))"
| moved: "server_reachable base pc v \<Longrightarrow> server_step base (pc, v) (pc', v') \<Longrightarrow> server_reachable base pc' v'"

section \<open>The invariant of the machine\<close>

definition machine_ok :: "sched_env \<Rightarrow> scheduler_at \<Rightarrow> service \<Rightarrow> bool" where
  "machine_ok base pc v \<longleftrightarrow> store_ok base (svc_store v) \<and> (\<forall>job \<in> set (copies pc). snapshot_ok job (svc_store v))"

lemma machine_ok_good:
  assumes "machine_ok base pc v" and "good base (svc_store v) v'" and "set (copies pc') \<subseteq> set (copies pc)"
  shows "machine_ok base pc' v'"
  using assms snapshot_reports by (fastforce simp: machine_ok_def good_def)

lemma active_snapshot:
  assumes "store_ok base s" and "job \<in> set (active_jobs s)"
  shows "snapshot_ok job s"
proof -
  from assms(2) obtain k where k: "(k, job) \<in> set (q_jobs (queue s))" by (auto simp: active_jobs_def)
  have wf: "bt_wf (q_jobs (queue s))" and "bt.all_entries (job_ok (base_ser base)) (q_jobs (queue s))"
    using assms(1) by (simp_all add: store_ok_def store_inv_def)
  then have "k = st_job_id (job_status job)" using k unfolding bt.all_entries_def by (fastforce simp: job_ok_iff)
  moreover have "map_of (q_jobs (queue s)) k = Some job"
    using k bt_wf_distinct [OF wf] by (simp add: map_of_is_SomeI)
  ultimately show ?thesis by (simp add: snapshot_ok_def)
qed

lemma next_job_active: "next_job s = Some job \<Longrightarrow> job \<in> set (active_jobs s)"
proof -
  have "fold better jobs best = Some job \<Longrightarrow> job \<in> set jobs \<or> best = Some job" for jobs best
    by (induction jobs arbitrary: best) (fastforce simp: better_def split: option.splits if_splits)+
  from this [of "filter is_queued (active_jobs s)" None] show "next_job s = Some job \<Longrightarrow> job \<in> set (active_jobs s)"
    by (auto simp: next_job_def)
qed

lemma dispatch_ok:
  assumes env: "same_server base env" and s: "store_ok base (sh_store sh)" and valid: "request_validate req = Inr ()"
    and fresh: "fresh_job_id (sh_store sh) (ri_job_bytes inputs)" "fresh_grant_id (sh_store sh) (ri_grant_bytes inputs)"
  shows "store_ok base (sh_store (snd (dispatch_request (sd_server env) inputs req sh)))
    \<and> reports_or_new (ok (random_id ''job'' (ri_job_bytes inputs))) (sh_store sh)
        (sh_store (snd (dispatch_request (sd_server env) inputs req sh)))"
proof -
  have same: "reports_or_new new (sh_store sh) (sh_store sh)" for new by (simp add: same_reports_new)
  have "validate_id (auth_grant_id grant) = Inr ()"
    if "authenticate (sd_store env) (sh_store sh) (req_server_id req) (req_grant_id req) (req_token req) now = Inr grant" for now grant
    using that valid by (auto simp: authenticate_def request_validate_def and_then_Inr_iff and_then_unit_iff)
  note serve_ok [OF env s this fresh]
  then show ?thesis using s same
    by (auto simp: dispatch_request_def or_ipc_def map_err_def split: option.split sum.split sum.split_asm)
qed

lemma run_ipc_server_ok:
  assumes env: "same_server base env" and v: "store_ok base (svc_store v)"
    and start: "run_ipc_server env (registry_file (svc_store v)) (queue_file (svc_store v)) v = Inr v'"
  shows "store_ok base (svc_store v')"
proof -
  from start obtain s where s: "store_open (sd_store env) (registry_file (svc_store v)) (queue_file (svc_store v))
      (state_files (svc_store v)) = Inr s"
    and rest: "(case prepare_recovery (sd_store env) s of (Inl e, _) \<Rightarrow> Inl (InStore e)
      | (Inr _, s) \<Rightarrow> Inr (v\<lparr>svc_shared := \<lparr>sh_store = s, sh_active = None, sh_controls = sh_controls (svc_shared v),
          sh_shutdown = False, sh_force_shutdown = False\<rparr>\<rparr>)) = Inr v'"
    by (auto simp: run_ipc_server_def and_then_Inr_iff)
  have v': "svc_store v' = snd (prepare_recovery (sd_store env) s)"
    using rest by (cases "prepare_recovery (sd_store env) s"; cases "fst (prepare_recovery (sd_store env) s)") auto
  have ser: "se_ser_plan (sd_store env) = base_ser base" using env by (simp add: same_server_def)
  note shape = store_open_shape [OF s]
  have "both_ok base s" using shape v by (simp add: store_ok_def both_ok_def)
  then have opened: "store_ok base s"
    using restart_inv [of "sd_store env" "svc_store v" _ s] s v ser by (auto simp: store_ok_def)
  have "both_ok base (snd (prepare_recovery (sd_store env) s))"
    by (rule prepare_recovery_ok [OF atomic_server [OF env]]) (use opened in \<open>simp add: store_ok_def\<close>)
  then show ?thesis using store_ok_step [OF env opened store_step.recover] v' by simp
qed

lemma machine_step:
  assumes "server_step base (pc, v) (pc', v')" and "machine_ok base pc v"
  shows "machine_ok base pc' v'"
  using assms
proof (cases rule: server_step.cases)
  case (request env req inputs)
  have "store_ok base (svc_store v)" using assms(2) by (simp add: machine_ok_def)
  note step = dispatch_ok [OF request(3) this request(4) request(5,6)]
  have "snapshot_ok job (svc_store v')" if job: "job \<in> set (copies pc)" for job
    unfolding snapshot_ok_def
  proof (intro allI impI)
    fix stored
    assume stored: "map_of (q_jobs (queue (svc_store v'))) (st_job_id (job_status job)) = Some stored"
    have "ok (random_id ''job'' (ri_job_bytes inputs)) \<noteq> Some (st_job_id (job_status job))"
      using request(7) job by (auto simp: ok_def split: sum.split)
    then obtain a where "map_of (q_jobs (queue (svc_store v))) (st_job_id (job_status job)) = Some a" "job_dry_run stored = job_dry_run a"
      using step stored request(2) by (auto simp: reports_or_new_def)
    then show "job_dry_run stored = job_dry_run job" using assms(2) job by (auto simp: machine_ok_def snapshot_ok_def)
  qed
  then show ?thesis using step request(1,2) by (simp add: machine_ok_def)
next
  case (receipt_written i bytes)
  then have "good base (svc_store v) v'"
    using assms(2) by (simp add: good_def machine_ok_def set_store_def same_reports_def)
  then show ?thesis using machine_ok_good [OF assms(2)] receipt_written by simp
next
  case look
  then show ?thesis using assms(2) active_snapshot by (auto simp: machine_ok_def recovery_jobs_def)
next
  case (recover env now job r jobs)
  then have "good base (svc_store v) v'"
    using recover_orphaned_job_good [OF recover(3) good_start, of v job now] assms(2) by (simp add: machine_ok_def)
  then show ?thesis using recover(1,2) by (intro machine_ok_good [OF assms(2)]) auto
next
  case (select env now r)
  have good: "good base (svc_store v) v'"
    using select_job_good [OF select(3) good_start, of v now] assms(2) select(4) by (simp add: machine_ok_def)
  then have ok: "store_ok base (svc_store v')" by (simp add: good_def)
  have "snapshot_ok job (svc_store v')" if "r = Inr (Inr job)" for job
    using that select(4) active_snapshot [OF ok] next_job_active
    by (auto simp: select_job_def st_then_Inr_iff split: if_splits option.splits)
  then show ?thesis using ok select(2)
    by (auto simp: machine_ok_def after_selection_def split: sum.split round.split)
next
  case (serve env now job r)
  then have "store_ok base (svc_store v')" "\<forall>job'. r = Inr (Launched, job') \<longrightarrow> snapshot_ok job' (svc_store v')"
    using serve_job_ok [OF serve(3) _ _ serve(4)] assms(2) by (auto simp: machine_ok_def)
  then show ?thesis using serve(2) by (auto simp: machine_ok_def after_serving_def split: sum.split)
next
  case (late env now job r)
  then have "good base (svc_store v) v'"
    using child_steps_good(2) [OF late(3) good_start, of v job now] assms(2) by (simp add: machine_ok_def)
  then show ?thesis using late(1,2) by (intro machine_ok_good [OF assms(2)]) (auto simp: while_waiting_def split: sum.split)
next
  case (ended env exit now job r)
  then have "good base (svc_store v) v'"
    using child_steps_good(1) [OF ended(3) good_start, of v job exit now] assms(2) by (simp add: machine_ok_def)
  then show ?thesis using ended(1,2) by (intro machine_ok_good [OF assms(2)]) (auto simp: while_waiting_def split: sum.split)
next
  case (interrupted env)
  have "good base (svc_store v) (snd (cancel_active_child env CancelAction v))"
    using good_start [of base v] assms(2)
    by (auto simp: cancel_active_child_def Let_def machine_ok_def intro!: good_intros split: option.split)
  then show ?thesis using machine_ok_good [OF assms(2)] interrupted by simp
next
  case (restart env)
  then show ?thesis using run_ipc_server_ok [OF restart(2) _ restart(3)] assms(2) by (simp add: machine_ok_def)
qed

lemma machine_reachable: "server_reachable base pc v \<Longrightarrow> machine_ok base pc v"
proof (induction rule: server_reachable.induct)
  case (initial env limits now sb gb tb r q document)
  have "q_jobs q = []" "q_history q = []"
    using initial(1) by (auto simp: initialize_documents_def and_then_Inr_iff Let_def)
  then have "both_ok base (created_store r q)" by (simp add: both_ok_def queue_ok_def created_store_def)
  then show ?case using created_inv [OF initial(1)] initial(2)
    by (simp add: machine_ok_def new_service_def idle_server_def store_ok_def same_server_def)
qed (rule machine_step)

text \<open>C5: A completed job has a receipt. Whatever requests arrive in whatever order, whichever
  saves fail, whatever is written to the receipt files and however often the server crashes and
  recovers: when the history says that a job was completed, in memory or on disk, its entry
  holds the fingerprint of a receipt that the server's own key has signed, and that receipt is
  for the very plan whose digest the entry shows.\<close>

theorem completed_jobs_attested:
  assumes "server_reachable base pc v"
    and "e \<in> set (q_history (queue (svc_store v))) \<union> set (q_history (queue_file (svc_store v)))"
    and "he_state (hist_public e) = Completed"
  shows "\<exists>bytes secret public receipt.
     sd_secret base = Some secret \<and> public_key_of (sd_receipts base) secret = Inr public
   \<and> sd_read_receipt base bytes = Some receipt
   \<and> verify_signature (sd_receipts base) receipt public = Inr ()
   \<and> as_hex (pay_plan_digest (rec_payload receipt)) = he_plan_digest (hist_public e)
   \<and> sd_fingerprint base bytes = he_receipt (hist_public e) \<and> he_receipt (hist_public e) \<noteq> None"
proof -
  have "both_ok base (svc_store v)" using machine_reachable [OF assms(1)] by (simp add: machine_ok_def store_ok_def)
  then have "entry_ok base e" using assms(2) by (auto simp: both_ok_def queue_ok_def)
  then show ?thesis using assms(3) by (simp add: entry_ok_def attests_def)
qed

section \<open>A run of the machine\<close>

definition demo_base :: sched_env where
  "demo_base = \<lparr>sd_server = demo_server_env, sd_receipts = demo_env, sd_secret = Some demo_secret,
     sd_read_receipt = (\<lambda>_. Some demo_receipt), sd_fingerprint = (\<lambda>_. Some demo_fingerprint),
     sd_root = [RootDir, Normal ''state''], sd_process_id = 40, sd_write_plan = (\<lambda>_. True), sd_write_lease = (\<lambda>_. True),
     sd_open_lease = (\<lambda>_. True), sd_lock_lease = (\<lambda>_. Locked), sd_unlock_lease = (\<lambda>_. True), sd_remove_receipt = (\<lambda>_. True),
     sd_spawn = (\<lambda>_. Some 41), sd_start_readers = True, sd_render = (\<lambda>_. ''failed'')\<rparr>"

lemma demo_same_server: "same_server demo_base demo_base"
  by (simp add: same_server_def demo_base_def demo_store_env_atomic)
    (simp add: demo_server_env_def demo_env_def)

lemma demo_request_valid:
  assumes "validate_id (reg_server_id (registry s)) = Inr ()" "validate_id grant_id = Inr ()"
    and "operation_validate operation = Inr ()" and "length bytes = 32"
  shows "request_validate (demo_request s grant_id (encode_hex bytes) operation) = Inr ()"
proof -
  have "CHR 0x00 \<notin> set (encode_hex bytes)"
    using encode_hex_lower [of "CHR 0x00" bytes] by (auto simp: is_ascii_hexdigit_def is_ascii_digit_def less_eq_char_def)
  then show ?thesis
    using assms by (simp add: request_validate_def demo_request_def Ipc_Contracts.require_schema_def validate_id_def
        Ipc_Contracts.validate_text_def MAX_ID_BYTES_def is_ascii_alphanumeric_def is_ascii_lowercase_def
        is_ascii_uppercase_def is_ascii_digit_def less_eq_char_def)
qed

lemma demo_step:
  assumes "server_reachable demo_base Looking v" and "request_validate req = Inr ()"
    and "fresh_job_id (svc_store v) (ri_job_bytes inputs)" "fresh_grant_id (svc_store v) (ri_grant_bytes inputs)"
    and "dispatch_request demo_server_env inputs req (svc_shared v) = (Inr res, sh)"
  shows "server_reachable demo_base Looking (v\<lparr>svc_shared := sh\<rparr>)"
proof -
  have "sd_server demo_base = demo_server_env" by (simp add: demo_base_def)
  then show ?thesis
    using server_reachable.moved [OF assms(1) server_step.request [OF demo_same_server assms(2-4)]] assms(5) by simp
qed

definition grant_inputs :: request_inputs where
  "grant_inputs = \<lparr>ri_now = Some 6, ri_later = None, ri_job_bytes = None,
     ri_grant_bytes = Some (replicate 16 4), ri_token_bytes = Some (replicate 32 5)\<rparr>"

definition submit_inputs :: request_inputs where
  "submit_inputs = \<lparr>ri_now = Some 9, ri_later = None, ri_job_bytes = Some (replicate 16 3),
     ri_grant_bytes = None, ri_token_bytes = None\<rparr>"

text \<open>A server on which the administrator made a grant.\<close>

lemma demo_granted:
  obtains t grant_id where "server_reachable demo_base Looking (new_service t)"
    and "store_reachable sample_serializer t" and "validate_registry (registry t) = Inr ()"
    and "reg_limits (registry t) = limits_default" and "validate_id grant_id = Inr ()"
    and "q_jobs (queue t) = []" "q_history (queue t) = []" "q_next_sequence (queue t) = 1" "q_generation (queue t) = 1"
    and "authenticate (demo_store_env True) t (reg_server_id (registry t)) grant_id (encode_hex (replicate 32 5)) 9
      = Inr \<lparr>auth_grant_id = grant_id, auth_policy = sample_policy\<rparr>"
proof -
  obtain s document t where s: "store_reachable sample_serializer s"
    and created: "create_grant (demo_store_env True) sample_policy 6 (Some (replicate 16 4)) (Some (replicate 32 5)) s = (Inr document, t)"
    and t: "store_reachable sample_serializer t" "doc_policy document = sample_policy" "validate_registry (registry t) = Inr ()"
      "reg_generation (registry t) = 2" "\<exists>g. map_of (reg_grants (registry t)) (doc_grant_id document) = Some g \<and> \<not> manages g"
      "queue t = queue s" "reg_limits (registry t) = limits_default"
    and origin: "\<exists>r q d. initialize_documents (demo_store_env True) limits_default 5 (Some (replicate 16 0))
      (Some (replicate 16 1)) (Some (replicate 32 2)) = Inr (r, q, d) \<and> s = created_store r q"
    and queue: "q_jobs (queue s) = []" "q_history (queue s) = []" "q_next_sequence (queue s) = 1" "q_generation (queue s) = 1"
    and admin: "\<exists>i. random_id ''grant'' (Some (replicate 16 1)) = Inr i
      \<and> reg_grants (registry s) = [(i, demo_admin (reg_server_id (registry s)) i)]"
    and fresh: "fresh_grant_id s (Some (replicate 16 4))" and registry: "validate_registry (registry s) = Inr ()"
    by (rule demo_grant)
  from admin obtain j where j: "reg_grants (registry s) = [(j, demo_admin (reg_server_id (registry s)) j)]" by blast
  have ids: "validate_id (reg_server_id (registry s)) = Inr ()" "validate_id j = Inr ()"
    using registry by (auto simp: validate_registry_def and_then_unit_iff j try_all_Inr_iff validate_stored_grant_def)
  from origin obtain r q d where init: "initialize_documents (demo_store_env True) limits_default 5 (Some (replicate 16 0))
      (Some (replicate 16 1)) (Some (replicate 32 2)) = Inr (r, q, d)" and sq: "s = created_store r q" by blast
  have store: "sd_store demo_base = demo_store_env True" by (simp add: demo_base_def)
  have start: "server_reachable demo_base Looking (new_service s)"
    using server_reachable.initial [of demo_base, OF _ demo_same_server] init by (simp add: store sq)
  let ?req = "demo_request s j (encode_hex (replicate 32 2)) (CreateGrant sample_policy)"
  have "authenticate (demo_store_env True) s (reg_server_id (registry s)) j demo_token 6 = Inr \<lparr>auth_grant_id = j, auth_policy = admin_policy\<rparr>"
    by (rule demo_admin_authenticates [OF j])
  then have d: "dispatch_request demo_server_env grant_inputs ?req (idle_server s) = (Inr (Grant document), (idle_server s)\<lparr>sh_store := t\<rparr>)"
    using created
    by (simp add: dispatch_request_def demo_request_def grant_inputs_def idle_server_def serve_def Let_def demo_token_def
        require_capability_def has_capability_def admin_policy_fields on_store_def)
  have "server_reachable demo_base Looking ((new_service s)\<lparr>svc_shared := (idle_server s)\<lparr>sh_store := t\<rparr>\<rparr>)"
    by (rule demo_step [OF start, of ?req grant_inputs "Grant document"])
      (use ids fresh d queue in \<open>simp_all add: demo_request_valid sample_policy_valid new_service_def grant_inputs_def fresh_job_id_def
        idle_server_def random_id_def\<close>)
  then have reach: "server_reachable demo_base Looking (new_service t)" by (simp add: new_service_def idle_server_def)
  have "doc_token document = encode_hex (replicate 32 5)" "random_id ''grant'' (Some (replicate 16 4)) = Inr (doc_grant_id document)"
    using created by (auto simp: create_grant_def and_then_Inr_iff Let_def random_token_def demo_store_env_def st_then_Inr_iff split: sum.splits)
  note doc = this
  have "validate_id (doc_grant_id document) = Inr ()"
    using doc(2) by (rule random_id_valid) (auto simp: is_ascii_alphanumeric_def is_ascii_uppercase_def
        is_ascii_lowercase_def is_ascii_digit_def less_eq_char_def)
  moreover have "authenticate (demo_store_env True) t (reg_server_id (registry t)) (doc_grant_id document) (encode_hex (replicate 32 5)) 9
      = Inr \<lparr>auth_grant_id = doc_grant_id document, auth_policy = sample_policy\<rparr>"
    using created_grant_stored [OF s created] t(2) doc(1)
    by (simp add: authenticate_def issued_grant_def new_grant_summary_def token_digest_def decode_encode_hex
        sample_policy_def grant_policy_new_def)
  ultimately show thesis using that [OF reach t(1,3,7)] queue t(6) by simp
qed

text \<open>The same server with a job that was submitted through it.\<close>

lemma demo_submitted:
  obtains t i owner report where "server_reachable demo_base Looking (new_service t)"
    and "store_inv sample_serializer t" and "validate_id i = Inr ()"
    and "q_jobs (queue t) = [(i, submitted_job i owner 1 demo_spec report 9)]" and "q_history (queue t) = []"
    and "q_generation (queue t) = 2" and "reg_limits (registry t) = limits_default"
    and "plan_job demo_server_env limits_default demo_spec = Inr report"
proof -
  let ?env = "demo_store_env True" and ?b = "Some (replicate 16 (3::u8))"
  obtain s g where reach: "server_reachable demo_base Looking (new_service s)" and s: "store_reachable sample_serializer s"
    and registry: "validate_registry (registry s) = Inr ()"
    and limits: "reg_limits (registry s) = limits_default" and g: "validate_id g = Inr ()"
    and queue: "q_jobs (queue s) = []" "q_history (queue s) = []" "q_next_sequence (queue s) = 1" "q_generation (queue s) = 1"
    and auth: "authenticate ?env s (reg_server_id (registry s)) g (encode_hex (replicate 32 5)) 9
      = Inr \<lparr>auth_grant_id = g, auth_policy = sample_policy\<rparr>" by (rule demo_granted)
  obtain report where report: "plan_job demo_server_env limits_default demo_spec = Inr report" using demo_plan_job by blast
  have valid_report: "dry_run_validate sample_serializer report = Inr ()"
    using report by (auto simp: plan_job_def summarize_plan_def and_then_Inr_iff and_then_unit_iff Let_def)
  obtain i where i: "random_id ''job'' ?b = Inr i" by (simp add: random_id_def)
  have valid: "validate_id i = Inr ()"
    using i by (rule random_id_valid) (auto simp: is_ascii_alphanumeric_def is_ascii_uppercase_def
        is_ascii_lowercase_def is_ascii_digit_def less_eq_char_def)
  obtain u where u: "insert_job ?env g demo_spec report 9 ?b s =
      st_then (save_queue ?env u) (\<lambda>_ s3. (Inr (status_or s3 i (new_job_status i demo_spec report 9)), s3))"
    and jobs: "q_jobs (queue u) = bt_insert i (submitted_job i g (q_next_sequence (queue s)) demo_spec report 9) (q_jobs (queue s))"
    and hist: "q_history (queue u) = q_history (queue s)"
    and gen: "q_generation (queue u) = q_generation (queue s)" and reg: "registry u = registry s"
    by (rule insert_job_saves [of s demo_spec ?env report ?b i g 9])
      (simp_all add: queue limits demo_room demo_spec_valid valid_report i valid checked_add_def)
  let ?t = "snd (save_queue ?env u)"
  have "store_inv (se_ser_plan ?env) s" using reachable_inv [OF s] by simp
  from insert_job_inv [OF this g, of demo_spec report 9 ?b] have inv: "store_inv sample_serializer u" by (simp add: u)
  have saved: "fst (save_queue ?env u) = Inr ()"
    by (rule save_queue_succeeds [where g = 2]) (use inv in \<open>simp_all add: gen queue(4) checked_add_def demo_store_env_def\<close>)
  have gen2: "q_generation (queue ?t) = 2"
    using save_queue_generation [OF saved] by (simp add: gen queue(4) checked_add_def)
  obtain status where inserted: "insert_job ?env g demo_spec report 9 ?b s = (Inr status, ?t)"
    using u saved by (cases "save_queue ?env u") simp
  let ?req = "demo_request s g (encode_hex (replicate 32 5)) (SubmitJob demo_spec)"
  have "has_capability \<lparr>auth_grant_id = g, auth_policy = sample_policy\<rparr> Submit"
    by (simp add: has_capability_def sample_policy_def grant_policy_new_def)
  then have admitted: "admit_and_plan demo_server_env \<lparr>auth_grant_id = g, auth_policy = sample_policy\<rparr> Submit demo_spec (idle_server s)
      = Inr (demo_spec, report)"
    using report limits demo_job_admitted [of "\<lparr>auth_grant_id = g, auth_policy = sample_policy\<rparr>"]
    by (simp add: admit_and_plan_def require_capability_def idle_server_def)
  have d: "dispatch_request demo_server_env submit_inputs ?req (idle_server s) = (Inr (Submitted status), (idle_server s)\<lparr>sh_store := ?t\<rparr>)"
    using auth inserted
    by (simp add: dispatch_request_def demo_request_def submit_inputs_def serve_def Let_def idle_server_def)
      (simp add: admitted [unfolded idle_server_def] on_store_def)
  have "server_reachable demo_base Looking ((new_service s)\<lparr>svc_shared := (idle_server s)\<lparr>sh_store := ?t\<rparr>\<rparr>)"
    by (rule demo_step [OF reach, of ?req submit_inputs "Submitted status"])
      (use g registry d queue in \<open>simp_all add: demo_request_valid demo_spec_valid new_service_def submit_inputs_def fresh_job_id_def
        idle_server_def random_id_def fresh_grant_id_def validate_registry_def and_then_unit_iff\<close>)
  then have "server_reachable demo_base Looking (new_service ?t)" by (simp add: new_service_def idle_server_def)
  moreover have "q_jobs (queue ?t) = [(i, submitted_job i g 1 demo_spec report 9)]" using jobs by (simp add: queue)
  moreover have "registry ?t = registry s" using reg by simp
  ultimately show thesis using that inv valid report gen2 hist queue(2) limits by simp
qed

lemma demo_validated: "validate_completed_receipt demo_base bytes sample_plan = Inr demo_fingerprint"
proof -
  have "verify_plan demo_env demo_receipt sample_plan = Inr ()"
    using demo_structure demo_matches sample_plan_valid
    by (simp add: verify_plan_def demo_receipt_def) (simp add: demo_env_def lift_def)
  then show ?thesis
    using demo_secret_valid demo_public_key_of demo_structure demo_signature_verified
    by (simp add: validate_completed_receipt_def demo_base_def)
qed

lemma demo_prepared:
  assumes "job_spec job = demo_spec"
  shows "\<exists>w. prepare_files demo_base job v = (Inr (), w) \<and> svc_store w = svc_store v"
proof -
  have "validate_bound_job_paths (demo_store_env True) demo_spec = Inr ()"
    using demo_plan_job by (auto simp: plan_job_def and_then_Inr_iff)
  then show ?thesis
    using assms by (simp add: prepare_files_def Let_def check_def perform_def write_control_file_def open_job_lease_def
        open_existing_job_lease_def demo_base_def)
qed

theorem completed_jobs_attested_witness:
  "\<exists>v e. server_reachable demo_base Looking v \<and> q_history (queue (svc_store v)) = [e]
     \<and> he_state (hist_public e) = Completed \<and> he_receipt (hist_public e) = Some demo_fingerprint
     \<and> (\<exists>receipt :: signed_receipt. as_hex (pay_plan_digest (rec_payload receipt)) = he_plan_digest (hist_public e))"
proof -
  let ?env = "demo_store_env True"
  obtain t i g report where reach: "server_reachable demo_base Looking (new_service t)"
    and inv: "store_inv sample_serializer t" and valid: "validate_id i = Inr ()"
    and jobs: "q_jobs (queue t) = [(i, submitted_job i g 1 demo_spec report 9)]" and history: "q_history (queue t) = []"
    and gen: "q_generation (queue t) = 2" and limits: "reg_limits (registry t) = limits_default"
    and report: "plan_job demo_server_env limits_default demo_spec = Inr report" by (rule demo_submitted)
  let ?job = "submitted_job i g 1 demo_spec report 9"
  let ?v = "set_store (t\<lparr>state_files := receipt_name i # state_files t\<rparr>) ((new_service t)\<lparr>svc_receipts := (\<lambda>_. [])(i := [])\<rparr>)"
  let ?s = "svc_store ?v"
  have s: "?s = t\<lparr>state_files := receipt_name i # state_files t\<rparr>" by (simp add: set_store_def)
  have id: "st_job_id (job_status ?job) = i" "job_spec ?job = demo_spec" "job_dry_run ?job = report" "st_attempt (job_status ?job) = 0"
    by (simp_all add: submitted_job_def new_job_status_def)
  have plan: "dry_plan report = sample_plan"
    using report by (auto simp: plan_job_def summarize_plan_def and_then_Inr_iff Let_def demo_server_env_def)
  have v: "server_reachable demo_base Looking ?v"
    using server_reachable.moved [OF reach server_step.receipt_written [of demo_base Looking "new_service t" i "[]"]]
    by (simp add: new_service_def idle_server_def)
  have "recovery_jobs ?s = []"
    by (simp add: recovery_jobs_def active_jobs_def s jobs in_recovery_def submitted_job_state)
  then have looked: "server_reachable demo_base (Recovery []) ?v"
    using server_reachable.moved [OF v server_step.look] by simp
  have "next_job ?s = Some ?job"
    by (simp add: next_job_def active_jobs_def s jobs is_queued_def submitted_job_state better_def)
  then have "select_job demo_base (Some 12) ?v = (Inr (Inr ?job), ?v)"
    by (simp add: select_job_def shutdown_requested_def set_store_def new_service_def idle_server_def)
  from server_reachable.moved [OF looked server_step.select [OF demo_same_server this]]
  have selected: "server_reachable demo_base (Selected ?job) ?v" by (simp add: after_selection_def)
  have inv': "store_inv (se_ser_plan ?env) ?s" using inv by (simp add: s store_inv_iff)
  have stored: "map_of (q_jobs (queue ?s)) i = Some ?job" by (simp add: s jobs)
  have digest: "validate_digest (dry_plan_digest report) = Inr ()"
    using report by (auto simp: plan_job_def summarize_plan_def and_then_Inr_iff Let_def dry_run_validate_def)
  have status: "job_status_validate (job_status (finish_job Completed (Some demo_fingerprint) None 12 ?job)) = Inr ()"
    using valid digest by (simp add: job_status_validate_iff finish_job_def submitted_job_def new_job_status_def
        demo_spec_def job_spec_new_def terminal_def MIN_PRIORITY_def MAX_PRIORITY_def)
  obtain u where u: "terminalize ?env i Completed (Some demo_fingerprint) None None 12 ?s
      = (Inr (job_status (finish_job Completed (Some demo_fingerprint) None 12 ?job)), u)"
    by (rule terminalize_saved [OF inv' stored _ status, of 3])
      (simp_all add: terminal_def s gen checked_add_def demo_store_env_def)
  from terminalize_shape [OF u] have entry: "q_history (queue u) = [history_record (finish_job Completed (Some demo_fingerprint) None 12 ?job) 12 None]"
    using stored by (auto simp: s history limits demo_room)
  obtain w where w: "prepare_files demo_base ?job ?v = (Inr (), w)" "svc_store w = ?s"
    using demo_prepared [OF id(2), of ?v] by blast
  have "settle_receipt demo_base (Some 12) ?job w
      = (Inr True, cleanup_job_control_files i (set_store u w))"
    using demo_validated u
    by (simp add: settle_receipt_def Let_def id receipt_of_def w(2) plan complete_def in_store_def)
      (simp add: s demo_base_def)
  then have "start_job demo_base (Some 12) ?job ?v = (Inr False, cleanup_job_control_files i (set_store u w))"
    using w by (simp add: start_job_def Let_def)
  then have "serve_job demo_base (Some 12) ?job ?v = (Inr (Served, ?job), cleanup_job_control_files i (set_store u w))"
    by (simp add: serve_job_def replan_job_def id or_failed_def)
  from server_reachable.moved [OF selected server_step.serve [OF demo_same_server this]]
  have final: "server_reachable demo_base Looking (cleanup_job_control_files i (set_store u w))" by (simp add: after_serving_def)
  let ?final = "cleanup_job_control_files i (set_store u w)"
  have store: "svc_store ?final = u" by (simp add: cleanup_job_control_files_def set_store_def)
  let ?e = "history_record (finish_job Completed (Some demo_fingerprint) None 12 ?job) 12 None"
  have e: "he_state (hist_public ?e) = Completed" "he_receipt (hist_public ?e) = Some demo_fingerprint"
    by (simp_all add: history_record_def finish_job_def)
  have "?e \<in> set (q_history (queue (svc_store ?final))) \<union> set (q_history (queue_file (svc_store ?final)))"
    by (simp add: store entry)
  from completed_jobs_attested [OF final this e(1)]
  obtain receipt :: signed_receipt where "as_hex (pay_plan_digest (rec_payload receipt)) = he_plan_digest (hist_public ?e)" by blast
  moreover have "q_history (queue (svc_store ?final)) = [?e]" by (simp add: store entry)
  ultimately show ?thesis using final e by blast
qed

end
