(* ===== verification/Ipc_Races.thy ===== *)
theory Ipc_Races
  imports Ipc_Service
begin

text \<open>
  Requests that meet the scheduler at a bad moment (\<open>src/src/ipc/server.rs\<close>,
  \<open>src/src/ipc/storage.rs\<close>): what a restart decides about an interrupted job, a cancellation that
  arrives after the child has already stopped for a pause, and a pause that arrives after the
  scheduler has already chosen the job.
\<close>

section \<open>A cancellation after the child has paused\<close>

lemma st_then_assoc: "st_then (st_then m f) g = st_then m (\<lambda>x s. st_then (f x s) g)"
  by (cases m; cases "fst m") auto

lemma status_of_active:
  assumes "map_of (q_jobs (queue s)) k = Some job" and "st_state (job_status job) \<noteq> Queued"
  shows "store_status s k = Some (job_owner_grant_id job, job_status job)"
  using assms by (simp add: store_status_def status_or_def status_with_position_def is_queued_def)

lemma mark_paused_refused:
  assumes "map_of (q_jobs (queue s)) k = Some job" and "st_state (job_status job) \<noteq> PauseRequested"
  shows "mark_paused env k s = (Inl NoPauseRequest, s)"
  using assms by (simp add: mark_paused_def)

lemma failure_without_receipt:
  assumes "map_of (q_jobs (queue (svc_store v))) (st_job_id (job_status job)) = Some stored"
    and "receipt_of v (st_job_id (job_status job)) = None" and "sh_active (svc_shared v) = None"
  shows "terminalize_scheduler_failure env (Some t) job message code v =
    st_then (in_store (terminalize (sd_store env) (st_job_id (job_status job)) Failed None (Some message) (Some code) t) v)
      (\<lambda>_ v. (Inr (), cleanup_job_control_files (st_job_id (job_status job)) v))"
  using assms by (simp add: terminalize_scheduler_failure_def Let_def stop_active_def)

lemma child_ended_paused_late:
  assumes job: "map_of (q_jobs (queue (svc_store v))) (st_job_id (job_status job)) = Some stored"
      "st_state (job_status stored) = CancelRequested"
    and child: "cx_code exit \<noteq> Some 0" "stderr_says exit PAUSED_MARKER"
    and none: "receipt_of v (st_job_id (job_status job)) = None"
  shows "child_ended env exit (Some t) job v =
    st_then (in_store (terminalize (sd_store env) (st_job_id (job_status job)) Failed None
        (Some (''IPC scheduler failed to execute the job: '' @ sd_render env (InStore NoPauseRequest)))
        (Some ''scheduler-failed'') t) (set_active None v))
      (\<lambda>_ v. (Inr Served, cleanup_job_control_files (st_job_id (job_status job)) v))"
proof -
  let ?k = "st_job_id (job_status job)" and ?v = "set_active None v"
  have v: "svc_store ?v = svc_store v" "sh_active (svc_shared ?v) = None" "receipt_of ?v ?k = None"
    using none by (simp_all add: set_active_def receipt_of_def split: if_splits)
  have stored: "map_of (q_jobs (queue (svc_store ?v))) ?k = Some stored" using job v by simp
  have status: "store_status (svc_store v) ?k = Some (job_owner_grant_id stored, job_status stored)"
    by (rule status_of_active [OF job(1)]) (simp add: job(2))
  have "mark_paused (sd_store env) ?k (svc_store v) = (Inl NoPauseRequest, svc_store v)"
    by (rule mark_paused_refused [OF job(1)]) (simp add: job(2))
  moreover have "set_store (svc_store v) ?v = ?v" by (simp add: set_store_def set_active_def)
  ultimately have "in_store (mark_paused (sd_store env) ?k) ?v = (Inl (InStore NoPauseRequest), ?v)"
    using v by (simp add: in_store_def)
  then have "finish_job_run env exit (Some t) job v = (Inl (InStore NoPauseRequest), ?v)"
    using child status job(2) v by (simp add: finish_job_run_def Let_def settle_exit_def)
  then show ?thesis
    using failure_without_receipt [OF stored v(3,2), of env t]
    by (simp add: child_ended_def or_failed_def st_then_assoc)
qed

text \<open>C34: A cancellation that arrives after the child has paused is recorded as a failure. When
  the child of a job has stopped with the pause marker, because a pause was asked for first, and
  the job's cancellation is requested before the scheduler has seen the child end, the scheduler
  asks for \<open>mark_paused\<close>, which refuses; the job is then closed as \<open>Failed\<close> with the code
  \<open>scheduler-failed\<close>, although it was cancelled and nothing failed.\<close>

theorem late_cancel_recorded_as_failure:
  assumes "map_of (q_jobs (queue (svc_store v))) (st_job_id (job_status job)) = Some stored"
    and "st_state (job_status stored) = CancelRequested"
    and "cx_code exit \<noteq> Some 0" and "stderr_says exit PAUSED_MARKER"
    and "receipt_of v (st_job_id (job_status job)) = None"
    and "1 \<le> unat (max_history_entries (reg_limits (registry (svc_store v))))"
    and "child_ended env exit (Some t) job v = (Inr outcome, v')"
  shows "map_of (q_jobs (queue (svc_store v'))) (st_job_id (job_status job)) = None
    \<and> (\<exists>older e. q_history (queue (svc_store v')) = older @ [e] \<and> he_job_id (hist_public e) = st_job_id (job_status stored)
        \<and> he_state (hist_public e) = Failed \<and> he_error_code (hist_public e) = Some ''scheduler-failed'')"
proof -
  let ?k = "st_job_id (job_status job)"
  let ?message = "''IPC scheduler failed to execute the job: '' @ sd_render env (InStore NoPauseRequest)"
  note shape = child_ended_paused_late [OF assms(1-5), of env t]
  obtain r u where ended: "terminalize (sd_store env) ?k Failed None (Some ?message) (Some ''scheduler-failed'') t (svc_store v) = (r, u)"
    by fastforce
  have "svc_store (set_active None v) = svc_store v" by (simp add: set_active_def)
  then have run: "child_ended env exit (Some t) job v = st_then (map_err InStore r, set_store u (set_active None v))
      (\<lambda>_ v. (Inr Served, cleanup_job_control_files ?k v))"
    using ended by (simp only: shape in_store_def prod.case)
  then obtain status where "r = Inr status" and v': "svc_store v' = u"
    using assms(7) by (cases r) (auto simp: cleanup_job_control_files_def set_store_def)
  with ended have "terminalize (sd_store env) ?k Failed None (Some ?message) (Some ''scheduler-failed'') t (svc_store v) = (Inr status, u)"
    by simp
  from terminalize_shape [OF this]
  have jobs: "q_jobs (queue u) = bt_remove ?k (q_jobs (queue (svc_store v)))"
    and history: "q_history (queue u) = drop (length (q_history (queue (svc_store v))) + 1
          - unat (max_history_entries (reg_limits (registry (svc_store v)))))
        (q_history (queue (svc_store v)) @ [history_record (finish_job Failed None (Some ?message) t stored) t (Some ''scheduler-failed'')])"
    using assms(1) by auto
  let ?e = "history_record (finish_job Failed None (Some ?message) t stored) t (Some ''scheduler-failed'')"
  have "he_job_id (hist_public ?e) = st_job_id (job_status stored)" "he_state (hist_public ?e) = Failed"
    "he_error_code (hist_public ?e) = Some ''scheduler-failed''"
    by (simp_all add: history_record_def finish_job_def)
  then show ?thesis using jobs history assms(6) v' by (auto simp: bt_get_remove)
qed

section \<open>A pause after the job was chosen\<close>

text \<open>C35: A pause that was acknowledged does not stop a job that was already chosen. When a queued
  job is paused by a request, the job is \<open>Paused\<close> in memory and on disk and the pause is
  acknowledged; but \<open>mark_running\<close> accepts a paused job, so the scheduler, which chose the job
  while it was still queued, starts it all the same.\<close>

theorem acknowledged_pause_overtaken:
  assumes "store_inv (se_ser_plan env) s" and "map_of (q_jobs (queue s)) k = Some job"
    and "st_state (job_status job) = Queued" "st_resumable (job_status job)"
    and "unat (q_generation (queue s)) + 2 < 2 ^ 64" and "unat (st_attempt (job_status job)) + 1 < 2 ^ 32"
    and "\<And>q old. fst (se_write_queue env q old)"
  shows "\<exists>paused status t started u.
     request_control env k True s = (Inr (paused, status), t)
   \<and> map_option (st_state \<circ> job_status) (map_of (q_jobs (queue t)) k) = Some Paused
   \<and> mark_running env k process now t = (Inr started, u)
   \<and> map_option (st_state \<circ> job_status) (map_of (q_jobs (queue u)) k) = Some Running"
proof -
  have "control_target True job = Inr Paused" using assms(3,4) by (simp add: control_target_def)
  moreover have "checked_add (q_generation (queue s)) 1 = Some (q_generation (queue s) + 1)"
    using assms(5) by (simp add: checked_add_def)
  ultimately obtain t where t: "request_control env k True s = (Inr (set_state Paused job, job_status (set_state Paused job)), t)"
    "store_inv (se_ser_plan env) t" "q_generation (queue t) = q_generation (queue s) + 1"
    "q_jobs (queue t) = bt_update (set_state Paused) k (q_jobs (queue s))"
    using request_control_saved [OF assms(1,2) _ _ assms(7), of True Paused "q_generation (queue s) + 1"] by metis
  have paused: "map_of (q_jobs (queue t)) k = Some (set_state Paused job)" using t(4) assms(2) by (simp add: bt_get_update)
  let ?f = "count_attempt (st_attempt (job_status job) + 1) process \<circ> start_attempt now"
  have shape: "mark_running env k process now t = st_then (save_queue env (update_job ?f k t))
      (\<lambda>_ s'. (Inr (job_status (?f (set_state Paused job))), s'))"
    using paused assms(6) by (simp add: mark_running_def checked_add_def set_state_def)
  have "store_inv (se_ser_plan env) (snd (mark_running env k process now t))" by (rule mark_running_inv [OF t(2)])
  then have "store_inv (se_ser_plan env) (update_job ?f k t)" by (simp add: shape)
  then have "fst (save_queue env (update_job ?f k t)) = Inr ()"
    using assms(5,7) t(3)
    by (intro save_queue_succeeds [where g = "q_generation (queue s) + 1 + 1"])
      (simp_all add: update_job_def checked_add_def unat_word_ariths(1))
  then obtain u where saved: "save_queue env (update_job ?f k t) = (Inr (), u)" by (cases "save_queue env (update_job ?f k t)") simp
  have "q_jobs (queue u) = bt_update ?f k (q_jobs (queue t))" using save_queue_frame(1) [of env "update_job ?f k t"] by (simp add: saved)
  then have "map_option (st_state \<circ> job_status) (map_of (q_jobs (queue u)) k) = Some Running"
    using paused by (simp add: bt_get_update count_attempt_def start_attempt_def)
  moreover have "mark_running env k process now t = (Inr (job_status (?f (set_state Paused job))), u)" by (simp add: shape saved)
  moreover have "map_option (st_state \<circ> job_status) (map_of (q_jobs (queue t)) k) = Some Paused" by (simp add: paused set_state_def)
  ultimately show ?thesis using t(1) by blast
qed

section \<open>Concrete races\<close>

definition batch_spec :: job_spec where "batch_spec = job_spec_new BatchJob ''/in'' ''/out''"

lemma batch_spec_valid: "job_spec_validate batch_spec = Inr ()"
  by (simp add: job_spec_validate_def batch_spec_def job_spec_new_def Ipc_Contracts.validate_text_def
      MAX_PATH_BYTES_def MAX_ARGUMENTS_def MIN_PRIORITY_def MAX_PRIORITY_def)

lemma batch_job_state:
  "st_state (job_status (submitted_job i g n batch_spec report t)) = Queued"
  "st_resumable (job_status (submitted_job i g n batch_spec report t))"
  "st_attempt (job_status (submitted_job i g n batch_spec report t)) = 0"
  "st_job_id (job_status (submitted_job i g n batch_spec report t)) = i"
  by (simp_all add: submitted_job_def new_job_status_def batch_spec_def job_spec_new_def)

theorem acknowledged_pause_overtaken_witness:
  "\<exists>s i t u r st. store_reachable sample_serializer s \<and> next_job s \<noteq> None
     \<and> request_control (demo_store_env True) i True s = (Inr r, t)
     \<and> map_option (st_state \<circ> job_status) (map_of (q_jobs (queue t)) i) = Some Paused
     \<and> mark_running (demo_store_env True) i 41 10 t = (Inr st, u)
     \<and> map_option (st_state \<circ> job_status) (map_of (q_jobs (queue u)) i) = Some Running"
proof -
  let ?env = "demo_store_env True"
  obtain s i where s: "store_reachable sample_serializer s"
    "q_jobs (queue s) = [(i, submitted_job i demo_owner 1 batch_spec demo_report 9)]"
    "q_history (queue s) = []" "q_generation (queue s) = 2" by (rule demo_job_of [OF batch_spec_valid])
  let ?job = "submitted_job i demo_owner 1 batch_spec demo_report 9"
  have inv: "store_inv (se_ser_plan ?env) s" using reachable_inv [OF s(1)] by simp
  have stored: "map_of (q_jobs (queue s)) i = Some ?job" by (simp add: s(2))
  have "next_job s \<noteq> None" by (simp add: next_job_none active_jobs_def s(2) is_queued_def batch_job_state)
  moreover have "\<And>q old. fst (se_write_queue ?env q old)" by (simp add: demo_store_env_def)
  ultimately show ?thesis
    using acknowledged_pause_overtaken [OF inv stored batch_job_state(1,2), of 41 10] s(1)
    by (simp add: s(4) batch_job_state) blast
qed

definition paused_exit :: child_exit where
  "paused_exit = \<lparr>cx_code = Some 1, cx_stderr = as_bytes PAUSED_MARKER, cx_timed_out = False\<rparr>"

lemma paused_exit_says: "stderr_says paused_exit PAUSED_MARKER"
proof -
  have "as_bytes (bytes_string (as_bytes PAUSED_MARKER)) = as_bytes PAUSED_MARKER" by simp
  then have "bytes_string (cx_stderr paused_exit) = PAUSED_MARKER" by (simp only: as_bytes_inj) (simp add: paused_exit_def)
  moreover have "to_string_lossy PAUSED_MARKER = PAUSED_MARKER"
    by (rule to_string_lossy_valid) (simp add: utf8_text_def char_codes_def utf8_head_def PAUSED_MARKER_def)
  moreover have "contains_text PAUSED_MARKER PAUSED_MARKER" by (simp add: PAUSED_MARKER_def)
  ultimately show ?thesis by (simp add: stderr_says_def)
qed

theorem late_cancel_recorded_as_failure_witness:
  "\<exists>s job v' outcome e. store_inv sample_serializer s
     \<and> map_option (st_state \<circ> job_status) (map_of (q_jobs (queue s)) (st_job_id (job_status job))) = Some CancelRequested
     \<and> child_ended demo_base paused_exit (Some 12) job (new_service s) = (Inr outcome, v')
     \<and> q_history (queue (svc_store v')) = [e] \<and> he_state (hist_public e) = Failed"
proof -
  let ?env = "demo_store_env True"
  obtain s i where s: "store_reachable sample_serializer s"
    "q_jobs (queue s) = [(i, submitted_job i demo_owner 1 batch_spec demo_report 9)]"
    "q_history (queue s) = []" "q_generation (queue s) = 2" "validate_id i = Inr ()" by (rule demo_job_of [OF batch_spec_valid])
  let ?job = "submitted_job i demo_owner 1 batch_spec demo_report 9"
  have inv: "store_inv (se_ser_plan ?env) s" using reachable_inv [OF s(1)] by simp
  have stored: "map_of (q_jobs (queue s)) i = Some ?job" by (simp add: s(2))
  have target: "control_target False ?job = Inr CancelRequested" by (simp add: control_target_def batch_job_state)
  have writes: "\<And>q old. fst (se_write_queue ?env q old)" by (simp add: demo_store_env_def)
  obtain t where t: "store_inv (se_ser_plan ?env) t" "q_generation (queue t) = 3"
    "q_jobs (queue t) = bt_update (set_state CancelRequested) i (q_jobs (queue s))" "q_history (queue t) = q_history (queue s)"
    "registry t = registry s"
    by (rule request_control_saved [OF inv stored target, of 3]) (simp_all add: s(4) checked_add_def writes)
  let ?u = "t\<lparr>state_files := []\<rparr>" and ?c = "set_state CancelRequested ?job"
  have cancelled: "map_of (q_jobs (queue ?u)) i = Some ?c" by (simp add: t(3) bt_get_update stored)
  have inv': "store_inv (se_ser_plan ?env) ?u" using t(1) by (simp add: store_inv_iff)
  let ?message = "''IPC scheduler failed to execute the job: '' @ sd_render demo_base (InStore NoPauseRequest)"
  have digest: "validate_digest (dry_plan_digest demo_report) = Inr ()"
    using demo_report_valid by (auto simp: dry_run_validate_def and_then_unit_iff)
  have valid: "job_status_validate (job_status (finish_job Failed None (Some ?message) 12 ?c)) = Inr ()"
    using s(5) digest by (simp add: job_status_validate_iff finish_job_def set_state_def submitted_job_def new_job_status_def
        batch_spec_def job_spec_new_def terminal_def MIN_PRIORITY_def MAX_PRIORITY_def demo_base_def bounded_text_def
        Ipc_Contracts.validate_text_def)
  obtain w where w: "terminalize ?env i Failed None (Some ?message) (Some ''scheduler-failed'') 12 ?u
      = (Inr (job_status (finish_job Failed None (Some ?message) 12 ?c)), w)"
    by (rule terminalize_saved [OF inv' cancelled _ valid, of 4]) (simp_all add: terminal_def t(2) checked_add_def writes)
  have job: "st_job_id (job_status ?job) = i" by (rule batch_job_state)
  have env: "sd_store demo_base = ?env" by (simp add: demo_base_def)
  let ?v = "new_service ?u"
  have v: "svc_store ?v = ?u" by (simp add: new_service_def idle_server_def)
  have c: "map_of (q_jobs (queue (svc_store ?v))) (st_job_id (job_status ?job)) = Some ?c" "st_state (job_status ?c) = CancelRequested"
    using cancelled by (simp_all add: v job) (simp add: set_state_def)
  have e: "cx_code paused_exit \<noteq> Some 0" "receipt_of ?v (st_job_id (job_status ?job)) = None"
    by (simp_all add: paused_exit_def receipt_of_def v)
  have "svc_store (set_active None ?v) = ?u" using v by (simp add: set_active_def)
  then have "in_store (terminalize ?env i Failed None (Some ?message) (Some ''scheduler-failed'') 12) (set_active None ?v)
      = (Inr (job_status (finish_job Failed None (Some ?message) 12 ?c)), set_store w (set_active None ?v))"
    using w by (simp only: in_store_def prod.case map_err_const)
  then obtain v' where run: "child_ended demo_base paused_exit (Some 12) ?job ?v = (Inr Served, v')"
    using child_ended_paused_late [OF c e(1) paused_exit_says e(2), where t = 12 and env = demo_base] by (simp only: env job st_then_simps prod.inject)
  have room: "1 \<le> unat (max_history_entries (reg_limits (registry (svc_store ?v))))"
    using reachable_history_limit [OF s(1)] t(5) by (simp add: v)
  from late_cancel_recorded_as_failure [OF c e(1) paused_exit_says e(2) room run]
  obtain older entry where entry: "q_history (queue (svc_store v')) = older @ [entry]" "he_state (hist_public entry) = Failed" by blast
  from terminalize_shape [OF w] have "length (q_history (queue w)) \<le> 1" using t(4) s(3) by auto
  moreover have "svc_store v' = w"
    using run child_ended_paused_late [OF c e(1) paused_exit_says e(2), where t = 12 and env = demo_base] w \<open>svc_store (set_active None ?v) = ?u\<close>
    by (simp add: env job in_store_def cleanup_job_control_files_def set_store_def) auto
  ultimately have "older = []" using entry(1) by simp
  then show ?thesis using inv' run entry cancelled c v job by (intro exI [of _ ?u] exI [of _ ?job]) (auto simp: set_state_def)
qed

end
