(* ===== verification/Byte_Streams.thy ===== *)
theory Byte_Streams
  imports Wire_Text
begin

text \<open>
  What the byte-level components share: checked \<open>usize\<close> sums on naturals, little- and big-endian
  fields in both directions, reading from the front of a byte sequence, and the interface of a
  self-delimiting record (a page, a frame, a block): a \<open>decode\<close> that takes one record off the front
  of a stream and an \<open>encode\<close> that writes it. The client of that interface is the loop that
  reads a stream record by record; its laws say that such a loop is the inverse of writing.
\<close>

section \<open>Sizes\<close>

definition usize_add :: "nat \<Rightarrow> nat \<Rightarrow> nat option" where
  "usize_add a b = (if a + b < 2 ^ 64 then Some (a + b) else None)"

lemma usize_add_Some_iff [simp]: "usize_add a b = Some c \<longleftrightarrow> c = a + b \<and> a + b < 2 ^ 64"
  by (auto simp: usize_add_def)

lemma usize_add_None_iff [simp]: "usize_add a b = None \<longleftrightarrow> 2 ^ 64 \<le> a + b"
  by (auto simp: usize_add_def)

lemma usize_add_small [simp]: "a + b < 2 ^ 64 \<Longrightarrow> usize_add a b = Some (a + b)"
  by simp

section \<open>Fields\<close>

lemma to_le_take_bit: "8 * k \<le> m \<Longrightarrow> to_le k (take_bit m x) = to_le k x"
proof (induction k arbitrary: m x)
  case (Suc k)
  have "(ucast (take_bit m x) :: u8) = ucast x" using Suc.prems by (intro bit_eqI) (auto simp: bit_simps)
  moreover have "drop_bit 8 (take_bit m x) = take_bit (m - 8) (drop_bit 8 x)"
    using Suc.prems by (simp add: drop_bit_take_bit)
  ultimately show ?case using Suc.IH [of "m - 8"] Suc.prems by simp
qed simp

lemma to_le_of_le: "8 * length bs \<le> LENGTH('a) \<Longrightarrow> to_le (length bs) (of_le bs :: 'a::len word) = bs"
proof (induction bs)
  case (Cons b bs)
  let ?w = "of_le (b # bs) :: 'a word" and ?r = "of_le bs :: 'a word"
  have "(ucast ?w :: u8) = b" using Cons.prems by (intro bit_eqI) (auto simp: bit_simps)
  moreover have "drop_bit 8 ?w = take_bit (LENGTH('a) - 8) ?r"
    using Cons.prems by (intro bit_eqI) (auto simp: bit_simps dest: bit_imp_le_length)
  moreover have "to_le (length bs) (take_bit (LENGTH('a) - 8) ?r) = to_le (length bs) ?r"
    using Cons.prems by (intro to_le_take_bit) simp
  ultimately show ?case using Cons by simp
qed simp

lemma of_le_eq_iff:
  assumes "length bs = k" and "LENGTH('a) = 8 * k"
  shows "of_le bs = (w :: 'a::len word) \<longleftrightarrow> bs = to_le k w"
  using to_le_of_le [of bs, where 'a = 'a] of_le_to_le_full [where 'a = 'a, of k w] assms by auto

definition to_be :: "nat \<Rightarrow> 'a::len word \<Rightarrow> u8 list" where "to_be k w = rev (to_le k w)"
definition of_be :: "u8 list \<Rightarrow> 'a::len word" where "of_be bs = of_le (rev bs)"

lemma length_to_be [simp]: "length (to_be k w) = k"
  by (simp add: to_be_def)

lemma of_be_to_be: "LENGTH('a) \<le> 8 * k \<Longrightarrow> of_be (to_be k w) = (w :: 'a::len word)"
  by (simp add: of_be_def to_be_def of_le_to_le_full)

lemma of_be_eq_iff:
  assumes "length bs = k" and "LENGTH('a) = 8 * k"
  shows "of_be bs = (w :: 'a::len word) \<longleftrightarrow> bs = to_be k w"
  using of_le_eq_iff [where 'a = 'a, of "rev bs" k w] assms by (simp add: of_be_def to_be_def rev_swap)

section \<open>Reading from the front\<close>

text \<open>\<open>read_exact\<close>: the next \<open>n\<close> bytes and the rest of the stream.\<close>

definition read_exact :: "'e \<Rightarrow> nat \<Rightarrow> u8 list \<Rightarrow> 'e + u8 list \<times> u8 list" where
  "read_exact e n stream = (if length stream < n then Inl e else Inr (take n stream, drop n stream))"

lemma read_exact_iff [simp]:
  "read_exact e n stream = Inr (bs, rest) \<longleftrightarrow> stream = bs @ rest \<and> length bs = n"
  by (auto simp: read_exact_def)

lemma read_exact_append [simp]: "length bs = n \<Longrightarrow> read_exact e n (bs @ rest) = Inr (bs, rest)"
  by simp

section \<open>Streams of records\<close>

text \<open>Reading a stream to its end; every record takes at least one byte, so the length of the stream
  bounds the number of rounds.\<close>

fun read_records :: "(u8 list \<Rightarrow> 'e + ('a \<times> u8 list) option) \<Rightarrow> nat \<Rightarrow> u8 list \<Rightarrow> 'e + 'a list" where
  "read_records decode 0 stream = Inr []"
| "read_records decode (Suc n) stream =
    and_then (decode stream) (\<lambda>next_record. case next_record of
      None \<Rightarrow> Inr []
    | Some (record, rest) \<Rightarrow> and_then (read_records decode n rest) (\<lambda>records. Inr (record # records)))"

locale record_stream =
  fixes encode :: "'a \<Rightarrow> u8 list"
    and decode :: "u8 list \<Rightarrow> 'e + ('a \<times> u8 list) option"
    and well_formed :: "'a \<Rightarrow> bool"
  assumes decode_end: "decode [] = Inr None"
    and decode_encode: "well_formed r \<Longrightarrow> decode (encode r @ rest) = Inr (Some (r, rest))"
    and decode_sound: "decode stream = Inr (Some (r, rest)) \<Longrightarrow> well_formed r \<and> stream = encode r @ rest"
    and decode_none: "decode stream = Inr None \<Longrightarrow> stream = []"
    and encode_nonempty: "encode r \<noteq> []"
begin

lemma encode_length: "0 < length (encode r)"
  using encode_nonempty [of r] by simp

lemma encode_injective: "well_formed r \<Longrightarrow> well_formed r' \<Longrightarrow> encode r @ s = encode r' @ s' \<Longrightarrow> r = r' \<and> s = s'"
  using decode_encode by (metis Inr_inject option.inject prod.inject)

lemma read_all:
  "\<forall>r \<in> set rs. well_formed r \<Longrightarrow> length (concat (map encode rs)) \<le> n \<Longrightarrow>
     read_records decode n (concat (map encode rs)) = Inr rs"
proof (induction rs arbitrary: n)
  case Nil
  then show ?case by (cases n) (simp_all add: decode_end)
next
  case (Cons r rs)
  then obtain n' where n: "n = Suc n'" using encode_length [of r] by (cases n) auto
  have "length (concat (map encode rs)) \<le> n'" 
    using Cons.prems(2) encode_length [of r] unfolding n by (simp del: length_greater_0_conv)
  then show ?case using Cons n by (simp add: decode_encode)
qed

lemma read_sound:
  "read_records decode n stream = Inr rs \<Longrightarrow> length stream \<le> n \<Longrightarrow>
     stream = concat (map encode rs) \<and> (\<forall>r \<in> set rs. well_formed r)"
proof (induction n arbitrary: stream rs)
  case (Suc n)
  from Suc.prems(1) obtain m where m: "decode stream = Inr m"
    "(case m of None \<Rightarrow> Inr [] | Some (r, rest) \<Rightarrow>
        and_then (read_records decode n rest) (\<lambda>rs. Inr (r # rs))) = Inr rs"
    by (auto simp: and_then_Inr_iff)
  show ?case
  proof (cases m)
    case None
    then show ?thesis using m decode_none by auto
  next
    case (Some p)
    obtain r rest where p: "p = (r, rest)" by (cases p)
    have r: "well_formed r" "stream = encode r @ rest" using decode_sound m(1) Some p by auto
    then have "length rest \<le> n" using Suc.prems(2) encode_length [of r] by (simp del: length_greater_0_conv)
    moreover obtain rs' where "read_records decode n rest = Inr rs'" "rs = r # rs'"
      using m(2) Some p by (auto simp: and_then_Inr_iff)
    ultimately show ?thesis using Suc.IH [of rest rs'] r by auto
  qed
qed simp

lemma read_all_iff:
  "read_records decode (length stream) stream = Inr rs
     \<longleftrightarrow> stream = concat (map encode rs) \<and> (\<forall>r \<in> set rs. well_formed r)"
  using read_sound read_all by blast

text \<open>More rounds than bytes change nothing.\<close>

lemma read_enough: "length stream \<le> n \<Longrightarrow> read_records decode n stream = read_records decode (length stream) stream"
proof (induction n arbitrary: stream rule: less_induct)
  case (less n)
  show ?case
  proof (cases "stream = []")
    case True
    then show ?thesis by (cases n) (simp_all add: decode_end)
  next
    case False
    then obtain l where l: "length stream = Suc l" by (cases stream) auto
    then obtain n' where n: "n = Suc n'" using less.prems by (cases n) auto
    have "read_records decode n' rest = read_records decode l rest"
      if "decode stream = Inr (Some (r, rest))" for r rest
    proof -
      have len: "length rest \<le> l" 
        using decode_sound [OF that] encode_length [of r] l by (auto simp del: length_greater_0_conv)
      then have "length rest \<le> n'" using less.prems l n by simp
      then have "read_records decode n' rest = read_records decode (length rest) rest"
        by (intro less.IH) (simp_all add: n)
      moreover have "read_records decode l rest = read_records decode (length rest) rest"
        by (intro less.IH) (use len less.prems l n in simp_all)
      ultimately show ?thesis by simp
    qed
    then show ?thesis unfolding l n by (cases "decode stream") (auto split: option.splits)
  qed
qed

end

end
