(* ===== verification/Vorbis_Comments.thy ===== *)
theory Vorbis_Comments
  imports Paths Byte_Streams "HOL-Library.Multiset" "HOL-Library.Sublist"
begin

text \<open>
  Bounded metadata (\<open>src/src/metadata.rs\<close>, \<open>src/src/metadata/limits.rs\<close>): the limits, the budget
  that every retained byte and item is charged to, and the Vorbis comment body with its parser,
  serializer and merge. Sizes are \<open>usize\<close> values, read as naturals, with every checked addition
  written out (\<open>usize_add\<close>). A budget is dropped with the error that a charge returns.

  Parameters (\<open>meta_env\<close>): whether an allocation succeeds (\<open>try_reserve\<close>), and the base64 reader of
  the \<open>base64\<close> crate as the counts its reads return and whether it ends without an error.
\<close>

section \<open>Limits and budget\<close>

record metadata_limits =
  max_total_bytes :: nat
  max_item_bytes :: nat
  max_items :: nat
  max_flac_block_bytes :: nat
  max_flac_blocks :: nat
  max_ogg_packet_bytes :: nat
  max_ogg_pages :: nat
  max_ogg_streams :: nat

definition metadata_limits_default :: metadata_limits where
  "metadata_limits_default = \<lparr>max_total_bytes = 64 * 1024 * 1024, max_item_bytes = 16 * 1024 * 1024,
     max_items = 16384, max_flac_block_bytes = 16 * 1024 * 1024 - 1, max_flac_blocks = 1024,
     max_ogg_packet_bytes = 16 * 1024 * 1024, max_ogg_pages = 4096, max_ogg_streams = 64\<rparr>"

datatype metadata_error =
    AggregateOverflow | AggregateLimit | ItemLimit | ItemCountOverflow | ItemCountLimit
  | BadBase64 | DecodedOverflow | DecodedLimit | CommentTooLarge | CommentSizeOverflow
  | CommentTruncated | CommentNotUtf8 | SeparatorMissing | BadCommentKey | TrailingBytes nat
  | MergeInputLimit | OutOfMemory

record meta_env =
  me_reserve :: "nat \<Rightarrow> bool"
  me_base64 :: "string \<Rightarrow> nat list \<times> bool"

record metadata_budget =
  mb_limits :: metadata_limits
  mb_total_bytes :: nat
  mb_items :: nat

definition reserve :: "meta_env \<Rightarrow> nat \<Rightarrow> metadata_error + unit" where
  "reserve env n = fail_if (\<not> me_reserve env n) OutOfMemory"

definition budget_of :: "metadata_limits \<Rightarrow> metadata_budget" where
  "budget_of limits = \<lparr>mb_limits = limits, mb_total_bytes = 0, mb_items = 0\<rparr>"

definition check_bytes :: "metadata_budget \<Rightarrow> nat \<Rightarrow> metadata_error + unit" where
  "check_bytes b bytes =
    and_then (ok_or (usize_add (mb_total_bytes b) bytes) AggregateOverflow) (\<lambda>total.
    fail_if (max_total_bytes (mb_limits b) < total) AggregateLimit)"

definition charge_bytes :: "metadata_budget \<Rightarrow> nat \<Rightarrow> metadata_error + metadata_budget" where
  "charge_bytes b bytes =
    and_then (check_bytes b bytes) (\<lambda>_.
    and_then (ok_or (usize_add (mb_total_bytes b) bytes) AggregateOverflow) (\<lambda>total.
    Inr (b\<lparr>mb_total_bytes := total\<rparr>)))"

definition check_item :: "metadata_budget \<Rightarrow> nat \<Rightarrow> metadata_error + metadata_budget" where
  "check_item b bytes =
    and_then (fail_if (max_item_bytes (mb_limits b) < bytes) ItemLimit) (\<lambda>_.
    and_then (ok_or (usize_add (mb_items b) 1) ItemCountOverflow) (\<lambda>items.
    and_then (fail_if (max_items (mb_limits b) < items) ItemCountLimit) (\<lambda>_.
    Inr (b\<lparr>mb_items := items\<rparr>))))"

definition charge_item :: "metadata_budget \<Rightarrow> nat \<Rightarrow> metadata_error + metadata_budget" where
  "charge_item b bytes = and_then (check_item b bytes) (\<lambda>b. charge_bytes b bytes)"

fun decoded_length :: "metadata_limits \<Rightarrow> nat \<Rightarrow> nat list \<Rightarrow> bool \<Rightarrow> metadata_error + nat" where
  "decoded_length limits decoded [] good = and_then (fail_if (\<not> good) BadBase64) (\<lambda>_. Inr decoded)"
| "decoded_length limits decoded (got # counts) good =
    (if got = 0 then Inr decoded
     else and_then (ok_or (usize_add decoded got) DecodedOverflow) (\<lambda>decoded.
          and_then (fail_if (max_item_bytes limits < decoded) DecodedLimit) (\<lambda>_.
          decoded_length limits decoded counts good)))"

definition charge_picture_base64 :: "meta_env \<Rightarrow> metadata_budget \<Rightarrow> string \<Rightarrow> metadata_error + metadata_budget" where
  "charge_picture_base64 env b value =
    and_then (fail_if (max_item_bytes (mb_limits b) < length value) ItemLimit) (\<lambda>_.
    (case me_base64 env value of (counts, good) \<Rightarrow>
      and_then (decoded_length (mb_limits b) 0 counts good) (charge_bytes b)))"

section \<open>Comments\<close>

record vorbis_comments =
  vc_vendor :: string
  vc_items :: "(string \<times> string) list"

definition ascii_lower :: "char \<Rightarrow> char" where
  "ascii_lower c = (if is_ascii_uppercase c then char_of ((of_char c :: nat) + 32) else c)"

definition eq_ignore_ascii_case :: "string \<Rightarrow> string \<Rightarrow> bool" where
  "eq_ignore_ascii_case s t \<longleftrightarrow> map ascii_lower s = map ascii_lower t"

definition is_vorbis_picture_key :: "string \<Rightarrow> bool" where
  "is_vorbis_picture_key key \<longleftrightarrow>
    eq_ignore_ascii_case key ''METADATA_BLOCK_PICTURE'' \<or> eq_ignore_ascii_case key ''COVERART''"

definition validate_comment_key :: "u8 list \<Rightarrow> metadata_error + unit" where
  "validate_comment_key key =
    fail_if (key = [] \<or> list_ex (\<lambda>byte. byte < 0x20 \<or> 0x7d < byte \<or> byte = 0x3d) key) BadCommentKey"

definition from_utf8 :: "u8 list \<Rightarrow> metadata_error + string" where
  "from_utf8 bytes = (if utf8_text (bytes_string bytes) then Inr (bytes_string bytes) else Inl CommentNotUtf8)"

definition read_u32_le :: "u8 list \<Rightarrow> nat \<Rightarrow> metadata_error + u32 \<times> nat" where
  "read_u32_le data offset =
    and_then (ok_or (usize_add offset 4) CommentSizeOverflow) (\<lambda>end.
    and_then (ok_or (slice_get data offset end) CommentTruncated) (\<lambda>bytes.
    Inr (of_le bytes, end)))"

text \<open>\<open>iter().position(..)\<close>.\<close>

fun position :: "('a \<Rightarrow> bool) \<Rightarrow> 'a list \<Rightarrow> nat option" where
  "position P [] = None"
| "position P (x # xs) = (if P x then Some 0 else map_option Suc (position P xs))"

subsection \<open>Parsing\<close>

definition charge_picture_item :: "meta_env \<Rightarrow> metadata_budget \<Rightarrow> string \<times> string \<Rightarrow> metadata_error + metadata_budget" where
  "charge_picture_item env b item =
    (if is_vorbis_picture_key (fst item) then charge_picture_base64 env b (snd item) else Inr b)"

definition split_field :: "meta_env \<Rightarrow> u8 list \<Rightarrow> metadata_error + string \<times> string" where
  "split_field env field =
    and_then (ok_or (position (\<lambda>byte. byte = 0x3d) field) SeparatorMissing) (\<lambda>separator.
    and_then (validate_comment_key (take separator field)) (\<lambda>_.
    and_then (from_utf8 (take separator field)) (\<lambda>key.
    and_then (from_utf8 (drop (separator + 1) field)) (\<lambda>value.
    and_then (reserve env (length key)) (\<lambda>_.
    and_then (reserve env (length value)) (\<lambda>_.
    Inr (key, value)))))))"

definition parse_item ::
  "meta_env \<Rightarrow> u8 list \<Rightarrow> nat \<Rightarrow> metadata_budget \<Rightarrow> metadata_error + (string \<times> string) \<times> nat \<times> metadata_budget" where
  "parse_item env body offset b =
    and_then (read_u32_le body offset) (\<lambda>(len, offset).
    and_then (check_item b (unat len)) (\<lambda>b.
    and_then (ok_or (usize_add offset (unat len)) CommentSizeOverflow) (\<lambda>end.
    and_then (ok_or (slice_get body offset end) CommentTruncated) (\<lambda>field.
    and_then (split_field env field) (\<lambda>item.
    and_then (charge_picture_item env b item) (\<lambda>b.
    Inr (item, end, b)))))))"

fun parse_items ::
  "meta_env \<Rightarrow> u8 list \<Rightarrow> nat \<Rightarrow> nat \<Rightarrow> metadata_budget
     \<Rightarrow> metadata_error + (string \<times> string) list \<times> nat \<times> metadata_budget" where
  "parse_items env body 0 offset b = Inr ([], offset, b)"
| "parse_items env body (Suc n) offset b =
    and_then (parse_item env body offset b) (\<lambda>(item, offset, b).
    and_then (parse_items env body n offset b) (\<lambda>(items, offset, b).
    Inr (item # items, offset, b)))"

definition parse_comment_body ::
  "meta_env \<Rightarrow> u8 list \<Rightarrow> metadata_budget \<Rightarrow> metadata_error + vorbis_comments \<times> metadata_budget" where
  "parse_comment_body env body b =
    and_then (charge_bytes b (length body)) (\<lambda>b.
    and_then (read_u32_le body 0) (\<lambda>(vendor_len, offset).
    and_then (fail_if (max_item_bytes (mb_limits b) < unat vendor_len) ItemLimit) (\<lambda>_.
    and_then (ok_or (usize_add offset (unat vendor_len)) CommentSizeOverflow) (\<lambda>vendor_end.
    and_then (ok_or (slice_get body offset vendor_end) CommentTruncated) (\<lambda>vendor_bytes.
    and_then (from_utf8 vendor_bytes) (\<lambda>vendor.
    and_then (reserve env (unat vendor_len)) (\<lambda>_.
    and_then (read_u32_le body vendor_end) (\<lambda>(count, offset).
    and_then (fail_if (max_items (mb_limits b) < unat count) ItemCountLimit) (\<lambda>_.
    and_then (reserve env (unat count)) (\<lambda>_.
    and_then (parse_items env body (unat count) offset b) (\<lambda>(items, offset, b).
    and_then (fail_if (offset \<noteq> length body) (TrailingBytes (length body - offset))) (\<lambda>_.
    Inr (\<lparr>vc_vendor = vendor, vc_items = items\<rparr>, b)))))))))))))"

subsection \<open>Serializing\<close>

definition field_length :: "string \<times> string \<Rightarrow> metadata_error + nat" where
  "field_length item =
    ok_or (Option.bind (usize_add (length (fst item)) 1) (\<lambda>size. usize_add size (length (snd item)))) CommentSizeOverflow"

definition measure_item ::
  "meta_env \<Rightarrow> nat \<times> metadata_budget \<Rightarrow> string \<times> string \<Rightarrow> metadata_error + nat \<times> metadata_budget" where
  "measure_item env state item =
    (case state of (output_len, b) \<Rightarrow>
      and_then (validate_comment_key (as_bytes (fst item))) (\<lambda>_.
      and_then (field_length item) (\<lambda>len.
      and_then (check_item b len) (\<lambda>b.
      and_then (fail_if (2 ^ 32 \<le> len) CommentTooLarge) (\<lambda>_.
      and_then (ok_or (Option.bind (usize_add output_len 4) (\<lambda>size. usize_add size len)) CommentSizeOverflow) (\<lambda>output_len.
      and_then (charge_picture_item env b item) (\<lambda>b.
      Inr (output_len, b))))))))"

definition item_bytes :: "string \<times> string \<Rightarrow> u8 list" where
  "item_bytes item =
    to_le 4 (word_of_nat (length (fst item) + 1 + length (snd item)) :: u32)
      @ as_bytes (fst item) @ 0x3d # as_bytes (snd item)"

definition comment_bytes :: "vorbis_comments \<Rightarrow> u8 list" where
  "comment_bytes c =
    to_le 4 (word_of_nat (length (vc_vendor c)) :: u32) @ as_bytes (vc_vendor c)
      @ to_le 4 (word_of_nat (length (vc_items c)) :: u32) @ concat (map item_bytes (vc_items c))"

definition serialize_comment_body ::
  "meta_env \<Rightarrow> vorbis_comments \<Rightarrow> metadata_budget \<Rightarrow> metadata_error + u8 list \<times> metadata_budget" where
  "serialize_comment_body env c b =
    and_then (fail_if (max_item_bytes (mb_limits b) < length (vc_vendor c)) ItemLimit) (\<lambda>_.
    and_then (fail_if (2 ^ 32 \<le> length (vc_vendor c)) CommentTooLarge) (\<lambda>_.
    and_then (fail_if (2 ^ 32 \<le> length (vc_items c)) CommentTooLarge) (\<lambda>_.
    and_then (fail_if (max_items (mb_limits b) < length (vc_items c)) ItemCountLimit) (\<lambda>_.
    and_then (ok_or (Option.bind (usize_add 4 (length (vc_vendor c))) (\<lambda>size. usize_add size 4)) CommentSizeOverflow) (\<lambda>output_len.
    and_then (try_fold (measure_item env) (output_len, b) (vc_items c)) (\<lambda>(output_len, b).
    and_then (charge_bytes b output_len) (\<lambda>b.
    and_then (reserve env output_len) (\<lambda>_.
    Inr (comment_bytes c, b)))))))))"

definition validate_snapshot :: "meta_env \<Rightarrow> vorbis_comments \<Rightarrow> metadata_budget \<Rightarrow> metadata_error + metadata_budget" where
  "validate_snapshot env c b = and_then (serialize_comment_body env c b) (\<lambda>(_, b). Inr b)"

subsection \<open>Merging\<close>

text \<open>\<open>char::from(byte)\<close> of a byte from 128 on takes two bytes.\<close>

definition latin1_bytes :: "char \<Rightarrow> string" where
  "latin1_bytes c =
    (let n = (of_char c :: nat) in if n < 128 then [c] else [char_of (192 + n div 64), char_of (128 + n mod 64)])"

definition merge_key :: "string \<times> string \<Rightarrow> string \<times> string" where
  "merge_key item = (concat (map (\<lambda>c. latin1_bytes (ascii_lower c)) (fst item)), snd item)"

definition reserve_item :: "meta_env \<Rightarrow> string \<times> string \<Rightarrow> metadata_error + unit" where
  "reserve_item env item = and_then (reserve env (length (fst item))) (\<lambda>_. reserve env (length (snd item)))"

text \<open>Whether the item fits into the merged list.\<close>

definition admit_item :: "metadata_limits \<Rightarrow> (string \<times> string) list \<Rightarrow> string \<times> string \<Rightarrow> metadata_error + unit" where
  "admit_item limits items item =
    and_then (field_length item) (\<lambda>len.
    and_then (fail_if (max_item_bytes limits < len) ItemLimit) (\<lambda>_.
    fail_if (max_items limits \<le> length items) ItemCountLimit))"

type_synonym occurrences = "string \<times> string \<Rightarrow> nat option"

definition merge_source_item ::
  "meta_env \<Rightarrow> metadata_limits \<Rightarrow> bool \<Rightarrow> occurrences \<times> (string \<times> string) list \<Rightarrow> string \<times> string
     \<Rightarrow> metadata_error + occurrences \<times> (string \<times> string) list" where
  "merge_source_item env limits skip state item =
    (case state of (seen, items) \<Rightarrow>
      if skip \<and> is_vorbis_picture_key (fst item) then Inr (seen, items)
      else and_then (admit_item limits items item) (\<lambda>_.
           and_then (reserve_item env item) (\<lambda>_.
           let k = merge_key item; n = (case seen k of None \<Rightarrow> 0 | Some n \<Rightarrow> n)
           in and_then (reserve_item env item) (\<lambda>_. Inr (seen(k \<mapsto> n + 1), items @ [item])))))"

definition merge_destination_item ::
  "meta_env \<Rightarrow> metadata_limits \<Rightarrow> occurrences \<times> (string \<times> string) list \<Rightarrow> string \<times> string
     \<Rightarrow> metadata_error + occurrences \<times> (string \<times> string) list" where
  "merge_destination_item env limits state item =
    (case state of (seen, items) \<Rightarrow>
      and_then (reserve_item env item) (\<lambda>_.
      case seen (merge_key item) of
        Some (Suc n) \<Rightarrow> Inr (seen(merge_key item \<mapsto> n), items)
      | _ \<Rightarrow> and_then (admit_item limits items item) (\<lambda>_. Inr (seen, items @ [item]))))"

definition merge_vorbis_comments ::
  "meta_env \<Rightarrow> vorbis_comments \<Rightarrow> vorbis_comments \<Rightarrow> bool \<Rightarrow> metadata_budget \<Rightarrow> metadata_error + vorbis_comments" where
  "merge_vorbis_comments env source destination skip b =
    (let limits = mb_limits b in
     and_then (ok_or (usize_add (length (vc_items source)) (length (vc_items destination))) CommentSizeOverflow) (\<lambda>maximum.
     and_then (fail_if (min (2 ^ 64 - 1) (max_items limits * 2) < maximum) MergeInputLimit) (\<lambda>_.
     and_then (reserve env (length (vc_items source))) (\<lambda>_.
     and_then (reserve env (min maximum (max_items limits))) (\<lambda>_.
     and_then (try_fold (merge_source_item env limits skip) (\<lambda>_. None, []) (vc_items source)) (\<lambda>state.
     and_then (try_fold (merge_destination_item env limits) state (vc_items destination)) (\<lambda>(_, items).
     and_then (reserve env (length (vc_vendor source))) (\<lambda>_.
     Inr \<lparr>vc_vendor = vc_vendor source, vc_items = items\<rparr>))))))))"

section \<open>Budgets\<close>

text \<open>A budget that was never charged past its limits.\<close>

definition within :: "metadata_budget \<Rightarrow> bool" where
  "within b \<longleftrightarrow> mb_total_bytes b \<le> max_total_bytes (mb_limits b) \<and> mb_total_bytes b < 2 ^ 64
     \<and> mb_items b \<le> max_items (mb_limits b) \<and> mb_items b < 2 ^ 64"

lemma within_budget_of [simp]: "within (budget_of limits)"
  by (simp add: within_def budget_of_def)

definition charged :: "nat \<Rightarrow> nat \<Rightarrow> metadata_budget \<Rightarrow> metadata_budget" where
  "charged bytes items b = b\<lparr>mb_total_bytes := mb_total_bytes b + bytes, mb_items := mb_items b + items\<rparr>"

lemma charged_simps [simp]:
  "mb_limits (charged n k b) = mb_limits b"
  "mb_total_bytes (charged n k b) = mb_total_bytes b + n"
  "mb_items (charged n k b) = mb_items b + k"
  "charged n k (charged n' k' b) = charged (n' + n) (k' + k) b"
  "charged 0 0 b = b"
  by (simp_all add: charged_def)

lemma within_mono: "within (charged (n + n') (k + k') b) \<Longrightarrow> within (charged n k b)"
  by (simp add: within_def)

lemma charge_bytes_iff: "charge_bytes b n = Inr b' \<longleftrightarrow> b' = charged n 0 b
    \<and> mb_total_bytes b + n \<le> max_total_bytes (mb_limits b) \<and> mb_total_bytes b + n < 2 ^ 64"
  by (auto simp: charge_bytes_def check_bytes_def charged_def and_then_Inr_iff and_then_unit_iff)

lemma charge_bytes_within: "within b \<Longrightarrow> charge_bytes b n = Inr b' \<longleftrightarrow> b' = charged n 0 b \<and> within b'"
  by (auto simp: charge_bytes_iff within_def)

lemma check_item_within: "within b \<Longrightarrow>
    check_item b n = Inr b' \<longleftrightarrow> b' = charged 0 1 b \<and> within b' \<and> n \<le> max_item_bytes (mb_limits b)"
  by (auto simp: check_item_def charged_def within_def and_then_Inr_iff)

text \<open>What a picture costs; \<open>None\<close> when it is refused whatever is left of the budget.\<close>

definition picture_cost :: "meta_env \<Rightarrow> metadata_limits \<Rightarrow> string \<Rightarrow> nat option" where
  "picture_cost env limits value =
    (if max_item_bytes limits < length value then None
     else ok (case me_base64 env value of (counts, good) \<Rightarrow> decoded_length limits 0 counts good))"

definition item_cost :: "meta_env \<Rightarrow> metadata_limits \<Rightarrow> string \<times> string \<Rightarrow> nat option" where
  "item_cost env limits item = (if is_vorbis_picture_key (fst item) then picture_cost env limits (snd item) else Some 0)"

lemma charge_picture_item_iff:
  assumes "within b"
  shows "charge_picture_item env b item = Inr b' \<longleftrightarrow>
    (\<exists>n. item_cost env (mb_limits b) item = Some n \<and> b' = charged n 0 b \<and> within b')"
proof (cases "is_vorbis_picture_key (fst item)")
  case True
  obtain counts good where c: "me_base64 env (snd item) = (counts, good)" by (cases "me_base64 env (snd item)")
  have "ok m = Some n \<longleftrightarrow> m = Inr n" for m :: "metadata_error + nat" and n by (cases m) auto
  then show ?thesis using True assms c
    by (auto simp: charge_picture_item_def charge_picture_base64_def item_cost_def picture_cost_def
        and_then_Inr_iff and_then_unit_iff charge_bytes_within)
next
  case False
  then show ?thesis using assms by (auto simp: charge_picture_item_def item_cost_def)
qed

section \<open>The bytes of a comment body\<close>

definition good_key :: "string \<Rightarrow> bool" where
  "good_key key \<longleftrightarrow> validate_comment_key (as_bytes key) = Inr ()"

lemma bytes_string_as_bytes [simp]: "bytes_string (as_bytes s) = s"
  using as_bytes_bytes_string [of "as_bytes s"] by (simp only: as_bytes_inj)

lemma from_utf8_iff: "from_utf8 bytes = Inr s \<longleftrightarrow> bytes = as_bytes s \<and> utf8_text s"
  by (auto simp: from_utf8_def)

lemma position_iff: "position P xs = Some i \<longleftrightarrow> i < length xs \<and> P (xs ! i) \<and> (\<forall>j < i. \<not> P (xs ! j))"
proof (induction xs arbitrary: i)
  case (Cons x xs)
  then show ?case by (cases i) (auto simp: All_less_Suc2)
qed simp

lemma position_append: "\<forall>x \<in> set xs. \<not> P x \<Longrightarrow> P y \<Longrightarrow> position P (xs @ y # ys) = Some (length xs)"
  by (induction xs) auto

lemma position_split: "position P xs = Some i \<Longrightarrow> \<exists>y. xs = take i xs @ y # drop (Suc i) xs \<and> P y"
  by (auto simp: position_iff id_take_nth_drop [symmetric] intro!: exI [of _ "xs ! i"])

text \<open>Reading a piece of a body: what is left after it.\<close>

lemma drop_piece_iff:
  assumes "from + n \<le> length xs"
  shows "take n (drop from xs) = ys \<longleftrightarrow> length ys = n \<and> drop from xs = ys @ drop (from + n) xs"
proof -
  have eq: "drop from xs = take n (drop from xs) @ drop (from + n) xs"
    by (metis add.commute append_take_drop_id drop_drop)
  have len: "length (take n (drop from xs)) = n" using assms by simp
  show ?thesis
  proof
    assume t: "take n (drop from xs) = ys"
    show "length ys = n \<and> drop from xs = ys @ drop (from + n) xs" using eq len unfolding t by blast
  next
    assume r: "length ys = n \<and> drop from xs = ys @ drop (from + n) xs"
    then have "take n (drop from xs) = take n (ys @ drop (from + n) xs)" by presburger
    then show "take n (drop from xs) = ys" using r by simp
  qed
qed

lemma read_u32_le_iff:
  assumes "length data < 2 ^ 64"
  shows "read_u32_le data offset = Inr (w, e) \<longleftrightarrow>
    e = offset + 4 \<and> e \<le> length data \<and> drop offset data = to_le 4 w @ drop e data"
proof (cases "offset + 4 \<le> length data")
  case True
  then have "of_le (take 4 (drop offset data)) = w \<longleftrightarrow> take 4 (drop offset data) = to_le 4 w"
    by (intro of_le_eq_iff) simp_all
  then show ?thesis using True assms drop_piece_iff [OF True]
    by (auto simp: read_u32_le_def and_then_Inr_iff slice_get_Some_iff)
next
  case False
  then show ?thesis by (auto simp: read_u32_le_def and_then_Inr_iff slice_get_Some_iff)
qed

lemma slice_get_iff:
  "slice_get xs from (from + n) = Some ys \<longleftrightarrow> from + n \<le> length xs \<and> length ys = n \<and> drop from xs = ys @ drop (from + n) xs"
  using drop_piece_iff [of "from" n xs ys] by (auto simp: slice_get_Some_iff)

lemma good_key_no_separator: "good_key key \<Longrightarrow> 0x3d \<notin> set (as_bytes key)"
  by (auto simp: good_key_def validate_comment_key_def list_ex_iff)

lemma split_field_iff:
  assumes "\<And>n. me_reserve env n"
  shows "split_field env field = Inr item \<longleftrightarrow>
    field = as_bytes (fst item) @ 0x3d # as_bytes (snd item) \<and> good_key (fst item)
      \<and> utf8_text (fst item) \<and> utf8_text (snd item)" (is "?l \<longleftrightarrow> ?r")
proof
  assume ?l
  then show ?r
    by (cases item) (auto simp: split_field_def and_then_Inr_iff from_utf8_iff good_key_def dest!: position_split)
next
  assume r: ?r
  then have "position (\<lambda>byte. byte = 0x3d) field = Some (length (fst item))"
    using position_append [of "as_bytes (fst item)" "\<lambda>byte. byte = 0x3d" "0x3d"] good_key_no_separator
    by (auto simp del: as_bytes_def)
  then show ?l using r assms
    by (cases item) (auto simp: split_field_def from_utf8_def reserve_def good_key_def and_then_unit_iff)
qed

definition good_item :: "meta_env \<Rightarrow> metadata_limits \<Rightarrow> string \<times> string \<Rightarrow> nat \<Rightarrow> bool" where
  "good_item env limits item cost \<longleftrightarrow> good_key (fst item)
     \<and> length (fst item) + 1 + length (snd item) < 2 ^ 32
     \<and> length (fst item) + 1 + length (snd item) \<le> max_item_bytes limits
     \<and> item_cost env limits item = Some cost"

definition utf8_item :: "string \<times> string \<Rightarrow> bool" where
  "utf8_item item \<longleftrightarrow> utf8_text (fst item) \<and> utf8_text (snd item)"

lemma length_item_bytes [simp]: "length (item_bytes item) = 5 + length (fst item) + length (snd item)"
  by (simp add: item_bytes_def)

lemma parse_item_iff:
  assumes res: "\<And>n. me_reserve env n" and len: "length body < 2 ^ 64" and w: "within b"
  shows "parse_item env body offset b = Inr (item, e, b') \<longleftrightarrow>
    e = offset + length (item_bytes item) \<and> e \<le> length body \<and> drop offset body = item_bytes item @ drop e body
      \<and> utf8_item item \<and> (\<exists>cost. good_item env (mb_limits b) item cost \<and> b' = charged cost 1 b \<and> within b')"
    (is "?l \<longleftrightarrow> ?r")
proof
  assume ?l
  then obtain w o1 b1 field where
      "read_u32_le body offset = Inr (w, o1)" and b1: "check_item b (unat w) = Inr b1"
      and "o1 + unat w < 2 ^ 64" and f: "slice_get body o1 (o1 + unat w) = Some field"
      and i: "split_field env field = Inr item" and b': "charge_picture_item env b1 item = Inr b'" and e: "e = o1 + unat w"
    by (auto simp: parse_item_def and_then_Inr_iff)
  then have o1: "o1 = offset + 4" "drop offset body = to_le 4 w @ drop o1 body" "o1 \<le> length body"
    using read_u32_le_iff [OF len] by auto
  have f': "e \<le> length body" "length field = unat w" "drop o1 body = field @ drop e body"
    using f slice_get_iff [of body o1] e by auto
  have i': "field = as_bytes (fst item) @ 0x3d # as_bytes (snd item)" "good_key (fst item)" "utf8_item item"
    using i split_field_iff [OF res] by (auto simp: utf8_item_def)
  then have n: "unat w = length (fst item) + 1 + length (snd item)" using f'(2) by simp
  have "w = word_of_nat (unat w)" by simp
  then have "w = word_of_nat (length (fst item) + 1 + length (snd item))" unfolding n .
  then have bytes: "drop offset body = item_bytes item @ drop e body" using o1(2) f'(3) i'(1) by (simp add: item_bytes_def)
  have b1': "b1 = charged 0 1 b" "within b1" "unat w \<le> max_item_bytes (mb_limits b)"
    using b1 check_item_within [OF w] by auto
  obtain cost where "item_cost env (mb_limits b) item = Some cost" "b' = charged cost 0 b1" "within b'"
    using b' charge_picture_item_iff [OF b1'(2)] b1'(1) by auto
  moreover have "unat w < 2 ^ 32" using unsigned_less [of w] by simp
  ultimately show ?r using bytes i' o1 f' e n b1' by (auto simp: good_item_def)
next
  assume ?r
  then obtain cost where r: "e = offset + length (item_bytes item)" "e \<le> length body" "drop offset body = item_bytes item @ drop e body"
      "utf8_item item" "good_item env (mb_limits b) item cost" "b' = charged cost 1 b" "within b'" by blast
  define n where "n = length (fst item) + 1 + length (snd item)"
  define w where "w = (word_of_nat n :: u32)"
  let ?o = "offset + 4"
  let ?field = "as_bytes (fst item) @ 0x3d # as_bytes (snd item)"
  have n: "unat w = n" using r(5) unfolding w_def by (intro unat_word_of_nat_lt) (simp add: good_item_def n_def)
  have bytes: "item_bytes item = to_le 4 w @ ?field" by (simp only: item_bytes_def w_def n_def)
  have e: "e = ?o + n" using r(1) by (simp add: n_def)
  have d: "drop ?o body = ?field @ drop e body"
  proof -
    have "drop ?o body = drop 4 (drop offset body)" by (simp add: add.commute)
    also have "\<dots> = drop 4 (item_bytes item @ drop e body)" by (simp only: r(3))
    also have "\<dots> = ?field @ drop e body" by (simp add: bytes)
    finally show ?thesis .
  qed
  have "drop offset body = to_le 4 w @ drop ?o body" using r(3) unfolding bytes d by simp
  then have "read_u32_le body offset = Inr (w, ?o)"
    using read_u32_le_iff [OF len] r(2) e by auto
  moreover have c: "check_item b n = Inr (charged 0 1 b)" "within (charged 0 1 b)"
    using check_item_within [OF w] within_mono [of 0 cost 1 0 b] r(5-7) by (auto simp: good_item_def n_def)
  moreover have "slice_get body ?o (?o + n) = Some ?field" using slice_get_iff [of body ?o n] d r(2) e by (simp add: n_def)
  moreover have "split_field env ?field = Inr item"
    using split_field_iff [OF res] r(4,5) by (auto simp: good_item_def utf8_item_def)
  moreover have "charge_picture_item env (charged 0 1 b) item = Inr b'"
    using charge_picture_item_iff [OF c(2)] r(5-7) by (auto simp: good_item_def)
  moreover have "ok_or (usize_add ?o n) CommentSizeOverflow = Inr (?o + n)" using e r(2) len by simp
  ultimately show ?l by (simp add: parse_item_def n e)
qed

lemma parse_items_iff:
  assumes res: "\<And>n. me_reserve env n" and len: "length body < 2 ^ 64"
  shows "within b \<Longrightarrow> offset \<le> length body \<Longrightarrow> parse_items env body n offset b = Inr (items, e, b') \<longleftrightarrow>
    length items = n \<and> e = offset + length (concat (map item_bytes items)) \<and> e \<le> length body
      \<and> drop offset body = concat (map item_bytes items) @ drop e body \<and> (\<forall>item \<in> set items. utf8_item item)
      \<and> (\<exists>costs. list_all2 (good_item env (mb_limits b)) items costs \<and> b' = charged (sum_list costs) n b \<and> within b')"
proof (induction n arbitrary: offset b items)
  case 0
  then show ?case by (auto simp: list_all2_Nil)
next
  case (Suc n)
  show ?case (is "?l \<longleftrightarrow> ?r")
  proof
    assume ?l
    then obtain item o1 b1 rest where p: "parse_item env body offset b = Inr (item, o1, b1)"
      "parse_items env body n o1 b1 = Inr (rest, e, b')" "items = item # rest"
      by (auto simp: and_then_Inr_iff)
    obtain cost where i: "o1 = offset + length (item_bytes item)" "o1 \<le> length body"
      "drop offset body = item_bytes item @ drop o1 body" "utf8_item item"
      "good_item env (mb_limits b) item cost" "b1 = charged cost 1 b" "within b1"
      using p(1) parse_item_iff [OF res len Suc.prems(1)] by auto
    obtain costs where r: "length rest = n" "e = o1 + length (concat (map item_bytes rest))" "e \<le> length body"
      "drop o1 body = concat (map item_bytes rest) @ drop e body" "\<forall>item \<in> set rest. utf8_item item"
      "list_all2 (good_item env (mb_limits b)) rest costs" "b' = charged (sum_list costs) n b1" "within b'"
      using p(2) Suc.IH [OF i(7,2), of rest] i(6) by auto
    have "list_all2 (good_item env (mb_limits b)) items (cost # costs)" "b' = charged (sum_list (cost # costs)) (Suc n) b"
      using r(6,7) i(5,6) p(3) by simp_all
    moreover have "drop offset body = concat (map item_bytes items) @ drop e body"
      unfolding i(3) r(4) p(3) by simp
    moreover have "length items = Suc n \<and> e = offset + length (concat (map item_bytes items)) \<and> e \<le> length body"
      using r(1-3) i(1) p(3) by simp
    moreover have "\<forall>item \<in> set items. utf8_item item" using r(5) i(4) p(3) by simp
    ultimately show ?r using r(8) by blast
  next
    assume r: ?r
    then obtain item rest where items1: "items = item # rest" "length rest = n" by (metis length_Suc_conv)
    from r obtain all_costs where "list_all2 (good_item env (mb_limits b)) items all_costs"
      "b' = charged (sum_list all_costs) (Suc n) b" "within b'" by blast
    then obtain cost costs where items: "items = item # rest" "list_all2 (good_item env (mb_limits b)) rest costs"
      "good_item env (mb_limits b) item cost" "b' = charged (cost + sum_list costs) (Suc n) b" "within b'"
      unfolding items1 list_all2_Cons1 by auto
    have r: "length rest = n" "e = offset + length (concat (map item_bytes items))" "e \<le> length body"
        "drop offset body = concat (map item_bytes items) @ drop e body" "\<forall>item \<in> set items. utf8_item item"
      using r items1(2) by blast+
    let ?o = "offset + length (item_bytes item)" and ?b = "charged cost 1 b"
    have "drop ?o body = drop (length (item_bytes item)) (drop offset body)" by (simp only: drop_drop add.commute)
    also have "\<dots> = concat (map item_bytes rest) @ drop e body" unfolding r(4) items by simp
    finally have d: "drop ?o body = concat (map item_bytes rest) @ drop e body" .
    have b: "b' = charged (sum_list costs) n ?b" "within ?b"
      using items(4,5) within_mono [of cost "sum_list costs" 1 n b] by simp_all
    have "parse_item env body offset b = Inr (item, ?o, ?b)"
      using parse_item_iff [OF res len Suc.prems(1)] r d items b(2) by auto
    moreover have "parse_items env body n ?o ?b = Inr (rest, e, b')"
      using Suc.IH [OF b(2), of ?o rest] r d items b by auto
    ultimately show ?l using items(1) by simp
  qed
qed

lemma field_length_iff: "field_length item = Inr n \<longleftrightarrow>
    n = length (fst item) + 1 + length (snd item) \<and> n < 2 ^ 64"
  by (auto simp: field_length_def bind_eq_Some_conv)

lemma measure_items_iff:
  "within b \<Longrightarrow> out < 2 ^ 64 \<Longrightarrow> try_fold (measure_item env) (out, b) items = Inr (out', b') \<longleftrightarrow>
    out' = out + length (concat (map item_bytes items)) \<and> out' < 2 ^ 64
      \<and> (\<exists>costs. list_all2 (good_item env (mb_limits b)) items costs
          \<and> b' = charged (sum_list costs) (length items) b \<and> within b')"
proof (induction items arbitrary: out b)
  case Nil
  then show ?case by (auto simp: list_all2_Nil)
next
  case (Cons item items)
  have step: "measure_item env (out, b) item = Inr (out1, b1) \<longleftrightarrow>
      out1 = out + length (item_bytes item) \<and> out1 < 2 ^ 64
        \<and> (\<exists>cost. good_item env (mb_limits b) item cost \<and> b1 = charged cost 1 b \<and> within b1)" for out1 b1
  proof
    assume "measure_item env (out, b) item = Inr (out1, b1)"
    then show "out1 = out + length (item_bytes item) \<and> out1 < 2 ^ 64
        \<and> (\<exists>cost. good_item env (mb_limits b) item cost \<and> b1 = charged cost 1 b \<and> within b1)"
      using Cons.prems(1)
      by (auto simp: measure_item_def and_then_Inr_iff field_length_iff check_item_within charge_picture_item_iff
          bind_eq_Some_conv good_item_def good_key_def)
  next
    assume r: "out1 = out + length (item_bytes item) \<and> out1 < 2 ^ 64
        \<and> (\<exists>cost. good_item env (mb_limits b) item cost \<and> b1 = charged cost 1 b \<and> within b1)"
    then obtain cost where c: "good_item env (mb_limits b) item cost" "b1 = charged cost 1 b" "within b1" by blast
    have m: "within (charged 0 1 b)" using within_mono [of 0 cost 1 0 b] c by simp
    show "measure_item env (out, b) item = Inr (out1, b1)"
      using r c Cons.prems(1) m
      by (auto simp: measure_item_def and_then_Inr_iff field_length_iff check_item_within charge_picture_item_iff
          bind_eq_Some_conv good_item_def good_key_def)
  qed
  show ?case (is "?l \<longleftrightarrow> ?r")
  proof
    assume ?l
    then obtain out1 b1 where p: "measure_item env (out, b) item = Inr (out1, b1)"
      "try_fold (measure_item env) (out1, b1) items = Inr (out', b')" by (auto simp: and_then_Inr_iff)
    then obtain cost where i: "out1 = out + length (item_bytes item)" "out1 < 2 ^ 64"
      "good_item env (mb_limits b) item cost" "b1 = charged cost 1 b" "within b1" using step by blast
    obtain costs where r: "out' = out1 + length (concat (map item_bytes items))" "out' < 2 ^ 64"
      "list_all2 (good_item env (mb_limits b)) items costs" "b' = charged (sum_list costs) (length items) b1" "within b'"
      using p(2) Cons.IH [OF i(5,2)] i(4) by auto
    have "list_all2 (good_item env (mb_limits b)) (item # items) (cost # costs)"
      "b' = charged (sum_list (cost # costs)) (length (item # items)) b" using r(3,4) i(3,4) by simp_all
    moreover have "out' = out + length (concat (map item_bytes (item # items)))" using r(1) i(1) by simp
    ultimately show ?r using r(2,5) by blast
  next
    assume ?r
    then obtain cost costs where r: "good_item env (mb_limits b) item cost" "list_all2 (good_item env (mb_limits b)) items costs"
      "b' = charged (cost + sum_list costs) (Suc (length items)) b" "within b'"
      "out' = out + length (item_bytes item) + length (concat (map item_bytes items))" "out' < 2 ^ 64"
      by (auto simp: list_all2_Cons1)
    let ?o = "out + length (item_bytes item)" and ?b = "charged cost 1 b"
    have b: "b' = charged (sum_list costs) (length items) ?b" "within ?b"
      using r(3,4) within_mono [of cost "sum_list costs" 1 "length items" b] by simp_all
    have "measure_item env (out, b) item = Inr (?o, ?b)" using step r b by auto
    moreover have "try_fold (measure_item env) (?o, ?b) items = Inr (out', b')"
      using Cons.IH [OF b(2), of ?o] r b by auto
    ultimately show ?l by simp
  qed
qed

section \<open>Properties\<close>

definition utf8_comments :: "vorbis_comments \<Rightarrow> bool" where
  "utf8_comments c \<longleftrightarrow> utf8_text (vc_vendor c) \<and> (\<forall>item \<in> set (vc_items c). utf8_item item)"

text \<open>What both directions come down to.\<close>

definition comments_fit :: "meta_env \<Rightarrow> metadata_limits \<Rightarrow> vorbis_comments \<Rightarrow> metadata_budget \<Rightarrow> bool" where
  "comments_fit env limits c b \<longleftrightarrow>
    length (vc_vendor c) \<le> max_item_bytes limits \<and> length (vc_vendor c) < 2 ^ 32
    \<and> length (vc_items c) \<le> max_items limits \<and> length (vc_items c) < 2 ^ 32
    \<and> (\<exists>costs. list_all2 (good_item env limits) (vc_items c) costs
        \<and> b = charged (length (comment_bytes c) + sum_list costs) (length (vc_items c)) (budget_of limits) \<and> within b)"

lemma length_comment_bytes:
  "length (comment_bytes c) = 8 + length (vc_vendor c) + length (concat (map item_bytes (vc_items c)))"
  by (simp add: comment_bytes_def del: length_concat)

lemma serialize_iff:
  assumes res: "\<And>n. me_reserve env n"
  shows "serialize_comment_body env c (budget_of limits) = Inr (bytes, b)
    \<longleftrightarrow> bytes = comment_bytes c \<and> comments_fit env limits c b" (is "?l \<longleftrightarrow> ?r")
proof
  assume ?l
  then obtain out b1 where
      f: "try_fold (measure_item env) (8 + length (vc_vendor c), budget_of limits) (vc_items c) = Inr (out, b1)"
      and small: "8 + length (vc_vendor c) < 2 ^ 64" and b: "charge_bytes b1 out = Inr b"
      and rest: "length (vc_vendor c) \<le> max_item_bytes limits" "length (vc_vendor c) < 2 ^ 32"
        "length (vc_items c) \<le> max_items limits" "length (vc_items c) < 2 ^ 32" "bytes = comment_bytes c"
    by (auto simp: serialize_comment_body_def and_then_Inr_iff and_then_unit_iff bind_eq_Some_conv budget_of_def
        add.commute add.left_commute)
  obtain costs where "out = length (comment_bytes c)"
      "list_all2 (good_item env limits) (vc_items c) costs"
      "b1 = charged (sum_list costs) (length (vc_items c)) (budget_of limits)" "within b1"
    using f measure_items_iff [OF within_budget_of small, of env limits "vc_items c" out b1] length_comment_bytes [of c]
    by (auto simp: budget_of_def)
  then show ?r using b rest by (auto simp: comments_fit_def charge_bytes_within add.commute)
next
  assume ?r
  then obtain costs where r: "bytes = comment_bytes c" "length (vc_vendor c) \<le> max_item_bytes limits" "length (vc_vendor c) < 2 ^ 32"
      "length (vc_items c) \<le> max_items limits" "length (vc_items c) < 2 ^ 32"
      "list_all2 (good_item env limits) (vc_items c) costs"
      "b = charged (length (comment_bytes c) + sum_list costs) (length (vc_items c)) (budget_of limits)" "within b"
    unfolding comments_fit_def by blast
  let ?b = "charged (sum_list costs) (length (vc_items c)) (budget_of limits)"
  have small: "8 + length (vc_vendor c) < 2 ^ 64" using r(3) by simp
  have w: "within ?b" using within_mono [of "sum_list costs" "length (comment_bytes c)" _ 0] r(7,8) by (simp add: add.commute)
  have out: "length (comment_bytes c) < 2 ^ 64" using r(7,8) by (simp add: within_def)
  have "try_fold (measure_item env) (8 + length (vc_vendor c), budget_of limits) (vc_items c) = Inr (length (comment_bytes c), ?b)"
    using measure_items_iff [OF within_budget_of small, of env limits "vc_items c"] length_comment_bytes [of c] r(6) w out
    by (auto simp: budget_of_def)
  moreover have "charge_bytes ?b (length (comment_bytes c)) = Inr b"
    using r(7,8) w by (simp add: charge_bytes_within add.commute)
  moreover have "Option.bind (usize_add 4 (length (vc_vendor c))) (\<lambda>size. usize_add size 4) = Some (8 + length (vc_vendor c))"
    using small by (simp add: bind_eq_Some_conv)
  ultimately show ?l using r res by (simp add: serialize_comment_body_def reserve_def budget_of_def)
qed

lemma word_of_unat32: "unat (w :: u32) = n \<Longrightarrow> w = word_of_nat n"
  by auto

lemma parse_iff:
  assumes res: "\<And>n. me_reserve env n"
  shows "parse_comment_body env bytes (budget_of limits) = Inr (c, b)
    \<longleftrightarrow> bytes = comment_bytes c \<and> comments_fit env limits c b \<and> utf8_comments c" (is "?l \<longleftrightarrow> ?r")
proof
  assume ?l
  then obtain b0 vl o1 vendor_bytes cnt o2 items where
      b0: "charge_bytes (budget_of limits) (length bytes) = Inr b0"
      and vl: "read_u32_le bytes 0 = Inr (vl, o1)" "unat vl \<le> max_item_bytes (mb_limits b0)"
      and vb: "slice_get bytes o1 (o1 + unat vl) = Some vendor_bytes" "from_utf8 vendor_bytes = Inr (vc_vendor c)"
      and cnt: "read_u32_le bytes (o1 + unat vl) = Inr (cnt, o2)" "unat cnt \<le> max_items (mb_limits b0)"
      and items: "parse_items env bytes (unat cnt) o2 b0 = Inr (items, length bytes, b)"
      and c: "vc_items c = items"
    by (auto simp: parse_comment_body_def and_then_Inr_iff and_then_unit_iff)
  have b0': "b0 = charged (length bytes) 0 (budget_of limits)" "within b0" "length bytes < 2 ^ 64"
    using b0 charge_bytes_within [OF within_budget_of] by (auto simp: within_def budget_of_def)
  note rd = read_u32_le_iff [OF b0'(3)]
  have v: "o1 = 4" "bytes = to_le 4 vl @ drop 4 bytes" using vl(1) rd by auto
  have vb': "o1 + unat vl \<le> length bytes" "length vendor_bytes = unat vl" "drop 4 bytes = vendor_bytes @ drop (4 + unat vl) bytes"
    using vb(1) slice_get_iff [of bytes 4] v(1) by auto
  have vendor: "vendor_bytes = as_bytes (vc_vendor c)" "utf8_text (vc_vendor c)" using vb(2) from_utf8_iff by auto
  have o2: "o2 = 4 + unat vl + 4" "o2 \<le> length bytes" "drop (4 + unat vl) bytes = to_le 4 cnt @ drop o2 bytes"
    using cnt(1) rd v(1) by auto
  obtain costs where i: "length items = unat cnt" "drop o2 bytes = concat (map item_bytes items)" "\<forall>item \<in> set items. utf8_item item"
      "list_all2 (good_item env limits) items costs" "b = charged (sum_list costs) (unat cnt) b0" "within b"
    using items parse_items_iff [OF res b0'(3,2) o2(2), of "unat cnt" items "length bytes" b] b0'(1) by (auto simp: budget_of_def)
  have words: "vl = word_of_nat (length (vc_vendor c))" "cnt = word_of_nat (length items)"
    using vb'(2) vendor(1) i(1) by (auto intro: word_of_unat32)
  have "bytes = to_le 4 vl @ as_bytes (vc_vendor c) @ to_le 4 cnt @ concat (map item_bytes items)"
    using v(2) unfolding vb'(3) o2(3) i(2) vendor(1) .
  then have bytes: "bytes = comment_bytes c" by (simp only: comment_bytes_def c words)
  moreover have "unat vl < 2 ^ 32" "unat cnt < 2 ^ 32" using unsigned_less [of vl] unsigned_less [of cnt] by simp_all
  moreover have "length (vc_vendor c) = unat vl" using vb'(2) vendor(1) by simp
  moreover have "b = charged (length (comment_bytes c) + sum_list costs) (length (vc_items c)) (budget_of limits)"
    using i(1,5) b0'(1) bytes c by simp
  ultimately show ?r using vl(2) cnt(2) i c b0'(1) vendor(2)
    by (auto simp: comments_fit_def utf8_comments_def budget_of_def)
next
  assume ?r
  then obtain costs where bytes: "bytes = comment_bytes c" and u: "utf8_comments c"
      and r: "length (vc_vendor c) \<le> max_item_bytes limits" "length (vc_vendor c) < 2 ^ 32"
      "length (vc_items c) \<le> max_items limits" "length (vc_items c) < 2 ^ 32"
      "list_all2 (good_item env limits) (vc_items c) costs"
      "b = charged (length bytes + sum_list costs) (length (vc_items c)) (budget_of limits)" "within b"
    unfolding comments_fit_def by blast
  define v where "v = length (vc_vendor c)"
  define k where "k = length (vc_items c)"
  define b0 where "b0 = charged (length bytes) 0 (budget_of limits)"
  have b0: "within b0" "b = charged (sum_list costs) k b0" "mb_limits b0 = limits"
    using within_mono [of "length bytes" "sum_list costs" 0 k] r(6,7) by (simp_all add: b0_def k_def budget_of_def)
  then have small: "length bytes < 2 ^ 64" by (simp add: within_def b0_def)
  note rd = read_u32_le_iff [OF small]
  have w: "unat (word_of_nat v :: u32) = v" "unat (word_of_nat k :: u32) = k"
    using r(2,4) unfolding v_def k_def by (auto intro!: unat_word_of_nat_lt)
  let ?items = "concat (map item_bytes (vc_items c))"
  have shape: "bytes = to_le 4 (word_of_nat v :: u32) @ as_bytes (vc_vendor c) @ to_le 4 (word_of_nat k :: u32) @ ?items"
    by (simp only: bytes comment_bytes_def v_def k_def)
  have len: "length bytes = 8 + v + length ?items" using length_comment_bytes [of c] by (simp add: bytes v_def)
  have d: "drop 4 bytes = as_bytes (vc_vendor c) @ to_le 4 (word_of_nat k :: u32) @ ?items"
    "drop (4 + v) bytes = to_le 4 (word_of_nat k :: u32) @ ?items" "drop (8 + v) bytes = ?items"
    unfolding shape by (simp_all add: v_def)
  have "charge_bytes (budget_of limits) (length bytes) = Inr b0"
    using charge_bytes_within [OF within_budget_of] b0(1) b0_def by simp
  moreover have "read_u32_le bytes 0 = Inr (word_of_nat v, 4)" using rd [of 0] shape d(1) len by simp
  moreover have "slice_get bytes 4 (4 + v) = Some (as_bytes (vc_vendor c))"
    using slice_get_iff [of bytes 4 v] d(1,2) len by (simp add: v_def)
  moreover have "from_utf8 (as_bytes (vc_vendor c)) = Inr (vc_vendor c)" using u from_utf8_iff by (simp add: utf8_comments_def)
  moreover have "read_u32_le bytes (4 + v) = Inr (word_of_nat k, 8 + v)" using rd [of "4 + v"] d(2,3) len by (simp add: add.commute)
  moreover have "parse_items env bytes k (8 + v) b0 = Inr (vc_items c, length bytes, b)"
    using parse_items_iff [OF res small b0(1), of "8 + v" k "vc_items c"] d(3) len u r(5,7) b0(2,3)
    by (auto simp: utf8_comments_def k_def)
  moreover have "usize_add 4 v = Some (4 + v)" using small len by simp
  ultimately show ?l
    using res w r(1,3) b0(3) by (simp add: parse_comment_body_def reserve_def v_def k_def)
qed

text \<open>C36: Comments are kept losslessly. For comments whose texts are UTF-8 (as every Rust string is)
  and an allocator that does not fail, \<open>serialize_comment_body\<close> writes given bytes at a given
  charge exactly when \<open>parse_comment_body\<close> reads those bytes back as the same vendor and the
  same fields in the same order, duplicates, key case and empty values included, at the same charge.
  So reading undoes writing, and no two byte sequences mean the same comments.\<close>

theorem comment_body_roundtrip:
  assumes "\<And>n. me_reserve env n" and "utf8_comments c"
  shows "serialize_comment_body env c (budget_of limits) = Inr (bytes, b)
    \<longleftrightarrow> parse_comment_body env bytes (budget_of limits) = Inr (c, b)"
  using serialize_iff [OF assms(1)] parse_iff [OF assms(1)] assms(2) by blast

section \<open>What a merge keeps\<close>

definition tallies :: "occurrences \<Rightarrow> (string \<times> string) multiset \<Rightarrow> bool" where
  "tallies seen M \<longleftrightarrow> (\<forall>k. (case seen k of None \<Rightarrow> 0 | Some n \<Rightarrow> n) = count M k)"

definition kept_items :: "bool \<Rightarrow> vorbis_comments \<Rightarrow> (string \<times> string) list" where
  "kept_items skip source = filter (\<lambda>item. \<not> (skip \<and> is_vorbis_picture_key (fst item))) (vc_items source)"

lemma merge_source_items:
  "try_fold (merge_source_item env limits skip) (seen, items) new = Inr (seen', items') \<Longrightarrow> tallies seen M \<Longrightarrow>
     items' = items @ filter (\<lambda>item. \<not> (skip \<and> is_vorbis_picture_key (fst item))) new
     \<and> tallies seen' (M + mset (map merge_key (filter (\<lambda>item. \<not> (skip \<and> is_vorbis_picture_key (fst item))) new)))"
proof (induction new arbitrary: seen items M)
  case (Cons item new)
  from Cons.prems(1) obtain seen1 items1 where
    step: "merge_source_item env limits skip (seen, items) item = Inr (seen1, items1)"
    and rest: "try_fold (merge_source_item env limits skip) (seen1, items1) new = Inr (seen', items')"
    by (auto simp: and_then_Inr_iff)
  show ?case
  proof (cases "skip \<and> is_vorbis_picture_key (fst item)")
    case True
    then have "seen1 = seen" "items1 = items" using step by (simp_all add: merge_source_item_def)
    then show ?thesis using Cons.IH [OF rest] Cons.prems(2) True by simp
  next
    case False
    then have new: "items1 = items @ [item]"
      "seen1 = seen(merge_key item \<mapsto> (case seen (merge_key item) of None \<Rightarrow> 0 | Some n \<Rightarrow> n) + 1)"
      using step by (auto simp: merge_source_item_def Let_def and_then_Inr_iff and_then_unit_iff)
    then have "tallies seen1 (add_mset (merge_key item) M)" using Cons.prems(2) by (simp add: tallies_def)
    from Cons.IH [OF rest this] show ?thesis using False by (simp add: new(1))
  qed
qed simp

lemma merge_destination_items:
  "try_fold (merge_destination_item env limits) (seen, items) new = Inr (seen', items') \<Longrightarrow> tallies seen M \<Longrightarrow>
     \<exists>extra. items' = items @ extra \<and> subseq extra new
       \<and> mset (map merge_key extra) = mset (map merge_key new) - M"
proof (induction new arbitrary: seen items M)
  case (Cons item new)
  from Cons.prems(1) obtain seen1 items1 where
    step: "merge_destination_item env limits (seen, items) item = Inr (seen1, items1)"
    and rest: "try_fold (merge_destination_item env limits) (seen1, items1) new = Inr (seen', items')"
    by (auto simp: and_then_Inr_iff)
  let ?k = "merge_key item"
  show ?case
  proof (cases "?k \<in># M")
    case True
    then obtain n where "seen ?k = Some (Suc n)" "count M ?k = Suc n"
      using Cons.prems(2) unfolding tallies_def count_greater_zero_iff [symmetric]
      by (metis not0_implies_Suc not_gr_zero option.exhaust option.simps(4,5))
    then have new: "items1 = items" "seen1 = seen(?k \<mapsto> n)" "tallies seen1 (M - {#?k#})"
      using step Cons.prems(2) by (auto simp: merge_destination_item_def tallies_def and_then_unit_iff)
    obtain extra where e: "items' = items @ extra" "subseq extra new"
      "mset (map merge_key extra) = mset (map merge_key new) - (M - {#?k#})"
      using Cons.IH [OF rest new(3)] new(1) by blast
    have "mset (map merge_key (item # new)) - M = mset (map merge_key new) - (M - {#?k#})"
      using True by (metis diff_union_swap insert_DiffM list.simps(9) mset.simps(2) add_mset_diff_bothsides)
    then show ?thesis using e by (auto intro: exI [of _ extra])
  next
    case False
    then have "(case seen ?k of None \<Rightarrow> 0 | Some n \<Rightarrow> n) = 0" 
      using Cons.prems(2) unfolding tallies_def not_in_iff by metis
    then have "seen ?k = None \<or> seen ?k = Some 0" by (auto split: option.splits)
    then have new: "items1 = items @ [item]" "seen1 = seen"
      using step by (auto simp: merge_destination_item_def and_then_unit_iff)
    obtain extra where e: "items' = items @ item # extra" "subseq extra new"
      "mset (map merge_key extra) = mset (map merge_key new) - M"
      using Cons.IH [of seen1 items1 M] rest new Cons.prems(2) by auto
    have "mset (map merge_key (item # extra)) = mset (map merge_key (item # new)) - M"
      using e(3) False by (simp add: add_mset_remove_trivial_If diff_add_mset_swap)
    then show ?thesis using e by (intro exI [of _ "item # extra"]) simp
  qed
qed (simp add: exI [of _ "[]"])

text \<open>The source of a merge is authoritative. When \<open>merge_vorbis_comments\<close> succeeds, the result
  has the vendor of the source and begins with every field of the source, unchanged and in order
  (its pictures apart, when new pictures replace them). What follows are fields of the destination
  in their order: of each value, compared without regard to the case of its key, exactly the copies
  by which the destination has more than the source.\<close>

theorem merge_source_authoritative:
  assumes "merge_vorbis_comments env source destination skip b = Inr merged"
  shows "vc_vendor merged = vc_vendor source
    \<and> (\<exists>extra. vc_items merged = kept_items skip source @ extra \<and> subseq extra (vc_items destination)
        \<and> mset (map merge_key extra)
            = mset (map merge_key (vc_items destination)) - mset (map merge_key (kept_items skip source)))"
proof -
  from assms obtain seen items seen' where
      s: "try_fold (merge_source_item env (mb_limits b) skip) (\<lambda>_. None, []) (vc_items source) = Inr (seen, items)"
    and d: "try_fold (merge_destination_item env (mb_limits b)) (seen, items) (vc_items destination) = Inr (seen', vc_items merged)"
    and "vc_vendor merged = vc_vendor source"
    by (auto simp: merge_vorbis_comments_def Let_def and_then_Inr_iff and_then_unit_iff)
  moreover have "tallies (\<lambda>_. None) {#}" by (simp add: tallies_def)
  moreover from merge_source_items [OF s this]
  have "items = kept_items skip source" "tallies seen (mset (map merge_key (kept_items skip source)))"
    by (simp_all add: kept_items_def)
  ultimately show ?thesis using merge_destination_items [OF d] by blast
qed

definition demo_meta_env :: meta_env where
  "demo_meta_env = \<lparr>me_reserve = \<lambda>_. True, me_base64 = \<lambda>_. ([], True)\<rparr>"

definition demo_comments :: vorbis_comments where
  "demo_comments = \<lparr>vc_vendor = ''Xiph'', vc_items = [(''Title'', ''a=b''), (''TITLE'', [])]\<rparr>"

lemma demo_items:
  "good_item demo_meta_env metadata_limits_default (''Title'', ''a=b'') 0"
  "good_item demo_meta_env metadata_limits_default (''TITLE'', []) 0"
  "utf8_comments demo_comments"
  by (simp_all add: good_item_def good_key_def validate_comment_key_def as_bytes_def metadata_limits_default_def
      item_cost_def is_vorbis_picture_key_def eq_ignore_ascii_case_def utf8_comments_def utf8_item_def demo_comments_def
      utf8_text_def char_codes_def utf8_head_def)

theorem comment_body_roundtrip_witness:
  "\<exists>bytes b. serialize_comment_body demo_meta_env demo_comments (budget_of metadata_limits_default) = Inr (bytes, b)
     \<and> length bytes = 35
     \<and> parse_comment_body demo_meta_env bytes (budget_of metadata_limits_default) = Inr (demo_comments, b)"
proof -
  have res: "me_reserve demo_meta_env n" for n by (simp add: demo_meta_env_def)
  have "length (comment_bytes demo_comments) = 35" by (simp add: comment_bytes_def demo_comments_def)
  moreover from this have "comments_fit demo_meta_env metadata_limits_default demo_comments
      (charged 35 2 (budget_of metadata_limits_default))"
    using demo_items(1,2)
    by (auto simp: comments_fit_def demo_comments_def list_all2_Cons1 within_def budget_of_def metadata_limits_default_def
        intro!: exI [of _ "[0, 0]"])
  ultimately show ?thesis
    using comment_body_roundtrip [OF res demo_items(3)] serialize_iff [OF res] by blast
qed

theorem merge_source_authoritative_witness:
  "\<exists>extra. [(''Title'', ''a=b''), (''TITLE'', []), (''title'', ''c'')] = kept_items False demo_comments @ extra
     \<and> subseq extra [(''title'', []), (''title'', ''c'')]"
proof -
  let ?destination = "\<lparr>vc_vendor = ''other'', vc_items = [(''title'', []), (''title'', ''c'')]\<rparr>"
  have key: "merge_key (''Title'', v) = (''title'', v)" "merge_key (''TITLE'', v) = (''title'', v)"
    "merge_key (''title'', v) = (''title'', v)" for v
    by (simp_all add: merge_key_def ascii_lower_def latin1_bytes_def is_ascii_uppercase_def less_eq_char_def char_of_def bit_Suc_0_iff)
  have "merge_vorbis_comments demo_meta_env demo_comments ?destination False (budget_of metadata_limits_default)
    = Inr \<lparr>vc_vendor = ''Xiph'', vc_items = [(''Title'', ''a=b''), (''TITLE'', []), (''title'', ''c'')]\<rparr>"
    by (simp add: merge_vorbis_comments_def demo_comments_def budget_of_def metadata_limits_default_def key
        merge_source_item_def merge_destination_item_def admit_item_def field_length_def reserve_item_def reserve_def
        demo_meta_env_def)
  from merge_source_authoritative [OF this] show ?thesis by auto
qed

section \<open>Loops that go on after a step that succeeded\<close>

lemma and_then_cong [fundef_cong]:
  "m = n \<Longrightarrow> (\<And>x. n = Inr x \<Longrightarrow> f x = g x) \<Longrightarrow> and_then m f = and_then n g"
  by (cases n) auto

end
