(* ===== verification/Ogg_Pages.thy ===== *)
theory Ogg_Pages
  imports Vorbis_Comments
begin

text \<open>
  Pages of an Ogg stream (\<open>src/src/metadata/ogg.rs\<close>): the checksum with its table, the bytes of a
  page, and the reader that takes the next page off a stream and checks it. A stream is the list of
  the bytes that are left to read. The count that \<open>PageReader\<close> keeps for its messages is left out
  (the scan counts the same pages). \<open>page_bytes\<close> and \<open>next_page\<close> are an instance of
  \<open>record_stream\<close>, so reading a stream to its end is the inverse of writing its pages.
\<close>

unbundle bit_operations_syntax

section \<open>Checksum\<close>

definition CRC_POLYNOMIAL :: u32 where "CRC_POLYNOMIAL = 0x04c11db7"

definition crc_shift :: "u32 \<Rightarrow> u32" where
  "crc_shift v = (if v AND 0x80000000 \<noteq> 0 then push_bit 1 v XOR CRC_POLYNOMIAL else push_bit 1 v)"

definition crc_entry :: "nat \<Rightarrow> u32" where
  "crc_entry index = (crc_shift ^^ 8) (push_bit 24 (word_of_nat index))"

definition CRC_TABLE :: "u32 list" where "CRC_TABLE = map crc_entry [0..<256]"

definition crc_byte :: "u32 \<Rightarrow> u8 \<Rightarrow> u32" where
  "crc_byte crc byte = push_bit 8 crc XOR CRC_TABLE ! unat ((ucast (drop_bit 24 crc) :: u8) XOR byte)"

definition ogg_crc :: "u8 list list \<Rightarrow> u32" where
  "ogg_crc parts = foldl (foldl crc_byte) 0 parts"

section \<open>Pages\<close>

record page =
  pg_header_type :: u8
  pg_granule :: u64
  pg_serial :: u32
  pg_sequence :: u32
  pg_checksum :: u32
  pg_lacing :: "u8 list"
  pg_body :: "u8 list"

definition CAPTURE :: "u8 list" where "CAPTURE = [0x4f, 0x67, 0x67, 0x53]"
definition HEADER_LEN :: nat where "HEADER_LEN = 27"
definition MAX_SEGMENTS :: nat where "MAX_SEGMENTS = 255"
definition MAX_PAGE_BODY :: nat where "MAX_PAGE_BODY = MAX_SEGMENTS * 255"
definition CONTINUED :: u8 where "CONTINUED = 1"
definition BOS :: u8 where "BOS = 2"
definition EOS :: u8 where "EOS = 4"
definition NO_GRANULE :: u64 where "NO_GRANULE = - 1"

datatype page_error =
    PartialCapture | TruncatedHeader | BadCapture | UnsupportedVersion u8 | BadHeaderType u8
  | TruncatedLacing | BodySizeOverflow | BodyTooLong | TruncatedBody | CrcMismatch u32 u32
  | TooManyLacing | PageMemory metadata_error

definition is_continued :: "page \<Rightarrow> bool" where "is_continued p \<longleftrightarrow> pg_header_type p AND CONTINUED \<noteq> 0"
definition is_bos :: "page \<Rightarrow> bool" where "is_bos p \<longleftrightarrow> pg_header_type p AND BOS \<noteq> 0"
definition is_eos :: "page \<Rightarrow> bool" where "is_eos p \<longleftrightarrow> pg_header_type p AND EOS \<noteq> 0"

definition completed_packets :: "page \<Rightarrow> nat" where
  "completed_packets p = length (filter (\<lambda>lace. lace < 255) (pg_lacing p))"

definition encoded_len :: "page \<Rightarrow> nat" where
  "encoded_len p = HEADER_LEN + length (pg_lacing p) + length (pg_body p)"

definition header_bytes :: "page \<Rightarrow> u32 \<Rightarrow> u8 list" where
  "header_bytes p checksum =
    CAPTURE @ [0, pg_header_type p] @ to_le 8 (pg_granule p) @ to_le 4 (pg_serial p) @ to_le 4 (pg_sequence p)
      @ to_le 4 checksum @ [word_of_nat (length (pg_lacing p))]"

definition page_header :: "page \<Rightarrow> u32 \<Rightarrow> page_error + u8 list" where
  "page_header p checksum =
    and_then (fail_if (256 \<le> length (pg_lacing p)) TooManyLacing) (\<lambda>_. Inr (header_bytes p checksum))"

definition calculated_checksum :: "page \<Rightarrow> page_error + u32" where
  "calculated_checksum p =
    and_then (page_header p 0) (\<lambda>header. Inr (ogg_crc [header, pg_lacing p, pg_body p]))"

definition write_with_checksum :: "page \<Rightarrow> u32 \<Rightarrow> page_error + u8 list" where
  "write_with_checksum p checksum =
    and_then (page_header p checksum) (\<lambda>header. Inr (header @ pg_lacing p @ pg_body p))"

definition write_original :: "page \<Rightarrow> page_error + u8 list" where
  "write_original p = write_with_checksum p (pg_checksum p)"

definition write_recomputed :: "page \<Rightarrow> page_error + u8 list" where
  "write_recomputed p = and_then (calculated_checksum p) (write_with_checksum p)"

definition body_length :: "u8 list \<Rightarrow> page_error + nat" where
  "body_length lacing = try_fold (\<lambda>total lace. ok_or (usize_add total (unat lace)) BodySizeOverflow) 0 lacing"

text \<open>\<open>read_exact_or_eof\<close> of the four bytes of the capture pattern.\<close>

definition read_capture :: "u8 list \<Rightarrow> page_error + (u8 list \<times> u8 list) option" where
  "read_capture stream =
    (if stream = [] then Inr None
     else and_then (read_exact PartialCapture 4 stream) (\<lambda>p. Inr (Some p)))"

text \<open>The fields behind the capture pattern, by their offsets in the header.\<close>

definition page_of_header :: "u8 list \<Rightarrow> u8 list \<Rightarrow> u8 list \<Rightarrow> page" where
  "page_of_header header lacing body =
    \<lparr>pg_header_type = header ! 5, pg_granule = of_le (take 8 (drop 6 header)),
     pg_serial = of_le (take 4 (drop 14 header)), pg_sequence = of_le (take 4 (drop 18 header)),
     pg_checksum = of_le (take 4 (drop 22 header)), pg_lacing = lacing, pg_body = body\<rparr>"

definition clear_checksum :: "u8 list \<Rightarrow> u8 list" where
  "clear_checksum header = take 22 header @ [0, 0, 0, 0] @ drop 26 header"

definition check_crc :: "u8 list \<Rightarrow> u8 list \<Rightarrow> u8 list \<Rightarrow> page_error + unit" where
  "check_crc header lacing body =
    (let stored = of_le (take 4 (drop 22 header)); calculated = ogg_crc [clear_checksum header, lacing, body]
     in fail_if (calculated \<noteq> stored) (CrcMismatch stored calculated))"

definition finish_page :: "meta_env \<Rightarrow> u8 list \<Rightarrow> u8 list \<Rightarrow> page_error + page \<times> u8 list" where
  "finish_page env header stream =
    and_then (map_err PageMemory (reserve env (unat (header ! 26)))) (\<lambda>_.
    and_then (read_exact TruncatedLacing (unat (header ! 26)) stream) (\<lambda>(lacing, stream).
    and_then (body_length lacing) (\<lambda>body_len.
    and_then (fail_if (MAX_PAGE_BODY < body_len) BodyTooLong) (\<lambda>_.
    and_then (map_err PageMemory (reserve env body_len)) (\<lambda>_.
    and_then (read_exact TruncatedBody body_len stream) (\<lambda>(body, stream).
    and_then (check_crc header lacing body) (\<lambda>_.
    Inr (page_of_header header lacing body, stream))))))))"

definition next_page :: "meta_env \<Rightarrow> u8 list \<Rightarrow> page_error + (page \<times> u8 list) option" where
  "next_page env stream =
    and_then (read_capture stream) (\<lambda>read. case read of
      None \<Rightarrow> Inr None
    | Some (capture, stream) \<Rightarrow>
        and_then (read_exact TruncatedHeader (HEADER_LEN - 4) stream) (\<lambda>(fields, stream).
        let header = capture @ fields in
        and_then (fail_if (capture \<noteq> CAPTURE) BadCapture) (\<lambda>_.
        and_then (fail_if (header ! 4 \<noteq> 0) (UnsupportedVersion (header ! 4))) (\<lambda>_.
        and_then (fail_if (header ! 5 AND NOT (CONTINUED OR BOS OR EOS) \<noteq> 0) (BadHeaderType (header ! 5))) (\<lambda>_.
        and_then (finish_page env header stream) (\<lambda>p. Inr (Some p)))))))"

text \<open>A stream read to its end.\<close>

definition read_pages :: "meta_env \<Rightarrow> u8 list \<Rightarrow> page_error + page list" where
  "read_pages env stream = read_records (next_page env) (length stream) stream"

section \<open>The checksum is the remainder of a shift register\<close>

text \<open>The register takes the bits of the message one at a time, the high bit of a byte first.\<close>

definition bit_step :: "u32 \<Rightarrow> bool \<Rightarrow> u32" where
  "bit_step v b = (if bit v 31 \<noteq> b then push_bit 1 v XOR CRC_POLYNOMIAL else push_bit 1 v)"

definition byte_bits :: "u8 \<Rightarrow> bool list" where "byte_bits b = map (\<lambda>k. bit b (7 - k)) [0..<8]"

definition bit_register :: "u8 list \<Rightarrow> u32" where
  "bit_register message = foldl bit_step 0 (concat (map byte_bits message))"

lemma bit_twice: "bit (v * 2) i \<longleftrightarrow> i \<noteq> 0 \<and> i < 32 \<and> bit v (i - 1)" for v :: u32
  unfolding mult.commute [of v 2] by (auto simp: bit_double_iff)

lemma crc_shift_bit: "crc_shift v = (if bit v 31 then push_bit 1 v XOR CRC_POLYNOMIAL else push_bit 1 v)"
proof -
  have "v AND 0x80000000 \<noteq> 0 \<longleftrightarrow> bit v 31"
    using and_exp_eq_0_iff_not_bit [of v 31] by simp
  then show ?thesis by (simp add: crc_shift_def)
qed

lemma crc_shift_xor: "crc_shift (v XOR w) = crc_shift v XOR crc_shift w"
  by (rule bit_eqI) (auto simp: crc_shift_bit bit_simps)

lemma crc_shifts_xor: "(crc_shift ^^ n) (v XOR w) = (crc_shift ^^ n) v XOR (crc_shift ^^ n) w"
  by (induction n) (simp_all add: crc_shift_xor)

lemma bit_step_shift: "bit_step v b = crc_shift (v XOR push_bit 31 (of_bool b))"
  by (rule bit_eqI) (auto simp: bit_step_def crc_shift_bit bit_simps)

text \<open>While the high bits are clear, the register only shifts.\<close>

lemma crc_shifts_low: "\<forall>i. 32 - n \<le> i \<longrightarrow> \<not> bit v i \<Longrightarrow> n \<le> 32 \<Longrightarrow> (crc_shift ^^ n) v = push_bit n v"
proof (induction n arbitrary: v)
  case (Suc n)
  have "\<not> bit v 31" using Suc.prems by simp
  then have "crc_shift v = push_bit 1 v" by (simp add: crc_shift_bit)
  moreover have "\<forall>i. 32 - n \<le> i \<longrightarrow> \<not> bit (push_bit 1 v) i"
    using Suc.prems by (auto simp: bit_twice)
  ultimately show ?case using Suc.IH [of "push_bit 1 v"] Suc.prems by (simp add: funpow_swap1)
qed simp

lemma crc_shift_inj: "crc_shift v = crc_shift w \<Longrightarrow> v = w"
proof -
  assume eq: "crc_shift v = crc_shift w"
  have poly: "bit CRC_POLYNOMIAL 0" by (simp add: CRC_POLYNOMIAL_def)
  have "bit (crc_shift v) 0 = bit v 31" "bit (crc_shift w) 0 = bit w 31"
    using poly by (auto simp: crc_shift_bit bit_xor_iff bit_twice)
  then have top: "bit v 31 = bit w 31" using eq by simp
  have same: "push_bit 1 v = push_bit 1 w"
  proof (cases "bit v 31")
    case True
    then have "(push_bit 1 v XOR CRC_POLYNOMIAL) XOR CRC_POLYNOMIAL = (push_bit 1 w XOR CRC_POLYNOMIAL) XOR CRC_POLYNOMIAL"
      using eq top by (simp add: crc_shift_bit)
    then show ?thesis by (simp only: xor.assoc xor_self_eq xor.right_neutral)
  next
    case False
    then show ?thesis using eq top by (simp add: crc_shift_bit)
  qed
  have low: "bit v i = bit w i" if "i < 31" for i
    using arg_cong [OF same, of "\<lambda>x. bit x (Suc i)"] that by (simp add: bit_twice)
  show "v = w"
  proof (rule bit_eqI)
    fix i assume "possible_bit TYPE(32 word) i"
    then have "i < 31 \<or> i = 31" by (auto simp: possible_bit_def)
    then show "bit v i = bit w i" using low top by auto
  qed
qed

lemma crc_shifts_inj: "(crc_shift ^^ n) v = (crc_shift ^^ n) w \<Longrightarrow> v = w"
  by (induction n) (auto dest: crc_shift_inj)

text \<open>One byte by the table is eight shifts.\<close>

lemma crc_byte_shifts: "crc_byte crc b = (crc_shift ^^ 8) (crc XOR push_bit 24 (ucast b))"
proof -
  define i where "i = (ucast (drop_bit 24 crc) :: u8) XOR b"
  have "crc XOR push_bit 24 (ucast b) = push_bit 24 (ucast i) XOR take_bit 24 crc"
    unfolding i_def by (rule bit_eqI) (auto simp: bit_simps)
  moreover have "(crc_shift ^^ 8) (take_bit 24 crc) = push_bit 8 (take_bit 24 crc)"
    by (rule crc_shifts_low) (auto simp: bit_simps)
  moreover have "push_bit 8 (take_bit 24 crc) = push_bit 8 crc" by (rule bit_eqI) (auto simp: bit_simps)
  moreover have "CRC_TABLE ! unat i = (crc_shift ^^ 8) (push_bit 24 (ucast i))"
    using unat_lt8 [of i] by (simp add: CRC_TABLE_def crc_entry_def)
  ultimately show ?thesis
    unfolding crc_byte_def i_def [symmetric] by (simp add: crc_shifts_xor xor.commute)
qed

text \<open>Up to 32 bits enter the register as the word they make up, aligned to its top.\<close>

fun pack_bits :: "bool list \<Rightarrow> u32" where
  "pack_bits [] = 0"
| "pack_bits (b # bs) = push_bit 31 (of_bool b) XOR drop_bit 1 (pack_bits bs)"

lemma bit_pack_bits: "bit (pack_bits bs) i \<longleftrightarrow> i < 32 \<and> 31 - i < length bs \<and> bs ! (31 - i)"
proof (induction bs arbitrary: i)
  case (Cons b bs)
  show ?case
  proof (cases "i < 31")
    case True
    then have "31 - i = Suc (31 - Suc i)" by simp
    then show ?thesis using True by (auto simp: bit_simps Cons)
  next
    case False
    then show ?thesis by (auto simp: bit_simps Cons)
  qed
qed simp

lemma bits_shifts: "length bs \<le> 32 \<Longrightarrow> foldl bit_step v bs = (crc_shift ^^ length bs) (v XOR pack_bits bs)"
proof (induction bs arbitrary: v)
  case (Cons b bs)
  have "\<not> bit (drop_bit 1 (pack_bits bs)) 31" by (simp add: bit_simps bit_pack_bits)
  then have "crc_shift (drop_bit 1 (pack_bits bs)) = push_bit 1 (drop_bit 1 (pack_bits bs))"
    by (simp add: crc_shift_bit del: push_bit_of_1)
  also have "\<dots> = pack_bits bs"
  proof (rule bit_eqI)
    fix i assume "possible_bit TYPE(32 word) i"
    then show "bit (push_bit 1 (drop_bit 1 (pack_bits bs))) i = bit (pack_bits bs) i"
      using Cons.prems by (cases "i = 0") (auto simp: bit_simps bit_twice bit_pack_bits)
  qed
  finally have "bit_step v b XOR pack_bits bs = crc_shift (v XOR pack_bits (b # bs))"
    by (simp add: bit_step_shift crc_shift_xor xor.assoc)
  then show ?case using Cons by (simp add: funpow_swap1)
qed simp

lemma pack_bits_inj: "length bs = length cs \<Longrightarrow> length bs \<le> 32 \<Longrightarrow> pack_bits bs = pack_bits cs \<Longrightarrow> bs = cs"
proof (rule nth_equalityI)
  fix k assume k: "length bs = length cs" "length bs \<le> 32" "pack_bits bs = pack_bits cs" "k < length bs"
  then have "bit (pack_bits bs) (31 - k) = bit (pack_bits cs) (31 - k)" by simp
  moreover have "31 - (31 - k) = k" "31 - k < 32" using k by simp_all
  ultimately show "bs ! k = cs ! k" using k unfolding bit_pack_bits by simp
qed

lemma byte_bits_shifts: "foldl bit_step crc (byte_bits b) = (crc_shift ^^ 8) (crc XOR push_bit 24 (ucast b))"
proof -
  have "pack_bits (byte_bits b) = push_bit 24 (ucast b)"
  proof (rule bit_eqI)
    fix i assume "possible_bit TYPE(32 word) i"
    then show "bit (pack_bits (byte_bits b)) i = bit (push_bit 24 (ucast b) :: u32) i"
      by (auto simp: bit_pack_bits byte_bits_def bit_simps)
  qed
  then show ?thesis using bits_shifts [of "byte_bits b" crc] by (simp add: byte_bits_def)
qed

lemma foldl_concat: "foldl f v (concat xss) = foldl (foldl f) v xss"
  by (induction xss arbitrary: v) simp_all

lemma crc_bytes: "foldl crc_byte v bs = foldl bit_step v (concat (map byte_bits bs))"
proof -
  have "crc_byte crc b = foldl bit_step crc (byte_bits b)" for crc b
    by (simp only: crc_byte_shifts byte_bits_shifts)
  then have "crc_byte = (\<lambda>crc b. foldl bit_step crc (byte_bits b))" by blast
  then show ?thesis by (simp add: foldl_concat foldl_map)
qed

text \<open>The table computes the checksum of the format. \<open>ogg_crc\<close> of any parts is the state of the
  32-bit shift register with the polynomial of the Ogg format after the bits of the parts, in their
  order and from the high bit of each byte.\<close>

theorem crc_is_bit_register: "ogg_crc parts = bit_register (concat parts)"
proof -
  have "ogg_crc parts = foldl crc_byte 0 (concat parts)" by (simp add: ogg_crc_def foldl_concat)
  then show ?thesis by (simp add: crc_bytes bit_register_def)
qed

section \<open>What the checksum detects\<close>

lemma xor_cancel: "v XOR x = w XOR x \<longleftrightarrow> v = w" "x XOR v = x XOR w \<longleftrightarrow> v = w" for v :: u32
  by (auto simp: bit_eq_iff bit_simps)

lemma bit_step_inj: "bit_step v b = bit_step w b \<Longrightarrow> v = w"
  unfolding bit_step_shift by (drule crc_shift_inj) (simp only: xor_cancel)

lemma register_inj: "foldl bit_step v bs = foldl bit_step w bs \<Longrightarrow> v = w"
  by (induction bs arbitrary: v w) (auto dest: bit_step_inj)

lemma length_byte_bits [simp]: "length (byte_bits b) = 8"
  by (simp add: byte_bits_def)

lemma byte_bits_inj: "byte_bits b = byte_bits c \<Longrightarrow> b = c"
proof (rule bit_eqI)
  fix i assume eq: "byte_bits b = byte_bits c" and "possible_bit TYPE(8 word) i"
  then have "i < 8" "7 - i < 8" by (simp_all add: possible_bit_def)
  then show "bit b i = bit c i"
    using arg_cong [OF eq, of "\<lambda>bs. bs ! (7 - i)"] by (simp add: byte_bits_def)
qed

lemma bytes_bits_inj:
  "length bs = length cs \<Longrightarrow> concat (map byte_bits bs) = concat (map byte_bits cs) \<Longrightarrow> bs = cs"
  by (induction bs cs rule: list_induct2) (auto dest: byte_bits_inj)

lemma length_bytes_bits: "length (concat (map byte_bits bs)) = 8 * length bs"
  by (induction bs) simp_all

text \<open>Bytes that differ within four consecutive ones have different checksums.\<close>

lemma crc_burst:
  assumes "length w = length w'" and "length w \<le> 4"
    and "ogg_crc [h, l, u @ w @ v] = ogg_crc [h, l, u @ w' @ v]"
  shows "w = w'"
proof -
  let ?s = "foldl crc_byte (foldl crc_byte (foldl crc_byte 0 h) l) u"
  have "foldl bit_step (foldl crc_byte ?s w) (concat (map byte_bits v))
      = foldl bit_step (foldl crc_byte ?s w') (concat (map byte_bits v))"
    using assms(3) by (simp add: ogg_crc_def crc_bytes [of _ v])
  then have "foldl crc_byte ?s w = foldl crc_byte ?s w'" by (rule register_inj)
  then have eq: "foldl bit_step ?s (concat (map byte_bits w)) = foldl bit_step ?s (concat (map byte_bits w'))"
    by (simp only: crc_bytes [of _ w] crc_bytes [of _ w'])
  let ?b = "concat (map byte_bits w)" and ?b' = "concat (map byte_bits w')"
  have len: "length ?b \<le> 32" "length ?b' = length ?b"
    using assms(1,2) length_bytes_bits [of w] length_bytes_bits [of w'] by simp_all
  have "?s XOR pack_bits ?b = ?s XOR pack_bits ?b'"
    using eq len crc_shifts_inj [of "length ?b"] by (simp add: bits_shifts del: length_concat)
  then have "pack_bits ?b = pack_bits ?b'" by (simp only: xor_cancel)
  then have "?b = ?b'" using len pack_bits_inj by metis
  then show ?thesis by (rule bytes_bits_inj [OF assms(1)])
qed

section \<open>Reading what was written\<close>

definition page_bytes :: "page \<Rightarrow> u8 list" where
  "page_bytes p = header_bytes p (pg_checksum p) @ pg_lacing p @ pg_body p"

definition page_crc :: "page \<Rightarrow> u32" where
  "page_crc p = ogg_crc [header_bytes p 0, pg_lacing p, pg_body p]"

text \<open>The pages that the reader can return: a known type, a lacing table that gives the length of the
  body, the right checksum, and memory for both.\<close>

definition page_shape :: "page \<Rightarrow> bool" where
  "page_shape p \<longleftrightarrow> pg_header_type p AND NOT (CONTINUED OR BOS OR EOS) = 0
     \<and> length (pg_lacing p) \<le> MAX_SEGMENTS \<and> length (pg_body p) = sum_list (map unat (pg_lacing p))"

definition page_admitted :: "meta_env \<Rightarrow> page \<Rightarrow> bool" where
  "page_admitted env p \<longleftrightarrow> page_shape p \<and> pg_checksum p = page_crc p
     \<and> me_reserve env (length (pg_lacing p)) \<and> me_reserve env (length (pg_body p))"

lemma length_header_bytes [simp]: "length (header_bytes p c) = 27"
  by (simp add: header_bytes_def CAPTURE_def)

lemma header_bytes_unfold:
  "header_bytes p c = [0x4f, 0x67, 0x67, 0x53, 0, pg_header_type p]
     @ to_le 8 (pg_granule p) @ to_le 4 (pg_serial p) @ to_le 4 (pg_sequence p) @ to_le 4 c @ [word_of_nat (length (pg_lacing p))]"
  by (simp add: header_bytes_def CAPTURE_def)

lemma body_length_iff: "length lacing \<le> 255 \<Longrightarrow> body_length lacing = Inr (sum_list (map unat lacing))"
proof -
  have "start + 255 * length xs < 2 ^ 64 \<Longrightarrow>
      try_fold (\<lambda>total lace. ok_or (usize_add total (unat (lace :: u8))) BodySizeOverflow) start xs
        = Inr (start + sum_list (map unat xs))" for start xs
  proof (induction xs arbitrary: start)
    case (Cons x xs)
    have "unat x \<le> 255" using unat_lt8 [of x] by linarith
    then have "start + unat x + 255 * length xs < 2 ^ 64" using Cons.prems by simp
    then show ?case using Cons.IH [of "start + unat x"] by (simp add: add.assoc)
  qed simp
  from this [of 0 lacing] show "length lacing \<le> 255 \<Longrightarrow> ?thesis" by (simp add: body_length_def)
qed

lemma body_length_bound: "length lacing \<le> 255 \<Longrightarrow> sum_list (map unat (lacing :: u8 list)) \<le> MAX_PAGE_BODY"
proof -
  have "sum_list (map unat (xs :: u8 list)) \<le> 255 * length xs" for xs
  proof (induction xs)
    case (Cons x xs)
    have "unat x \<le> 255" using unat_lt8 [of x] by linarith
    then show ?case using Cons by simp
  qed simp
  from this [of lacing] show "length lacing \<le> 255 \<Longrightarrow> ?thesis"
    by (simp add: MAX_PAGE_BODY_def MAX_SEGMENTS_def)
qed

lemma header_fields:
  "take 4 (header_bytes p c) = CAPTURE" "header_bytes p c ! 4 = 0" "header_bytes p c ! 5 = pg_header_type p"
  "header_bytes p c ! 26 = word_of_nat (length (pg_lacing p))"
  "page_of_header (header_bytes p c) l b = p\<lparr>pg_checksum := c, pg_lacing := l, pg_body := b\<rparr>"
  "clear_checksum (header_bytes p c) = header_bytes p 0"
proof -
  show "take 4 (header_bytes p c) = CAPTURE" "header_bytes p c ! 4 = 0" "header_bytes p c ! 5 = pg_header_type p"
    "header_bytes p c ! 26 = word_of_nat (length (pg_lacing p))"
    by (simp_all add: header_bytes_def CAPTURE_def nth_append)
  show "page_of_header (header_bytes p c) l b = p\<lparr>pg_checksum := c, pg_lacing := l, pg_body := b\<rparr>"
    by (rule page.equality) (simp_all add: header_bytes_def CAPTURE_def page_of_header_def nth_append of_le_to_le_full)
  have "to_le 4 (0 :: u32) = [0, 0, 0, 0]" by (simp add: numeral_eq_Suc)
  then show "clear_checksum (header_bytes p c) = header_bytes p 0"
    by (simp add: header_bytes_def CAPTURE_def clear_checksum_def)
qed

text \<open>Every header with the capture pattern and version 0 is the header of the page it describes.\<close>

lemma header_of_fields:
  assumes "length header = 27" and "take 4 header = CAPTURE" and "header ! 4 = 0"
    and "length lacing = unat (header ! 26)"
  shows "header = header_bytes (page_of_header header lacing body) (pg_checksum (page_of_header header lacing body))"
proof -
  have cut: "drop n header = take k (drop n header) @ drop (n + k) header" for n k
    by (metis add.commute append_take_drop_id drop_drop)
  have "header = take 4 header @ take 2 (drop 4 header) @ take 8 (drop 6 header) @ take 4 (drop 14 header)
      @ take 4 (drop 18 header) @ take 4 (drop 22 header) @ drop 26 header"
    using append_take_drop_id [of 4 header] cut [of 4 2] cut [of 6 8] cut [of 14 4] cut [of 18 4] cut [of 22 4] by simp
  moreover have "take 2 (drop 4 header) = [header ! 4, header ! 5]" "drop 26 header = [header ! 26]"
    using assms(1) by (simp_all add: take_Suc_conv_app_nth numeral_eq_Suc Cons_nth_drop_Suc [symmetric])
  moreover have "to_le 8 (of_le (take 8 (drop 6 header)) :: u64) = take 8 (drop 6 header)"
    "to_le 4 (of_le (take 4 (drop 14 header)) :: u32) = take 4 (drop 14 header)"
    "to_le 4 (of_le (take 4 (drop 18 header)) :: u32) = take 4 (drop 18 header)"
    "to_le 4 (of_le (take 4 (drop 22 header)) :: u32) = take 4 (drop 22 header)"
    using to_le_of_le [of "take 8 (drop 6 header)", where 'a = 64] to_le_of_le [of "take 4 (drop 14 header)", where 'a = 32]
      to_le_of_le [of "take 4 (drop 18 header)", where 'a = 32] to_le_of_le [of "take 4 (drop 22 header)", where 'a = 32] assms(1)
    by simp_all
  ultimately show ?thesis
    using assms by (simp add: header_bytes_def page_of_header_def)
qed

lemma read_capture_append: "read_capture (CAPTURE @ s) = Inr (Some (CAPTURE, s))"
proof -
  have "length CAPTURE = 4" "CAPTURE \<noteq> []" by (simp_all add: CAPTURE_def)
  then show ?thesis by (simp add: read_capture_def)
qed

lemma next_page_shape:
  assumes "page_shape p" "me_reserve env (length (pg_lacing p))" "me_reserve env (length (pg_body p))"
  shows "next_page env (page_bytes p @ rest) =
    (if pg_checksum p = page_crc p then Inr (Some (p, rest)) else Inl (CrcMismatch (pg_checksum p) (page_crc p)))"
proof -
  define h where "h = header_bytes p (pg_checksum p)"
  note ok = assms [unfolded page_shape_def MAX_SEGMENTS_def]
  have h: "CAPTURE @ drop 4 h = h" using header_fields(1) [of p "pg_checksum p"] append_take_drop_id [of 4 h] by (simp add: h_def)
  have fields: "h ! 4 = 0" "h ! 5 = pg_header_type p" "page_of_header h (pg_lacing p) (pg_body p) = p"
    by (simp_all add: h_def header_fields)
  have seg: "unat (h ! 26) = length (pg_lacing p)"
    using ok unfolding h_def header_fields by (intro unat_word_of_nat_lt) simp
  have "page_bytes p = CAPTURE @ drop 4 h @ pg_lacing p @ pg_body p"
    unfolding page_bytes_def h_def [symmetric] using h by (metis append_assoc)
  then have "read_capture (page_bytes p @ rest) = Inr (Some (CAPTURE, drop 4 h @ pg_lacing p @ pg_body p @ rest))"
    by (simp add: read_capture_append)
  moreover have "read_exact TruncatedHeader (HEADER_LEN - 4) (drop 4 h @ pg_lacing p @ pg_body p @ rest)
      = Inr (drop 4 h, pg_lacing p @ pg_body p @ rest)" by (simp add: HEADER_LEN_def h_def)
  moreover have "finish_page env h (pg_lacing p @ pg_body p @ rest) =
    (if pg_checksum p = page_crc p then Inr (p, rest) else Inl (CrcMismatch (pg_checksum p) (page_crc p)))"
  proof -
    have "body_length (pg_lacing p) = Inr (length (pg_body p))" using ok body_length_iff by simp
    moreover have "\<not> MAX_PAGE_BODY < length (pg_body p)" using ok body_length_bound [of "pg_lacing p"] by simp
    moreover have "check_crc h (pg_lacing p) (pg_body p) =
        fail_if (page_crc p \<noteq> pg_checksum p) (CrcMismatch (pg_checksum p) (page_crc p))"
    proof -
      have "of_le (take 4 (drop 22 h)) = pg_checksum p" by (simp add: h_def header_bytes_def CAPTURE_def of_le_to_le_full)
      then show ?thesis by (simp add: check_crc_def Let_def) (simp add: h_def header_fields page_crc_def)
    qed
    ultimately show ?thesis using assms(2,3) by (simp add: finish_page_def fields seg reserve_def)
  qed
  ultimately show ?thesis
    using ok by (simp add: next_page_def Let_def h fields)
qed

lemma next_page_encode: "page_admitted env p \<Longrightarrow> next_page env (page_bytes p @ rest) = Inr (Some (p, rest))"
  using next_page_shape [of p env rest] by (simp add: page_admitted_def)

lemma finish_page_sound:
  "finish_page env header stream = Inr (p, rest) \<Longrightarrow>
    stream = pg_lacing p @ pg_body p @ rest \<and> length (pg_lacing p) = unat (header ! 26)
      \<and> body_length (pg_lacing p) = Inr (length (pg_body p))
      \<and> me_reserve env (length (pg_lacing p)) \<and> me_reserve env (length (pg_body p))
      \<and> check_crc header (pg_lacing p) (pg_body p) = Inr ()
      \<and> p = page_of_header header (pg_lacing p) (pg_body p)"
  by (auto simp: finish_page_def and_then_Inr_iff and_then_unit_iff reserve_def page_of_header_def)

lemma next_page_sound:
  assumes "next_page env stream = Inr (Some (p, rest))"
  shows "page_admitted env p \<and> stream = page_bytes p @ rest"
proof -
  from assms obtain fields s1 where s: "stream = CAPTURE @ fields @ s1" "length fields = 23"
    and h: "(CAPTURE @ fields) ! 4 = 0" "(CAPTURE @ fields) ! 5 AND NOT (CONTINUED OR BOS OR EOS) = 0"
    and f: "finish_page env (CAPTURE @ fields) s1 = Inr (p, rest)"
    by (auto simp: next_page_def read_capture_def Let_def and_then_Inr_iff and_then_unit_iff HEADER_LEN_def
        split: option.splits if_splits)
  let ?h = "CAPTURE @ fields"
  note l = finish_page_sound [OF f]
  have len: "length ?h = 27" "take 4 ?h = CAPTURE" using s(2) by (simp_all add: CAPTURE_def)
  have "?h = header_bytes (page_of_header ?h (pg_lacing p) (pg_body p)) (pg_checksum (page_of_header ?h (pg_lacing p) (pg_body p)))"
    using l by (intro header_of_fields [OF len h(1)]) blast
  then have h': "?h = header_bytes p (pg_checksum p)" using l by metis
  have "pg_header_type p = ?h ! 5" using h' header_fields(3) by metis
  moreover have "length (pg_lacing p) \<le> 255" using l unat_lt8 [of "?h ! 26"] by linarith
  ultimately have "page_shape p" using l h(2) body_length_iff [of "pg_lacing p"] by (auto simp: page_shape_def MAX_SEGMENTS_def)
  moreover have "pg_checksum p = page_crc p"
  proof -
    have "of_le (take 4 (drop 22 ?h)) = pg_checksum p" using l by (metis page_of_header_def page.select_convs(5))
    then show ?thesis using l unfolding check_crc_def Let_def h' header_fields(6) page_crc_def by simp
  qed
  moreover have "stream = page_bytes p @ rest" using l s(1) h' by (metis append_assoc page_bytes_def)
  ultimately show ?thesis using l unfolding page_admitted_def by blast
qed

interpretation ogg: record_stream page_bytes "next_page env" "page_admitted env" for env
proof
  show "next_page env [] = Inr None" by (simp add: next_page_def read_capture_def)
  show "page_admitted env p \<Longrightarrow> next_page env (page_bytes p @ rest) = Inr (Some (p, rest))" for p rest
    by (rule next_page_encode)
  show "next_page env stream = Inr (Some (p, rest)) \<Longrightarrow> page_admitted env p \<and> stream = page_bytes p @ rest" for stream p rest
    by (rule next_page_sound)
  show "next_page env stream = Inr None \<Longrightarrow> stream = []" for stream
    by (auto simp: next_page_def read_capture_def Let_def and_then_Inr_iff split: option.splits if_splits)
  show "page_bytes p \<noteq> []" for p by (simp add: page_bytes_def header_bytes_def CAPTURE_def)
qed

section \<open>Properties\<close>

text \<open>C23: Reading a stream of pages is the inverse of writing it. \<open>PageReader\<close> run to the end of a
  stream returns given pages exactly when the stream is the bytes of these pages one after the
  other and each page is well formed, with the checksum of its bytes, and fits into memory. So
  every byte of an accepted stream is accounted for, and writing pages as they were read gives the
  same bytes.\<close>

theorem page_stream_roundtrip:
  "read_pages env stream = Inr pages
     \<longleftrightarrow> stream = concat (map page_bytes pages) \<and> (\<forall>p \<in> set pages. page_admitted env p)"
  unfolding read_pages_def by (rule ogg.read_all_iff)

text \<open>C22: Damage to a page is noticed. When up to four consecutive bytes of the body of a page are
  changed in any way, \<open>next_page\<close> refuses the page with a checksum mismatch.\<close>

theorem damaged_page_refused:
  assumes "page_admitted env p" and "pg_body p = u @ w @ v" and "length w' = length w" and "length w \<le> 4" and "w' \<noteq> w"
  shows "\<exists>calculated. next_page env (page_bytes (p\<lparr>pg_body := u @ w' @ v\<rparr>) @ rest)
    = Inl (CrcMismatch (pg_checksum p) calculated)"
proof -
  let ?q = "p\<lparr>pg_body := u @ w' @ v\<rparr>"
  have len: "length (pg_body ?q) = length (pg_body p)" using assms(2,3) by simp
  have h: "header_bytes ?q c = header_bytes p c" for c by (simp add: header_bytes_def)
  have "page_crc ?q \<noteq> page_crc p"
    using crc_burst [of w' w "header_bytes p 0" "pg_lacing p" u v] assms by (auto simp: page_crc_def h)
  then have "page_crc ?q \<noteq> pg_checksum ?q" using assms(1) by (simp add: page_admitted_def)
  moreover have "page_shape ?q" using assms(1) len by (simp add: page_admitted_def page_shape_def)
  moreover have "me_reserve env (length (pg_body ?q))" using assms(1) unfolding len page_admitted_def by blast
  moreover have "me_reserve env (length (pg_lacing ?q))" using assms(1) by (simp add: page_admitted_def)
  ultimately show ?thesis using next_page_shape [of ?q env rest] by auto
qed

definition demo_page :: page where
  "demo_page = (let p = \<lparr>pg_header_type = BOS, pg_granule = 0, pg_serial = 7, pg_sequence = 0, pg_checksum = 0,
     pg_lacing = [3], pg_body = [1, 2, 3]\<rparr> in p\<lparr>pg_checksum := page_crc p\<rparr>)"

lemma demo_page_admitted: "page_admitted demo_meta_env demo_page"
  by (simp add: page_admitted_def demo_page_def Let_def page_shape_def MAX_SEGMENTS_def demo_meta_env_def
      page_crc_def header_bytes_def CONTINUED_def BOS_def EOS_def)

theorem page_stream_roundtrip_witness:
  "read_pages demo_meta_env (page_bytes demo_page @ page_bytes demo_page) = Inr [demo_page, demo_page]"
  using page_stream_roundtrip [of demo_meta_env _ "[demo_page, demo_page]"] demo_page_admitted by simp

theorem damaged_page_refused_witness:
  "\<exists>calculated. next_page demo_meta_env (page_bytes (demo_page\<lparr>pg_body := [1, 9, 3]\<rparr>))
    = Inl (CrcMismatch (pg_checksum demo_page) calculated)"
proof -
  have "pg_body demo_page = [1] @ [2] @ [3]" by (simp add: demo_page_def Let_def)
  from damaged_page_refused [OF demo_page_admitted this, of "[9]" "[]"] show ?thesis by simp
qed

end
