(* ===== verification/Ogg_Scan.thy ===== *)
theory Ogg_Scan
  imports Ogg_Pages "HOL-Library.AList"
begin

text \<open>
  The scan of an Ogg file (\<open>src/src/metadata/ogg.rs\<close>: \<open>identify_codec\<close>, \<open>comment_parts\<close>,
  \<open>locate_comment_body\<close> and \<open>scan\<close>). The scan is a state machine over pages: for every logical
  stream the packet that is being put together, for the first stream with a known codec the target
  with its comments, and over all streams the bytes that are held at once. \<open>scan_page\<close> is one round of the
  loop over pages, \<open>scan_segment\<close> one of the loop over the lacing values of a page. The streams
  are an association list; which stream the final check names when several are unfinished is the
  choice of the hash map. Reservations of descriptors (one stream state) are taken to succeed.
\<close>

unbundle bit_operations_syntax

section \<open>Codecs\<close>

datatype codec = Vorbis | Opus | Speex nat

definition header_packets :: "codec \<Rightarrow> nat" where
  "header_packets c = (case c of Vorbis \<Rightarrow> 3 | Opus \<Rightarrow> 2 | Speex n \<Rightarrow> n)"

definition comment_prefix_len :: "codec \<Rightarrow> nat" where
  "comment_prefix_len c = (case c of Vorbis \<Rightarrow> 7 | Opus \<Rightarrow> 8 | Speex _ \<Rightarrow> 0)"

datatype scan_error =
    PageError page_error | MetadataError metadata_error
  | VorbisIdLength nat | BadVorbisId | BadBlockSizes | BadOpusId | TruncatedSpeex | BadSpeexSize
  | ReadOverflow | ReadTruncated | NegativeSpeexCount | SpeexCountOverflow | SpeexCountLimit
  | BadCommentPrefix | CommentOffsetOverflow | TruncatedComment | BadFraming | SpeexTrailingBytes
  | VendorLimit | VendorNotUtf8 | FieldCountLimit | FieldLimit | FieldsOverZeroBudget | TailOverZeroBudget | TrailingCommentBytes nat
  | BosContinues nat | BosSequence u32 | DuplicateBos u32 | StreamCountOverflow | StreamLimit nat | PageBeforeBos u32
  | PageAfterEos u32 | SequenceMismatch u32 u32 u32 | ContinuationMismatch u32 | PacketPagesOverflow | PacketPageLimit nat
  | BodyOffsetOverflow | LacingExceedsBody | PacketSizeOverflow | PacketTooLong nat | BufferOverflow | BufferLimit nat
  | CodecNotOnBosPage u32 | MissingTargetState | BadSetupPrefix | PacketCountOverflow | BufferUnderflow | UnreferencedBytes
  | EosInPacket | EosBeforeHeaders u32 | SearchPageLimit nat | HeaderPageLimit nat | PageIndexOverflow
  | EmptyStream | PacketOpenAtEnd u32 | MissingEos u32 | CommentHeaderMissing | HeadersMissing

definition read_i32_at :: "u8 list \<Rightarrow> nat \<Rightarrow> scan_error + int" where
  "read_i32_at data offset =
    and_then (ok_or (usize_add offset 4) ReadOverflow) (\<lambda>end.
    and_then (ok_or (slice_get data offset end) ReadTruncated) (\<lambda>bytes. Inr (sint (of_le bytes :: u32))))"

definition VORBIS_ID :: "u8 list" where "VORBIS_ID = 1 # as_bytes ''vorbis''"
definition VORBIS_COMMENT_PREFIX :: "u8 list" where "VORBIS_COMMENT_PREFIX = 3 # as_bytes ''vorbis''"
definition VORBIS_SETUP :: "u8 list" where "VORBIS_SETUP = 5 # as_bytes ''vorbis''"
definition OPUS_HEAD :: "u8 list" where "OPUS_HEAD = as_bytes ''OpusHead''"
definition OPUS_TAGS :: "u8 list" where "OPUS_TAGS = as_bytes ''OpusTags''"
definition SPEEX_HEAD :: "u8 list" where "SPEEX_HEAD = as_bytes ''Speex   ''"

definition begins_with :: "u8 list \<Rightarrow> u8 list \<Rightarrow> bool" where
  "begins_with packet pattern \<longleftrightarrow> take (length pattern) packet = pattern"

definition identify_vorbis :: "u8 list \<Rightarrow> scan_error + unit" where
  "identify_vorbis packet =
    and_then (fail_if (length packet \<noteq> 30) (VorbisIdLength (length packet))) (\<lambda>_.
    and_then (fail_if (take 4 (drop 7 packet) \<noteq> [0, 0, 0, 0] \<or> packet ! 11 = 0
        \<or> take 4 (drop 12 packet) = [0, 0, 0, 0] \<or> packet ! 29 \<noteq> 1) BadVorbisId) (\<lambda>_.
    let small = packet ! 28 AND 0x0f; large = drop_bit 4 (packet ! 28)
    in fail_if (\<not> (6 \<le> small \<and> small \<le> 13) \<or> \<not> (6 \<le> large \<and> large \<le> 13) \<or> large < small) BadBlockSizes))"

definition identify_speex :: "u8 list \<Rightarrow> metadata_limits \<Rightarrow> scan_error + nat" where
  "identify_speex packet limits =
    and_then (fail_if (length packet < 80) TruncatedSpeex) (\<lambda>_.
    and_then (read_i32_at packet 32) (\<lambda>header_size.
    and_then (fail_if (header_size < 80 \<or> nat header_size \<noteq> length packet) BadSpeexSize) (\<lambda>_.
    and_then (read_i32_at packet 68) (\<lambda>extra.
    and_then (fail_if (extra < 0) NegativeSpeexCount) (\<lambda>_.
    and_then (ok_or (usize_add (nat extra) 2) SpeexCountOverflow) (\<lambda>packets.
    and_then (fail_if (max_items limits < packets \<or> max_ogg_pages limits < packets) SpeexCountLimit) (\<lambda>_.
    Inr packets)))))))"

definition identify_codec :: "u8 list \<Rightarrow> metadata_limits \<Rightarrow> scan_error + codec option" where
  "identify_codec packet limits =
    (if begins_with packet VORBIS_ID then and_then (identify_vorbis packet) (\<lambda>_. Inr (Some Vorbis))
     else if begins_with packet OPUS_HEAD then
       and_then (fail_if (length packet < 19 \<or> \<not> (1 \<le> packet ! 8 \<and> packet ! 8 \<le> 15) \<or> packet ! 9 = 0) BadOpusId) (\<lambda>_.
       Inr (Some Opus))
     else if begins_with packet SPEEX_HEAD then and_then (identify_speex packet limits) (\<lambda>n. Inr (Some (Speex n)))
     else Inr None)"

section \<open>The comment packet\<close>

definition read_u32 :: "nat \<Rightarrow> u8 list \<Rightarrow> scan_error + nat \<times> nat" where
  "read_u32 offset data =
    and_then (ok_or (usize_add offset 4) ReadOverflow) (\<lambda>end.
    and_then (ok_or (slice_get data offset end) ReadTruncated) (\<lambda>bytes.
    Inr (unat (of_le bytes :: u32), end)))"

definition read_vendor :: "u8 list \<Rightarrow> scan_error + nat" where
  "read_vendor data =
    and_then (read_u32 0 data) (\<lambda>(vendor_len, offset).
    and_then (ok_or (usize_add offset vendor_len) ReadOverflow) (\<lambda>vendor_end.
    and_then (ok_or (slice_get data offset vendor_end) TruncatedComment) (\<lambda>vendor.
    and_then (fail_if (\<not> utf8_text (bytes_string vendor)) VendorNotUtf8) (\<lambda>_.
    and_then (read_u32 vendor_end data) (\<lambda>(item_count, offset).
    and_then (fail_if (item_count \<noteq> 0) FieldsOverZeroBudget) (\<lambda>_.
    Inr offset))))))"

definition locate_tagless_comment_body :: "u8 list \<Rightarrow> scan_error + nat" where
  "locate_tagless_comment_body data = read_vendor data"

definition validate_tagless_comment :: "u8 list \<Rightarrow> u8 list \<Rightarrow> scan_error + unit" where
  "validate_tagless_comment body tail =
    and_then (fail_if (tail \<noteq> []) TailOverZeroBudget) (\<lambda>_.
    and_then (read_vendor body) (\<lambda>offset.
    fail_if (offset \<noteq> length body) (TrailingCommentBytes (length body - offset))))"

fun skip_fields :: "nat \<Rightarrow> nat \<Rightarrow> u8 list \<Rightarrow> metadata_limits \<Rightarrow> scan_error + nat" where
  "skip_fields 0 offset data limits = Inr offset"
| "skip_fields (Suc n) offset data limits =
    and_then (read_u32 offset data) (\<lambda>(len, offset).
    and_then (fail_if (max_item_bytes limits < len) FieldLimit) (\<lambda>_.
    and_then (ok_or (usize_add offset len) ReadOverflow) (\<lambda>offset.
    and_then (fail_if (length data < offset) TruncatedComment) (\<lambda>_.
    skip_fields n offset data limits))))"

definition locate_comment_body :: "u8 list \<Rightarrow> metadata_limits \<Rightarrow> scan_error + nat" where
  "locate_comment_body data limits =
    and_then (read_u32 0 data) (\<lambda>(vendor_len, offset).
    and_then (fail_if (max_item_bytes limits < vendor_len) VendorLimit) (\<lambda>_.
    and_then (ok_or (usize_add offset vendor_len) ReadOverflow) (\<lambda>offset.
    and_then (fail_if (length data < offset) TruncatedComment) (\<lambda>_.
    and_then (read_u32 offset data) (\<lambda>(fields, offset).
    and_then (fail_if (max_items limits < fields) FieldCountLimit) (\<lambda>_.
    skip_fields fields offset data limits))))))"

text \<open>The body of the comments and what follows it.\<close>

definition comment_parts :: "codec \<Rightarrow> u8 list \<Rightarrow> metadata_limits \<Rightarrow> bool \<Rightarrow> scan_error + u8 list \<times> u8 list" where
  "comment_parts c packet limits retain =
    and_then (case c of
        Vorbis \<Rightarrow> and_then (fail_if (\<not> begins_with packet VORBIS_COMMENT_PREFIX) BadCommentPrefix) (\<lambda>_. Inr (7, True, False))
      | Opus \<Rightarrow> and_then (fail_if (\<not> begins_with packet OPUS_TAGS) BadCommentPrefix) (\<lambda>_. Inr (8, False, True))
      | Speex _ \<Rightarrow> Inr (0, False, False)) (\<lambda>(body_start, require_framing, allow_tail).
    and_then (ok_or (slice_get packet body_start (length packet)) TruncatedComment) (\<lambda>payload.
    and_then (if retain then locate_comment_body payload limits else locate_tagless_comment_body payload) (\<lambda>body_len.
    and_then (ok_or (usize_add body_start body_len) CommentOffsetOverflow) (\<lambda>body_end.
    and_then (ok_or (slice_get packet body_start body_end) TruncatedComment) (\<lambda>body.
    and_then (ok_or (slice_get packet body_end (length packet)) TruncatedComment) (\<lambda>remainder.
    if require_framing then and_then (fail_if (remainder \<noteq> [1]) BadFraming) (\<lambda>_. Inr (body, []))
    else and_then (fail_if (\<not> allow_tail \<and> remainder \<noteq> []) SpeexTrailingBytes) (\<lambda>_. Inr (body, remainder))))))))"

section \<open>State of the scan\<close>

record stream_state =
  ss_expected_sequence :: u32
  ss_packet_open :: bool
  ss_packet_len :: nat
  ss_packet_pages :: nat
  ss_packet_buffer :: "u8 list"
  ss_packet_index :: nat
  ss_codec :: "codec option"
  ss_bos_page :: nat
  ss_first_packet_page :: "nat option"
  ss_target :: bool
  ss_eos :: bool

definition stream_new :: "nat \<Rightarrow> stream_state" where
  "stream_new bos_page = \<lparr>ss_expected_sequence = 0, ss_packet_open = False, ss_packet_len = 0, ss_packet_pages = 0,
     ss_packet_buffer = [], ss_packet_index = 0, ss_codec = None, ss_bos_page = bos_page, ss_first_packet_page = None,
     ss_target = False, ss_eos = False\<rparr>"

definition should_collect :: "stream_state \<Rightarrow> bool" where
  "should_collect st \<longleftrightarrow> ss_packet_index st = 0 \<or> (ss_codec st \<noteq> None \<and> ss_packet_index st = 1)
     \<or> (ss_codec st = Some Vorbis \<and> ss_packet_index st = 2)"

record pending_target =
  pt_serial :: u32
  pt_bos_page :: nat
  pt_codec :: codec
  pt_comments :: "vorbis_comments option"
  pt_comment_seen :: bool
  pt_tail :: "u8 list"
  pt_header_end_page :: "nat option"
  pt_eos_page :: "nat option"
  pt_shares_header_page_with_audio :: bool

datatype scan_mode = HeadersOnly | Decode | Rewrite

record scan_config =
  cf_env :: meta_env
  cf_limits :: metadata_limits
  cf_mode :: scan_mode

definition retain_comments :: "scan_config \<Rightarrow> bool" where
  "retain_comments cf \<longleftrightarrow> max_total_bytes (cf_limits cf) \<noteq> 0 \<and> max_item_bytes (cf_limits cf) \<noteq> 0 \<and> max_items (cf_limits cf) \<noteq> 0"

definition header_buffer_limit :: "scan_config \<Rightarrow> nat" where
  "header_buffer_limit cf =
    (if retain_comments cf then min (max_ogg_packet_bytes (cf_limits cf)) (max_total_bytes (cf_limits cf))
     else max_ogg_packet_bytes (cf_limits cf))"

text \<open>What the loop over the segments changes: the stream of the page, and what all streams share.\<close>

record segment_state =
  sg_stream :: stream_state
  sg_target :: "pending_target option"
  sg_buffered :: nat
  sg_budget :: metadata_budget
  sg_offset :: nat
  sg_on_page :: bool

definition check_packet_pages :: "scan_config \<Rightarrow> nat \<Rightarrow> scan_error + unit" where
  "check_packet_pages cf pages = fail_if (max_ogg_pages (cf_limits cf) < pages) (PacketPageLimit pages)"

definition begin_segment :: "scan_config \<Rightarrow> nat \<Rightarrow> segment_state \<Rightarrow> scan_error + segment_state" where
  "begin_segment cf page_index g =
    (if sg_on_page g then Inr g
     else and_then (check_packet_pages cf 1) (\<lambda>_.
       let st = (sg_stream g)\<lparr>ss_packet_pages := 1\<rparr>;
           st = (if ss_packet_index st = 0 \<and> ss_first_packet_page st = None
                 then st\<lparr>ss_first_packet_page := Some page_index\<rparr> else st)
       in Inr (g\<lparr>sg_stream := st, sg_on_page := True\<rparr>)))"

definition collect_segment :: "scan_config \<Rightarrow> u8 list \<Rightarrow> segment_state \<Rightarrow> scan_error + segment_state" where
  "collect_segment cf segment g =
    (let st = sg_stream g in
     if \<not> should_collect st then Inr g
     else and_then (ok_or (usize_add (sg_buffered g) (length segment)) BufferOverflow) (\<lambda>buffered.
          and_then (fail_if (header_buffer_limit cf < buffered) (BufferLimit buffered)) (\<lambda>_.
          and_then (if retain_comments cf \<and> ss_target st \<and> ss_packet_index st = 1
                    then map_err MetadataError (check_bytes (sg_budget g) (ss_packet_len st)) else Inr ()) (\<lambda>_.
          and_then (map_err MetadataError (reserve (cf_env cf) (length segment))) (\<lambda>_.
          Inr (g\<lparr>sg_stream := st\<lparr>ss_packet_buffer := ss_packet_buffer st @ segment\<rparr>, sg_buffered := buffered\<rparr>))))))"

definition take_segment :: "scan_config \<Rightarrow> u8 list \<Rightarrow> u8 \<Rightarrow> segment_state \<Rightarrow> scan_error + segment_state" where
  "take_segment cf body lace g =
    and_then (ok_or (usize_add (sg_offset g) (unat lace)) BodyOffsetOverflow) (\<lambda>body_end.
    and_then (ok_or (slice_get body (sg_offset g) body_end) LacingExceedsBody) (\<lambda>segment.
    and_then (ok_or (usize_add (ss_packet_len (sg_stream g)) (unat lace)) PacketSizeOverflow) (\<lambda>len.
    and_then (fail_if (max_ogg_packet_bytes (cf_limits cf) < len) (PacketTooLong len)) (\<lambda>_.
    collect_segment cf segment (g\<lparr>sg_offset := body_end, sg_stream := (sg_stream g)\<lparr>ss_packet_len := len\<rparr>\<rparr>)))))"

section \<open>Packets\<close>

definition first_packet :: "scan_config \<Rightarrow> u32 \<Rightarrow> u8 list \<Rightarrow> segment_state \<Rightarrow> scan_error + segment_state" where
  "first_packet cf serial packet g =
    and_then (identify_codec packet (cf_limits cf)) (\<lambda>found.
    let st = (sg_stream g)\<lparr>ss_codec := found\<rparr> in
    case found of
      None \<Rightarrow> Inr (g\<lparr>sg_stream := st\<rparr>)
    | Some c \<Rightarrow>
        and_then (fail_if (ss_first_packet_page st \<noteq> Some (ss_bos_page st)) (CodecNotOnBosPage serial)) (\<lambda>_.
        if sg_target g \<noteq> None then Inr (g\<lparr>sg_stream := st\<rparr>)
        else Inr (g\<lparr>sg_stream := st\<lparr>ss_target := True\<rparr>, sg_target := Some \<lparr>pt_serial = serial, pt_bos_page = ss_bos_page st,
          pt_codec = c, pt_comments = None, pt_comment_seen = False, pt_tail = [], pt_header_end_page = None,
          pt_eos_page = None, pt_shares_header_page_with_audio = False\<rparr>\<rparr>)))"

definition comment_packet :: "scan_config \<Rightarrow> u8 list \<Rightarrow> codec \<Rightarrow> segment_state \<Rightarrow> scan_error + segment_state" where
  "comment_packet cf packet c g =
    and_then (comment_parts c packet (cf_limits cf) (retain_comments cf)) (\<lambda>(body, tail).
    if \<not> ss_target (sg_stream g) then Inr g
    else and_then (ok_or (sg_target g) MissingTargetState) (\<lambda>pending.
      let pending = pending\<lparr>pt_comment_seen := True\<rparr> in
      if retain_comments cf then
        and_then (map_err MetadataError (parse_comment_body (cf_env cf) body (sg_budget g))) (\<lambda>(comments, b).
        and_then (map_err MetadataError (charge_bytes b (length tail))) (\<lambda>b.
        and_then (map_err MetadataError (reserve (cf_env cf) (length tail))) (\<lambda>_.
        Inr (g\<lparr>sg_budget := b,
          sg_target := Some (pending\<lparr>pt_tail := pt_tail pending @ tail, pt_comments := Some comments\<rparr>)\<rparr>))))
      else and_then (validate_tagless_comment body tail) (\<lambda>_. Inr (g\<lparr>sg_target := Some pending\<rparr>))))"

definition inspect_packet :: "scan_config \<Rightarrow> u32 \<Rightarrow> u8 list \<Rightarrow> segment_state \<Rightarrow> scan_error + segment_state" where
  "inspect_packet cf serial packet g =
    (let st = sg_stream g in
     if ss_packet_index st = 0 then first_packet cf serial packet g
     else if ss_packet_index st = 1 then (case ss_codec st of None \<Rightarrow> Inr g | Some c \<Rightarrow> comment_packet cf packet c g)
     else and_then (fail_if (ss_packet_index st = 2 \<and> ss_codec st = Some Vorbis \<and> \<not> begins_with packet VORBIS_SETUP)
       BadSetupPrefix) (\<lambda>_. Inr g))"

definition end_headers :: "nat \<Rightarrow> bool \<Rightarrow> segment_state \<Rightarrow> scan_error + segment_state" where
  "end_headers page_index followed g =
    (let st = sg_stream g in
     if (case ss_codec st of None \<Rightarrow> False | Some c \<Rightarrow> ss_packet_index st = header_packets c) \<and> ss_target st
     then and_then (ok_or (sg_target g) MissingTargetState) (\<lambda>pending.
       Inr (g\<lparr>sg_target := Some (pending\<lparr>pt_header_end_page := Some page_index, pt_shares_header_page_with_audio := followed\<rparr>)\<rparr>))
     else Inr g)"

text \<open>The packet that ends with this segment; \<open>followed\<close> says whether the page has more segments.\<close>

definition finish_packet :: "scan_config \<Rightarrow> u32 \<Rightarrow> nat \<Rightarrow> bool \<Rightarrow> segment_state \<Rightarrow> scan_error + segment_state" where
  "finish_packet cf serial page_index followed g =
    (let packet = ss_packet_buffer (sg_stream g); g = g\<lparr>sg_stream := (sg_stream g)\<lparr>ss_packet_buffer := []\<rparr>\<rparr> in
     and_then (inspect_packet cf serial packet g) (\<lambda>g.
     and_then (ok_or (usize_add (ss_packet_index (sg_stream g)) 1) PacketCountOverflow) (\<lambda>index.
     and_then (end_headers page_index followed (g\<lparr>sg_stream := (sg_stream g)\<lparr>ss_packet_index := index\<rparr>\<rparr>)) (\<lambda>g.
     and_then (fail_if (sg_buffered g < length packet) BufferUnderflow) (\<lambda>_.
     Inr (g\<lparr>sg_buffered := sg_buffered g - length packet, sg_on_page := False,
       sg_stream := (sg_stream g)\<lparr>ss_packet_len := 0, ss_packet_pages := 0\<rparr>\<rparr>))))))"

definition scan_segment ::
  "scan_config \<Rightarrow> page \<Rightarrow> nat \<Rightarrow> segment_state \<Rightarrow> nat \<times> u8 \<Rightarrow> scan_error + segment_state" where
  "scan_segment cf page page_index g segment =
    (case segment of (segment_index, lace) \<Rightarrow>
     and_then (begin_segment cf page_index g) (\<lambda>g.
     and_then (take_segment cf (pg_body page) lace g) (\<lambda>g.
     let open_packet = (lace = 255); g = g\<lparr>sg_stream := (sg_stream g)\<lparr>ss_packet_open := open_packet\<rparr>\<rparr>
     in if open_packet then Inr g
        else finish_packet cf (pg_serial page) page_index (segment_index + 1 \<noteq> length (pg_lacing page)) g)))"

section \<open>Pages\<close>

record scan_state =
  sc_streams :: "(u32 \<times> stream_state) list"
  sc_stream_count :: nat
  sc_target :: "pending_target option"
  sc_page_index :: nat
  sc_buffered :: nat
  sc_budget :: metadata_budget

definition open_stream :: "scan_config \<Rightarrow> page \<Rightarrow> scan_state \<Rightarrow> scan_error + scan_state" where
  "open_stream cf page s =
    (if is_bos page then
       and_then (fail_if (is_continued page) (BosContinues (sc_page_index s))) (\<lambda>_.
       and_then (fail_if (pg_sequence page \<noteq> 0) (BosSequence (pg_sequence page))) (\<lambda>_.
       and_then (fail_if (case map_of (sc_streams s) (pg_serial page) of None \<Rightarrow> False | Some st \<Rightarrow> \<not> ss_eos st)
         (DuplicateBos (pg_serial page))) (\<lambda>_.
       and_then (ok_or (usize_add (sc_stream_count s) 1) StreamCountOverflow) (\<lambda>stream_count.
       and_then (fail_if (max_ogg_streams (cf_limits cf) < stream_count) (StreamLimit stream_count)) (\<lambda>_.
       Inr (s\<lparr>sc_stream_count := stream_count,
         sc_streams := AList.update (pg_serial page) (stream_new (sc_page_index s)) (sc_streams s)\<rparr>))))))
     else and_then (fail_if (map_of (sc_streams s) (pg_serial page) = None) (PageBeforeBos (pg_serial page))) (\<lambda>_. Inr s))"

definition enter_page :: "scan_config \<Rightarrow> page \<Rightarrow> scan_state \<Rightarrow> stream_state \<Rightarrow> scan_error + segment_state" where
  "enter_page cf page s st =
    and_then (fail_if (ss_eos st) (PageAfterEos (pg_serial page))) (\<lambda>_.
    and_then (fail_if (pg_sequence page \<noteq> ss_expected_sequence st)
      (SequenceMismatch (pg_serial page) (ss_expected_sequence st) (pg_sequence page))) (\<lambda>_.
    let st = st\<lparr>ss_expected_sequence := ss_expected_sequence st + 1\<rparr> in
    and_then (fail_if (is_continued page \<noteq> ss_packet_open st) (ContinuationMismatch (pg_serial page))) (\<lambda>_.
    and_then (if ss_packet_open st
        then and_then (ok_or (usize_add (ss_packet_pages st) 1) PacketPagesOverflow) (\<lambda>pages.
             and_then (check_packet_pages cf pages) (\<lambda>_. Inr (st\<lparr>ss_packet_pages := pages\<rparr>)))
        else Inr st) (\<lambda>st.
    Inr \<lparr>sg_stream = st, sg_target = sc_target s, sg_buffered = sc_buffered s, sg_budget = sc_budget s, sg_offset = 0,
      sg_on_page = ss_packet_open st\<rparr>))))"

definition end_stream :: "page \<Rightarrow> nat \<Rightarrow> segment_state \<Rightarrow> scan_error + segment_state" where
  "end_stream page page_index g =
    (let st = sg_stream g in
     if \<not> is_eos page then Inr g
     else and_then (fail_if (ss_packet_open st) EosInPacket) (\<lambda>_.
          and_then (fail_if (case ss_codec st of None \<Rightarrow> False | Some c \<Rightarrow> ss_packet_index st < header_packets c)
            (EosBeforeHeaders (pg_serial page))) (\<lambda>_.
          let g = g\<lparr>sg_stream := st\<lparr>ss_eos := True\<rparr>\<rparr> in
          if ss_target st
          then and_then (ok_or (sg_target g) MissingTargetState) (\<lambda>pending.
            Inr (g\<lparr>sg_target := Some (pending\<lparr>pt_eos_page := Some page_index\<rparr>)\<rparr>))
          else Inr g)))"

definition check_search :: "scan_config \<Rightarrow> nat \<Rightarrow> pending_target option \<Rightarrow> scan_error + unit" where
  "check_search cf page_index target =
    and_then (if (case target of None \<Rightarrow> True | Some pending \<Rightarrow> \<not> pt_comment_seen pending)
      then (let inspected = (case usize_add page_index 1 of None \<Rightarrow> 2 ^ 64 - 1 | Some n \<Rightarrow> n)
            in fail_if (max_ogg_pages (cf_limits cf) < inspected) (SearchPageLimit inspected)) else Inr ()) (\<lambda>_.
    case target of
      None \<Rightarrow> Inr ()
    | Some pending \<Rightarrow>
        let last = (case pt_header_end_page pending of None \<Rightarrow> page_index | Some n \<Rightarrow> n);
            pages = (if pt_bos_page pending \<le> last
              then (case usize_add (last - pt_bos_page pending) 1 of None \<Rightarrow> 2 ^ 64 - 1 | Some n \<Rightarrow> n) else 2 ^ 64 - 1)
        in fail_if (max_ogg_pages (cf_limits cf) < pages) (HeaderPageLimit pages))"

definition scan_page :: "scan_config \<Rightarrow> page \<Rightarrow> scan_state \<Rightarrow> scan_error + scan_state" where
  "scan_page cf page s =
    and_then (open_stream cf page s) (\<lambda>s.
    and_then (ok_or (map_of (sc_streams s) (pg_serial page)) MissingTargetState) (\<lambda>st.
    and_then (enter_page cf page s st) (\<lambda>g.
    and_then (try_fold (scan_segment cf page (sc_page_index s)) g (enumerate 0 (pg_lacing page))) (\<lambda>g.
    and_then (fail_if (sg_offset g \<noteq> length (pg_body page)) UnreferencedBytes) (\<lambda>_.
    and_then (end_stream page (sc_page_index s) g) (\<lambda>g.
    and_then (check_search cf (sc_page_index s) (sg_target g)) (\<lambda>_.
    and_then (ok_or (usize_add (sc_page_index s) 1) PageIndexOverflow) (\<lambda>page_index.
    Inr (s\<lparr>sc_streams := AList.update (pg_serial page) (sg_stream g) (sc_streams s), sc_target := sg_target g,
      sc_buffered := sg_buffered g, sc_budget := sg_budget g, sc_page_index := page_index\<rparr>)))))))))"

section \<open>The whole scan\<close>

definition headers_complete :: "scan_config \<Rightarrow> scan_state \<Rightarrow> bool" where
  "headers_complete cf s \<longleftrightarrow> cf_mode cf = HeadersOnly
     \<and> (case sc_target s of None \<Rightarrow> False | Some pending \<Rightarrow> pt_header_end_page pending \<noteq> None)"

lemma next_page_shorter: "next_page env stream = Inr (Some (page, rest)) \<Longrightarrow> length rest < length stream"
  using next_page_sound [of env stream page rest] ogg.encode_length [of page] by auto

text \<open>The loop over the pages; the result says whether it stopped after the headers.\<close>

function scan_pages :: "scan_config \<Rightarrow> u8 list \<Rightarrow> scan_state \<Rightarrow> scan_error + bool \<times> scan_state" where
  "scan_pages cf stream s =
    and_then (map_err PageError (next_page (cf_env cf) stream)) (\<lambda>read. case read of
      None \<Rightarrow> Inr (False, s)
    | Some (page, rest) \<Rightarrow>
        and_then (scan_page cf page s) (\<lambda>s.
        if headers_complete cf s then Inr (True, s) else scan_pages cf rest s))"
  by pat_completeness auto

termination
  by (relation "measure (\<lambda>(cf, stream, s). length stream)") (auto dest: next_page_shorter)

declare scan_pages.simps [simp del]

record target =
  tg_serial :: u32
  tg_bos_page :: nat
  tg_header_end_page :: nat
  tg_eos_page :: "nat option"
  tg_codec :: codec
  tg_comments :: "vorbis_comments option"
  tg_tail :: "u8 list"
  tg_shares_header_page_with_audio :: bool

definition check_end :: "scan_config \<Rightarrow> bool \<Rightarrow> u32 \<times> stream_state \<Rightarrow> scan_error + unit" where
  "check_end cf stopped entry =
    and_then (fail_if (\<not> stopped \<and> ss_packet_open (snd entry)) (PacketOpenAtEnd (fst entry))) (\<lambda>_.
    fail_if (cf_mode cf = Rewrite \<and> \<not> ss_eos (snd entry)) (MissingEos (fst entry)))"

definition settle_target :: "pending_target \<Rightarrow> scan_error + target" where
  "settle_target pending =
    and_then (fail_if (\<not> pt_comment_seen pending) CommentHeaderMissing) (\<lambda>_.
    and_then (ok_or (pt_header_end_page pending) HeadersMissing) (\<lambda>header_end.
    Inr \<lparr>tg_serial = pt_serial pending, tg_bos_page = pt_bos_page pending, tg_header_end_page = header_end,
      tg_eos_page = pt_eos_page pending, tg_codec = pt_codec pending, tg_comments = pt_comments pending,
      tg_tail = pt_tail pending, tg_shares_header_page_with_audio = pt_shares_header_page_with_audio pending\<rparr>))"

definition scan_start :: "metadata_budget \<Rightarrow> scan_state" where
  "scan_start b = \<lparr>sc_streams = [], sc_stream_count = 0, sc_target = None, sc_page_index = 0, sc_buffered = 0, sc_budget = b\<rparr>"

definition scan :: "scan_config \<Rightarrow> metadata_budget \<Rightarrow> u8 list \<Rightarrow> scan_error + target option \<times> metadata_budget" where
  "scan cf b stream =
    and_then (scan_pages cf stream (scan_start b)) (\<lambda>(stopped, s).
    and_then (fail_if (sc_page_index s = 0) EmptyStream) (\<lambda>_.
    and_then (try_all (check_end cf stopped) (sc_streams s)) (\<lambda>_.
    case sc_target s of
      None \<Rightarrow> Inr (None, sc_budget s)
    | Some pending \<Rightarrow> and_then (settle_target pending) (\<lambda>t. Inr (Some t, sc_budget s)))))"

end
