(* ===== verification/Ogg_Packets.thy ===== *)
theory Ogg_Packets
  imports Ogg_Scan
begin

text \<open>
  Packets and pages of an Ogg stream (\<open>src/src/metadata/ogg.rs\<close>): the packets that a sequence of
  pages of one logical stream carries (\<open>assemble\<close>, the specification), the extraction of the header
  packets from their pages (\<open>extract_header_packets\<close>), and the distribution of packets over pages
  (\<open>PacketSegmentCursor\<close>, \<open>paginate_headers\<close>).
\<close>

section \<open>The packets of a sequence of pages\<close>

text \<open>The pieces of a body that a lacing table describes.\<close>

fun cut :: "u8 list \<Rightarrow> u8 list \<Rightarrow> (u8 \<times> u8 list) list" where
  "cut [] body = []"
| "cut (lace # lacing) body = (lace, take (unat lace) body) # cut lacing (drop (unat lace) body)"

definition page_segments :: "page \<Rightarrow> (u8 \<times> u8 list) list" where
  "page_segments p = cut (pg_lacing p) (pg_body p)"

text \<open>Complete packets, the beginning of the next one, and whether it has begun.\<close>

type_synonym assembly = "u8 list list \<times> u8 list \<times> bool"

definition add_segment :: "assembly \<Rightarrow> u8 \<times> u8 list \<Rightarrow> assembly" where
  "add_segment a segment =
    (case a of (done_packets, part, _) \<Rightarrow> case segment of (lace, bytes) \<Rightarrow>
      if lace = 255 then (done_packets, part @ bytes, True) else (done_packets @ [part @ bytes], [], False))"

definition add_page :: "assembly \<Rightarrow> page \<Rightarrow> assembly" where
  "add_page a p = foldl add_segment a (page_segments p)"

definition assemble :: "page list \<Rightarrow> assembly" where
  "assemble pages = foldl add_page ([], [], False) pages"

section \<open>Extracting the header packets\<close>

datatype rewrite_error =
    RewritePage page_error | RewriteMetadata metadata_error | RewriteScan scan_error | NotOgg
  | AllocationOverflow | AllocationLimit nat | ForeignSerial | BadFirstPage | UnexpectedBos | ContinuationFlag
  | EmptyHeaderPage | BadGranule | RewriteOffsetOverflow | RewriteLacing | RewritePacketLimit | RewriteUnreferenced
  | WindowEndsInPacket | HeaderCountChanged nat | PageCountLimit | BadCapacity | SegmentsEnded | SegmentsLeft
  | SequenceOverflow | PagesLimit nat | EosMissing | CommentsNotRetained | SharedHeaderPage | HeaderPagesGone
  | WindowPageLimit | WindowAllocationLimit nat | CommentPacketLimit nat | PacketSumUnderflow | NoCommentPacket
  | PagesNotEmitted | FilePageOverflow

definition sum_sizes :: "nat list \<Rightarrow> rewrite_error + nat" where
  "sum_sizes sizes = try_fold (\<lambda>total size. ok_or (usize_add total size) AllocationOverflow) 0 sizes"

definition check_rewrite_allocation :: "nat list \<Rightarrow> metadata_limits \<Rightarrow> rewrite_error + unit" where
  "check_rewrite_allocation amounts limits =
    and_then (sum_sizes amounts) (\<lambda>total. fail_if (max_total_bytes limits < total) (AllocationLimit total))"

record extraction =
  ex_packets :: "u8 list list"
  ex_packet :: "u8 list"
  ex_open :: bool
  ex_aggregate :: nat
  ex_offset :: nat

definition extract_segment ::
  "meta_env \<Rightarrow> metadata_limits \<Rightarrow> nat \<Rightarrow> u8 list \<Rightarrow> extraction \<Rightarrow> u8 \<Rightarrow> rewrite_error + extraction" where
  "extract_segment env limits retained body x lace =
    and_then (ok_or (usize_add (ex_offset x) (unat lace)) RewriteOffsetOverflow) (\<lambda>end.
    and_then (ok_or (slice_get body (ex_offset x) end) RewriteLacing) (\<lambda>bytes.
    and_then (ok_or (usize_add (length (ex_packet x)) (unat lace)) AllocationOverflow) (\<lambda>next_len.
    and_then (fail_if (max_ogg_packet_bytes limits < next_len) RewritePacketLimit) (\<lambda>_.
    and_then (check_rewrite_allocation [retained, ex_aggregate x, next_len] limits) (\<lambda>_.
    and_then (map_err RewriteMetadata (reserve env (unat lace))) (\<lambda>_.
    let packet = ex_packet x @ bytes in
    if lace = 255 then Inr (x\<lparr>ex_offset := end, ex_packet := packet, ex_open := True\<rparr>)
    else and_then (ok_or (usize_add (ex_aggregate x) (length packet)) AllocationOverflow) (\<lambda>aggregate.
         and_then (fail_if (max_total_bytes limits < aggregate) (AllocationLimit aggregate)) (\<lambda>_.
         Inr (x\<lparr>ex_offset := end, ex_packets := ex_packets x @ [packet], ex_packet := [], ex_open := False,
           ex_aggregate := aggregate\<rparr>)))))))))"

definition extract_page ::
  "meta_env \<Rightarrow> metadata_limits \<Rightarrow> u32 \<Rightarrow> nat \<Rightarrow> extraction \<Rightarrow> nat \<times> page \<Rightarrow> rewrite_error + extraction" where
  "extract_page env limits serial retained x entry =
    (case entry of (page_offset, p) \<Rightarrow>
     and_then (fail_if (pg_serial p \<noteq> serial) ForeignSerial) (\<lambda>_.
     and_then (if page_offset = 0 then fail_if (\<not> is_bos p \<or> is_continued p \<or> pg_sequence p \<noteq> 0) BadFirstPage
       else fail_if (is_bos p) UnexpectedBos) (\<lambda>_.
     and_then (fail_if (is_continued p \<noteq> ex_open x) ContinuationFlag) (\<lambda>_.
     and_then (fail_if (pg_lacing p = []) EmptyHeaderPage) (\<lambda>_.
     and_then (fail_if ((completed_packets p = 0 \<and> pg_granule p \<noteq> NO_GRANULE) \<or> (completed_packets p \<noteq> 0 \<and> pg_granule p \<noteq> 0))
       BadGranule) (\<lambda>_.
     and_then (try_fold (extract_segment env limits retained (pg_body p)) (x\<lparr>ex_offset := 0\<rparr>) (pg_lacing p)) (\<lambda>x.
     and_then (fail_if (ex_offset x \<noteq> length (pg_body p)) RewriteUnreferenced) (\<lambda>_. Inr x))))))))"

text \<open>The packets, the numbers of segments on the pages, and whether the last page ends the stream.\<close>

definition extract_header_packets ::
  "meta_env \<Rightarrow> metadata_limits \<Rightarrow> page list \<Rightarrow> target \<Rightarrow> nat \<Rightarrow> rewrite_error + u8 list list \<times> nat list \<times> bool" where
  "extract_header_packets env limits pages t retained =
    and_then (map_err RewriteMetadata (reserve env (header_packets (tg_codec t)))) (\<lambda>_.
    and_then (map_err RewriteMetadata (reserve env (length pages))) (\<lambda>_.
    and_then (try_fold (extract_page env limits (tg_serial t) retained)
      \<lparr>ex_packets = [], ex_packet = [], ex_open = False, ex_aggregate = 0, ex_offset = 0\<rparr> (enumerate 0 pages)) (\<lambda>x.
    and_then (fail_if (ex_open x \<or> ex_packet x \<noteq> []) WindowEndsInPacket) (\<lambda>_.
    and_then (fail_if (length (ex_packets x) \<noteq> header_packets (tg_codec t)) (HeaderCountChanged (length (ex_packets x)))) (\<lambda>_.
    Inr (ex_packets x, map (\<lambda>p. length (pg_lacing p)) pages, pages \<noteq> [] \<and> is_eos (last pages)))))))"

section \<open>Distributing packets over pages\<close>

text \<open>The cursor: the packets that are left and the offset in the first of them.\<close>

type_synonym segment_cursor = "u8 list list \<times> nat"

fun cursor_next :: "segment_cursor \<Rightarrow> ((u8 \<times> u8 list) \<times> segment_cursor) option" where
  "cursor_next ([], offset) = None"
| "cursor_next (packet # packets, offset) =
    (if offset = length packet then Some ((0, []), (packets, 0))
     else let len = min (length packet - offset) 255; bytes = take len (drop offset packet)
          in Some ((word_of_nat len, bytes), (if len < 255 then (packets, 0) else (packet # packets, offset + len))))"

fun cursor_take :: "nat \<Rightarrow> segment_cursor \<Rightarrow> rewrite_error + (u8 \<times> u8 list) list \<times> segment_cursor" where
  "cursor_take 0 c = Inr ([], c)"
| "cursor_take (Suc n) c =
    and_then (ok_or (cursor_next c) SegmentsEnded) (\<lambda>(segment, c).
    and_then (cursor_take n c) (\<lambda>(segments, c). Inr (segment # segments, c)))"

definition packet_segment_count :: "u8 list \<Rightarrow> rewrite_error + nat" where
  "packet_segment_count packet = ok_or (usize_add (length packet div 255) 1) AllocationOverflow"

definition count_segments :: "u8 list list \<Rightarrow> rewrite_error + nat" where
  "count_segments packets = try_fold (\<lambda>total packet.
    and_then (packet_segment_count packet) (\<lambda>n. ok_or (usize_add total n) AllocationOverflow)) 0 packets"

record pagination =
  pn_cursor :: segment_cursor
  pn_pages :: "page list"
  pn_bytes :: nat
  pn_emitted :: nat
  pn_previous_lace :: u8

definition page_flags :: "bool \<Rightarrow> bool \<Rightarrow> bool \<Rightarrow> u8" where
  "page_flags continued first final =
    (if continued then CONTINUED else 0) OR (if first then BOS else 0) OR (if final then EOS else 0)"

definition paginate_step ::
  "meta_env \<Rightarrow> metadata_limits \<Rightarrow> nat list \<Rightarrow> u32 \<Rightarrow> bool \<Rightarrow> nat \<Rightarrow> nat \<Rightarrow> pagination \<Rightarrow> rewrite_error + pagination" where
  "paginate_step env limits capacities serial eos retained amount s =
    (let generated = length (pn_pages s); capacity = (if generated < length capacities then capacities ! generated else 255) in
     and_then (fail_if (max_ogg_pages limits \<le> generated) PageCountLimit) (\<lambda>_.
     and_then (fail_if (capacity = 0 \<or> MAX_SEGMENTS < capacity) BadCapacity) (\<lambda>_.
     let n = min capacity (amount - pn_emitted s); continued = (pn_emitted s \<noteq> 0 \<and> pn_previous_lace s = 255) in
     and_then (map_err RewriteMetadata (reserve env n)) (\<lambda>_.
     and_then (cursor_take n (pn_cursor s)) (\<lambda>(segments, cursor).
     and_then (sum_sizes (map (\<lambda>s. length (snd s)) segments)) (\<lambda>page_body_len.
     and_then (ok_or (Option.bind (usize_add HEADER_LEN n) (\<lambda>size. usize_add size page_body_len)) AllocationOverflow) (\<lambda>size.
     and_then (check_rewrite_allocation [retained, pn_bytes s, size] limits) (\<lambda>_.
     and_then (map_err RewriteMetadata (reserve env page_body_len)) (\<lambda>_.
     let emitted = pn_emitted s + n; lacing = map fst segments in
     and_then (fail_if (2 ^ 32 \<le> generated) SequenceOverflow) (\<lambda>_.
     let p = \<lparr>pg_header_type = page_flags continued (generated = 0) (eos \<and> emitted = amount),
           pg_granule = (if list_ex (\<lambda>lace. lace < 255) lacing then 0 else NO_GRANULE), pg_serial = serial,
           pg_sequence = word_of_nat generated, pg_checksum = 0, pg_lacing = lacing, pg_body = concat (map snd segments)\<rparr> in
     and_then (ok_or (usize_add (pn_bytes s) (encoded_len p)) AllocationOverflow) (\<lambda>bytes.
     and_then (fail_if (max_total_bytes limits < bytes) (PagesLimit bytes)) (\<lambda>_.
     Inr \<lparr>pn_cursor = cursor, pn_pages = pn_pages s @ [p], pn_bytes = bytes, pn_emitted = emitted,
       pn_previous_lace = last (pn_previous_lace s # lacing)\<rparr>))))))))))))"

lemma paginate_step_emits:
  "paginate_step env limits capacities serial eos retained amount s = Inr s' \<Longrightarrow> pn_emitted s < amount \<Longrightarrow>
    pn_emitted s < pn_emitted s' \<and> pn_emitted s' \<le> amount"
  by (auto simp: paginate_step_def Let_def and_then_Inr_iff and_then_unit_iff)

function paginate_loop ::
  "meta_env \<Rightarrow> metadata_limits \<Rightarrow> nat list \<Rightarrow> u32 \<Rightarrow> bool \<Rightarrow> nat \<Rightarrow> nat \<Rightarrow> pagination \<Rightarrow> rewrite_error + pagination" where
  "paginate_loop env limits capacities serial eos retained amount s =
    (if pn_emitted s < amount
     then and_then (paginate_step env limits capacities serial eos retained amount s)
       (paginate_loop env limits capacities serial eos retained amount)
     else Inr s)"
  by pat_completeness auto

termination
  by (relation "measure (\<lambda>(env, limits, capacities, serial, eos, retained, amount, s). amount - pn_emitted s)")
    (auto dest: paginate_step_emits)

declare paginate_loop.simps [simp del]

definition paginate_headers ::
  "meta_env \<Rightarrow> metadata_limits \<Rightarrow> u8 list list \<Rightarrow> nat list \<Rightarrow> u32 \<Rightarrow> bool \<Rightarrow> nat \<Rightarrow> rewrite_error + page list" where
  "paginate_headers env limits packets capacities serial eos retained =
    and_then (count_segments packets) (\<lambda>total.
    and_then (paginate_loop env limits capacities serial eos retained total
      \<lparr>pn_cursor = (packets, 0), pn_pages = [], pn_bytes = 0, pn_emitted = 0, pn_previous_lace = 0\<rparr>) (\<lambda>s.
    and_then (fail_if (cursor_next (pn_cursor s) \<noteq> None) SegmentsLeft) (\<lambda>_. Inr (pn_pages s))))"

section \<open>Segments\<close>

text \<open>The segments of a packet: pieces of 255 bytes and a shorter last one, which may be empty.\<close>

function packet_segments :: "u8 list \<Rightarrow> (u8 \<times> u8 list) list" where
  "packet_segments packet =
    (if length packet < 255 then [(word_of_nat (length packet), packet)]
     else (255, take 255 packet) # packet_segments (drop 255 packet))"
  by pat_completeness auto

termination by (relation "measure length") auto

declare packet_segments.simps [simp del]

definition sized :: "u8 \<times> u8 list \<Rightarrow> bool" where "sized segment \<longleftrightarrow> length (snd segment) = unat (fst segment)"

lemma packet_segments_sized: "segment \<in> set (packet_segments packet) \<Longrightarrow> sized segment"
proof (induction packet rule: packet_segments.induct)
  case (1 packet)
  show ?case
  proof (cases "length packet < 255")
    case True
    then have "unat (word_of_nat (length packet) :: u8) = length packet" by (intro unat_word_of_nat_lt) simp
    then show ?thesis using 1 True by (auto simp: packet_segments.simps [of packet] sized_def)
  next
    case False
    then show ?thesis using 1 by (auto simp: packet_segments.simps [of packet] sized_def)
  qed
qed

lemma length_packet_segments: "length (packet_segments packet) = length packet div 255 + 1"
proof (induction packet rule: packet_segments.induct)
  case (1 packet)
  show ?case
  proof (cases "length packet < 255")
    case False
    then have "length packet div 255 = (length packet - 255) div 255 + 1" by (simp add: le_div_geq)
    then show ?thesis using 1 False by (simp add: packet_segments.simps [of packet])
  qed (simp add: packet_segments.simps [of packet])
qed

lemma add_packet_segments: "foldl add_segment (ps, part, b) (packet_segments packet) = (ps @ [part @ packet], [], False)"
proof (induction packet arbitrary: part b rule: packet_segments.induct)
  case (1 packet)
  show ?case
  proof (cases "length packet < 255")
    case True
    then have "unat (word_of_nat (length packet) :: u8) = length packet" by (intro unat_word_of_nat_lt) simp
    then have "(word_of_nat (length packet) :: u8) \<noteq> 255" using True by auto
    then show ?thesis using True by (simp add: packet_segments.simps [of packet] add_segment_def)
  next
    case False
    then show ?thesis using 1 by (simp add: packet_segments.simps [of packet] add_segment_def)
  qed
qed

lemma add_packets_segments:
  "foldl add_segment (ps, [], False) (concat (map packet_segments qs)) = (ps @ qs, [], False)"
  by (induction qs arbitrary: ps) (simp_all add: add_packet_segments)

lemma cut_sized: "\<forall>s \<in> set segments. sized s \<Longrightarrow> cut (map fst segments) (concat (map snd segments)) = segments"
  by (induction segments) (auto simp: sized_def)

lemma cut_props:
  "length body = sum_list (map unat lacing) \<Longrightarrow>
     map fst (cut lacing body) = lacing \<and> concat (map snd (cut lacing body)) = body \<and> (\<forall>s \<in> set (cut lacing body). sized s)"
  by (induction lacing body rule: cut.induct) (auto simp: sized_def)

lemma foldl_add_page: "foldl add_page a pages = foldl add_segment a (concat (map page_segments pages))"
  by (induction pages arbitrary: a) (simp_all add: add_page_def)

lemma assemble_segments: "assemble pages = foldl add_segment ([], [], False) (concat (map page_segments pages))"
  by (simp add: assemble_def foldl_add_page)

lemma assemble_append: "assemble (ps @ qs) = foldl add_page (assemble ps) qs"
  by (simp add: assemble_def)

section \<open>What pagination produces\<close>

definition cursor_segments :: "segment_cursor \<Rightarrow> (u8 \<times> u8 list) list" where
  "cursor_segments c = (case c of ([], _) \<Rightarrow> []
     | (packet # packets, offset) \<Rightarrow> packet_segments (drop offset packet) @ concat (map packet_segments packets))"

definition cursor_ok :: "segment_cursor \<Rightarrow> bool" where
  "cursor_ok c = (case c of ([], _) \<Rightarrow> True | (packet # _, offset) \<Rightarrow> offset \<le> length packet)"

lemma cursor_next_segments:
  "cursor_ok c \<Longrightarrow> cursor_next c = Some (segment, c') \<Longrightarrow> cursor_segments c = segment # cursor_segments c' \<and> cursor_ok c'"
proof (induction c rule: cursor_next.induct)
  case (2 packet packets offset)
  have rest: "cursor_segments (packets, 0) = concat (map packet_segments packets)" "cursor_ok (packets, 0)"
    by (cases packets; simp add: cursor_segments_def cursor_ok_def)+
  show ?case
  proof (cases "length packet - offset < 255")
    case True
    then have "packet_segments (drop offset packet) = [(word_of_nat (length packet - offset), drop offset packet)]"
      by (simp add: packet_segments.simps [of "drop offset packet"])
    then show ?thesis using 2 True rest by (cases "offset = length packet") (auto simp: cursor_segments_def cursor_ok_def Let_def)
  next
    case False
    then have "packet_segments (drop offset packet) = (255, take 255 (drop offset packet)) # packet_segments (drop (offset + 255) packet)"
      by (simp add: packet_segments.simps [of "drop offset packet"] add.commute)
    moreover have "min (length packet - offset) 255 = 255" "offset \<noteq> length packet" using False by auto
    then have "segment = (255, take 255 (drop offset packet))" "c' = (packet # packets, offset + 255)"
      using 2(2) by (simp_all add: Let_def)
    ultimately show ?thesis using False by (simp add: cursor_segments_def cursor_ok_def)
  qed
qed simp

lemma cursor_next_None: "cursor_next c = None \<longleftrightarrow> cursor_segments c = []"
proof (cases c rule: cursor_next.cases)
  case (2 packet packets offset)
  then show ?thesis using length_packet_segments [of "drop offset packet"] by (auto simp: cursor_segments_def Let_def)
qed (simp add: cursor_segments_def)

lemma cursor_take_segments:
  "cursor_ok c \<Longrightarrow> cursor_take n c = Inr (segments, c') \<Longrightarrow>
    cursor_segments c = segments @ cursor_segments c' \<and> cursor_ok c' \<and> length segments = n"
proof (induction n arbitrary: c segments)
  case (Suc n)
  from Suc.prems(2) obtain segment c1 rest where "cursor_next c = Some (segment, c1)" "cursor_take n c1 = Inr (rest, c')"
    "segments = segment # rest" by (auto simp: and_then_Inr_iff)
  then show ?case using cursor_next_segments [OF Suc.prems(1)] Suc.IH [of c1 rest] by auto
qed simp

text \<open>The pages of the headers of one stream, from its first: numbered from 0, with the flags and granule
  positions that the format asks for, given what was assembled before.\<close>

definition header_page :: "u32 \<Rightarrow> nat \<Rightarrow> bool \<Rightarrow> page \<Rightarrow> bool" where
  "header_page serial k opened p \<longleftrightarrow> pg_serial p = serial \<and> page_shape p \<and> pg_lacing p \<noteq> []
     \<and> pg_sequence p = word_of_nat k \<and> is_bos p = (k = 0) \<and> is_continued p = opened
     \<and> pg_granule p = (if completed_packets p = 0 then NO_GRANULE else 0)"

fun header_pages :: "u32 \<Rightarrow> nat \<Rightarrow> assembly \<Rightarrow> page list \<Rightarrow> bool" where
  "header_pages serial k a [] = True"
| "header_pages serial k a (p # ps) \<longleftrightarrow> header_page serial k (snd (snd a)) p \<and> header_pages serial (Suc k) (add_page a p) ps"

lemma header_pages_append: "header_pages serial k a (ps @ qs)
    \<longleftrightarrow> header_pages serial k a ps \<and> header_pages serial (k + length ps) (foldl add_page a ps) qs"
  by (induction ps arbitrary: k a) auto

lemma page_flags_bits:
  "page_flags c f l AND CONTINUED \<noteq> 0 \<longleftrightarrow> c" "page_flags c f l AND BOS \<noteq> 0 \<longleftrightarrow> f" "page_flags c f l AND EOS \<noteq> 0 \<longleftrightarrow> l"
  "page_flags c f l AND NOT (CONTINUED OR BOS OR EOS) = 0"
  by (cases c; cases f; cases l; simp add: page_flags_def CONTINUED_def BOS_def EOS_def)+

lemma open_after: "segments \<noteq> [] \<Longrightarrow> snd (snd (foldl add_segment a segments)) = (fst (last segments) = 255)"
  by (induction segments rule: rev_induct) (auto simp: add_segment_def split: prod.splits)

lemma completed_packets_ex: "completed_packets p = 0 \<longleftrightarrow> \<not> list_ex (\<lambda>lace. lace < 255) (pg_lacing p)"
  by (auto simp: completed_packets_def filter_empty_conv list_ex_iff)

definition paginated :: "u32 \<Rightarrow> bool \<Rightarrow> u8 list list \<Rightarrow> nat \<Rightarrow> pagination \<Rightarrow> bool" where
  "paginated serial eos packets amount s \<longleftrightarrow>
     concat (map page_segments (pn_pages s)) @ cursor_segments (pn_cursor s) = concat (map packet_segments packets)
   \<and> cursor_ok (pn_cursor s) \<and> pn_emitted s = length (concat (map page_segments (pn_pages s)))
   \<and> header_pages serial 0 ([], [], False) (pn_pages s)
   \<and> (pn_emitted s \<noteq> 0 \<and> pn_previous_lace s = 255) = snd (snd (assemble (pn_pages s)))
   \<and> (\<forall>p \<in> set (butlast (pn_pages s)). \<not> is_eos p)
   \<and> (pn_pages s \<noteq> [] \<longrightarrow> is_eos (last (pn_pages s)) = (eos \<and> pn_emitted s = amount))"

lemma paginate_step_paginated:
  assumes step: "paginate_step env limits capacities serial eos retained amount s = Inr s'"
    and inv: "paginated serial eos packets amount s" and less: "pn_emitted s < amount"
    and sized: "\<forall>segment \<in> set (concat (map packet_segments packets)). sized segment"
  shows "paginated serial eos packets amount s'"
proof -
  let ?k = "length (pn_pages s)"
  define capacity where "capacity = (if ?k < length capacities then capacities ! ?k else 255)"
  define n where "n = min capacity (amount - pn_emitted s)"
  obtain segments cursor bytes where c: "capacity \<noteq> 0" "capacity \<le> 255"
    and t: "cursor_take n (pn_cursor s) = Inr (segments, cursor)"
    and s': "s' = \<lparr>pn_cursor = cursor, pn_pages = pn_pages s @ [\<lparr>
        pg_header_type = page_flags (pn_emitted s \<noteq> 0 \<and> pn_previous_lace s = 255) (?k = 0) (eos \<and> pn_emitted s + n = amount),
        pg_granule = (if list_ex (\<lambda>lace. lace < 255) (map fst segments) then 0 else NO_GRANULE), pg_serial = serial,
        pg_sequence = word_of_nat ?k, pg_checksum = 0, pg_lacing = map fst segments, pg_body = concat (map snd segments)\<rparr>],
      pn_bytes = bytes, pn_emitted = pn_emitted s + n, pn_previous_lace = last (pn_previous_lace s # map fst segments)\<rparr>"
    using step by (auto simp: paginate_step_def Let_def and_then_Inr_iff and_then_unit_iff MAX_SEGMENTS_def
        capacity_def [symmetric] n_def [symmetric])
  define p where "p = last (pn_pages s')"
  have p: "pn_pages s' = pn_pages s @ [p]" "pg_lacing p = map fst segments" "pg_body p = concat (map snd segments)"
    "pg_serial p = serial" "pg_sequence p = word_of_nat ?k"
    "pg_header_type p = page_flags (pn_emitted s \<noteq> 0 \<and> pn_previous_lace s = 255) (?k = 0) (eos \<and> pn_emitted s + n = amount)"
    "pg_granule p = (if list_ex (\<lambda>lace. lace < 255) (pg_lacing p) then 0 else NO_GRANULE)"
    by (simp_all add: p_def s')
  note i = inv [unfolded paginated_def]
  have t': "cursor_segments (pn_cursor s) = segments @ cursor_segments cursor" "cursor_ok cursor" "length segments = n"
    using cursor_take_segments [OF _ t] i by auto
  have n: "n \<noteq> 0" "n \<le> 255" using c less by (auto simp: n_def)
  have all: "concat (map page_segments (pn_pages s)) @ segments @ cursor_segments cursor = concat (map packet_segments packets)"
    using i t'(1) by simp
  have sg: "\<forall>segment \<in> set segments. sized segment"
    using sized unfolding all [symmetric] set_append ball_Un by blast
  have seg: "page_segments p = segments" using cut_sized [OF sg] by (simp add: page_segments_def p)
  have ne: "segments \<noteq> []" using t'(3) n by auto
  have flags: "is_bos p = (?k = 0)" "is_continued p = (pn_emitted s \<noteq> 0 \<and> pn_previous_lace s = 255)"
    "is_eos p = (eos \<and> pn_emitted s + n = amount)"
    unfolding is_bos_def is_continued_def is_eos_def p(6) page_flags_bits by simp_all
  have "length (concat (map snd xs)) = sum_list (map unat (map fst xs))" if "\<forall>x \<in> set xs. sized x" for xs
    using that by (induction xs) (auto simp: sized_def)
  then have shape: "page_shape p" using sg t'(3) n(2) page_flags_bits(4)
    by (simp add: page_shape_def p MAX_SEGMENTS_def)
  have cont: "is_continued p = snd (snd (assemble (pn_pages s)))" using i flags(2) by blast
  have "header_page serial ?k (snd (snd (assemble (pn_pages s)))) p"
    unfolding header_page_def completed_packets_ex using shape cont flags(1) ne by (simp add: p)
  then have "header_pages serial 0 ([], [], False) (pn_pages s @ [p])"
    using i by (simp add: header_pages_append assemble_def)
  moreover have "snd (snd (assemble (pn_pages s @ [p]))) = (fst (last segments) = 255)"
    using open_after [OF ne] seg by (simp add: assemble_append add_page_def)
  moreover have "last (pn_previous_lace s # map fst segments) = fst (last segments)" using ne by (simp add: last_map)
  moreover have "\<not> is_eos q" if "q \<in> set (pn_pages s)" for q
  proof (cases "q \<in> set (butlast (pn_pages s))")
    case False
    then have "q = last (pn_pages s)" "pn_pages s \<noteq> []" using that
      by (metis append_butlast_last_id empty_iff list.set(1) rotate1.simps(2) set_ConsD set_rotate1)
        (use that in auto)
    then show ?thesis using i less by auto
  qed (use i in blast)
  ultimately show ?thesis
    using i all t' seg flags n by (simp add: paginated_def p(1)) (simp add: s')
qed

lemma paginate_loop_paginated:
  "paginate_loop env limits capacities serial eos retained amount s = Inr s' \<Longrightarrow> paginated serial eos packets amount s \<Longrightarrow>
    pn_emitted s \<le> amount \<Longrightarrow> \<forall>segment \<in> set (concat (map packet_segments packets)). sized segment \<Longrightarrow>
    paginated serial eos packets amount s' \<and> pn_emitted s' = amount"
proof (induction env limits capacities serial eos retained amount s rule: paginate_loop.induct)
  case (1 env limits capacities serial eos retained amount s)
  show ?case
  proof (cases "pn_emitted s < amount")
    case True
    then obtain s1 where step: "paginate_step env limits capacities serial eos retained amount s = Inr s1"
      and rest: "paginate_loop env limits capacities serial eos retained amount s1 = Inr s'"
      using 1(2) by (auto simp: paginate_loop.simps [of _ _ _ _ _ _ _ s] and_then_Inr_iff)
    show ?thesis
      using 1(1) [OF True step rest] paginate_step_paginated [OF step 1(3) True 1(5)] paginate_step_emits [OF step True] 1(5)
      by blast
  next
    case False
    then show ?thesis using 1(2-4) by (simp add: paginate_loop.simps [of _ _ _ _ _ _ _ s])
  qed
qed

lemma count_segments_iff: "count_segments packets = Inr amount \<Longrightarrow> amount = length (concat (map packet_segments packets))"
proof -
  have "try_fold (\<lambda>total packet. and_then (packet_segment_count packet) (\<lambda>n. ok_or (usize_add total n) AllocationOverflow)) start ps
      = Inr amount \<Longrightarrow> amount = start + length (concat (map packet_segments ps))" for start ps
  proof (induction ps arbitrary: start)
    case (Cons p ps)
    have "packet_segment_count p = Inr n \<Longrightarrow> n = length (packet_segments p)" for n
      by (auto simp: packet_segment_count_def length_packet_segments)
    then show ?case using Cons by (fastforce simp: and_then_Inr_iff)
  qed simp
  from this [of 0 packets] show "count_segments packets = Inr amount \<Longrightarrow> ?thesis" by (simp add: count_segments_def)
qed

lemma paginate_headers_correct:
  assumes "paginate_headers env limits packets capacities serial eos retained = Inr pages"
  shows "header_pages serial 0 ([], [], False) pages \<and> assemble pages = (packets, [], False)
    \<and> (\<forall>p \<in> set (butlast pages). \<not> is_eos p) \<and> (pages \<noteq> [] \<longrightarrow> is_eos (last pages) = eos)"
proof -
  obtain amount s where amount: "count_segments packets = Inr amount"
    and loop: "paginate_loop env limits capacities serial eos retained amount
      \<lparr>pn_cursor = (packets, 0), pn_pages = [], pn_bytes = 0, pn_emitted = 0, pn_previous_lace = 0\<rparr> = Inr s"
    and done_all: "cursor_next (pn_cursor s) = None" and pages: "pages = pn_pages s"
    using assms by (auto simp: paginate_headers_def and_then_Inr_iff and_then_unit_iff simp del: not_None_eq)
  have sized: "\<forall>segment \<in> set (concat (map packet_segments packets)). sized segment"
    using packet_segments_sized by auto
  have "paginated serial eos packets amount
      \<lparr>pn_cursor = (packets, 0), pn_pages = [], pn_bytes = 0, pn_emitted = 0, pn_previous_lace = 0\<rparr>"
    by (cases packets) (simp_all add: paginated_def cursor_segments_def cursor_ok_def assemble_def)
  from paginate_loop_paginated [OF loop this _ sized] have inv: "paginated serial eos packets amount s" "pn_emitted s = amount"
    by simp_all
  moreover have "concat (map page_segments pages) = concat (map packet_segments packets)"
    using inv done_all cursor_next_None [of "pn_cursor s"] by (simp add: paginated_def pages)
  then have "assemble pages = (packets, [], False)"
    using add_packets_segments [of "[]" packets] by (simp add: assemble_segments)
  ultimately show ?thesis by (simp add: paginated_def pages)
qed

section \<open>What extraction returns\<close>

definition assembly_of :: "extraction \<Rightarrow> assembly" where
  "assembly_of x = (ex_packets x, ex_packet x, ex_open x)"

lemma extract_segment_sound:
  assumes "extract_segment env limits retained body x lace = Inr x'"
  shows "ex_offset x' = ex_offset x + unat lace \<and> ex_offset x' \<le> length body
    \<and> assembly_of x' = add_segment (assembly_of x) (lace, take (unat lace) (drop (ex_offset x) body))"
  using assms by (auto simp: extract_segment_def Let_def and_then_Inr_iff and_then_unit_iff slice_get_Some_iff
      assembly_of_def add_segment_def split: if_splits)

lemma extract_segments_sound:
  "try_fold (extract_segment env limits retained body) x lacing = Inr x' \<Longrightarrow> ex_offset x \<le> length body \<Longrightarrow>
    ex_offset x' = ex_offset x + sum_list (map unat lacing) \<and> ex_offset x' \<le> length body
    \<and> assembly_of x' = foldl add_segment (assembly_of x) (cut lacing (drop (ex_offset x) body))"
proof (induction lacing arbitrary: x)
  case (Cons lace lacing)
  from Cons.prems obtain x1 where step: "extract_segment env limits retained body x lace = Inr x1"
    and rest: "try_fold (extract_segment env limits retained body) x1 lacing = Inr x'" by (auto simp: and_then_Inr_iff)
  note s = extract_segment_sound [OF step]
  have "drop (ex_offset x1) body = drop (unat lace) (drop (ex_offset x) body)" using s by (simp add: add.commute)
  then show ?case using s Cons.IH [OF rest] by simp
qed simp

lemma extract_page_sound:
  assumes "extract_page env limits serial retained x (k, p) = Inr x'"
  shows "assembly_of x' = add_page (assembly_of x) p \<and> pg_serial p = serial \<and> pg_lacing p \<noteq> []
    \<and> is_continued p = ex_open x \<and> is_bos p = (k = 0)"
proof -
  obtain x1 where "try_fold (extract_segment env limits retained (pg_body p)) (x\<lparr>ex_offset := 0\<rparr>) (pg_lacing p) = Inr x1"
    "x' = x1" "pg_serial p = serial" "pg_lacing p \<noteq> []" "is_continued p = ex_open x" "is_bos p = (k = 0)"
    using assms by (auto simp: extract_page_def and_then_Inr_iff and_then_unit_iff split: if_splits)
  then show ?thesis using extract_segments_sound [of env limits retained "pg_body p" "x\<lparr>ex_offset := 0\<rparr>" "pg_lacing p" x1]
    by (simp add: add_page_def page_segments_def assembly_of_def)
qed

lemma extract_pages_sound:
  "try_fold (extract_page env limits serial retained) x (enumerate k pages) = Inr x' \<Longrightarrow>
    assembly_of x' = foldl add_page (assembly_of x) pages"
proof (induction pages arbitrary: x k)
  case (Cons p pages)
  then obtain x1 where "extract_page env limits serial retained x (k, p) = Inr x1"
    "try_fold (extract_page env limits serial retained) x1 (enumerate (Suc k) pages) = Inr x'" by (auto simp: and_then_Inr_iff)
  then show ?case using extract_page_sound Cons.IH by fastforce
qed simp

lemma extract_header_packets_sound:
  assumes "extract_header_packets env limits pages t retained = Inr (packets, capacities, eos)"
  shows "assemble pages = (packets, [], False) \<and> length packets = header_packets (tg_codec t)
    \<and> capacities = map (\<lambda>p. length (pg_lacing p)) pages \<and> eos = (pages \<noteq> [] \<and> is_eos (last pages))"
  using assms extract_pages_sound [of env limits "tg_serial t" retained _ 0 pages]
  by (fastforce simp: extract_header_packets_def and_then_Inr_iff and_then_unit_iff assemble_def assembly_of_def)

section \<open>Extraction succeeds within the limits\<close>

definition assembly_size :: "assembly \<Rightarrow> nat" where
  "assembly_size a = sum_list (map length (fst a)) + length (fst (snd a))"

definition assembly_bounded :: "nat \<Rightarrow> assembly \<Rightarrow> bool" where
  "assembly_bounded n a \<longleftrightarrow> (\<forall>packet \<in> set (fst a). length packet \<le> n) \<and> length (fst (snd a)) \<le> n"

lemma add_segment_size: "assembly_size (add_segment a segment) = assembly_size a + length (snd segment)"
  by (auto simp: assembly_size_def add_segment_def split: prod.splits)

lemma assembly_size_mono: "assembly_size a \<le> assembly_size (foldl add_segment a segments)"
proof (induction segments arbitrary: a)
  case (Cons segment segments)
  from Cons [of "add_segment a segment"] show ?case by (simp only: foldl_Cons add_segment_size)
qed simp

lemma add_segment_bounded: "assembly_bounded n (add_segment a segment) \<Longrightarrow> assembly_bounded n a"
  by (auto simp: assembly_bounded_def add_segment_def split: prod.splits if_splits)

lemma assembly_bounded_back: "assembly_bounded n (foldl add_segment a segments) \<Longrightarrow> assembly_bounded n a"
proof (induction segments arbitrary: a)
  case (Cons segment segments)
  show ?case by (rule add_segment_bounded, rule Cons.IH) (use Cons.prems in simp)
qed simp

definition aggregate_ok :: "extraction \<Rightarrow> bool" where
  "aggregate_ok x \<longleftrightarrow> ex_aggregate x = sum_list (map length (ex_packets x))"

text \<open>There is memory, and what is assembled in the end fits the limits.\<close>

definition extraction_fits :: "meta_env \<Rightarrow> metadata_limits \<Rightarrow> nat \<Rightarrow> assembly \<Rightarrow> bool" where
  "extraction_fits env limits retained final \<longleftrightarrow> (\<forall>n. me_reserve env n)
     \<and> retained + assembly_size final \<le> max_total_bytes limits \<and> max_total_bytes limits < 2 ^ 64
     \<and> assembly_bounded (max_ogg_packet_bytes limits) final"

lemma segment_succeeds:
  assumes fits_final: "extraction_fits env limits retained final"
    and "final = foldl add_segment (assembly_of x) ((lace, take (unat lace) (drop (ex_offset x) body)) # segments)"
    and "ex_offset x + unat lace \<le> length body" and "length body < 2 ^ 64" and "aggregate_ok x"
  shows "\<exists>x'. extract_segment env limits retained body x lace = Inr x' \<and> aggregate_ok x'
    \<and> ex_offset x' = ex_offset x + unat lace
    \<and> assembly_of x' = add_segment (assembly_of x) (lace, take (unat lace) (drop (ex_offset x) body))"
proof -
  let ?bytes = "take (unat lace) (drop (ex_offset x) body)"
  note assms = assms(2-)
  have memory: "me_reserve env n" and total_fits: "retained + assembly_size final \<le> max_total_bytes limits"
    and total_small: "max_total_bytes limits < 2 ^ 64" and packets_fit: "assembly_bounded (max_ogg_packet_bytes limits) final" for n
    using fits_final by (simp_all add: extraction_fits_def)
  have len: "length ?bytes = unat lace" using assms(2) by simp
  let ?a = "add_segment (assembly_of x) (lace, ?bytes)"
  have "assembly_size ?a \<le> assembly_size final" using assms(1) assembly_size_mono [of ?a segments] by simp
  moreover have at: "assembly_size (assembly_of x) = ex_aggregate x + length (ex_packet x)"
    using assms(4) by (simp add: assembly_size_def assembly_of_def aggregate_ok_def)
  ultimately have size: "retained + ex_aggregate x + (length (ex_packet x) + unat lace) \<le> max_total_bytes limits"
    using total_fits assms(4) add_segment_size [of "assembly_of x" "(lace, ?bytes)"] len at by simp
  have "assembly_bounded (max_ogg_packet_bytes limits) ?a"
    using packets_fit assembly_bounded_back [of _ ?a segments] assms(1) by simp
  then have fits: "length (ex_packet x) + unat lace \<le> max_ogg_packet_bytes limits"
    using len by (auto simp: assembly_bounded_def add_segment_def assembly_of_def split: if_splits)
  have "check_rewrite_allocation [retained, ex_aggregate x, length (ex_packet x) + unat lace] limits = Inr ()"
    using size total_small by (simp add: check_rewrite_allocation_def sum_sizes_def)
  moreover have "slice_get body (ex_offset x) (ex_offset x + unat lace) = Some ?bytes"
    using assms(2) by (simp add: slice_get_def)
  ultimately show ?thesis
    using assms(2-4) fits size total_small memory len
    by (auto simp: extract_segment_def Let_def reserve_def assembly_of_def add_segment_def aggregate_ok_def)
qed

lemma segments_succeed:
  "extraction_fits env limits retained final \<Longrightarrow> final = foldl add_segment (assembly_of x) (cut lacing (drop (ex_offset x) body) @ segments) \<Longrightarrow>
   ex_offset x + sum_list (map unat lacing) \<le> length body \<Longrightarrow> length body < 2 ^ 64 \<Longrightarrow> aggregate_ok x \<Longrightarrow>
   \<exists>x'. try_fold (extract_segment env limits retained body) x lacing = Inr x' \<and> aggregate_ok x'
     \<and> ex_offset x' = ex_offset x + sum_list (map unat lacing)
     \<and> assembly_of x' = foldl add_segment (assembly_of x) (cut lacing (drop (ex_offset x) body))"
proof (induction lacing arbitrary: x)
  case (Cons lace lacing)
  let ?s = "(lace, take (unat lace) (drop (ex_offset x) body))"
  have d: "drop (unat lace) (drop (ex_offset x) body) = drop (ex_offset x + unat lace) body" by (simp add: add.commute)
  obtain x1 where x1: "extract_segment env limits retained body x lace = Inr x1" "aggregate_ok x1"
      "ex_offset x1 = ex_offset x + unat lace" "assembly_of x1 = add_segment (assembly_of x) ?s"
    using segment_succeeds [OF Cons.prems(1), of x lace body "cut lacing (drop (ex_offset x + unat lace) body) @ segments"]
      Cons.prems(2-) d by auto
  have "final = foldl add_segment (assembly_of x1) (cut lacing (drop (ex_offset x1) body) @ segments)"
    using Cons.prems(2) d x1(3,4) by simp
  from Cons.IH [OF Cons.prems(1) this] show ?case using Cons.prems(3,4) x1 d by auto
qed simp

lemma page_succeeds:
  assumes fits: "extraction_fits env limits retained final" and "final = foldl add_page (assembly_of x) (p # pages)" and "header_page serial k (ex_open x) p"
    and "k = 0 \<longrightarrow> \<not> ex_open x" and "aggregate_ok x"
  shows "\<exists>x'. extract_page env limits serial retained x (k, p) = Inr x' \<and> aggregate_ok x'
    \<and> assembly_of x' = add_page (assembly_of x) p"
proof -
  let ?x = "x\<lparr>ex_offset := 0\<rparr>"
  note assms = assms(2-)
  have p: "page_shape p" "pg_serial p = serial" "pg_lacing p \<noteq> []" "is_bos p = (k = 0)" "is_continued p = ex_open x"
    "k = 0 \<longrightarrow> pg_sequence p = 0" "pg_granule p = (if completed_packets p = 0 then NO_GRANULE else 0)"
    using assms(2) by (auto simp: header_page_def)
  have len: "length (pg_body p) = sum_list (map unat (pg_lacing p))" using p(1) by (simp add: page_shape_def)
  have small: "length (pg_body p) < 2 ^ 64"
    using p(1) body_length_bound [of "pg_lacing p"] len by (simp add: page_shape_def MAX_SEGMENTS_def MAX_PAGE_BODY_def)
  have asm: "assembly_of ?x = assembly_of x" "aggregate_ok ?x" using assms(4) by (simp_all add: assembly_of_def aggregate_ok_def)
  have "\<exists>x'. try_fold (extract_segment env limits retained (pg_body p)) ?x (pg_lacing p) = Inr x' \<and> aggregate_ok x'
     \<and> ex_offset x' = length (pg_body p) \<and> assembly_of x' = add_page (assembly_of x) p"
    using segments_succeed [OF fits, of ?x "pg_lacing p" "pg_body p" "concat (map page_segments pages)"] assms(1) len small asm
    by (simp add: add_page_def page_segments_def foldl_add_page [of _ pages] )
  then show ?thesis using p assms(3) by (auto simp: extract_page_def)
qed

lemma pages_succeed:
  "extraction_fits env limits retained final \<Longrightarrow> final = foldl add_page (assembly_of x) pages \<Longrightarrow> header_pages serial k (assembly_of x) pages \<Longrightarrow>
   k = 0 \<longrightarrow> \<not> ex_open x \<Longrightarrow> aggregate_ok x \<Longrightarrow>
   \<exists>x'. try_fold (extract_page env limits serial retained) x (enumerate k pages) = Inr x' \<and> assembly_of x' = final"
proof (induction pages arbitrary: x k)
  case (Cons p pages)
  have "header_page serial k (ex_open x) p" using Cons.prems(3) by (simp add: assembly_of_def)
  then obtain x1 where x1: "extract_page env limits serial retained x (k, p) = Inr x1" "aggregate_ok x1"
    "assembly_of x1 = add_page (assembly_of x) p"
    using page_succeeds [OF Cons.prems(1,2), of serial k] Cons.prems(4,5) by auto
  then show ?case using Cons.IH [of x1 "Suc k"] Cons.prems by simp
qed simp

text \<open>The headers of a stream survive their distribution over pages. When \<open>paginate_headers\<close>
  spreads packets over pages, \<open>extract_header_packets\<close> reads exactly these packets back from the
  pages, for any page capacities and any packet lengths (multiples of 255 and empty packets
  included), as long as the packets fit the limits and the allocator does not fail; and only the last
  page can end the stream, as asked for.\<close>

theorem header_pages_roundtrip:
  assumes "paginate_headers env limits packets capacities (tg_serial t) eos retained = Inr pages"
    and "\<And>n. me_reserve env n" and "length packets = header_packets (tg_codec t)" and "packets \<noteq> []"
    and "retained' + sum_list (map length packets) \<le> max_total_bytes limits" and "max_total_bytes limits < 2 ^ 64"
    and "\<forall>packet \<in> set packets. length packet \<le> max_ogg_packet_bytes limits"
  shows "extract_header_packets env limits pages t retained'
    = Inr (packets, map (\<lambda>p. length (pg_lacing p)) pages, eos)"
proof -
  have g: "header_pages (tg_serial t) 0 ([], [], False) pages" "assemble pages = (packets, [], False)"
    "pages \<noteq> [] \<longrightarrow> is_eos (last pages) = eos"
    using paginate_headers_correct [OF assms(1)] by auto
  have "pages \<noteq> []" using g(2) assms(4) by (auto simp: assemble_def)
  have fits: "extraction_fits env limits retained' (packets, [], False)"
    using assms by (simp add: extraction_fits_def assembly_size_def assembly_bounded_def)
  let ?x = "\<lparr>ex_packets = [], ex_packet = [], ex_open = False, ex_aggregate = 0, ex_offset = 0\<rparr>"
  have "assembly_of ?x = ([], [], False)" "aggregate_ok ?x" by (simp_all add: assembly_of_def aggregate_ok_def)
  then obtain x' where "try_fold (extract_page env limits (tg_serial t) retained') ?x (enumerate 0 pages) = Inr x'"
    "assembly_of x' = (packets, [], False)"
    using pages_succeed [OF fits, of ?x pages "tg_serial t" 0] g(1,2) by (auto simp: assemble_def)
  then show ?thesis using assms(2,3) g(3) \<open>pages \<noteq> []\<close>
    by (simp add: extract_header_packets_def reserve_def assembly_of_def)
qed

definition demo_target :: target where
  "demo_target = \<lparr>tg_serial = 7, tg_bos_page = 0, tg_header_end_page = 1, tg_eos_page = Some 1, tg_codec = Opus,
     tg_comments = None, tg_tail = [], tg_shares_header_page_with_audio = False\<rparr>"

definition demo_packets :: "u8 list list" where "demo_packets = [[1], [2, 3]]"

lemma paginate_loop_cases:
  "pn_emitted s < amount \<Longrightarrow> paginate_loop env limits capacities serial eos retained amount s
    = and_then (paginate_step env limits capacities serial eos retained amount s)
        (paginate_loop env limits capacities serial eos retained amount)"
  "\<not> pn_emitted s < amount \<Longrightarrow> paginate_loop env limits capacities serial eos retained amount s = Inr s"
  by (simp_all add: paginate_loop.simps [of _ _ _ _ _ _ _ s])

lemma demo_pages:
  "\<exists>p q. paginate_headers demo_meta_env metadata_limits_default demo_packets [1] 7 True 0 = Inr [p, q]
    \<and> pg_lacing p = [1] \<and> pg_lacing q = [2]"
proof -
  have n: "count_segments [[1], [2, 3]] = Inr 2"
    by (simp add: count_segments_def packet_segment_count_def)
  show ?thesis
    by (simp add: paginate_headers_def n paginate_loop_cases paginate_step_def demo_packets_def metadata_limits_default_def
        Let_def MAX_SEGMENTS_def reserve_def demo_meta_env_def sum_sizes_def check_rewrite_allocation_def HEADER_LEN_def
        encoded_len_def)
qed

theorem header_pages_roundtrip_witness:
  "\<exists>p q. extract_header_packets demo_meta_env metadata_limits_default [p, q] demo_target 0 = Inr (demo_packets, [1, 1], True)"
proof -
  obtain p q where p: "paginate_headers demo_meta_env metadata_limits_default demo_packets [1] (tg_serial demo_target) True 0 = Inr [p, q]"
    "pg_lacing p = [1]" "pg_lacing q = [2]" using demo_pages by (auto simp: demo_target_def)
  have "extract_header_packets demo_meta_env metadata_limits_default [p, q] demo_target 0
      = Inr (demo_packets, map (\<lambda>p. length (pg_lacing p)) [p, q], True)"
    by (rule header_pages_roundtrip [OF p(1)])
      (simp_all add: demo_meta_env_def demo_packets_def demo_target_def header_packets_def metadata_limits_default_def)
  then show ?thesis using p(2,3) by auto
qed

end
