(* ===== verification/Ogg_Scan_Correct.thy ===== *)
theory Ogg_Scan_Correct
  imports Ogg_Packets
begin

text \<open>
  What the scan of an Ogg file finds (\<open>src/src/metadata/ogg.rs\<close>: \<open>scan\<close>). The specification takes the
  pages of one logical stream out of the file (\<open>window\<close>) and puts its packets together
  (\<open>assemble\<close>); the scan does it for all streams at once, page by page, and holds only the packets that
  it needs. \<open>scan_inv\<close> relates the two after any number of pages, and also says that the count of
  buffered bytes is the sum of the buffers, so that the accounting errors of the code cannot occur.
\<close>

section \<open>Specification\<close>

text \<open>The pages of a serial number from a page of the file on.\<close>

definition window :: "u32 \<Rightarrow> nat \<Rightarrow> page list \<Rightarrow> page list" where
  "window serial start pages = map snd (filter (\<lambda>(i, p). start \<le> i \<and> pg_serial p = serial) (enumerate 0 pages))"

definition window_until :: "u32 \<Rightarrow> nat \<Rightarrow> nat \<Rightarrow> page list \<Rightarrow> page list" where
  "window_until serial start end pages =
    map snd (filter (\<lambda>(i, p). start \<le> i \<and> i \<le> end \<and> pg_serial p = serial) (enumerate 0 pages))"

definition pending_pages :: "pending_target \<Rightarrow> page list \<Rightarrow> page list" where
  "pending_pages pt pages = (case pt_eos_page pt of
     None \<Rightarrow> window (pt_serial pt) (pt_bos_page pt) pages
   | Some n \<Rightarrow> window_until (pt_serial pt) (pt_bos_page pt) n pages)"

lemma enumerate_snoc: "enumerate n (xs @ [x]) = enumerate n xs @ [(n + length xs, x)]"
  by (simp add: enumerate_append_eq)

lemma window_snoc: "window k start (pages @ [p]) =
    window k start pages @ (if start \<le> length pages \<and> pg_serial p = k then [p] else [])"
  by (simp add: window_def enumerate_snoc)

lemma window_until_snoc: "n < length pages \<Longrightarrow> window_until k start n (pages @ [p]) = window_until k start n pages"
  by (simp add: window_until_def enumerate_snoc)

lemma window_end: "window k (length pages) pages = []"
  by (auto simp: window_def filter_empty_conv in_set_enumerate_eq)

lemma window_until_all: "length pages \<le> Suc n \<Longrightarrow> window_until k start n pages = window k start pages"
  unfolding window_until_def window_def by (rule arg_cong, rule filter_cong) (auto simp: in_set_enumerate_eq)

text \<open>The pages of one logical stream in order: numbered from \<open>n\<close>, the first one marked as the beginning of the
  stream and no other, a page marked as continued when a packet is open, nothing after the page
  marked as the end of the stream.\<close>

fun follow :: "nat \<Rightarrow> assembly \<Rightarrow> page list \<Rightarrow> bool" where
  "follow n a [] = True"
| "follow n a (p # ps) \<longleftrightarrow> pg_sequence p = word_of_nat n \<and> is_bos p = (n = 0) \<and> is_continued p = snd (snd a)
     \<and> (is_eos p \<longrightarrow> ps = []) \<and> follow (Suc n) (add_page a p) ps"

definition logical_stream :: "page list \<Rightarrow> bool" where
  "logical_stream ps \<longleftrightarrow> follow 0 ([], [], False) ps"

lemma follow_append: "follow n a (ps @ qs) \<longleftrightarrow>
    follow n a ps \<and> (qs \<noteq> [] \<longrightarrow> (\<forall>p \<in> set ps. \<not> is_eos p)) \<and> follow (n + length ps) (foldl add_page a ps) qs"
  by (induction ps arbitrary: n a) auto

lemma logical_stream_snoc: "logical_stream (ps @ [p]) \<longleftrightarrow> logical_stream ps \<and> (\<forall>q \<in> set ps. \<not> is_eos q)
    \<and> pg_sequence p = word_of_nat (length ps) \<and> is_bos p = (ps = []) \<and> is_continued p = snd (snd (assemble ps))"
  by (simp add: logical_stream_def follow_append assemble_def)

section \<open>One stream\<close>

text \<open>The packets before the current one, the beginning of the current one, and what the stream
  remembers of them.\<close>

definition known_codec :: "scan_config \<Rightarrow> u8 list list \<Rightarrow> codec option \<Rightarrow> bool" where
  "known_codec cf ps c \<longleftrightarrow> (if ps = [] then c = None else identify_codec (hd ps) (cf_limits cf) = Inr c)"

definition collects :: "nat \<Rightarrow> codec option \<Rightarrow> bool" where
  "collects n c \<longleftrightarrow> n = 0 \<or> (c \<noteq> None \<and> n = 1) \<or> (c = Some Vorbis \<and> n = 2)"

lemma should_collect_fields: "should_collect st = collects (ss_packet_index st) (ss_codec st)"
  by (simp add: should_collect_def collects_def)

definition remembers :: "scan_config \<Rightarrow> u8 list list \<Rightarrow> u8 list \<Rightarrow> stream_state \<Rightarrow> bool" where
  "remembers cf ps part st \<longleftrightarrow> ss_packet_index st = length ps \<and> ss_packet_len st = length part
     \<and> ss_packet_buffer st = (if collects (length ps) (ss_codec st) then part else [])
     \<and> known_codec cf ps (ss_codec st)"

text \<open>What the target has to hold when these packets of its stream are complete.\<close>

definition comments_of :: "scan_config \<Rightarrow> metadata_budget \<Rightarrow> pending_target \<Rightarrow> u8 list \<Rightarrow> metadata_budget \<Rightarrow> bool" where
  "comments_of cf b0 pt packet b \<longleftrightarrow>
    (\<exists>body tail. comment_parts (pt_codec pt) packet (cf_limits cf) (retain_comments cf) = Inr (body, tail)
     \<and> (if retain_comments cf
        then \<exists>c b1. parse_comment_body (cf_env cf) body b0 = Inr (c, b1) \<and> charge_bytes b1 (length tail) = Inr b
               \<and> pt_comments pt = Some c \<and> pt_tail pt = tail
        else validate_tagless_comment body tail = Inr () \<and> b = b0 \<and> pt_comments pt = None \<and> pt_tail pt = []))"

definition pending_ok ::
  "scan_config \<Rightarrow> metadata_budget \<Rightarrow> pending_target \<Rightarrow> u8 list list \<Rightarrow> nat \<Rightarrow> metadata_budget \<Rightarrow> bool" where
  "pending_ok cf b0 pt ps n b \<longleftrightarrow> ps \<noteq> [] \<and> identify_codec (hd ps) (cf_limits cf) = Inr (Some (pt_codec pt))
     \<and> pt_comment_seen pt = (2 \<le> length ps)
     \<and> (if 2 \<le> length ps then comments_of cf b0 pt (ps ! 1) b else b = b0 \<and> pt_comments pt = None \<and> pt_tail pt = [])
     \<and> (pt_header_end_page pt \<noteq> None) = (header_packets (pt_codec pt) \<le> n)"

lemma identify_codec_headers: "identify_codec packet limits = Inr (Some c) \<Longrightarrow> 2 \<le> header_packets c"
  by (auto simp: identify_codec_def identify_speex_def and_then_Inr_iff and_then_unit_iff header_packets_def
      split: if_splits)

text \<open>What does not change while the segments of a page are taken: the serial number, the target and the
  budget before the page, whether the stream was the target, the bytes that other streams hold, and
  the fields of the stream that the page has set already.\<close>

record scan_context =
  cx_serial :: u32
  cx_target :: "pending_target option"
  cx_budget :: metadata_budget
  cx_was :: bool
  cx_others :: nat
  cx_page :: nat
  cx_frame :: "nat \<times> bool \<times> u32"

definition frame_of :: "stream_state \<Rightarrow> nat \<times> bool \<times> u32" where
  "frame_of st = (ss_bos_page st, ss_eos st, ss_expected_sequence st)"

text \<open>Either the stream is the target, or it has left the target and the budget alone.\<close>

definition leads ::
  "scan_config \<Rightarrow> metadata_budget \<Rightarrow> u8 list list \<Rightarrow> nat \<Rightarrow> u32 \<Rightarrow> nat \<Rightarrow> nat \<Rightarrow> pending_target option \<Rightarrow> metadata_budget \<Rightarrow> bool" where
  "leads cf b0 ps n serial bos now target b \<longleftrightarrow> (\<exists>pt. target = Some pt \<and> pt_serial pt = serial \<and> pt_bos_page pt = bos
     \<and> pt_eos_page pt = None \<and> pending_ok cf b0 pt ps n b \<and> (\<forall>h. pt_header_end_page pt = Some h \<longrightarrow> h \<le> now))"

definition shares ::
  "scan_config \<Rightarrow> metadata_budget \<Rightarrow> scan_context \<Rightarrow> u8 list list \<Rightarrow> nat \<Rightarrow> bool \<Rightarrow> nat
    \<Rightarrow> pending_target option \<Rightarrow> metadata_budget \<Rightarrow> bool" where
  "shares cf b0 x ps n leading bos target b \<longleftrightarrow>
    (if leading then leads cf b0 ps n (cx_serial x) bos (cx_page x) target b \<and> (cx_was x \<or> cx_target x = None)
     else target = cx_target x \<and> b = cx_budget x \<and> \<not> cx_was x)"

definition segment_inv :: "scan_config \<Rightarrow> metadata_budget \<Rightarrow> scan_context \<Rightarrow> assembly \<Rightarrow> segment_state \<Rightarrow> bool" where
  "segment_inv cf b0 x a g \<longleftrightarrow>
     (case a of (ps, part, opened) \<Rightarrow> remembers cf ps part (sg_stream g) \<and> ss_packet_open (sg_stream g) = opened
       \<and> shares cf b0 x ps (length ps) (ss_target (sg_stream g)) (ss_bos_page (sg_stream g)) (sg_target g) (sg_budget g))
   \<and> sg_buffered g = cx_others x + length (ss_packet_buffer (sg_stream g)) \<and> sg_buffered g \<le> header_buffer_limit cf
   \<and> frame_of (sg_stream g) = cx_frame x \<and> (cx_target x = None \<longrightarrow> cx_budget x = b0)"

section \<open>One segment\<close>

lemma begin_segment_fields:
  assumes "begin_segment cf i g = Inr g'"
  shows "\<exists>pages first. g' = g\<lparr>sg_stream := (sg_stream g)\<lparr>ss_packet_pages := pages, ss_first_packet_page := first\<rparr>, sg_on_page := True\<rparr>"
proof (cases "sg_on_page g")
  case True
  then have "g' = g\<lparr>sg_stream := (sg_stream g)\<lparr>ss_packet_pages := ss_packet_pages (sg_stream g),
      ss_first_packet_page := ss_first_packet_page (sg_stream g)\<rparr>, sg_on_page := True\<rparr>"
    using assms by (simp add: begin_segment_def)
  then show ?thesis by blast
next
  case False
  have "g' = g\<lparr>sg_stream := (sg_stream g)\<lparr>ss_packet_pages := 1,
      ss_first_packet_page := (if ss_packet_index (sg_stream g) = 0 \<and> ss_first_packet_page (sg_stream g) = None
        then Some i else ss_first_packet_page (sg_stream g))\<rparr>, sg_on_page := True\<rparr>"
    by (cases "ss_packet_index (sg_stream g) = 0 \<and> ss_first_packet_page (sg_stream g) = None")
      (use assms False in \<open>auto simp: begin_segment_def Let_def and_then_unit_iff and_then_Inr_iff\<close>)
  then show ?thesis by blast
qed

lemma begin_segment_inv:
  assumes "begin_segment cf i g = Inr g'" and "segment_inv cf b0 x a g"
  shows "segment_inv cf b0 x a g' \<and> sg_offset g' = sg_offset g"
proof -
  obtain pages first where g': "g' = g\<lparr>sg_stream := (sg_stream g)\<lparr>ss_packet_pages := pages, ss_first_packet_page := first\<rparr>, sg_on_page := True\<rparr>"
    using begin_segment_fields [OF assms(1)] by blast
  obtain ps part opened where a: "a = (ps, part, opened)" by (cases a)
  show ?thesis using assms(2) by (auto simp: g' a segment_inv_def remembers_def frame_of_def)
qed

lemma collect_segment_inv:
  assumes "collect_segment cf segment g = Inr g'"
    and "remembers cf ps part ((sg_stream g)\<lparr>ss_packet_len := length part\<rparr>)"
    and "ss_packet_len (sg_stream g) = length part + length segment"
    and "sg_buffered g = others + length (ss_packet_buffer (sg_stream g))" and "sg_buffered g \<le> header_buffer_limit cf"
  shows "remembers cf ps (part @ segment) (sg_stream g')
    \<and> sg_buffered g' = others + length (ss_packet_buffer (sg_stream g')) \<and> sg_buffered g' \<le> header_buffer_limit cf
    \<and> (\<exists>buffer buffered. g' = g\<lparr>sg_stream := (sg_stream g)\<lparr>ss_packet_buffer := buffer\<rparr>, sg_buffered := buffered\<rparr>)"
proof (cases "should_collect (sg_stream g)")
  case True
  then have g': "g' = g\<lparr>sg_stream := (sg_stream g)\<lparr>ss_packet_buffer := ss_packet_buffer (sg_stream g) @ segment\<rparr>,
      sg_buffered := sg_buffered g + length segment\<rparr>" and l: "sg_buffered g + length segment \<le> header_buffer_limit cf"
    using assms(1) by (auto simp: collect_segment_def Let_def and_then_Inr_iff and_then_unit_iff)
  have "remembers cf ps (part @ segment) (sg_stream g')"
    using assms(2,3) True by (simp add: g' remembers_def should_collect_fields)
  moreover have "sg_buffered g' = others + length (ss_packet_buffer (sg_stream g'))" using assms(4) by (simp add: g')
  ultimately show ?thesis using l g' by auto
next
  case False
  then have g': "g' = g" using assms(1) by (simp add: collect_segment_def Let_def)
  have "remembers cf ps (part @ segment) (sg_stream g)"
    using assms(2,3) False by (simp add: remembers_def should_collect_fields)
  moreover have "\<exists>buffer buffered. g = g\<lparr>sg_stream := (sg_stream g)\<lparr>ss_packet_buffer := buffer\<rparr>, sg_buffered := buffered\<rparr>"
    by (rule exI [of _ "ss_packet_buffer (sg_stream g)"], rule exI [of _ "sg_buffered g"]) simp
  ultimately show ?thesis using assms(4,5) unfolding g' by blast
qed

lemma take_segment_inv:
  assumes "take_segment cf body lace g = Inr g'" and inv: "segment_inv cf b0 x (ps, part, opened) g"
  shows "segment_inv cf b0 x (ps, part @ take (unat lace) (drop (sg_offset g) body), opened) g'
    \<and> sg_offset g' = sg_offset g + unat lace \<and> sg_offset g' \<le> length body"
proof -
  let ?segment = "take (unat lace) (drop (sg_offset g) body)"
  define h where "h = g\<lparr>sg_offset := sg_offset g + unat lace,
    sg_stream := (sg_stream g)\<lparr>ss_packet_len := ss_packet_len (sg_stream g) + unat lace\<rparr>\<rparr>"
  have c: "collect_segment cf ?segment h = Inr g'" "sg_offset g + unat lace \<le> length body"
    using assms(1) by (auto simp: take_segment_def Let_def and_then_Inr_iff and_then_unit_iff slice_get_Some_iff h_def)
  have i: "remembers cf ps part (sg_stream g)" "sg_buffered g = cx_others x + length (ss_packet_buffer (sg_stream g))"
    "sg_buffered g \<le> header_buffer_limit cf" "ss_packet_open (sg_stream g) = opened" "shares cf b0 x ps (length ps) (ss_target (sg_stream g)) (ss_bos_page (sg_stream g)) (sg_target g) (sg_budget g)"
    "frame_of (sg_stream g) = cx_frame x" "cx_target x = None \<longrightarrow> cx_budget x = b0"
    using inv by (simp_all add: segment_inv_def)
  have "remembers cf ps part ((sg_stream h)\<lparr>ss_packet_len := length part\<rparr>)"
    using i(1) by (simp add: h_def remembers_def)
  moreover have "ss_packet_len (sg_stream h) = length part + length ?segment"
    using i(1) c(2) by (simp add: h_def remembers_def)
  moreover have "sg_buffered h = cx_others x + length (ss_packet_buffer (sg_stream h))" "sg_buffered h \<le> header_buffer_limit cf"
    using i(2,3) by (simp_all add: h_def)
  ultimately have r: "remembers cf ps (part @ ?segment) (sg_stream g')"
      "sg_buffered g' = cx_others x + length (ss_packet_buffer (sg_stream g'))" "sg_buffered g' \<le> header_buffer_limit cf"
    and "\<exists>buffer buffered. g' = h\<lparr>sg_stream := (sg_stream h)\<lparr>ss_packet_buffer := buffer\<rparr>, sg_buffered := buffered\<rparr>"
    using collect_segment_inv [OF c(1)] by blast+
  then obtain buffer buffered where g': "g' = h\<lparr>sg_stream := (sg_stream h)\<lparr>ss_packet_buffer := buffer\<rparr>, sg_buffered := buffered\<rparr>"
    by blast
  have "ss_packet_open (sg_stream g') = opened" "frame_of (sg_stream g') = cx_frame x" "sg_offset g' = sg_offset g + unat lace"
    using i(4,6) by (simp_all add: g' h_def frame_of_def)
  moreover have "shares cf b0 x ps (length ps) (ss_target (sg_stream g')) (ss_bos_page (sg_stream g')) (sg_target g') (sg_budget g')"
    using i(5) by (simp add: g' h_def)
  ultimately show ?thesis using r c(2) i(7) by (simp add: segment_inv_def)
qed

section \<open>One packet\<close>

lemma known_codec_append: "ps \<noteq> [] \<Longrightarrow> known_codec cf (ps @ qs) c = known_codec cf ps c"
  by (simp add: known_codec_def)

lemma pending_ok_later:
  assumes "pending_ok cf b0 pt ps n b" and "2 \<le> length ps"
  shows "pending_ok cf b0 pt (ps @ [packet]) n b"
  using assms by (auto simp: pending_ok_def comments_of_def nth_append)

lemma not_leading_at_start: "shares cf b0 x [] n leading bos target b \<Longrightarrow> \<not> leading"
  by (auto simp: shares_def leads_def pending_ok_def split: if_splits)

lemma leading_codec:
  assumes "shares cf b0 x ps n True bos target b" and "known_codec cf ps c"
  shows "\<exists>pt. target = Some pt \<and> c = Some (pt_codec pt)"
  using assms by (auto simp: shares_def leads_def pending_ok_def known_codec_def)

text \<open>What the inspection of a packet changes: the codec, the target, the budget.\<close>

lemma keep_not_target: "\<not> ss_target st \<Longrightarrow> st\<lparr>ss_codec := c, ss_target := False\<rparr> = st\<lparr>ss_codec := c\<rparr>"
  by (cases st) simp

lemma first_packet_inv:
  assumes "first_packet cf serial packet g = Inr g'" and "serial = cx_serial x"
    and "shares cf b0 x [] n (ss_target (sg_stream g)) (ss_bos_page (sg_stream g)) (sg_target g) (sg_budget g)"
    and "cx_target x = None \<longrightarrow> cx_budget x = b0" and "n < 2"
  shows "\<exists>c leading target. g' = g\<lparr>sg_stream := (sg_stream g)\<lparr>ss_codec := c, ss_target := leading\<rparr>, sg_target := target\<rparr>
    \<and> known_codec cf [packet] c \<and> shares cf b0 x [packet] n leading (ss_bos_page (sg_stream g)) target (sg_budget g)"
proof -
  have off: "\<not> ss_target (sg_stream g)" and tb: "sg_target g = cx_target x" "sg_budget g = cx_budget x" "\<not> cx_was x"
    using assms(3) not_leading_at_start [OF assms(3)] by (auto simp: shares_def)
  obtain found where f: "identify_codec packet (cf_limits cf) = Inr found"
    using assms(1) by (auto simp: first_packet_def and_then_Inr_iff)
  have k: "known_codec cf [packet] found" using f by (simp add: known_codec_def)
  show ?thesis
  proof (cases "found = None \<or> sg_target g \<noteq> None")
    case True
    have "g' = g\<lparr>sg_stream := (sg_stream g)\<lparr>ss_codec := found, ss_target := False\<rparr>, sg_target := sg_target g\<rparr>"
      using assms(1) f True keep_not_target [OF off]
      by (auto simp: first_packet_def Let_def and_then_Inr_iff and_then_unit_iff split: option.splits)
    moreover have "shares cf b0 x [packet] n False (ss_bos_page (sg_stream g)) (sg_target g) (sg_budget g)"
      using tb by (simp add: shares_def)
    ultimately show ?thesis using k by blast
  next
    case False
    then obtain c where c: "found = Some c" and none: "sg_target g = None" by auto
    let ?pt = "\<lparr>pt_serial = serial, pt_bos_page = ss_bos_page (sg_stream g), pt_codec = c, pt_comments = None,
      pt_comment_seen = False, pt_tail = [], pt_header_end_page = None, pt_eos_page = None,
      pt_shares_header_page_with_audio = False\<rparr>"
    have "g' = g\<lparr>sg_stream := (sg_stream g)\<lparr>ss_codec := found, ss_target := True\<rparr>, sg_target := Some ?pt\<rparr>"
      using assms(1) f c none by (simp add: first_packet_def and_then_Inr_iff and_then_unit_iff Let_def)
    moreover have "2 \<le> header_packets c" using f c identify_codec_headers by simp
    then have "shares cf b0 x [packet] n True (ss_bos_page (sg_stream g)) (Some ?pt) (sg_budget g)"
      using f c none tb assms(2,4,5) by (simp add: shares_def leads_def pending_ok_def)
    ultimately show ?thesis using k by blast
  qed
qed

lemma comment_packet_inv:
  assumes "comment_packet cf packet c g = Inr g'" and "ss_codec (sg_stream g) = Some c" and "known_codec cf [p0] (Some c)"
    and "shares cf b0 x [p0] n (ss_target (sg_stream g)) (ss_bos_page (sg_stream g)) (sg_target g) (sg_budget g)"
  shows "\<exists>target b. g' = g\<lparr>sg_target := target, sg_budget := b\<rparr>
    \<and> shares cf b0 x [p0, packet] n (ss_target (sg_stream g)) (ss_bos_page (sg_stream g)) target b"
proof (cases "ss_target (sg_stream g)")
  case False
  then have "g' = g\<lparr>sg_target := sg_target g, sg_budget := sg_budget g\<rparr>"
    using assms(1) by (auto simp: comment_packet_def and_then_Inr_iff)
  moreover have "shares cf b0 x [p0, packet] n (ss_target (sg_stream g)) (ss_bos_page (sg_stream g)) (sg_target g) (sg_budget g)"
    using assms(4) False by (simp add: shares_def)
  ultimately show ?thesis by blast
next
  case True
  obtain pt where pt: "sg_target g = Some pt" "pt_serial pt = cx_serial x" "pt_bos_page pt = ss_bos_page (sg_stream g)"
    "pt_eos_page pt = None" "pending_ok cf b0 pt [p0] n (sg_budget g)" "cx_was x \<or> cx_target x = None"
    "\<forall>h. pt_header_end_page pt = Some h \<longrightarrow> h \<le> cx_page x"
    using assms(4) True by (auto simp: shares_def leads_def)
  have c: "pt_codec pt = c" using pt(5) assms(3) by (simp add: pending_ok_def known_codec_def)
  obtain body tail where parts: "comment_parts c packet (cf_limits cf) (retain_comments cf) = Inr (body, tail)"
    using assms(1) by (auto simp: comment_packet_def and_then_Inr_iff)
  show ?thesis
  proof (cases "retain_comments cf")
    case keep: True
    obtain comments b1 b where b: "parse_comment_body (cf_env cf) body (sg_budget g) = Inr (comments, b1)"
      "charge_bytes b1 (length tail) = Inr b"
      and g': "g' = g\<lparr>sg_budget := b, sg_target := Some (pt\<lparr>pt_comment_seen := True, pt_tail := pt_tail pt @ tail,
        pt_comments := Some comments\<rparr>)\<rparr>"
      using assms(1) parts keep True pt(1) by (auto simp: comment_packet_def Let_def and_then_Inr_iff and_then_unit_iff)
    let ?pt = "pt\<lparr>pt_comment_seen := True, pt_tail := pt_tail pt @ tail, pt_comments := Some comments\<rparr>"
    have "pending_ok cf b0 ?pt [p0, packet] n b"
      using pt(5) parts keep b c by (simp add: pending_ok_def comments_of_def)
    then have "shares cf b0 x [p0, packet] n (ss_target (sg_stream g)) (ss_bos_page (sg_stream g)) (Some ?pt) b"
      using True pt(2-4,6,7) by (simp add: shares_def leads_def)
    then show ?thesis using g' by (intro exI [of _ "Some ?pt"] exI [of _ b]) simp
  next
    case drop: False
    have v: "validate_tagless_comment body tail = Inr ()"
      and g': "g' = g\<lparr>sg_target := Some (pt\<lparr>pt_comment_seen := True\<rparr>), sg_budget := sg_budget g\<rparr>"
      using assms(1) parts drop True pt(1) by (auto simp: comment_packet_def Let_def and_then_Inr_iff and_then_unit_iff)
    have "pending_ok cf b0 (pt\<lparr>pt_comment_seen := True\<rparr>) [p0, packet] n (sg_budget g)"
      using pt(5) parts drop v c by (simp add: pending_ok_def comments_of_def)
    then have "shares cf b0 x [p0, packet] n (ss_target (sg_stream g)) (ss_bos_page (sg_stream g))
        (Some (pt\<lparr>pt_comment_seen := True\<rparr>)) (sg_budget g)"
      using True pt(2-4,6,7) by (simp add: shares_def leads_def)
    then show ?thesis using g' by blast
  qed
qed

lemma inspect_packet_inv:
  assumes "inspect_packet cf serial (if collects (length ps) (ss_codec (sg_stream g)) then part else []) g = Inr g'"
    and "serial = cx_serial x" and "ss_packet_index (sg_stream g) = length ps" and "known_codec cf ps (ss_codec (sg_stream g))"
    and "shares cf b0 x ps (length ps) (ss_target (sg_stream g)) (ss_bos_page (sg_stream g)) (sg_target g) (sg_budget g)"
    and "cx_target x = None \<longrightarrow> cx_budget x = b0"
  shows "\<exists>c leading target b. g' = g\<lparr>sg_stream := (sg_stream g)\<lparr>ss_codec := c, ss_target := leading\<rparr>, sg_target := target, sg_budget := b\<rparr>
    \<and> known_codec cf (ps @ [part]) c \<and> shares cf b0 x (ps @ [part]) (length ps) leading (ss_bos_page (sg_stream g)) target b"
proof -
  let ?same = "g\<lparr>sg_stream := (sg_stream g)\<lparr>ss_codec := ss_codec (sg_stream g), ss_target := ss_target (sg_stream g)\<rparr>,
      sg_target := sg_target g, sg_budget := sg_budget g\<rparr>"
  consider "ps = []" | p0 where "ps = [p0]" | "2 \<le> length ps" by (cases ps; cases "tl ps") auto
  then show ?thesis
  proof cases
    case 1
    then have "first_packet cf serial part g = Inr g'" using assms(1,3) by (simp add: inspect_packet_def collects_def)
    from first_packet_inv [OF this assms(2), of b0 0] assms(5,6) 1
    obtain c leading target where "g' = g\<lparr>sg_stream := (sg_stream g)\<lparr>ss_codec := c, ss_target := leading\<rparr>, sg_target := target\<rparr>"
      "known_codec cf [part] c" "shares cf b0 x [part] 0 leading (ss_bos_page (sg_stream g)) target (sg_budget g)" by auto
    then show ?thesis using 1 by (intro exI [of _ c] exI [of _ leading] exI [of _ target] exI [of _ "sg_budget g"]) simp
  next
    case 2
    show ?thesis
    proof (cases "ss_codec (sg_stream g)")
      case None
      then have "g' = ?same" using assms(1,3) 2 by (simp add: inspect_packet_def)
      moreover have "\<not> ss_target (sg_stream g)"
        using assms(4,5) None leading_codec [of cf b0 x ps "length ps" _ "sg_target g"] by (cases "ss_target (sg_stream g)") auto
      then have "shares cf b0 x (ps @ [part]) (length ps) (ss_target (sg_stream g)) (ss_bos_page (sg_stream g)) (sg_target g) (sg_budget g)"
        using assms(5) by (simp add: shares_def)
      ultimately show ?thesis using assms(4) 2 known_codec_append [of ps cf "[part]"] by blast
    next
      case (Some c)
      then have "comment_packet cf part c g = Inr g'"
        using assms(1,3) 2 by (simp add: inspect_packet_def collects_def)
      from comment_packet_inv [OF this Some, of p0 b0 x 1] Some assms(4,5) 2
      obtain target b where "g' = g\<lparr>sg_target := target, sg_budget := b\<rparr>"
        "shares cf b0 x [p0, part] 1 (ss_target (sg_stream g)) (ss_bos_page (sg_stream g)) target b" by auto
      then show ?thesis using assms(4) 2 known_codec_append [of ps cf "[part]" "ss_codec (sg_stream g)"]
        by (intro exI [of _ "ss_codec (sg_stream g)"] exI [of _ "ss_target (sg_stream g)"] exI [of _ target] exI [of _ b]) simp
    qed
  next
    case 3
    then have "g' = ?same" using assms(1,3) by (auto simp: inspect_packet_def and_then_unit_iff Let_def split: if_splits)
    moreover have "shares cf b0 x (ps @ [part]) (length ps) (ss_target (sg_stream g)) (ss_bos_page (sg_stream g)) (sg_target g) (sg_budget g)"
      using assms(5) 3 pending_ok_later [of cf b0 _ ps "length ps"] by (auto simp: shares_def leads_def)
    moreover have "ps \<noteq> []" using 3 by auto
    ultimately show ?thesis using assms(4) known_codec_append [of ps cf "[part]"] by blast
  qed
qed

lemma comments_of_end [simp]:
  "comments_of cf b0 (pt\<lparr>pt_header_end_page := i, pt_shares_header_page_with_audio := followed\<rparr>) packet b = comments_of cf b0 pt packet b"
  "comments_of cf b0 (pt\<lparr>pt_eos_page := e\<rparr>) packet b = comments_of cf b0 pt packet b"
  by (simp_all add: comments_of_def)

lemma end_headers_inv:
  assumes "end_headers (cx_page x) followed g = Inr g'" and "ss_packet_index (sg_stream g) = Suc n" and "known_codec cf ps (ss_codec (sg_stream g))"
    and "shares cf b0 x ps n (ss_target (sg_stream g)) (ss_bos_page (sg_stream g)) (sg_target g) (sg_budget g)"
  shows "\<exists>target. g' = g\<lparr>sg_target := target\<rparr>
    \<and> shares cf b0 x ps (Suc n) (ss_target (sg_stream g)) (ss_bos_page (sg_stream g)) target (sg_budget g)"
proof (cases "ss_target (sg_stream g)")
  case False
  then have "g' = g\<lparr>sg_target := sg_target g\<rparr>" using assms(1) by (simp add: end_headers_def)
  then show ?thesis using False assms(4) by (metis shares_def)
next
  case True
  obtain pt where pt: "sg_target g = Some pt" "pt_serial pt = cx_serial x" "pt_bos_page pt = ss_bos_page (sg_stream g)"
    "pt_eos_page pt = None" "pending_ok cf b0 pt ps n (sg_budget g)" "cx_was x \<or> cx_target x = None"
    "\<forall>h. pt_header_end_page pt = Some h \<longrightarrow> h \<le> cx_page x"
    using assms(4) True by (auto simp: shares_def leads_def)
  have c: "ss_codec (sg_stream g) = Some (pt_codec pt)"
    using pt(5) assms(3) by (auto simp: pending_ok_def known_codec_def split: if_splits)
  show ?thesis
  proof (cases "header_packets (pt_codec pt) = Suc n")
    case complete: True
    let ?pt = "pt\<lparr>pt_header_end_page := Some (cx_page x), pt_shares_header_page_with_audio := followed\<rparr>"
    have "g' = g\<lparr>sg_target := Some ?pt\<rparr>" using assms(1,2) pt(1) c True complete by (simp add: end_headers_def)
    moreover have "pending_ok cf b0 ?pt ps (Suc n) (sg_budget g)"
      using pt(5) complete by (auto simp: pending_ok_def)
    then have "shares cf b0 x ps (Suc n) (ss_target (sg_stream g)) (ss_bos_page (sg_stream g)) (Some ?pt) (sg_budget g)"
      using True pt by (simp add: shares_def leads_def)
    ultimately show ?thesis by blast
  next
    case False
    have "g' = g\<lparr>sg_target := sg_target g\<rparr>" using assms(1,2) c False by (auto simp: end_headers_def)
    moreover have "pending_ok cf b0 pt ps (Suc n) (sg_budget g)"
      using pt(5) False by (auto simp: pending_ok_def)
    then have "shares cf b0 x ps (Suc n) (ss_target (sg_stream g)) (ss_bos_page (sg_stream g)) (sg_target g) (sg_budget g)"
      using True pt by (simp add: shares_def leads_def)
    ultimately show ?thesis by blast
  qed
qed

lemma finish_packet_inv:
  assumes "finish_packet cf (cx_serial x) (cx_page x) followed g = Inr g'"
    and inv: "segment_inv cf b0 x (ps, part, opened) g"
  shows "segment_inv cf b0 x (ps @ [part], [], opened) g' \<and> sg_offset g' = sg_offset g"
proof -
  let ?packet = "ss_packet_buffer (sg_stream g)"
  define h where "h = g\<lparr>sg_stream := (sg_stream g)\<lparr>ss_packet_buffer := []\<rparr>\<rparr>"
  obtain h1 index h2 where steps: "inspect_packet cf (cx_serial x) ?packet h = Inr h1"
      "usize_add (ss_packet_index (sg_stream h1)) 1 = Some index"
      "end_headers (cx_page x) followed (h1\<lparr>sg_stream := (sg_stream h1)\<lparr>ss_packet_index := index\<rparr>\<rparr>) = Inr h2"
      "length ?packet \<le> sg_buffered h2"
      "g' = h2\<lparr>sg_buffered := sg_buffered h2 - length ?packet, sg_on_page := False,
         sg_stream := (sg_stream h2)\<lparr>ss_packet_len := 0, ss_packet_pages := 0\<rparr>\<rparr>"
    using assms(1) by (auto simp: finish_packet_def Let_def h_def and_then_Inr_iff and_then_unit_iff)
  have i: "ss_packet_index (sg_stream h) = length ps" "known_codec cf ps (ss_codec (sg_stream h))"
      "?packet = (if collects (length ps) (ss_codec (sg_stream h)) then part else [])"
      "shares cf b0 x ps (length ps) (ss_target (sg_stream h)) (ss_bos_page (sg_stream h)) (sg_target h) (sg_budget h)"
      "sg_buffered h = cx_others x + length ?packet" "sg_buffered h \<le> header_buffer_limit cf" "ss_packet_open (sg_stream h) = opened"
      "frame_of (sg_stream h) = cx_frame x" "ss_packet_buffer (sg_stream h) = []" "cx_target x = None \<longrightarrow> cx_budget x = b0"
    using inv by (auto simp: segment_inv_def remembers_def h_def frame_of_def)
  obtain c leading target b where h1: "h1 = h\<lparr>sg_stream := (sg_stream h)\<lparr>ss_codec := c, ss_target := leading\<rparr>, sg_target := target, sg_budget := b\<rparr>"
      "known_codec cf (ps @ [part]) c" "shares cf b0 x (ps @ [part]) (length ps) leading (ss_bos_page (sg_stream h)) target b"
    using inspect_packet_inv [OF steps(1) [unfolded i(3)] refl i(1,2,4,10)] by blast
  have index: "index = Suc (length ps)" using steps(2) h1(1) i(1) by (simp add: usize_add_def split: if_splits)
  let ?h = "h1\<lparr>sg_stream := (sg_stream h1)\<lparr>ss_packet_index := index\<rparr>\<rparr>"
  obtain target' where h2: "h2 = ?h\<lparr>sg_target := target'\<rparr>"
      "shares cf b0 x (ps @ [part]) (Suc (length ps)) leading (ss_bos_page (sg_stream h)) target' b"
    using end_headers_inv [OF steps(3), of "length ps" cf "ps @ [part]" b0] h1 index by auto
  have g': "g' = h2\<lparr>sg_buffered := sg_buffered h2 - length ?packet, sg_on_page := False,
         sg_stream := (sg_stream h2)\<lparr>ss_packet_len := 0, ss_packet_pages := 0\<rparr>\<rparr>" by (rule steps(5))
  have "remembers cf (ps @ [part]) [] (sg_stream g')" using h1 i(9) index unfolding g' h2(1) remembers_def by simp
  moreover have "shares cf b0 x (ps @ [part]) (Suc (length ps)) (ss_target (sg_stream g')) (ss_bos_page (sg_stream g')) (sg_target g') (sg_budget g')"
    using h2(2) h1(1) unfolding g' h2(1) by simp
  moreover have "ss_packet_open (sg_stream g') = opened" "frame_of (sg_stream g') = cx_frame x" "sg_offset g' = sg_offset g"
    using h1(1) i(7,8) unfolding g' h2(1) by (simp_all add: frame_of_def h_def)
  moreover have "sg_buffered g' = cx_others x" "ss_packet_buffer (sg_stream g') = []"
    using h1(1) i(5,9) unfolding g' h2(1) by simp_all
  ultimately show ?thesis using i(5,6,10) by (simp add: segment_inv_def)
qed

lemma segment_inv_open:
  assumes "segment_inv cf b0 x (ps, part, opened) g"
  shows "segment_inv cf b0 x (ps, part, v) (g\<lparr>sg_stream := (sg_stream g)\<lparr>ss_packet_open := v\<rparr>\<rparr>)"
  using assms by (auto simp: segment_inv_def remembers_def frame_of_def)

lemma scan_segment_inv:
  assumes "scan_segment cf page (cx_page x) g (k, lace) = Inr g'" and "segment_inv cf b0 x a g" and "pg_serial page = cx_serial x"
  shows "segment_inv cf b0 x (add_segment a (lace, take (unat lace) (drop (sg_offset g) (pg_body page)))) g'
    \<and> sg_offset g' = sg_offset g + unat lace \<and> sg_offset g' \<le> length (pg_body page)"
proof -
  obtain ps part opened where a: "a = (ps, part, opened)" by (cases a)
  obtain g1 g2 where steps: "begin_segment cf (cx_page x) g = Inr g1" "take_segment cf (pg_body page) lace g1 = Inr g2"
    and r: "(if lace = 255 then Inr (g2\<lparr>sg_stream := (sg_stream g2)\<lparr>ss_packet_open := True\<rparr>\<rparr>)
       else finish_packet cf (pg_serial page) (cx_page x) (k + 1 \<noteq> length (pg_lacing page)) (g2\<lparr>sg_stream := (sg_stream g2)\<lparr>ss_packet_open := False\<rparr>\<rparr>)) = Inr g'"
    using assms(1) by (cases "lace = 255") (auto simp: scan_segment_def Let_def and_then_Inr_iff)
  let ?part = "part @ take (unat lace) (drop (sg_offset g) (pg_body page))"
  have i1: "segment_inv cf b0 x (ps, part, opened) g1" "sg_offset g1 = sg_offset g"
    using begin_segment_inv [OF steps(1) assms(2)] a by simp_all
  have i2: "segment_inv cf b0 x (ps, ?part, opened) g2" "sg_offset g2 = sg_offset g + unat lace" "sg_offset g2 \<le> length (pg_body page)"
    using take_segment_inv [OF steps(2) i1(1)] i1(2) by simp_all
  show ?thesis
  proof (cases "lace = 255")
    case True
    then have "g' = g2\<lparr>sg_stream := (sg_stream g2)\<lparr>ss_packet_open := True\<rparr>\<rparr>" using r by simp
    then show ?thesis using True a i2(2,3) segment_inv_open [OF i2(1), of True] by (simp add: add_segment_def)
  next
    case False
    then have f: "finish_packet cf (cx_serial x) (cx_page x) (k + 1 \<noteq> length (pg_lacing page)) (g2\<lparr>sg_stream := (sg_stream g2)\<lparr>ss_packet_open := False\<rparr>\<rparr>) = Inr g'"
      using r assms(3) by simp
    from finish_packet_inv [OF f segment_inv_open [OF i2(1)]] show ?thesis using False a i2(2,3) by (simp add: add_segment_def)
  qed
qed

lemma scan_segments_inv:
  assumes "try_fold (scan_segment cf page (cx_page x)) g (enumerate k lacing) = Inr g'" and "segment_inv cf b0 x a g"
    and "pg_serial page = cx_serial x"
  shows "segment_inv cf b0 x (foldl add_segment a (cut lacing (drop (sg_offset g) (pg_body page)))) g'"
  using assms(1,2)
proof (induction lacing arbitrary: g a k)
  case (Cons lace lacing)
  obtain g1 where g1: "scan_segment cf page (cx_page x) g (k, lace) = Inr g1" and
    rest: "try_fold (scan_segment cf page (cx_page x)) g1 (enumerate (Suc k) lacing) = Inr g'"
    using Cons.prems(1) by (auto simp: and_then_Inr_iff)
  note s = scan_segment_inv [OF g1 Cons.prems(2) assms(3)]
  have "drop (sg_offset g1) (pg_body page) = drop (unat lace) (drop (sg_offset g) (pg_body page))" using s by (simp add: add.commute)
  then show ?case using Cons.IH [OF rest] s by simp
qed simp

section \<open>All streams\<close>

definition stream_ok :: "scan_config \<Rightarrow> page list \<Rightarrow> u32 \<Rightarrow> stream_state \<Rightarrow> bool" where
  "stream_ok cf pages serial st \<longleftrightarrow> ss_bos_page st \<le> length pages \<and> (ss_eos st \<longrightarrow> \<not> ss_packet_open st)
     \<and> logical_stream (window serial (ss_bos_page st) pages)
     \<and> ss_expected_sequence st = word_of_nat (length (window serial (ss_bos_page st) pages))
     \<and> (\<not> ss_eos st \<longrightarrow> (\<forall>p \<in> set (window serial (ss_bos_page st) pages). \<not> is_eos p))
     \<and> (ss_bos_page st < length pages \<longrightarrow> window serial (ss_bos_page st) pages \<noteq> [])
     \<and> (case assemble (window serial (ss_bos_page st) pages) of (ps, part, opened) \<Rightarrow>
         remembers cf ps part st \<and> ss_packet_open st = opened)"

text \<open>The target is found, its stream is known until its last page, and no other stream is taken for it.\<close>

definition target_ok :: "scan_config \<Rightarrow> metadata_budget \<Rightarrow> page list \<Rightarrow> scan_state \<Rightarrow> bool" where
  "target_ok cf b0 pages s \<longleftrightarrow> (case sc_target s of
       None \<Rightarrow> sc_budget s = b0 \<and> (\<forall>k st. map_of (sc_streams s) k = Some st \<longrightarrow> \<not> ss_target st)
     | Some pt \<Rightarrow> (let ps = fst (assemble (pending_pages pt pages)) in pending_ok cf b0 pt ps (length ps) (sc_budget s))
         \<and> logical_stream (pending_pages pt pages)
         \<and> (\<forall>h. pt_header_end_page pt = Some h \<longrightarrow> h < length pages \<and> (\<forall>n. pt_eos_page pt = Some n \<longrightarrow> h \<le> n))
         \<and> (\<forall>k st. map_of (sc_streams s) k = Some st \<longrightarrow> ss_target st \<longrightarrow>
              k = pt_serial pt \<and> ss_bos_page st = pt_bos_page pt \<and> ss_eos st = (pt_eos_page pt \<noteq> None))
         \<and> (case pt_eos_page pt of
              None \<Rightarrow> \<exists>st. map_of (sc_streams s) (pt_serial pt) = Some st \<and> ss_target st
            | Some n \<Rightarrow> n < length pages))"

definition held :: "(u32 \<times> stream_state) list \<Rightarrow> nat" where
  "held streams = sum_list (map (\<lambda>(_, st). length (ss_packet_buffer st)) streams)"

definition page_inv :: "scan_config \<Rightarrow> metadata_budget \<Rightarrow> page list \<Rightarrow> scan_state \<Rightarrow> bool" where
  "page_inv cf b0 pages s \<longleftrightarrow> sc_page_index s = length pages
     \<and> (\<forall>k st. map_of (sc_streams s) k = Some st \<longrightarrow> stream_ok cf pages k st)
     \<and> target_ok cf b0 pages s \<and> sc_buffered s = held (sc_streams s) \<and> sc_buffered s \<le> header_buffer_limit cf"

text \<open>Between pages every stream has a page; while a page is read its stream may be new.\<close>

definition scan_inv :: "scan_config \<Rightarrow> metadata_budget \<Rightarrow> page list \<Rightarrow> scan_state \<Rightarrow> bool" where
  "scan_inv cf b0 pages s \<longleftrightarrow> page_inv cf b0 pages s
     \<and> (\<forall>k st. map_of (sc_streams s) k = Some st \<longrightarrow> ss_bos_page st < length pages)"

lemma held_update: "held (AList.update k v streams)
    + (case map_of streams k of None \<Rightarrow> 0 | Some st \<Rightarrow> length (ss_packet_buffer st)) = held streams + length (ss_packet_buffer v)"
  by (induction streams) (auto simp: held_def)

lemma held_member: "map_of streams k = Some st \<Longrightarrow> length (ss_packet_buffer st) \<le> held streams"
  by (induction streams) (auto simp: held_def split: if_splits)

lemma add_segment_closed: "snd (snd (add_segment a segment)) \<or> fst (snd (add_segment a segment)) = []"
  by (auto simp: add_segment_def split: prod.splits)

lemma segments_closed: "snd (snd a) \<or> fst (snd a) = [] \<Longrightarrow>
    snd (snd (foldl add_segment a segments)) \<or> fst (snd (foldl add_segment a segments)) = []"
proof (induction segments arbitrary: a)
  case (Cons segment segments)
  show ?case using Cons.IH [OF add_segment_closed [of a segment]] by simp
qed simp

lemma assemble_snoc: "assemble (pages @ [p]) = add_page (assemble pages) p"
  by (simp add: assemble_def)

lemma assemble_closed: "assemble pages = (ps, part, False) \<Longrightarrow> part = []"
proof (induction pages arbitrary: ps part rule: rev_induct)
  case (snoc p pages)
  have "snd (snd (assemble pages)) \<or> fst (snd (assemble pages)) = []"
    using snoc.IH [of "fst (assemble pages)" "fst (snd (assemble pages))"] by (cases "snd (snd (assemble pages))") (auto simp: prod_eq_iff)
  then show ?case using snoc.prems segments_closed [of "assemble pages" "page_segments p"]
    by (simp add: assemble_snoc add_page_def)
qed (simp add: assemble_def)

lemma stream_new_ok: "stream_ok cf pages k (stream_new (length pages))"
  by (simp add: stream_ok_def stream_new_def window_end assemble_def remembers_def known_codec_def logical_stream_def)

lemma finished_stream_empty: "stream_ok cf pages k st \<Longrightarrow> ss_eos st \<Longrightarrow> ss_packet_buffer st = []"
  by (cases "assemble (window k (ss_bos_page st) pages)") (auto simp: stream_ok_def remembers_def dest: assemble_closed)

lemma open_stream_inv:
  assumes "open_stream cf page s = Inr s'" and inv: "page_inv cf b0 pages s"
  shows "page_inv cf b0 pages s'"
proof (cases "is_bos page")
  case False
  then show ?thesis using assms by (simp add: open_stream_def and_then_unit_iff)
next
  case True
  let ?k = "pg_serial page" and ?new = "stream_new (length pages)"
  have i: "sc_page_index s = length pages" "target_ok cf b0 pages s" "sc_buffered s = held (sc_streams s)" "sc_buffered s \<le> header_buffer_limit cf"
    and ok: "\<And>k st. map_of (sc_streams s) k = Some st \<Longrightarrow> stream_ok cf pages k st" using inv by (simp_all add: page_inv_def)
  obtain n where s': "s' = s\<lparr>sc_stream_count := n, sc_streams := AList.update ?k ?new (sc_streams s)\<rparr>"
    and eos: "\<And>st. map_of (sc_streams s) ?k = Some st \<Longrightarrow> ss_eos st"
    using assms(1) True i(1) by (fastforce simp: open_stream_def and_then_Inr_iff and_then_unit_iff split: option.splits)
  have "held (AList.update ?k ?new (sc_streams s)) = held (sc_streams s)"
    using held_update [of ?k ?new "sc_streams s"] finished_stream_empty [OF ok eos]
    by (cases "map_of (sc_streams s) ?k") (auto simp: stream_new_def)
  moreover have "target_ok cf b0 pages s'"
  proof (cases "sc_target s")
    case None
    then show ?thesis using i(2) by (auto simp: target_ok_def s' update_conv' stream_new_def)
  next
    case (Some pt)
    then have t: "\<And>k st. map_of (sc_streams s) k = Some st \<Longrightarrow> ss_target st \<Longrightarrow> ss_eos st = (pt_eos_page pt \<noteq> None)"
      "pt_eos_page pt = None \<Longrightarrow> \<exists>st. map_of (sc_streams s) (pt_serial pt) = Some st \<and> ss_target st"
      using i(2) by (auto simp: target_ok_def)
    have "pt_eos_page pt = None \<Longrightarrow> pt_serial pt \<noteq> ?k" using t eos by fastforce
    then show ?thesis using i(2) Some unfolding target_ok_def s'
      by (auto simp: update_conv' stream_new_def split: option.splits)
  qed
  ultimately show ?thesis using i(1,3,4) ok stream_new_ok by (auto simp: page_inv_def s' update_conv')
qed

definition page_context :: "page \<Rightarrow> scan_state \<Rightarrow> stream_state \<Rightarrow> scan_context" where
  "page_context page s st = \<lparr>cx_serial = pg_serial page, cx_target = sc_target s, cx_budget = sc_budget s, cx_was = ss_target st,
     cx_others = sc_buffered s - length (ss_packet_buffer st),
     cx_page = sc_page_index s, cx_frame = (ss_bos_page st, False, ss_expected_sequence st + 1)\<rparr>"

lemma enter_page_fields:
  assumes "enter_page cf page s st = Inr g"
  shows "\<not> ss_eos st \<and> pg_sequence page = ss_expected_sequence st \<and> is_continued page = ss_packet_open st
    \<and> (\<exists>pages. g = \<lparr>sg_stream = st\<lparr>ss_expected_sequence := ss_expected_sequence st + 1, ss_packet_pages := pages\<rparr>,
         sg_target = sc_target s, sg_buffered = sc_buffered s, sg_budget = sc_budget s, sg_offset = 0, sg_on_page = ss_packet_open st\<rparr>)"
proof (cases "ss_packet_open st")
  case True
  then show ?thesis using assms by (auto simp: enter_page_def Let_def and_then_Inr_iff and_then_unit_iff)
next
  case False
  have same: "st\<lparr>ss_expected_sequence := ss_expected_sequence st + 1, ss_packet_pages := ss_packet_pages st\<rparr>
      = st\<lparr>ss_expected_sequence := ss_expected_sequence st + 1\<rparr>" by (cases st) simp
  show ?thesis using assms False
    by (auto simp: enter_page_def Let_def and_then_Inr_iff and_then_unit_iff intro!: exI [of _ "ss_packet_pages st"] same [symmetric])
qed

lemma enter_page_inv:
  assumes "enter_page cf page s st = Inr g" and inv: "page_inv cf b0 pages s" and st: "map_of (sc_streams s) (pg_serial page) = Some st"
  shows "segment_inv cf b0 (page_context page s st) (assemble (window (pg_serial page) (ss_bos_page st) pages)) g \<and> sg_offset g = 0"
proof -
  let ?k = "pg_serial page" and ?x = "page_context page s st"
  obtain ps part opened where a: "assemble (window ?k (ss_bos_page st) pages) = (ps, part, opened)"
    by (cases "assemble (window ?k (ss_bos_page st) pages)")
  obtain n where live: "\<not> ss_eos st" and g: "g = \<lparr>sg_stream = st\<lparr>ss_expected_sequence := ss_expected_sequence st + 1, ss_packet_pages := n\<rparr>,
         sg_target = sc_target s, sg_buffered = sc_buffered s, sg_budget = sc_budget s, sg_offset = 0, sg_on_page = ss_packet_open st\<rparr>"
    using enter_page_fields [OF assms(1)] by blast
  have "stream_ok cf pages ?k st" using inv st by (simp add: page_inv_def)
  then have r: "remembers cf ps part st" "ss_packet_open st = opened" using a by (simp_all add: stream_ok_def)
  have t: "target_ok cf b0 pages s" using inv by (simp add: page_inv_def)
  have "shares cf b0 ?x ps (length ps) (ss_target st) (ss_bos_page st) (sc_target s) (sc_budget s)"
  proof (cases "ss_target st")
    case True
    then obtain pt where pt: "sc_target s = Some pt" using t st by (auto simp: target_ok_def split: option.splits)
    then have k: "pt_serial pt = ?k" "pt_bos_page pt = ss_bos_page st" "pt_eos_page pt = None"
      using t st True live by (auto simp: target_ok_def)
    then have "pending_ok cf b0 pt ps (length ps) (sc_budget s)"
      using t pt a by (simp add: target_ok_def Let_def pending_pages_def)
    moreover have "h \<le> sc_page_index s" if "pt_header_end_page pt = Some h" for h
      using t pt that inv by (auto simp: target_ok_def page_inv_def)
    ultimately show ?thesis using True pt k by (auto simp: shares_def leads_def page_context_def)
  qed (simp add: shares_def page_context_def)
  moreover have "length (ss_packet_buffer st) \<le> sc_buffered s" "sc_buffered s \<le> header_buffer_limit cf"
    using inv held_member [OF st] by (simp_all add: page_inv_def)
  moreover have "cx_target ?x = None \<longrightarrow> cx_budget ?x = b0"
    using t by (auto simp: page_context_def target_ok_def)
  ultimately show ?thesis using r live a
    by (auto simp: g segment_inv_def remembers_def frame_of_def page_context_def)
qed

lemma end_stream_fields:
  assumes "end_stream page i g = Inr g'"
  shows "(\<exists>target. g' = g\<lparr>sg_stream := (sg_stream g)\<lparr>ss_eos := is_eos page \<or> ss_eos (sg_stream g)\<rparr>, sg_target := target\<rparr>
      \<and> (if is_eos page \<and> ss_target (sg_stream g) then \<exists>pt. sg_target g = Some pt \<and> target = Some (pt\<lparr>pt_eos_page := Some i\<rparr>)
         else target = sg_target g)) \<and> (is_eos page \<longrightarrow> \<not> ss_packet_open (sg_stream g))"
proof (cases "is_eos page")
  case False
  have "g = g\<lparr>sg_stream := (sg_stream g)\<lparr>ss_eos := ss_eos (sg_stream g)\<rparr>, sg_target := sg_target g\<rparr>" by (cases g) simp
  then show ?thesis using False assms by (simp add: end_stream_def) 
next
  case True
  show ?thesis
  proof (cases "ss_target (sg_stream g)")
    case target: True
    then show ?thesis using assms True by (auto simp: end_stream_def Let_def and_then_Inr_iff and_then_unit_iff)
  next
    case False
    then show ?thesis using assms True by (auto simp: end_stream_def Let_def and_then_Inr_iff and_then_unit_iff)
  qed
qed

lemma window_page:
  assumes "start \<le> length pages"
  shows "assemble (window (pg_serial page) start (pages @ [page])) = add_page (assemble (window (pg_serial page) start pages)) page"
  using assms by (simp add: window_snoc assemble_snoc)

lemma other_stream_ok:
  assumes "stream_ok cf pages k st" and "k \<noteq> pg_serial page" and "ss_bos_page st < length pages"
  shows "stream_ok cf (pages @ [page]) k st"
  using assms by (simp add: stream_ok_def window_snoc)

text \<open>The target after a page, once the stream of the page is known to be it or not to be it.\<close>

lemma target_after_page:
  assumes shares: "shares cf b0 x ps (length ps) leading bos target b"
    and now: "cx_page x = length pages"
    and x: "cx_target x = sc_target s" "cx_budget x = sc_budget s" "cx_was x = ss_target st" "cx_serial x = pg_serial page"
    and old: "target_ok cf b0 pages s" "map_of (sc_streams s) (pg_serial page) = Some st" "\<not> ss_eos st"
    and new: "ss_target st' = leading" "ss_bos_page st' = bos" "bos \<le> length pages" "ss_eos st' = is_eos page"
    and ps: "ps = fst (assemble (window (pg_serial page) bos (pages @ [page])))"
    and form: "logical_stream (window (pg_serial page) bos (pages @ [page]))"
    and target': "target' = (if is_eos page \<and> leading then map_option (pt_eos_page_update (\<lambda>_. Some (length pages))) target else target)"
    and s': "sc_target s' = target'" "sc_budget s' = b" "sc_streams s' = AList.update (pg_serial page) st' (sc_streams s)"
  shows "target_ok cf b0 (pages @ [page]) s'"
proof (cases leading)
  case True
  obtain pt where pt: "target = Some pt" "pt_serial pt = pg_serial page" "pt_bos_page pt = bos" "pt_eos_page pt = None"
    "pending_ok cf b0 pt ps (length ps) b" "ss_target st \<or> sc_target s = None"
    "\<forall>h. pt_header_end_page pt = Some h \<longrightarrow> h \<le> length pages"
    using shares True x now by (auto simp: shares_def leads_def)
  let ?e = "if is_eos page then Some (length pages) else None"
  have t': "sc_target s' = Some (pt\<lparr>pt_eos_page := ?e\<rparr>)" using s'(1) target' True pt(1,4) by (cases pt) auto
  have "pending_pages (pt\<lparr>pt_eos_page := ?e\<rparr>) (pages @ [page]) = window (pg_serial page) bos (pages @ [page])"
    using pt(2,3) by (simp add: pending_pages_def window_until_all)
  moreover have "pending_ok cf b0 (pt\<lparr>pt_eos_page := ?e\<rparr>) ps (length ps) b"
    using pt(5) by (auto simp: pending_ok_def)
  moreover have "k = pg_serial page" if "map_of (sc_streams s) k = Some st1" "ss_target st1" for k st1
  proof (cases "sc_target s")
    case None
    then show ?thesis using old(1) that by (simp add: target_ok_def)
  next
    case (Some q)
    then have "ss_target st" using pt(6) by simp
    moreover have "j = pt_serial q" if "map_of (sc_streams s) j = Some st2" "ss_target st2" for j st2
      using old(1) Some that by (simp add: target_ok_def)
    ultimately show ?thesis using old(2) that by metis
  qed
  ultimately show ?thesis using t' s' new pt(2,3,7) True ps form by (auto simp: target_ok_def update_conv' Let_def le_imp_less_Suc)
next
  case False
  then have f: "sc_target s' = sc_target s" "sc_budget s' = sc_budget s" "\<not> ss_target st"
    using shares s'(1,2) target' x by (auto simp: shares_def)
  show ?thesis
  proof (cases "sc_target s")
    case None
    then show ?thesis using f old(1) s'(3) new(1) False by (auto simp: target_ok_def update_conv')
  next
    case (Some pt)
    have live: "pt_serial pt \<noteq> pg_serial page" if none: "pt_eos_page pt = None"
    proof -
      obtain st0 where "map_of (sc_streams s) (pt_serial pt) = Some st0" "ss_target st0"
        using old(1) by (auto simp: target_ok_def Some none)
      then show ?thesis using old(2) f(3) by auto
    qed
    have "pt_eos_page pt = Some n \<Longrightarrow> n < length pages" for n using old(1) Some by (simp add: target_ok_def)
    then have same: "pending_pages pt (pages @ [page]) = pending_pages pt pages"
      using live by (cases "pt_eos_page pt") (auto simp: pending_pages_def window_snoc window_until_snoc)
    show ?thesis
    proof (cases "pt_eos_page pt")
      case None
      then show ?thesis using old(1) f s'(3) new(1) False Some same live
        by (simp add: target_ok_def update_conv' less_Suc_eq)
    next
      case (Some n)
      then show ?thesis using old(1) f s'(3) new(1) False \<open>sc_target s = Some pt\<close> same
        by (simp add: target_ok_def update_conv' less_Suc_eq)
    qed
  qed
qed

lemma open_stream_first:
  assumes "open_stream cf page s = Inr s'" and "scan_inv cf b0 pages s" and "map_of (sc_streams s') (pg_serial page) = Some st"
  shows "if is_bos page then ss_bos_page st = length pages else ss_bos_page st < length pages"
  using assms by (cases "is_bos page")
    (auto simp: open_stream_def and_then_Inr_iff and_then_unit_iff scan_inv_def page_inv_def update_conv' stream_new_def)

lemma open_stream_others:
  assumes "open_stream cf page s = Inr s'" and "scan_inv cf b0 pages s" and "map_of (sc_streams s') k = Some st" and "k \<noteq> pg_serial page"
  shows "ss_bos_page st < length pages"
  using assms by (cases "is_bos page")
    (auto simp: open_stream_def and_then_Inr_iff and_then_unit_iff scan_inv_def update_conv')

lemma scan_page_inv:
  assumes "scan_page cf page s = Inr s'" and "scan_inv cf b0 pages s"
  shows "scan_inv cf b0 (pages @ [page]) s'"
proof -
  let ?k = "pg_serial page" and ?n = "length pages"
  obtain s1 st g g1 g2 where s1: "open_stream cf page s = Inr s1" and st: "map_of (sc_streams s1) ?k = Some st"
    and g: "enter_page cf page s1 st = Inr g"
    and g1: "try_fold (scan_segment cf page (sc_page_index s1)) g (enumerate 0 (pg_lacing page)) = Inr g1"
    and g2: "end_stream page (sc_page_index s1) g1 = Inr g2"
    and s': "s' = s1\<lparr>sc_streams := AList.update ?k (sg_stream g2) (sc_streams s1), sc_target := sg_target g2,
      sc_buffered := sg_buffered g2, sc_budget := sg_budget g2, sc_page_index := Suc (sc_page_index s1)\<rparr>"
    using assms(1) by (auto simp: scan_page_def Let_def and_then_Inr_iff and_then_unit_iff)
  have inv: "page_inv cf b0 pages s1" using open_stream_inv [OF s1] assms(2) by (simp add: scan_inv_def)
  then have i: "sc_page_index s1 = ?n" "target_ok cf b0 pages s1" "stream_ok cf pages ?k st"
      "sc_buffered s1 = held (sc_streams s1)"
    and ok: "\<And>k st. map_of (sc_streams s1) k = Some st \<Longrightarrow> stream_ok cf pages k st"
    using st by (simp_all add: page_inv_def)
  have first: "is_bos page = (window ?k (ss_bos_page st) pages = [])"
  proof -
    have "ss_bos_page st < ?n \<longrightarrow> window ?k (ss_bos_page st) pages \<noteq> []" using i(3) by (simp add: stream_ok_def)
    then show ?thesis using open_stream_first [OF s1 assms(2) st] by (cases "is_bos page") (simp_all add: window_end)
  qed
  let ?x = "page_context page s1 st"
  have e: "segment_inv cf b0 ?x (assemble (window ?k (ss_bos_page st) pages)) g" "sg_offset g = 0" "\<not> ss_eos st"
    using enter_page_inv [OF g inv st] enter_page_fields [OF g] by auto
  have bos: "ss_bos_page st \<le> ?n" using i(3) by (simp add: stream_ok_def)
  have now: "sc_page_index s1 = cx_page ?x" by (simp add: page_context_def)
  obtain ps part opened where a: "assemble (window ?k (ss_bos_page st) (pages @ [page])) = (ps, part, opened)"
    by (cases "assemble (window ?k (ss_bos_page st) (pages @ [page]))")
  have seg: "segment_inv cf b0 ?x (ps, part, opened) g1"
    using scan_segments_inv [OF g1 [unfolded now] e(1)] e(2) a window_page [OF bos] by (simp add: add_page_def page_segments_def page_context_def)
  then have f: "remembers cf ps part (sg_stream g1)" "ss_packet_open (sg_stream g1) = opened"
    "shares cf b0 ?x ps (length ps) (ss_target (sg_stream g1)) (ss_bos_page (sg_stream g1)) (sg_target g1) (sg_budget g1)"
    "sg_buffered g1 = sc_buffered s1 - length (ss_packet_buffer st) + length (ss_packet_buffer (sg_stream g1))"
    "sg_buffered g1 \<le> header_buffer_limit cf" "ss_bos_page (sg_stream g1) = ss_bos_page st" "\<not> ss_eos (sg_stream g1)"
    "ss_expected_sequence (sg_stream g1) = ss_expected_sequence st + 1"
    by (auto simp: segment_inv_def page_context_def frame_of_def)
  obtain target where g2': "g2 = g1\<lparr>sg_stream := (sg_stream g1)\<lparr>ss_eos := is_eos page \<or> ss_eos (sg_stream g1)\<rparr>, sg_target := target\<rparr>"
      "if is_eos page \<and> ss_target (sg_stream g1) then \<exists>pt. sg_target g1 = Some pt \<and> target = Some (pt\<lparr>pt_eos_page := Some ?n\<rparr>)
         else target = sg_target g1" "is_eos page \<longrightarrow> \<not> opened"
    using end_stream_fields [OF g2 [unfolded i(1)]] unfolding f(2) by blast
  have form: "logical_stream (window ?k (ss_bos_page st) (pages @ [page]))"
    using i(3) bos first enter_page_fields [OF g] by (auto simp: window_snoc logical_stream_snoc stream_ok_def split: prod.splits)
  then have ok2: "stream_ok cf (pages @ [page]) ?k (sg_stream g2)"
    using form f(1,2,6-8) g2'(3) bos a i(3) e(3) by (auto simp: g2'(1) stream_ok_def remembers_def window_snoc)
  have "target_ok cf b0 (pages @ [page]) s'"
  proof (rule target_after_page [OF f(3)])
    show "sc_target s' = (if is_eos page \<and> ss_target (sg_stream g1) then map_option (pt_eos_page_update (\<lambda>_. Some ?n)) (sg_target g1)
        else sg_target g1)" using g2'(2) by (auto simp: s' g2'(1) split: if_splits)
    show "ss_bos_page (sg_stream g1) \<le> ?n" using bos f(6) by simp
    show "ps = fst (assemble (window ?k (ss_bos_page (sg_stream g1)) (pages @ [page])))" using a f(6) by simp
    show "logical_stream (window ?k (ss_bos_page (sg_stream g1)) (pages @ [page]))" using form f(6) by simp
    show "sc_streams s' = AList.update ?k (sg_stream g2) (sc_streams s1)" by (simp add: s')
    show "map_of (sc_streams s1) (pg_serial page) = Some st" by (rule st)
    show "target_ok cf b0 pages s1" by (rule i(2))
    show "\<not> ss_eos st" by (rule e(3))
    show "cx_page ?x = ?n" using now i(1) by simp
  qed (use f(7) in \<open>simp_all add: page_context_def g2'(1) s'\<close>)
  moreover have "sg_buffered g2 = held (AList.update ?k (sg_stream g2) (sc_streams s1))"
    using f(4) i(4) held_update [of ?k "sg_stream g2" "sc_streams s1"] held_member [OF st] st by (simp add: g2'(1))
  moreover have "sg_buffered g2 \<le> header_buffer_limit cf" using f(5) by (simp add: g2'(1))
  moreover have "stream_ok cf (pages @ [page]) k st1 \<and> ss_bos_page st1 < Suc ?n" if "map_of (sc_streams s1) k = Some st1" "k \<noteq> ?k" for k st1
    using other_stream_ok [OF ok [OF that(1)] that(2)] open_stream_others [OF s1 assms(2) that] by simp
  ultimately show ?thesis using i(1) ok2 bos f(6) by (auto simp: scan_inv_def page_inv_def s' update_conv' g2'(1))
qed

lemma next_page_end: "next_page env stream = Inr None \<Longrightarrow> stream = []"
  by (auto simp: next_page_def read_capture_def Let_def and_then_Inr_iff split: option.splits if_splits)

lemma scan_pages_inv:
  "scan_pages cf stream s = Inr (stopped, s') \<Longrightarrow> scan_inv cf b0 pages s \<Longrightarrow>
   \<exists>rest_pages rest. stream = concat (map page_bytes rest_pages) @ rest \<and> scan_inv cf b0 (pages @ rest_pages) s'
     \<and> (\<forall>p \<in> set rest_pages. page_admitted (cf_env cf) p) \<and> (stopped \<longrightarrow> cf_mode cf = HeadersOnly) \<and> (\<not> stopped \<longrightarrow> rest = [])"
proof (induction cf stream s arbitrary: pages rule: scan_pages.induct)
  case (1 cf stream s)
  obtain read where read: "next_page (cf_env cf) stream = Inr read"
    using 1(2) by (cases "next_page (cf_env cf) stream") (auto simp: scan_pages.simps [of cf stream s])
  show ?case
  proof (cases read)
    case None
    then have "stream = []" using read by (simp add: next_page_end)
    moreover have "stopped = False" "s' = s" using 1(2) read None by (simp_all add: scan_pages.simps [of cf stream s])
    ultimately show ?thesis using 1(3) by (intro exI [of _ "[]"]) simp
  next
    case (Some r)
    obtain page rest where r: "read = Some (page, rest)" using Some by (cases r) auto
    note sound = next_page_sound [OF read [unfolded r]]
    obtain s1 where s1: "scan_page cf page s = Inr s1"
      and go: "(if headers_complete cf s1 then Inr (True, s1) else scan_pages cf rest s1) = Inr (stopped, s')"
      using 1(2) read r by (auto simp: scan_pages.simps [of cf stream s] and_then_Inr_iff)
    have inv: "scan_inv cf b0 (pages @ [page]) s1" by (rule scan_page_inv [OF s1 1(3)])
    show ?thesis
    proof (cases "headers_complete cf s1")
      case True
      then show ?thesis using go inv sound
        by (intro exI [of _ "[page]"] exI [of _ rest]) (auto simp: headers_complete_def)
    next
      case False
      then have "scan_pages cf rest s1 = Inr (stopped, s')" using go by simp
      from 1(1) [OF _ _ _ _ False this inv] read r s1
      obtain qs q where "rest = concat (map page_bytes qs) @ q" "scan_inv cf b0 ((pages @ [page]) @ qs) s'"
        "\<forall>p \<in> set qs. page_admitted (cf_env cf) p" "stopped \<longrightarrow> cf_mode cf = HeadersOnly" "\<not> stopped \<longrightarrow> q = []" by fastforce
      then show ?thesis using sound by (intro exI [of _ "page # qs"] exI [of _ q]) auto
    qed
  qed
qed

section \<open>What the scan finds\<close>

definition target_pages :: "target \<Rightarrow> page list \<Rightarrow> page list" where
  "target_pages t pages = (case tg_eos_page t of
     None \<Rightarrow> window (tg_serial t) (tg_bos_page t) pages
   | Some n \<Rightarrow> window_until (tg_serial t) (tg_bos_page t) n pages)"

definition target_packets :: "target \<Rightarrow> page list \<Rightarrow> u8 list list" where
  "target_packets t pages = fst (assemble (target_pages t pages))"

text \<open>The comments of a target are those of this packet; the budget after the scan is \<open>b'\<close>.\<close>

definition comments_read :: "scan_config \<Rightarrow> metadata_budget \<Rightarrow> target \<Rightarrow> u8 list \<Rightarrow> metadata_budget \<Rightarrow> bool" where
  "comments_read cf b t packet b' \<longleftrightarrow>
    (\<exists>body tail. comment_parts (tg_codec t) packet (cf_limits cf) (retain_comments cf) = Inr (body, tail)
     \<and> (if retain_comments cf
        then \<exists>c b1. parse_comment_body (cf_env cf) body b = Inr (c, b1) \<and> charge_bytes b1 (length tail) = Inr b'
               \<and> tg_comments t = Some c \<and> tg_tail t = tail
        else b' = b \<and> tg_comments t = None \<and> tg_tail t = []))"

lemma scan_start_inv: "scan_inv cf b [] (scan_start b)"
  by (simp add: scan_inv_def page_inv_def scan_start_def target_ok_def held_def)

lemma scan_target:
  assumes "scan cf b stream = Inr (Some t, b')"
  shows "\<exists>pages rest. stream = concat (map page_bytes pages) @ rest \<and> (\<forall>p \<in> set pages. page_admitted (cf_env cf) p)
    \<and> (cf_mode cf \<noteq> HeadersOnly \<longrightarrow> rest = []) \<and> (cf_mode cf = Rewrite \<longrightarrow> tg_eos_page t \<noteq> None)
    \<and> header_packets (tg_codec t) \<le> length (target_packets t pages)
    \<and> identify_codec (target_packets t pages ! 0) (cf_limits cf) = Inr (Some (tg_codec t))
    \<and> comments_read cf b t (target_packets t pages ! 1) b' \<and> logical_stream (target_pages t pages)
    \<and> tg_header_end_page t < length pages \<and> (\<forall>n. tg_eos_page t = Some n \<longrightarrow> tg_header_end_page t \<le> n)"
proof -
  obtain stopped s pending where s: "scan_pages cf stream (scan_start b) = Inr (stopped, s)"
    and ends: "try_all (check_end cf stopped) (sc_streams s) = Inr ()" and target: "sc_target s = Some pending"
    and t: "settle_target pending = Inr t" and b': "b' = sc_budget s"
    using assms by (auto simp: scan_def and_then_Inr_iff and_then_unit_iff split: option.splits)
  obtain pages rest where p: "stream = concat (map page_bytes pages) @ rest" "scan_inv cf b pages s"
    "\<forall>p \<in> set pages. page_admitted (cf_env cf) p" "stopped \<longrightarrow> cf_mode cf = HeadersOnly" "\<not> stopped \<longrightarrow> rest = []"
    using scan_pages_inv [OF s scan_start_inv] by auto
  have same: "tg_serial t = pt_serial pending" "tg_bos_page t = pt_bos_page pending" "tg_eos_page t = pt_eos_page pending"
      "tg_codec t = pt_codec pending" "tg_comments t = pt_comments pending" "tg_tail t = pt_tail pending"
      "pt_header_end_page pending = Some (tg_header_end_page t)"
    and seen: "pt_comment_seen pending" "pt_header_end_page pending \<noteq> None"
    using t by (auto simp: settle_target_def and_then_Inr_iff and_then_unit_iff)
  let ?ps = "target_packets t pages"
  have "?ps = fst (assemble (pending_pages pending pages))"
    unfolding target_packets_def target_pages_def pending_pages_def same ..
  then have ok: "pending_ok cf b pending ?ps (length ?ps) b'" using p(2) target b' by (simp add: scan_inv_def page_inv_def target_ok_def Let_def)
  have "tg_eos_page t \<noteq> None" if "cf_mode cf = Rewrite"
  proof
    assume "tg_eos_page t = None"
    then obtain st where st: "map_of (sc_streams s) (pt_serial pending) = Some st" "ss_target st"
      using p(2) target same(3) by (auto simp: scan_inv_def page_inv_def target_ok_def)
    then have eos: "\<not> ss_eos st" using p(2) target same(3) \<open>tg_eos_page t = None\<close>
      by (simp add: scan_inv_def page_inv_def target_ok_def)
    have "check_end cf stopped (pt_serial pending, st) = Inr ()"
      using ends map_of_SomeD [OF st(1)] by (auto simp: try_all_Inr_iff)
    then have "ss_eos st" using that by (simp add: check_end_def and_then_unit_iff)
    then show False using eos by simp
  qed
  moreover have "header_packets (tg_codec t) \<le> length ?ps" "identify_codec (?ps ! 0) (cf_limits cf) = Inr (Some (tg_codec t))"
    "comments_of cf b pending (?ps ! 1) b'"
    using ok seen same(4) by (auto simp: pending_ok_def hd_conv_nth)
  moreover from this(3) have "comments_read cf b t (?ps ! 1) b'"
    unfolding comments_of_def comments_read_def same by (auto split: if_splits)
  moreover have "logical_stream (target_pages t pages)" "tg_header_end_page t < length pages"
      "\<forall>n. tg_eos_page t = Some n \<longrightarrow> tg_header_end_page t \<le> n"
  proof -
    have "target_pages t pages = pending_pages pending pages" unfolding target_pages_def pending_pages_def same ..
    then show "logical_stream (target_pages t pages)" "tg_header_end_page t < length pages"
        "\<forall>n. tg_eos_page t = Some n \<longrightarrow> tg_header_end_page t \<le> n"
      using p(2) target same by (simp_all add: scan_inv_def page_inv_def target_ok_def)
  qed
  ultimately show ?thesis using p by blast
qed

text \<open>C9: What the scan finds is in the file. When \<open>scan\<close> succeeds with a target, the file begins with
  pages that are intact, and is made of them alone unless only the headers were asked for; the pages
  of the target are one logical stream, numbered without a gap and correctly flagged; its first packet
  identifies the codec, all its header packets are there, and the comments, the bytes that follow
  them, and the budget that is left are those of its second packet, however its packets and those of
  other streams are spread over pages. For a rewrite the stream has an end.\<close>

theorem scan_finds_comments:
  assumes "scan cf b stream = Inr (Some t, b')"
  shows "\<exists>pages rest. stream = concat (map page_bytes pages) @ rest \<and> (\<forall>p \<in> set pages. page_admitted (cf_env cf) p)
    \<and> (cf_mode cf \<noteq> HeadersOnly \<longrightarrow> rest = []) \<and> (cf_mode cf = Rewrite \<longrightarrow> tg_eos_page t \<noteq> None)
    \<and> logical_stream (target_pages t pages)
    \<and> header_packets (tg_codec t) \<le> length (target_packets t pages)
    \<and> identify_codec (target_packets t pages ! 0) (cf_limits cf) = Inr (Some (tg_codec t))
    \<and> comments_read cf b t (target_packets t pages ! 1) b'"
  using scan_target [OF assms] by blast

section \<open>Errors that cannot happen\<close>

text \<open>The errors that the code raises when its own bookkeeping is broken.\<close>

definition internal_error :: "scan_error \<Rightarrow> bool" where
  "internal_error e = (case e of BodyOffsetOverflow \<Rightarrow> True | LacingExceedsBody \<Rightarrow> True | UnreferencedBytes \<Rightarrow> True
     | BufferUnderflow \<Rightarrow> True | MissingTargetState \<Rightarrow> True | _ \<Rightarrow> False)"

definition regular :: "scan_error + 'a \<Rightarrow> bool" where
  "regular m \<longleftrightarrow> (case m of Inl e \<Rightarrow> \<not> internal_error e | Inr _ \<Rightarrow> True)"

lemma regular_simps [simp]:
  "regular (Inr v)" "regular (Inl e) \<longleftrightarrow> \<not> internal_error e" "regular (map_err PageError a)" "regular (map_err MetadataError b)"
  "regular (fail_if c e) \<longleftrightarrow> (c \<longrightarrow> \<not> internal_error e)" "regular (ok_or x e) \<longleftrightarrow> (x = None \<longrightarrow> \<not> internal_error e)"
  by (auto simp: regular_def internal_error_def map_err_def fail_if_def ok_or_def split: sum.splits option.splits)

lemma regular_and_then [intro!]: "regular m \<Longrightarrow> (\<And>v. m = Inr v \<Longrightarrow> regular (f v)) \<Longrightarrow> regular (and_then m f)"
  by (cases m) (auto simp: regular_def)

lemma identify_codec_regular [simp]: "regular (identify_codec packet limits)"
  by (auto simp: identify_codec_def identify_vorbis_def identify_speex_def read_i32_at_def Let_def internal_error_def)

lemma read_u32_regular [simp]: "regular (read_u32 offset data)"
  by (auto simp: read_u32_def internal_error_def)

lemma read_vendor_regular [simp]: "regular (read_vendor data)"
  by (auto simp: read_vendor_def internal_error_def)

lemma skip_fields_regular [simp]: "regular (skip_fields n offset data limits)"
  by (induction n arbitrary: offset) (auto simp: internal_error_def)

lemma comment_parts_regular [simp]: "regular (comment_parts c packet limits retain)"
  by (auto simp: comment_parts_def locate_tagless_comment_body_def locate_comment_body_def internal_error_def split: codec.splits)

lemma validate_tagless_regular [simp]: "regular (validate_tagless_comment body tail)"
  by (auto simp: validate_tagless_comment_def internal_error_def)

lemma first_packet_regular [simp]: "regular (first_packet cf serial packet g)"
  by (auto simp: first_packet_def Let_def internal_error_def split: option.splits)

lemma comment_packet_regular:
  "ss_target (sg_stream g) \<longrightarrow> sg_target g \<noteq> None \<Longrightarrow> regular (comment_packet cf packet c g)"
  by (auto simp: comment_packet_def Let_def internal_error_def)

lemma inspect_packet_regular:
  "ss_target (sg_stream g) \<longrightarrow> sg_target g \<noteq> None \<Longrightarrow> regular (inspect_packet cf serial packet g)"
  using comment_packet_regular by (auto simp: inspect_packet_def Let_def internal_error_def split: option.splits)

lemma end_headers_regular: "ss_target (sg_stream g) \<longrightarrow> sg_target g \<noteq> None \<Longrightarrow> regular (end_headers i followed g)"
  by (auto simp: end_headers_def Let_def)

lemma shares_target: "shares cf b0 x ps n leading bos target b \<Longrightarrow> leading \<longrightarrow> target \<noteq> None"
  by (auto simp: shares_def leads_def split: if_splits)

lemma finish_packet_regular:
  assumes inv: "segment_inv cf b0 x (ps, part, opened) g"
  shows "regular (finish_packet cf (cx_serial x) (cx_page x) followed g)"
proof -
  let ?packet = "ss_packet_buffer (sg_stream g)"
  define h where "h = g\<lparr>sg_stream := (sg_stream g)\<lparr>ss_packet_buffer := []\<rparr>\<rparr>"
  have i: "ss_packet_index (sg_stream h) = length ps" "known_codec cf ps (ss_codec (sg_stream h))"
      "?packet = (if collects (length ps) (ss_codec (sg_stream h)) then part else [])"
      "shares cf b0 x ps (length ps) (ss_target (sg_stream h)) (ss_bos_page (sg_stream h)) (sg_target h) (sg_budget h)"
      "length ?packet \<le> sg_buffered h" "cx_target x = None \<longrightarrow> cx_budget x = b0"
    using inv by (auto simp: segment_inv_def remembers_def h_def)
  have "regular (inspect_packet cf (cx_serial x) ?packet h)"
    using inspect_packet_regular shares_target [OF i(4)] by blast
  moreover have "regular (and_then (ok_or (usize_add (ss_packet_index (sg_stream h1)) 1) PacketCountOverflow) (\<lambda>index.
     and_then (end_headers (cx_page x) followed (h1\<lparr>sg_stream := (sg_stream h1)\<lparr>ss_packet_index := index\<rparr>\<rparr>)) (\<lambda>g.
     and_then (fail_if (sg_buffered g < length ?packet) BufferUnderflow) (\<lambda>_.
     Inr (g\<lparr>sg_buffered := sg_buffered g - length ?packet, sg_on_page := False,
       sg_stream := (sg_stream g)\<lparr>ss_packet_len := 0, ss_packet_pages := 0\<rparr>\<rparr>)))))"
    if h1: "inspect_packet cf (cx_serial x) ?packet h = Inr h1" for h1
  proof -
    obtain c leading target b where f: "h1 = h\<lparr>sg_stream := (sg_stream h)\<lparr>ss_codec := c, ss_target := leading\<rparr>, sg_target := target, sg_budget := b\<rparr>"
        "known_codec cf (ps @ [part]) c" "shares cf b0 x (ps @ [part]) (length ps) leading (ss_bos_page (sg_stream h)) target b"
      using inspect_packet_inv [OF h1 [unfolded i(3)] refl i(1,2,4,6)] by blast
    show ?thesis
    proof (intro regular_and_then)
      fix index assume "ok_or (usize_add (ss_packet_index (sg_stream h1)) 1) PacketCountOverflow = Inr index"
      then have index: "index = Suc (length ps)" using f(1) i(1) by (auto simp: usize_add_def split: if_splits)
      let ?h = "h1\<lparr>sg_stream := (sg_stream h1)\<lparr>ss_packet_index := index\<rparr>\<rparr>"
      show "regular (end_headers (cx_page x) followed ?h)" by (rule end_headers_regular) (use f(1) shares_target [OF f(3)] in simp)
      fix h2 assume "end_headers (cx_page x) followed ?h = Inr h2"
      then have "sg_buffered h2 = sg_buffered h"
        using end_headers_inv [of x followed ?h h2 "length ps" cf "ps @ [part]" b0] f index by auto
      then show "regular (fail_if (sg_buffered h2 < length ?packet) BufferUnderflow)" using i(5) by simp
    qed (simp_all add: internal_error_def)
  qed
  ultimately show ?thesis unfolding finish_packet_def Let_def h_def [symmetric] by (rule regular_and_then)
qed

lemma scan_segment_regular:
  assumes "segment_inv cf b0 x a g" and "pg_serial page = cx_serial x"
    and "sg_offset g + unat lace \<le> length (pg_body page)" and "length (pg_body page) < 2 ^ 64"
  shows "regular (scan_segment cf page (cx_page x) g (k, lace))"
proof -
  obtain ps part opened where a: "a = (ps, part, opened)" by (cases a)
  have "regular (begin_segment cf (cx_page x) g)" by (auto simp: begin_segment_def check_packet_pages_def Let_def internal_error_def)
  moreover have "regular (take_segment cf (pg_body page) lace g1)" if "begin_segment cf (cx_page x) g = Inr g1" for g1
  proof -
    have "sg_offset g1 = sg_offset g" using begin_segment_inv [OF that assms(1)] by simp
    then show ?thesis using assms(3,4)
      by (auto simp: take_segment_def collect_segment_def Let_def internal_error_def slice_get_def)
  qed
  moreover have "regular (finish_packet cf (pg_serial page) (cx_page x) followed (g2\<lparr>sg_stream := (sg_stream g2)\<lparr>ss_packet_open := False\<rparr>\<rparr>))"
    if "begin_segment cf (cx_page x) g = Inr g1" "take_segment cf (pg_body page) lace g1 = Inr g2" for g1 g2 followed
  proof -
    have "segment_inv cf b0 x (ps, part, opened) g1" using begin_segment_inv [OF that(1) assms(1)] a by simp
    from take_segment_inv [OF that(2) this] segment_inv_open
    show ?thesis unfolding assms(2) by (blast intro: finish_packet_regular)
  qed
  ultimately show ?thesis by (auto simp: scan_segment_def Let_def)
qed

lemma scan_segments_regular:
  assumes "segment_inv cf b0 x a g" and "pg_serial page = cx_serial x"
    and "sg_offset g + sum_list (map unat lacing) \<le> length (pg_body page)" and "length (pg_body page) < 2 ^ 64"
  shows "regular (try_fold (scan_segment cf page (cx_page x)) g (enumerate k lacing))
    \<and> (\<forall>g'. try_fold (scan_segment cf page (cx_page x)) g (enumerate k lacing) = Inr g' \<longrightarrow> sg_offset g' = sg_offset g + sum_list (map unat lacing))"
  using assms(1,3)
proof (induction lacing arbitrary: a g k)
  case (Cons lace lacing)
  have first: "regular (scan_segment cf page (cx_page x) g (k, lace))"
    using scan_segment_regular [OF Cons.prems(1) assms(2) _ assms(4)] Cons.prems(2) by simp
  have rest: "regular (try_fold (scan_segment cf page (cx_page x)) g1 (enumerate (Suc k) lacing))
      \<and> (\<forall>g'. try_fold (scan_segment cf page (cx_page x)) g1 (enumerate (Suc k) lacing) = Inr g'
        \<longrightarrow> sg_offset g' = sg_offset g + unat lace + sum_list (map unat lacing))"
    if g1: "scan_segment cf page (cx_page x) g (k, lace) = Inr g1" for g1
    using scan_segment_inv [OF g1 Cons.prems(1) assms(2)] Cons.prems(2) Cons.IH [of _ g1 "Suc k"] by fastforce
  show ?case
  proof (intro conjI allI impI)
    show "regular (try_fold (scan_segment cf page (cx_page x)) g (enumerate k (lace # lacing)))" using first rest by auto
    fix g' assume "try_fold (scan_segment cf page (cx_page x)) g (enumerate k (lace # lacing)) = Inr g'"
    then show "sg_offset g' = sg_offset g + sum_list (map unat (lace # lacing))" using rest by (auto simp: and_then_Inr_iff)
  qed
qed simp

lemma open_stream_regular: "regular (open_stream cf page s)"
  by (auto simp: open_stream_def internal_error_def)

lemma open_stream_known: "open_stream cf page s = Inr s' \<Longrightarrow> map_of (sc_streams s') (pg_serial page) \<noteq> None"
  by (cases "is_bos page") (auto simp: open_stream_def and_then_Inr_iff and_then_unit_iff update_conv')

lemma enter_page_regular: "regular (enter_page cf page s st)"
  by (auto simp: enter_page_def check_packet_pages_def Let_def internal_error_def)

lemma check_search_regular: "regular (check_search cf i target)"
  by (auto simp: check_search_def Let_def internal_error_def split: option.splits)

lemma end_stream_regular:
  "ss_target (sg_stream g) \<longrightarrow> sg_target g \<noteq> None \<Longrightarrow> regular (end_stream page i g)"
  by (auto simp: end_stream_def Let_def internal_error_def)

lemma page_shape_small: "page_shape p \<Longrightarrow> length (pg_body p) = sum_list (map unat (pg_lacing p)) \<and> length (pg_body p) < 2 ^ 64"
  using body_length_bound [of "pg_lacing p"] by (simp add: page_shape_def MAX_SEGMENTS_def MAX_PAGE_BODY_def)

lemma scan_page_regular:
  assumes inv0: "scan_inv cf b0 pages s" and "page_shape page"
  shows "regular (scan_page cf page s)"
  unfolding scan_page_def
proof (intro regular_and_then)
  show "regular (open_stream cf page s)" by (rule open_stream_regular)
  fix s1 assume s1: "open_stream cf page s = Inr s1"
  have inv: "page_inv cf b0 pages s1" using open_stream_inv [OF s1] inv0 by (simp add: scan_inv_def)
  show "regular (ok_or (map_of (sc_streams s1) (pg_serial page)) MissingTargetState)" using open_stream_known [OF s1] by auto
  fix st assume "ok_or (map_of (sc_streams s1) (pg_serial page)) MissingTargetState = Inr st"
  then have st: "map_of (sc_streams s1) (pg_serial page) = Some st" by simp
  show "regular (enter_page cf page s1 st)" by (rule enter_page_regular)
  fix g assume g: "enter_page cf page s1 st = Inr g"
  let ?x = "page_context page s1 st"
  have e: "segment_inv cf b0 ?x (assemble (window (pg_serial page) (ss_bos_page st) pages)) g" "sg_offset g = 0"
    and x: "pg_serial page = cx_serial ?x" using enter_page_inv [OF g inv st] by (simp_all add: page_context_def)
  note l = page_shape_small [OF assms(2)]
  have r: "regular (try_fold (scan_segment cf page (sc_page_index s1)) g (enumerate 0 (pg_lacing page)))"
    "\<And>g1. try_fold (scan_segment cf page (sc_page_index s1)) g (enumerate 0 (pg_lacing page)) = Inr g1 \<Longrightarrow> sg_offset g1 = length (pg_body page)"
    using scan_segments_regular [OF e(1) x, of "pg_lacing page" 0] e(2) l by (simp_all add: page_context_def)
  show "regular (try_fold (scan_segment cf page (sc_page_index s1)) g (enumerate 0 (pg_lacing page)))" by (rule r(1))
  fix g1 assume g1: "try_fold (scan_segment cf page (sc_page_index s1)) g (enumerate 0 (pg_lacing page)) = Inr g1"
  show "regular (fail_if (sg_offset g1 \<noteq> length (pg_body page)) UnreferencedBytes)" using r(2) [OF g1] by simp
  have "ss_target (sg_stream g1) \<longrightarrow> sg_target g1 \<noteq> None"
    using scan_segments_inv [of cf page ?x g 0 "pg_lacing page" g1, OF _ e(1) x] g1
    by (auto simp: page_context_def segment_inv_def split: prod.splits dest: shares_target)
  then show "regular (end_stream page (sc_page_index s1) g1)" by (rule end_stream_regular)
qed (auto simp: check_search_regular internal_error_def)

lemma scan_pages_regular: "scan_inv cf b0 pages s \<Longrightarrow> regular (scan_pages cf stream s)"
proof (induction cf stream s arbitrary: pages rule: scan_pages.induct)
  case (1 cf stream s)
  show ?case
  proof (cases "next_page (cf_env cf) stream")
    case (Inl e)
    then show ?thesis by (simp add: scan_pages.simps [of cf stream s] map_err_def internal_error_def)
  next
    case (Inr read)
    show ?thesis
    proof (cases read)
      case None
      then show ?thesis using Inr by (simp add: scan_pages.simps [of cf stream s])
    next
      case (Some r)
      obtain page rest where r: "read = Some (page, rest)" using Some by (cases r) auto
      have "page_shape page" using next_page_sound [OF Inr [unfolded r]] by (simp add: page_admitted_def)
      then have first: "regular (scan_page cf page s)" using scan_page_regular 1(2) by blast
      have "regular (scan_pages cf rest s1)" if "scan_page cf page s = Inr s1" "\<not> headers_complete cf s1" for s1
        using 1(1) [of "Some (page, rest)" "(page, rest)" page rest s1 "pages @ [page]"] Inr r that scan_page_inv [OF that(1) 1(2)]
        by simp
      then show ?thesis using first Inr r by (auto simp: scan_pages.simps [of cf stream s])
    qed
  qed
qed

lemma try_all_regular: "(\<And>x. x \<in> set xs \<Longrightarrow> regular (f x)) \<Longrightarrow> regular (try_all f xs)"
  by (induction xs) auto

text \<open>C21: The bookkeeping of the scan never breaks. Whatever bytes \<open>scan\<close> is given, it does not end with one
  of the errors that the code keeps for its own inconsistencies: a segment that the lacing table puts
  outside the body, body bytes that belong to no segment, an underflow of the count of buffered bytes,
  a target stream without its state.\<close>

theorem scan_bookkeeping_sound:
  "scan cf b stream \<notin> Inl ` {BodyOffsetOverflow, LacingExceedsBody, UnreferencedBytes, BufferUnderflow, MissingTargetState}"
proof -
  have "regular (scan cf b stream)"
    unfolding scan_def
    by (intro regular_and_then scan_pages_regular [OF scan_start_inv])
      (auto simp: settle_target_def check_end_def internal_error_def intro!: try_all_regular split: option.splits)
  then show ?thesis by (cases "scan cf b stream") (auto simp: internal_error_def)
qed

text \<open>C37: The scan holds few bytes. After any pages, the bytes that the streams of the file hold
  together are the ones that the scan has counted, and they are within the limit for header packets.\<close>

theorem scan_memory_bounded:
  assumes "try_fold (\<lambda>s p. scan_page cf p s) (scan_start b) pages = Inr s"
  shows "sc_buffered s = sum_list (map (\<lambda>(_, st). length (ss_packet_buffer st)) (sc_streams s))
    \<and> sc_buffered s \<le> header_buffer_limit cf"
proof -
  have "try_fold (\<lambda>s p. scan_page cf p s) s0 ps = Inr s1 \<Longrightarrow> scan_inv cf b qs s0 \<Longrightarrow> scan_inv cf b (qs @ ps) s1" for ps qs s0 s1
  proof (induction ps arbitrary: s0 qs)
    case (Cons p ps)
    then show ?case using scan_page_inv [of cf p s0 _ b qs] by (fastforce simp: and_then_Inr_iff)
  qed simp
  from this [OF assms scan_start_inv] show ?thesis by (simp add: scan_inv_def page_inv_def held_def)
qed


section \<open>Witnesses\<close>

definition sealed :: "page \<Rightarrow> page" where "sealed p = p\<lparr>pg_checksum := page_crc p\<rparr>"

definition demo_head :: "u8 list" where "demo_head = OPUS_HEAD @ [1, 2, 0, 0, 0, 0, 0, 0, 0, 0, 0]"
definition demo_tags :: "u8 list" where "demo_tags = OPUS_TAGS @ [0, 0, 0, 0, 0, 0, 0, 0]"

lemma opus_bytes: "OPUS_HEAD = [79, 112, 117, 115, 72, 101, 97, 100]" "OPUS_TAGS = [79, 112, 117, 115, 84, 97, 103, 115]"
  by code_simp+

definition demo_file :: "page list" where
  "demo_file = map sealed
     [\<lparr>pg_header_type = BOS, pg_granule = 0, pg_serial = 7, pg_sequence = 0, pg_checksum = 0, pg_lacing = [19],
        pg_body = demo_head\<rparr>,
      \<lparr>pg_header_type = EOS, pg_granule = 0, pg_serial = 7, pg_sequence = 1, pg_checksum = 0, pg_lacing = [16],
        pg_body = demo_tags\<rparr>]"

definition demo_config :: scan_config where
  "demo_config = \<lparr>cf_env = demo_meta_env, cf_limits = metadata_limits_default, cf_mode = Rewrite\<rparr>"

lemma page_crc_checksum [simp]: "page_crc (p\<lparr>pg_checksum := c\<rparr>) = page_crc p"
  by (simp add: page_crc_def header_bytes_def)

lemma sealed_admitted: "page_shape p \<Longrightarrow> (\<And>n. me_reserve env n) \<Longrightarrow> page_admitted env (sealed p)"
  by (simp add: page_admitted_def sealed_def page_shape_def)

lemma demo_file_admitted: "\<forall>p \<in> set demo_file. page_admitted demo_meta_env p"
  by (auto simp: demo_file_def demo_head_def demo_tags_def opus_bytes page_shape_def MAX_SEGMENTS_def CONTINUED_def BOS_def EOS_def
      demo_meta_env_def intro!: sealed_admitted)

definition demo_budget :: metadata_budget where "demo_budget = budget_of metadata_limits_default"

lemma demo_head_codec: "identify_codec demo_head metadata_limits_default = Inr (Some Opus)"
  by (simp add: demo_head_def identify_codec_def begins_with_def VORBIS_ID_def opus_bytes)

lemma demo_tags_parts: "comment_parts Opus demo_tags metadata_limits_default True = Inr ([0, 0, 0, 0, 0, 0, 0, 0], [])"
  by (simp add: demo_tags_def comment_parts_def begins_with_def opus_bytes slice_get_def usize_add_def locate_comment_body_def
      read_u32_def  metadata_limits_default_def)

lemma demo_tags_body: "\<exists>b. parse_comment_body demo_meta_env [0, 0, 0, 0, 0, 0, 0, 0] demo_budget
    = Inr (\<lparr>vc_vendor = [], vc_items = []\<rparr>, b) \<and> charge_bytes b 0 = Inr b"
  by (simp add: demo_budget_def parse_comment_body_def charge_bytes_def check_bytes_def budget_of_def metadata_limits_default_def usize_add_def
      read_u32_le_def slice_get_def  from_utf8_def reserve_def demo_meta_env_def bytes_string_def utf8_text_def char_codes_def)

definition after_head :: scan_state where
  "after_head = \<lparr>sc_streams = [(7, (stream_new 0)\<lparr>ss_expected_sequence := 1, ss_packet_index := 1, ss_codec := Some Opus,
       ss_first_packet_page := Some 0, ss_target := True\<rparr>)], sc_stream_count = 1,
     sc_target = Some \<lparr>pt_serial = 7, pt_bos_page = 0, pt_codec = Opus, pt_comments = None, pt_comment_seen = False, pt_tail = [],
       pt_header_end_page = None, pt_eos_page = None, pt_shares_header_page_with_audio = False\<rparr>,
     sc_page_index = 1, sc_buffered = 0, sc_budget = demo_budget\<rparr>"

lemma demo_config_simps [simp]:
  "cf_env demo_config = demo_meta_env" "cf_limits demo_config = metadata_limits_default" "cf_mode demo_config = Rewrite"
  "me_reserve demo_meta_env n" "retain_comments demo_config" "header_buffer_limit demo_config = 16777216"
  by (simp_all add: demo_config_def demo_meta_env_def retain_comments_def header_buffer_limit_def metadata_limits_default_def)

lemma demo_limits_simps [simp]:
  "max_ogg_packet_bytes metadata_limits_default = 16777216" "max_ogg_pages metadata_limits_default = 4096"
  "max_ogg_streams metadata_limits_default = 64"
  by (simp_all add: metadata_limits_default_def)

lemmas demo_scan_simps = demo_file_def sealed_def scan_page_def open_stream_def enter_page_def
  check_packet_pages_def scan_segment_def begin_segment_def take_segment_def collect_segment_def finish_packet_def
  inspect_packet_def end_headers_def end_stream_def check_search_def Let_def should_collect_def
  is_bos_def is_eos_def is_continued_def BOS_def EOS_def CONTINUED_def
  reserve_def slice_get_def usize_add_def header_packets_def

lemma demo_lengths [simp]: "length demo_head = 19" "length demo_tags = 16"
  by (simp_all add: demo_head_def demo_tags_def opus_bytes)

lemma demo_scan_head: "scan_page demo_config (demo_file ! 0) (scan_start demo_budget) = Inr after_head"
proof -
  have f: "first_packet demo_config serial demo_head g = and_then (Inr (Some Opus)) (\<lambda>found.
    let st = (sg_stream g)\<lparr>ss_codec := found\<rparr> in
    case found of
      None \<Rightarrow> Inr (g\<lparr>sg_stream := st\<rparr>)
    | Some c \<Rightarrow>
        and_then (fail_if (ss_first_packet_page st \<noteq> Some (ss_bos_page st)) (CodecNotOnBosPage serial)) (\<lambda>_.
        if sg_target g \<noteq> None then Inr (g\<lparr>sg_stream := st\<rparr>)
        else Inr (g\<lparr>sg_stream := st\<lparr>ss_target := True\<rparr>, sg_target := Some \<lparr>pt_serial = serial, pt_bos_page = ss_bos_page st,
          pt_codec = c, pt_comments = None, pt_comment_seen = False, pt_tail = [], pt_header_end_page = None,
          pt_eos_page = None, pt_shares_header_page_with_audio = False\<rparr>\<rparr>)))" for serial g
    by (simp add: first_packet_def demo_head_codec)
  show ?thesis
    by (simp add: demo_scan_simps f after_head_def scan_start_def stream_new_def)
qed

lemma demo_scan_tags:
  "\<exists>s st. scan_page demo_config (demo_file ! 1) after_head = Inr s \<and> sc_page_index s = 2
    \<and> sc_streams s = [(7, st)] \<and> \<not> ss_packet_open st \<and> ss_eos st
    \<and> sc_target s = Some \<lparr>pt_serial = 7, pt_bos_page = 0, pt_codec = Opus, pt_comments = Some \<lparr>vc_vendor = [], vc_items = []\<rparr>,
      pt_comment_seen = True, pt_tail = [], pt_header_end_page = Some 1, pt_eos_page = Some 1, pt_shares_header_page_with_audio = False\<rparr>"
proof -
  obtain b where b: "parse_comment_body demo_meta_env [0, 0, 0, 0, 0, 0, 0, 0] demo_budget = Inr (\<lparr>vc_vendor = [], vc_items = []\<rparr>, b)"
    "charge_bytes b 0 = Inr b" using demo_tags_body by blast
  have "check_bytes demo_budget n = Inr ()" if "n < 100" for n
    using that by (simp add: check_bytes_def demo_budget_def budget_of_def usize_add_def metadata_limits_default_def)
  then show ?thesis using b
    by (simp add: demo_scan_simps after_head_def stream_new_def comment_packet_def demo_tags_parts)
qed

lemma demo_scan_pages:
  "\<exists>s st. scan_pages demo_config (concat (map page_bytes demo_file)) (scan_start demo_budget) = Inr (False, s)
    \<and> try_fold (\<lambda>s p. scan_page demo_config p s) (scan_start demo_budget) demo_file = Inr s \<and> sc_page_index s = 2
    \<and> sc_streams s = [(7, st)] \<and> \<not> ss_packet_open st \<and> ss_eos st
    \<and> sc_target s = Some \<lparr>pt_serial = 7, pt_bos_page = 0, pt_codec = Opus, pt_comments = Some \<lparr>vc_vendor = [], vc_items = []\<rparr>,
      pt_comment_seen = True, pt_tail = [], pt_header_end_page = Some 1, pt_eos_page = Some 1, pt_shares_header_page_with_audio = False\<rparr>"
proof -
  obtain p q where f: "demo_file = [p, q]" by (simp add: demo_file_def)
  have ok: "page_admitted (cf_env demo_config) p" "page_admitted (cf_env demo_config) q" using demo_file_admitted unfolding f by simp_all
  have more: "\<not> headers_complete demo_config s" for s by (simp add: headers_complete_def)
  have step: "scan_pages demo_config (page_bytes r @ rest) s = and_then (scan_page demo_config r s) (scan_pages demo_config rest)"
    if "page_admitted (cf_env demo_config) r" for r rest s
    using next_page_encode [OF that] more by (simp add: scan_pages.simps [of _ "page_bytes r @ rest"])
  have stop: "scan_pages demo_config [] s = Inr (False, s)" for s
    by (simp add: scan_pages.simps [of _ "[]"] next_page_def read_capture_def)
  obtain s st where s: "scan_page demo_config q after_head = Inr s" "sc_page_index s = 2"
    "sc_streams s = [(7, st)] \<and> \<not> ss_packet_open st \<and> ss_eos st" "sc_target s = Some \<lparr>pt_serial = 7, pt_bos_page = 0, pt_codec = Opus, pt_comments = Some \<lparr>vc_vendor = [], vc_items = []\<rparr>,
      pt_comment_seen = True, pt_tail = [], pt_header_end_page = Some 1, pt_eos_page = Some 1, pt_shares_header_page_with_audio = False\<rparr>"
    using demo_scan_tags unfolding f by auto
  have "scan_page demo_config p (scan_start demo_budget) = Inr after_head" using demo_scan_head unfolding f by simp
  then show ?thesis unfolding f using s step [OF ok(1)] step [OF ok(2), of "[]"] stop by auto
qed

definition demo_found :: target where
  "demo_found = \<lparr>tg_serial = 7, tg_bos_page = 0, tg_header_end_page = 1, tg_eos_page = Some 1, tg_codec = Opus,
     tg_comments = Some \<lparr>vc_vendor = [], vc_items = []\<rparr>, tg_tail = [], tg_shares_header_page_with_audio = False\<rparr>"

lemma demo_scan: "\<exists>b. scan demo_config demo_budget (concat (map page_bytes demo_file)) = Inr (Some demo_found, b)"
  using demo_scan_pages by (auto simp: scan_def check_end_def settle_target_def demo_found_def)

theorem scan_memory_bounded_witness:
  "\<exists>s. try_fold (\<lambda>s p. scan_page demo_config p s) (scan_start demo_budget) demo_file = Inr s \<and> sc_buffered s \<le> 16777216"
  using demo_scan_pages scan_memory_bounded [of demo_config demo_budget demo_file] by fastforce


theorem scan_finds_comments_witness:
  "\<exists>b pages rest. scan demo_config demo_budget (concat (map page_bytes demo_file)) = Inr (Some demo_found, b)
    \<and> concat (map page_bytes demo_file) = concat (map page_bytes pages) @ rest
    \<and> comments_read demo_config demo_budget demo_found (target_packets demo_found pages ! 1) b"
proof -
  obtain b where "scan demo_config demo_budget (concat (map page_bytes demo_file)) = Inr (Some demo_found, b)"
    using demo_scan by blast
  from scan_finds_comments [OF this] this show ?thesis by blast
qed

end
