(* ===== verification/Ogg_Rewrite.thy ===== *)
theory Ogg_Rewrite
  imports Ogg_Scan_Correct
begin

text \<open>
  The rewriting of the comments of an Ogg file (\<open>src/src/metadata/ogg.rs\<close>: \<open>rewrite\<close>,
  \<open>rewrite_scanned\<close>, \<open>collect_header_pages\<close>, \<open>build_comment_packet\<close>, \<open>stream_rewritten_file\<close>, and the
  entry points \<open>read_file\<close> and \<open>validate\<close>). A file is its bytes; the result of a rewrite is the new
  content. Input and output themselves (seeking, the temporary file) are taken to succeed.
\<close>

section \<open>The comment packet\<close>

definition comment_body_len :: "vorbis_comments \<Rightarrow> rewrite_error + nat" where
  "comment_body_len c =
    and_then (sum_sizes [4, length (vc_vendor c), 4]) (\<lambda>len.
    try_fold (\<lambda>len (key, value). sum_sizes [len, 4, length key, 1, length value]) len (vc_items c))"

definition framing_len :: "codec \<Rightarrow> nat" where
  "framing_len c = (if c = Vorbis then 1 else 0)"

definition comment_packet_len :: "target \<Rightarrow> nat \<Rightarrow> rewrite_error + nat" where
  "comment_packet_len t body_len = sum_sizes [comment_prefix_len (tg_codec t), body_len, length (tg_tail t), framing_len (tg_codec t)]"

definition comment_prefix :: "codec \<Rightarrow> u8 list" where
  "comment_prefix c = (case c of Vorbis \<Rightarrow> VORBIS_COMMENT_PREFIX | Opus \<Rightarrow> OPUS_TAGS | Speex _ \<Rightarrow> [])"

definition build_comment_packet ::
  "meta_env \<Rightarrow> metadata_limits \<Rightarrow> target \<Rightarrow> u8 list \<Rightarrow> rewrite_error + u8 list" where
  "build_comment_packet env limits t body =
    and_then (comment_packet_len t (length body)) (\<lambda>len.
    and_then (fail_if (max_ogg_packet_bytes limits < len) (CommentPacketLimit len)) (\<lambda>_.
    and_then (map_err RewriteMetadata (reserve env len)) (\<lambda>_.
    Inr (comment_prefix (tg_codec t) @ body @ tg_tail t @ (if tg_codec t = Vorbis then [1] else [])))))"

section \<open>The header pages of the target\<close>

definition header_slot :: "target \<Rightarrow> nat \<Rightarrow> page \<Rightarrow> bool" where
  "header_slot t i p \<longleftrightarrow> tg_bos_page t \<le> i \<and> i \<le> tg_header_end_page t \<and> pg_serial p = tg_serial t"

definition collect_page ::
  "meta_env \<Rightarrow> metadata_limits \<Rightarrow> nat \<Rightarrow> page \<Rightarrow> page list \<times> nat \<Rightarrow> rewrite_error + page list \<times> nat" where
  "collect_page env limits retained p state =
    (case state of (pages, buffered) \<Rightarrow>
     and_then (fail_if (max_ogg_pages limits \<le> length pages) WindowPageLimit) (\<lambda>_.
     and_then (ok_or (usize_add buffered (encoded_len p)) AllocationOverflow) (\<lambda>buffered.
     and_then (ok_or (usize_add retained buffered) AllocationOverflow) (\<lambda>simultaneous.
     and_then (fail_if (max_total_bytes limits < simultaneous) (WindowAllocationLimit simultaneous)) (\<lambda>_.
     and_then (map_err RewriteMetadata (reserve env 1)) (\<lambda>_. Inr (pages @ [p], buffered)))))))"

function collect_loop ::
  "meta_env \<Rightarrow> metadata_limits \<Rightarrow> target \<Rightarrow> nat \<Rightarrow> u8 list \<Rightarrow> nat \<Rightarrow> page list \<times> nat \<Rightarrow> rewrite_error + page list" where
  "collect_loop env limits t retained stream i state =
    and_then (map_err RewritePage (next_page env stream)) (\<lambda>read. case read of
      None \<Rightarrow> Inr (fst state)
    | Some (p, rest) \<Rightarrow>
        and_then (if header_slot t i p then collect_page env limits retained p state else Inr state) (\<lambda>state.
        if i = tg_header_end_page t then Inr (fst state)
        else and_then (ok_or (usize_add i 1) FilePageOverflow) (\<lambda>i. collect_loop env limits t retained rest i state)))"
  by pat_completeness auto

termination
  by (relation "measure (\<lambda>(env, limits, t, retained, stream, i, state). length stream)") (auto dest: next_page_shorter)

declare collect_loop.simps [simp del]

definition collect_header_pages ::
  "meta_env \<Rightarrow> metadata_limits \<Rightarrow> target \<Rightarrow> nat \<Rightarrow> u8 list \<Rightarrow> rewrite_error + page list" where
  "collect_header_pages env limits t retained stream =
    and_then (collect_loop env limits t retained stream 0 ([], 0)) (\<lambda>pages.
    and_then (fail_if (pages = []) HeaderPagesGone) (\<lambda>_. Inr pages))"

section \<open>The new file\<close>

fun write_all :: "page list \<Rightarrow> page_error + u8 list" where
  "write_all [] = Inr []"
| "write_all (p # ps) = and_then (write_recomputed p) (\<lambda>bytes. and_then (write_all ps) (\<lambda>later. Inr (bytes @ later)))"

definition renumbered :: "u32 \<Rightarrow> u32 \<Rightarrow> page \<Rightarrow> page" where
  "renumbered old new p = p\<lparr>pg_sequence := pg_sequence p + new - old\<rparr>"

text \<open>The bytes that are written for a page of the file, and the generated pages that are left.\<close>

definition stage_page ::
  "target \<Rightarrow> nat \<Rightarrow> u32 \<Rightarrow> u32 \<Rightarrow> nat \<Rightarrow> page \<Rightarrow> page list \<Rightarrow> page_error + page list \<times> u8 list" where
  "stage_page t eos old new i p generated =
    (if header_slot t i p then
       and_then (write_all (take 1 generated)) (\<lambda>slot.
       if i = tg_header_end_page t then and_then (write_all (drop 1 generated)) (\<lambda>later. Inr ([], slot @ later))
       else Inr (drop 1 generated, slot))
     else if tg_header_end_page t < i \<and> i \<le> eos \<and> pg_serial p = tg_serial t \<and> old \<noteq> new then
       and_then (write_recomputed (renumbered old new p)) (\<lambda>bytes. Inr (generated, bytes))
     else and_then (write_original p) (\<lambda>bytes. Inr (generated, bytes)))"

function stage_loop ::
  "meta_env \<Rightarrow> target \<Rightarrow> nat \<Rightarrow> u32 \<Rightarrow> u32 \<Rightarrow> u8 list \<Rightarrow> nat \<Rightarrow> page list \<Rightarrow> rewrite_error + page list \<times> u8 list" where
  "stage_loop env t eos old new stream i generated =
    and_then (map_err RewritePage (next_page env stream)) (\<lambda>read. case read of
      None \<Rightarrow> Inr (generated, [])
    | Some (p, rest) \<Rightarrow>
        and_then (map_err RewritePage (stage_page t eos old new i p generated)) (\<lambda>(generated, bytes).
        and_then (ok_or (usize_add i 1) FilePageOverflow) (\<lambda>i.
        and_then (stage_loop env t eos old new rest i generated) (\<lambda>(generated, later).
        Inr (generated, bytes @ later)))))"
  by pat_completeness auto

termination
  by (relation "measure (\<lambda>(env, t, eos, old, new, stream, i, generated). length stream)") (auto dest: next_page_shorter)

declare stage_loop.simps [simp del]

definition stream_rewritten_file ::
  "meta_env \<Rightarrow> target \<Rightarrow> nat \<Rightarrow> nat \<Rightarrow> page list \<Rightarrow> u8 list \<Rightarrow> rewrite_error + u8 list" where
  "stream_rewritten_file env t eos old_header_pages generated stream =
    and_then (fail_if (2 ^ 32 \<le> old_header_pages) SequenceOverflow) (\<lambda>_.
    and_then (fail_if (2 ^ 32 \<le> length generated) SequenceOverflow) (\<lambda>_.
    and_then (stage_loop env t eos (word_of_nat old_header_pages) (word_of_nat (length generated)) stream 0 generated) (\<lambda>(left, staged).
    and_then (fail_if (left \<noteq> []) PagesNotEmitted) (\<lambda>_. Inr staged))))"

definition sum_encoded :: "page list \<Rightarrow> rewrite_error + nat" where
  "sum_encoded pages = sum_sizes (map encoded_len pages)"

definition rewrite_scanned ::
  "meta_env \<Rightarrow> metadata_limits \<Rightarrow> target \<Rightarrow> u8 list \<Rightarrow> u8 list \<Rightarrow> rewrite_error + u8 list" where
  "rewrite_scanned env limits t body stream =
    and_then (ok_or (tg_eos_page t) EosMissing) (\<lambda>eos.
    and_then (ok_or (tg_comments t) CommentsNotRetained) (\<lambda>original.
    and_then (comment_body_len original) (\<lambda>original_body_len.
    and_then (comment_packet_len t original_body_len) (\<lambda>original_comment_len.
    and_then (sum_sizes [original_body_len, length (tg_tail t)]) (\<lambda>target_retained.
    and_then (sum_sizes [length body, target_retained]) (\<lambda>serialized.
    and_then (check_rewrite_allocation [serialized] limits) (\<lambda>_.
    and_then (collect_header_pages env limits t serialized stream) (\<lambda>pages.
    and_then (sum_encoded pages) (\<lambda>page_bytes.
    and_then (sum_sizes [serialized, page_bytes]) (\<lambda>retained.
    and_then (extract_header_packets env limits pages t retained) (\<lambda>(packets, capacities, had_eos).
    and_then (sum_sizes (map length packets)) (\<lambda>packet_bytes.
    and_then (comment_packet_len t (length body)) (\<lambda>replacement_len.
    and_then (check_rewrite_allocation [length body, target_retained, packet_bytes, replacement_len] limits) (\<lambda>_.
    and_then (build_comment_packet env limits t body) (\<lambda>replacement.
    and_then (fail_if (packet_bytes < original_comment_len) PacketSumUnderflow) (\<lambda>_.
    and_then (sum_sizes [packet_bytes - original_comment_len, length replacement]) (\<lambda>bytes_after.
    and_then (fail_if (length packets \<le> 1) NoCommentPacket) (\<lambda>_.
    if packets ! 1 = replacement then Inr stream
    else
      and_then (sum_sizes [bytes_after, target_retained]) (\<lambda>retained.
      and_then (paginate_headers env limits (packets[1 := replacement]) capacities (tg_serial t) had_eos retained) (\<lambda>generated.
      and_then (sum_encoded generated) (\<lambda>generated_bytes.
      and_then (check_rewrite_allocation [target_retained, bytes_after, generated_bytes] limits) (\<lambda>_.
      stream_rewritten_file env t eos (length capacities) generated stream))))))))))))))))))))))"

section \<open>Entry points\<close>

definition is_ogg :: "u8 list \<Rightarrow> bool" where
  "is_ogg stream \<longleftrightarrow> take 4 stream = CAPTURE"

definition rewrite_config :: "meta_env \<Rightarrow> metadata_limits \<Rightarrow> scan_mode \<Rightarrow> scan_config" where
  "rewrite_config env limits mode = \<lparr>cf_env = env, cf_limits = limits, cf_mode = mode\<rparr>"

definition read_file ::
  "meta_env \<Rightarrow> metadata_limits \<Rightarrow> u8 list \<Rightarrow> metadata_budget \<Rightarrow> rewrite_error + vorbis_comments option \<times> metadata_budget" where
  "read_file env limits stream b =
    (if \<not> is_ogg stream then Inr (None, b)
     else and_then (map_err RewriteScan (scan (rewrite_config env limits HeadersOnly) b stream)) (\<lambda>(found, b).
       Inr (Option.bind found tg_comments, b)))"

definition validate :: "meta_env \<Rightarrow> metadata_limits \<Rightarrow> u8 list \<Rightarrow> rewrite_error + unit" where
  "validate env limits stream =
    and_then (fail_if (\<not> is_ogg stream) NotOgg) (\<lambda>_.
    and_then (map_err RewriteScan (scan (rewrite_config env limits Decode) (budget_of limits) stream)) (\<lambda>_. Inr ()))"

definition rewrite ::
  "meta_env \<Rightarrow> metadata_limits \<Rightarrow> vorbis_comments \<Rightarrow> u8 list \<Rightarrow> rewrite_error + u8 list" where
  "rewrite env limits comments stream =
    (if \<not> is_ogg stream then Inr stream
     else and_then (map_err RewriteScan (scan (rewrite_config env limits Rewrite) (budget_of limits) stream)) (\<lambda>(found, _).
       case found of
         None \<Rightarrow> Inr stream
       | Some t \<Rightarrow>
           and_then (fail_if (tg_comments t = None) CommentsNotRetained) (\<lambda>_.
           and_then (fail_if (tg_shares_header_page_with_audio t) SharedHeaderPage) (\<lambda>_.
           and_then (map_err RewriteMetadata (serialize_comment_body env comments (budget_of limits))) (\<lambda>(body, b).
           and_then (map_err RewriteMetadata (charge_bytes b (length (tg_tail t)))) (\<lambda>_.
           rewrite_scanned env limits t body stream))))))"

end
