(* ===== verification/Ogg_Rewrite_Correct.thy ===== *)
theory Ogg_Rewrite_Correct
  imports Ogg_Rewrite
begin

text \<open>
  What the rewriting of an Ogg file keeps and what it changes. The pages of the file fall into four
  parts: before the beginning of the target stream, up to the end of its headers, up to its end, and
  the rest. \<open>place\<close> says page by page what is written.
\<close>

section \<open>Reading and writing pages\<close>

lemma write_original_Inr: "write_original p = Inr bytes \<Longrightarrow> bytes = page_bytes p"
  by (auto simp: write_original_def write_with_checksum_def page_header_def and_then_Inr_iff and_then_unit_iff page_bytes_def)

lemma write_recomputed_Inr: "write_recomputed p = Inr bytes \<Longrightarrow> bytes = page_bytes (sealed p)"
  by (auto simp: write_recomputed_def calculated_checksum_def write_with_checksum_def page_header_def and_then_Inr_iff
      and_then_unit_iff page_bytes_def sealed_def page_crc_def header_bytes_def)

lemma write_all_Inr: "write_all ps = Inr bytes \<Longrightarrow> bytes = concat (map (\<lambda>p. page_bytes (sealed p)) ps)"
proof (induction ps arbitrary: bytes)
  case (Cons p ps)
  then show ?case using write_recomputed_Inr by (fastforce simp: and_then_Inr_iff)
qed simp

lemma sealed_simps [simp]:
  "pg_serial (sealed p) = pg_serial p" "pg_sequence (sealed p) = pg_sequence p" "pg_lacing (sealed p) = pg_lacing p"
  "pg_body (sealed p) = pg_body p" "is_eos (sealed p) = is_eos p" "is_bos (sealed p) = is_bos p"
  "is_continued (sealed p) = is_continued p" "page_shape (sealed p) = page_shape p" "page_crc (sealed p) = page_crc p"
  "pg_checksum (sealed p) = page_crc p" "pg_header_type (sealed p) = pg_header_type p"
  "pg_granule (sealed p) = pg_granule p"
  by (simp_all add: sealed_def is_eos_def is_bos_def is_continued_def page_shape_def)

lemma sealed_same: "pg_checksum p = page_crc p \<Longrightarrow> sealed p = p"
  by (cases p) (simp add: sealed_def)

section \<open>The pages that are collected\<close>

lemma collect_loop_pages:
  assumes "\<forall>p \<in> set fs. page_admitted env p"
  shows "collect_loop env limits t retained (concat (map page_bytes fs)) i (ps, n) = Inr pages \<Longrightarrow> i \<le> tg_header_end_page t \<Longrightarrow>
    pages = ps @ map snd (filter (\<lambda>(j, p). header_slot t j p) (enumerate i fs))"
  using assms
proof (induction fs arbitrary: i ps n)
  case Nil
  then show ?case by (simp add: collect_loop.simps [of _ _ _ _ "[]"] next_page_def read_capture_def)
next
  case (Cons f fs)
  have ok: "page_admitted env f" using Cons.prems(3) by simp
  let ?rest = "concat (map page_bytes fs)"
  let ?go = "\<lambda>state. if i = tg_header_end_page t then Inr (fst state)
        else and_then (ok_or (usize_add i 1) FilePageOverflow) (\<lambda>i. collect_loop env limits t retained ?rest i state)"
  obtain state where state: "(if header_slot t i f then collect_page env limits retained f (ps, n) else Inr (ps, n)) = Inr state"
    and go: "?go state = Inr pages"
    using Cons.prems(1) next_page_encode [OF ok, of ?rest]
    by (auto simp: collect_loop.simps [of _ _ _ _ "page_bytes f @ ?rest"] and_then_Inr_iff)
  obtain m where m: "state = (ps @ (if header_slot t i f then [f] else []), m)"
    using state by (cases "header_slot t i f") (auto simp: collect_page_def and_then_Inr_iff and_then_unit_iff)
  show ?case
  proof (cases "i = tg_header_end_page t")
    case True
    have "filter (\<lambda>(j, p). header_slot t j p) (enumerate (Suc i) fs) = []"
      using True by (auto simp: filter_empty_conv in_set_enumerate_eq header_slot_def)
    then show ?thesis using True go m by auto
  next
    case False
    then have "collect_loop env limits t retained ?rest (Suc i) state = Inr pages"
      using go by (auto simp: and_then_Inr_iff)
    from Cons.IH [OF this [unfolded m]] show ?thesis using False Cons.prems(2,3) by auto
  qed
qed

lemma collect_header_pages_window:
  assumes "collect_header_pages env limits t retained (concat (map page_bytes fs)) = Inr pages"
    and "\<forall>p \<in> set fs. page_admitted env p"
  shows "pages = window_until (tg_serial t) (tg_bos_page t) (tg_header_end_page t) fs \<and> pages \<noteq> []"
proof -
  have "collect_loop env limits t retained (concat (map page_bytes fs)) 0 ([], 0) = Inr pages" and "pages \<noteq> []"
    using assms(1) by (auto simp: collect_header_pages_def and_then_Inr_iff and_then_unit_iff)
  moreover from this(1) have "pages = map snd (filter (\<lambda>(j, p). header_slot t j p) (enumerate 0 fs))"
    using collect_loop_pages [OF assms(2)] by fastforce
  ultimately show ?thesis unfolding window_until_def header_slot_def by simp
qed

section \<open>The pages that are written\<close>

definition place ::
  "target \<Rightarrow> nat \<Rightarrow> u32 \<Rightarrow> u32 \<Rightarrow> nat \<Rightarrow> page \<Rightarrow> page list \<Rightarrow> page list \<times> page list" where
  "place t eos old new i p generated =
    (if header_slot t i p then
       (if i = tg_header_end_page t then ([], map sealed generated) else (drop 1 generated, map sealed (take 1 generated)))
     else if tg_header_end_page t < i \<and> i \<le> eos \<and> pg_serial p = tg_serial t \<and> old \<noteq> new
       then (generated, [sealed (renumbered old new p)])
     else (generated, [p]))"

fun staged ::
  "target \<Rightarrow> nat \<Rightarrow> u32 \<Rightarrow> u32 \<Rightarrow> nat \<Rightarrow> page list \<Rightarrow> page list \<Rightarrow> page list \<times> page list" where
  "staged t eos old new i [] generated = (generated, [])"
| "staged t eos old new i (p # ps) generated =
    (case place t eos old new i p generated of (left, here) \<Rightarrow>
     case staged t eos old new (Suc i) ps left of (left, later) \<Rightarrow> (left, here @ later))"

lemma stage_page_place:
  assumes "stage_page t eos old new i p generated = Inr (left, bytes)"
  shows "\<exists>here. place t eos old new i p generated = (left, here) \<and> bytes = concat (map page_bytes here)"
proof (cases "header_slot t i p")
  case True
  obtain slot where slot: "write_all (take 1 generated) = Inr slot"
    and r: "(if i = tg_header_end_page t then and_then (write_all (drop 1 generated)) (\<lambda>later. Inr ([], slot @ later))
       else Inr (drop 1 generated, slot)) = Inr (left, bytes)"
    using assms True by (auto simp: stage_page_def and_then_Inr_iff)
  note s = write_all_Inr [OF slot]
  show ?thesis
  proof (cases "i = tg_header_end_page t")
    case end_page: True
    obtain later where later: "write_all (drop 1 generated) = Inr later" "left = []" "bytes = slot @ later"
      using r end_page by (auto simp: and_then_Inr_iff)
    have "bytes = concat (map (\<lambda>p. page_bytes (sealed p)) (take 1 generated @ drop 1 generated))"
      unfolding later(3) s write_all_Inr [OF later(1)] by (simp only: concat_append map_append)
    then show ?thesis using True end_page later(2) by (simp add: place_def comp_def)
  next
    case False
    then show ?thesis using True r s by (auto simp: place_def comp_def)
  qed
next
  case False
  then show ?thesis using assms
    by (auto simp: stage_page_def place_def and_then_Inr_iff split: if_splits dest: write_original_Inr write_recomputed_Inr)
qed

lemma stage_loop_staged:
  assumes "\<forall>p \<in> set fs. page_admitted env p"
  shows "stage_loop env t eos old new (concat (map page_bytes fs)) i generated = Inr (left, bytes) \<Longrightarrow>
    \<exists>out. staged t eos old new i fs generated = (left, out) \<and> bytes = concat (map page_bytes out)"
  using assms
proof (induction fs arbitrary: i generated bytes)
  case Nil
  then show ?case by (simp add: stage_loop.simps [of _ _ _ _ _ "[]"] next_page_def read_capture_def)
next
  case (Cons f fs)
  have ok: "page_admitted env f" using Cons.prems(2) by simp
  let ?rest = "concat (map page_bytes fs)"
  obtain left1 here later where p: "stage_page t eos old new i f generated = Inr (left1, here)"
    and r: "stage_loop env t eos old new ?rest (Suc i) left1 = Inr (left, later)" and b: "bytes = here @ later"
    using Cons.prems(1) next_page_encode [OF ok, of ?rest]
    by (auto simp: stage_loop.simps [of _ _ _ _ _ "page_bytes f @ ?rest"] and_then_Inr_iff map_err_def split: sum.splits if_splits)
  obtain out where "staged t eos old new (Suc i) fs left1 = (left, out)" "later = concat (map page_bytes out)"
    using Cons.IH [OF r] Cons.prems(2) by auto
  then show ?case using stage_page_place [OF p] b by auto
qed

lemma staged_append: "staged t eos old new i (ps @ qs) generated =
    (case staged t eos old new i ps generated of (left, out) \<Rightarrow>
     case staged t eos old new (i + length ps) qs left of (left, later) \<Rightarrow> (left, out @ later))"
  by (induction ps arbitrary: i generated) (auto split: prod.splits)

section \<open>The four parts of the file\<close>

definition own :: "u32 \<Rightarrow> page list \<Rightarrow> page list" where
  "own serial pages = filter (\<lambda>p. pg_serial p = serial) pages"

lemma own_simps [simp]:
  "own k [] = []" "own k (p # ps) = (if pg_serial p = k then p # own k ps else own k ps)" "own k (ps @ qs) = own k ps @ own k qs"
  by (simp_all add: own_def)

definition moved :: "u32 \<Rightarrow> u32 \<Rightarrow> u32 \<Rightarrow> page \<Rightarrow> page" where
  "moved serial old new p = (if pg_serial p = serial \<and> old \<noteq> new then sealed (renumbered old new p) else p)"

lemma staged_before:
  "i + length ps \<le> tg_bos_page t \<Longrightarrow> tg_bos_page t \<le> tg_header_end_page t \<Longrightarrow> staged t eos old new i ps generated = (generated, ps)"
  by (induction ps arbitrary: i) (auto simp: place_def header_slot_def)

lemma staged_after: "eos < i \<Longrightarrow> tg_header_end_page t < i \<Longrightarrow> staged t eos old new i ps generated = (generated, ps)"
  by (induction ps arbitrary: i) (auto simp: place_def header_slot_def)

lemma staged_audio: "tg_header_end_page t < i \<Longrightarrow> i + length ps \<le> Suc eos \<Longrightarrow>
    staged t eos old new i ps generated = (generated, map (moved (tg_serial t) old new) ps)"
  by (induction ps arbitrary: i) (auto simp: place_def header_slot_def moved_def)

lemma own_sealed: "\<forall>p \<in> set ps. pg_serial p = serial \<Longrightarrow> own k (map sealed ps) = (if k = serial then map sealed ps else [])"
  by (induction ps) auto

lemma staged_headers:
  "staged t eos old new i ps generated = (left, out) \<Longrightarrow> tg_bos_page t \<le> i \<Longrightarrow> i + length ps \<le> Suc (tg_header_end_page t) \<Longrightarrow>
   \<forall>p \<in> set generated. pg_serial p = tg_serial t \<Longrightarrow>
   \<exists>emitted. generated = emitted @ left \<and> (\<forall>k. own k out = (if k = tg_serial t then map sealed emitted else own k ps))"
proof (induction ps arbitrary: i generated out)
  case (Cons p ps)
  obtain left1 here rest where p: "place t eos old new i p generated = (left1, here)"
    and r: "staged t eos old new (Suc i) ps left1 = (left, rest)" and out: "out = here @ rest"
    using Cons.prems(1) by (auto split: prod.splits)
  obtain e1 where e1: "generated = e1 @ left1" "\<forall>k. own k here = (if k = tg_serial t then map sealed e1 else own k [p])"
  proof (cases "pg_serial p = tg_serial t")
    case True
    then have slot: "header_slot t i p" using Cons.prems(2,3) by (simp add: header_slot_def)
    show ?thesis
    proof (cases "i = tg_header_end_page t")
      case end_page: True
      then have "left1 = []" "here = map sealed generated" using p slot by (simp_all add: place_def)
      then show ?thesis using that [of generated] True own_sealed [OF Cons.prems(4)] by simp
    next
      case False
      then have l: "left1 = drop 1 generated" "here = map sealed (take 1 generated)" using p slot by (simp_all add: place_def)
      have "\<forall>p \<in> set (take 1 generated). pg_serial p = tg_serial t" using Cons.prems(4) by (auto dest: in_set_takeD)
      from that [of "take 1 generated"] l True own_sealed [OF this] show ?thesis by simp
    qed
  next
    case False
    then have "left1 = generated" "here = [p]" using p Cons.prems(3) by (auto simp: place_def header_slot_def split: if_splits)
    then show ?thesis using that [of "[]"] False by auto
  qed
  have "\<forall>p \<in> set left1. pg_serial p = tg_serial t" using Cons.prems(4) e1(1) by simp
  then obtain e2 where "left1 = e2 @ left" "\<forall>k. own k rest = (if k = tg_serial t then map sealed e2 else own k ps)"
    using Cons.IH [OF r] Cons.prems(2,3) by auto
  then show ?case using e1 out by (intro exI [of _ "e1 @ e2"]) auto
qed simp

lemma window_until_slice: "window_until k b e fs = own k (take (Suc e - b) (drop b fs))"
proof (induction fs rule: rev_induct)
  case (snoc p fs)
  have "window_until k b e (fs @ [p]) = window_until k b e fs @ (if b \<le> length fs \<and> length fs \<le> e \<and> pg_serial p = k then [p] else [])"
    by (simp add: window_until_def enumerate_snoc)
  moreover have "take (Suc e - b) (drop b (fs @ [p])) = take (Suc e - b) (drop b fs) @ (if b \<le> length fs \<and> length fs \<le> e then [p] else [])"
    by (cases "b \<le> length fs") (auto simp: take_Cons')
  ultimately show ?case using snoc by simp
qed (simp add: window_until_def)

lemma moved_serial [simp]: "pg_serial (moved serial old new p) = pg_serial p"
  by (simp add: moved_def renumbered_def)

lemma own_moved: "own k (map (moved serial old new) ps) = (if k = serial then map (moved serial old new) (own k ps) else own k ps)"
proof -
  have other: "pg_serial p \<noteq> serial \<Longrightarrow> moved serial old new p = p" for p by (simp add: moved_def)
  show ?thesis by (induction ps) (auto simp: other)
qed

lemma staged_whole:
  assumes "staged t eos old new 0 fs generated = ([], out)" and "\<forall>p \<in> set generated. pg_serial p = tg_serial t"
    and order: "tg_bos_page t \<le> tg_header_end_page t" "tg_header_end_page t \<le> eos" "tg_header_end_page t < length fs"
  shows "\<exists>headers. out = take (tg_bos_page t) fs @ headers
      @ map (moved (tg_serial t) old new) (take (eos - tg_header_end_page t) (drop (Suc (tg_header_end_page t)) fs)) @ drop (Suc eos) fs
    \<and> (\<forall>k. own k headers = (if k = tg_serial t then map sealed generated
         else own k (take (Suc (tg_header_end_page t) - tg_bos_page t) (drop (tg_bos_page t) fs))))"
proof -
  let ?b = "tg_bos_page t" and ?h = "tg_header_end_page t"
  let ?A = "take ?b fs" and ?H = "take (Suc ?h - ?b) (drop ?b fs)" and ?B = "take (eos - ?h) (drop (Suc ?h) fs)" and ?C = "drop (Suc eos) fs"
  have "drop ?b fs = ?H @ drop (Suc ?h) fs"
    using append_take_drop_id [of "Suc ?h - ?b" "drop ?b fs"] order(1) by simp
  moreover have "drop (Suc ?h) fs = ?B @ ?C"
    using append_take_drop_id [of "eos - ?h" "drop (Suc ?h) fs"] order(2) by simp
  ultimately have fs: "fs = ?A @ ?H @ ?B @ ?C" by (metis append_take_drop_id)
  have la: "length ?A = ?b" and lh: "length ?A + length ?H = Suc ?h" using order by auto
  obtain left headers where h: "staged t eos old new ?b ?H generated = (left, headers)" by (cases "staged t eos old new ?b ?H generated")
  have "staged t eos old new 0 ?A generated = (generated, ?A)" by (rule staged_before) (use order in auto)
  moreover have "staged t eos old new (Suc ?h) ?B left = (left, map (moved (tg_serial t) old new) ?B)"
    by (rule staged_audio) (use order in auto)
  moreover have "staged t eos old new (Suc ?h + length ?B) ?C left = (left, ?C)"
  proof (cases "?C = []")
    case False
    then show ?thesis by (intro staged_after) (use order in auto)
  qed simp
  ultimately have "staged t eos old new 0 (?A @ ?H @ ?B @ ?C) generated = (left, ?A @ headers @ map (moved (tg_serial t) old new) ?B @ ?C)"
    using h la lh by (simp add: staged_append add.assoc [symmetric] del: length_take length_drop)
  then have out: "left = []" "out = ?A @ headers @ map (moved (tg_serial t) old new) ?B @ ?C" using assms(1) fs by simp_all
  obtain emitted where "generated = emitted @ left" "\<forall>k. own k headers = (if k = tg_serial t then map sealed emitted else own k ?H)"
    using staged_headers [OF h _ _ assms(2)] order by auto
  then show ?thesis using out by auto
qed

section \<open>Packets and form of the new stream\<close>

text \<open>The packets that are complete already play no part in what is assembled from the next pages.\<close>

definition under :: "u8 list list \<Rightarrow> assembly \<Rightarrow> assembly" where
  "under ps a = (ps @ fst a, snd a)"

lemma add_segment_under: "add_segment (under ps a) segment = under ps (add_segment a segment)"
  by (auto simp: add_segment_def under_def split: prod.splits)

lemma add_page_under: "add_page (under ps a) p = under ps (add_page a p)"
proof -
  have "foldl add_segment (under ps a) segments = under ps (foldl add_segment a segments)" for segments
    by (induction segments arbitrary: a) (simp_all add: add_segment_under)
  then show ?thesis by (simp add: add_page_def)
qed

lemma pages_under: "foldl add_page (under ps a) pages = under ps (foldl add_page a pages)"
  by (induction pages arbitrary: a) (simp_all add: add_page_under)

lemma moved_fields [simp]:
  "is_eos (moved k old new p) = is_eos p" "is_bos (moved k old new p) = is_bos p" "is_continued (moved k old new p) = is_continued p"
  "pg_lacing (moved k old new p) = pg_lacing p" "pg_body (moved k old new p) = pg_body p" "page_shape (moved k old new p) = page_shape p"
  by (simp_all add: moved_def renumbered_def is_eos_def is_bos_def is_continued_def page_shape_def)

lemma add_page_moved [simp]: "add_page a (moved k old new p) = add_page a p" "add_page a (sealed p) = add_page a p"
  by (simp_all add: add_page_def page_segments_def)

lemma foldl_sealed: "foldl add_page a (map sealed ps) = foldl add_page a ps"
  by (induction ps arbitrary: a) simp_all

lemma foldl_moved: "foldl add_page a (map (moved k old new) ps) = foldl add_page a ps"
  by (induction ps arbitrary: a) simp_all

lemma follow_sealed: "follow n a (map sealed ps) = follow n a ps"
  by (induction ps arbitrary: n a) simp_all

text \<open>The pages after the headers, moved to follow \<open>m\<close> pages instead of \<open>n\<close>.\<close>

lemma follow_moved:
  "follow n (under ps a) pages \<Longrightarrow> \<forall>p \<in> set pages. pg_serial p = k \<Longrightarrow> 0 < n \<Longrightarrow> 0 < m \<Longrightarrow>
   old + word_of_nat d = word_of_nat n \<Longrightarrow> new + word_of_nat d = word_of_nat m \<Longrightarrow>
   follow m (under qs a) (map (moved k old new) pages)"
proof (induction pages arbitrary: n m d a)
  case (Cons p pages)
  have seq: "pg_sequence p = old + word_of_nat d" using Cons.prems(1,5) by simp
  have "pg_sequence (moved k old new p) = new + word_of_nat d"
    using Cons.prems(2) seq by (simp add: moved_def renumbered_def)
  moreover have "follow (Suc m) (under qs (add_page a p)) (map (moved k old new) pages)"
  proof (rule Cons.IH)
    show "follow (Suc n) (under ps (add_page a p)) pages" using Cons.prems(1) by (simp add: add_page_under)
    show "old + word_of_nat (Suc d) = word_of_nat (Suc n)" "new + word_of_nat (Suc d) = word_of_nat (Suc m)"
      using Cons.prems(5,6) by (simp_all add: add.left_commute)
  qed (use Cons.prems(2) in simp_all)
  ultimately show ?case using Cons.prems by (simp add: add_page_under) (simp add: under_def)
qed simp

lemma header_pages_follow:
  assumes "header_pages serial n a pages" and "\<forall>p \<in> set (butlast pages). \<not> is_eos p"
  shows "follow n a pages"
  using assms
proof (induction pages arbitrary: n a)
  case (Cons p pages)
  show ?case
  proof (cases pages)
    case Nil
    then show ?thesis using Cons.prems(1) by (simp add: header_page_def)
  next
    case (Cons q qs)
    then have "\<not> is_eos p" "\<forall>p \<in> set (butlast pages). \<not> is_eos p" using Cons.prems(2) by simp_all
    then show ?thesis using Cons.prems(1) Cons.IH by (simp add: header_page_def)
  qed
qed simp

lemma header_pages_members: "header_pages serial n a pages \<Longrightarrow> p \<in> set pages \<Longrightarrow> pg_serial p = serial \<and> page_shape p"
proof (induction pages arbitrary: n a)
  case (Cons q pages)
  then show ?case using Cons.IH [of "Suc n" "add_page a q"] by (auto simp only: header_pages.simps header_page_def list.set insert_iff)
qed simp

text \<open>The new stream: the generated header pages and the moved rest.\<close>

lemma new_stream:
  assumes old: "logical_stream (headers @ rest)" "assemble headers = (packets, [], False)" "headers \<noteq> []"
      "\<forall>p \<in> set rest. pg_serial p = serial"
    and new: "header_pages serial 0 ([], [], False) generated" "assemble generated = (packets', [], False)" "generated \<noteq> []"
      "\<forall>p \<in> set (butlast generated). \<not> is_eos p" "is_eos (last generated) = is_eos (last headers)"
  shows "logical_stream (map sealed generated @ map (moved serial (word_of_nat (length headers)) (word_of_nat (length generated))) rest)"
    and "assemble (map sealed generated @ map (moved serial o' n') rest) = under packets' (foldl add_page ([], [], False) rest)"
    and "assemble (headers @ rest) = under packets (foldl add_page ([], [], False) rest)"
proof -
  let ?f = "moved serial (word_of_nat (length headers)) (word_of_nat (length generated))"
  have o: "foldl add_page ([], [], False) headers = under packets ([], [], False)"
    and n: "foldl add_page ([], [], False) generated = under packets' ([], [], False)"
    using old(2) new(2) by (simp_all add: assemble_def under_def)
  have "follow (length headers) (under packets ([], [], False)) rest" and e: "rest \<noteq> [] \<longrightarrow> (\<forall>p \<in> set headers. \<not> is_eos p)"
    using old(1) o by (simp_all add: logical_stream_def follow_append)
  then have "follow (length generated) (under packets' ([], [], False)) (map ?f rest)"
    using old(3,4) new(3) by (intro follow_moved [where d = 0 and ps = packets and n = "length headers"]) simp_all
  moreover have "follow 0 ([], [], False) generated" using new(1,4) by (rule header_pages_follow)
  moreover have "\<forall>p \<in> set generated. \<not> is_eos p" if "rest \<noteq> []"
  proof -
    have "\<not> is_eos (last generated)" using that e new(5) old(3) by simp
    moreover have "set generated = insert (last generated) (set (butlast generated))"
      using new(3) by (metis append_butlast_last_id list.simps(15) rotate1.simps(2) set_rotate1)
    ultimately show ?thesis using new(4) by auto
  qed
  ultimately show "logical_stream (map sealed generated @ map ?f rest)"
    using n by (simp add: logical_stream_def follow_append follow_sealed foldl_sealed)
  show "assemble (map sealed generated @ map (moved serial o' n') rest) = under packets' (foldl add_page ([], [], False) rest)"
    using n by (simp add: assemble_def foldl_sealed foldl_moved pages_under)
  show "assemble (headers @ rest) = under packets (foldl add_page ([], [], False) rest)"
    using o by (simp add: assemble_def pages_under)
qed

section \<open>The new comment packet\<close>

definition new_comment_packet :: "target \<Rightarrow> u8 list \<Rightarrow> u8 list" where
  "new_comment_packet t body = comment_prefix (tg_codec t) @ body @ tg_tail t @ (if tg_codec t = Vorbis then [1] else [])"

lemma read_u32_at:
  assumes "data = u @ to_le 4 (w :: u32) @ v" and "length data < 2 ^ 64"
  shows "read_u32 (length u) data = Inr (unat w, length u + 4)"
  using assms by (simp add: read_u32_def usize_add_def slice_get_def of_le_to_le_full)

lemma skip_fields_at:
  assumes "\<forall>item \<in> set items. length (fst item) + 1 + length (snd item) < 2 ^ 32
      \<and> length (fst item) + 1 + length (snd item) \<le> max_item_bytes limits"
  shows "data = u @ concat (map item_bytes items) @ v \<Longrightarrow> length data < 2 ^ 64 \<Longrightarrow>
    skip_fields (length items) (length u) data limits = Inr (length u + length (concat (map item_bytes items)))"
  using assms
proof (induction items arbitrary: u)
  case (Cons item items)
  let ?n = "length (fst item) + 1 + length (snd item)"
  let ?w = "word_of_nat ?n :: u32" and ?field = "as_bytes (fst item) @ 0x3d # as_bytes (snd item)"
  let ?u = "u @ item_bytes item"
  have lim: "?n < 2 ^ 32" "?n \<le> max_item_bytes limits" using Cons.prems(3) by auto
  have n: "unat ?w = ?n" "?n \<le> max_item_bytes limits" by (rule unat_word_of_nat_lt) (use lim in simp_all)
  have "data = u @ to_le 4 ?w @ ?field @ concat (map item_bytes items) @ v" using Cons.prems(1) by (simp only: item_bytes_def [of item] list.map concat.simps append_assoc append_Cons)
  from read_u32_at [OF this Cons.prems(2)] have r: "read_u32 (length u) data = Inr (?n, length u + 4)" by (simp only: n(1))
  have len: "length ?u = length u + 4 + ?n" by simp
  have fits: "length ?u \<le> length data" using Cons.prems(1) by simp
  have "skip_fields (length items) (length ?u) data limits = Inr (length ?u + length (concat (map item_bytes items)))"
    by (rule Cons.IH) (use Cons.prems in simp_all)
  then have "skip_fields (length items) (length u + 4 + ?n) data limits = Inr (length ?u + length (concat (map item_bytes items)))"
    by (simp only: len)
  moreover have "usize_add (length u + 4) ?n = Some (length u + 4 + ?n)" using fits len Cons.prems(2) by (simp add: usize_add_def)
  ultimately show ?case using r n(2) fits len by simp
qed simp

lemma good_items_small: "list_all2 (good_item env limits) items costs \<Longrightarrow>
    \<forall>item \<in> set items. length (fst item) + 1 + length (snd item) < 2 ^ 32
      \<and> length (fst item) + 1 + length (snd item) \<le> max_item_bytes limits"
  by (induction rule: list_all2_induct) (simp_all add: good_item_def)

lemma locate_comment_body_at:
  assumes fit: "comments_fit env limits c b" and "length (comment_bytes c @ v) < 2 ^ 64"
  shows "locate_comment_body (comment_bytes c @ v) limits = Inr (length (comment_bytes c))"
proof -
  let ?vendor = "word_of_nat (length (vc_vendor c)) :: u32" and ?count = "word_of_nat (length (vc_items c)) :: u32"
  let ?data = "comment_bytes c @ v" and ?items = "concat (map item_bytes (vc_items c))"
  have f: "length (vc_vendor c) \<le> max_item_bytes limits" "length (vc_vendor c) < 2 ^ 32"
      "length (vc_items c) \<le> max_items limits" "length (vc_items c) < 2 ^ 32"
    and items: "\<forall>item \<in> set (vc_items c). length (fst item) + 1 + length (snd item) < 2 ^ 32
      \<and> length (fst item) + 1 + length (snd item) \<le> max_item_bytes limits"
    using fit good_items_small [of env limits "vc_items c"] unfolding comments_fit_def by blast+
  have u: "unat ?vendor = length (vc_vendor c)" "unat ?count = length (vc_items c)"
    using f(2,4) by (simp_all add: unat_word_of_nat_lt)
  have d1: "?data = [] @ to_le 4 ?vendor @ as_bytes (vc_vendor c) @ to_le 4 ?count @ ?items @ v"
    by (simp add: comment_bytes_def)
  let ?u2 = "to_le 4 ?vendor @ as_bytes (vc_vendor c)"
  have d2: "?data = ?u2 @ to_le 4 ?count @ ?items @ v" by (simp add: comment_bytes_def)
  let ?u3 = "?u2 @ to_le 4 ?count"
  have d3: "?data = ?u3 @ ?items @ v" by (simp add: comment_bytes_def)
  have l: "length ?u2 = 4 + length (vc_vendor c)" "length ?u3 = length ?u2 + 4" by simp_all
  have "length ?u3 \<le> length ?data" by (subst d3) simp
  then have small: "4 + length (vc_vendor c) < 2 ^ 64" "4 + length (vc_vendor c) \<le> length ?data" using assms(2) l by simp_all
  have r1: "read_u32 0 ?data = Inr (length (vc_vendor c), 4)" using read_u32_at [OF d1 assms(2)] u(1) by simp
  have r2: "read_u32 (4 + length (vc_vendor c)) ?data = Inr (length (vc_items c), length ?u3)"
    using read_u32_at [OF d2 assms(2)] u(2) l by (simp only: l)
  have r3: "skip_fields (length (vc_items c)) (length ?u3) ?data limits = Inr (length ?u3 + length ?items)"
    by (rule skip_fields_at [OF items d3 assms(2)])
  have "length (comment_bytes c) = length ?u3 + length ?items" by (simp add: comment_bytes_def)
  then show ?thesis using r1 r2 r3 f small by (simp add: locate_comment_body_def usize_add_def)
qed

lemma new_packet_parts:
  assumes "comments_fit env limits c b" and "length (new_comment_packet t (comment_bytes c)) < 2 ^ 64"
    and "tg_codec t \<noteq> Opus \<longrightarrow> tg_tail t = []"
  shows "comment_parts (tg_codec t) (new_comment_packet t (comment_bytes c)) limits True = Inr (comment_bytes c, tg_tail t)"
proof -
  let ?body = "comment_bytes c" and ?rest = "tg_tail t @ (if tg_codec t = Vorbis then [1] else [])"
  have small: "length (?body @ ?rest) < 2 ^ 64" using assms(2) by (simp add: new_comment_packet_def)
  note l = locate_comment_body_at [OF assms(1) small]
  have prefix: "length VORBIS_COMMENT_PREFIX = 7" "length OPUS_TAGS = 8"
    by (simp_all add: VORBIS_COMMENT_PREFIX_def OPUS_TAGS_def)
  show ?thesis
  proof (cases "tg_codec t")
    case Vorbis
    then show ?thesis using l assms(2,3) prefix
      by (simp add: comment_parts_def new_comment_packet_def comment_prefix_def begins_with_def slice_get_def usize_add_def)
  next
    case Opus
    then show ?thesis using l assms(2) prefix
      by (simp add: comment_parts_def new_comment_packet_def comment_prefix_def begins_with_def slice_get_def usize_add_def)
  next
    case (Speex n)
    then show ?thesis using l assms(2,3)
      by (simp add: comment_parts_def new_comment_packet_def comment_prefix_def slice_get_def usize_add_def)
  qed
qed

lemma sum_sizes_Inr: "sum_sizes sizes = Inr n \<Longrightarrow> n = sum_list sizes \<and> (sizes \<noteq> [] \<longrightarrow> n < 2 ^ 64)"
proof -
  have "try_fold (\<lambda>total size. ok_or (usize_add total size) AllocationOverflow) m sizes = Inr n \<Longrightarrow>
      n = m + sum_list sizes \<and> (sizes \<noteq> [] \<longrightarrow> n < 2 ^ 64)" for m
  proof (induction sizes arbitrary: m)
    case (Cons s sizes)
    then show ?case by (cases sizes) (fastforce simp: and_then_Inr_iff)+
  qed simp
  from this [of 0] show "sum_sizes sizes = Inr n \<Longrightarrow> n = sum_list sizes \<and> (sizes \<noteq> [] \<longrightarrow> n < 2 ^ 64)"
    unfolding sum_sizes_def add_0 by blast
qed

lemma build_comment_packet_Inr:
  assumes "build_comment_packet env limits t body = Inr packet"
  shows "packet = new_comment_packet t body \<and> length packet < 2 ^ 64"
proof -
  obtain n where n: "comment_packet_len t (length body) = Inr n" and p: "packet = new_comment_packet t body"
    using assms by (auto simp: build_comment_packet_def new_comment_packet_def and_then_Inr_iff and_then_unit_iff)
  have "length packet = n"
    using sum_sizes_Inr [OF n [unfolded comment_packet_len_def]]
    by (cases "tg_codec t") (simp_all add: p new_comment_packet_def comment_prefix_def comment_prefix_len_def framing_len_def
        VORBIS_COMMENT_PREFIX_def OPUS_TAGS_def)
  then show ?thesis using p sum_sizes_Inr [OF n [unfolded comment_packet_len_def]] by simp
qed

section \<open>The rewritten file\<close>

definition intact :: "page \<Rightarrow> bool" where
  "intact p \<longleftrightarrow> page_shape p \<and> pg_checksum p = page_crc p"

definition rewritten :: "target \<Rightarrow> nat \<Rightarrow> u8 list \<Rightarrow> page list \<Rightarrow> page list \<Rightarrow> bool" where
  "rewritten t eos packet fs out \<longleftrightarrow> (\<forall>p \<in> set out. intact p) \<and> (\<forall>k. k \<noteq> tg_serial t \<longrightarrow> own k out = own k fs)
     \<and> take (tg_bos_page t) out = take (tg_bos_page t) fs
     \<and> logical_stream (target_pages (t\<lparr>tg_eos_page := Some eos\<rparr>) out)
     \<and> target_packets (t\<lparr>tg_eos_page := Some eos\<rparr>) out = (target_packets t fs)[1 := packet]"

lemma own_member: "p \<in> set ps \<longleftrightarrow> p \<in> set (own (pg_serial p) ps)"
  by (simp add: own_def)

lemma admitted_intact: "page_admitted env p \<Longrightarrow> intact p"
  by (simp add: page_admitted_def intact_def)

lemma moved_intact: "intact p \<Longrightarrow> intact (moved k old new p)"
  by (cases "pg_serial p = k \<and> old \<noteq> new") (auto simp: moved_def intact_def renumbered_def page_shape_def)

lemma target_pages_split:
  assumes "tg_eos_page t = Some eos" and "tg_bos_page t \<le> tg_header_end_page t" and "tg_header_end_page t \<le> eos"
  shows "target_pages t fs = window_until (tg_serial t) (tg_bos_page t) (tg_header_end_page t) fs
    @ own (tg_serial t) (take (eos - tg_header_end_page t) (drop (Suc (tg_header_end_page t)) fs))"
  using assms take_add [of "Suc (tg_header_end_page t) - tg_bos_page t" "eos - tg_header_end_page t" "drop (tg_bos_page t) fs"]
  by (simp add: target_pages_def window_until_slice)

lemma unchanged_pages:
  assumes fs: "\<forall>p \<in> set fs. page_admitted env p"
    and target: "logical_stream (target_pages t fs)" "tg_eos_page t = Some eos" "tg_header_end_page t \<le> eos"
    and headers: "pages = window_until (tg_serial t) (tg_bos_page t) (tg_header_end_page t) fs" "pages \<noteq> []"
      "assemble pages = (packets, [], False)" "1 < length packets"
  shows "rewritten t eos (packets ! 1) fs fs"
proof -
  have bh: "tg_bos_page t \<le> tg_header_end_page t"
    using headers(1,2) by (cases "tg_bos_page t \<le> tg_header_end_page t") (auto simp: window_until_slice)
  have same: "t\<lparr>tg_eos_page := Some eos\<rparr> = t" using target(2) by (cases t) simp
  have "foldl add_page ([], [], False) pages = under packets ([], [], False)" using headers(3) by (simp add: assemble_def under_def)
  then obtain more_packets where "target_packets t fs = packets @ more_packets"
    unfolding target_packets_def target_pages_split [OF target(2) bh target(3)] headers(1) [symmetric]
    by (simp add: assemble_def pages_under) (simp add: under_def)
  then have "target_packets t fs = (target_packets t fs)[1 := packets ! 1]"
    using headers(4) by (simp add: list_update_append1 list_update_id)
  then show ?thesis using fs admitted_intact target(1) same by (auto simp: rewritten_def)
qed

lemma rewritten_pages:
  assumes fs: "\<forall>p \<in> set fs. page_admitted env p"
    and target: "logical_stream (target_pages t fs)" "tg_header_end_page t < length fs" "tg_eos_page t = Some eos" "tg_header_end_page t \<le> eos"
    and headers: "pages = window_until (tg_serial t) (tg_bos_page t) (tg_header_end_page t) fs" "pages \<noteq> []"
      "assemble pages = (packets, [], False)" "1 < length packets"
    and gen: "header_pages (tg_serial t) 0 ([], [], False) generated" "assemble generated = (packets[1 := packet], [], False)"
      "\<forall>p \<in> set (butlast generated). \<not> is_eos p" "generated \<noteq> [] \<longrightarrow> is_eos (last generated) = is_eos (last pages)"
    and staged: "staged t eos (word_of_nat (length pages)) (word_of_nat (length generated)) 0 fs generated = ([], out)"
  shows "\<exists>eos. rewritten t eos packet fs out"
proof -
  let ?k = "tg_serial t" and ?b = "tg_bos_page t" and ?h = "tg_header_end_page t"
  let ?f = "moved ?k (word_of_nat (length pages)) (word_of_nat (length generated))"
  define H where "H = take (Suc ?h - ?b) (drop ?b fs)"
  define B where "B = take (eos - ?h) (drop (Suc ?h) fs)"
  define C where "C = drop (Suc eos) fs"
  have pages: "pages = own ?k H" using headers(1) by (simp add: window_until_slice H_def)
  have bh: "?b \<le> ?h" using headers(2) pages by (cases "?b \<le> ?h") (auto simp: H_def)
  have gen_ok: "\<forall>p \<in> set generated. pg_serial p = ?k" and gen_shape: "\<forall>p \<in> set generated. page_shape p"
    using header_pages_members [OF gen(1)] by blast+
  obtain headers' where out: "out = take ?b fs @ headers' @ map ?f B @ C"
    and own_h: "\<And>k. own k headers' = (if k = ?k then map sealed generated else own k H)"
    using staged_whole [OF staged gen_ok bh target(4,2)] unfolding H_def B_def C_def by blast
  have ne: "generated \<noteq> []" using gen(2) headers(4) by (cases packets) (auto simp: assemble_def)
  then have h_ne: "headers' \<noteq> []" using own_h [of ?k] by auto
  have split_fs: "take (Suc eos - ?b) (drop ?b fs) = H @ B"
    using take_add [of "Suc ?h - ?b" "eos - ?h" "drop ?b fs"] bh target(4) by (simp add: H_def B_def)
  then have old: "target_pages t fs = pages @ own ?k B" using target(3) pages by (simp add: target_pages_def window_until_slice)
  let ?eos = "?b + length headers' + length B - 1"
  have b_len: "length (take ?b fs) = ?b" using bh target(2) by simp
  have s: "Suc ?eos - ?b = length headers' + length B" using h_ne by (cases headers') simp_all
  have "drop ?b out = headers' @ map ?f B @ C" unfolding out using b_len by simp
  then have "take (Suc ?eos - ?b) (drop ?b out) = headers' @ map ?f B" by (simp only: s) simp
  then have new: "target_pages (t\<lparr>tg_eos_page := Some ?eos\<rparr>) out = map sealed generated @ map ?f (own ?k B)"
    using own_h [of ?k] by (simp add: target_pages_def window_until_slice own_moved)
  have rest: "\<forall>p \<in> set (own ?k B). pg_serial p = ?k" by (simp add: own_def)
  note stream = new_stream [OF target(1) [unfolded old] headers(3,2) rest gen(1,2) ne gen(3) gen(4) [rule_format, OF ne]]
  have "logical_stream (target_pages (t\<lparr>tg_eos_page := Some ?eos\<rparr>) out)" unfolding new by (rule stream(1))
  moreover have "target_packets (t\<lparr>tg_eos_page := Some ?eos\<rparr>) out = (target_packets t fs)[1 := packet]"
    using headers(4) unfolding target_packets_def new old stream(2,3) by (simp add: under_def list_update_append1)
  moreover have "own k out = own k fs" if "k \<noteq> ?k" for k
  proof -
    have "fs = take ?b fs @ (H @ B) @ C"
      unfolding split_fs [symmetric] C_def using bh target(4) by (metis append_take_drop_id add.commute drop_drop le_SucI le_add_diff_inverse2 le_trans)
    then have "own k fs = own k (take ?b fs) @ own k H @ own k B @ own k C" by (metis append_assoc own_simps(3))
    then show ?thesis unfolding out using that own_h by (simp add: own_moved)
  qed
  moreover have "intact p" if member: "p \<in> set out" for p
  proof -
    have all: "\<And>q. q \<in> set fs \<Longrightarrow> intact q" using fs admitted_intact by blast
    have sub: "set (take ?b fs) \<subseteq> set fs" "set H \<subseteq> set fs" "set B \<subseteq> set fs" "set C \<subseteq> set fs"
      unfolding H_def B_def C_def by (meson set_take_subset set_drop_subset order_trans)+
    consider "p \<in> set (take ?b fs)" | "p \<in> set headers'" | q where "q \<in> set B" "p = ?f q" | "p \<in> set C"
      using member unfolding out by auto
    then show ?thesis
    proof cases
      case 2
      then have "p \<in> set (if pg_serial p = ?k then map sealed generated else own (pg_serial p) H)"
        using own_member [of p headers'] own_h by simp
      then show ?thesis using all sub(2) gen_shape by (auto simp: own_def intact_def split: if_splits)
    qed (use all sub moved_intact in blast)+
  qed
  moreover have "take ?b out = take ?b fs" unfolding out using b_len by simp
  ultimately show ?thesis unfolding rewritten_def by blast
qed

lemma rewrite_scanned_pages:
  assumes "rewrite_scanned env limits t body (concat (map page_bytes fs)) = Inr result"
    and fs: "\<forall>p \<in> set fs. page_admitted env p"
    and target: "logical_stream (target_pages t fs)" "tg_header_end_page t < length fs"
      "\<forall>n. tg_eos_page t = Some n \<longrightarrow> tg_header_end_page t \<le> n"
  shows "length (new_comment_packet t body) < 2 ^ 64
    \<and> (\<exists>out eos. result = concat (map page_bytes out) \<and> rewritten t eos (new_comment_packet t body) fs out)"
proof -
  let ?stream = "concat (map page_bytes fs)"
  obtain eos serialized pages retained packets capacities had_eos replacement bytes_after retained' where
      eos: "tg_eos_page t = Some eos"
    and pages: "collect_header_pages env limits t serialized ?stream = Inr pages"
    and extracted: "extract_header_packets env limits pages t retained = Inr (packets, capacities, had_eos)"
    and replacement: "build_comment_packet env limits t body = Inr replacement" and many: "1 < length packets"
    and go: "(if packets ! 1 = replacement then Inr ?stream
      else and_then (sum_sizes [bytes_after, retained']) (\<lambda>retained.
      and_then (paginate_headers env limits (packets[1 := replacement]) capacities (tg_serial t) had_eos retained) (\<lambda>generated.
      and_then (sum_encoded generated) (\<lambda>generated_bytes.
      and_then (check_rewrite_allocation [retained', bytes_after, generated_bytes] limits) (\<lambda>_.
      stream_rewritten_file env t eos (length capacities) generated ?stream))))) = Inr result"
    using assms(1) unfolding rewrite_scanned_def
    by (simp only: and_then_Inr_iff and_then_unit_iff split_paired_Ex prod.case ok_or_iff fail_if_iff not_le) blast
  note w = collect_header_pages_window [OF pages fs]
  note e = extract_header_packets_sound [OF extracted]
  note b = build_comment_packet_Inr [OF replacement]
  have hend: "tg_header_end_page t \<le> eos" using target(3) eos by simp
  show ?thesis
  proof (cases "packets ! 1 = replacement")
    case True
    have "rewritten t eos (packets ! 1) fs fs"
      by (rule unchanged_pages [OF fs target(1) eos hend]) (use w e many in auto)
    then show ?thesis using True go b by auto
  next
    case False
    then obtain generated kept where g: "paginate_headers env limits (packets[1 := replacement]) capacities (tg_serial t) had_eos kept = Inr generated"
      and r: "stream_rewritten_file env t eos (length capacities) generated ?stream = Inr result"
      using go by (auto simp: and_then_Inr_iff and_then_unit_iff)
    note p = paginate_headers_correct [OF g]
    obtain left where "stage_loop env t eos (word_of_nat (length capacities)) (word_of_nat (length generated)) ?stream 0 generated = Inr ([], result)"
      using r by (auto simp: stream_rewritten_file_def and_then_Inr_iff and_then_unit_iff)
    from stage_loop_staged [OF fs this] e
    obtain out where out: "staged t eos (word_of_nat (length pages)) (word_of_nat (length generated)) 0 fs generated = ([], out)"
      "result = concat (map page_bytes out)" by auto
    have "\<exists>eos. rewritten t eos replacement fs out"
      by (rule rewritten_pages [OF fs target(1,2) eos hend _ _ _ many _ _ _ _ out(1)]) (use w e p in auto)
    then show ?thesis using out(2) b by blast
  qed
qed


section \<open>Witness\<close>

definition demo_new :: vorbis_comments where "demo_new = \<lparr>vc_vendor = ''X'', vc_items = []\<rparr>"

lemma demo_new_facts: "length (comment_bytes demo_new) = 9" "utf8_comments demo_new"
    "comments_fit demo_meta_env metadata_limits_default demo_new (charged 9 0 demo_budget)"
  by (simp_all add: demo_new_def comment_bytes_def utf8_comments_def utf8_text_def char_codes_def utf8_head_def comments_fit_def
      within_def demo_budget_def budget_of_def metadata_limits_default_def)

lemma demo_totals [simp]:
  "max_total_bytes metadata_limits_default = 67108864" "max_items metadata_limits_default = 16384"
  "max_item_bytes metadata_limits_default = 16777216"
  by (simp_all add: metadata_limits_default_def)

lemma demo_collect:
  "collect_header_pages demo_meta_env metadata_limits_default demo_found 17 (concat (map page_bytes demo_file)) = Inr demo_file"
proof -
  obtain p q where f: "demo_file = [p, q]" and l: "encoded_len p = 47" "encoded_len q = 44" "pg_serial p = 7" "pg_serial q = 7"
    by (simp add: demo_file_def encoded_len_def HEADER_LEN_def)
  have ok: "page_admitted demo_meta_env p" "page_admitted demo_meta_env q" using demo_file_admitted unfolding f by simp_all
  show ?thesis unfolding f
    using next_page_encode [OF ok(1), of "page_bytes q"] next_page_encode [OF ok(2), of "[]"] l
    by (simp add: collect_header_pages_def collect_loop.simps [of _ _ _ _ "page_bytes p @ page_bytes q"]
        collect_loop.simps [of _ _ _ _ "page_bytes q"] header_slot_def demo_found_def collect_page_def reserve_def usize_add_def)
qed

lemma demo_extract:
  "extract_header_packets demo_meta_env metadata_limits_default demo_file demo_found 108 = Inr ([demo_head, demo_tags], [1, 1], True)"
  by (simp add: demo_file_def extract_header_packets_def demo_found_def header_packets_def reserve_def extract_page_def
      extract_segment_def Let_def usize_add_def slice_get_def check_rewrite_allocation_def sum_sizes_def is_bos_def is_eos_def
      is_continued_def BOS_def EOS_def CONTINUED_def completed_packets_def)

definition demo_packet :: "u8 list" where "demo_packet = new_comment_packet demo_found (comment_bytes demo_new)"

lemma demo_packet_facts: "length demo_packet = 17" "build_comment_packet demo_meta_env metadata_limits_default demo_found (comment_bytes demo_new) = Inr demo_packet"
proof -
  show len: "length demo_packet = 17"
    by (simp add: demo_packet_def new_comment_packet_def demo_found_def comment_prefix_def opus_bytes demo_new_facts(1))
  have "comment_packet_len demo_found 9 = Inr 17"
    by (simp add: comment_packet_len_def demo_found_def comment_prefix_len_def framing_len_def sum_sizes_def usize_add_def)
  then show "build_comment_packet demo_meta_env metadata_limits_default demo_found (comment_bytes demo_new) = Inr demo_packet"
    by (simp add: build_comment_packet_def demo_new_facts(1) reserve_def demo_packet_def new_comment_packet_def)
qed

lemma demo_paginate:
  "\<exists>g h. paginate_headers demo_meta_env metadata_limits_default [demo_head, demo_packet] [1, 1] 7 True 44 = Inr [g, h]
    \<and> length (pg_lacing g) = 1 \<and> length (pg_lacing h) = 1 \<and> encoded_len g = 47 \<and> encoded_len h = 45"
proof -
  have n: "count_segments [demo_head, demo_packet] = Inr 2"
    by (simp add: count_segments_def packet_segment_count_def demo_packet_facts(1) usize_add_def)
  show ?thesis
    by (simp add: paginate_headers_def n paginate_loop_cases paginate_step_def demo_packet_facts(1)
        Let_def MAX_SEGMENTS_def reserve_def sum_sizes_def check_rewrite_allocation_def HEADER_LEN_def encoded_len_def)
qed

lemma demo_stage:
  assumes "length (pg_lacing g) = 1" and "length (pg_lacing h) = 1"
  shows "\<exists>result. stream_rewritten_file demo_meta_env demo_found 1 (length [g, h]) [g, h] (concat (map page_bytes demo_file)) = Inr result"
proof -
  obtain p q where f: "demo_file = [p, q]" and l: "pg_serial p = 7" "pg_serial q = 7"
    by (simp add: demo_file_def)
  have ok: "page_admitted demo_meta_env p" "page_admitted demo_meta_env q" using demo_file_admitted unfolding f by simp_all
  have w: "\<exists>bytes. write_recomputed r = Inr bytes" if "length (pg_lacing r) = 1" for r
    using that by (simp add: write_recomputed_def calculated_checksum_def page_header_def write_with_checksum_def)
  obtain bg bh where "write_recomputed g = Inr bg" "write_recomputed h = Inr bh" using w assms by blast
  then show ?thesis unfolding f
    using next_page_encode [OF ok(1), of "page_bytes q"] next_page_encode [OF ok(2), of "[]"] l
    by (simp add: stream_rewritten_file_def stage_loop.simps [of _ _ _ _ _ "page_bytes p @ page_bytes q"]
        stage_loop.simps [of _ _ _ _ _ "page_bytes q"] stage_loop.simps [of _ _ _ _ _ "[]"] next_page_def read_capture_def
        stage_page_def header_slot_def demo_found_def usize_add_def)
qed

lemma demo_rewrite: "\<exists>result. rewrite demo_meta_env metadata_limits_default demo_new (concat (map page_bytes demo_file)) = Inr result"
proof -
  let ?stream = "concat (map page_bytes demo_file)" and ?body = "comment_bytes demo_new"
  obtain b where scan: "scan (rewrite_config demo_meta_env metadata_limits_default Rewrite) (budget_of metadata_limits_default) ?stream
      = Inr (Some demo_found, b)"
    using demo_scan unfolding demo_config_def demo_budget_def rewrite_config_def by blast
  have body: "serialize_comment_body demo_meta_env demo_new (budget_of metadata_limits_default) = Inr (?body, charged 9 0 demo_budget)"
    using serialize_iff [of demo_meta_env demo_new] demo_new_facts(3) by simp
  have charge: "charge_bytes (charged 9 0 demo_budget) 0 = Inr (charged 9 0 demo_budget)"
    by (simp add: charge_bytes_def check_bytes_def demo_budget_def budget_of_def usize_add_def charged_def)
  have old: "comment_body_len \<lparr>vc_vendor = [], vc_items = []\<rparr> = Inr 8"
    by (simp add: comment_body_len_def sum_sizes_def usize_add_def)
  have lens: "comment_packet_len demo_found 8 = Inr 16" "comment_packet_len demo_found 9 = Inr 17"
    by (simp_all add: comment_packet_len_def demo_found_def comment_prefix_len_def framing_len_def sum_sizes_def usize_add_def)
  have size: "sum_encoded demo_file = Inr 91"
    by (simp add: sum_encoded_def demo_file_def encoded_len_def HEADER_LEN_def sum_sizes_def usize_add_def)
  obtain g h where gh: "paginate_headers demo_meta_env metadata_limits_default [demo_head, demo_packet] [1, 1] 7 True 44 = Inr [g, h]"
    "length (pg_lacing g) = 1" "length (pg_lacing h) = 1" "encoded_len g = 47" "encoded_len h = 45" using demo_paginate by blast
  obtain result where result: "stream_rewritten_file demo_meta_env demo_found 1 (length [g, h]) [g, h] ?stream = Inr result"
    using demo_stage [OF gh(2,3)] by blast
  have found: "tg_eos_page demo_found = Some 1" "tg_comments demo_found = Some \<lparr>vc_vendor = [], vc_items = []\<rparr>" "tg_tail demo_found = []"
      "tg_serial demo_found = 7" "\<not> tg_shares_header_page_with_audio demo_found"
    by (simp_all add: demo_found_def)
  have gen: "sum_encoded [g, h] = Inr 92" using gh(4,5) by (simp add: sum_encoded_def sum_sizes_def usize_add_def)
  have "demo_tags \<noteq> demo_packet" using demo_packet_facts(1) by (metis demo_lengths(2) numeral_eq_iff semiring_norm)
  then have "rewrite_scanned demo_meta_env metadata_limits_default demo_found ?body ?stream = Inr result"
    using old lens size gh result found demo_collect demo_extract demo_packet_facts gen
    by (simp add: rewrite_scanned_def demo_new_facts(1) sum_sizes_def usize_add_def check_rewrite_allocation_def)
  moreover have "is_ogg ?stream"
    by (simp add: is_ogg_def demo_file_def page_bytes_def header_bytes_def CAPTURE_def)
  ultimately show ?thesis using scan body charge found by (simp add: rewrite_def)
qed


end
