(* ===== verification/Flac_Metadata.thy ===== *)
theory Flac_Metadata
  imports Vorbis_Comments
begin

text \<open>
  The metadata of a FLAC file (\<open>src/src/metadata/flac.rs\<close>) and the picture block of
  \<open>src/src/metadata.rs\<close>: the scan of the block headers, the plan of a rewrite with its padding, and
  the rewriting of the file. A file is its bytes; offsets and lengths are naturals, with the checked
  sums of the code written out (\<open>usize_add\<close> for \<open>u64\<close> and \<open>usize\<close>). Seeking, the scratch file and
  flushing are taken to succeed; a read past the end is \<open>FlacShortRead\<close>.
\<close>

section \<open>Errors and data\<close>

datatype flac_error =
    FlacMetadata metadata_error
  | FlacShortRead | NotFlac
  | FlacBlockLimit | FlacOffsetOverflow | FlacHeaderTruncated | FlacReservedType | FlacBlockBytesLimit
  | FlacStreamInfoFirst | FlacStreamInfoLength | FlacSecondStreamInfo | FlacApplicationShort
  | FlacRangeOverflow | FlacBodyTruncated | FlacSecondComments
  | FlacPictureItems | FlacPictureCountOverflow | FlacOutputBlockLimit | FlacOutputBlockSize | FlacOutputBlockBytes
  | FlacPictureTooLarge | FlacPictureSizeOverflow | FlacPictureLength
  | FlacTargetCountOverflow | FlacBlockCountOverflow | FlacCountUnderflow | FlacNoStreamInfo | FlacPlanInconsistent
  | FlacPaddingOverflow | FlacPaddingReduction | FlacPaddingOverLimit | FlacPaddingCapacityOverflow
  | FlacPaddingLengthOverflow | FlacPaddingTooLong
  | FlacCommentLength | FlacMetadataLengthOverflow | FlacAudioMoved | FlacSuffixRange
  | FlacPictureIndex | FlacWriterInconsistent

definition FLAC_MARKER :: "u8 list" where "FLAC_MARKER = [0x66, 0x4c, 0x61, 0x43]"
definition STREAMINFO :: u8 where "STREAMINFO = 0"
definition PADDING :: u8 where "PADDING = 1"
definition APPLICATION :: u8 where "APPLICATION = 2"
definition VORBIS_COMMENT :: u8 where "VORBIS_COMMENT = 4"
definition PICTURE :: u8 where "PICTURE = 6"
definition RESERVED :: u8 where "RESERVED = 127"
definition STREAMINFO_BYTES :: nat where "STREAMINFO_BYTES = 34"
definition MAX_BLOCK_BYTES :: nat where "MAX_BLOCK_BYTES = 0xffffff"
definition COPY_BUFFER_BYTES :: nat where "COPY_BUFFER_BYTES = 8 * 1024"

lemmas block_types = STREAMINFO_def PADDING_def APPLICATION_def VORBIS_COMMENT_def PICTURE_def RESERVED_def

record block_descriptor =
  bd_type :: u8
  bd_offset :: nat
  bd_len :: nat

record flac_layout =
  ly_blocks :: "block_descriptor list"
  ly_comments :: "vorbis_comments option"
  ly_audio_offset :: nat
  ly_file_len :: nat

section \<open>Pictures\<close>

text \<open>What the code reads of a \<open>Picture\<close> and a \<open>PictureInformation\<close> of the \<open>lofty\<close> crate.\<close>

record picture =
  pic_type :: u8
  pic_mime :: "string option"
  pic_description :: "string option"
  pic_data :: "u8 list"
  pic_width :: u32
  pic_height :: u32
  pic_color_depth :: u32
  pic_num_colors :: u32

definition text_or_empty :: "string option \<Rightarrow> string" where
  "text_or_empty t = (case t of None \<Rightarrow> [] | Some s \<Rightarrow> s)"

definition picture_block_len :: "picture \<Rightarrow> flac_error + nat" where
  "picture_block_len p =
    (let mime = text_or_empty (pic_mime p); description = text_or_empty (pic_description p) in
     and_then (fail_if (2 ^ 32 \<le> length mime) FlacPictureTooLarge) (\<lambda>_.
     and_then (fail_if (2 ^ 32 \<le> length description) FlacPictureTooLarge) (\<lambda>_.
     and_then (fail_if (2 ^ 32 \<le> length (pic_data p)) FlacPictureTooLarge) (\<lambda>_.
     ok_or (Option.bind (Option.bind (usize_add 32 (length mime)) (\<lambda>size. usize_add size (length description)))
       (\<lambda>size. usize_add size (length (pic_data p)))) FlacPictureSizeOverflow))))"

definition write_picture_block :: "picture \<Rightarrow> flac_error + u8 list" where
  "write_picture_block p =
    (let mime = text_or_empty (pic_mime p); description = text_or_empty (pic_description p) in
     and_then (picture_block_len p) (\<lambda>_.
     and_then (fail_if (2 ^ 32 \<le> length mime) FlacPictureTooLarge) (\<lambda>_.
     and_then (fail_if (2 ^ 32 \<le> length description) FlacPictureTooLarge) (\<lambda>_.
     and_then (fail_if (2 ^ 32 \<le> length (pic_data p)) FlacPictureTooLarge) (\<lambda>_.
     Inr (to_be 4 (ucast (pic_type p) :: u32)
       @ to_be 4 (word_of_nat (length mime) :: u32) @ as_bytes mime
       @ to_be 4 (word_of_nat (length description) :: u32) @ as_bytes description
       @ to_be 4 (pic_width p) @ to_be 4 (pic_height p) @ to_be 4 (pic_color_depth p) @ to_be 4 (pic_num_colors p)
       @ to_be 4 (word_of_nat (length (pic_data p)) :: u32) @ pic_data p))))))"

section \<open>Scanning\<close>

definition read_body :: "meta_env \<Rightarrow> u8 list \<Rightarrow> nat \<Rightarrow> nat \<Rightarrow> flac_error + u8 list" where
  "read_body env file offset n =
    and_then (map_err FlacMetadata (reserve env n)) (\<lambda>_.
    ok_or (slice_get file offset (offset + n)) FlacShortRead)"

record flac_scan_state =
  fs_blocks :: "block_descriptor list"
  fs_comments :: "vorbis_comments option"
  fs_offset :: nat
  fs_budget :: metadata_budget

definition check_block_header :: "metadata_limits \<Rightarrow> nat \<Rightarrow> u8 \<Rightarrow> nat \<Rightarrow> flac_error + unit" where
  "check_block_header limits i block_type body_len =
    and_then (fail_if (block_type = RESERVED) FlacReservedType) (\<lambda>_.
    and_then (fail_if (max_flac_block_bytes limits < body_len) FlacBlockBytesLimit) (\<lambda>_.
    and_then
      (if i = 0 then
         and_then (fail_if (block_type \<noteq> STREAMINFO) FlacStreamInfoFirst) (\<lambda>_.
         fail_if (body_len \<noteq> STREAMINFO_BYTES) FlacStreamInfoLength)
       else fail_if (block_type = STREAMINFO) FlacSecondStreamInfo) (\<lambda>_.
    fail_if (block_type = APPLICATION \<and> body_len < 4) FlacApplicationShort)))"

definition inspect_block ::
  "meta_env \<Rightarrow> u8 list \<Rightarrow> u8 \<Rightarrow> nat \<Rightarrow> nat \<Rightarrow> vorbis_comments option \<times> metadata_budget
     \<Rightarrow> flac_error + vorbis_comments option \<times> metadata_budget" where
  "inspect_block env file block_type body_offset body_len state =
    (case state of (comments, b) \<Rightarrow>
     if block_type = VORBIS_COMMENT then
       and_then (fail_if (comments \<noteq> None) FlacSecondComments) (\<lambda>_.
       and_then (map_err FlacMetadata (check_bytes b body_len)) (\<lambda>_.
       and_then (read_body env file body_offset body_len) (\<lambda>body.
       and_then (map_err FlacMetadata (parse_comment_body env body b)) (\<lambda>(parsed, b).
       Inr (Some parsed, b)))))
     else if block_type = PICTURE then
       and_then (map_err FlacMetadata (check_item b body_len)) (\<lambda>b.
       and_then (map_err FlacMetadata (charge_bytes b body_len)) (\<lambda>b.
       Inr (comments, b)))
     else Inr (comments, b))"

text \<open>The descriptors start with room for up to 16 and grow one reservation at a time.\<close>

definition scan_block ::
  "meta_env \<Rightarrow> metadata_limits \<Rightarrow> u8 list \<Rightarrow> flac_scan_state \<Rightarrow> flac_error + bool \<times> flac_scan_state" where
  "scan_block env limits file s =
    (let i = length (fs_blocks s) in
     and_then (fail_if (max_flac_blocks limits \<le> i) FlacBlockLimit) (\<lambda>_.
     and_then (ok_or (usize_add (fs_offset s) 4) FlacOffsetOverflow) (\<lambda>header_end.
     and_then (fail_if (length file < header_end) FlacHeaderTruncated) (\<lambda>_.
     and_then (ok_or (slice_get file (fs_offset s) header_end) FlacShortRead) (\<lambda>header.
     let is_last = header ! 0 AND 0x80 \<noteq> 0;
         block_type = header ! 0 AND 0x7f;
         body_len = unat (of_be [0, header ! 1, header ! 2, header ! 3] :: u32) in
     and_then (check_block_header limits i block_type body_len) (\<lambda>_.
     and_then (ok_or (usize_add header_end body_len) FlacRangeOverflow) (\<lambda>body_end.
     and_then (fail_if (length file < body_end) FlacBodyTruncated) (\<lambda>_.
     and_then (inspect_block env file block_type header_end body_len (fs_comments s, fs_budget s)) (\<lambda>(comments, b).
     and_then (if i < min (max_flac_blocks limits) 16 then Inr () else map_err FlacMetadata (reserve env 1)) (\<lambda>_.
     Inr (is_last, s\<lparr>fs_blocks := fs_blocks s @ [\<lparr>bd_type = block_type, bd_offset = header_end, bd_len = body_len\<rparr>],
       fs_comments := comments, fs_offset := body_end, fs_budget := b\<rparr>)))))))))))"

lemma scan_block_count:
  "scan_block env limits file s = Inr (l, s') \<Longrightarrow>
    length (fs_blocks s') = Suc (length (fs_blocks s)) \<and> length (fs_blocks s) < max_flac_blocks limits"
  by (auto simp: scan_block_def Let_def and_then_Inr_iff)

text \<open>The loop over the blocks, up to the block that is marked as the last.\<close>

function scan_blocks ::
  "meta_env \<Rightarrow> metadata_limits \<Rightarrow> u8 list \<Rightarrow> flac_scan_state \<Rightarrow> flac_error + flac_scan_state" where
  "scan_blocks env limits file s =
    and_then (scan_block env limits file s) (\<lambda>(is_last, s').
    if is_last then Inr s' else scan_blocks env limits file s')"
  by pat_completeness auto

termination
  by (relation "measure (\<lambda>(env, limits, file, s). max_flac_blocks limits - length (fs_blocks s))")
    (auto dest: scan_block_count)

declare scan_blocks.simps [simp del]

definition flac_scan ::
  "meta_env \<Rightarrow> metadata_limits \<Rightarrow> u8 list \<Rightarrow> metadata_budget \<Rightarrow> flac_error + flac_layout option \<times> metadata_budget" where
  "flac_scan env limits file b =
    (if take 4 file \<noteq> FLAC_MARKER then Inr (None, b)
     else
       and_then (map_err FlacMetadata (reserve env (min (max_flac_blocks limits) 16))) (\<lambda>_.
       and_then (scan_blocks env limits file \<lparr>fs_blocks = [], fs_comments = None, fs_offset = 4, fs_budget = b\<rparr>) (\<lambda>s.
       Inr (Some \<lparr>ly_blocks = fs_blocks s, ly_comments = fs_comments s, ly_audio_offset = fs_offset s,
         ly_file_len = length file\<rparr>, fs_budget s))))"

definition flac_read_file ::
  "meta_env \<Rightarrow> metadata_limits \<Rightarrow> u8 list \<Rightarrow> metadata_budget \<Rightarrow> flac_error + vorbis_comments option \<times> metadata_budget" where
  "flac_read_file env limits file b =
    and_then (flac_scan env limits file b) (\<lambda>(found, b). Inr (Option.bind found ly_comments, b))"

definition flac_validate :: "meta_env \<Rightarrow> metadata_limits \<Rightarrow> u8 list \<Rightarrow> flac_error + unit" where
  "flac_validate env limits file =
    and_then (flac_scan env limits file (budget_of limits)) (\<lambda>(found, _). fail_if (found = None) NotFlac)"

section \<open>Planning a rewrite\<close>

datatype planned_body =
    CopyBody nat nat
  | CommentBody "u8 list"
  | PictureBody nat nat
  | PaddingBody nat nat nat

record planned_block =
  pb_type :: u8
  pb_body :: planned_body

definition body_size :: "planned_body \<Rightarrow> flac_error + nat" where
  "body_size body = (case body of
      CopyBody offset len \<Rightarrow> Inr len
    | CommentBody bytes \<Rightarrow> and_then (fail_if (2 ^ 32 \<le> length bytes) FlacCommentLength) (\<lambda>_. Inr (length bytes))
    | PictureBody i len \<Rightarrow> Inr len
    | PaddingBody offset original_len output_len \<Rightarrow> Inr output_len)"

definition replaced_type :: "u8 \<Rightarrow> bool" where
  "replaced_type t \<longleftrightarrow> t = VORBIS_COMMENT \<or> t = PICTURE"

definition planned_of :: "block_descriptor \<Rightarrow> planned_block" where
  "planned_of d = \<lparr>pb_type = bd_type d,
     pb_body = if bd_type d = PADDING then PaddingBody (bd_offset d) (bd_len d) (bd_len d)
       else CopyBody (bd_offset d) (bd_len d)\<rparr>"

text \<open>The blocks that are kept, and how many padding blocks were left out.\<close>

fun plan_kept :: "nat \<Rightarrow> nat \<Rightarrow> block_descriptor list \<Rightarrow> planned_block list \<times> nat" where
  "plan_kept to_remove removed [] = ([], removed)"
| "plan_kept to_remove removed (d # ds) =
    (if replaced_type (bd_type d) then plan_kept to_remove removed ds
     else if bd_type d = PADDING \<and> removed < to_remove then plan_kept to_remove (removed + 1) ds
     else case plan_kept to_remove removed ds of (plan, removed) \<Rightarrow> (planned_of d # plan, removed))"

definition plan_pictures :: "nat list \<Rightarrow> planned_block list" where
  "plan_pictures lens = map (\<lambda>(i, len). \<lparr>pb_type = PICTURE, pb_body = PictureBody i len\<rparr>) (enumerate 0 lens)"

definition build_plan ::
  "meta_env \<Rightarrow> block_descriptor list \<Rightarrow> u8 list \<Rightarrow> nat list \<Rightarrow> metadata_limits \<Rightarrow> flac_error + planned_block list" where
  "build_plan env blocks comment picture_lengths limits =
    (let retained_count = length (filter (\<lambda>d. \<not> replaced_type (bd_type d)) blocks) in
     and_then (ok_or (usize_add (length picture_lengths) 1) FlacTargetCountOverflow) (\<lambda>target_count.
     and_then (ok_or (usize_add retained_count target_count) FlacBlockCountOverflow) (\<lambda>unadjusted_count.
     let padding_to_remove = unadjusted_count - max_flac_blocks limits;
         available_padding = length (filter (\<lambda>d. bd_type d = PADDING) blocks) in
     and_then (fail_if (available_padding < padding_to_remove) FlacOutputBlockLimit) (\<lambda>_.
     and_then (fail_if (unadjusted_count < padding_to_remove) FlacCountUnderflow) (\<lambda>_.
     let requested_capacity = unadjusted_count - padding_to_remove in
     and_then (map_err FlacMetadata (reserve env requested_capacity)) (\<lambda>_.
     and_then (fail_if (blocks = []) FlacNoStreamInfo) (\<lambda>_.
     let streaminfo = hd blocks;
         (kept, removed_padding) = plan_kept padding_to_remove 0 (drop 1 blocks);
         plan = [\<lparr>pb_type = STREAMINFO, pb_body = CopyBody (bd_offset streaminfo) (bd_len streaminfo)\<rparr>,
             \<lparr>pb_type = VORBIS_COMMENT, pb_body = CommentBody comment\<rparr>] @ plan_pictures picture_lengths @ kept in
     and_then (fail_if (removed_padding \<noteq> padding_to_remove \<or> length plan \<noteq> requested_capacity) FlacPlanInconsistent) (\<lambda>_.
     Inr plan))))))))"

definition add_block_len :: "nat \<Rightarrow> planned_block \<Rightarrow> flac_error + nat" where
  "add_block_len so_far block =
    and_then (body_size (pb_body block)) (\<lambda>body_len.
    ok_or (Option.bind (usize_add so_far 4) (\<lambda>n. usize_add n body_len)) FlacMetadataLengthOverflow)"

definition plan_metadata_len :: "planned_block list \<Rightarrow> flac_error + nat" where
  "plan_metadata_len plan = try_fold add_block_len 4 plan"

text \<open>The padding of a plan and what could be added to it.\<close>

definition add_padding :: "nat \<Rightarrow> planned_block \<Rightarrow> flac_error + nat" where
  "add_padding so_far block =
    ok_or (usize_add so_far (case pb_body block of PaddingBody _ _ output_len \<Rightarrow> output_len | _ \<Rightarrow> 0)) FlacPaddingOverflow"

definition padding_capacity :: "nat \<Rightarrow> planned_block \<Rightarrow> flac_error + nat" where
  "padding_capacity maximum_len block = (case pb_body block of
      PaddingBody _ _ output_len \<Rightarrow>
        and_then (fail_if (maximum_len < output_len) FlacPaddingOverLimit) (\<lambda>_. Inr (maximum_len - output_len))
    | _ \<Rightarrow> Inr 0)"

definition add_capacity :: "nat \<Rightarrow> nat \<Rightarrow> planned_block \<Rightarrow> flac_error + nat" where
  "add_capacity maximum_len so_far block =
    and_then (padding_capacity maximum_len block) (\<lambda>capacity.
    ok_or (usize_add so_far capacity) FlacPaddingCapacityOverflow)"

fun reduce_padding :: "nat \<Rightarrow> planned_block list \<Rightarrow> flac_error + planned_block list" where
  "reduce_padding remaining [] = Inr []"
| "reduce_padding remaining (block # plan) = (case pb_body block of
      PaddingBody offset original_len output_len \<Rightarrow>
        let reduction = min output_len remaining in
        and_then (fail_if (2 ^ 32 \<le> reduction) FlacPaddingReduction) (\<lambda>_.
        let block = block\<lparr>pb_body := PaddingBody offset original_len (output_len - reduction)\<rparr> in
        if remaining - reduction = 0 then Inr (block # plan)
        else and_then (reduce_padding (remaining - reduction) plan) (\<lambda>plan. Inr (block # plan)))
    | _ \<Rightarrow> and_then (reduce_padding remaining plan) (\<lambda>plan. Inr (block # plan)))"

fun extend_padding :: "nat \<Rightarrow> nat \<Rightarrow> planned_block list \<Rightarrow> flac_error + planned_block list" where
  "extend_padding maximum_len remaining [] = Inr []"
| "extend_padding maximum_len remaining (block # plan) = (case pb_body block of
      PaddingBody offset original_len output_len \<Rightarrow>
        and_then (fail_if (maximum_len < output_len) FlacPaddingOverLimit) (\<lambda>_.
        let increase = min (maximum_len - output_len) remaining in
        and_then (ok_or (usize_add output_len increase) FlacPaddingLengthOverflow) (\<lambda>increased.
        and_then (fail_if (2 ^ 32 \<le> increased) FlacPaddingTooLong) (\<lambda>_.
        let block = block\<lparr>pb_body := PaddingBody offset original_len increased\<rparr> in
        if remaining - increase = 0 then Inr (block # plan)
        else and_then (extend_padding maximum_len (remaining - increase) plan) (\<lambda>plan. Inr (block # plan)))))
    | _ \<Rightarrow> and_then (extend_padding maximum_len remaining plan) (\<lambda>plan. Inr (block # plan)))"

text \<open>The result says whether the audio keeps its offset.\<close>

definition adjust_existing_padding ::
  "planned_block list \<Rightarrow> nat \<Rightarrow> metadata_limits \<Rightarrow> flac_error + bool \<times> planned_block list" where
  "adjust_existing_padding plan target_len limits =
    and_then (plan_metadata_len plan) (\<lambda>current_len.
    if current_len = target_len then Inr (True, plan)
    else if target_len < current_len then
      let excess = current_len - target_len in
      and_then (try_fold add_padding 0 plan) (\<lambda>available.
      if available < excess then Inr (False, plan)
      else and_then (reduce_padding excess plan) (\<lambda>plan. Inr (True, plan)))
    else
      let deficit = target_len - current_len; maximum_len = min (max_flac_block_bytes limits) MAX_BLOCK_BYTES in
      and_then (try_fold (add_capacity maximum_len) 0 plan) (\<lambda>available.
      if available < deficit then Inr (False, plan)
      else and_then (extend_padding maximum_len deficit plan) (\<lambda>plan. Inr (True, plan))))"

section \<open>Rewriting\<close>

definition validate_output_block_len :: "nat \<Rightarrow> metadata_limits \<Rightarrow> flac_error + unit" where
  "validate_output_block_len len limits =
    and_then (fail_if (MAX_BLOCK_BYTES < len) FlacOutputBlockSize) (\<lambda>_.
    fail_if (max_flac_block_bytes limits < len) FlacOutputBlockBytes)"

text \<open>The next \<open>n\<close> bytes of a source, read through a buffer of 8 KiB.\<close>

function copy_exact :: "nat \<Rightarrow> u8 list \<Rightarrow> flac_error + u8 list" where
  "copy_exact remaining source =
    (if remaining = 0 then Inr []
     else let len = min remaining COPY_BUFFER_BYTES in
       and_then (read_exact FlacShortRead len source) (\<lambda>(bytes, source).
       and_then (copy_exact (remaining - len) source) (\<lambda>later. Inr (bytes @ later))))"
  by pat_completeness auto

termination by (relation "measure fst") (auto simp: COPY_BUFFER_BYTES_def)

declare copy_exact.simps [simp del]

definition copy_exact_at :: "u8 list \<Rightarrow> nat \<Rightarrow> nat \<Rightarrow> flac_error + u8 list" where
  "copy_exact_at source offset n = copy_exact n (drop offset source)"

function write_zeros :: "nat \<Rightarrow> u8 list" where
  "write_zeros remaining =
    (if remaining = 0 then []
     else let len = min remaining COPY_BUFFER_BYTES in replicate len 0 @ write_zeros (remaining - len))"
  by pat_completeness auto

termination by (relation "measure id") (auto simp: COPY_BUFFER_BYTES_def)

declare write_zeros.simps [simp del]

definition write_body :: "u8 list \<Rightarrow> picture list \<Rightarrow> planned_body \<Rightarrow> flac_error + u8 list" where
  "write_body source pictures body = (case body of
      CopyBody offset len \<Rightarrow> copy_exact_at source offset len
    | CommentBody bytes \<Rightarrow> Inr bytes
    | PictureBody i len \<Rightarrow>
        if i < length pictures then write_picture_block (pictures ! i) else Inl FlacPictureIndex
    | PaddingBody offset original_len output_len \<Rightarrow>
        let retained = min original_len output_len in
        and_then (copy_exact_at source offset retained) (\<lambda>bytes.
        Inr (bytes @ write_zeros (output_len - retained))))"

definition block_header :: "bool \<Rightarrow> u8 \<Rightarrow> nat \<Rightarrow> u8 list" where
  "block_header is_last block_type n =
    (let len = word_of_nat n :: u32 in
     [if is_last then block_type OR 0x80 else block_type, ucast (drop_bit 16 len), ucast (drop_bit 8 len), ucast len])"

fun write_blocks :: "u8 list \<Rightarrow> picture list \<Rightarrow> planned_block list \<Rightarrow> flac_error + u8 list" where
  "write_blocks source pictures [] = Inr []"
| "write_blocks source pictures (block # plan) =
    and_then (body_size (pb_body block)) (\<lambda>len.
    and_then (write_body source pictures (pb_body block)) (\<lambda>body.
    and_then (fail_if (length body \<noteq> len) FlacWriterInconsistent) (\<lambda>_.
    and_then (write_blocks source pictures plan) (\<lambda>later.
    Inr (block_header (plan = []) (pb_type block) len @ body @ later)))))"

definition write_metadata_plan :: "u8 list \<Rightarrow> picture list \<Rightarrow> planned_block list \<Rightarrow> flac_error + u8 list" where
  "write_metadata_plan source pictures plan = and_then (write_blocks source pictures plan) (\<lambda>bytes. Inr (FLAC_MARKER @ bytes))"

definition measure_picture ::
  "metadata_limits \<Rightarrow> nat list \<times> metadata_budget \<Rightarrow> picture \<Rightarrow> flac_error + nat list \<times> metadata_budget" where
  "measure_picture limits state p =
    (case state of (lens, b) \<Rightarrow>
     and_then (picture_block_len p) (\<lambda>len.
     and_then (validate_output_block_len len limits) (\<lambda>_.
     and_then (map_err FlacMetadata (check_item b len)) (\<lambda>b.
     and_then (map_err FlacMetadata (charge_bytes b len)) (\<lambda>b.
     and_then (fail_if (2 ^ 32 \<le> len) FlacPictureLength) (\<lambda>_.
     Inr (lens @ [len], b)))))))"

text \<open>The plan of a rewrite, and whether it keeps the audio where it is.\<close>

definition plan_rewrite ::
  "meta_env \<Rightarrow> metadata_limits \<Rightarrow> vorbis_comments \<Rightarrow> picture list \<Rightarrow> flac_layout \<Rightarrow> flac_error + bool \<times> planned_block list" where
  "plan_rewrite env limits comments pictures ly =
    and_then (fail_if (max_items limits < length pictures) FlacPictureItems) (\<lambda>_.
    and_then (ok_or (usize_add (length pictures) 2) FlacPictureCountOverflow) (\<lambda>minimum_blocks.
    and_then (fail_if (max_flac_blocks limits < minimum_blocks) FlacOutputBlockLimit) (\<lambda>_.
    and_then (map_err FlacMetadata (serialize_comment_body env comments (budget_of limits))) (\<lambda>(comment, b).
    and_then (validate_output_block_len (length comment) limits) (\<lambda>_.
    and_then (map_err FlacMetadata (reserve env (length pictures))) (\<lambda>_.
    and_then (try_fold (measure_picture limits) ([], b) pictures) (\<lambda>(lens, _).
    and_then (build_plan env (ly_blocks ly) comment lens limits) (\<lambda>plan.
    and_then (adjust_existing_padding plan (ly_audio_offset ly) limits) (\<lambda>(keeps, plan).
    and_then (plan_metadata_len plan) (\<lambda>planned_len.
    and_then (fail_if (keeps \<and> planned_len \<noteq> ly_audio_offset ly) FlacAudioMoved) (\<lambda>_.
    Inr (keeps, plan))))))))))))"

definition publish :: "bool \<Rightarrow> u8 list \<Rightarrow> u8 list \<Rightarrow> u8 list" where
  "publish keeps scratch file = (if keeps then scratch @ drop (length scratch) file else scratch)"

definition flac_rewrite ::
  "meta_env \<Rightarrow> metadata_limits \<Rightarrow> vorbis_comments \<Rightarrow> picture list \<Rightarrow> u8 list \<Rightarrow> flac_error + u8 list" where
  "flac_rewrite env limits comments pictures file =
    and_then (flac_scan env limits file (budget_of limits)) (\<lambda>(found, _). case found of
      None \<Rightarrow> Inr file
    | Some ly \<Rightarrow>
        and_then (plan_rewrite env limits comments pictures ly) (\<lambda>(keeps, plan).
        and_then (write_metadata_plan file pictures plan) (\<lambda>scratch.
        and_then
          (if keeps then Inr scratch
           else and_then (fail_if (ly_file_len ly < ly_audio_offset ly) FlacSuffixRange) (\<lambda>_.
             and_then (copy_exact_at file (ly_audio_offset ly) (ly_file_len ly - ly_audio_offset ly)) (\<lambda>suffix.
             Inr (scratch @ suffix)))) (\<lambda>scratch.
        Inr (publish keeps scratch file)))))"

end
