(* ===== verification/Flac_Correct.thy ===== *)
theory Flac_Correct
  imports Flac_Metadata
begin

text \<open>
  What the scan and the rewriting of a FLAC file mean (\<open>src/src/metadata/flac.rs\<close>). The specification
  is a file as a list of metadata blocks, each a type and a body, followed by the audio.
\<close>

section \<open>Files as blocks\<close>

type_synonym meta_block = "u8 \<times> u8 list"

fun blocks_bytes :: "meta_block list \<Rightarrow> u8 list" where
  "blocks_bytes [] = []"
| "blocks_bytes (b # bs) = block_header (bs = []) (fst b) (length (snd b)) @ snd b @ blocks_bytes bs"

definition flac_file :: "meta_block list \<Rightarrow> u8 list \<Rightarrow> u8 list" where
  "flac_file blocks audio = FLAC_MARKER @ blocks_bytes blocks @ audio"

fun descriptors :: "nat \<Rightarrow> meta_block list \<Rightarrow> block_descriptor list" where
  "descriptors offset [] = []"
| "descriptors offset (b # bs) =
    \<lparr>bd_type = fst b, bd_offset = offset + 4, bd_len = length (snd b)\<rparr> # descriptors (offset + 4 + length (snd b)) bs"

text \<open>What the scan asks of the first and of every later block.\<close>

definition good_block :: "metadata_limits \<Rightarrow> bool \<Rightarrow> meta_block \<Rightarrow> bool" where
  "good_block limits first b \<longleftrightarrow> fst b < 127
     \<and> length (snd b) \<le> max_flac_block_bytes limits \<and> length (snd b) \<le> MAX_BLOCK_BYTES
     \<and> (first \<longrightarrow> length (snd b) = STREAMINFO_BYTES) \<and> (fst b = STREAMINFO \<longleftrightarrow> first)
     \<and> (fst b = APPLICATION \<longrightarrow> 4 \<le> length (snd b))"

fun good_blocks :: "metadata_limits \<Rightarrow> bool \<Rightarrow> meta_block list \<Rightarrow> bool" where
  "good_blocks limits first [] \<longleftrightarrow> True"
| "good_blocks limits first (b # bs) \<longleftrightarrow> good_block limits first b \<and> good_blocks limits False bs"

definition take_block ::
  "meta_env \<Rightarrow> vorbis_comments option \<times> metadata_budget \<Rightarrow> meta_block
     \<Rightarrow> flac_error + vorbis_comments option \<times> metadata_budget" where
  "take_block env state block = inspect_block env (snd block) (fst block) 0 (length (snd block)) state"

definition room :: "meta_env \<Rightarrow> metadata_limits \<Rightarrow> nat \<Rightarrow> bool" where
  "room env limits n \<longleftrightarrow> n \<le> max_flac_blocks limits \<and> (n \<le> 16 \<or> me_reserve env 1)"

section \<open>Headers\<close>

lemma length_block_header [simp]: "length (block_header l t n) = 4"
  by (simp add: block_header_def Let_def)

lemma tail_header: "block_header l t n = (if l then t OR 0x80 else t) # tl (to_be 4 (word_of_nat n :: u32))"
  by (simp add: block_header_def Let_def to_be_def numeral_eq_Suc drop_bit_Suc)

lemma top_byte: "to_be 4 w = 0 # tl (to_be 4 w) \<longleftrightarrow> w < 0x1000000" for w :: u32
proof -
  have "to_be 4 w = 0 # tl (to_be 4 w) \<longleftrightarrow> (ucast (drop_bit 24 w) :: u8) = 0"
    by (simp add: to_be_def numeral_eq_Suc)
  also have "\<dots> \<longleftrightarrow> drop_bit 24 w = 0"
    using bit_imp_le_length [of w "24 + n" for n] by (fastforce simp: bit_eq_iff bit_simps)
  also have "\<dots> \<longleftrightarrow> w < 0x1000000"
    using unat_drop_bit_eq [of 24 w] unat_eq_zero [of "drop_bit 24 w"]
    by (simp add: word_less_nat_alt drop_bit_eq_div div_eq_0_iff del: unat_eq_zero)
  finally show ?thesis .
qed

lemma header_length:
  assumes "n \<le> MAX_BLOCK_BYTES" and "block_header l t n = h # bs"
  shows "unat (of_be (0 # bs) :: u32) = n"
proof -
  let ?w = "word_of_nat n :: u32"
  have "unat ?w = n" using assms(1) by (intro unat_word_of_nat_lt) (simp add: MAX_BLOCK_BYTES_def)
  moreover have "to_be 4 ?w = 0 # bs" 
    using top_byte [of ?w] tail_header [of l t n] calculation assms by (simp add: MAX_BLOCK_BYTES_def word_less_nat_alt)
  ultimately show ?thesis using of_be_to_be [where 'a = 32, of 4 ?w] by simp
qed

lemma length_header:
  assumes "length bs = 3"
  shows "unat (of_be (0 # bs) :: u32) \<le> MAX_BLOCK_BYTES"
    and "tl (block_header l t (unat (of_be (0 # bs) :: u32))) = bs"
proof -
  let ?w = "of_be (0 # bs) :: u32"
  have w: "to_be 4 ?w = 0 # bs" using of_be_eq_iff [where 'a = 32, of "0 # bs" 4 ?w] assms by simp
  then show "unat ?w \<le> MAX_BLOCK_BYTES" using top_byte [of ?w] by (simp add: MAX_BLOCK_BYTES_def word_less_nat_alt)
  show "tl (block_header l t (unat ?w)) = bs" using w by (simp add: tail_header)
qed

lemma seven_bits: "bit (0x7f :: u8) n \<longleftrightarrow> n < 7" "bit (0x80 :: u8) n \<longleftrightarrow> n = 7"
proof -
  have "(0x7f :: u8) = mask 7" "(0x80 :: u8) = 2 ^ 7" by (simp_all add: mask_eq_exp_minus_1)
  then show "bit (0x7f :: u8) n \<longleftrightarrow> n < 7" "bit (0x80 :: u8) n \<longleftrightarrow> n = 7"
    by (auto simp only: bit_mask_iff bit_exp_iff) auto
qed

lemma byte_bits_eqI: "(\<And>n. bit a n \<longleftrightarrow> bit b n) \<Longrightarrow> a = b" for a :: u8
  by (rule bit_eqI)

lemma high_bit: "h AND 0x80 \<noteq> 0 \<longleftrightarrow> bit h 7" for h :: u8
proof
  assume "bit h 7"
  then have "bit (h AND 0x80) 7" by (simp only: bit_and_iff seven_bits)
  then show "h AND 0x80 \<noteq> 0" by auto
next
  assume h: "h AND 0x80 \<noteq> 0"
  show "bit h 7"
  proof (rule ccontr)
    assume "\<not> bit h 7"
    then have "\<not> bit (h AND 0x80) n" for n by (simp only: bit_and_iff seven_bits) blast
    then have "h AND 0x80 = 0" by (intro byte_bits_eqI) simp
    then show False using h by simp
  qed
qed

lemma small_bits: "t < 128 \<Longrightarrow> bit t n \<Longrightarrow> n < 7" for t :: u8
proof (rule ccontr)
  assume t: "t < 128" "bit t n" "\<not> n < 7"
  then have "bit (drop_bit 7 t) (n - 7)" by (simp add: bit_simps)
  moreover have "drop_bit 7 t = 0" using t(1) by (simp add: drop_bit_eq_div word_less_nat_alt div_eq_0_iff word_arith_nat_div)
  ultimately show False by simp
qed

lemma type_bits:
  assumes "t < (128 :: u8)"
  shows "(if l then t OR 0x80 else t) AND 0x80 \<noteq> 0 \<longleftrightarrow> l"
    and "(if l then t OR 0x80 else t) AND 0x7f = t"
proof -
  note t = small_bits [OF assms]
  show "(if l then t OR 0x80 else t) AND 0x80 \<noteq> 0 \<longleftrightarrow> l"
    using t [of 7] unfolding high_bit by (cases l) (simp_all only: if_True if_False bit_or_iff seven_bits, auto)
  show "(if l then t OR 0x80 else t) AND 0x7f = t"
    using t by (intro byte_bits_eqI, cases l) (simp_all only: if_True if_False bit_and_iff bit_or_iff seven_bits, auto)
qed

lemma type_of_byte: "(if h AND 0x80 \<noteq> 0 then (h AND 0x7f) OR 0x80 else h AND 0x7f) = h" "h AND 0x7f < 128" for h :: u8
proof -
  have h: "n < 7 \<or> n = 7" if "bit h n" for n using bit_imp_le_length [OF that] by auto
  show "(if h AND 0x80 \<noteq> 0 then (h AND 0x7f) OR 0x80 else h AND 0x7f) = h"
    using h unfolding high_bit
    by (intro byte_bits_eqI, cases "bit h 7") (simp_all only: if_True if_False bit_and_iff bit_or_iff seven_bits, blast+)
  have "h AND 0x7f \<le> 0x7f" by (rule word_and_le1)
  then show "h AND 0x7f < 128" by (simp add: word_le_nat_alt word_less_nat_alt)
qed

section \<open>The scan\<close>

lemma slice_at: "slice_get file offset (offset + length ys) = Some ys
    \<longleftrightarrow> (\<exists>rest. drop offset file = ys @ rest \<and> offset + length ys \<le> length file)"
  by (auto simp: slice_get_Some_iff) (metis append_take_drop_id)

lemma inspect_block_at:
  assumes "drop offset file = body @ rest" and "offset + length body \<le> length file"
  shows "inspect_block env file t offset (length body) state = take_block env state (t, body)"
proof -
  have "slice_get file offset (offset + length body) = Some body" using assms slice_at by blast
  moreover have "slice_get body 0 (length body) = Some body" by (simp add: slice_get_def)
  ultimately have "read_body env file offset (length body) = read_body env body 0 (length body)"
    by (simp add: read_body_def)
  then show ?thesis by (simp only: inspect_block_def take_block_def fst_conv snd_conv)
qed

lemma check_block_header_iff: "check_block_header limits i t n = Inr u \<longleftrightarrow> t \<noteq> 127 \<and> n \<le> max_flac_block_bytes limits
    \<and> (t = STREAMINFO \<longleftrightarrow> i = 0) \<and> (i = 0 \<longrightarrow> n = STREAMINFO_BYTES) \<and> (t = APPLICATION \<longrightarrow> 4 \<le> n)"
  by (cases "i = 0") (auto simp: check_block_header_def RESERVED_def and_then_unit_iff)

lemma below_127: "t < 128 \<Longrightarrow> t \<noteq> 127 \<Longrightarrow> t < 127" for t :: u8
  by (simp add: word_less_nat_alt word_unat_eq_iff)

definition after_block ::
  "meta_block \<Rightarrow> vorbis_comments option \<times> metadata_budget \<Rightarrow> flac_scan_state \<Rightarrow> flac_scan_state" where
  "after_block block state s =
    s\<lparr>fs_blocks := fs_blocks s @ descriptors (fs_offset s) [block], fs_comments := fst state,
      fs_offset := fs_offset s + 4 + length (snd block), fs_budget := snd state\<rparr>"

lemma room_next: "(if i < min (max_flac_blocks limits) 16 then Inr () else map_err FlacMetadata (reserve env 1)) = Inr u \<Longrightarrow>
    i < max_flac_blocks limits \<Longrightarrow> room env limits (Suc i)"
  by (auto simp: room_def reserve_def split: if_splits)

lemma scan_block_sound:
  assumes "scan_block env limits file s = Inr (l, s')"
  obtains block rest state where
    "drop (fs_offset s) file = block_header l (fst block) (length (snd block)) @ snd block @ rest"
    "good_block limits (fs_blocks s = []) block" "room env limits (Suc (length (fs_blocks s)))"
    "take_block env (fs_comments s, fs_budget s) block = Inr state" "s' = after_block block state s"
proof -
  let ?o = "fs_offset s" and ?i = "length (fs_blocks s)"
  obtain header where h: "slice_get file ?o (?o + 4) = Some header" 
    using assms by (auto simp: scan_block_def Let_def and_then_Inr_iff and_then_unit_iff)
  then obtain h0 hs where hd: "header = h0 # hs" "length hs = 3"
    using slice_get_iff [of "file" ?o 4] by (cases header) auto
  then obtain h1 h2 h3 where hs: "hs = [h1, h2, h3]" by (auto simp: numeral_eq_Suc length_Suc_conv)
  define t where "t = h0 AND 0x7f"
  define n where "n = unat (of_be (0 # hs) :: u32)"
  obtain c b where
      i: "?i < max_flac_blocks limits" and check: "check_block_header limits ?i t n = Inr ()"
      and len: "?o + 4 + n \<le> length file" and state: "inspect_block env file t (?o + 4) n (fs_comments s, fs_budget s) = Inr (c, b)"
      and room: "(if ?i < min (max_flac_blocks limits) 16 then Inr () else map_err FlacMetadata (reserve env 1)) = Inr ()"
      and l: "l = (h0 AND 0x80 \<noteq> 0)"
      and s': "s' = s\<lparr>fs_blocks := fs_blocks s @ [\<lparr>bd_type = t, bd_offset = ?o + 4, bd_len = n\<rparr>],
         fs_comments := c, fs_offset := ?o + 4 + n, fs_budget := b\<rparr>"
    using assms h unfolding t_def n_def hs
    by (auto simp: scan_block_def Let_def and_then_Inr_iff and_then_unit_iff hd hs)
  define body where "body = take n (drop (?o + 4) file)"
  have body: "length body = n" "drop (?o + 4) file = body @ drop (?o + 4 + n) file"
    using len by (auto simp: body_def) (metis add.commute append_take_drop_id drop_drop)
  have "header = block_header l t n"
    using type_of_byte(1) [of h0] length_header(2) [OF hd(2), of l t] unfolding hd(1) l t_def n_def 
    by (simp add: tail_header)
  then have "drop ?o file = block_header l t n @ body @ drop (?o + 4 + n) file"
    using h slice_get_iff [of "file" ?o 4] body(2) by auto
  moreover have "good_block limits (fs_blocks s = []) (t, body)"
    using check below_127 [OF type_of_byte(2) [of h0]] length_header(1) [OF hd(2)] body(1)
    by (auto simp: check_block_header_iff good_block_def t_def n_def)
  moreover have "take_block env (fs_comments s, fs_budget s) (t, body) = Inr (c, b)"
    using state inspect_block_at [OF body(2)] body(1) len by simp
  moreover have "s' = after_block (t, body) (c, b) s" using s' body(1) by (simp add: after_block_def)
  ultimately show ?thesis using that [of "(t, body)" _ "(c, b)"] room_next [OF room i] body(1) by simp
qed

lemma scan_block_complete:
  assumes small: "length file < 2 ^ 64"
    and bytes: "drop (fs_offset s) file = block_header l (fst block) (length (snd block)) @ snd block @ rest"
    and good: "good_block limits (fs_blocks s = []) block" and room: "room env limits (Suc (length (fs_blocks s)))"
    and state: "take_block env (fs_comments s, fs_budget s) block = Inr state"
  shows "scan_block env limits file s = Inr (l, after_block block state s)"
proof -
  let ?o = "fs_offset s" and ?i = "length (fs_blocks s)" and ?n = "length (snd block)"
  let ?h = "block_header l (fst block) ?n"
  obtain h0 hs where h: "?h = h0 # hs" by (cases ?h) (auto dest: arg_cong [of _ _ length])
  then have hs0: "length hs = 3" using length_block_header [of l "fst block" ?n] by simp
  then obtain h1 h2 h3 where hs: "hs = [h1, h2, h3]" by (auto simp: numeral_eq_Suc length_Suc_conv)
  have len: "?o + 4 + ?n \<le> length file" using arg_cong [OF bytes, of length] by simp
  have t: "fst block < 128" using good by (auto simp: good_block_def intro: less_trans)
  have h0: "h0 = (if l then fst block OR 0x80 else fst block)" using h by (simp add: tail_header)
  have n: "unat (of_be [0, h1, h2, h3] :: u32) = ?n"
    using header_length [OF _ h] good hs by (simp add: good_block_def)
  have "slice_get file ?o (?o + 4) = Some (h0 # hs)"
    using slice_at [of "file" ?o "h0 # hs"] bytes len h hs0 by simp
  moreover have "check_block_header limits ?i (fst block) ?n = Inr ()"
    using good by (auto simp: check_block_header_iff good_block_def)
  moreover have "drop (?o + 4) file = snd block @ rest"
    using arg_cong [OF bytes, of "drop 4"] by (simp add: add.commute)
  then have "inspect_block env file (fst block) (?o + 4) ?n (fs_comments s, fs_budget s) = Inr state"
    using inspect_block_at [of "?o + 4" "file" "snd block" rest] len state by simp
  moreover have "(if ?i < min (max_flac_blocks limits) 16 then Inr () else map_err FlacMetadata (reserve env 1)) = Inr ()"
    using room by (auto simp: room_def reserve_def)
  ultimately show ?thesis
    using type_bits [OF t, of l] len small room hs n
    by (cases state) (simp add: scan_block_def Let_def h0 [symmetric] room_def after_block_def Suc_le_eq)
qed

definition after_blocks ::
  "meta_block list \<Rightarrow> vorbis_comments option \<times> metadata_budget \<Rightarrow> flac_scan_state \<Rightarrow> flac_scan_state" where
  "after_blocks blocks state s =
    s\<lparr>fs_blocks := fs_blocks s @ descriptors (fs_offset s) blocks, fs_comments := fst state,
      fs_offset := fs_offset s + length (blocks_bytes blocks), fs_budget := snd state\<rparr>"

lemma after_block_fields [simp]:
  "fs_blocks (after_block block state s) \<noteq> []"
  "length (fs_blocks (after_block block state s)) = Suc (length (fs_blocks s))"
  "(fs_comments (after_block block state s), fs_budget (after_block block state s)) = state"
  "fs_offset (after_block block state s) = fs_offset s + 4 + length (snd block)"
  by (simp_all add: after_block_def)

lemma after_blocks_single: "after_block block state s = after_blocks [block] state s"
  by (simp add: after_block_def after_blocks_def add.assoc)

lemma after_blocks_Cons: "after_blocks blocks state' (after_block block state s) = after_blocks (block # blocks) state' s"
  by (simp add: after_block_def after_blocks_def add.assoc)

lemma room_mono: "room env limits (m + k) \<Longrightarrow> room env limits m"
  by (auto simp: room_def)

lemma blocks_bytes_Cons: "bs \<noteq> [] \<Longrightarrow> blocks_bytes (b # bs) = block_header False (fst b) (length (snd b)) @ snd b @ blocks_bytes bs"
  by simp

lemma scan_blocks_sound:
  "scan_blocks env limits file s = Inr t \<Longrightarrow>
    \<exists>blocks rest state. blocks \<noteq> [] \<and> drop (fs_offset s) file = blocks_bytes blocks @ rest
      \<and> good_blocks limits (fs_blocks s = []) blocks \<and> room env limits (length (fs_blocks s) + length blocks)
      \<and> try_fold (take_block env) (fs_comments s, fs_budget s) blocks = Inr state \<and> t = after_blocks blocks state s"
proof (induction env limits "file" s rule: scan_blocks.induct)
  case (1 env limits "file" s)
  from "1.prems" obtain l s' where step: "scan_block env limits file s = Inr (l, s')"
      and loop: "if l then t = s' else scan_blocks env limits file s' = Inr t"
    by (subst (asm) scan_blocks.simps) (auto simp: and_then_Inr_iff split: if_splits)
  from step obtain block rest state where b:
      "drop (fs_offset s) file = block_header l (fst block) (length (snd block)) @ snd block @ rest"
      "good_block limits (fs_blocks s = []) block" "room env limits (Suc (length (fs_blocks s)))"
      "take_block env (fs_comments s, fs_budget s) block = Inr state" "s' = after_block block state s"
    by (rule scan_block_sound)
  show ?case
  proof (cases l)
    case True
    then show ?thesis using b loop after_blocks_single
      by (intro exI [of _ "[block]"] exI [of _ rest] exI [of _ state]) simp
  next
    case False
    then obtain blocks later state' where r: "blocks \<noteq> []" "drop (fs_offset s') file = blocks_bytes blocks @ later"
        "good_blocks limits False blocks" "room env limits (Suc (length (fs_blocks s)) + length blocks)"
        "try_fold (take_block env) state blocks = Inr state'" "t = after_blocks blocks state' s'"
      using "1.IH" [OF step refl] loop b(5) by auto
    have "drop (fs_offset s') file = rest"
      using arg_cong [OF b(1), of "drop (4 + length (snd block))"] b(5) by (simp add: ac_simps)
    then show ?thesis
      using b False r
      by (intro exI [of _ "block # blocks"] exI [of _ later] exI [of _ state']) (simp add: after_blocks_Cons)
  qed
qed

lemma scan_blocks_complete:
  assumes small: "length file < 2 ^ 64"
  shows "blocks \<noteq> [] \<Longrightarrow> drop (fs_offset s) file = blocks_bytes blocks @ rest \<Longrightarrow>
    good_blocks limits (fs_blocks s = []) blocks \<Longrightarrow> room env limits (length (fs_blocks s) + length blocks) \<Longrightarrow>
    try_fold (take_block env) (fs_comments s, fs_budget s) blocks = Inr state \<Longrightarrow>
    scan_blocks env limits file s = Inr (after_blocks blocks state s)"
proof (induction blocks arbitrary: s)
  case (Cons block blocks)
  from Cons.prems(5) obtain state1 where st: "take_block env (fs_comments s, fs_budget s) block = Inr state1"
      "try_fold (take_block env) state1 blocks = Inr state"
    by (auto simp: and_then_Inr_iff)
  have bytes: "drop (fs_offset s) file
      = block_header (blocks = []) (fst block) (length (snd block)) @ snd block @ blocks_bytes blocks @ rest"
    using Cons.prems(2) by simp
  have "scan_block env limits file s = Inr (blocks = [], after_block block state1 s)"
    using scan_block_complete [OF small bytes] Cons.prems(3,4) st(1) room_mono [of env limits "Suc (length (fs_blocks s))" "length blocks"]
    by simp
  moreover have "drop (fs_offset (after_block block state1 s)) file = blocks_bytes blocks @ rest"
    using arg_cong [OF bytes, of "drop (4 + length (snd block))"] by (simp add: ac_simps)
  ultimately show ?case
    using Cons.IH [of "after_block block state1 s"] Cons.prems(3,4) st(2)
    by (subst scan_blocks.simps) (cases "blocks = []", simp_all add: after_blocks_Cons, simp add: after_blocks_single)
qed simp

definition scanned ::
  "meta_env \<Rightarrow> metadata_limits \<Rightarrow> metadata_budget \<Rightarrow> meta_block list \<Rightarrow> vorbis_comments option \<times> metadata_budget \<Rightarrow> bool" where
  "scanned env limits b blocks state \<longleftrightarrow> blocks \<noteq> [] \<and> good_blocks limits True blocks \<and> room env limits (length blocks)
     \<and> me_reserve env (min (max_flac_blocks limits) 16) \<and> try_fold (take_block env) (None, b) blocks = Inr state"

definition layout_of :: "meta_block list \<Rightarrow> vorbis_comments option \<Rightarrow> nat \<Rightarrow> flac_layout" where
  "layout_of blocks comments n = \<lparr>ly_blocks = descriptors 4 blocks, ly_comments = comments,
     ly_audio_offset = 4 + length (blocks_bytes blocks), ly_file_len = n\<rparr>"

lemma take_marker: "take 4 file = FLAC_MARKER \<longleftrightarrow> (\<exists>rest. file = FLAC_MARKER @ rest)"
proof
  assume "take 4 file = FLAC_MARKER"
  then show "\<exists>rest. file = FLAC_MARKER @ rest" using append_take_drop_id [of 4 "file"] by metis
qed (auto simp: FLAC_MARKER_def)

lemma flac_file_bytes: "file = flac_file blocks audio \<longleftrightarrow> take 4 file = FLAC_MARKER \<and> drop 4 file = blocks_bytes blocks @ audio"
proof
  assume "take 4 file = FLAC_MARKER \<and> drop 4 file = blocks_bytes blocks @ audio"
  then show "file = flac_file blocks audio" using append_take_drop_id [of 4 "file"] by (simp add: flac_file_def)
qed (simp add: flac_file_def FLAC_MARKER_def)

lemma flac_scan_sound:
  assumes "flac_scan env limits file b = Inr (Some ly, b')"
  obtains blocks audio c where "file = flac_file blocks audio" "scanned env limits b blocks (c, b')"
    "ly = layout_of blocks c (length file)"
proof -
  let ?s = "\<lparr>fs_blocks = [], fs_comments = None, fs_offset = 4, fs_budget = b\<rparr>"
  obtain t where start: "take 4 file = FLAC_MARKER" "me_reserve env (min (max_flac_blocks limits) 16)"
      "scan_blocks env limits file ?s = Inr t" "b' = fs_budget t"
      "ly = \<lparr>ly_blocks = fs_blocks t, ly_comments = fs_comments t, ly_audio_offset = fs_offset t, ly_file_len = length file\<rparr>"
    using assms by (auto simp: flac_scan_def and_then_Inr_iff reserve_def split: if_splits)
  from scan_blocks_sound [OF start(3)] obtain blocks audio state where r:
      "blocks \<noteq> []" "drop 4 file = blocks_bytes blocks @ audio" "good_blocks limits True blocks"
      "room env limits (length blocks)" "try_fold (take_block env) (None, b) blocks = Inr state" "t = after_blocks blocks state ?s"
    by auto
  have "scanned env limits b blocks (fst state, b')"
    using r start(2,4) by (cases state) (simp add: scanned_def after_blocks_def)
  moreover have "ly = layout_of blocks (fst state) (length file)"
    using r(6) start(5) by (simp add: layout_of_def after_blocks_def)
  ultimately show ?thesis using that r(2) start(1) by (auto simp: flac_file_bytes)
qed

lemma flac_scan_complete:
  assumes small: "length (flac_file blocks audio) < 2 ^ 64" and s: "scanned env limits b blocks (c, b')"
  shows "flac_scan env limits (flac_file blocks audio) b
    = Inr (Some (layout_of blocks c (length (flac_file blocks audio))), b')"
proof -
  let ?s = "\<lparr>fs_blocks = [], fs_comments = None, fs_offset = 4, fs_budget = b\<rparr>"
  have "drop 4 (flac_file blocks audio) = blocks_bytes blocks @ audio" "take 4 (flac_file blocks audio) = FLAC_MARKER"
    using flac_file_bytes [of "flac_file blocks audio" blocks audio] by simp_all
  moreover from this have "scan_blocks env limits (flac_file blocks audio) ?s = Inr (after_blocks blocks (c, b') ?s)"
    using s by (intro scan_blocks_complete [OF small]) (simp_all add: scanned_def)
  ultimately show ?thesis using s
    by (simp add: flac_scan_def reserve_def scanned_def after_blocks_def layout_of_def)
qed

section \<open>Copying\<close>

lemma list_all2_sourceD: "list_all2 P xs ys \<Longrightarrow> y \<in> set ys \<Longrightarrow> \<exists>x \<in> set xs. P x y"
  by (induction rule: list_all2_induct) auto

lemma list_all2_targetD: "list_all2 P xs ys \<Longrightarrow> x \<in> set xs \<Longrightarrow> \<exists>y \<in> set ys. P x y"
  by (induction rule: list_all2_induct) auto

lemma copy_exact_take: "copy_exact n source = (if length source < n then Inl FlacShortRead else Inr (take n source))"
proof (induction n source rule: copy_exact.induct)
  case (1 n source)
  show ?case
  proof (cases "n = 0")
    case True
    then show ?thesis by (simp add: copy_exact.simps)
  next
    case False
    define k where "k = min n COPY_BUFFER_BYTES"
    have k: "k \<le> n" by (simp add: k_def)
    have unfold: "copy_exact n source = and_then (read_exact FlacShortRead k source)
        (\<lambda>(bytes, source). and_then (copy_exact (n - k) source) (\<lambda>later. Inr (bytes @ later)))"
      using False by (subst copy_exact.simps) (simp add: Let_def k_def)
    show ?thesis
    proof (cases "length source < k")
      case True
      then show ?thesis using k unfolding unfold by (simp add: read_exact_def)
    next
      case enough: False
      have "copy_exact (n - k) (drop k source)
          = (if length (drop k source) < n - k then Inl FlacShortRead else Inr (take (n - k) (drop k source)))"
        using "1.IH" [OF False k_def, of "(take k source, drop k source)" "take k source" "drop k source"] enough by simp
      moreover have "take k source @ take (n - k) (drop k source) = take n source"
        using k by (metis le_add_diff_inverse take_add)
      moreover have "length source - k < n - k \<longleftrightarrow> length source < n" using k enough by auto
      ultimately show ?thesis using enough unfolding unfold by (simp add: read_exact_def)
    qed
  qed
qed

lemma write_zeros_replicate [simp]: "write_zeros n = replicate n 0"
proof (induction n rule: write_zeros.induct)
  case (1 n)
  let ?k = "min n COPY_BUFFER_BYTES"
  have "replicate n 0 = replicate ?k 0 @ replicate (n - ?k) (0 :: u8)"
    by (metis le_add_diff_inverse min.cobounded1 replicate_add)
  then show ?case using 1 by (subst write_zeros.simps) (simp add: Let_def)
qed

lemma copy_exact_at_prefix: "drop offset file = body @ rest \<Longrightarrow> n \<le> length body \<Longrightarrow> copy_exact_at file offset n = Inr (take n body)"
  by (simp add: copy_exact_at_def copy_exact_take)

section \<open>Plans\<close>

text \<open>A descriptor stands for a block of the file, a planned block for a block that is written.\<close>

definition holds :: "u8 list \<Rightarrow> block_descriptor \<Rightarrow> meta_block \<Rightarrow> bool" where
  "holds file d b \<longleftrightarrow> bd_type d = fst b \<and> bd_len d = length (snd b) \<and> (\<exists>rest. drop (bd_offset d) file = snd b @ rest)"

definition becomes :: "u8 list \<Rightarrow> picture list \<Rightarrow> planned_block \<Rightarrow> meta_block \<Rightarrow> bool" where
  "becomes file pictures p b \<longleftrightarrow> pb_type p = fst b \<and> body_size (pb_body p) = Inr (length (snd b))
     \<and> write_body file pictures (pb_body p) = Inr (snd b)"

lemma descriptors_hold: "drop offset file = blocks_bytes blocks @ rest \<Longrightarrow> list_all2 (holds file) (descriptors offset blocks) blocks"
proof (induction blocks arbitrary: offset)
  case (Cons b blocks)
  have "drop (offset + 4) file = snd b @ blocks_bytes blocks @ rest"
    "drop (offset + 4 + length (snd b)) file = blocks_bytes blocks @ rest"
    using arg_cong [OF Cons.prems, of "drop 4"] arg_cong [OF Cons.prems, of "drop (4 + length (snd b))"]
    by (simp_all add: ac_simps)
  then show ?case using Cons.IH [of "offset + 4 + length (snd b)"] by (simp add: holds_def)
qed simp

lemma write_blocks_iff:
  "write_blocks file pictures plan = Inr out \<longleftrightarrow> (\<exists>blocks. list_all2 (becomes file pictures) plan blocks \<and> out = blocks_bytes blocks)"
proof (induction plan arbitrary: out)
  case (Cons p plan)
  show ?case
  proof
    assume "write_blocks file pictures (p # plan) = Inr out"
    then obtain body later where b: "body_size (pb_body p) = Inr (length body)" "write_body file pictures (pb_body p) = Inr body"
        "write_blocks file pictures plan = Inr later" "out = block_header (plan = []) (pb_type p) (length body) @ body @ later"
      by (auto simp: and_then_Inr_iff)
    obtain blocks where bs: "list_all2 (becomes file pictures) plan blocks" "later = blocks_bytes blocks" using Cons.IH b(3) by blast
    then have "plan = [] \<longleftrightarrow> blocks = []" by auto
    then show "\<exists>blocks. list_all2 (becomes file pictures) (p # plan) blocks \<and> out = blocks_bytes blocks"
      using b bs by (intro exI [of _ "(pb_type p, body) # blocks"]) (simp add: becomes_def)
  next
    assume "\<exists>blocks. list_all2 (becomes file pictures) (p # plan) blocks \<and> out = blocks_bytes blocks"
    then obtain b blocks where b: "becomes file pictures p b" "list_all2 (becomes file pictures) plan blocks" "out = blocks_bytes (b # blocks)"
      by (auto simp: list_all2_Cons1)
    then have "plan = [] \<longleftrightarrow> blocks = []" "write_blocks file pictures plan = Inr (blocks_bytes blocks)" using Cons.IH by auto
    then show "write_blocks file pictures (p # plan) = Inr out" using b by (simp add: becomes_def)
  qed
qed auto

text \<open>The blocks that are kept when the first \<open>n\<close> padding blocks go.\<close>

fun keep_blocks :: "nat \<Rightarrow> meta_block list \<Rightarrow> meta_block list" where
  "keep_blocks n [] = []"
| "keep_blocks n (b # bs) =
    (if replaced_type (fst b) then keep_blocks n bs
     else if fst b = PADDING \<and> 0 < n then keep_blocks (n - 1) bs
     else b # keep_blocks n bs)"

lemma planned_becomes: "holds file d b \<Longrightarrow> length (snd b) < 2 ^ 32 \<Longrightarrow> becomes file pictures (planned_of d) b"
  by (auto simp: holds_def becomes_def planned_of_def body_size_def write_body_def copy_exact_at_prefix)

lemma plan_kept_becomes:
  assumes "list_all2 (holds file) ds bs" and "\<forall>b \<in> set bs. length (snd b) < 2 ^ 32" and "removed \<le> to_remove"
    and "plan_kept to_remove removed ds = (plan, removed')"
  shows "list_all2 (becomes file pictures) plan (keep_blocks (to_remove - removed) bs)
    \<and> removed' = min to_remove (removed + length (filter (\<lambda>d. bd_type d = PADDING) ds))
    \<and> length plan + removed' = removed + length (filter (\<lambda>d. \<not> replaced_type (bd_type d)) ds)
    \<and> (\<forall>p \<in> set plan. \<exists>d \<in> set ds. \<not> replaced_type (bd_type d) \<and> p = planned_of d)"
  using assms
proof (induction ds bs arbitrary: removed plan removed' rule: list_all2_induct)
  case (Cons d ds b bs)
  have t: "bd_type d = fst b" using Cons.hyps(1) by (simp add: holds_def)
  consider (replaced) "replaced_type (fst b)" | (padding) "\<not> replaced_type (fst b)" "fst b = PADDING" "removed < to_remove"
    | (kept) "\<not> replaced_type (fst b)" "\<not> (fst b = PADDING \<and> removed < to_remove)" by blast
  then show ?case
  proof cases
    case replaced
    then show ?thesis
      using Cons.IH [of removed plan removed'] Cons.prems t by (auto simp: replaced_type_def block_types)
  next
    case padding
    then show ?thesis
      using Cons.IH [of "removed + 1" plan removed'] Cons.prems t
      by (auto simp: min_def)
  next
    case kept
    obtain plan1 where p: "plan_kept to_remove removed ds = (plan1, removed')" "plan = planned_of d # plan1"
      using Cons.prems(3) kept t by (auto split: prod.splits)
    have "becomes file pictures (planned_of d) b" using Cons.hyps(1) Cons.prems(1) by (intro planned_becomes) auto
    then show ?thesis
      using Cons.IH [OF _ Cons.prems(2) p(1)] Cons.prems(1,2) p(2) kept t by (auto simp: min_def)
  qed
qed auto

section \<open>Padding\<close>

fun planned_size :: "planned_body \<Rightarrow> nat" where
  "planned_size (CopyBody offset len) = len"
| "planned_size (CommentBody bytes) = length bytes"
| "planned_size (PictureBody i len) = len"
| "planned_size (PaddingBody offset original_len output_len) = output_len"

fun padding_size :: "planned_body \<Rightarrow> nat" where
  "padding_size (PaddingBody offset original_len output_len) = output_len"
| "padding_size body = 0"

fun spare_size :: "nat \<Rightarrow> planned_body \<Rightarrow> nat" where
  "spare_size maximum_len (PaddingBody offset original_len output_len) = maximum_len - output_len"
| "spare_size maximum_len body = 0"

definition plan_size :: "planned_block list \<Rightarrow> nat" where
  "plan_size plan = sum_list (map (\<lambda>p. 4 + planned_size (pb_body p)) plan)"

definition padding_total :: "planned_block list \<Rightarrow> nat" where
  "padding_total plan = sum_list (map (\<lambda>p. padding_size (pb_body p)) plan)"

definition spare_total :: "nat \<Rightarrow> planned_block list \<Rightarrow> nat" where
  "spare_total maximum_len plan = sum_list (map (\<lambda>p. spare_size maximum_len (pb_body p)) plan)"

definition padding_within :: "nat \<Rightarrow> planned_block list \<Rightarrow> bool" where
  "padding_within n plan \<longleftrightarrow> (\<forall>p \<in> set plan. padding_size (pb_body p) \<le> n)"

definition sized_block :: "planned_block \<Rightarrow> bool" where
  "sized_block p \<longleftrightarrow> body_size (pb_body p) = Inr (planned_size (pb_body p))"

text \<open>The same plan with other lengths of padding.\<close>

definition repadded_block :: "planned_block \<Rightarrow> planned_block \<Rightarrow> bool" where
  "repadded_block p q \<longleftrightarrow> pb_type q = pb_type p \<and> (pb_body q = pb_body p
     \<or> (\<exists>offset original_len n n'. pb_body p = PaddingBody offset original_len n \<and> pb_body q = PaddingBody offset original_len n'))"

definition repadded :: "planned_block list \<Rightarrow> planned_block list \<Rightarrow> bool" where
  "repadded = list_all2 repadded_block"

lemma plan_sums [simp]:
  "plan_size [] = 0" "plan_size (p # plan) = 4 + planned_size (pb_body p) + plan_size plan"
  "padding_total [] = 0" "padding_total (p # plan) = padding_size (pb_body p) + padding_total plan"
  "spare_total n [] = 0" "spare_total n (p # plan) = spare_size n (pb_body p) + spare_total n plan"
  "padding_within n []" "padding_within n (p # plan) \<longleftrightarrow> padding_size (pb_body p) \<le> n \<and> padding_within n plan"
  "repadded [] []" "repadded (p # plan) (q # plan') \<longleftrightarrow> repadded_block p q \<and> repadded plan plan'"
  by (simp_all add: plan_size_def padding_total_def spare_total_def padding_within_def repadded_def)

lemma repadded_block_refl [simp]: "repadded_block p p"
  by (simp add: repadded_block_def)

lemma repadded_refl [simp]: "repadded plan plan"
  by (simp add: repadded_def list_all2_refl)

lemma repadded_length: "repadded plan q \<Longrightarrow> length q = length plan"
  by (simp add: repadded_def list_all2_lengthD)

lemma plan_len_fold: "try_fold add_block_len m plan = Inr n
    \<longleftrightarrow> (\<forall>p \<in> set plan. sized_block p) \<and> n = m + plan_size plan \<and> (plan \<noteq> [] \<longrightarrow> n < 2 ^ 64)"
proof (induction plan arbitrary: m)
  case (Cons p plan)
  have step: "add_block_len m p = Inr k \<longleftrightarrow> sized_block p \<and> k = m + 4 + planned_size (pb_body p) \<and> k < 2 ^ 64" for k
    by (cases "pb_body p")
      (auto simp: add_block_len_def and_then_Inr_iff and_then_unit_iff sized_block_def bind_eq_Some_conv body_size_def)
  show ?case by (cases "plan = []") (auto simp: and_then_Inr_iff step Cons.IH)
qed auto

lemma plan_metadata_len_iff: "plan_metadata_len plan = Inr n
    \<longleftrightarrow> (\<forall>p \<in> set plan. sized_block p) \<and> n = 4 + plan_size plan \<and> (plan \<noteq> [] \<longrightarrow> n < 2 ^ 64)"
  by (simp add: plan_metadata_len_def plan_len_fold)

lemma add_padding_fold: "try_fold add_padding m plan = Inr n \<longleftrightarrow> n = m + padding_total plan \<and> (plan \<noteq> [] \<longrightarrow> n < 2 ^ 64)"
proof (induction plan arbitrary: m)
  case (Cons p plan)
  have step: "add_padding m p = Inr k \<longleftrightarrow> k = m + padding_size (pb_body p) \<and> k < 2 ^ 64" for k
    by (cases "pb_body p") (auto simp: add_padding_def)
  show ?case by (cases "plan = []") (auto simp: and_then_Inr_iff step Cons.IH)
qed auto

lemma add_capacity_fold: "try_fold (add_capacity maximum_len) m plan = Inr n
    \<longleftrightarrow> padding_within maximum_len plan \<and> n = m + spare_total maximum_len plan \<and> (plan \<noteq> [] \<longrightarrow> n < 2 ^ 64)"
proof (induction plan arbitrary: m)
  case (Cons p plan)
  have step: "add_capacity maximum_len m p = Inr k
      \<longleftrightarrow> padding_size (pb_body p) \<le> maximum_len \<and> k = m + spare_size maximum_len (pb_body p) \<and> k < 2 ^ 64" for k
    by (cases "pb_body p") (auto simp: add_capacity_def padding_capacity_def and_then_Inr_iff)
  show ?case by (cases "plan = []") (auto simp: and_then_Inr_iff step Cons.IH)
qed auto

definition is_padding :: "planned_body \<Rightarrow> bool" where
  "is_padding body \<longleftrightarrow> (\<exists>offset original_len n. body = PaddingBody offset original_len n)"

lemma not_padding:
  assumes "\<not> is_padding (pb_body p)"
  shows "padding_size (pb_body p) = 0" "spare_size n (pb_body p) = 0"
    "reduce_padding r (p # plan) = and_then (reduce_padding r plan) (\<lambda>plan. Inr (p # plan))"
    "extend_padding n r (p # plan) = and_then (extend_padding n r plan) (\<lambda>plan. Inr (p # plan))"
  using assms by (cases "pb_body p"; simp add: is_padding_def)+

lemma reduce_padding_Inr:
  "reduce_padding r plan = Inr plan' \<Longrightarrow> r \<le> padding_total plan \<Longrightarrow>
    repadded plan plan' \<and> plan_size plan' + r = plan_size plan \<and> (\<forall>n. padding_within n plan \<longrightarrow> padding_within n plan')"
proof (induction plan arbitrary: r plan')
  case (Cons p plan)
  show ?case
  proof (cases "is_padding (pb_body p)")
    case True
    then obtain offset original_len n where b: "pb_body p = PaddingBody offset original_len n" by (auto simp: is_padding_def)
    let ?p = "p\<lparr>pb_body := PaddingBody offset original_len (n - min n r)\<rparr>"
    have "repadded_block p ?p" by (simp add: repadded_block_def b)
    moreover obtain later where l: "plan' = ?p # later"
        "if r - min n r = 0 then later = plan else reduce_padding (r - min n r) plan = Inr later"
      using Cons.prems(1) by (auto simp: b Let_def and_then_Inr_iff and_then_unit_iff split: if_splits)
    moreover have "repadded plan later \<and> plan_size later + (r - min n r) = plan_size plan
        \<and> (\<forall>n. padding_within n plan \<longrightarrow> padding_within n later)"
      using Cons.IH [of "r - min n r" later] l(2) Cons.prems(2) by (cases "r - min n r = 0") (auto simp: b)
    ultimately show ?thesis by (auto simp: b)
  next
    case False
    then show ?thesis using Cons not_padding(1,3) [OF False] by (auto simp: and_then_Inr_iff)
  qed
qed auto

lemma extend_padding_Inr:
  "extend_padding m r plan = Inr plan' \<Longrightarrow> padding_within m plan \<Longrightarrow> r \<le> spare_total m plan \<Longrightarrow>
    repadded plan plan' \<and> plan_size plan' = plan_size plan + r \<and> padding_within m plan'"
proof (induction plan arbitrary: r plan')
  case (Cons p plan)
  show ?case
  proof (cases "is_padding (pb_body p)")
    case True
    then obtain offset original_len n where b: "pb_body p = PaddingBody offset original_len n" by (auto simp: is_padding_def)
    let ?k = "min (m - n) r"
    let ?p = "p\<lparr>pb_body := PaddingBody offset original_len (n + ?k)\<rparr>"
    have "repadded_block p ?p" by (simp add: repadded_block_def b)
    moreover obtain later where l: "plan' = ?p # later"
        "if r - ?k = 0 then later = plan else extend_padding m (r - ?k) plan = Inr later"
      using Cons.prems(1) by (auto simp: b Let_def and_then_Inr_iff and_then_unit_iff split: if_splits)
    moreover have "repadded plan later \<and> plan_size later = plan_size plan + (r - ?k) \<and> padding_within m later"
      using Cons.IH [of "r - ?k" later] l(2) Cons.prems(2,3) by (cases "r - ?k = 0") (auto simp: b)
    ultimately show ?thesis using Cons.prems(2) by (auto simp: b)
  next
    case False
    then show ?thesis using Cons not_padding [OF False] by (auto simp: and_then_Inr_iff)
  qed
qed auto

lemma repadded_block_sizes:
  assumes "repadded_block p q"
  shows "planned_size (pb_body p) \<le> planned_size (pb_body q) + padding_size (pb_body p)"
    and "padding_size (pb_body q) \<le> m \<Longrightarrow> planned_size (pb_body q) \<le> planned_size (pb_body p) + spare_size m (pb_body p)"
    and "sized_block q = sized_block p"
  using assms by (auto simp: repadded_block_def sized_block_def body_size_def)

lemma repadded_sizes: "repadded plan q \<Longrightarrow> plan_size plan \<le> plan_size q + padding_total plan
    \<and> (padding_within m q \<longrightarrow> plan_size q \<le> plan_size plan + spare_total m plan)
    \<and> ((\<forall>p \<in> set q. sized_block p) \<longleftrightarrow> (\<forall>p \<in> set plan. sized_block p))"
  unfolding repadded_def
proof (induction rule: list_all2_induct)
  case (Cons p ps q qs)
  then show ?case using repadded_block_sizes [OF Cons.hyps(1)] by (fastforce simp: repadded_def)
qed simp

lemma adjust_padding_Inr:
  assumes "adjust_existing_padding plan target_len limits = Inr (keeps, plan')"
    and "plan \<noteq> []" and "target_len < 2 ^ 64"
  shows "if keeps
    then repadded plan plan' \<and> plan_metadata_len plan' = Inr target_len
      \<and> (padding_within (min (max_flac_block_bytes limits) MAX_BLOCK_BYTES) plan
          \<longrightarrow> padding_within (min (max_flac_block_bytes limits) MAX_BLOCK_BYTES) plan')
    else plan' = plan \<and> (\<forall>other. repadded plan other
          \<and> padding_within (min (max_flac_block_bytes limits) MAX_BLOCK_BYTES) other \<longrightarrow> plan_metadata_len other \<noteq> Inr target_len)"
proof -
  let ?m = "min (max_flac_block_bytes limits) MAX_BLOCK_BYTES"
  obtain current where c: "plan_metadata_len plan = Inr current" using assms(1) by (auto simp: adjust_existing_padding_def and_then_Inr_iff)
  have sized: "\<forall>p \<in> set plan. sized_block p" "current = 4 + plan_size plan" "current < 2 ^ 64"
    using c assms(2) by (auto simp: plan_metadata_len_iff)
  consider (same) "current = target_len" | (excess) "target_len < current" | (deficit) "current < target_len" by linarith
  then show ?thesis
  proof cases
    case same
    then show ?thesis using assms(1) c by (simp add: adjust_existing_padding_def)
  next
    case excess
    then obtain available where a: "try_fold add_padding 0 plan = Inr available"
        "if available < current - target_len then keeps = False \<and> plan' = plan
         else keeps \<and> reduce_padding (current - target_len) plan = Inr plan'"
      using assms(1) c by (auto simp: adjust_existing_padding_def and_then_Inr_iff Let_def split: if_splits)
    have total: "available = padding_total plan" using a(1) by (simp add: add_padding_fold)
    show ?thesis
    proof (cases "available < current - target_len")
      case True
      have "plan_metadata_len other \<noteq> Inr target_len" if "repadded plan other" for other
        using repadded_sizes [OF that, of 0] True total sized(2) by (auto simp: plan_metadata_len_iff)
      then show ?thesis using True a(2) by auto
    next
      case False
      then have r: "repadded plan plan'" "plan_size plan' + (current - target_len) = plan_size plan" "keeps"
          "\<forall>n. padding_within n plan \<longrightarrow> padding_within n plan'"
        using reduce_padding_Inr [of "current - target_len" plan plan'] a(2) total by auto
      have "target_len = 4 + plan_size plan'" using r(2) excess sized(2) by linarith
      then have "plan_metadata_len plan' = Inr target_len"
        using repadded_sizes [OF r(1)] sized(1) assms(3) by (simp add: plan_metadata_len_iff)
      then show ?thesis using r by simp
    qed
  next
    case deficit
    then obtain available where a: "try_fold (add_capacity ?m) 0 plan = Inr available"
        "if available < target_len - current then keeps = False \<and> plan' = plan
         else keeps \<and> extend_padding ?m (target_len - current) plan = Inr plan'"
      using assms(1) c by (auto simp: adjust_existing_padding_def and_then_Inr_iff Let_def split: if_splits)
    have total: "available = spare_total ?m plan" and w: "padding_within ?m plan" using a(1) by (simp_all add: add_capacity_fold)
    show ?thesis
    proof (cases "available < target_len - current")
      case True
      have "plan_metadata_len other \<noteq> Inr target_len" if "repadded plan other" "padding_within ?m other" for other
        using repadded_sizes [OF that(1), of ?m] that(2) True total sized(2) by (auto simp: plan_metadata_len_iff)
      then show ?thesis using True a(2) by auto
    next
      case False
      then have r: "repadded plan plan'" "plan_size plan' = plan_size plan + (target_len - current)" "keeps" "padding_within ?m plan'"
        using extend_padding_Inr [of ?m "target_len - current" plan plan'] a(2) total w by auto
      have "target_len = 4 + plan_size plan'" using r(2) deficit sized(2) by linarith
      then have "plan_metadata_len plan' = Inr target_len"
        using repadded_sizes [OF r(1)] sized(1) assms(3) by (simp add: plan_metadata_len_iff)
      then show ?thesis using r by simp
    qed
  qed
qed

text \<open>C17: The audio of a FLAC file stays at its place exactly when some lengths of the existing padding,
  none over the block limit, make the metadata as long as before: if the adjustment answers true,
  the new plan differs in lengths of padding only, respects the limit if the old one did, and has the target length; if
  it answers false, the plan is unchanged and no choice of lengths has the target length.\<close>

theorem padding_keeps_audio:
  assumes "adjust_existing_padding plan target_len limits = Inr (keeps, plan')"
    and "plan \<noteq> []" and "target_len < 2 ^ 64"
  shows "if keeps
    then repadded plan plan' \<and> plan_metadata_len plan' = Inr target_len
      \<and> (padding_within (min (max_flac_block_bytes limits) MAX_BLOCK_BYTES) plan
          \<longrightarrow> padding_within (min (max_flac_block_bytes limits) MAX_BLOCK_BYTES) plan')
    else plan' = plan \<and> (\<forall>other. repadded plan other
          \<and> padding_within (min (max_flac_block_bytes limits) MAX_BLOCK_BYTES) other \<longrightarrow> plan_metadata_len other \<noteq> Inr target_len)"
  using assms by (rule adjust_padding_Inr)

section \<open>The plan of a rewrite\<close>

text \<open>A kept block: the same, or padding that was cut or filled up with zeros.\<close>

definition padded :: "meta_block \<Rightarrow> meta_block \<Rightarrow> bool" where
  "padded b b' \<longleftrightarrow> b' = b \<or> fst b = PADDING \<and> fst b' = PADDING
     \<and> snd b' = take (length (snd b')) (snd b) @ replicate (length (snd b') - length (snd b)) 0"

definition fresh :: "planned_block \<Rightarrow> bool" where
  "fresh p \<longleftrightarrow> (\<forall>offset original_len n. pb_body p = PaddingBody offset original_len n \<longrightarrow> n = original_len \<and> pb_type p = PADDING)"

lemma repadded_becomes:
  assumes b: "becomes file pictures p b" and "fresh p" and "repadded_block p q"
  shows "\<exists>b'. becomes file pictures q b' \<and> padded b b' \<and> (\<not> is_padding (pb_body p) \<longrightarrow> b' = b)"
proof (cases "pb_body q = pb_body p")
  case True
  then show ?thesis using assms(3) b by (intro exI [of _ b]) (auto simp: becomes_def repadded_block_def padded_def)
next
  case False
  then obtain offset k n n' where q: "pb_body p = PaddingBody offset k n" "pb_body q = PaddingBody offset k n'" "pb_type q = pb_type p"
    using assms(3) unfolding repadded_block_def by blast
  have "n = k" "pb_type p = PADDING" using assms(2) q(1) unfolding fresh_def by blast+
  then have p: "pb_body p = PaddingBody offset n n" "pb_body q = PaddingBody offset n n'"
      "pb_type p = PADDING" "pb_type q = PADDING"
    using q by simp_all
  note b' = b [unfolded becomes_def p(1,3)]
  have body: "length (snd b) = n" "fst b = PADDING" "copy_exact_at file offset n = Inr (snd b)"
    using b' by (simp_all add: write_body_def body_size_def Let_def) metis
  have "snd b = take n (drop offset file)" "\<not> length (drop offset file) < n"
    using body(3) by (simp_all add: copy_exact_at_def copy_exact_take split: if_splits)
  then have "copy_exact_at file offset (min n n') = Inr (take n' (snd b))"
    by (simp add: copy_exact_at_def copy_exact_take min.commute)
  then have "write_body file pictures (PaddingBody offset n n') = Inr (take n' (snd b) @ replicate (n' - n) 0)"
    by (simp add: write_body_def Let_def)
  moreover have "length (take n' (snd b) @ replicate (n' - n) 0) = n'" using body(1) by simp
  ultimately show ?thesis
    using p(1,2,4) body(1,2) by (intro exI [of _ "(PADDING, take n' (snd b) @ replicate (n' - n) 0)"])
      (simp add: becomes_def body_size_def padded_def is_padding_def)
qed

lemma repadded_plan_becomes:
  "list_all2 (becomes file pictures) plan blocks \<Longrightarrow> \<forall>p \<in> set plan. fresh p \<Longrightarrow> repadded plan plan' \<Longrightarrow>
    \<exists>blocks'. list_all2 (becomes file pictures) plan' blocks' \<and> list_all2 padded blocks blocks'
      \<and> (\<forall>i < length plan. \<not> is_padding (pb_body (plan ! i)) \<longrightarrow> blocks' ! i = blocks ! i)"
proof (induction arbitrary: plan' rule: list_all2_induct)
  case (Cons p plan b blocks)
  obtain q later where q: "plan' = q # later" "repadded_block p q" "repadded plan later"
    using Cons.prems(2) by (cases plan') (auto simp: repadded_def)
  obtain blocks' where bs: "list_all2 (becomes file pictures) later blocks'" "list_all2 padded blocks blocks'"
      "\<forall>i < length plan. \<not> is_padding (pb_body (plan ! i)) \<longrightarrow> blocks' ! i = blocks ! i"
    using Cons.IH [OF _ q(3)] Cons.prems(1) by auto
  obtain b' where b': "becomes file pictures q b'" "padded b b'" "\<not> is_padding (pb_body p) \<longrightarrow> b' = b"
    using repadded_becomes [OF Cons.hyps(1) _ q(2)] Cons.prems(1) by auto
  have "\<forall>i < length (p # plan). \<not> is_padding (pb_body ((p # plan) ! i)) \<longrightarrow> (b' # blocks') ! i = (b # blocks) ! i"
    using b'(3) bs(3) by (auto simp: nth_Cons split: nat.splits)
  then show ?case using b'(1,2) bs(1,2) q(1) by (intro exI [of _ "b' # blocks'"]) auto
qed (simp add: repadded_def)

lemma planned_fresh: "fresh (planned_of d)"
  by (auto simp: fresh_def planned_of_def)

lemma write_picture_length:
  assumes "picture_block_len p = Inr n"
  shows "\<exists>body. write_picture_block p = Inr body \<and> length body = n"
  using assms by (auto simp: write_picture_block_def picture_block_len_def Let_def and_then_unit_iff bind_eq_Some_conv)

text \<open>A picture block that is written costs what the scan charges for it.\<close>

lemma measure_picture_step:
  assumes "measure_picture limits (lens, b) p = Inr (lens', b')"
  obtains body where "write_picture_block p = Inr body" "lens' = lens @ [length body]"
    "length body \<le> MAX_BLOCK_BYTES" "length body \<le> max_flac_block_bytes limits"
    "\<And>env c. take_block env (c, b) (PICTURE, body) = Inr (c, b')"
proof -
  obtain n b1 where n: "picture_block_len p = Inr n" "validate_output_block_len n limits = Inr ()" "lens' = lens @ [n]"
      "check_item b n = Inr b1" "charge_bytes b1 n = Inr b'"
    using assms by (auto simp: measure_picture_def and_then_Inr_iff)
  obtain body where body: "write_picture_block p = Inr body" "length body = n" using write_picture_length [OF n(1)] by blast
  have "take_block env (c, b) (PICTURE, body) = Inr (c, b')" for env c
    using n(4,5) body(2) by (simp add: take_block_def inspect_block_def PICTURE_def VORBIS_COMMENT_def)
  then show ?thesis using that [OF body(1)] n(2,3) body(2) by (auto simp: validate_output_block_len_def and_then_unit_iff)
qed

definition picture_blocks :: "picture list \<Rightarrow> u8 list list \<Rightarrow> bool" where
  "picture_blocks pictures bodies \<longleftrightarrow> list_all2 (\<lambda>p body. write_picture_block p = Inr body) pictures bodies"

lemma measure_pictures:
  "try_fold (measure_picture limits) (lens, b) pictures = Inr (lens', b') \<Longrightarrow>
    \<exists>bodies. picture_blocks pictures bodies \<and> lens' = lens @ map length bodies
      \<and> (\<forall>body \<in> set bodies. length body \<le> MAX_BLOCK_BYTES \<and> length body \<le> max_flac_block_bytes limits)
      \<and> (\<forall>env c. try_fold (take_block env) (c, b) (map (Pair PICTURE) bodies) = Inr (c, b'))"
proof (induction pictures arbitrary: lens b)
  case (Cons p pictures)
  obtain lens1 b1 where s: "measure_picture limits (lens, b) p = Inr (lens1, b1)"
      "try_fold (measure_picture limits) (lens1, b1) pictures = Inr (lens', b')"
    using Cons.prems by (auto simp: and_then_Inr_iff)
  obtain body where body: "write_picture_block p = Inr body" "lens1 = lens @ [length body]"
      "length body \<le> MAX_BLOCK_BYTES" "length body \<le> max_flac_block_bytes limits"
      "\<And>env c. take_block env (c, b) (PICTURE, body) = Inr (c, b1)"
    using measure_picture_step [OF s(1)] by blast
  obtain bodies where "picture_blocks pictures bodies" "lens' = lens1 @ map length bodies"
      "\<forall>body \<in> set bodies. length body \<le> MAX_BLOCK_BYTES \<and> length body \<le> max_flac_block_bytes limits"
      "\<forall>env c. try_fold (take_block env) (c, b1) (map (Pair PICTURE) bodies) = Inr (c, b')"
    using Cons.IH [OF s(2)] by blast
  then show ?case using body by (intro exI [of _ "body # bodies"]) (simp add: picture_blocks_def)
qed (simp add: picture_blocks_def)

text \<open>How many padding blocks have to go for the block limit.\<close>

definition surplus :: "metadata_limits \<Rightarrow> meta_block list \<Rightarrow> picture list \<Rightarrow> nat" where
  "surplus limits blocks pictures =
    length (filter (\<lambda>b. \<not> replaced_type (fst b)) blocks) + (length pictures + 1) - max_flac_blocks limits"

definition new_blocks :: "meta_block list \<Rightarrow> u8 list \<Rightarrow> u8 list list \<Rightarrow> meta_block list \<Rightarrow> meta_block list" where
  "new_blocks blocks comment bodies kept = hd blocks # (VORBIS_COMMENT, comment) # map (Pair PICTURE) bodies @ kept"

lemma plan_pictures_become:
  assumes "picture_blocks pictures bodies"
  shows "list_all2 (becomes file pictures) (plan_pictures (map length bodies)) (map (Pair PICTURE) bodies)"
  using assms unfolding picture_blocks_def plan_pictures_def list_all2_conv_all_nth
  by (auto simp: becomes_def body_size_def write_body_def nth_enumerate_eq length_enumerate)

lemma plan_pictures_fresh: "p \<in> set (plan_pictures lens) \<Longrightarrow> fresh p \<and> \<not> is_padding (pb_body p)"
  by (auto simp: plan_pictures_def fresh_def is_padding_def)

lemma holds_types: "list_all2 (holds file) ds blocks \<Longrightarrow>
    length (filter (\<lambda>d. P (bd_type d)) ds) = length (filter (\<lambda>b. P (fst b)) blocks)"
  by (induction rule: list_all2_induct) (auto simp: holds_def)

lemma build_plan_becomes:
  assumes plan: "build_plan env ds comment (map length bodies) limits = Inr plan"
    and ds: "list_all2 (holds file) ds blocks" and small: "\<forall>b \<in> set blocks. length (snd b) < 2 ^ 32"
    and bodies: "picture_blocks pictures bodies" and comment: "length comment < 2 ^ 32"
    and first: "blocks \<noteq> []" "fst (hd blocks) = STREAMINFO"
  shows "list_all2 (becomes file pictures) plan (new_blocks blocks comment bodies (keep_blocks (surplus limits blocks pictures) (tl blocks)))
    \<and> (\<forall>p \<in> set plan. fresh p) \<and> length plan \<le> max_flac_blocks limits
    \<and> (\<forall>i < 2 + length bodies. \<not> is_padding (pb_body (plan ! i)))"
proof -
  obtain d ds' b bs where split: "ds = d # ds'" "blocks = b # bs" "holds file d b" "list_all2 (holds file) ds' bs"
    using ds first(1) by (cases blocks) (auto simp: list_all2_Cons2)
  let ?n = "surplus limits blocks pictures"
  have len: "length bodies = length pictures" using bodies by (simp add: picture_blocks_def list_all2_lengthD)
  have count: "length (filter (\<lambda>d. \<not> replaced_type (bd_type d)) ds) = length (filter (\<lambda>b. \<not> replaced_type (fst b)) blocks)"
    using holds_types [OF ds, of "\<lambda>t. \<not> replaced_type t"] .
  have n: "length (filter (\<lambda>d. \<not> replaced_type (bd_type d)) ds) + (length (map length bodies) + 1) - max_flac_blocks limits = ?n"
    unfolding count surplus_def using len by simp
  obtain kept removed where k: "plan_kept ?n 0 ds' = (kept, removed)" by (cases "plan_kept ?n 0 ds'")
  let ?s = "\<lparr>pb_type = STREAMINFO, pb_body = CopyBody (bd_offset d) (bd_len d)\<rparr>"
  let ?c = "\<lparr>pb_type = VORBIS_COMMENT, pb_body = CommentBody comment\<rparr>"
  have shape: "plan = [?s, ?c] @ plan_pictures (map length bodies) @ kept"
    and total: "length plan = length (filter (\<lambda>d. \<not> replaced_type (bd_type d)) ds) + (length (map length bodies) + 1) - ?n"
    using plan k n unfolding split(1)
    by (auto simp: build_plan_def Let_def and_then_Inr_iff and_then_unit_iff)
  have kept: "list_all2 (becomes file pictures) kept (keep_blocks ?n bs)"
    "\<forall>p \<in> set kept. \<exists>d \<in> set ds'. \<not> replaced_type (bd_type d) \<and> p = planned_of d"
    using plan_kept_becomes [OF split(4) _ _ k] small split(2) by auto
  have "becomes file pictures ?s b"
    using split(2,3) small first by (auto simp: holds_def becomes_def body_size_def write_body_def copy_exact_at_prefix)
  moreover have "becomes file pictures ?c (VORBIS_COMMENT, comment)"
    using comment by (simp add: becomes_def body_size_def write_body_def)
  ultimately have "list_all2 (becomes file pictures) plan (new_blocks blocks comment bodies (keep_blocks ?n (tl blocks)))"
    unfolding shape new_blocks_def using split(2) kept(1) plan_pictures_become [OF bodies, of "file"]
    by (simp add: list_all2_appendI)
  moreover have "fresh p" if "p \<in> set plan" for p
    using that kept(2) planned_fresh plan_pictures_fresh unfolding shape by (fastforce simp: fresh_def [of ?s] fresh_def [of ?c])
  moreover have "length plan \<le> max_flac_blocks limits" unfolding total n [symmetric] by simp
  moreover have "\<not> is_padding (pb_body (plan ! i))" if "i < 2 + length bodies" for i
  proof -
    let ?front = "[?s, ?c] @ plan_pictures (map length bodies)"
    have "i < length ?front" using that by (simp add: plan_pictures_def length_enumerate)
    moreover from this have "plan ! i = ?front ! i" unfolding shape append_assoc [symmetric] by (rule nth_append_left)
    ultimately have "plan ! i \<in> set ?front" by (metis nth_mem)
    then show ?thesis using plan_pictures_fresh by (auto simp: is_padding_def)
  qed
  ultimately show ?thesis by blast
qed

lemma becomes_size: "becomes file pictures p b \<Longrightarrow> planned_size (pb_body p) = length (snd b) \<and> sized_block p"
  by (cases "pb_body p") (auto simp: becomes_def body_size_def sized_block_def and_then_unit_iff)

lemma blocks_bytes_size: "list_all2 (becomes file pictures) plan blocks \<Longrightarrow> length (blocks_bytes blocks) = plan_size plan"
  by (induction rule: list_all2_induct) (auto dest: becomes_size)

lemma keep_blocks_subset: "set (keep_blocks n blocks) \<subseteq> set blocks"
  by (induction n blocks rule: keep_blocks.induct) auto

lemma good_blocks_member: "good_blocks limits first blocks \<Longrightarrow> b \<in> set blocks \<Longrightarrow>
    length (snd b) \<le> min (max_flac_block_bytes limits) MAX_BLOCK_BYTES"
  by (induction blocks arbitrary: first) (auto simp: good_block_def)

lemma good_blocks_later: "good_blocks limits False blocks \<longleftrightarrow> (\<forall>b \<in> set blocks. good_block limits False b)"
  by (induction blocks) auto

lemma padded_later:
  assumes "padded b b'" and "good_block limits False b" and "length (snd b') \<le> min (max_flac_block_bytes limits) MAX_BLOCK_BYTES"
  shows "good_block limits False b'"
  using assms by (auto simp: padded_def good_block_def block_types)

lemma serialize_bytes: "serialize_comment_body env c b = Inr (bytes, b') \<Longrightarrow> bytes = comment_bytes c"
  by (auto simp: serialize_comment_body_def and_then_Inr_iff)

lemma repadded_within:
  assumes "repadded plan plan'" and "padding_within m plan'" and "\<forall>p \<in> set plan. planned_size (pb_body p) \<le> m"
  shows "\<forall>q \<in> set plan'. planned_size (pb_body q) \<le> m"
  using assms unfolding repadded_def
proof (induction rule: list_all2_induct)
  case (Cons p ps q qs)
  then show ?case by (auto simp: repadded_block_def)
qed simp

lemma padding_le_size: "padding_size body \<le> planned_size body"
  by (cases body) auto

text \<open>What a rewrite of a scanned file writes.\<close>

definition rewritten_blocks ::
  "metadata_limits \<Rightarrow> meta_block list \<Rightarrow> vorbis_comments \<Rightarrow> picture list \<Rightarrow> meta_block list \<Rightarrow> bool" where
  "rewritten_blocks limits blocks comments pictures blocks' \<longleftrightarrow>
    (\<exists>bodies kept. picture_blocks pictures bodies \<and> list_all2 padded (keep_blocks (surplus limits blocks pictures) (tl blocks)) kept
      \<and> blocks' = new_blocks blocks (comment_bytes comments) bodies kept)"

lemma new_blocks_shape:
  assumes "list_all2 padded (new_blocks blocks comment bodies keep) blocks'"
    and "\<forall>i < 2 + length bodies. blocks' ! i = new_blocks blocks comment bodies keep ! i"
  obtains kept where "blocks' = new_blocks blocks comment bodies kept" "list_all2 padded keep kept"
proof -
  let ?front = "[hd blocks, (VORBIS_COMMENT, comment)] @ map (Pair PICTURE) bodies"
  have shape: "new_blocks blocks comment bodies keep = ?front @ keep" for keep by (simp add: new_blocks_def)
  obtain us vs where split: "blocks' = us @ vs" "length us = length ?front" "list_all2 padded keep vs"
    using assms(1) unfolding shape list_all2_append1 by auto
  have "us = ?front"
  proof (rule nth_equalityI)
    fix i assume i: "i < length us"
    then have "blocks' ! i = us ! i" "(?front @ keep) ! i = ?front ! i" 
      unfolding split(1) using split(2) by (simp_all only: nth_append_left)
    moreover have "i < 2 + length bodies" using i split(2) by simp
    ultimately show "us ! i = ?front ! i" using assms(2) unfolding shape by metis
  qed (fact split(2))
  then show ?thesis using that [of vs] split shape by simp
qed

text \<open>What the scanned blocks give to the plan, and the plan before its padding is adjusted.\<close>

lemma scanned_blocks:
  assumes s: "scanned env limits b blocks (c, b')"
  shows "blocks \<noteq> []" "good_block limits True (hd blocks)" "good_blocks limits False (tl blocks)" "fst (hd blocks) = STREAMINFO"
    "\<forall>b \<in> set blocks. length (snd b) \<le> min (max_flac_block_bytes limits) MAX_BLOCK_BYTES"
    "\<forall>b \<in> set blocks. length (snd b) < 2 ^ 32"
    "list_all2 (holds (flac_file blocks audio)) (descriptors 4 blocks) blocks"
proof -
  show "blocks \<noteq> []" "good_block limits True (hd blocks)" "good_blocks limits False (tl blocks)" "fst (hd blocks) = STREAMINFO"
    using s by (cases blocks; simp add: scanned_def good_block_def)+
  have "\<forall>b \<in> set blocks. length (snd b) \<le> min (max_flac_block_bytes limits) MAX_BLOCK_BYTES"
    using good_blocks_member s unfolding scanned_def by blast
  then show "\<forall>b \<in> set blocks. length (snd b) \<le> min (max_flac_block_bytes limits) MAX_BLOCK_BYTES" "\<forall>b \<in> set blocks. length (snd b) < 2 ^ 32"
    by (auto simp: MAX_BLOCK_BYTES_def)
  show "list_all2 (holds (flac_file blocks audio)) (descriptors 4 blocks) blocks"
    using descriptors_hold flac_file_bytes [of "flac_file blocks audio" blocks audio] by blast
qed

lemma first_plan:
  assumes s: "scanned env limits b blocks (c, b')"
    and comment: "length comment \<le> min (max_flac_block_bytes limits) MAX_BLOCK_BYTES"
    and bodies: "picture_blocks pictures bodies" "\<forall>body \<in> set bodies. length body \<le> min (max_flac_block_bytes limits) MAX_BLOCK_BYTES"
    and plan: "build_plan env (descriptors 4 blocks) comment (map length bodies) limits = Inr plan"
  shows "list_all2 (becomes (flac_file blocks audio) pictures) plan
      (new_blocks blocks comment bodies (keep_blocks (surplus limits blocks pictures) (tl blocks)))"
    and "\<forall>p \<in> set plan. fresh p" and "length plan \<le> max_flac_blocks limits"
    and "\<forall>i < 2 + length bodies. \<not> is_padding (pb_body (plan ! i))"
    and "\<forall>p \<in> set plan. planned_size (pb_body p) \<le> min (max_flac_block_bytes limits) MAX_BLOCK_BYTES"
    and "\<forall>p \<in> set plan. sized_block p"
    and "padding_within (min (max_flac_block_bytes limits) MAX_BLOCK_BYTES) plan" and "plan \<noteq> []"
proof -
  let ?m = "min (max_flac_block_bytes limits) MAX_BLOCK_BYTES" and ?file = "flac_file blocks audio"
  let ?keep = "keep_blocks (surplus limits blocks pictures) (tl blocks)"
  note old = scanned_blocks [OF s]
  have "length comment < 2 ^ 32" using comment by (simp add: MAX_BLOCK_BYTES_def)
  from build_plan_becomes [OF plan old(7) old(6) bodies(1) this old(1,4)]
  have p: "list_all2 (becomes ?file pictures) plan (new_blocks blocks comment bodies ?keep)"
      "\<forall>p \<in> set plan. fresh p" "length plan \<le> max_flac_blocks limits" "\<forall>i < 2 + length bodies. \<not> is_padding (pb_body (plan ! i))"
    by blast+
  have "\<forall>b \<in> set (new_blocks blocks comment bodies ?keep). length (snd b) \<le> ?m"
    using old(1,5) bodies(2) comment keep_blocks_subset [of "surplus limits blocks pictures" "tl blocks"]
    by (auto simp: new_blocks_def dest: list.set_sel(2))
  then have sizes: "\<forall>p \<in> set plan. planned_size (pb_body p) \<le> ?m" using list_all2_targetD [OF p(1)] becomes_size by metis
  moreover have "padding_within ?m plan" using sizes padding_le_size le_trans unfolding padding_within_def by blast
  moreover have "\<forall>p \<in> set plan. sized_block p" using list_all2_targetD [OF p(1)] becomes_size by metis
  moreover have "plan \<noteq> []" using p(1) by (auto simp: new_blocks_def)
  ultimately show "list_all2 (becomes ?file pictures) plan (new_blocks blocks comment bodies ?keep)"
      "\<forall>p \<in> set plan. fresh p" "length plan \<le> max_flac_blocks limits" "\<forall>i < 2 + length bodies. \<not> is_padding (pb_body (plan ! i))"
      "\<forall>p \<in> set plan. planned_size (pb_body p) \<le> ?m" "\<forall>p \<in> set plan. sized_block p" "padding_within ?m plan" "plan \<noteq> []"
    using p by blast+
qed

lemma plan_rewrite_blocks:
  assumes s: "scanned env limits b blocks (c, b')" and small: "length (flac_file blocks audio) < 2 ^ 64"
    and plan: "plan_rewrite env limits comments pictures (layout_of blocks c n) = Inr (keeps, plan)"
  obtains blocks' b1 b2 bodies kept where
    "list_all2 (becomes (flac_file blocks audio) pictures) plan blocks'" "keeps \<Longrightarrow> length (blocks_bytes blocks') = length (blocks_bytes blocks)"
    "blocks' = new_blocks blocks (comment_bytes comments) bodies kept" "picture_blocks pictures bodies"
    "list_all2 padded (keep_blocks (surplus limits blocks pictures) (tl blocks)) kept"
    "good_blocks limits True blocks'" "length blocks' \<le> max_flac_blocks limits"
    "serialize_comment_body env comments (budget_of limits) = Inr (comment_bytes comments, b1)"
    "\<And>env c. try_fold (take_block env) (c, b1) (map (Pair PICTURE) bodies) = Inr (c, b2)"
proof -
  let ?m = "min (max_flac_block_bytes limits) MAX_BLOCK_BYTES" and ?file = "flac_file blocks audio"
  obtain comment b1 lens b2 plan0 where
      ser': "serialize_comment_body env comments (budget_of limits) = Inr (comment, b1)"
      "validate_output_block_len (length comment) limits = Inr ()"
      and pics: "try_fold (measure_picture limits) ([], b1) pictures = Inr (lens, b2)"
      and plan0': "build_plan env (descriptors 4 blocks) comment lens limits = Inr plan0"
      and adj: "adjust_existing_padding plan0 (4 + length (blocks_bytes blocks)) limits = Inr (keeps, plan)"
    using plan by (auto simp: plan_rewrite_def layout_of_def and_then_Inr_iff and_then_unit_iff)
  note ser = ser'(1) [unfolded serialize_bytes [OF ser'(1)]] and len = ser'(2) [unfolded serialize_bytes [OF ser'(1)]]
    and plan0 = plan0' [unfolded serialize_bytes [OF ser'(1)]]
  obtain bodies where bodies: "picture_blocks pictures bodies" "lens = map length bodies"
      "\<forall>body \<in> set bodies. length body \<le> ?m" "\<And>env c. try_fold (take_block env) (c, b1) (map (Pair PICTURE) bodies) = Inr (c, b2)"
    using measure_pictures [OF pics] by auto
  have comment: "length (comment_bytes comments) \<le> ?m" using len by (simp add: validate_output_block_len_def and_then_unit_iff)
  note good = scanned_blocks [OF s]
  let ?keep = "keep_blocks (surplus limits blocks pictures) (tl blocks)"
  note p0 = first_plan(1) [OF s comment bodies(1,3) plan0 [unfolded bodies(2)], of audio]
    first_plan(2-8) [OF s comment bodies(1,3) plan0 [unfolded bodies(2)]]
  have "4 + length (blocks_bytes blocks) < 2 ^ 64" using small by (simp add: flac_file_def FLAC_MARKER_def)
  from adjust_padding_Inr [OF adj p0(8) this] p0(7)
  have rep: "repadded plan0 plan" "padding_within ?m plan"
      "keeps \<Longrightarrow> plan_metadata_len plan = Inr (4 + length (blocks_bytes blocks))"
    by (auto split: if_splits)
  obtain blocks' where new: "list_all2 (becomes ?file pictures) plan blocks'"
      "list_all2 padded (new_blocks blocks (comment_bytes comments) bodies ?keep) blocks'"
      "\<forall>i < length plan0. \<not> is_padding (pb_body (plan0 ! i)) \<longrightarrow> blocks' ! i = new_blocks blocks (comment_bytes comments) bodies ?keep ! i"
    using repadded_plan_becomes [OF p0(1,2) rep(1)] by blast
  have "2 + length bodies \<le> length plan0" using list_all2_lengthD [OF p0(1)] by (simp add: new_blocks_def)
  then have "\<forall>i < 2 + length bodies. blocks' ! i = new_blocks blocks (comment_bytes comments) bodies ?keep ! i"
    using new(3) p0(4) by auto
  then obtain kept where kept: "blocks' = new_blocks blocks (comment_bytes comments) bodies kept" "list_all2 padded ?keep kept"
    using new_blocks_shape [OF new(2)] by blast
  have "\<forall>b \<in> set blocks'. length (snd b) \<le> ?m"
    using repadded_within [OF rep(1,2) p0(5)] list_all2_sourceD [OF new(1)] becomes_size by metis
  then have sizes: "\<forall>b \<in> set kept. length (snd b) \<le> ?m" unfolding kept(1) by (auto simp: new_blocks_def)
  have "good_block limits False b'" if "b' \<in> set kept" for b'
  proof -
    obtain b where b: "b \<in> set ?keep" "padded b b'" using list_all2_sourceD [OF kept(2) \<open>b' \<in> set kept\<close>] by blast
    then have "good_block limits False b" using good(3) keep_blocks_subset good_blocks_later by blast
    then show ?thesis using padded_later [OF b(2)] sizes that by blast
  qed
  then have "good_blocks limits True blocks'"
    using good(2) comment bodies(3) unfolding kept(1)
    by (auto simp: new_blocks_def good_blocks_later) (auto simp: good_block_def block_types)
  moreover have "length blocks' \<le> max_flac_blocks limits"
    using p0(3) list_all2_lengthD [OF new(1)] repadded_length [OF rep(1)] by simp
  moreover have "length (blocks_bytes blocks') = length (blocks_bytes blocks)" if keeps
    using rep(3) [OF that] blocks_bytes_size [OF new(1)] by (simp add: plan_metadata_len_iff)
  ultimately show ?thesis using that new(1) kept bodies(1,4) ser by blast
qed

section \<open>The rewritten file\<close>

lemma length_marker: "length FLAC_MARKER = 4" "drop (4 + n) (FLAC_MARKER @ bs) = drop n bs"
proof -
  show marker: "length FLAC_MARKER = 4" by (simp add: FLAC_MARKER_def)
  show "drop (4 + n) (FLAC_MARKER @ bs) = drop n bs" unfolding marker [symmetric] by simp
qed

lemma flac_rewrite_cases:
  assumes small: "length file < 2 ^ 64" and scan: "flac_scan env limits file (budget_of limits) = Inr (Some ly, b)"
    and plan: "plan_rewrite env limits comments pictures ly = Inr (keeps, plan)"
  obtains blocks audio c blocks' b1 b2 bodies kept where "file = flac_file blocks audio"
    "scanned env limits (budget_of limits) blocks (c, b)" "rewritten_blocks limits blocks comments pictures blocks'"
    "blocks' = new_blocks blocks (comment_bytes comments) bodies kept"
    "list_all2 padded (keep_blocks (surplus limits blocks pictures) (tl blocks)) kept"
    "good_blocks limits True blocks'" "length blocks' \<le> max_flac_blocks limits"
    "serialize_comment_body env comments (budget_of limits) = Inr (comment_bytes comments, b1)"
    "\<And>env c. try_fold (take_block env) (c, b1) (map (Pair PICTURE) bodies) = Inr (c, b2)"
    "flac_rewrite env limits comments pictures file = Inr (flac_file blocks' audio)"
    "keeps \<Longrightarrow> length (blocks_bytes blocks') = length (blocks_bytes blocks)"
proof -
  obtain blocks audio c where f: "file = flac_file blocks audio" "scanned env limits (budget_of limits) blocks (c, b)"
      "ly = layout_of blocks c (length file)"
    using flac_scan_sound [OF scan] .
  from plan_rewrite_blocks [OF f(2) small [unfolded f(1)] plan [unfolded f(3)]] obtain blocks' b1 b2 bodies kept where
      w: "list_all2 (becomes file pictures) plan blocks'" "keeps \<Longrightarrow> length (blocks_bytes blocks') = length (blocks_bytes blocks)"
      "blocks' = new_blocks blocks (comment_bytes comments) bodies kept" "picture_blocks pictures bodies"
      "list_all2 padded (keep_blocks (surplus limits blocks pictures) (tl blocks)) kept"
      "good_blocks limits True blocks'" "length blocks' \<le> max_flac_blocks limits"
      "serialize_comment_body env comments (budget_of limits) = Inr (comment_bytes comments, b1)"
      "\<And>env c. try_fold (take_block env) (c, b1) (map (Pair PICTURE) bodies) = Inr (c, b2)"
    unfolding f(1) by metis
  have scratch: "write_metadata_plan file pictures plan = Inr (FLAC_MARKER @ blocks_bytes blocks')"
    using w(1) by (auto simp: write_metadata_plan_def and_then_Inr_iff write_blocks_iff)
  have audio: "drop (4 + length (blocks_bytes blocks)) file = audio" and len: "length file = 4 + length (blocks_bytes blocks) + length audio"
    by (simp_all add: f(1) flac_file_def length_marker)
  have "copy_exact_at file (4 + length (blocks_bytes blocks)) (length file - (4 + length (blocks_bytes blocks))) = Inr audio"
    using audio len by (simp add: copy_exact_at_def copy_exact_take)
  moreover have "publish True (FLAC_MARKER @ blocks_bytes blocks') file = flac_file blocks' audio" if keeps
    using audio w(2) [OF that] by (simp add: publish_def flac_file_def length_marker)
  ultimately have "flac_rewrite env limits comments pictures file = Inr (flac_file blocks' audio)"
    using scan plan scratch len f(3)
    by (cases keeps) (simp_all add: flac_rewrite_def layout_of_def publish_def flac_file_def)
  then show ?thesis using that [OF f(1,2) _ w(3,5,6,7,8,9)] w(2,3,4,5) by (auto simp: rewritten_blocks_def)
qed

lemma take_others: "\<forall>b \<in> set blocks. \<not> replaced_type (fst b) \<Longrightarrow> try_fold (take_block env) state blocks = Inr state"
  by (induction blocks) (auto simp: take_block_def inspect_block_def replaced_type_def split: prod.splits)

lemma keep_blocks_types: "b \<in> set (keep_blocks n blocks) \<Longrightarrow> \<not> replaced_type (fst b)"
  by (induction n blocks rule: keep_blocks.induct) (auto split: if_splits)

lemma padded_type: "padded b b' \<Longrightarrow> fst b' = fst b"
  by (auto simp: padded_def)

lemma take_comment:
  assumes res: "\<And>n. me_reserve env n" and "utf8_comments c"
    and "serialize_comment_body env c (budget_of limits) = Inr (bytes, b)"
  shows "take_block env (None, budget_of limits) (VORBIS_COMMENT, bytes) = Inr (Some c, b)"
proof -
  have p: "parse_comment_body env bytes (budget_of limits) = Inr (c, b)"
    using serialize_iff [OF res] parse_iff [OF res] assms(2,3) by blast
  then have "check_bytes (budget_of limits) (length bytes) = Inr ()"
    by (auto simp: parse_comment_body_def charge_bytes_def and_then_Inr_iff)
  then show ?thesis using p res
    by (simp add: take_block_def inspect_block_def read_body_def reserve_def slice_get_def)
qed

text \<open>C6: A rewrite of a FLAC file replaces the comments and the pictures and nothing else. The new file
  has the stream information first, then the new comment block, one block per given picture, and the
  other blocks of the old file in their order with the bodies they had, except that padding may be cut or
  filled up with zeros, and that the first padding blocks are left out as far as the limit on blocks asks for it; the audio follows unchanged.\<close>

theorem flac_rewrite_replaces_comments:
  assumes "flac_rewrite env limits comments pictures file = Inr out"
    and "take 4 file = FLAC_MARKER" and "length file < 2 ^ 64"
  shows "\<exists>blocks audio blocks'. file = flac_file blocks audio \<and> good_blocks limits True blocks
    \<and> rewritten_blocks limits blocks comments pictures blocks' \<and> out = flac_file blocks' audio
    \<and> good_blocks limits True blocks' \<and> length blocks' \<le> max_flac_blocks limits"
proof -
  obtain ly b keeps plan where r: "flac_scan env limits file (budget_of limits) = Inr (Some ly, b)"
      "plan_rewrite env limits comments pictures ly = Inr (keeps, plan)"
    using assms(1,2) by (auto simp: flac_rewrite_def flac_scan_def and_then_Inr_iff)
  show ?thesis
    using flac_rewrite_cases [OF assms(3) r] assms(1) by (metis Inr_inject scanned_def)
qed

text \<open>C12: What was written is read back. After a rewrite of a FLAC file, reading the new file gives exactly the
  comments that were asked for, within the same limits, provided texts are UTF-8 and the allocator does not fail.\<close>

theorem flac_written_comments_read:
  assumes "flac_rewrite env limits comments pictures file = Inr out"
    and "take 4 file = FLAC_MARKER" and "length file < 2 ^ 64" and "length out < 2 ^ 64"
    and "\<And>n. me_reserve env n" and "utf8_comments comments"
  shows "\<exists>b. flac_read_file env limits out (budget_of limits) = Inr (Some comments, b)"
proof -
  obtain ly b keeps plan where r: "flac_scan env limits file (budget_of limits) = Inr (Some ly, b)"
      "plan_rewrite env limits comments pictures ly = Inr (keeps, plan)"
    using assms(1,2) by (auto simp: flac_rewrite_def flac_scan_def and_then_Inr_iff)
  from flac_rewrite_cases [OF assms(3) r] obtain blocks audio c blocks' b1 b2 bodies kept where
      w: "scanned env limits (budget_of limits) blocks (c, b)"
      "blocks' = new_blocks blocks (comment_bytes comments) bodies kept"
      "list_all2 padded (keep_blocks (surplus limits blocks pictures) (tl blocks)) kept"
      "good_blocks limits True blocks'" "length blocks' \<le> max_flac_blocks limits"
      "serialize_comment_body env comments (budget_of limits) = Inr (comment_bytes comments, b1)"
      "\<And>env c. try_fold (take_block env) (c, b1) (map (Pair PICTURE) bodies) = Inr (c, b2)"
      "flac_rewrite env limits comments pictures file = Inr (flac_file blocks' audio)"
    by metis
  have out: "out = flac_file blocks' audio" using assms(1) w(8) by simp
  have first: "\<not> replaced_type (fst (hd blocks))" 
    using w(1) by (cases blocks) (auto simp: scanned_def good_block_def replaced_type_def block_types)
  have kept: "\<forall>b \<in> set kept. \<not> replaced_type (fst b)"
    using list_all2_sourceD [OF w(3)] keep_blocks_types padded_type by metis
  have "try_fold (take_block env) (None, budget_of limits) blocks' = Inr (Some comments, b2)"
    using take_comment [OF assms(5,6) w(6)] take_others [of "[hd blocks]"] take_others [of kept] first kept w(7)
    unfolding w(2) by (simp add: new_blocks_def try_fold_append)
  then have "scanned env limits (budget_of limits) blocks' (Some comments, b2)"
    using w(2,4,5) assms(5) by (simp add: scanned_def room_def new_blocks_def)
  from flac_scan_complete [OF assms(4) [unfolded out] this]
  show ?thesis by (simp add: flac_read_file_def out layout_of_def)
qed

end
