(* ===== verification/Flac_Outcomes.thy ===== *)
theory Flac_Outcomes
  imports Flac_Correct
begin

text \<open>
  How a rewrite of a FLAC file can fail (\<open>src/src/metadata/flac.rs\<close>): only while it scans and plans,
  before anything is written, and never with one of the errors that guard its own arithmetic. Then a
  concrete file that witnesses the hypotheses of the properties.
\<close>

section \<open>Errors\<close>

text \<open>The errors that only a defect of the planning itself could cause.\<close>

fun internal_error :: "flac_error \<Rightarrow> bool" where
  "internal_error FlacAudioMoved = True"
| "internal_error FlacPlanInconsistent = True"
| "internal_error FlacCountUnderflow = True"
| "internal_error FlacNoStreamInfo = True"
| "internal_error FlacPaddingOverLimit = True"
| "internal_error FlacPaddingReduction = True"
| "internal_error FlacPaddingOverflow = True"
| "internal_error FlacPaddingLengthOverflow = True"
| "internal_error FlacPaddingTooLong = True"
| "internal_error FlacPictureLength = True"
| "internal_error FlacCommentLength = True"
| "internal_error FlacPictureIndex = True"
| "internal_error FlacWriterInconsistent = True"
| "internal_error FlacShortRead = True"
| "internal_error FlacSuffixRange = True"
| "internal_error _ = False"

definition sane :: "flac_error + 'a \<Rightarrow> bool" where
  "sane m \<longleftrightarrow> (\<forall>e. m = Inl e \<longrightarrow> \<not> internal_error e)"

lemma sane_simps [simp]:
  "sane (Inr x)" "sane (Inl e) \<longleftrightarrow> \<not> internal_error e" "sane (map_err FlacMetadata r)"
  "sane (fail_if c e) \<longleftrightarrow> (c \<longrightarrow> \<not> internal_error e)" "sane (ok_or o' e) \<longleftrightarrow> (o' = None \<longrightarrow> \<not> internal_error e)"
  by (auto simp: sane_def)

lemma sane_and_then: "sane m \<Longrightarrow> (\<And>x. m = Inr x \<Longrightarrow> sane (f x)) \<Longrightarrow> sane (and_then m f)"
  by (cases m) auto

lemma sane_try_fold:
  assumes "P s" and "\<And>s x. x \<in> set xs \<Longrightarrow> P s \<Longrightarrow> sane (f s x)" and "\<And>s x s'. x \<in> set xs \<Longrightarrow> P s \<Longrightarrow> f s x = Inr s' \<Longrightarrow> P s'"
  shows "sane (try_fold f s xs)"
  using assms
proof (induction xs arbitrary: s)
  case (Cons x xs)
  have "sane (try_fold f s' xs)" if "f s x = Inr s'" for s'
    using Cons.prems(3) [of x s s'] Cons.prems that by (intro Cons.IH) (simp_all, metis)
  then show ?case using Cons.prems(1,2) by (auto intro!: sane_and_then)
qed simp

lemma inspect_block_sane:
  assumes "offset + n \<le> length file"
  shows "sane (inspect_block env file t offset n state)"
proof -
  have "slice_get file offset (offset + n) \<noteq> None" using assms by (simp add: slice_get_def)
  then have "sane (read_body env file offset n)" by (auto simp: read_body_def intro!: sane_and_then)
  then show ?thesis by (cases state) (auto simp: inspect_block_def intro!: sane_and_then)
qed

lemma slice_get_None: "slice_get xs a b = None \<longleftrightarrow> \<not> (a \<le> b \<and> b \<le> length xs)"
  by (simp add: slice_get_def)

lemma scan_block_sane: "sane (scan_block env limits file s)"
  unfolding scan_block_def Let_def check_block_header_def
  by (intro sane_and_then) (auto simp: slice_get_None intro!: sane_and_then inspect_block_sane)

lemma scan_blocks_sane: "sane (scan_blocks env limits file s)"
proof (induction env limits "file" s rule: scan_blocks.induct)
  case (1 env limits "file" s)
  then show ?case by (subst scan_blocks.simps) (auto intro!: sane_and_then scan_block_sane)
qed

lemma flac_scan_sane: "sane (flac_scan env limits file b)"
  by (auto simp: flac_scan_def intro!: sane_and_then scan_blocks_sane)

lemma measure_picture_sane: "sane (measure_picture limits state p)"
proof -
  have "sane (picture_block_len p)" by (auto simp: picture_block_len_def Let_def intro!: sane_and_then)
  moreover have "sane (validate_output_block_len n limits)" for n by (auto simp: validate_output_block_len_def intro!: sane_and_then)
  moreover have "\<not> 4294967296 \<le> n" if "validate_output_block_len n limits = Inr ()" for n
    using that by (simp add: validate_output_block_len_def and_then_unit_iff MAX_BLOCK_BYTES_def)
  ultimately show ?thesis by (cases state) (auto simp: measure_picture_def intro!: sane_and_then)
qed

lemma build_plan_sane:
  assumes s: "scanned env limits b blocks (c, b')"
  shows "sane (build_plan env' (descriptors 4 blocks) comment lens limits)"
proof -
  note old = scanned_blocks [OF s]
  obtain first rest where split: "blocks = first # rest" using old(1) by (cases blocks) auto
  define ds where "ds = descriptors 4 blocks"
  define retained where "retained = length (filter (\<lambda>d. \<not> replaced_type (bd_type d)) ds)"
  define available where "available = length (filter (\<lambda>d. bd_type d = PADDING) ds)"
  define n where "n = retained + (length lens + 1) - max_flac_blocks limits"
  obtain kept removed where k: "plan_kept n 0 (drop 1 ds) = (kept, removed)" by (cases "plan_kept n 0 (drop 1 ds)")
  have t: "fst first = STREAMINFO" "\<forall>b \<in> set rest. length (snd b) < 2 ^ 32" using old(4,6) split by auto
  have ds: "ds = \<lparr>bd_type = fst first, bd_offset = 8, bd_len = length (snd first)\<rparr> # drop 1 ds" by (simp add: ds_def split)
  have "list_all2 (holds (flac_file blocks audio)) (drop 1 ds) rest" for audio
    using old(7) [of audio] unfolding ds_def split by simp
  from plan_kept_becomes [OF this t(2) _ k]
  have kept: "removed = min n (length (filter (\<lambda>d. bd_type d = PADDING) (drop 1 ds)))"
      "length kept + removed = length (filter (\<lambda>d. \<not> replaced_type (bd_type d)) (drop 1 ds))"
    by auto
  have "retained = Suc (length kept + removed)" "available = length (filter (\<lambda>d. bd_type d = PADDING) (drop 1 ds))"
    unfolding retained_def available_def kept(2) by (subst ds, simp add: t(1) replaced_type_def block_types)+
  then have counts: "n \<le> available \<Longrightarrow> removed = n \<and> length kept + n + 1 = retained" using kept(1) by simp
  have "ds \<noteq> []" using ds by auto
  then show ?thesis
    unfolding build_plan_def Let_def ds_def [symmetric] retained_def [symmetric] available_def [symmetric]
    using counts k n_def by (auto simp: plan_pictures_def length_enumerate intro!: sane_and_then)
qed

lemma reduce_padding_ok: "\<forall>p \<in> set plan. planned_size (pb_body p) < 2 ^ 32 \<Longrightarrow> sane (reduce_padding r plan)"
proof (induction plan arbitrary: r)
  case (Cons p plan)
  have IH: "sane (reduce_padding r plan)" for r using Cons by simp
  show ?case
  proof (cases "is_padding (pb_body p)")
    case True
    then obtain offset original_len n where b: "pb_body p = PaddingBody offset original_len n" by (auto simp: is_padding_def)
    then show ?thesis using IH Cons.prems by (auto simp: Let_def intro!: sane_and_then)
  qed (use IH not_padding(3) in \<open>auto intro!: sane_and_then\<close>)
qed simp

lemma extend_padding_ok: "padding_within m plan \<Longrightarrow> m < 2 ^ 32 \<Longrightarrow> sane (extend_padding m r plan)"
proof (induction plan arbitrary: r)
  case (Cons p plan)
  have IH: "sane (extend_padding m r plan)" for r using Cons by simp
  show ?case
  proof (cases "is_padding (pb_body p)")
    case True
    then obtain offset original_len n where b: "pb_body p = PaddingBody offset original_len n" by (auto simp: is_padding_def)
    then show ?thesis using IH Cons.prems by (auto simp: Let_def intro!: sane_and_then)
  qed (use IH not_padding(4) in \<open>auto intro!: sane_and_then\<close>)
qed simp

lemma padding_total_le: "padding_total plan \<le> plan_size plan"
proof (induction plan)
  case (Cons p plan)
  then show ?case using padding_le_size [of "pb_body p"] by simp
qed simp

lemma plan_metadata_len_sane: "\<forall>p \<in> set plan. sized_block p \<Longrightarrow> sane (plan_metadata_len plan)"
  unfolding plan_metadata_len_def
  by (rule sane_try_fold [where P = "\<lambda>_. True"]) (auto simp: add_block_len_def sized_block_def intro!: sane_and_then)

lemma add_capacity_sane: "padding_size (pb_body p) \<le> m \<Longrightarrow> sane (add_capacity m so_far p)"
  by (cases "pb_body p") (auto simp: add_capacity_def padding_capacity_def intro!: sane_and_then)

lemma adjust_sane:
  assumes sized: "\<forall>p \<in> set plan. sized_block p" and m: "padding_within (min (max_flac_block_bytes limits) MAX_BLOCK_BYTES) plan"
    and sizes: "\<forall>p \<in> set plan. planned_size (pb_body p) \<le> min (max_flac_block_bytes limits) MAX_BLOCK_BYTES" and "plan \<noteq> []"
  shows "sane (adjust_existing_padding plan target_len limits)"
proof -
  let ?m = "min (max_flac_block_bytes limits) MAX_BLOCK_BYTES"
  have "sane (try_fold add_padding 0 plan)" if "plan_metadata_len plan = Inr n" for n
  proof -
    have "padding_total plan < 2 ^ 64" using that padding_total_le [of plan] \<open>plan \<noteq> []\<close> by (simp add: plan_metadata_len_iff)
    then have "try_fold add_padding 0 plan = Inr (padding_total plan)" by (simp add: add_padding_fold)
    then show ?thesis by simp
  qed
  moreover have "sane (try_fold (add_capacity ?m) 0 plan)"
    using m by (intro sane_try_fold [where P = "\<lambda>_. True"]) (simp_all add: add_capacity_sane padding_within_def)
  moreover have "sane (reduce_padding r plan)" for r
    using sizes by (intro reduce_padding_ok) (auto simp: MAX_BLOCK_BYTES_def)
  moreover have "sane (extend_padding ?m r plan)" for r using m by (intro extend_padding_ok) (simp_all add: MAX_BLOCK_BYTES_def)
  ultimately show ?thesis
    using plan_metadata_len_sane [OF sized] unfolding adjust_existing_padding_def Let_def by (auto intro!: sane_and_then)
qed

lemma plan_rewrite_sane:
  assumes s: "scanned env limits b blocks (c, b')" and small: "length (flac_file blocks audio) < 2 ^ 64"
  shows "sane (plan_rewrite env limits comments pictures (layout_of blocks c n))"
proof -
  let ?target = "4 + length (blocks_bytes blocks)"
  have tail: "sane (adjust_existing_padding plan ?target limits)
      \<and> (\<forall>keeps plan'. adjust_existing_padding plan ?target limits = Inr (keeps, plan')
          \<longrightarrow> sane (plan_metadata_len plan') \<and> (keeps \<longrightarrow> plan_metadata_len plan' = Inr ?target))"
    if len: "validate_output_block_len (length comment) limits = Inr ()"
      and pics: "try_fold (measure_picture limits) ([], b1) pictures = Inr (lens, b2)"
      and plan: "build_plan env (descriptors 4 blocks) comment lens limits = Inr plan" for comment lens plan b1 b2
  proof -
    obtain bodies where bodies: "picture_blocks pictures bodies" "lens = map length bodies"
        "\<forall>body \<in> set bodies. length body \<le> min (max_flac_block_bytes limits) MAX_BLOCK_BYTES"
      using measure_pictures [OF pics] by auto
    have comment: "length comment \<le> min (max_flac_block_bytes limits) MAX_BLOCK_BYTES"
      using len by (simp add: validate_output_block_len_def and_then_unit_iff)
    note p = first_plan(2-8) [OF s comment bodies(1,3) plan [unfolded bodies(2)]]
    have target: "?target < 2 ^ 64" using small by (simp add: flac_file_def FLAC_MARKER_def)
    have "(\<forall>q \<in> set plan'. sized_block q) \<and> (keeps \<longrightarrow> plan_metadata_len plan' = Inr ?target)"
      if "adjust_existing_padding plan ?target limits = Inr (keeps, plan')" for keeps plan'
      using adjust_padding_Inr [OF that p(7) target] repadded_sizes [of plan plan'] p(5) by (auto split: if_splits)
    then show ?thesis using adjust_sane [OF p(5,6,4,7)] plan_metadata_len_sane by blast
  qed
  have "sane (validate_output_block_len k limits)" for k by (auto simp: validate_output_block_len_def intro!: sane_and_then)
  moreover have "sane (try_fold (measure_picture limits) st pictures)" for st
    by (rule sane_try_fold [where P = "\<lambda>_. True"]) (simp_all add: measure_picture_sane)
  ultimately show ?thesis
    unfolding plan_rewrite_def layout_of_def flac_layout.simps
    by (intro sane_and_then; (simp add: build_plan_sane [OF s] split: prod.splits)?)
      (auto intro!: sane_and_then build_plan_sane [OF s] dest!: tail)
qed


section \<open>A small file\<close>

definition demo_blocks :: "meta_block list" where
  "demo_blocks = [(STREAMINFO, replicate 34 0), (PADDING, replicate 100 0)]"

definition demo_flac :: "u8 list" where "demo_flac = flac_file demo_blocks [0xff, 0xf8, 7]"

definition demo_picture :: picture where
  "demo_picture = \<lparr>pic_type = 3, pic_mime = None, pic_description = Some ''art'', pic_data = [1, 2],
     pic_width = 1, pic_height = 1, pic_color_depth = 24, pic_num_colors = 0\<rparr>"

lemma default_limits:
  "max_flac_blocks metadata_limits_default = 1024" "max_flac_block_bytes metadata_limits_default = 16777215"
  "max_item_bytes metadata_limits_default = 16777216" "max_items metadata_limits_default = 16384"
  "max_total_bytes metadata_limits_default = 67108864"
  by (simp_all add: metadata_limits_default_def)

lemma demo_reserve [simp]: "me_reserve demo_meta_env n"
  by (simp add: demo_meta_env_def)

lemma demo_scanned:
  assumes "max_flac_blocks limits = 1024" and "max_flac_block_bytes limits = 16777215"
  shows "scanned demo_meta_env limits b demo_blocks (None, b)"
  using assms take_others [of demo_blocks demo_meta_env "(None, b)"]
  by (simp add: scanned_def demo_blocks_def good_block_def room_def block_types STREAMINFO_BYTES_def MAX_BLOCK_BYTES_def replaced_type_def)

lemma demo_length: "length demo_flac = 149"
  by (simp add: demo_flac_def demo_blocks_def flac_file_def length_marker)

lemma demo_flac_scan:
  assumes "max_flac_blocks limits = 1024" and "max_flac_block_bytes limits = 16777215"
  shows "flac_scan demo_meta_env limits demo_flac b = Inr (Some (layout_of demo_blocks None 149), b)"
  using flac_scan_complete [OF _ demo_scanned [OF assms], of "[0xff, 0xf8, 7]" b] demo_length unfolding demo_flac_def by simp

lemma demo_serialized:
  "serialize_comment_body demo_meta_env demo_comments (budget_of metadata_limits_default)
    = Inr (comment_bytes demo_comments, charged 35 2 (budget_of metadata_limits_default))"
  "length (comment_bytes demo_comments) = 35"
proof -
  show len: "length (comment_bytes demo_comments) = 35" by (simp add: comment_bytes_def demo_comments_def)
  have "comments_fit demo_meta_env metadata_limits_default demo_comments (charged 35 2 (budget_of metadata_limits_default))"
    using demo_items(1,2) len
    by (auto simp: comments_fit_def demo_comments_def list_all2_Cons1 within_def budget_of_def default_limits intro!: exI [of _ "[0, 0]"])
  then show "serialize_comment_body demo_meta_env demo_comments (budget_of metadata_limits_default)
    = Inr (comment_bytes demo_comments, charged 35 2 (budget_of metadata_limits_default))"
    using serialize_iff [of demo_meta_env demo_comments metadata_limits_default] by simp
qed

lemma demo_plan: "\<exists>plan. plan_rewrite demo_meta_env metadata_limits_default demo_comments [demo_picture] (layout_of demo_blocks None 149)
    = Inr (True, plan)"
proof -
  have len: "picture_block_len demo_picture = Inr 37"
    by (simp add: picture_block_len_def Let_def demo_picture_def text_or_empty_def)
  have m: "measure_picture metadata_limits_default ([], charged 35 2 (budget_of metadata_limits_default)) demo_picture
      = Inr ([37], charged 72 3 (budget_of metadata_limits_default))"
    by (simp add: measure_picture_def len validate_output_block_len_def default_limits MAX_BLOCK_BYTES_def check_item_def
        charge_bytes_def check_bytes_def budget_of_def charged_def)
  have ds: "descriptors 4 demo_blocks = [\<lparr>bd_type = 0, bd_offset = 8, bd_len = 34\<rparr>, \<lparr>bd_type = 1, bd_offset = 46, bd_len = 100\<rparr>]"
    by (simp add: demo_blocks_def block_types)
  let ?plan = "\<lambda>n. [\<lparr>pb_type = 0, pb_body = CopyBody 8 34\<rparr>, \<lparr>pb_type = 4, pb_body = CommentBody (comment_bytes demo_comments)\<rparr>,
      \<lparr>pb_type = 6, pb_body = PictureBody 0 37\<rparr>, \<lparr>pb_type = 1, pb_body = PaddingBody 46 100 n\<rparr>]"
  have plan: "build_plan demo_meta_env (descriptors 4 demo_blocks) (comment_bytes demo_comments) [37] metadata_limits_default
      = Inr (?plan 100)"
    unfolding ds
    by (simp add: build_plan_def Let_def default_limits replaced_type_def block_types planned_of_def plan_pictures_def reserve_def)
  have total: "plan_metadata_len (?plan n) = Inr (126 + n)" if "n < 1000" for n
    using that by (simp add: plan_metadata_len_def add_block_len_def body_size_def demo_serialized(2))
  have adj: "adjust_existing_padding (?plan 100) 146 metadata_limits_default = Inr (True, ?plan 20)"
    using total [of 100]
    by (simp add: adjust_existing_padding_def Let_def add_padding_def)
  have "layout_of demo_blocks None 149 = \<lparr>ly_blocks = descriptors 4 demo_blocks, ly_comments = None, ly_audio_offset = 146, ly_file_len = 149\<rparr>"
    by (simp add: layout_of_def demo_blocks_def)
  then have "plan_rewrite demo_meta_env metadata_limits_default demo_comments [demo_picture] (layout_of demo_blocks None 149)
      = Inr (True, ?plan 20)"
    using total [of 20]
    by (simp add: plan_rewrite_def default_limits demo_serialized validate_output_block_len_def MAX_BLOCK_BYTES_def
        reserve_def m plan adj)
  then show ?thesis by blast
qed

lemma demo_rewritten:
  obtains out where "flac_rewrite demo_meta_env metadata_limits_default demo_comments [demo_picture] demo_flac = Inr out"
    "length out = 149"
proof -
  have small: "length demo_flac < 2 ^ 64" by (simp add: demo_length)
  note scan = demo_flac_scan [OF default_limits(1,2), of "budget_of metadata_limits_default"]
  obtain plan where "plan_rewrite demo_meta_env metadata_limits_default demo_comments [demo_picture] (layout_of demo_blocks None 149)
      = Inr (True, plan)" using demo_plan by blast
  from flac_rewrite_cases [OF small scan this] obtain blocks audio blocks' where
      w: "demo_flac = flac_file blocks audio" "length (blocks_bytes blocks') = length (blocks_bytes blocks)"
      "flac_rewrite demo_meta_env metadata_limits_default demo_comments [demo_picture] demo_flac = Inr (flac_file blocks' audio)"
    by metis
  have "length (flac_file blocks' audio) = length demo_flac" unfolding w(1) flac_file_def using w(2) by simp
  then have "length (flac_file blocks' audio) = 149" by (simp only: demo_length)
  then show ?thesis using that w(3) by blast
qed

lemma demo_marked: "take 4 demo_flac = FLAC_MARKER"
  using flac_file_bytes [of demo_flac demo_blocks "[0xff, 0xf8, 7]"] by (simp add: demo_flac_def)

theorem flac_rewrite_replaces_comments_witness:
  "\<exists>out blocks audio blocks'. flac_rewrite demo_meta_env metadata_limits_default demo_comments [demo_picture] demo_flac = Inr out
     \<and> length out = 149 \<and> demo_flac = flac_file blocks audio
     \<and> rewritten_blocks metadata_limits_default blocks demo_comments [demo_picture] blocks' \<and> out = flac_file blocks' audio"
proof -
  obtain out where out: "flac_rewrite demo_meta_env metadata_limits_default demo_comments [demo_picture] demo_flac = Inr out"
    "length out = 149" by (rule demo_rewritten)
  have "length demo_flac < 2 ^ 64" by (simp add: demo_length)
  from flac_rewrite_replaces_comments [OF out(1) demo_marked this] out show ?thesis by blast
qed

theorem flac_written_comments_read_witness:
  "\<exists>out b. flac_rewrite demo_meta_env metadata_limits_default demo_comments [demo_picture] demo_flac = Inr out
     \<and> flac_read_file demo_meta_env metadata_limits_default out (budget_of metadata_limits_default) = Inr (Some demo_comments, b)"
proof -
  obtain out where out: "flac_rewrite demo_meta_env metadata_limits_default demo_comments [demo_picture] demo_flac = Inr out"
    "length out = 149" by (rule demo_rewritten)
  have "length demo_flac < 2 ^ 64" "length out < 2 ^ 64" by (simp_all add: demo_length out(2))
  from flac_written_comments_read [OF out(1) demo_marked this demo_reserve demo_items(3)] out(1) show ?thesis by blast
qed

theorem padding_keeps_audio_witness:
  "\<exists>plan. adjust_existing_padding [\<lparr>pb_type = 0, pb_body = CopyBody 8 34\<rparr>, \<lparr>pb_type = 1, pb_body = PaddingBody 46 10 10\<rparr>] 52
      metadata_limits_default = Inr (True, plan)
    \<and> plan ! 1 = \<lparr>pb_type = 1, pb_body = PaddingBody 46 10 6\<rparr> \<and> plan_metadata_len plan = Inr 52"
proof -
  let ?plan = "[\<lparr>pb_type = 0, pb_body = CopyBody 8 34\<rparr>, \<lparr>pb_type = 1, pb_body = PaddingBody 46 10 10\<rparr>]"
  let ?new = "[\<lparr>pb_type = 0, pb_body = CopyBody 8 34\<rparr>, \<lparr>pb_type = 1, pb_body = PaddingBody 46 10 6\<rparr>]"
  have a: "adjust_existing_padding ?plan 52 metadata_limits_default = Inr (True, ?new)"
    by (simp add: adjust_existing_padding_def plan_metadata_len_def add_block_len_def body_size_def add_padding_def Let_def)
  have "plan_metadata_len ?new = Inr 52" using padding_keeps_audio [OF a] by simp
  then show ?thesis using a by (intro exI [of _ ?new]) simp
qed


end
