(* ===== verification/Signature_Text.thy ===== *)
theory Signature_Text
  imports Paths
begin

text \<open>
  Texts of the model catalog (\<open>src/src/models/catalog.rs\<close>, \<open>src/src/models/catalog/trust.rs\<close>):
  \<open>str::trim\<close> and \<open>str::lines\<close> of the standard library on UTF-8 bytes, the shape of a detached
  minisign signature, and the forms of digests and key identities. Third-party code is a parameter
  (\<open>trust_env\<close>): minisign, base64, SHA-256, the JSON parser on each document, and the URL parser.
\<close>

section \<open>The standard library\<close>

text \<open>The encodings of the characters that \<open>char::is_whitespace\<close> accepts.\<close>

definition white_space :: "string list" where
  "white_space = [[CHR 0x09], [CHR 0x0A], [CHR 0x0B], [CHR 0x0C], [CHR 0x0D], [CHR 0x20],
     [CHR 0xC2, CHR 0x85], [CHR 0xC2, CHR 0xA0], [CHR 0xE1, CHR 0x9A, CHR 0x80]]
   @ map (\<lambda>n. [CHR 0xE2, CHR 0x80, char_of n]) ([0x80..<0x8B] @ [0xA8, 0xA9, 0xAF])
   @ [[CHR 0xE2, CHR 0x81, CHR 0x9F], [CHR 0xE3, CHR 0x80, CHR 0x80]]"

fun strip_one :: "string list \<Rightarrow> string \<Rightarrow> string option" where
  "strip_one [] s = None"
| "strip_one (w # ws) s = (if w \<noteq> [] \<and> is_prefix w s then Some (drop (length w) s) else strip_one ws s)"

lemma strip_one_shorter: "strip_one ws s = Some rest \<Longrightarrow> length rest < length s"
proof (induction ws)
  case (Cons w ws)
  show ?case
  proof (cases "w \<noteq> [] \<and> is_prefix w s")
    case True
    then have "take (length w) s = w" by (simp add: is_prefix_def)
    then have "length w \<le> length s" by (metis length_take min.cobounded1)
    moreover have "0 < length w" using True by simp
    moreover have "length rest = length s - length w" using Cons.prems True by auto
    ultimately show ?thesis by linarith
  next
    case False
    then have "strip_one ws s = Some rest" using Cons.prems by (auto split: if_splits)
    then show ?thesis by (rule Cons.IH)
  qed
qed simp

function strip_all :: "string list \<Rightarrow> string \<Rightarrow> string" where
  "strip_all ws s = (case strip_one ws s of None \<Rightarrow> s | Some rest \<Rightarrow> strip_all ws rest)"
  by pat_completeness auto

termination by (relation "measure (\<lambda>(ws, s). length s)") (auto dest: strip_one_shorter)

declare strip_all.simps [simp del]

definition trim :: "string \<Rightarrow> string" where
  "trim s = rev (strip_all (map rev white_space) (rev (strip_all white_space s)))"

definition strip_cr :: "string \<Rightarrow> string" where
  "strip_cr line = (if line \<noteq> [] \<and> last line = CHR 0x0D then butlast line else line)"

text \<open>A last line without a line feed keeps its carriage return.\<close>

definition lines_of :: "string \<Rightarrow> string list" where
  "lines_of s =
    (let pieces = split_on (CHR 0x0A) s; terminated = map strip_cr (butlast pieces) in
     if last pieces = [] then terminated else terminated @ [last pieces])"

section \<open>The environment\<close>

record url_parts =
  url_scheme :: string
  url_host :: bool
  url_username :: string
  url_password :: bool
  url_query :: bool
  url_fragment :: bool

record key_record =
  kr_key_id :: string
  kr_public_key :: string

record catalog_key =
  ck_key_id :: string
  ck_public_key :: string
  ck_first_sequence :: nat
  ck_last_sequence :: "nat option"
  ck_revoked_at :: "nat option"

record trust_document =
  td_schema :: string
  td_version :: nat
  td_previous :: "string option"
  td_issued_at :: nat
  td_expires_at :: nat
  td_threshold :: nat
  td_root_keys :: "key_record list"
  td_expiration_required_from :: nat
  td_max_validity :: nat
  td_catalog_keys :: "catalog_key list"

record signature_record =
  sr_key_id :: string
  sr_signature :: string

record signature_bundle =
  sb_schema :: string
  sb_signatures :: "signature_record list"

record bundle_file =
  bf_filename :: string
  bf_sha256 :: string
  bf_size :: nat

record model_document =
  md_name :: string
  md_backend :: string
  md_filename :: string
  md_url :: string
  md_revision :: string
  md_sha256 :: string
  md_size :: nat
  md_license :: string
  md_sample_rate :: nat
  md_offline_bundle :: "(bundle_file \<times> bundle_file) option"

record catalog_document =
  cd_schema :: string
  cd_sequence :: nat
  cd_signing_key_id :: string
  cd_issued_at :: "nat option"
  cd_expires_at :: "nat option"
  cd_models :: "model_document list"

record envelope =
  en_root_base64 :: string
  en_signatures :: "signature_record list"
  en_source :: string

record trust_env =
  te_embedded_root :: string
  te_embedded_catalog :: string
  te_parse_root :: "string \<Rightarrow> trust_document option"
  te_parse_bundle :: "string \<Rightarrow> signature_bundle option"
  te_parse_catalog :: "string \<Rightarrow> catalog_document option"
  te_chain_size :: "envelope list \<Rightarrow> nat"
  te_public_key :: "string \<Rightarrow> bool"
  te_signature :: "string \<Rightarrow> bool"
  te_verify :: "string \<Rightarrow> string \<Rightarrow> string \<Rightarrow> bool"
  te_base64 :: "string \<Rightarrow> string option"
  te_base64_encode :: "string \<Rightarrow> string"
  te_sha256 :: "string \<Rightarrow> string"
  te_url :: "string \<Rightarrow> url_parts option"
  te_now :: "nat option"

section \<open>Signatures, digests, key identities\<close>

text \<open>One constructor for every message, grouped by the part of the code that reports it.\<close>

datatype signature_error =
    SignatureNotUtf8 | SignatureNotText | SignatureTooLarge | SignatureRecords | BadSignature
    | SignatureRefused | ThresholdMissed | BundleNotJson | BadBundle | BadKeyId | BadPublicKey
    | BadKeyBase64 | ShortKey | KeyIdMismatch

datatype root_error =
    RootTooLarge | RootNotJson | RootSchema | RootVersionRange | RootNamesPredecessor
    | RootPredecessorDigest | RootPredecessorMissing | BadValidityWindow | RootKeyCount
    | RootThreshold | DuplicateRootKey | BadExpirationPolicy | CatalogKeyCount | BadFirstSequence
    | BadLastSequence | BadRevocation | DuplicateCatalogKey

datatype rotation_error =
    VersionOverflow | NotNextVersion | PredecessorMismatch | PredatesActive | WeakenedPolicy
    | RemovedKey | ChangedKey | WidenedKey | BadChain | BadChainSource | BadChainSignatures
    | ChainNotBase64 | ChainConflict | ChainFull | NotValidYet | Expired

datatype storage_error =
    StateUnreadable | BadState | ChainUnreadable | ChainTooLarge | ChainWithoutState
    | EmbeddedConflict | ChainMissing | ChainStateMismatch | ClockBeforeEpoch | StateRootMismatch
    | BelowCatalogAuthority | RootRollback | WriteFailed | CatalogStateUnreadable | BadCatalogState
    | EnvelopeUnreadable | BadEnvelope | EnvelopeMissing | EnvelopeWithoutState | EnvelopeNotBase64
    | CatalogRollback | CatalogStateMismatch

datatype catalog_error =
    CatalogTooLarge | CatalogNotJson | UntrustedKey | KeyOutsideSequence | BadOrigin | CatalogSchema
    | SequenceRange | IncompleteWindow | ExpirationMissing | CatalogNotValidYet | CatalogExpired
    | ModelCount | BadIdentifier | DeviceName | DuplicateModel | BadFilename | BadText
    | BadModelDigest | ModelSize | SampleRate | BundleFilenames | BadUrl | BundleFileSize
    | BadSource | PredatesEmbedded | ConflictsEmbedded | DifferentContent | NotActive
    | NoActiveState | KeyChanged | ValidityExceeded

datatype trust_error =
    Signing signature_error
  | Root root_error
  | Rotation rotation_error
  | Storage storage_error
  | Catalog catalog_error

definition MAX_SIGNATURE_BYTES :: nat where "MAX_SIGNATURE_BYTES = 16 * 1024"
definition MAX_JSON_SAFE_INTEGER :: nat where "MAX_JSON_SAFE_INTEGER = 2 ^ 53 - 1"

definition validate_signature_text :: "string \<Rightarrow> trust_error + unit" where
  "validate_signature_text signature =
    (let ls = lines_of signature in
     fail_if (length ls \<noteq> 4 \<or> \<not> is_prefix ''untrusted comment:'' (ls ! 0) \<or> \<not> is_prefix ''trusted comment: '' (ls ! 2))
       (Signing SignatureRecords))"

definition decode_signature_text :: "trust_env \<Rightarrow> string \<Rightarrow> trust_error + string" where
  "decode_signature_text env bytes =
    and_then (fail_if (\<not> utf8_text bytes) (Signing SignatureNotUtf8)) (\<lambda>_.
    let signature_text = trim bytes in
    if is_prefix ''untrusted comment:'' signature_text then
      and_then (validate_signature_text signature_text) (\<lambda>_. Inr signature_text)
    else
      and_then (ok_or (te_base64 env signature_text) (Signing SignatureNotText)) (\<lambda>decoded.
      and_then (fail_if (MAX_SIGNATURE_BYTES < length decoded) (Signing SignatureTooLarge)) (\<lambda>_.
      and_then (fail_if (\<not> utf8_text decoded) (Signing SignatureNotUtf8)) (\<lambda>_.
      and_then (validate_signature_text (trim decoded)) (\<lambda>_. Inr (trim decoded))))))"

definition valid_sha256 :: "string \<Rightarrow> bool" where
  "valid_sha256 s \<longleftrightarrow> length s = 64 \<and> list_all (\<lambda>c. is_ascii_digit c \<or> CHR ''a'' \<le> c \<and> c \<le> CHR ''f'') s"

definition valid_key_id :: "string \<Rightarrow> bool" where
  "valid_key_id s \<longleftrightarrow> length s = 16 \<and> list_all (\<lambda>c. is_ascii_digit c \<or> CHR ''A'' \<le> c \<and> c \<le> CHR ''F'') s"

text \<open>\<open>format!("{:016X}", ..)\<close>.\<close>

definition upper_hex16 :: "u64 \<Rightarrow> string" where
  "upper_hex16 w = map (\<lambda>i. ''0123456789ABCDEF'' ! unat (take_bit 4 (drop_bit (60 - 4 * i) w))) [0..<16]"

definition validate_public_key_identity :: "trust_env \<Rightarrow> string \<Rightarrow> string \<Rightarrow> trust_error + unit" where
  "validate_public_key_identity env key_id public_key =
    and_then (fail_if (\<not> valid_key_id key_id) (Signing BadKeyId)) (\<lambda>_.
    and_then (fail_if (\<not> te_public_key env public_key) (Signing BadPublicKey)) (\<lambda>_.
    and_then (ok_or (te_base64 env public_key) (Signing BadKeyBase64)) (\<lambda>decoded.
    and_then (fail_if (length decoded < 10) (Signing ShortKey)) (\<lambda>_.
    fail_if (upper_hex16 (of_le (as_bytes (take 8 (drop 2 decoded)))) \<noteq> key_id) (Signing KeyIdMismatch)))))"

text \<open>Where a document came from; a control character or anything but a plain HTTPS address is refused.\<close>

definition validate_catalog_source :: "trust_env \<Rightarrow> string \<Rightarrow> trust_error + unit" where
  "validate_catalog_source env source =
    (if source = ''local-import'' then Inr ()
     else
       and_then (fail_if (source = [] \<or> 2048 < length source \<or> has_control source) (Catalog BadSource)) (\<lambda>_.
       and_then (ok_or (te_url env source) (Catalog BadSource)) (\<lambda>url.
       fail_if (url_scheme url \<noteq> ''https'' \<or> \<not> url_host url \<or> url_username url \<noteq> [] \<or> url_password url
         \<or> url_query url \<or> url_fragment url) (Catalog BadSource))))"

end
