(* ===== verification/Trust_Root.thy ===== *)
theory Trust_Root
  imports Signature_Text Prelude
begin

text \<open>
  Trust roots of the model catalog (\<open>src/src/models/catalog/trust.rs\<close>): the validation of a root
  document, the thresholds of signatures, the rules of a rotation from one root to the next, and a
  chain of rotations that starts at the root embedded in the binary.
\<close>

section \<open>Roots\<close>

definition MAX_TRUST_ROOT_BYTES :: nat where "MAX_TRUST_ROOT_BYTES = 64 * 1024"
definition MAX_TRUST_CHAIN_BYTES :: nat where "MAX_TRUST_CHAIN_BYTES = 2 * 1024 * 1024"
definition MAX_ROOT_KEYS :: nat where "MAX_ROOT_KEYS = 16"
definition MAX_CATALOG_KEYS :: nat where "MAX_CATALOG_KEYS = 64"
definition MAX_ROOT_CHAIN_LENGTH :: nat where "MAX_ROOT_CHAIN_LENGTH = 32"
definition MAX_ROOT_SIGNATURES :: nat where "MAX_ROOT_SIGNATURES = 32"
definition MAX_ROOT_VALIDITY_SECONDS :: nat where "MAX_ROOT_VALIDITY_SECONDS = 5 * 366 * 24 * 60 * 60"
definition MAX_CATALOG_VALIDITY_SECONDS :: nat where "MAX_CATALOG_VALIDITY_SECONDS = 366 * 24 * 60 * 60"
definition MAX_ISSUED_AT_FUTURE_SKEW_SECONDS :: nat where "MAX_ISSUED_AT_FUTURE_SKEW_SECONDS = 24 * 60 * 60"

text \<open>\<open>saturating_add\<close> on \<open>u64\<close>.\<close>

definition add_saturating :: "nat \<Rightarrow> nat \<Rightarrow> nat" where
  "add_saturating a b = min (2 ^ 64 - 1) (a + b)"

datatype root_origin = EmbeddedRoot | SignedRoot string

record active_root =
  ar_document :: trust_document
  ar_sha256 :: string
  ar_origin :: root_origin

definition accepts :: "catalog_key \<Rightarrow> nat \<Rightarrow> bool" where
  "accepts key sequence \<longleftrightarrow> ck_first_sequence key \<le> sequence
     \<and> (case ck_last_sequence key of None \<Rightarrow> True | Some last_sequence \<Rightarrow> sequence \<le> last_sequence)
     \<and> (case ck_revoked_at key of None \<Rightarrow> True | Some revoked_at \<Rightarrow> sequence < revoked_at)"

definition root_version :: "active_root \<Rightarrow> nat" where "root_version r = td_version (ar_document r)"
definition root_expires_at :: "active_root \<Rightarrow> nat" where "root_expires_at r = td_expires_at (ar_document r)"

definition find_catalog_key :: "active_root \<Rightarrow> string \<Rightarrow> catalog_key option" where
  "find_catalog_key r key_id = find (\<lambda>key. ck_key_id key = key_id) (td_catalog_keys (ar_document r))"

definition is_expired_at :: "active_root \<Rightarrow> nat \<Rightarrow> bool" where
  "is_expired_at r now \<longleftrightarrow> root_expires_at r \<le> now"

section \<open>Validation\<close>

definition validate_validity_window :: "nat \<Rightarrow> nat \<Rightarrow> nat \<Rightarrow> trust_error + unit" where
  "validate_validity_window issued_at expires_at maximum =
    fail_if (issued_at = 0 \<or> MAX_JSON_SAFE_INTEGER < issued_at \<or> expires_at = 0 \<or> MAX_JSON_SAFE_INTEGER < expires_at
      \<or> expires_at \<le> issued_at \<or> maximum < expires_at - issued_at) (Root BadValidityWindow)"

definition validate_trust_key :: "trust_env \<Rightarrow> key_record \<Rightarrow> trust_error + unit" where
  "validate_trust_key env key = validate_public_key_identity env (kr_key_id key) (kr_public_key key)"

definition validate_catalog_key :: "trust_env \<Rightarrow> catalog_key \<Rightarrow> trust_error + unit" where
  "validate_catalog_key env key =
    and_then (validate_public_key_identity env (ck_key_id key) (ck_public_key key)) (\<lambda>_.
    and_then (fail_if (ck_first_sequence key = 0 \<or> MAX_JSON_SAFE_INTEGER < ck_first_sequence key) (Root BadFirstSequence)) (\<lambda>_.
    and_then (fail_if (case ck_last_sequence key of None \<Rightarrow> False
      | Some last_sequence \<Rightarrow> last_sequence < ck_first_sequence key \<or> MAX_JSON_SAFE_INTEGER < last_sequence) (Root BadLastSequence)) (\<lambda>_.
    fail_if (case ck_revoked_at key of None \<Rightarrow> False
      | Some revoked_at \<Rightarrow> revoked_at < ck_first_sequence key \<or> MAX_JSON_SAFE_INTEGER < revoked_at) (Root BadRevocation))))"

text \<open>A loop that validates and inserts into a set that must not hold the key yet.\<close>

definition admit_key ::
  "('a \<Rightarrow> trust_error + unit) \<Rightarrow> ('a \<Rightarrow> string) \<Rightarrow> trust_error \<Rightarrow> string list \<Rightarrow> 'a \<Rightarrow> trust_error + string list" where
  "admit_key check key_id duplicate seen key =
    and_then (check key) (\<lambda>_.
    and_then (fail_if (key_id key \<in> set seen) duplicate) (\<lambda>_. Inr (key_id key # seen)))"

definition validate_trust_root_document :: "trust_env \<Rightarrow> trust_document \<Rightarrow> trust_error + unit" where
  "validate_trust_root_document env d =
    and_then (fail_if (td_schema d \<noteq> ''denoize-model-trust-root-v1'') (Root RootSchema)) (\<lambda>_.
    and_then (fail_if (td_version d = 0 \<or> MAX_JSON_SAFE_INTEGER < td_version d) (Root RootVersionRange)) (\<lambda>_.
    and_then
      (case td_previous d of
         None \<Rightarrow> fail_if (td_version d \<noteq> 1) (Root RootPredecessorMissing)
       | Some digest \<Rightarrow>
           if td_version d = 1 then Inl (Root RootNamesPredecessor) else fail_if (\<not> valid_sha256 digest) (Root RootPredecessorDigest)) (\<lambda>_.
    and_then (validate_validity_window (td_issued_at d) (td_expires_at d) MAX_ROOT_VALIDITY_SECONDS) (\<lambda>_.
    and_then (fail_if (td_root_keys d = [] \<or> MAX_ROOT_KEYS < length (td_root_keys d)) (Root RootKeyCount)) (\<lambda>_.
    and_then (fail_if (td_threshold d = 0 \<or> length (td_root_keys d) < td_threshold d) (Root RootThreshold)) (\<lambda>_.
    and_then (try_fold (admit_key (validate_trust_key env) kr_key_id (Root DuplicateRootKey)) [] (td_root_keys d)) (\<lambda>_.
    and_then (fail_if (td_expiration_required_from d = 0 \<or> MAX_JSON_SAFE_INTEGER < td_expiration_required_from d
      \<or> td_max_validity d = 0 \<or> MAX_CATALOG_VALIDITY_SECONDS < td_max_validity d) (Root BadExpirationPolicy)) (\<lambda>_.
    and_then (fail_if (td_catalog_keys d = [] \<or> MAX_CATALOG_KEYS < length (td_catalog_keys d)) (Root CatalogKeyCount)) (\<lambda>_.
    and_then (try_fold (admit_key (validate_catalog_key env) ck_key_id (Root DuplicateCatalogKey)) [] (td_catalog_keys d)) (\<lambda>_.
    Inr ()))))))))))"

definition parse_trust_root :: "trust_env \<Rightarrow> string \<Rightarrow> root_origin \<Rightarrow> trust_error + active_root" where
  "parse_trust_root env bytes origin =
    and_then (fail_if (MAX_TRUST_ROOT_BYTES < length bytes) (Root RootTooLarge)) (\<lambda>_.
    and_then (ok_or (te_parse_root env bytes) (Root RootNotJson)) (\<lambda>d.
    and_then (validate_trust_root_document env d) (\<lambda>_.
    Inr \<lparr>ar_document = d, ar_sha256 = te_sha256 env bytes, ar_origin = origin\<rparr>)))"

text \<open>The embedded root; the program panics where this is an error.\<close>

definition embedded_trust_root :: "trust_env \<Rightarrow> trust_error + active_root" where
  "embedded_trust_root env = parse_trust_root env (te_embedded_root env) EmbeddedRoot"

section \<open>Rotation\<close>

definition widens_optional_ceiling :: "nat option \<Rightarrow> nat option \<Rightarrow> bool" where
  "widens_optional_ceiling previous later =
    (case (previous, later) of
       (Some p, Some n) \<Rightarrow> p < n
     | (Some _, None) \<Rightarrow> True
     | (None, _) \<Rightarrow> False)"

definition retains_key :: "active_root \<Rightarrow> catalog_key \<Rightarrow> trust_error + unit" where
  "retains_key candidate previous =
    and_then (ok_or (find_catalog_key candidate (ck_key_id previous)) (Rotation RemovedKey)) (\<lambda>later.
    and_then (fail_if (ck_public_key later \<noteq> ck_public_key previous \<or> ck_first_sequence later \<noteq> ck_first_sequence previous)
      (Rotation ChangedKey)) (\<lambda>_.
    fail_if (widens_optional_ceiling (ck_last_sequence previous) (ck_last_sequence later)
      \<or> widens_optional_ceiling (ck_revoked_at previous) (ck_revoked_at later)) (Rotation WidenedKey)))"

definition ensure_catalog_history_is_retained :: "active_root \<Rightarrow> active_root \<Rightarrow> trust_error + unit" where
  "ensure_catalog_history_is_retained current candidate =
    and_then (fail_if
      (td_expiration_required_from (ar_document current) < td_expiration_required_from (ar_document candidate)
        \<or> td_max_validity (ar_document current) < td_max_validity (ar_document candidate)) (Rotation WeakenedPolicy)) (\<lambda>_.
    try_all (retains_key candidate) (td_catalog_keys (ar_document current)))"

definition verify_record ::
  "trust_env \<Rightarrow> string \<Rightarrow> key_record list \<Rightarrow> string set \<Rightarrow> signature_record \<Rightarrow> trust_error + string set" where
  "verify_record env bytes keys verified record =
    (case find (\<lambda>key. kr_key_id key = sr_key_id record) keys of
       None \<Rightarrow> Inr verified
     | Some key \<Rightarrow>
         and_then (decode_signature_text env (sr_signature record)) (\<lambda>signature.
         and_then (fail_if (\<not> te_signature env signature) (Signing BadSignature)) (\<lambda>_.
         and_then (fail_if (\<not> te_public_key env (kr_public_key key)) (Signing BadPublicKey)) (\<lambda>_.
         and_then (fail_if (\<not> te_verify env (kr_public_key key) bytes signature) (Signing SignatureRefused)) (\<lambda>_.
         Inr (insert (kr_key_id key) verified))))))"

definition verify_signature_threshold ::
  "trust_env \<Rightarrow> string \<Rightarrow> signature_record list \<Rightarrow> key_record list \<Rightarrow> nat \<Rightarrow> trust_error + unit" where
  "verify_signature_threshold env bytes signatures keys threshold =
    and_then (try_fold (verify_record env bytes keys) {} signatures) (\<lambda>verified.
    fail_if (card verified < threshold) (Signing ThresholdMissed))"

definition verify_root_transition ::
  "trust_env \<Rightarrow> active_root \<Rightarrow> active_root \<Rightarrow> string \<Rightarrow> signature_record list \<Rightarrow> trust_error + unit" where
  "verify_root_transition env current candidate bytes signatures =
    and_then (ok_or (if root_version current + 1 < 2 ^ 64 then Some (root_version current + 1) else None) (Rotation VersionOverflow)) (\<lambda>expected.
    and_then (fail_if (root_version candidate \<noteq> expected) (Rotation NotNextVersion)) (\<lambda>_.
    and_then (fail_if (td_previous (ar_document candidate) \<noteq> Some (ar_sha256 current)) (Rotation PredecessorMismatch)) (\<lambda>_.
    and_then (fail_if (td_issued_at (ar_document candidate) < td_issued_at (ar_document current)) (Rotation PredatesActive)) (\<lambda>_.
    and_then (ensure_catalog_history_is_retained current candidate) (\<lambda>_.
    and_then (verify_signature_threshold env bytes signatures (td_root_keys (ar_document current)) (td_threshold (ar_document current))) (\<lambda>_.
    verify_signature_threshold env bytes signatures (td_root_keys (ar_document candidate)) (td_threshold (ar_document candidate))))))))"

section \<open>Signature bundles and chains\<close>

definition admit_signature ::
  "trust_env \<Rightarrow> string list \<Rightarrow> signature_record \<Rightarrow> trust_error + string list" where
  "admit_signature env seen record =
    and_then (fail_if (\<not> valid_key_id (sr_key_id record) \<or> sr_key_id record \<in> set seen
      \<or> MAX_SIGNATURE_BYTES < length (sr_signature record)) (Signing BadBundle)) (\<lambda>_.
    and_then (decode_signature_text env (sr_signature record)) (\<lambda>_.
    Inr (sr_key_id record # seen)))"

definition validate_signature_records :: "trust_env \<Rightarrow> signature_record list \<Rightarrow> trust_error + unit" where
  "validate_signature_records env signatures =
    and_then (fail_if (signatures = [] \<or> MAX_ROOT_SIGNATURES < length signatures) (Signing BadBundle)) (\<lambda>_.
    and_then (try_fold (admit_signature env) [] signatures) (\<lambda>_. Inr ()))"

definition parse_signature_bundle :: "trust_env \<Rightarrow> string \<Rightarrow> trust_error + signature_record list" where
  "parse_signature_bundle env bytes =
    and_then (ok_or (te_parse_bundle env bytes) (Signing BundleNotJson)) (\<lambda>bundle.
    and_then (fail_if (sb_schema bundle \<noteq> ''denoize-model-trust-signatures-v1'' \<or> sb_signatures bundle = []
      \<or> MAX_ROOT_SIGNATURES < length (sb_signatures bundle)) (Signing BadBundle)) (\<lambda>_.
    and_then (validate_signature_records env (sb_signatures bundle)) (\<lambda>_. Inr (sb_signatures bundle))))"

definition follow_envelope :: "trust_env \<Rightarrow> active_root \<Rightarrow> envelope \<Rightarrow> trust_error + active_root" where
  "follow_envelope env current e =
    and_then (map_err (\<lambda>_. (Rotation BadChainSource)) (validate_catalog_source env (en_source e))) (\<lambda>_.
    and_then (map_err (\<lambda>_. (Rotation BadChainSignatures)) (validate_signature_records env (en_signatures e))) (\<lambda>_.
    and_then (ok_or (te_base64 env (en_root_base64 e)) (Rotation ChainNotBase64)) (\<lambda>bytes.
    and_then (parse_trust_root env bytes (SignedRoot (en_source e))) (\<lambda>candidate.
    if root_version candidate \<le> root_version current then
      and_then (fail_if (root_version candidate = root_version current \<and> ar_sha256 candidate \<noteq> ar_sha256 current) (Rotation ChainConflict)) (\<lambda>_.
      Inr current)
    else
      and_then (verify_root_transition env current candidate bytes (en_signatures e)) (\<lambda>_. Inr candidate)))))"

record trust_chain =
  tc_version :: nat
  tc_roots :: "envelope list"

definition chain_shape :: "trust_chain \<Rightarrow> trust_error + unit" where
  "chain_shape chain = fail_if (tc_version chain \<noteq> 1 \<or> MAX_ROOT_CHAIN_LENGTH < length (tc_roots chain)) (Rotation BadChain)"

definition verify_chain_from_embedded :: "trust_env \<Rightarrow> active_root \<Rightarrow> trust_chain \<Rightarrow> trust_error + active_root" where
  "verify_chain_from_embedded env embedded chain =
    and_then (chain_shape chain) (\<lambda>_. try_fold (follow_envelope env) embedded (tc_roots chain))"

end
