(* ===== verification/Trust_Store.thy ===== *)
theory Trust_Store
  imports Trust_Root "HOL-Library.List_Lexorder" "HOL-Library.Char_ord"
begin

text \<open>
  The trust root on disk (\<open>src/src/models/catalog/trust.rs\<close>): the rollback floor, the cached chain, and the
  operations on them, with the catalog state they consult (\<open>src/src/models/catalog.rs\<close>). A document
  that was written reads back as itself; anything else on disk is \<open>Unreadable\<close>.

  Files are replaced atomically. \<open>dk_writes\<close> counts the writes that still succeed: a failing write,
  like a crash, ends the operation, and leaves the old content or the new (\<open>dk_torn\<close>). An operation
  is a function of the disk, so theorems about all values of the two fields cover every interruption.
  Locks and the creation of directories are taken to succeed.
\<close>

section \<open>Documents\<close>

datatype 'a stored = Absent | Unreadable | Stored 'a

record trust_state =
  ts_version :: nat
  ts_highest :: nat
  ts_sha256 :: string
  ts_observed :: nat

record catalog_state =
  cs_version :: nat
  cs_highest :: nat
  cs_sha256 :: string
  cs_signing_key_id :: string
  cs_root_version :: nat

record catalog_envelope =
  ce_version :: nat
  ce_catalog_base64 :: string
  ce_signature :: string
  ce_source :: string

record trust_disk =
  dk_directory :: bool
  dk_state :: "trust_state stored"
  dk_chain :: "trust_chain stored"
  dk_catalog :: "catalog_state stored"
  dk_envelope :: "catalog_envelope stored"
  dk_writes :: nat
  dk_torn :: bool

type_synonym 'a trust_op = "trust_disk \<Rightarrow> (trust_error + 'a) \<times> trust_disk"

definition write_file :: "(trust_disk \<Rightarrow> trust_disk) \<Rightarrow> unit trust_op" where
  "write_file f d =
    (if dk_writes d = 0 then (Inl (Storage WriteFailed), if dk_torn d then f d else d)
     else (Inr (), (f d)\<lparr>dk_writes := dk_writes d - 1\<rparr>))"

definition validate_trust_state :: "trust_state \<Rightarrow> trust_error + unit" where
  "validate_trust_state s =
    fail_if (ts_version s \<noteq> 1 \<or> ts_highest s = 0 \<or> MAX_JSON_SAFE_INTEGER < ts_highest s \<or> \<not> valid_sha256 (ts_sha256 s)
      \<or> ts_observed s = 0 \<or> MAX_JSON_SAFE_INTEGER < ts_observed s) (Storage BadState)"

definition load_trust_state :: "trust_disk \<Rightarrow> trust_error + trust_state option" where
  "load_trust_state d = (case dk_state d of
      Absent \<Rightarrow> Inr None
    | Unreadable \<Rightarrow> Inl (Storage StateUnreadable)
    | Stored s \<Rightarrow> and_then (validate_trust_state s) (\<lambda>_. Inr (Some s)))"

definition load_trust_chain :: "trust_env \<Rightarrow> trust_disk \<Rightarrow> trust_error + trust_chain option" where
  "load_trust_chain env d = (case dk_chain d of
      Absent \<Rightarrow> Inr None
    | Unreadable \<Rightarrow> Inl (Storage ChainUnreadable)
    | Stored chain \<Rightarrow>
        and_then (fail_if (MAX_TRUST_CHAIN_BYTES < te_chain_size env (tc_roots chain)) (Storage ChainTooLarge)) (\<lambda>_.
        and_then (chain_shape chain) (\<lambda>_. Inr (Some chain))))"

definition validate_state :: "catalog_state \<Rightarrow> trust_error + unit" where
  "validate_state s =
    fail_if (cs_version s \<notin> {1, 2} \<or> cs_highest s = 0 \<or> MAX_JSON_SAFE_INTEGER < cs_highest s \<or> \<not> valid_sha256 (cs_sha256 s)
      \<or> \<not> valid_key_id (cs_signing_key_id s) \<or> cs_root_version s = 0 \<or> MAX_JSON_SAFE_INTEGER < cs_root_version s
      \<or> (cs_version s = 1 \<and> cs_root_version s \<noteq> 1)) (Storage BadCatalogState)"

definition load_state :: "trust_disk \<Rightarrow> trust_error + catalog_state option" where
  "load_state d = (case dk_catalog d of
      Absent \<Rightarrow> Inr None
    | Unreadable \<Rightarrow> Inl (Storage CatalogStateUnreadable)
    | Stored s \<Rightarrow> and_then (validate_state s) (\<lambda>_. Inr (Some s)))"

definition catalog_state_trust_root_version_for_recovery :: "trust_disk \<Rightarrow> trust_error + nat option" where
  "catalog_state_trust_root_version_for_recovery d =
    and_then (load_state d) (\<lambda>s. Inr (map_option cs_root_version s))"

definition write_trust_state :: "active_root \<Rightarrow> nat \<Rightarrow> unit trust_op" where
  "write_trust_state r observed = write_file (\<lambda>d. d\<lparr>dk_state := Stored
     \<lparr>ts_version = 1, ts_highest = root_version r, ts_sha256 = ar_sha256 r, ts_observed = observed\<rparr>\<rparr>)"

definition write_trust_chain :: "trust_chain \<Rightarrow> unit trust_op" where
  "write_trust_chain chain = write_file (\<lambda>d. d\<lparr>dk_chain := Stored chain\<rparr>)"

definition no_roots :: trust_chain where "no_roots = \<lparr>tc_version = 1, tc_roots = []\<rparr>"

definition make_directory :: "trust_disk \<Rightarrow> trust_disk" where "make_directory d = d\<lparr>dk_directory := True\<rparr>"

section \<open>Loading the active root\<close>

definition active_from_chain ::
  "trust_env \<Rightarrow> active_root \<Rightarrow> trust_state \<Rightarrow> trust_chain option \<Rightarrow> trust_error + active_root" where
  "active_from_chain env embedded s chain =
    and_then (ok_or chain (Storage ChainMissing)) (\<lambda>chain.
    and_then (verify_chain_from_embedded env embedded chain) (\<lambda>active.
    and_then (fail_if (root_version active \<noteq> ts_highest s \<or> ar_sha256 active \<noteq> ts_sha256 s) (Storage ChainStateMismatch)) (\<lambda>_.
    Inr active)))"

definition load_active_trust_root :: "trust_env \<Rightarrow> bool \<Rightarrow> active_root trust_op" where
  "load_active_trust_root env read_only d =
    st_then (embedded_trust_root env, d) (\<lambda>embedded d.
    st_then (load_trust_state d, d) (\<lambda>state d.
    st_then (load_trust_chain env d, d) (\<lambda>chain d.
    case state of
      None \<Rightarrow> (if chain = None then Inr embedded else Inl (Storage ChainWithoutState), d)
    | Some s \<Rightarrow>
        st_then (validate_trust_state s, d) (\<lambda>_ d.
        if ts_highest s < root_version embedded then
          if read_only then (Inr embedded, d)
          else
            st_then (write_trust_state embedded (ts_observed s) d) (\<lambda>_ d.
            st_then (write_trust_chain no_roots d) (\<lambda>_ d. (Inr embedded, d)))
        else if ts_highest s = root_version embedded then
          (if ts_sha256 s \<noteq> ar_sha256 embedded then Inl (Storage EmbeddedConflict) else Inr embedded, d)
        else (active_from_chain env embedded s chain, d)))))"

section \<open>Time\<close>

definition system_unix_seconds :: "trust_env \<Rightarrow> trust_error + nat" where
  "system_unix_seconds env = ok_or (te_now env) (Storage ClockBeforeEpoch)"

definition observed_now_locked :: "trust_env \<Rightarrow> trust_disk \<Rightarrow> trust_error + nat" where
  "observed_now_locked env d =
    and_then (system_unix_seconds env) (\<lambda>system.
    and_then (load_trust_state d) (\<lambda>state.
    Inr (case state of None \<Rightarrow> system | Some s \<Rightarrow> max system (ts_observed s))))"

definition require_fresh_root :: "active_root \<Rightarrow> nat \<Rightarrow> trust_error + unit" where
  "require_fresh_root r now =
    and_then (fail_if (add_saturating now MAX_ISSUED_AT_FUTURE_SKEW_SECONDS < td_issued_at (ar_document r)) (Rotation NotValidYet)) (\<lambda>_.
    fail_if (is_expired_at r now) (Rotation Expired))"

definition effective_now_locked :: "trust_env \<Rightarrow> active_root \<Rightarrow> trust_disk \<Rightarrow> trust_error + nat" where
  "effective_now_locked env r d =
    and_then (system_unix_seconds env) (\<lambda>system.
    and_then (load_trust_state d) (\<lambda>state. case state of
      None \<Rightarrow> Inr system
    | Some s \<Rightarrow>
        and_then (validate_trust_state s) (\<lambda>_.
        and_then (fail_if (ts_highest s \<noteq> root_version r \<or> ts_sha256 s \<noteq> ar_sha256 r) (Storage StateRootMismatch)) (\<lambda>_.
        Inr (max system (ts_observed s))))))"

definition effective_now_and_record_locked :: "trust_env \<Rightarrow> active_root \<Rightarrow> nat trust_op" where
  "effective_now_and_record_locked env r d =
    st_then (effective_now_locked env r d, d) (\<lambda>now d.
    st_then (load_trust_state d, d) (\<lambda>state d.
    if (case state of None \<Rightarrow> True | Some s \<Rightarrow> ts_observed s < now)
    then st_then (write_trust_state r now d) (\<lambda>_ d. (Inr now, d))
    else (Inr now, d)))"

section \<open>Importing a root\<close>

datatype import_start = AlreadyActive active_root | ExtendFrom active_root trust_chain

definition chain_or_empty :: "trust_env \<Rightarrow> trust_disk \<Rightarrow> trust_error + trust_chain" where
  "chain_or_empty env d =
    and_then (load_trust_chain env d) (\<lambda>chain. Inr (case chain of None \<Rightarrow> no_roots | Some chain \<Rightarrow> chain))"

text \<open>An import that was interrupted after the floor was written is resumed from the last complete chain.\<close>

definition resume_import :: "trust_env \<Rightarrow> active_root \<Rightarrow> trust_error \<Rightarrow> trust_disk \<Rightarrow> trust_error + import_start" where
  "resume_import env candidate original_error d =
    and_then (load_trust_state d) (\<lambda>state.
    and_then (ok_or state original_error) (\<lambda>s.
    and_then (fail_if (ts_highest s \<noteq> root_version candidate \<or> ts_sha256 s \<noteq> ar_sha256 candidate) original_error) (\<lambda>_.
    and_then (chain_or_empty env d) (\<lambda>chain.
    and_then (embedded_trust_root env) (\<lambda>embedded.
    and_then (verify_chain_from_embedded env embedded chain) (\<lambda>previous.
    Inr (ExtendFrom previous chain)))))))"

definition start_import :: "trust_env \<Rightarrow> active_root \<Rightarrow> import_start trust_op" where
  "start_import env candidate d = (case load_active_trust_root env False d of
      (Inr current, d) \<Rightarrow>
        if root_version current = root_version candidate \<and> ar_sha256 current = ar_sha256 candidate
        then (Inr (AlreadyActive current), d)
        else (and_then (chain_or_empty env d) (\<lambda>chain. Inr (ExtendFrom current chain)), d)
    | (Inl original_error, d) \<Rightarrow> (resume_import env candidate original_error d, d))"

definition extend_chain :: "trust_env \<Rightarrow> string \<Rightarrow> signature_record list \<Rightarrow> trust_chain \<Rightarrow> trust_chain" where
  "extend_chain env bytes signatures chain = chain\<lparr>tc_roots := tc_roots chain @
     [\<lparr>en_root_base64 = te_base64_encode env bytes, en_signatures = signatures, en_source = ''local-import''\<rparr>]\<rparr>"

definition publish_root ::
  "trust_env \<Rightarrow> string \<Rightarrow> signature_record list \<Rightarrow> active_root \<Rightarrow> active_root \<Rightarrow> trust_chain \<Rightarrow> active_root trust_op" where
  "publish_root env bytes signatures candidate current chain d =
    st_then (verify_root_transition env current candidate bytes signatures, d) (\<lambda>_ d.
    st_then (observed_now_locked env d, d) (\<lambda>now d.
    st_then (require_fresh_root candidate now, d) (\<lambda>_ d.
    st_then (fail_if (MAX_ROOT_CHAIN_LENGTH \<le> length (tc_roots chain)) (Rotation ChainFull), d) (\<lambda>_ d.
    st_then (write_trust_state candidate now d) (\<lambda>_ d.
    st_then (write_trust_chain (extend_chain env bytes signatures chain) d) (\<lambda>_ d.
    (Inr candidate, d)))))))"

definition MAX_TRUST_SIGNATURE_BUNDLE_BYTES :: nat where "MAX_TRUST_SIGNATURE_BUNDLE_BYTES = 256 * 1024"

definition import_trust_root :: "trust_env \<Rightarrow> string \<Rightarrow> string \<Rightarrow> active_root trust_op" where
  "import_trust_root env bytes bundle_bytes d =
    st_then (fail_if (MAX_TRUST_ROOT_BYTES < length bytes) (Root RootTooLarge), d) (\<lambda>_ d.
    st_then (fail_if (MAX_TRUST_SIGNATURE_BUNDLE_BYTES < length bundle_bytes) (Signing BadBundle), d) (\<lambda>_ d.
    st_then (parse_signature_bundle env bundle_bytes, d) (\<lambda>signatures d.
    st_then (parse_trust_root env bytes (SignedRoot ''local-import''), make_directory d) (\<lambda>candidate d.
    st_then (start_import env candidate d) (\<lambda>start d. case start of
      AlreadyActive current \<Rightarrow> (Inr current, d)
    | ExtendFrom current chain \<Rightarrow> publish_root env bytes signatures candidate current chain d)))))"

section \<open>Recovery\<close>

definition recover_embedded_trust_root :: "trust_env \<Rightarrow> active_root trust_op" where
  "recover_embedded_trust_root env d =
    st_then (embedded_trust_root env, make_directory d) (\<lambda>embedded d.
    st_then (catalog_state_trust_root_version_for_recovery d, d) (\<lambda>catalog_root d.
    st_then (fail_if (case catalog_root of None \<Rightarrow> False | Some v \<Rightarrow> root_version embedded < v) (Storage BelowCatalogAuthority), d) (\<lambda>_ d.
    let state = (case load_trust_state d of Inl _ \<Rightarrow> None | Inr state \<Rightarrow> state) in
    st_then (fail_if (case state of None \<Rightarrow> False | Some s \<Rightarrow> root_version embedded < ts_highest s) (Storage RootRollback), d) (\<lambda>_ d.
    st_then (case state of Some s \<Rightarrow> Inr (ts_observed s) | None \<Rightarrow> system_unix_seconds env, d) (\<lambda>observed d.
    st_then (write_trust_state embedded observed d) (\<lambda>_ d.
    st_then (write_trust_chain no_roots d) (\<lambda>_ d. (Inr embedded, d))))))))"

definition reset_trust_time_floor :: "trust_env \<Rightarrow> active_root trust_op" where
  "reset_trust_time_floor env d =
    st_then (load_active_trust_root env False (make_directory d)) (\<lambda>r d.
    st_then (catalog_state_trust_root_version_for_recovery d, d) (\<lambda>catalog_root d.
    st_then (fail_if (case catalog_root of None \<Rightarrow> False | Some v \<Rightarrow> root_version r < v) (Storage BelowCatalogAuthority), d) (\<lambda>_ d.
    st_then (system_unix_seconds env, d) (\<lambda>now d.
    st_then (require_fresh_root r now, d) (\<lambda>_ d.
    st_then (write_trust_state r now d) (\<lambda>_ d. (Inr r, d)))))))"

section \<open>Status\<close>

record trust_root_status =
  rs_version :: nat
  rs_sha256 :: string
  rs_issued_at :: nat
  rs_expires_at :: nat
  rs_expired :: bool
  rs_threshold :: nat
  rs_root_key_ids :: "string list"
  rs_catalog_key_ids :: "string list"
  rs_origin :: root_origin
  rs_highest_accepted :: nat
  rs_highest_observed :: "nat option"

text \<open>The path of the chain is left out.\<close>

definition status_for_root :: "trust_env \<Rightarrow> active_root \<Rightarrow> trust_disk \<Rightarrow> trust_error + trust_root_status" where
  "status_for_root env r d =
    and_then (load_trust_state d) (\<lambda>state.
    and_then (system_unix_seconds env) (\<lambda>system.
    let now = (case state of None \<Rightarrow> system | Some s \<Rightarrow> max system (ts_observed s)) in
    Inr \<lparr>rs_version = root_version r, rs_sha256 = ar_sha256 r, rs_issued_at = td_issued_at (ar_document r),
      rs_expires_at = root_expires_at r, rs_expired = is_expired_at r now, rs_threshold = td_threshold (ar_document r),
      rs_root_key_ids = sort (map kr_key_id (td_root_keys (ar_document r))),
      rs_catalog_key_ids = sort (map ck_key_id (td_catalog_keys (ar_document r))),
      rs_origin = ar_origin r, rs_highest_accepted = root_version r, rs_highest_observed = map_option ts_observed state\<rparr>))"

definition trust_root_status_of :: "trust_env \<Rightarrow> trust_disk \<Rightarrow> (trust_error + trust_root_status) \<times> trust_disk" where
  "trust_root_status_of env d =
    st_then (if dk_directory d then load_active_trust_root env False d else (embedded_trust_root env, d)) (\<lambda>r d.
    (status_for_root env r d, d))"

end
