(* ===== verification/Catalog_Document.thy ===== *)
theory Catalog_Document
  imports Trust_Root
begin

text \<open>
  Catalog documents (\<open>src/src/models/catalog.rs\<close>): the validation of the models of a catalog, of
  its validity window and of its signature under a trust root, and the catalog that results.
\<close>

section \<open>Catalogs\<close>

definition MAX_CATALOG_BYTES :: nat where "MAX_CATALOG_BYTES = 1024 * 1024"
definition MAX_MODELS :: nat where "MAX_MODELS = 256"
definition MAX_MODEL_BYTES :: nat where "MAX_MODEL_BYTES = 64 * 1024 * 1024 * 1024"
definition MAX_BUNDLE_METADATA_FILE_BYTES :: nat where "MAX_BUNDLE_METADATA_FILE_BYTES = 1024 * 1024"

datatype catalog_origin = EmbeddedCatalog | SignedCatalog string

record catalog_identity =
  ci_sequence :: nat
  ci_sha256 :: string
  ci_signing_key_id :: string
  ci_public_key :: string
  ci_issued_at :: "nat option"
  ci_expires_at :: "nat option"
  ci_root_version :: nat
  ci_origin :: catalog_origin

record catalog_model = model_document +
  cm_catalog :: catalog_identity

record model_catalog =
  mc_identity :: catalog_identity
  mc_models :: "catalog_model list"

definition mc_sequence :: "model_catalog \<Rightarrow> nat" where "mc_sequence c = ci_sequence (mc_identity c)"
definition mc_sha256 :: "model_catalog \<Rightarrow> string" where "mc_sha256 c = ci_sha256 (mc_identity c)"
definition mc_signing_key_id :: "model_catalog \<Rightarrow> string" where "mc_signing_key_id c = ci_signing_key_id (mc_identity c)"

text \<open>An exact name, or a backend that only one model has.\<close>

definition find_model :: "model_catalog \<Rightarrow> string \<Rightarrow> catalog_model option" where
  "find_model c name =
    (case find (\<lambda>model. md_name model = name) (mc_models c) of
       Some model \<Rightarrow> Some model
     | None \<Rightarrow> (case filter (\<lambda>model. md_backend model = name) (mc_models c) of [model] \<Rightarrow> Some model | _ \<Rightarrow> None))"

datatype verification_mode = Historical nat | Current nat

definition enforces_policy :: "verification_mode \<Rightarrow> bool" where
  "enforces_policy mode = (case mode of Current _ \<Rightarrow> True | Historical _ \<Rightarrow> False)"

section \<open>Names and texts\<close>

definition validate_identifier :: "string \<Rightarrow> trust_error + unit" where
  "validate_identifier v = fail_if
    (v = [] \<or> 64 < length v
     \<or> \<not> list_all (\<lambda>b. is_ascii_lowercase b \<or> is_ascii_digit b \<or> b = CHR ''-'' \<or> b = CHR ''_'') v
     \<or> \<not> is_ascii_alphanumeric (hd v)) (Catalog BadIdentifier)"

definition to_ascii_uppercase :: "char \<Rightarrow> char" where
  "to_ascii_uppercase c = (if is_ascii_lowercase c then char_of (of_char c - (32::nat)) else c)"

definition digits_1_to_9 :: "string list" where
  "digits_1_to_9 = [''1'', ''2'', ''3'', ''4'', ''5'', ''6'', ''7'', ''8'', ''9'']"

definition validate_windows_device_name :: "string \<Rightarrow> trust_error + unit" where
  "validate_windows_device_name v =
    (let stem = map to_ascii_uppercase (hd (split_on CHR ''.'' v)) in
     fail_if (stem \<in> {''CON'', ''PRN'', ''AUX'', ''NUL''}
       \<or> (is_prefix ''COM'' stem \<and> drop 3 stem \<in> set digits_1_to_9)
       \<or> (is_prefix ''LPT'' stem \<and> drop 3 stem \<in> set digits_1_to_9)) (Catalog DeviceName))"

definition validate_filename :: "string \<Rightarrow> trust_error + unit" where
  "validate_filename v =
    and_then (fail_if
      (v = [] \<or> 128 < length v \<or> \<not> is_ascii_alphanumeric (hd v) \<or> last v = CHR ''.''
       \<or> \<not> list_all (\<lambda>b. is_ascii_alphanumeric b \<or> b = CHR ''.'' \<or> b = CHR ''-'' \<or> b = CHR ''_'') v)
      (Catalog BadFilename)) (\<lambda>_.
    and_then (case path_of v of [Normal _] \<Rightarrow> Inr () | _ \<Rightarrow> Inl (Catalog BadFilename)) (\<lambda>_.
    validate_windows_device_name v))"

definition validate_bounded_text :: "string \<Rightarrow> nat \<Rightarrow> trust_error + unit" where
  "validate_bounded_text v maximum = fail_if (v = [] \<or> maximum < length v \<or> has_control v) (Catalog BadText)"

definition validate_catalog_bundle_file :: "bundle_file \<Rightarrow> trust_error + unit" where
  "validate_catalog_bundle_file f =
    and_then (validate_filename (bf_filename f)) (\<lambda>_.
    and_then (fail_if (\<not> valid_sha256 (bf_sha256 f)) (Catalog BadModelDigest)) (\<lambda>_.
    fail_if (bf_size f = 0 \<or> MAX_BUNDLE_METADATA_FILE_BYTES < bf_size f) (Catalog BundleFileSize)))"

section \<open>Validation\<close>

definition validate_catalog_validity ::
  "catalog_document \<Rightarrow> active_root \<Rightarrow> verification_mode \<Rightarrow> trust_error + unit" where
  "validate_catalog_validity d r mode =
    and_then
      (case (cd_issued_at d, cd_expires_at d) of
         (Some issued_at, Some expires_at) \<Rightarrow>
           and_then (fail_if
             (issued_at = 0 \<or> MAX_JSON_SAFE_INTEGER < issued_at \<or> expires_at = 0 \<or> MAX_JSON_SAFE_INTEGER < expires_at
              \<or> expires_at \<le> issued_at
              \<or> (enforces_policy mode \<and> td_max_validity (ar_document r) < expires_at - issued_at)) (Root BadValidityWindow))
             (\<lambda>_. Inr (Some (issued_at, expires_at)))
       | (None, None) \<Rightarrow> Inr None
       | _ \<Rightarrow> Inl (Catalog IncompleteWindow)) (\<lambda>validity.
    case mode of
      Historical _ \<Rightarrow> Inr ()
    | Current now \<Rightarrow>
        and_then (fail_if (td_expiration_required_from (ar_document r) \<le> cd_sequence d \<and> validity = None)
          (Catalog ExpirationMissing)) (\<lambda>_.
        case validity of
          None \<Rightarrow> Inr ()
        | Some (issued_at, expires_at) \<Rightarrow>
            and_then (fail_if (add_saturating now (24 * 60 * 60) < issued_at) (Catalog CatalogNotValidYet)) (\<lambda>_.
            fail_if (expires_at \<le> now) (Catalog CatalogExpired))))"

definition catalog_origin_is_safe :: "trust_env \<Rightarrow> catalog_origin \<Rightarrow> bool" where
  "catalog_origin_is_safe env origin =
    (case origin of EmbeddedCatalog \<Rightarrow> True | SignedCatalog source \<Rightarrow> is_ok (validate_catalog_source env source))"

definition validate_offline_bundle :: "model_document \<Rightarrow> trust_error + unit" where
  "validate_offline_bundle m =
    (case md_offline_bundle m of
       None \<Rightarrow> Inr ()
     | Some (license, provenance) \<Rightarrow>
         and_then (validate_catalog_bundle_file license) (\<lambda>_.
         and_then (validate_catalog_bundle_file provenance) (\<lambda>_.
         fail_if (bf_filename license = md_filename m \<or> bf_filename provenance = md_filename m
           \<or> bf_filename license = bf_filename provenance) (Catalog BundleFilenames))))"

definition validate_model_url :: "trust_env \<Rightarrow> string \<Rightarrow> trust_error + unit" where
  "validate_model_url env address =
    and_then (ok_or (te_url env address) (Catalog BadUrl)) (\<lambda>url.
    fail_if (url_scheme url \<noteq> ''https'' \<or> \<not> url_host url \<or> url_username url \<noteq> [] \<or> url_password url
      \<or> url_fragment url) (Catalog BadUrl))"

text \<open>One round of the loop over the models; \<open>names\<close> are those seen so far.\<close>

definition admit_model ::
  "trust_env \<Rightarrow> catalog_identity \<Rightarrow> string list \<times> catalog_model list \<Rightarrow> model_document
   \<Rightarrow> trust_error + string list \<times> catalog_model list" where
  "admit_model env identity = (\<lambda>(names, models) m.
    and_then (validate_identifier (md_name m)) (\<lambda>_.
    and_then (validate_windows_device_name (md_name m)) (\<lambda>_.
    and_then (validate_identifier (md_backend m)) (\<lambda>_.
    and_then (fail_if (md_name m \<in> set names) (Catalog DuplicateModel)) (\<lambda>_.
    and_then (validate_filename (md_filename m)) (\<lambda>_.
    and_then (validate_bounded_text (md_revision m) 128) (\<lambda>_.
    and_then (validate_bounded_text (md_license m) 128) (\<lambda>_.
    and_then (fail_if (\<not> valid_sha256 (md_sha256 m)) (Catalog BadModelDigest)) (\<lambda>_.
    and_then (fail_if (md_size m = 0 \<or> MAX_MODEL_BYTES < md_size m) (Catalog ModelSize)) (\<lambda>_.
    and_then (fail_if (md_sample_rate m < 8000 \<or> 768000 < md_sample_rate m) (Catalog SampleRate)) (\<lambda>_.
    and_then (validate_offline_bundle m) (\<lambda>_.
    and_then (validate_model_url env (md_url m)) (\<lambda>_.
    Inr (md_name m # names, models @ [model_document.extend m (catalog_model.fields identity)]))))))))))))))"

definition document_identity ::
  "trust_env \<Rightarrow> catalog_document \<Rightarrow> string \<Rightarrow> catalog_origin \<Rightarrow> active_root \<Rightarrow> catalog_key \<Rightarrow> verification_mode
   \<Rightarrow> catalog_identity" where
  "document_identity env d bytes origin r trusted_key mode =
    \<lparr>ci_sequence = cd_sequence d, ci_sha256 = te_sha256 env bytes, ci_signing_key_id = cd_signing_key_id d,
     ci_public_key = ck_public_key trusted_key, ci_issued_at = cd_issued_at d, ci_expires_at = cd_expires_at d,
     ci_root_version = (case mode of Historical accepted \<Rightarrow> accepted | Current _ \<Rightarrow> root_version r),
     ci_origin = origin\<rparr>"

definition validate_document ::
  "trust_env \<Rightarrow> catalog_document \<Rightarrow> string \<Rightarrow> catalog_origin \<Rightarrow> active_root \<Rightarrow> catalog_key \<Rightarrow> verification_mode
   \<Rightarrow> trust_error + model_catalog" where
  "validate_document env d bytes origin r trusted_key mode =
    and_then (fail_if (\<not> catalog_origin_is_safe env origin) (Catalog BadOrigin)) (\<lambda>_.
    and_then (fail_if (cd_schema d \<noteq> ''denoize-model-catalog-v1'') (Catalog CatalogSchema)) (\<lambda>_.
    and_then (fail_if (cd_sequence d = 0 \<or> MAX_JSON_SAFE_INTEGER < cd_sequence d) (Catalog SequenceRange)) (\<lambda>_.
    and_then (validate_catalog_validity d r mode) (\<lambda>_.
    and_then (fail_if (cd_models d = [] \<or> MAX_MODELS < length (cd_models d)) (Catalog ModelCount)) (\<lambda>_.
    let identity = document_identity env d bytes origin r trusted_key mode in
    and_then (try_fold (admit_model env identity) ([], []) (cd_models d)) (\<lambda>(_, models).
    Inr \<lparr>mc_identity = identity, mc_models = models\<rparr>))))))"

section \<open>Verification\<close>

definition require_key :: "active_root \<Rightarrow> catalog_document \<Rightarrow> verification_mode \<Rightarrow> trust_error + catalog_key" where
  "require_key r d mode =
    and_then (ok_or (find_catalog_key r (cd_signing_key_id d)) (Catalog UntrustedKey)) (\<lambda>key.
    and_then (fail_if (enforces_policy mode \<and> \<not> accepts key (cd_sequence d)) (Catalog KeyOutsideSequence)) (\<lambda>_.
    Inr key))"

definition parse_catalog_with_root ::
  "trust_env \<Rightarrow> string \<Rightarrow> catalog_origin \<Rightarrow> active_root \<Rightarrow> verification_mode \<Rightarrow> trust_error + model_catalog" where
  "parse_catalog_with_root env bytes origin r mode =
    and_then (ok_or (te_parse_catalog env bytes) (Catalog CatalogNotJson)) (\<lambda>d.
    and_then (require_key r d mode) (\<lambda>key.
    validate_document env d bytes origin r key mode))"

definition verify_signed_catalog_with_root ::
  "trust_env \<Rightarrow> string \<Rightarrow> string \<Rightarrow> catalog_origin \<Rightarrow> active_root \<Rightarrow> verification_mode \<Rightarrow> trust_error + model_catalog" where
  "verify_signed_catalog_with_root env bytes signature_bytes origin r mode =
    and_then (fail_if (MAX_CATALOG_BYTES < length bytes) (Catalog CatalogTooLarge)) (\<lambda>_.
    and_then (fail_if (MAX_SIGNATURE_BYTES < length signature_bytes) (Signing SignatureTooLarge)) (\<lambda>_.
    and_then (ok_or (te_parse_catalog env bytes) (Catalog CatalogNotJson)) (\<lambda>d.
    and_then (require_key r d mode) (\<lambda>key.
    and_then (decode_signature_text env signature_bytes) (\<lambda>signature.
    and_then (fail_if (\<not> te_signature env signature) (Signing BadSignature)) (\<lambda>_.
    and_then (fail_if (\<not> te_public_key env (ck_public_key key)) (Signing BadPublicKey)) (\<lambda>_.
    and_then (fail_if (\<not> te_verify env (ck_public_key key) bytes signature) (Signing SignatureRefused)) (\<lambda>_.
    validate_document env d bytes origin r key mode))))))))"

text \<open>The embedded catalog; the program panics where this is an error.\<close>

definition embedded_catalog :: "trust_env \<Rightarrow> trust_error + model_catalog" where
  "embedded_catalog env =
    and_then (embedded_trust_root env) (\<lambda>r.
    parse_catalog_with_root env (te_embedded_catalog env) EmbeddedCatalog r (Historical (root_version r)))"

end
