(* ===== verification/Model_Catalog.thy ===== *)
theory Model_Catalog
  imports Trust_Store Catalog_Document
begin

text \<open>
  The active model catalog (\<open>src/src/models/catalog.rs\<close>): which catalog is active under the rollback
  floor on disk, the activation of a signed catalog, and the permission to acquire models from one.
  Every operation is a function of the disk of \<open>Trust_Store\<close>. An operation that takes the lock twice is
  the composition of its two halves.
\<close>

section \<open>Documents on disk\<close>

definition load_envelope :: "trust_env \<Rightarrow> trust_disk \<Rightarrow> trust_error + catalog_envelope option" where
  "load_envelope env d = (case dk_envelope d of
      Absent \<Rightarrow> Inr None
    | Unreadable \<Rightarrow> Inl (Storage EnvelopeUnreadable)
    | Stored e \<Rightarrow>
        and_then (fail_if (ce_version e \<noteq> 1 \<or> MAX_SIGNATURE_BYTES < length (ce_signature e)) (Storage BadEnvelope)) (\<lambda>_.
        and_then (map_err (\<lambda>_. Storage BadEnvelope) (validate_catalog_source env (ce_source e))) (\<lambda>_.
        Inr (Some e))))"

definition write_catalog_identity_state :: "catalog_identity \<Rightarrow> unit trust_op" where
  "write_catalog_identity_state identity = write_file (\<lambda>d. d\<lparr>dk_catalog := Stored
     \<lparr>cs_version = 2, cs_highest = ci_sequence identity, cs_sha256 = ci_sha256 identity,
      cs_signing_key_id = ci_signing_key_id identity, cs_root_version = ci_root_version identity\<rparr>\<rparr>)"

definition write_catalog_state :: "model_catalog \<Rightarrow> unit trust_op" where
  "write_catalog_state catalog = write_catalog_identity_state (mc_identity catalog)"

definition write_envelope :: "catalog_envelope \<Rightarrow> unit trust_op" where
  "write_envelope e = write_file (\<lambda>d. d\<lparr>dk_envelope := Stored e\<rparr>)"

definition state_matches_catalog :: "catalog_state \<Rightarrow> model_catalog \<Rightarrow> bool" where
  "state_matches_catalog s c \<longleftrightarrow> cs_highest s = mc_sequence c \<and> cs_sha256 s = mc_sha256 c
     \<and> cs_signing_key_id s = mc_signing_key_id c \<and> cs_root_version s = ci_root_version (mc_identity c)"

section \<open>The active catalog\<close>

definition cached_catalog ::
  "trust_env \<Rightarrow> model_catalog \<Rightarrow> active_root \<Rightarrow> catalog_state \<Rightarrow> catalog_envelope \<Rightarrow> trust_error + model_catalog" where
  "cached_catalog env embedded r s e =
    and_then (validate_state s) (\<lambda>_.
    and_then (ok_or (te_base64 env (ce_catalog_base64 e)) (Storage EnvelopeNotBase64)) (\<lambda>bytes.
    and_then (fail_if (MAX_CATALOG_BYTES < length bytes) (Catalog CatalogTooLarge)) (\<lambda>_.
    and_then (verify_signed_catalog_with_root env bytes (ce_signature e) (SignedCatalog (ce_source e)) r
      (Historical (cs_root_version s))) (\<lambda>c.
    and_then (fail_if (mc_sequence c < cs_highest s) (Storage CatalogRollback)) (\<lambda>_.
    and_then (fail_if (mc_sequence c \<noteq> cs_highest s \<or> mc_sha256 c \<noteq> cs_sha256 s
      \<or> mc_signing_key_id c \<noteq> cs_signing_key_id s) (Storage CatalogStateMismatch)) (\<lambda>_.
    and_then (fail_if (mc_sequence c < mc_sequence embedded) (Catalog PredatesEmbedded)) (\<lambda>_.
    and_then (fail_if (mc_sequence c = mc_sequence embedded \<and> (mc_sha256 c \<noteq> mc_sha256 embedded
      \<or> mc_signing_key_id c \<noteq> mc_signing_key_id embedded)) (Catalog ConflictsEmbedded)) (\<lambda>_.
    Inr c))))))))"

definition load_active_catalog_locked ::
  "trust_env \<Rightarrow> model_catalog \<Rightarrow> active_root \<Rightarrow> trust_disk \<Rightarrow> trust_error + model_catalog" where
  "load_active_catalog_locked env embedded r d =
    and_then (load_state d) (\<lambda>state.
    if (case state of None \<Rightarrow> False | Some s \<Rightarrow> cs_highest s < mc_sequence embedded) then Inr embedded
    else if (case state of None \<Rightarrow> False | Some s \<Rightarrow> state_matches_catalog s embedded) then Inr embedded
    else
      and_then (load_envelope env d) (\<lambda>e.
      case (state, e) of
        (None, None) \<Rightarrow> Inr embedded
      | (Some s, None) \<Rightarrow> Inl (Storage EnvelopeMissing)
      | (None, Some e) \<Rightarrow> Inl (Storage EnvelopeWithoutState)
      | (Some s, Some e) \<Rightarrow> cached_catalog env embedded r s e))"

definition active_catalog :: "trust_env \<Rightarrow> model_catalog trust_op" where
  "active_catalog env d =
    (if dk_directory d then
       st_then (load_active_trust_root env False d) (\<lambda>r d.
       st_then (embedded_catalog env, d) (\<lambda>embedded d.
       (load_active_catalog_locked env embedded r d, d)))
     else (embedded_catalog env, d))"

definition active_catalog_read_only :: "trust_env \<Rightarrow> model_catalog trust_op" where
  "active_catalog_read_only env d =
    (if dk_directory d then
       st_then (load_active_trust_root env True d) (\<lambda>r d.
       st_then (embedded_catalog env, d) (\<lambda>embedded d.
       (load_active_catalog_locked env embedded r d, d)))
     else (embedded_catalog env, d))"

section \<open>Activation\<close>

definition validate_catalog_candidate_floor ::
  "model_catalog \<Rightarrow> model_catalog \<Rightarrow> trust_disk \<Rightarrow> trust_error + unit" where
  "validate_catalog_candidate_floor c embedded d =
    and_then (fail_if (mc_sequence c < mc_sequence embedded) (Catalog PredatesEmbedded)) (\<lambda>_.
    and_then (fail_if (mc_sequence c = mc_sequence embedded \<and> (mc_sha256 c \<noteq> mc_sha256 embedded
      \<or> mc_signing_key_id c \<noteq> mc_signing_key_id embedded)) (Catalog ConflictsEmbedded)) (\<lambda>_.
    and_then (load_state d) (\<lambda>state. case state of
      None \<Rightarrow> Inr ()
    | Some s \<Rightarrow>
        and_then (fail_if (mc_sequence c < cs_highest s) (Storage CatalogRollback)) (\<lambda>_.
        fail_if (mc_sequence c = cs_highest s \<and> (mc_sha256 c \<noteq> cs_sha256 s
          \<or> mc_signing_key_id c \<noteq> cs_signing_key_id s)) (Catalog DifferentContent)))))"

definition catalog_envelope_of :: "trust_env \<Rightarrow> string \<Rightarrow> string \<Rightarrow> string \<Rightarrow> catalog_envelope" where
  "catalog_envelope_of env bytes signature source =
    \<lparr>ce_version = 1, ce_catalog_base64 = te_base64_encode env bytes, ce_signature = signature, ce_source = source\<rparr>"

text \<open>The part under the lock: \<open>None\<close> where the envelope was written.\<close>

definition activate_locked ::
  "trust_env \<Rightarrow> string \<Rightarrow> string \<Rightarrow> string \<Rightarrow> model_catalog option trust_op" where
  "activate_locked env bytes signature source d =
    st_then (load_active_trust_root env False d) (\<lambda>r d.
    st_then (effective_now_and_record_locked env r d) (\<lambda>now d.
    st_then (require_fresh_root r now, d) (\<lambda>_ d.
    st_then (verify_signed_catalog_with_root env bytes signature (SignedCatalog source) r (Current now), d) (\<lambda>c d.
    st_then (embedded_catalog env, d) (\<lambda>embedded d.
    st_then (validate_catalog_candidate_floor c embedded d, d) (\<lambda>_ d.
    if mc_sequence c = mc_sequence embedded then
      st_then (write_catalog_state embedded d) (\<lambda>_ d. (Inr (Some embedded), d))
    else
      st_then (write_catalog_state c d) (\<lambda>_ d.
      st_then (fail_if (\<not> utf8_text signature) (Signing SignatureNotUtf8), d) (\<lambda>_ d.
      st_then (write_envelope (catalog_envelope_of env bytes signature source) d) (\<lambda>_ d.
      (Inr None, d))))))))))"

definition activate_signed_catalog ::
  "trust_env \<Rightarrow> string \<Rightarrow> string \<Rightarrow> string \<Rightarrow> model_catalog trust_op" where
  "activate_signed_catalog env bytes signature source d =
    st_then (validate_catalog_source env source, d) (\<lambda>_ d.
    st_then (activate_locked env bytes signature source (make_directory d)) (\<lambda>embedded d. case embedded of
      Some embedded \<Rightarrow> (Inr embedded, d)
    | None \<Rightarrow> active_catalog env d))"

definition import_catalog :: "trust_env \<Rightarrow> string \<Rightarrow> string \<Rightarrow> model_catalog trust_op" where
  "import_catalog env bytes signature d =
    st_then (fail_if (MAX_CATALOG_BYTES < length bytes) (Catalog CatalogTooLarge), d) (\<lambda>_ d.
    st_then (fail_if (MAX_SIGNATURE_BYTES < length signature) (Signing SignatureTooLarge), d) (\<lambda>_ d.
    activate_signed_catalog env bytes signature ''local-import'' d))"

record verified_bundle =
  vb_catalog :: model_catalog
  vb_root_version :: nat
  vb_root_sha256 :: string

definition verify_bundle_with ::
  "trust_env \<Rightarrow> string \<Rightarrow> string \<Rightarrow> active_root \<Rightarrow> trust_disk \<Rightarrow> trust_error + verified_bundle" where
  "verify_bundle_with env bytes signature r d =
    and_then (effective_now_locked env r d) (\<lambda>now.
    and_then (require_fresh_root r now) (\<lambda>_.
    and_then (verify_signed_catalog_with_root env bytes signature (SignedCatalog ''local-import'') r (Current now)) (\<lambda>c.
    and_then (embedded_catalog env) (\<lambda>embedded.
    and_then (validate_catalog_candidate_floor c embedded d) (\<lambda>_.
    Inr \<lparr>vb_catalog = c, vb_root_version = root_version r, vb_root_sha256 = ar_sha256 r\<rparr>)))))"

definition verify_bundle_catalog :: "trust_env \<Rightarrow> string \<Rightarrow> string \<Rightarrow> verified_bundle trust_op" where
  "verify_bundle_catalog env bytes signature d =
    st_then (if dk_directory d then load_active_trust_root env False d else (embedded_trust_root env, d)) (\<lambda>r d.
    (verify_bundle_with env bytes signature r d, d))"

section \<open>Acquisition\<close>

definition validate_acquisition_authority ::
  "catalog_identity \<Rightarrow> active_root \<Rightarrow> nat \<Rightarrow> catalog_state option \<Rightarrow> trust_error + unit" where
  "validate_acquisition_authority identity r now state =
    and_then (require_fresh_root r now) (\<lambda>_.
    and_then (case state of
        Some s \<Rightarrow> fail_if (cs_highest s \<noteq> ci_sequence identity \<or> cs_sha256 s \<noteq> ci_sha256 identity
          \<or> cs_signing_key_id s \<noteq> ci_signing_key_id identity) (Catalog NotActive)
      | None \<Rightarrow> fail_if (ci_origin identity \<noteq> EmbeddedCatalog) (Catalog NoActiveState)) (\<lambda>_.
    and_then (ok_or (find_catalog_key r (ci_signing_key_id identity)) (Catalog UntrustedKey)) (\<lambda>key.
    and_then (fail_if (ck_public_key key \<noteq> ci_public_key identity \<or> \<not> accepts key (ci_sequence identity))
      (Catalog KeyChanged)) (\<lambda>_.
    and_then (fail_if (td_expiration_required_from (ar_document r) \<le> ci_sequence identity \<and> ci_expires_at identity = None)
      (Catalog ExpirationMissing)) (\<lambda>_.
    and_then (case (ci_issued_at identity, ci_expires_at identity) of
        (Some issued, Some expires) \<Rightarrow>
          if issued < expires \<and> expires - issued \<le> td_max_validity (ar_document r) then Inr ()
          else Inl (Catalog ValidityExceeded)
      | (None, None) \<Rightarrow> Inr ()
      | _ \<Rightarrow> Inl (Catalog IncompleteWindow)) (\<lambda>_.
    and_then (fail_if (case ci_issued_at identity of None \<Rightarrow> False
      | Some issued \<Rightarrow> add_saturating now (24 * 60 * 60) < issued) (Catalog CatalogNotValidYet)) (\<lambda>_.
    fail_if (case ci_expires_at identity of None \<Rightarrow> False | Some expires \<Rightarrow> expires \<le> now) (Catalog CatalogExpired))))))))"

definition advances_embedded_floor :: "catalog_identity \<Rightarrow> catalog_state option \<Rightarrow> bool" where
  "advances_embedded_floor identity state \<longleftrightarrow>
    ci_origin identity = EmbeddedCatalog \<and> 1 < ci_sequence identity
    \<and> (case state of None \<Rightarrow> True | Some s \<Rightarrow> cs_highest s < ci_sequence identity)"

definition authority_for ::
  "catalog_identity \<Rightarrow> active_root \<Rightarrow> nat \<Rightarrow> catalog_state option \<Rightarrow> trust_error + unit" where
  "authority_for identity r now state =
    validate_acquisition_authority identity r now (if advances_embedded_floor identity state then None else state)"

definition require_catalog_acquisition :: "trust_env \<Rightarrow> catalog_identity \<Rightarrow> unit trust_op" where
  "require_catalog_acquisition env identity d =
    st_then (load_active_trust_root env False (make_directory d)) (\<lambda>r d.
    st_then (effective_now_and_record_locked env r d) (\<lambda>now d.
    st_then (load_state d, d) (\<lambda>state d.
    st_then (authority_for identity r now state, d) (\<lambda>_ d.
    if advances_embedded_floor identity state then write_catalog_identity_state identity d else (Inr (), d)))))"

definition catalog_acquisition_allowed :: "trust_env \<Rightarrow> model_catalog \<Rightarrow> bool trust_op" where
  "catalog_acquisition_allowed env c d =
    (if dk_directory d then
       st_then (load_active_trust_root env False d) (\<lambda>r d.
       st_then (effective_now_locked env r d, d) (\<lambda>now d.
       st_then (load_state d, d) (\<lambda>state d.
       (Inr (is_ok (authority_for (mc_identity c) r now state)), d))))
     else
       st_then (embedded_trust_root env, d) (\<lambda>r d.
       st_then (effective_now_locked env r d, d) (\<lambda>now d.
       (Inr (is_ok (validate_acquisition_authority (mc_identity c) r now None)), d))))"

section \<open>Status\<close>

text \<open>The path of the cached catalog is left out.\<close>

record catalog_status_report =
  cr_sequence :: nat
  cr_sha256 :: string
  cr_signing_key_id :: string
  cr_origin :: catalog_origin
  cr_model_count :: nat
  cr_highest_accepted :: nat
  cr_issued_at :: "nat option"
  cr_expires_at :: "nat option"
  cr_root_version :: nat
  cr_root_sha256 :: string
  cr_root_expires_at :: nat
  cr_root_highest_observed :: "nat option"
  cr_acquisition_allowed :: bool

definition catalog_report :: "model_catalog \<Rightarrow> trust_root_status \<Rightarrow> bool \<Rightarrow> catalog_status_report" where
  "catalog_report c r allowed =
    \<lparr>cr_sequence = mc_sequence c, cr_sha256 = mc_sha256 c, cr_signing_key_id = mc_signing_key_id c,
     cr_origin = ci_origin (mc_identity c), cr_model_count = length (mc_models c), cr_highest_accepted = mc_sequence c,
     cr_issued_at = ci_issued_at (mc_identity c), cr_expires_at = ci_expires_at (mc_identity c),
     cr_root_version = rs_version r, cr_root_sha256 = rs_sha256 r, cr_root_expires_at = rs_expires_at r,
     cr_root_highest_observed = rs_highest_observed r, cr_acquisition_allowed = allowed\<rparr>"

definition catalog_status :: "trust_env \<Rightarrow> catalog_status_report trust_op" where
  "catalog_status env d =
    st_then (active_catalog env d) (\<lambda>c d.
    st_then (trust_root_status_of env d) (\<lambda>r d.
    st_then (catalog_acquisition_allowed env c d) (\<lambda>allowed d.
    (Inr (catalog_report c r allowed), d))))"

end
