(* ===== verification/Trust_Rotation.thy ===== *)
theory Trust_Rotation
  imports Model_Catalog
begin

text \<open>
  What a trust root rests on (\<open>src/src/models/catalog/trust.rs\<close>): every root that is loaded or imported is
  reached from the embedded root by rotations, each signed by a threshold of distinct keys of the root
  before it and of the root after it, and no rotation widens what a catalog key may sign.
\<close>

section \<open>Valid roots\<close>

definition valid_root :: "trust_env \<Rightarrow> active_root \<Rightarrow> bool" where
  "valid_root env r \<longleftrightarrow> (\<exists>bytes. parse_trust_root env bytes (ar_origin r) = Inr r)"

lemma parsed_root:
  assumes "parse_trust_root env bytes origin = Inr r"
  shows "te_parse_root env bytes = Some (ar_document r)" "ar_sha256 r = te_sha256 env bytes"
    "ar_origin r = origin" "validate_trust_root_document env (ar_document r) = Inr ()" "valid_root env r"
proof -
  obtain d where "te_parse_root env bytes = Some d" "validate_trust_root_document env d = Inr ()"
    and "r = \<lparr>ar_document = d, ar_sha256 = te_sha256 env bytes, ar_origin = origin\<rparr>"
    using assms by (auto simp: parse_trust_root_def res_simps)
  then show "te_parse_root env bytes = Some (ar_document r)" "ar_sha256 r = te_sha256 env bytes"
    "ar_origin r = origin" "validate_trust_root_document env (ar_document r) = Inr ()"
    by simp_all
  show "valid_root env r" unfolding valid_root_def using assms \<open>ar_origin r = origin\<close> by auto
qed

lemma validated_document:
  assumes "validate_trust_root_document env d = Inr u"
  shows "0 < td_version d" "td_version d \<le> MAX_JSON_SAFE_INTEGER" "0 < td_threshold d"
    "td_threshold d \<le> length (td_root_keys d)"
    "is_ok (try_fold (admit_key (validate_trust_key env) kr_key_id (Root DuplicateRootKey)) [] (td_root_keys d))"
    "is_ok (try_fold (admit_key (validate_catalog_key env) ck_key_id (Root DuplicateCatalogKey)) [] (td_catalog_keys d))"
    "0 < td_issued_at d" "td_issued_at d < td_expires_at d"
  using assms
  by (auto simp: validate_trust_root_document_def validate_validity_window_def res_simps is_ok_iff not_less)

lemma admitted_keys:
  assumes "try_fold (admit_key check key_id duplicate) [] keys = Inr seen"
  shows "\<forall>key \<in> set keys. check key = Inr ()" "distinct (map key_id keys)"
proof -
  have all: "(\<forall>key \<in> set keys. check key = Inr ()) \<and> distinct (map key_id keys)
      \<and> set (map key_id keys) \<inter> set before = {}"
    if "try_fold (admit_key check key_id duplicate) before keys = Inr seen" for before
    using that by (induction keys arbitrary: before) (fastforce simp: admit_key_def res_simps)+
  show "\<forall>key \<in> set keys. check key = Inr ()" "distinct (map key_id keys)"
    using all [OF assms] by simp_all
qed

lemma valid_root_document:
  assumes "valid_root env r"
  shows "0 < root_version r" "root_version r \<le> MAX_JSON_SAFE_INTEGER" "0 < td_threshold (ar_document r)"
    "distinct (map kr_key_id (td_root_keys (ar_document r)))"
    "distinct (map ck_key_id (td_catalog_keys (ar_document r)))"
    "\<And>key. key \<in> set (td_catalog_keys (ar_document r)) \<Longrightarrow> validate_catalog_key env key = Inr ()"
    "\<exists>bytes. ar_sha256 r = te_sha256 env bytes"
proof -
  obtain bytes where parsed: "parse_trust_root env bytes (ar_origin r) = Inr r"
    using assms by (auto simp: valid_root_def)
  note v = validated_document [OF parsed_root(4) [OF parsed]]
  show "0 < root_version r" "root_version r \<le> MAX_JSON_SAFE_INTEGER" "0 < td_threshold (ar_document r)"
    using v(1-3) by (simp_all add: root_version_def)
  obtain seen where "try_fold (admit_key (validate_trust_key env) kr_key_id (Root DuplicateRootKey)) []
      (td_root_keys (ar_document r)) = Inr seen"
    using v(5) by (auto simp: is_ok_iff)
  then show "distinct (map kr_key_id (td_root_keys (ar_document r)))" by (rule admitted_keys(2))
  obtain seen where c: "try_fold (admit_key (validate_catalog_key env) ck_key_id (Root DuplicateCatalogKey)) []
      (td_catalog_keys (ar_document r)) = Inr seen"
    using v(6) by (auto simp: is_ok_iff)
  show "distinct (map ck_key_id (td_catalog_keys (ar_document r)))" by (rule admitted_keys(2) [OF c])
  show "validate_catalog_key env key = Inr ()" if "key \<in> set (td_catalog_keys (ar_document r))" for key
    using admitted_keys(1) [OF c] that by blast
  show "\<exists>bytes. ar_sha256 r = te_sha256 env bytes" using parsed_root(2) [OF parsed] by blast
qed

lemma find_catalog_key_Some:
  assumes "find_catalog_key r i = Some key"
  shows "key \<in> set (td_catalog_keys (ar_document r))" "ck_key_id key = i"
  using assms by (auto simp: find_catalog_key_def find_Some_iff)

lemma find_catalog_key_of:
  assumes "valid_root env r" "key \<in> set (td_catalog_keys (ar_document r))"
  shows "find_catalog_key r (ck_key_id key) = Some key"
proof -
  obtain k where k: "find_catalog_key r (ck_key_id key) = Some k"
    using assms(2) by (cases "find_catalog_key r (ck_key_id key)") (auto simp: find_catalog_key_def find_None_iff)
  have "inj_on ck_key_id (set (td_catalog_keys (ar_document r)))"
    using valid_root_document(5) [OF assms(1)] by (simp add: distinct_map)
  then have "k = key" using find_catalog_key_Some [OF k] assms(2) by (auto dest: inj_onD)
  then show ?thesis using k by simp
qed

section \<open>Thresholds of signatures\<close>

definition signed_by :: "trust_env \<Rightarrow> string \<Rightarrow> signature_record list \<Rightarrow> key_record list \<Rightarrow> string set" where
  "signed_by env bytes signatures keys =
    {i. \<exists>key \<in> set keys. \<exists>record \<in> set signatures. \<exists>signature. kr_key_id key = i \<and> sr_key_id record = i
      \<and> decode_signature_text env (sr_signature record) = Inr signature
      \<and> te_verify env (kr_public_key key) bytes signature}"

definition threshold_met :: "trust_env \<Rightarrow> string \<Rightarrow> signature_record list \<Rightarrow> active_root \<Rightarrow> bool" where
  "threshold_met env bytes signatures r \<longleftrightarrow>
    td_threshold (ar_document r) \<le> card (signed_by env bytes signatures (td_root_keys (ar_document r)))"

lemma finite_signed_by: "finite (signed_by env bytes signatures keys)"
  by (rule finite_subset [of _ "kr_key_id ` set keys"]) (auto simp: signed_by_def)

lemma verify_record_signed:
  assumes "verify_record env bytes keys verified record = Inr verified'" "record \<in> set signatures"
    and "verified \<subseteq> signed_by env bytes signatures keys"
  shows "verified' \<subseteq> signed_by env bytes signatures keys"
proof (cases "find (\<lambda>key. kr_key_id key = sr_key_id record) keys")
  case None
  then show ?thesis using assms by (simp add: verify_record_def)
next
  case (Some key)
  then have key: "key \<in> set keys" "kr_key_id key = sr_key_id record" by (auto simp: find_Some_iff)
  obtain signature where s: "decode_signature_text env (sr_signature record) = Inr signature"
      "te_verify env (kr_public_key key) bytes signature" "verified' = insert (kr_key_id key) verified"
    using assms(1) Some by (auto simp: verify_record_def res_simps)
  have "kr_key_id key \<in> signed_by env bytes signatures keys"
    unfolding signed_by_def using key s assms(2) by auto
  then show ?thesis using s(3) assms(3) by simp
qed

lemma verify_signature_threshold_sound:
  assumes "verify_signature_threshold env bytes signatures keys threshold = Inr u"
  shows "threshold \<le> card (signed_by env bytes signatures keys)"
proof -
  obtain verified where v: "try_fold (verify_record env bytes keys) {} signatures = Inr verified" "threshold \<le> card verified"
    using assms by (auto simp: verify_signature_threshold_def res_simps)
  have "verified \<subseteq> signed_by env bytes signatures keys"
    by (rule try_fold_invariant [OF v(1)]) (auto intro: verify_record_signed [THEN subsetD])
  then show ?thesis using v(2) card_mono [OF finite_signed_by] le_trans by blast
qed

section \<open>Rotations\<close>

definition narrower_key :: "catalog_key \<Rightarrow> catalog_key \<Rightarrow> bool" where
  "narrower_key later previous \<longleftrightarrow> ck_key_id later = ck_key_id previous
     \<and> ck_public_key later = ck_public_key previous
     \<and> (\<forall>sequence. accepts later sequence \<longrightarrow> accepts previous sequence)"

definition narrower_root :: "active_root \<Rightarrow> active_root \<Rightarrow> bool" where
  "narrower_root later previous \<longleftrightarrow>
     td_expiration_required_from (ar_document later) \<le> td_expiration_required_from (ar_document previous)
     \<and> td_max_validity (ar_document later) \<le> td_max_validity (ar_document previous)
     \<and> (\<forall>i old. find_catalog_key previous i = Some old \<longrightarrow>
          (\<exists>new. find_catalog_key later i = Some new \<and> narrower_key new old))"

lemma narrower_refl: "narrower_root r r"
  by (simp add: narrower_root_def narrower_key_def)

lemma narrower_trans: "narrower_root c b \<Longrightarrow> narrower_root b a \<Longrightarrow> narrower_root c a"
  unfolding narrower_root_def narrower_key_def by (elim conjE) (intro conjI; force)

lemma widens_optional_ceiling_iff:
  "\<not> widens_optional_ceiling previous later \<longleftrightarrow>
    (\<forall>p. previous = Some p \<longrightarrow> (\<exists>n. later = Some n \<and> n \<le> p))"
  by (auto simp: widens_optional_ceiling_def split: option.splits)

lemma retains_key_narrower:
  assumes "retains_key candidate previous = Inr u"
  shows "\<exists>new. find_catalog_key candidate (ck_key_id previous) = Some new \<and> narrower_key new previous"
proof -
  obtain new where new: "find_catalog_key candidate (ck_key_id previous) = Some new"
      "ck_public_key new = ck_public_key previous" "ck_first_sequence new = ck_first_sequence previous"
      "\<not> widens_optional_ceiling (ck_last_sequence previous) (ck_last_sequence new)"
      "\<not> widens_optional_ceiling (ck_revoked_at previous) (ck_revoked_at new)"
    using assms by (auto simp: retains_key_def res_simps)
  have "narrower_key new previous"
    unfolding narrower_key_def accepts_def
    using new(2-) find_catalog_key_Some(2) [OF new(1)]
    by (auto simp: widens_optional_ceiling_iff split: option.splits)
  then show ?thesis using new(1) by blast
qed

lemma retained_history:
  assumes "ensure_catalog_history_is_retained current candidate = Inr u"
  shows "narrower_root candidate current"
proof -
  have policy: "td_expiration_required_from (ar_document candidate) \<le> td_expiration_required_from (ar_document current)"
      "td_max_validity (ar_document candidate) \<le> td_max_validity (ar_document current)"
    and keys: "\<forall>key \<in> set (td_catalog_keys (ar_document current)). retains_key candidate key = Inr ()"
    using assms by (auto simp: ensure_catalog_history_is_retained_def res_simps not_less)
  show ?thesis
    unfolding narrower_root_def
    using policy keys find_catalog_key_Some [of current] retains_key_narrower by metis
qed

inductive rotated :: "trust_env \<Rightarrow> active_root \<Rightarrow> active_root \<Rightarrow> bool" for env :: trust_env where
  stay: "rotated env r r"
| rotate: "rotated env r s \<Longrightarrow> parse_trust_root env bytes origin = Inr t \<Longrightarrow> root_version t = Suc (root_version s)
    \<Longrightarrow> td_previous (ar_document t) = Some (ar_sha256 s) \<Longrightarrow> td_issued_at (ar_document s) \<le> td_issued_at (ar_document t)
    \<Longrightarrow> threshold_met env bytes signatures s \<Longrightarrow> threshold_met env bytes signatures t \<Longrightarrow> narrower_root t s
    \<Longrightarrow> rotated env r t"

lemma verified_transition:
  assumes "verify_root_transition env s t bytes signatures = Inr u" "parse_trust_root env bytes origin = Inr t" "rotated env r s"
  shows "rotated env r t" "root_version t = Suc (root_version s)"
proof -
  have v: "root_version t = Suc (root_version s)" "td_previous (ar_document t) = Some (ar_sha256 s)"
      "td_issued_at (ar_document s) \<le> td_issued_at (ar_document t)"
      "ensure_catalog_history_is_retained s t = Inr ()"
      "verify_signature_threshold env bytes signatures (td_root_keys (ar_document s)) (td_threshold (ar_document s)) = Inr ()"
      "verify_signature_threshold env bytes signatures (td_root_keys (ar_document t)) (td_threshold (ar_document t)) = Inr ()"
    using assms(1) by (auto simp: verify_root_transition_def res_simps not_less split: if_splits)
  show "root_version t = Suc (root_version s)" by (rule v(1))
  have "threshold_met env bytes signatures s" "threshold_met env bytes signatures t"
    using verify_signature_threshold_sound [OF v(5)] verify_signature_threshold_sound [OF v(6)]
    by (simp_all add: threshold_met_def)
  then show "rotated env r t" using rotated.rotate [OF assms(3,2) v(1-3)] retained_history [OF v(4)] by blast
qed

lemma rotated_narrower: "rotated env r t \<Longrightarrow> narrower_root t r"
  by (induction rule: rotated.induct) (blast intro: narrower_refl narrower_trans)+

lemma rotated_version: "rotated env r t \<Longrightarrow> root_version r \<le> root_version t"
  by (induction rule: rotated.induct) auto

lemma rotated_valid: "rotated env r t \<Longrightarrow> valid_root env r \<Longrightarrow> valid_root env t"
  by (induction rule: rotated.induct) (auto dest: parsed_root(5))

lemma rotated_trans: "rotated env s t \<Longrightarrow> rotated env r s \<Longrightarrow> rotated env r t"
  by (induction rule: rotated.induct) (auto intro: rotated.rotate)

section \<open>Chains\<close>

lemma follow_envelope_rotated:
  assumes "follow_envelope env s e = Inr t" "rotated env r s"
  shows "rotated env r t"
proof -
  obtain bytes c where c: "parse_trust_root env bytes (SignedRoot (en_source e)) = Inr c"
    and next_root: "t = s \<or> verify_root_transition env s c bytes (en_signatures e) = Inr () \<and> t = c"
    using assms(1) by (auto simp: follow_envelope_def res_simps split: if_splits)
  from next_root show ?thesis
  proof
    assume "t = s"
    then show ?thesis using assms(2) by simp
  next
    assume "verify_root_transition env s c bytes (en_signatures e) = Inr () \<and> t = c"
    then show ?thesis using verified_transition(1) [OF _ c assms(2)] by blast
  qed
qed

lemma verified_chain:
  assumes "verify_chain_from_embedded env r chain = Inr t"
  shows "rotated env r t" "chain_shape chain = Inr ()" "try_fold (follow_envelope env) r (tc_roots chain) = Inr t"
proof -
  show shape: "chain_shape chain = Inr ()" and fold: "try_fold (follow_envelope env) r (tc_roots chain) = Inr t"
    using assms by (auto simp: verify_chain_from_embedded_def res_simps)
  show "rotated env r t"
    by (rule try_fold_invariant [OF fold rotated.stay]) (blast intro: follow_envelope_rotated)
qed

end
