(* ===== verification/Trust_Floors.thy ===== *)
theory Trust_Floors
  imports Trust_Rotation
begin

text \<open>
  The floors on disk (\<open>src/src/models/catalog/trust.rs\<close>, \<open>src/src/models/catalog.rs\<close>): the highest accepted
  version of the root, the latest observed time and the highest accepted sequence of the catalog. No
  operation lowers them, whatever binary runs it and whichever of its writes fail or are lost.
\<close>

section \<open>Floors\<close>

definition root_floor :: "trust_disk \<Rightarrow> nat" where
  "root_floor d = (case load_trust_state d of Inr (Some s) \<Rightarrow> ts_highest s | _ \<Rightarrow> 0)"

definition time_floor :: "trust_disk \<Rightarrow> nat" where
  "time_floor d = (case load_trust_state d of Inr (Some s) \<Rightarrow> ts_observed s | _ \<Rightarrow> 0)"

definition catalog_floor :: "trust_disk \<Rightarrow> nat" where
  "catalog_floor d = (case load_state d of Inr (Some s) \<Rightarrow> cs_highest s | _ \<Rightarrow> 0)"

text \<open>
  What the proofs rely on outside the program: a digest is printed as 64 lower-case hexadecimal
  characters, and the clock shows a time after the epoch that JSON can hold.
\<close>

definition trust_laws :: "trust_env \<Rightarrow> bool" where
  "trust_laws env \<longleftrightarrow> (\<forall>bytes. valid_sha256 (te_sha256 env bytes))
     \<and> (\<forall>t. te_now env = Some t \<longrightarrow> 0 < t \<and> t \<le> MAX_JSON_SAFE_INTEGER)"

lemma loaded_state_valid:
  assumes "load_trust_state d = Inr (Some s)"
  shows "dk_state d = Stored s" "validate_trust_state s = Inr ()" "0 < ts_highest s"
    "0 < ts_observed s" "ts_observed s \<le> MAX_JSON_SAFE_INTEGER"
    "root_floor d = ts_highest s" "time_floor d = ts_observed s"
  using assms
  by (auto simp: load_trust_state_def validate_trust_state_def root_floor_def time_floor_def res_simps
      split: stored.splits)

lemma loaded_catalog_state_valid:
  assumes "load_state d = Inr (Some s)"
  shows "dk_catalog d = Stored s" "validate_state s = Inr ()" "catalog_floor d = cs_highest s"
  using assms by (auto simp: load_state_def catalog_floor_def res_simps split: stored.splits)

lemma no_state_floor: "load_trust_state d = Inr None \<Longrightarrow> root_floor d = 0 \<and> time_floor d = 0"
  "load_trust_state d = Inl e \<Longrightarrow> root_floor d = 0 \<and> time_floor d = 0"
  by (simp_all add: root_floor_def time_floor_def)

lemma reading_ignores_writes [simp]:
  "load_trust_state (d\<lparr>dk_writes := n\<rparr>) = load_trust_state d"
  "load_trust_chain env (d\<lparr>dk_writes := n\<rparr>) = load_trust_chain env d"
  "load_state (d\<lparr>dk_writes := n\<rparr>) = load_state d"
  "load_envelope env (d\<lparr>dk_writes := n\<rparr>) = load_envelope env d"
  "load_trust_state (d\<lparr>dk_torn := b\<rparr>) = load_trust_state d"
  "load_trust_chain env (d\<lparr>dk_torn := b\<rparr>) = load_trust_chain env d"
  "load_state (d\<lparr>dk_torn := b\<rparr>) = load_state d"
  "load_envelope env (d\<lparr>dk_torn := b\<rparr>) = load_envelope env d"
  by (simp_all add: load_trust_state_def load_trust_chain_def load_state_def load_envelope_def)

lemma reading_ignores_others [simp]:
  "load_trust_state (d\<lparr>dk_chain := c\<rparr>) = load_trust_state d"
  "load_trust_state (d\<lparr>dk_catalog := k\<rparr>) = load_trust_state d"
  "load_trust_state (d\<lparr>dk_envelope := e\<rparr>) = load_trust_state d"
  "load_trust_state (make_directory d) = load_trust_state d"
  "load_trust_chain env (d\<lparr>dk_state := s\<rparr>) = load_trust_chain env d"
  "load_trust_chain env (d\<lparr>dk_catalog := k\<rparr>) = load_trust_chain env d"
  "load_trust_chain env (make_directory d) = load_trust_chain env d"
  "load_state (d\<lparr>dk_state := s\<rparr>) = load_state d"
  "load_state (d\<lparr>dk_chain := c\<rparr>) = load_state d"
  "load_state (d\<lparr>dk_envelope := e\<rparr>) = load_state d"
  "load_state (make_directory d) = load_state d"
  by (simp_all add: load_trust_state_def load_trust_chain_def load_state_def make_directory_def)

section \<open>Writes\<close>

lemma write_file_cases:
  "snd (write_file f d) = d \<or> (\<exists>n. snd (write_file f d) = (f d)\<lparr>dk_writes := n\<rparr>) \<or> snd (write_file f d) = f d"
  unfolding write_file_def by (cases "dk_writes d = 0") (simp, simp, blast)

lemma write_file_Inr: "write_file f d = (Inr u, d') \<longleftrightarrow> 0 < dk_writes d \<and> d' = (f d)\<lparr>dk_writes := dk_writes d - 1\<rparr>"
  by (auto simp: write_file_def)

definition state_of_root :: "active_root \<Rightarrow> nat \<Rightarrow> trust_state" where
  "state_of_root r observed =
    \<lparr>ts_version = 1, ts_highest = root_version r, ts_sha256 = ar_sha256 r, ts_observed = observed\<rparr>"

lemma state_of_root_simps [simp]:
  "ts_highest (state_of_root r t) = root_version r" "ts_sha256 (state_of_root r t) = ar_sha256 r"
  "ts_observed (state_of_root r t) = t"
  by (simp_all add: state_of_root_def)

lemma state_of_root_valid:
  assumes "trust_laws env" "valid_root env r" "0 < observed" "observed \<le> MAX_JSON_SAFE_INTEGER"
  shows "load_trust_state (d\<lparr>dk_state := Stored (state_of_root r observed)\<rparr>) = Inr (Some (state_of_root r observed))"
proof -
  obtain bytes where "ar_sha256 r = te_sha256 env bytes" using valid_root_document(7) [OF assms(2)] by blast
  then have "valid_sha256 (ar_sha256 r)" using assms(1) by (simp add: trust_laws_def)
  then show ?thesis
    using valid_root_document(1,2) [OF assms(2)] assms(3,4)
    by (simp add: load_trust_state_def validate_trust_state_def state_of_root_def)
qed

lemma write_trust_state_cases:
  assumes "trust_laws env" "valid_root env r" "0 < observed" "observed \<le> MAX_JSON_SAFE_INTEGER"
  shows "(load_trust_state (snd (write_trust_state r observed d)) = load_trust_state d
      \<or> load_trust_state (snd (write_trust_state r observed d)) = Inr (Some (state_of_root r observed)))
    \<and> load_state (snd (write_trust_state r observed d)) = load_state d"
  using write_file_cases [of "\<lambda>d. d\<lparr>dk_state := Stored (state_of_root r observed)\<rparr>" d] state_of_root_valid [OF assms, of d]
  by (auto simp: write_trust_state_def state_of_root_def)

lemma write_trust_state_Inr:
  assumes "trust_laws env" "valid_root env r" "0 < observed" "observed \<le> MAX_JSON_SAFE_INTEGER"
    and "write_trust_state r observed d = (Inr u, d')"
  shows "load_trust_state d' = Inr (Some (state_of_root r observed))"
    "d' = d\<lparr>dk_state := Stored (state_of_root r observed), dk_writes := dk_writes d - 1\<rparr>" "0 < dk_writes d"
proof -
  show d': "d' = d\<lparr>dk_state := Stored (state_of_root r observed), dk_writes := dk_writes d - 1\<rparr>" "0 < dk_writes d"
    using assms(5) by (auto simp: write_trust_state_def write_file_Inr state_of_root_def)
  show "load_trust_state d' = Inr (Some (state_of_root r observed))"
    unfolding d'(1) using state_of_root_valid [OF assms(1-4), of d] by simp
qed

lemma write_trust_chain_keeps [simp]:
  "load_trust_state (snd (write_trust_chain chain d)) = load_trust_state d"
  "load_state (snd (write_trust_chain chain d)) = load_state d"
  using write_file_cases [of "\<lambda>d. d\<lparr>dk_chain := Stored chain\<rparr>" d] by (auto simp: write_trust_chain_def)

lemma write_trust_chain_Inr:
  "write_trust_chain chain d = (Inr u, d') \<longleftrightarrow>
    0 < dk_writes d \<and> d' = d\<lparr>dk_chain := Stored chain, dk_writes := dk_writes d - 1\<rparr>"
  by (auto simp: write_trust_chain_def write_file_Inr)

lemma write_catalog_keeps [simp]:
  "load_trust_state (snd (write_catalog_identity_state i d)) = load_trust_state d"
  "load_trust_state (snd (write_envelope e d)) = load_trust_state d"
  "load_state (snd (write_envelope e d)) = load_state d"
  using write_file_cases [of "\<lambda>d. d\<lparr>dk_envelope := Stored e\<rparr>" d]
    write_file_cases [of "\<lambda>d. d\<lparr>dk_catalog := Stored \<lparr>cs_version = 2, cs_highest = ci_sequence i, cs_sha256 = ci_sha256 i,
      cs_signing_key_id = ci_signing_key_id i, cs_root_version = ci_root_version i\<rparr>\<rparr>" d]
  by (auto simp: write_envelope_def write_catalog_identity_state_def)

section \<open>Loading a root\<close>

definition matches_root :: "trust_state \<Rightarrow> active_root \<Rightarrow> bool" where
  "matches_root s r \<longleftrightarrow> ts_highest s = root_version r \<and> ts_sha256 s = ar_sha256 r"

lemma embedded_valid: "embedded_trust_root env = Inr e \<Longrightarrow> valid_root env e"
  by (simp add: embedded_trust_root_def parsed_root(5))

lemma active_from_chain_Inr:
  assumes "active_from_chain env e s chain = Inr r"
  shows "matches_root s r" "rotated env e r" "\<exists>c. chain = Some c \<and> verify_chain_from_embedded env e c = Inr r"
proof -
  obtain c where c: "chain = Some c" "verify_chain_from_embedded env e c = Inr r" "matches_root s r"
    using assms by (auto simp: active_from_chain_def matches_root_def res_simps)
  then show "matches_root s r" "\<exists>c. chain = Some c \<and> verify_chain_from_embedded env e c = Inr r" by auto
  show "rotated env e r" by (rule verified_chain(1) [OF c(2)])
qed

text \<open>The upgrade to a newer embedded root is the only case that writes.\<close>

definition upgrade_root :: "active_root \<Rightarrow> nat \<Rightarrow> active_root trust_op" where
  "upgrade_root e observed d =
    st_then (write_trust_state e observed d) (\<lambda>_ d. st_then (write_trust_chain no_roots d) (\<lambda>_ d. (Inr e, d)))"

lemma load_active_cases:
  assumes "load_active_trust_root env read_only d = (res, d')"
  obtains (failed) error where "res = Inl error" "d' = d"
  | (fresh) e where "embedded_trust_root env = Inr e" "load_trust_state d = Inr None"
      "load_trust_chain env d = Inr None" "res = Inr e" "d' = d"
  | (older) e s where "embedded_trust_root env = Inr e" "load_trust_state d = Inr (Some s)"
      "ts_highest s < root_version e" "read_only" "res = Inr e" "d' = d"
  | (upgrade) e s where "embedded_trust_root env = Inr e" "load_trust_state d = Inr (Some s)"
      "ts_highest s < root_version e" "\<not> read_only" "(res, d') = upgrade_root e (ts_observed s) d"
  | (same) e s where "embedded_trust_root env = Inr e" "load_trust_state d = Inr (Some s)"
      "matches_root s e" "res = Inr e" "d' = d"
  | (newer) e s c r where "embedded_trust_root env = Inr e" "load_trust_state d = Inr (Some s)"
      "load_trust_chain env d = Inr (Some c)" "root_version e < ts_highest s"
      "verify_chain_from_embedded env e c = Inr r" "matches_root s r" "rotated env e r" "res = Inr r" "d' = d"
proof (cases "embedded_trust_root env")
  case (Inl a)
  then show thesis using assms by (intro failed [of a]) (simp_all add: load_active_trust_root_def)
next
  case e: (Inr e)
  show thesis
  proof (cases "load_trust_state d")
    case (Inl a)
    then show thesis using e assms by (intro failed [of a]) (simp_all add: load_active_trust_root_def)
  next
    case state: (Inr state)
    show thesis
    proof (cases "load_trust_chain env d")
      case (Inl a)
      then show thesis using e state assms by (intro failed [of a]) (simp_all add: load_active_trust_root_def)
    next
      case chain: (Inr chain)
      show thesis
      proof (cases state)
        case None
        then have "(res, d') = (if chain = None then Inr e else Inl (Storage ChainWithoutState), d)"
          using e state chain assms by (simp add: load_active_trust_root_def)
        then show thesis using fresh [OF e] failed state chain None by (cases "chain = None") auto
      next
        case s: (Some s)
        have valid: "validate_trust_state s = Inr ()" using loaded_state_valid(2) state s by blast
        have run: "load_active_trust_root env read_only d =
          (if ts_highest s < root_version e then if read_only then (Inr e, d) else upgrade_root e (ts_observed s) d
           else if ts_highest s = root_version e then
             (if ts_sha256 s \<noteq> ar_sha256 e then Inl (Storage EmbeddedConflict) else Inr e, d)
           else (active_from_chain env e s chain, d))"
          using e state chain s valid by (simp add: load_active_trust_root_def upgrade_root_def)
        consider "ts_highest s < root_version e" | "ts_highest s = root_version e" | "root_version e < ts_highest s"
          by linarith
        then show thesis
        proof cases
          case 1
          then show thesis using older [OF e] upgrade [OF e] state s run assms by (cases read_only) auto
        next
          case 2
          then show thesis using same [OF e] failed state s run assms
            by (cases "ts_sha256 s = ar_sha256 e") (auto simp: matches_root_def)
        next
          case 3
          then have r: "(res, d') = (active_from_chain env e s chain, d)" using run assms by auto
          show thesis
          proof (cases "active_from_chain env e s chain")
            case (Inl a)
            then show thesis using r failed by simp
          next
            case (Inr root)
            then show thesis using newer [OF e] state s chain 3 r active_from_chain_Inr [OF Inr] by auto
          qed
        qed
      qed
    qed
  qed
qed

end
