(* ===== verification/Trust_Operations.thy ===== *)
theory Trust_Operations
  imports Trust_Floors
begin

text \<open>
  Each operation on the trust store keeps the floors (\<open>src/src/models/catalog/trust.rs\<close>,
  \<open>src/src/models/catalog.rs\<close>), and what it returns is not below them.
\<close>

section \<open>Keeping the floors\<close>

definition keeps_floors :: "trust_disk \<Rightarrow> trust_disk \<Rightarrow> bool" where
  "keeps_floors d d' \<longleftrightarrow> root_floor d \<le> root_floor d' \<and> time_floor d \<le> time_floor d' \<and> catalog_floor d \<le> catalog_floor d'
     \<and> (dk_directory d \<longrightarrow> dk_directory d')"

lemma keeps_refl [simp]: "keeps_floors d d"
  by (simp add: keeps_floors_def)

lemma keeps_trans [trans]: "keeps_floors a b \<Longrightarrow> keeps_floors b c \<Longrightarrow> keeps_floors a c"
  unfolding keeps_floors_def by (elim conjE) (intro conjI; linarith?; blast)

lemma keeps_same_state:
  assumes "load_trust_state d' = load_trust_state d" "load_state d' = load_state d" "dk_directory d \<longrightarrow> dk_directory d'"
  shows "keeps_floors d d'"
  using assms by (simp add: keeps_floors_def root_floor_def time_floor_def catalog_floor_def)

lemma write_file_directory [simp]:
  "dk_directory (snd (write_trust_state r t d)) = dk_directory d"
  "dk_directory (snd (write_trust_chain chain d)) = dk_directory d"
  "dk_directory (snd (write_catalog_identity_state i d)) = dk_directory d"
  "dk_directory (snd (write_envelope e d)) = dk_directory d"
  by (simp_all add: write_trust_state_def write_trust_chain_def write_catalog_identity_state_def write_envelope_def
      write_file_def)

lemma directory_made [simp]: "dk_directory (make_directory d)"
  by (simp add: make_directory_def)

lemma keeps_make_directory [simp]: "keeps_floors d (make_directory d)"
  by (rule keeps_same_state) simp_all

lemma keeps_chain_write [simp]: "keeps_floors d (snd (write_trust_chain chain d))"
  by (rule keeps_same_state) simp_all

lemma keeps_envelope_write [simp]: "keeps_floors d (snd (write_envelope e d))"
  by (rule keeps_same_state) simp_all

lemma keeps_state_write:
  assumes "trust_laws env" "valid_root env r" "0 < observed" "observed \<le> MAX_JSON_SAFE_INTEGER"
    and "root_floor d \<le> root_version r" "time_floor d \<le> observed"
  shows "keeps_floors d (snd (write_trust_state r observed d))"
  using write_trust_state_cases [OF assms(1-4), of d] assms(5,6)
  by (auto simp: keeps_floors_def root_floor_def time_floor_def catalog_floor_def)

text \<open>
  The interface between the store and its operations: a relation between disks that every write
  respects is respected by everything that is composed of writes with \<open>?\<close>.
\<close>

locale state_preorder =
  fixes le :: "'s \<Rightarrow> 's \<Rightarrow> bool"
  assumes reflexive: "le s s"
    and transitive: "le a b \<Longrightarrow> le b c \<Longrightarrow> le a c"
begin

lemma st_then_le:
  assumes "le d (snd m)" and "\<And>x d1. m = (Inr x, d1) \<Longrightarrow> le d1 (snd (f x d1))"
  shows "le d (snd (st_then m f))"
  using assms by (cases m; cases "fst m") (auto intro: transitive)

lemma pure_le:
  assumes "\<And>x. m = Inr x \<Longrightarrow> le d (snd (f x d))"
  shows "le d (snd (st_then (m, d) f))"
  using assms reflexive by (cases m) auto

end

interpretation floors: state_preorder keeps_floors
  by unfold_locales (auto intro: keeps_trans)

lemmas keeps_st_then = floors.st_then_le
lemmas keeps_pure = floors.pure_le

section \<open>Roots\<close>

lemma keeps_upgrade:
  assumes "trust_laws env" "valid_root env e" "load_trust_state d = Inr (Some s)" "ts_highest s < root_version e"
  shows "keeps_floors d (snd (upgrade_root e (ts_observed s) d))"
  unfolding upgrade_root_def
proof (rule keeps_st_then)
  show "keeps_floors d (snd (write_trust_state e (ts_observed s) d))"
    using loaded_state_valid [OF assms(3)] assms(4) by (intro keeps_state_write [OF assms(1,2)]) simp_all
qed (auto intro: keeps_st_then)

lemma upgrade_Inr:
  assumes "trust_laws env" "valid_root env e" "load_trust_state d = Inr (Some s)" "(Inr r, d') = upgrade_root e (ts_observed s) d"
  shows "r = e" "load_trust_state d' = Inr (Some (state_of_root e (ts_observed s)))" "load_state d' = load_state d"
    "dk_envelope d' = dk_envelope d" "dk_directory d' = dk_directory d" "dk_chain d' = Stored no_roots"
proof -
  obtain d1 where d1: "write_trust_state e (ts_observed s) d = (Inr (), d1)" "write_trust_chain no_roots d1 = (Inr (), d')"
    and r: "r = e"
    using assms(4) [symmetric] by (auto simp: upgrade_root_def st_then_Inr_iff)
  note w = write_trust_state_Inr [OF assms(1,2) loaded_state_valid(4,5) [OF assms(3)] d1(1)]
  note c = d1(2) [unfolded write_trust_chain_Inr]
  show "r = e" by (rule r)
  show "load_trust_state d' = Inr (Some (state_of_root e (ts_observed s)))" using c w(1) by simp
  show "load_state d' = load_state d" "dk_envelope d' = dk_envelope d" "dk_directory d' = dk_directory d"
    "dk_chain d' = Stored no_roots"
    using c w(2) by simp_all
qed

lemma keeps_load: "trust_laws env \<Longrightarrow> keeps_floors d (snd (load_active_trust_root env read_only d))"
proof (cases "load_active_trust_root env read_only d")
  case (Pair res d')
  assume laws: "trust_laws env"
  from Pair have "keeps_floors d d'"
  proof (cases rule: load_active_cases)
    case (upgrade e s)
    then show ?thesis using keeps_upgrade [OF laws embedded_valid [OF upgrade(1)] upgrade(2,3)] by (metis snd_conv)
  qed simp_all
  then show ?thesis using Pair by simp
qed

lemma loaded_root:
  assumes "load_active_trust_root env read_only d = (Inr r, d')" "trust_laws env"
  obtains e where "embedded_trust_root env = Inr e" "rotated env e r" "valid_root env r" "root_floor d \<le> root_version r"
    "load_state d' = load_state d" "dk_envelope d' = dk_envelope d" "dk_directory d' = dk_directory d"
    "load_trust_state d' = Inr None \<and> r = e \<or> (\<exists>s. load_trust_state d' = Inr (Some s) \<and> (matches_root s r \<or> read_only))"
    "read_only \<longrightarrow> d' = d"
    "time_floor d' = time_floor d" "root_floor d' \<le> root_version r"
  using assms(1)
proof (cases rule: load_active_cases)
  case (upgrade e s)
  note v = embedded_valid [OF upgrade(1)]
  note u = upgrade_Inr [OF assms(2) v upgrade(2,5)]
  show ?thesis
    using upgrade v u loaded_state_valid [OF upgrade(2)] loaded_state_valid [OF u(2)]
    by (intro that [of e]) (auto simp: matches_root_def intro: rotated.stay)
next
  case (newer e s c t)
  then show ?thesis
    using loaded_state_valid [OF newer(2)] rotated_valid [OF newer(7) embedded_valid [OF newer(1)]]
    by (intro that [of e]) (auto simp: matches_root_def)
next
  case (same e s)
  then show ?thesis
    using loaded_state_valid [OF same(2)] embedded_valid [OF same(1)]
    by (intro that [of e]) (auto simp: matches_root_def intro: rotated.stay)
next
  case (older e s)
  then show ?thesis
    using loaded_state_valid [OF older(2)] embedded_valid [OF older(1)]
    by (intro that [of e]) (auto intro: rotated.stay)
next
  case (fresh e)
  then show ?thesis
    using no_state_floor embedded_valid [OF fresh(1)] by (intro that [of e]) (auto intro: rotated.stay)
qed simp

section \<open>Time\<close>

lemma effective_now:
  assumes "effective_now_locked env r d = Inr now" "trust_laws env"
  shows "0 < now" "now \<le> MAX_JSON_SAFE_INTEGER" "time_floor d \<le> now" "\<exists>t. te_now env = Some t \<and> t \<le> now"
    "load_trust_state d = Inr None \<or> (\<exists>s. load_trust_state d = Inr (Some s) \<and> matches_root s r)"
proof -
  obtain t state where t: "te_now env = Some t" and state: "load_trust_state d = Inr state"
    using assms(1) by (auto simp: effective_now_locked_def system_unix_seconds_def res_simps)
  have clock: "0 < t" "t \<le> MAX_JSON_SAFE_INTEGER" using assms(2) t by (auto simp: trust_laws_def)
  have all: "0 < now \<and> now \<le> MAX_JSON_SAFE_INTEGER \<and> time_floor d \<le> now \<and> t \<le> now
      \<and> (load_trust_state d = Inr None \<or> (\<exists>s. load_trust_state d = Inr (Some s) \<and> matches_root s r))"
  proof (cases state)
    case None
    then have "now = t" using assms(1) t state by (simp add: effective_now_locked_def system_unix_seconds_def)
    then show ?thesis using None clock state no_state_floor by simp
  next
    case (Some s)
    then have "now = max t (ts_observed s)" "matches_root s r"
      using assms(1) t state
      by (auto simp: effective_now_locked_def system_unix_seconds_def matches_root_def res_simps)
    then show ?thesis using Some clock state loaded_state_valid [of d s] by auto
  qed
  then show "0 < now" "now \<le> MAX_JSON_SAFE_INTEGER" "time_floor d \<le> now" "\<exists>t. te_now env = Some t \<and> t \<le> now"
    "load_trust_state d = Inr None \<or> (\<exists>s. load_trust_state d = Inr (Some s) \<and> matches_root s r)"
    using t by auto
qed

lemma effective_floor:
  assumes "effective_now_locked env r d = Inr now" "trust_laws env" "valid_root env r"
  shows "root_floor d \<le> root_version r"
  using effective_now(5) [OF assms(1,2)] no_state_floor loaded_state_valid(6) by (auto simp: matches_root_def)

lemma keeps_effective_now:
  assumes "trust_laws env" "valid_root env r"
  shows "keeps_floors d (snd (effective_now_and_record_locked env r d))"
  unfolding effective_now_and_record_locked_def
proof (intro keeps_pure)
  fix now state
  assume now: "effective_now_locked env r d = Inr now"
  note n = effective_now [OF now assms(1)]
  have "keeps_floors d (snd (write_trust_state r now d))"
    by (rule keeps_state_write [OF assms n(1,2) effective_floor [OF now assms] n(3)])
  then show "keeps_floors d (snd (if case state of None \<Rightarrow> True | Some s \<Rightarrow> ts_observed s < now
      then st_then (write_trust_state r now d) (\<lambda>_ d. (Inr now, d)) else (Inr now, d)))"
    by (auto intro: keeps_st_then)
qed

lemma effective_now_and_record_Inr:
  assumes "effective_now_and_record_locked env r d = (Inr now, d')" "trust_laws env" "valid_root env r"
  shows "effective_now_locked env r d = Inr now" "load_state d' = load_state d" "dk_envelope d' = dk_envelope d"
    "\<exists>s. load_trust_state d' = Inr (Some s) \<and> matches_root s r \<and> ts_observed s = now"
proof -
  show now: "effective_now_locked env r d = Inr now"
    using assms(1) by (auto simp: effective_now_and_record_locked_def res_simps split: if_splits)
  obtain state where state: "load_trust_state d = Inr state"
    using assms(1) by (auto simp: effective_now_and_record_locked_def res_simps split: if_splits)
  note n = effective_now [OF now assms(2)]
  have all: "load_state d' = load_state d \<and> dk_envelope d' = dk_envelope d
      \<and> (\<exists>s. load_trust_state d' = Inr (Some s) \<and> matches_root s r \<and> ts_observed s = now)"
  proof (cases "case state of None \<Rightarrow> True | Some s \<Rightarrow> ts_observed s < now")
    case True
    then have w: "write_trust_state r now d = (Inr (), d')"
      using assms(1) now state by (auto simp: effective_now_and_record_locked_def st_then_Inr_iff)
    note w' = write_trust_state_Inr [OF assms(2,3) n(1,2) w]
    show ?thesis using w'(1,2) by (auto simp: matches_root_def)
  next
    case False
    then obtain s where s: "state = Some s" "now \<le> ts_observed s" by (auto split: option.splits)
    have "d' = d" using assms(1) now state False by (simp add: effective_now_and_record_locked_def)
    moreover have "time_floor d = ts_observed s" using loaded_state_valid(7) state s(1) by blast
    ultimately show ?thesis using state s n(3,5) by auto
  qed
  then show "load_state d' = load_state d" "dk_envelope d' = dk_envelope d"
    "\<exists>s. load_trust_state d' = Inr (Some s) \<and> matches_root s r \<and> ts_observed s = now"
    by simp_all
qed

section \<open>Importing, recovering, resetting\<close>

lemma observed_now:
  assumes "observed_now_locked env d = Inr now" "trust_laws env"
  shows "0 < now" "now \<le> MAX_JSON_SAFE_INTEGER" "time_floor d \<le> now"
proof -
  obtain t state where t: "te_now env = Some t" and state: "load_trust_state d = Inr state"
    and now: "now = (case state of None \<Rightarrow> t | Some s \<Rightarrow> max t (ts_observed s))"
    using assms(1) by (auto simp: observed_now_locked_def system_unix_seconds_def res_simps)
  have "0 < t" "t \<le> MAX_JSON_SAFE_INTEGER" using assms(2) t by (auto simp: trust_laws_def)
  then have "0 < now \<and> now \<le> MAX_JSON_SAFE_INTEGER \<and> time_floor d \<le> now"
    using state now no_state_floor loaded_state_valid [of d] by (cases state) auto
  then show "0 < now" "now \<le> MAX_JSON_SAFE_INTEGER" "time_floor d \<le> now" by simp_all
qed

lemma chain_or_empty_Inr:
  assumes "chain_or_empty env d = Inr chain"
  shows "load_trust_chain env d = Inr (Some chain) \<or> load_trust_chain env d = Inr None \<and> chain = no_roots"
proof (cases "load_trust_chain env d")
  case (Inr c)
  then show ?thesis using assms by (cases c) (simp_all add: chain_or_empty_def)
qed (use assms in \<open>simp add: chain_or_empty_def\<close>)

lemma started_import:
  assumes "start_import env candidate d = (Inr start, d')" "trust_laws env"
  obtains (active) e r where "start = AlreadyActive r" "embedded_trust_root env = Inr e" "rotated env e r"
      "root_version r = root_version candidate" "ar_sha256 r = ar_sha256 candidate"
  | (extend) e r chain where "start = ExtendFrom r chain" "embedded_trust_root env = Inr e" "rotated env e r"
      "root_floor d' \<le> root_version r \<or> root_floor d' = root_version candidate"
      "load_trust_chain env d' = Inr (Some chain) \<or> load_trust_chain env d' = Inr None \<and> chain = no_roots"
proof (cases "load_active_trust_root env False d")
  case (Pair res d1)
  show thesis
  proof (cases res)
    case (Inr current)
    note l = Pair [unfolded Inr]
    obtain e where e: "embedded_trust_root env = Inr e" "rotated env e current" "root_floor d1 \<le> root_version current"
      by (rule loaded_root [OF l assms(2)]) blast
    show thesis
    proof (cases "root_version current = root_version candidate \<and> ar_sha256 current = ar_sha256 candidate")
      case True
      then have "start = AlreadyActive current" using assms(1) l by (simp add: start_import_def)
      then show thesis using active e True by blast
    next
      case False
      then obtain chain where "start = ExtendFrom current chain" "chain_or_empty env d' = Inr chain" "d' = d1"
        using assms(1) l by (cases "chain_or_empty env d1") (auto simp: start_import_def)
      then show thesis
        using extend [OF _ e(1,2)] e(3) chain_or_empty_Inr by blast
    qed
  next
    case (Inl original)
    have "d' = d1" "resume_import env candidate original d1 = Inr start"
      using assms(1) Pair [unfolded Inl] by (auto simp: start_import_def)
    then obtain s chain e previous where s: "load_trust_state d' = Inr (Some s)" "ts_highest s = root_version candidate"
        "chain_or_empty env d' = Inr chain" "embedded_trust_root env = Inr e"
        "verify_chain_from_embedded env e chain = Inr previous" "start = ExtendFrom previous chain"
      by (auto simp: resume_import_def res_simps)
    have "root_floor d' = root_version candidate" using s(2) loaded_state_valid(6) [OF s(1)] by simp
    then show thesis
      using extend [OF s(6,4) verified_chain(1) [OF s(5)]] chain_or_empty_Inr [OF s(3)] by blast
  qed
qed

lemma keeps_start: "trust_laws env \<Longrightarrow> keeps_floors d (snd (start_import env candidate d))"
  using keeps_load [of env d False]
  by (auto simp: start_import_def split: prod.splits sum.splits)

lemma keeps_publish:
  assumes "trust_laws env" "valid_root env candidate"
    and "root_floor d \<le> root_version current \<or> root_floor d = root_version candidate"
  shows "keeps_floors d (snd (publish_root env bytes signatures candidate current chain d))"
  unfolding publish_root_def
proof (rule keeps_pure, rule keeps_pure, rule keeps_pure, rule keeps_pure, rule keeps_st_then)
  fix u now
  assume v: "verify_root_transition env current candidate bytes signatures = Inr u" and now: "observed_now_locked env d = Inr now"
  have "root_version candidate = Suc (root_version current)"
    using v by (auto simp: verify_root_transition_def res_simps split: if_splits)
  then have "root_floor d \<le> root_version candidate" using assms(3) by linarith
  then show "keeps_floors d (snd (write_trust_state candidate now d))"
    using observed_now [OF now assms(1)] by (intro keeps_state_write [OF assms(1,2)])
qed (auto intro: keeps_st_then)

lemma keeps_import:
  assumes "trust_laws env"
  shows "keeps_floors d (snd (import_trust_root env bytes bundle d))"
  unfolding import_trust_root_def
proof (rule keeps_pure, rule keeps_pure, rule keeps_pure, rule keeps_st_then)
  fix signatures candidate d1
  assume c: "(parse_trust_root env bytes (SignedRoot ''local-import''), make_directory d) = (Inr candidate, d1)"
  then have v: "valid_root env candidate" by (auto dest: parsed_root(5))
  show "keeps_floors d1 (snd (st_then (start_import env candidate d1) (\<lambda>start d. case start of
      AlreadyActive current \<Rightarrow> (Inr current, d)
    | ExtendFrom current chain \<Rightarrow> publish_root env bytes signatures candidate current chain d)))"
  proof (rule keeps_st_then [OF keeps_start [OF assms]])
    fix start d2
    assume "start_import env candidate d1 = (Inr start, d2)"
    then show "keeps_floors d2 (snd (case start of AlreadyActive current \<Rightarrow> (Inr current, d2)
        | ExtendFrom current chain \<Rightarrow> publish_root env bytes signatures candidate current chain d2))"
      by (rule started_import [OF _ assms]) (auto intro: keeps_publish [OF assms v])
  qed
qed simp

lemma keeps_recover:
  assumes "trust_laws env"
  shows "keeps_floors d (snd (recover_embedded_trust_root env d))"
proof -
  have main: "keeps_floors d1 (snd (st_then
      (case state of Some s \<Rightarrow> Inr (ts_observed s) | None \<Rightarrow> system_unix_seconds env, d1) (\<lambda>observed d.
      st_then (write_trust_state e observed d) (\<lambda>_ d. st_then (write_trust_chain no_roots d) (\<lambda>_ d. (Inr e, d))))))"
    if e: "valid_root env e" and state: "state = (case load_trust_state d1 of Inl _ \<Rightarrow> None | Inr state \<Rightarrow> state)"
      and above: "\<not> (case state of None \<Rightarrow> False | Some s \<Rightarrow> root_version e < ts_highest s)" for e state d1
  proof (rule keeps_pure, rule keeps_st_then)
    fix observed
    assume o: "(case state of Some s \<Rightarrow> Inr (ts_observed s) | None \<Rightarrow> system_unix_seconds env) = Inr observed"
    show "keeps_floors d1 (snd (write_trust_state e observed d1))"
    proof (cases state)
      case None
      then have "root_floor d1 = 0" "time_floor d1 = 0"
        using state no_state_floor by (auto split: sum.splits)
      moreover have "0 < observed" "observed \<le> MAX_JSON_SAFE_INTEGER"
        using o None assms by (auto simp: trust_laws_def system_unix_seconds_def res_simps)
      ultimately show ?thesis by (intro keeps_state_write [OF assms e]) simp_all
    next
      case (Some s)
      then have s: "load_trust_state d1 = Inr (Some s)" using state by (auto split: sum.splits)
      then show ?thesis
        using o above Some loaded_state_valid [OF s] by (intro keeps_state_write [OF assms e]) simp_all
    qed
  qed (auto intro: keeps_st_then)
  show ?thesis
    unfolding recover_embedded_trust_root_def Let_def
  proof (rule keeps_st_then)
    fix e d1
    assume "(embedded_trust_root env, make_directory d) = (Inr e, d1)"
    then have e: "valid_root env e" by (auto dest: embedded_valid)
    show "keeps_floors d1 (snd (st_then (catalog_state_trust_root_version_for_recovery d1, d1) (\<lambda>catalog_root d.
      st_then (fail_if (case catalog_root of None \<Rightarrow> False | Some v \<Rightarrow> root_version e < v) (Storage BelowCatalogAuthority), d) (\<lambda>_ d.
      st_then (fail_if (case case load_trust_state d of Inl _ \<Rightarrow> None | Inr state \<Rightarrow> state of None \<Rightarrow> False
        | Some s \<Rightarrow> root_version e < ts_highest s) (Storage RootRollback), d) (\<lambda>_ d'.
      st_then (case case load_trust_state d of Inl _ \<Rightarrow> None | Inr state \<Rightarrow> state of
        Some s \<Rightarrow> Inr (ts_observed s) | None \<Rightarrow> system_unix_seconds env, d') (\<lambda>observed d.
      st_then (write_trust_state e observed d) (\<lambda>_ d. st_then (write_trust_chain no_roots d) (\<lambda>_ d. (Inr e, d)))))))))"
      by (rule keeps_pure, rule keeps_pure, rule keeps_pure, rule main [OF e refl]) simp
  qed simp
qed

text \<open>A reset lowers the time on purpose, and nothing else.\<close>

lemma reset_keeps_versions:
  assumes "trust_laws env"
  shows "root_floor d \<le> root_floor (snd (reset_trust_time_floor env d))
    \<and> catalog_floor (snd (reset_trust_time_floor env d)) = catalog_floor d
    \<and> dk_directory (snd (reset_trust_time_floor env d))"
proof (cases "load_active_trust_root env False (make_directory d)")
  case (Pair res d1)
  have load: "root_floor d \<le> root_floor d1"
    using keeps_trans [OF keeps_make_directory keeps_load [OF assms, of "make_directory d" False]] Pair
    by (simp add: keeps_floors_def)
  have same_catalog: "load_state d1 = load_state d"
    using Pair
  proof (cases rule: load_active_cases)
    case (upgrade e s)
    have "load_state (snd (upgrade_root e (ts_observed s) (make_directory d))) = load_state (make_directory d)"
      using write_trust_state_cases [OF assms embedded_valid [OF upgrade(1)] loaded_state_valid(4,5) [OF upgrade(2)], of "make_directory d"]
      unfolding upgrade_root_def snd_st_then by (auto split: sum.splits simp: snd_st_then)
    then show ?thesis using upgrade(5) by (metis reading_ignores_others(11) snd_conv)
  qed simp_all
  have made: "dk_directory d1" using keeps_load [OF assms, of "make_directory d" False] Pair by (simp add: keeps_floors_def)
  show ?thesis
  proof (cases res)
    case (Inl a)
    then show ?thesis using Pair load same_catalog made by (simp add: reset_trust_time_floor_def catalog_floor_def)
  next
    case (Inr r)
    obtain e where e: "valid_root env r" "root_floor d1 \<le> root_version r"
      by (rule loaded_root [OF Pair [unfolded Inr] assms]) blast
    have written: "root_floor d1 \<le> root_floor (snd (write_trust_state r now d1)) \<and> load_state (snd (write_trust_state r now d1)) = load_state d1"
      if "te_now env = Some now" for now
    proof -
      have "0 < now" "now \<le> MAX_JSON_SAFE_INTEGER" using that assms by (auto simp: trust_laws_def)
      then show ?thesis using write_trust_state_cases [OF assms e(1), of now d1] e(2) by (auto simp: root_floor_def)
    qed
    have "root_floor d1 \<le> root_floor (snd (reset_trust_time_floor env d))
        \<and> load_state (snd (reset_trust_time_floor env d)) = load_state d1 \<and> dk_directory (snd (reset_trust_time_floor env d))"
      using written made Pair [unfolded Inr]
      by (auto simp: reset_trust_time_floor_def snd_st_then system_unix_seconds_def ok_or_def fail_if_def split: sum.splits option.splits)
    then show ?thesis using load same_catalog by (simp add: catalog_floor_def)
  qed
qed

end
