(* ===== verification/Catalog_Operations.thy ===== *)
theory Catalog_Operations
  imports Trust_Operations
begin

text \<open>
  What a catalog that loads or is activated rests on (\<open>src/src/models/catalog.rs\<close>), and that activation and
  acquisition keep the floors of \<open>Trust_Floors\<close>.
\<close>

section \<open>Verified catalogs\<close>

definition identity_ok :: "catalog_identity \<Rightarrow> bool" where
  "identity_ok i \<longleftrightarrow> 0 < ci_sequence i \<and> ci_sequence i \<le> MAX_JSON_SAFE_INTEGER \<and> valid_sha256 (ci_sha256 i)
     \<and> valid_key_id (ci_signing_key_id i) \<and> 0 < ci_root_version i \<and> ci_root_version i \<le> MAX_JSON_SAFE_INTEGER"

lemma validated_identity:
  assumes "validate_document env d bytes origin r key mode = Inr c"
  shows "mc_identity c = document_identity env d bytes origin r key mode"
    "0 < cd_sequence d" "cd_sequence d \<le> MAX_JSON_SAFE_INTEGER" "validate_catalog_validity d r mode = Inr ()"
  using assms by (auto simp: validate_document_def Let_def res_simps not_less split: prod.splits)

lemma required_key:
  assumes "require_key r d mode = Inr key"
  shows "find_catalog_key r (cd_signing_key_id d) = Some key" "enforces_policy mode \<longrightarrow> accepts key (cd_sequence d)"
  using assms by (auto simp: require_key_def res_simps)

lemma trusted_key_id:
  assumes "valid_root env r" "find_catalog_key r i = Some key"
  shows "valid_key_id i"
proof -
  have "validate_catalog_key env key = Inr ()"
    using valid_root_document(6) [OF assms(1)] find_catalog_key_Some(1) [OF assms(2)] by blast
  then have "valid_key_id (ck_key_id key)"
    by (auto simp: validate_catalog_key_def validate_public_key_identity_def res_simps)
  then show ?thesis using find_catalog_key_Some(2) [OF assms(2)] by simp
qed

definition accepted_version :: "verification_mode \<Rightarrow> active_root \<Rightarrow> nat" where
  "accepted_version mode r = (case mode of Historical accepted \<Rightarrow> accepted | Current _ \<Rightarrow> root_version r)"

lemma document_identity_ok:
  assumes "trust_laws env" "valid_root env r" "require_key r d mode = Inr key"
    and "validate_document env d bytes origin r key mode = Inr c"
    and "0 < accepted_version mode r" "accepted_version mode r \<le> MAX_JSON_SAFE_INTEGER"
  shows "identity_ok (mc_identity c)"
  using validated_identity [OF assms(4)] trusted_key_id [OF assms(2) required_key(1) [OF assms(3)]] assms(1,5,6)
  by (simp add: identity_ok_def document_identity_def trust_laws_def accepted_version_def)

lemma verified_catalog:
  assumes "verify_signed_catalog_with_root env bytes signature_bytes origin r mode = Inr c"
  obtains d key signature where "te_parse_catalog env bytes = Some d" "require_key r d mode = Inr key"
    "decode_signature_text env signature_bytes = Inr signature" "te_verify env (ck_public_key key) bytes signature"
    "validate_document env d bytes origin r key mode = Inr c"
  using assms by (auto simp: verify_signed_catalog_with_root_def res_simps)

lemma verified_identity_ok:
  assumes "verify_signed_catalog_with_root env bytes signature_bytes origin r mode = Inr c" "trust_laws env" "valid_root env r"
    and "0 < accepted_version mode r" "accepted_version mode r \<le> MAX_JSON_SAFE_INTEGER"
  shows "identity_ok (mc_identity c)"
  using verified_catalog [OF assms(1)] document_identity_ok [OF assms(2,3) _ _ assms(4,5)] by metis

lemma embedded_identity:
  assumes "embedded_catalog env = Inr c" "trust_laws env"
  obtains e where "embedded_trust_root env = Inr e" "identity_ok (mc_identity c)" "ci_origin (mc_identity c) = EmbeddedCatalog"
    "ci_root_version (mc_identity c) = root_version e"
proof -
  obtain e d key where e: "embedded_trust_root env = Inr e" and k: "require_key e d (Historical (root_version e)) = Inr key"
    and v: "validate_document env d (te_embedded_catalog env) EmbeddedCatalog e key (Historical (root_version e)) = Inr c"
    using assms(1) by (auto simp: embedded_catalog_def parse_catalog_with_root_def res_simps)
  note valid = embedded_valid [OF e]
  have "identity_ok (mc_identity c)"
    by (rule document_identity_ok [OF assms(2) valid k v])
      (use valid_root_document(1,2) [OF valid] in \<open>simp_all add: accepted_version_def\<close>)
  then show thesis using that [OF e] validated_identity(1) [OF v] by (simp add: document_identity_def)
qed

section \<open>The active catalog\<close>

lemma cached_catalog_Inr:
  assumes "cached_catalog env embedded r s e = Inr c"
  obtains bytes where "validate_state s = Inr ()"
    "verify_signed_catalog_with_root env bytes (ce_signature e) (SignedCatalog (ce_source e)) r (Historical (cs_root_version s)) = Inr c"
    "mc_sequence c = cs_highest s" "mc_sha256 c = cs_sha256 s" "mc_signing_key_id c = cs_signing_key_id s"
    "mc_sequence embedded \<le> mc_sequence c"
  using assms by (auto simp: cached_catalog_def res_simps not_less)

lemma loaded_catalog:
  assumes "load_active_catalog_locked env embedded r d = Inr c"
  obtains (embedded) "c = embedded" "catalog_floor d \<le> mc_sequence c"
  | (cached) s e where "load_state d = Inr (Some s)" "load_envelope env d = Inr (Some e)" "cached_catalog env embedded r s e = Inr c"
      "catalog_floor d = mc_sequence c"
proof (cases "load_state d")
  case (Inl a)
  then show thesis using assms by (simp add: load_active_catalog_locked_def)
next
  case (Inr state)
  show thesis
  proof (cases state)
    case None
    then have "catalog_floor d = 0" using Inr by (simp add: catalog_floor_def)
    moreover have "c = embedded"
      using assms Inr None by (auto simp: load_active_catalog_locked_def res_simps split: option.splits)
    ultimately show thesis using embedded by simp
  next
    case (Some s)
    note s = loaded_catalog_state_valid [OF Inr [unfolded Some]]
    consider "cs_highest s < mc_sequence embedded \<or> state_matches_catalog s embedded" |
      e where "load_envelope env d = Inr (Some e)" "cached_catalog env embedded r s e = Inr c"
      using assms Inr Some by (auto simp: load_active_catalog_locked_def res_simps split: option.splits if_splits)
    then show thesis
    proof cases
      case 1
      then have "c = embedded" using assms Inr Some by (auto simp: load_active_catalog_locked_def split: if_splits)
      then show thesis using 1 s(3) embedded by (auto simp: state_matches_catalog_def)
    next
      case (2 e)
      obtain bytes where "mc_sequence c = cs_highest s" by (rule cached_catalog_Inr [OF 2(2)]) blast
      then show thesis using cached [OF Inr [unfolded Some] 2] s(3) by simp
    qed
  qed
qed

lemma loaded_identity_ok:
  assumes "load_active_catalog_locked env embedded r d = Inr c" "embedded_catalog env = Inr embedded"
    and "trust_laws env" "valid_root env r"
  shows "identity_ok (mc_identity c)"
  using assms(1)
proof (cases rule: loaded_catalog)
  case embedded
  then show ?thesis using embedded_identity [OF assms(2,3)] by metis
next
  case (cached s e)
  from cached(3) show ?thesis
  proof (rule cached_catalog_Inr)
    fix bytes
    assume v: "validate_state s = Inr ()"
      and c: "verify_signed_catalog_with_root env bytes (ce_signature e) (SignedCatalog (ce_source e)) r
        (Historical (cs_root_version s)) = Inr c"
    show ?thesis
      by (rule verified_identity_ok [OF c assms(3,4)])
        (use v in \<open>simp_all add: validate_state_def accepted_version_def\<close>)
  qed
qed

lemma active_catalog_Inr:
  assumes "active_catalog env d = (Inr c, d')" "trust_laws env"
  obtains (directory) r embedded where "dk_directory d" "load_active_trust_root env False d = (Inr r, d')"
      "embedded_catalog env = Inr embedded" "load_active_catalog_locked env embedded r d' = Inr c"
  | (no_directory) "\<not> dk_directory d" "embedded_catalog env = Inr c" "d' = d"
  using assms by (auto simp: active_catalog_def st_then_Inr_iff split: if_splits)

lemma active_catalog_ok:
  assumes "active_catalog env d = (Inr c, d')" "trust_laws env"
  shows "identity_ok (mc_identity c)" "dk_directory d \<Longrightarrow> catalog_floor d \<le> mc_sequence c"
proof -
  have "identity_ok (mc_identity c) \<and> (dk_directory d \<longrightarrow> catalog_floor d \<le> mc_sequence c)"
    using assms
  proof (cases rule: active_catalog_Inr)
    case (directory r embedded)
    have r: "valid_root env r" "load_state d' = load_state d"
      using loaded_root [OF directory(2) assms(2)] by metis+
    have "catalog_floor d' \<le> mc_sequence c" using directory(4) by (cases rule: loaded_catalog) simp_all
    then show ?thesis
      using loaded_identity_ok [OF directory(4,3) assms(2) r(1)] r(2) by (simp add: catalog_floor_def)
  next
    case no_directory
    then show ?thesis using embedded_identity [OF no_directory(2) assms(2)] by metis
  qed
  then show "identity_ok (mc_identity c)" "dk_directory d \<Longrightarrow> catalog_floor d \<le> mc_sequence c" by simp_all
qed

lemma read_only_catalog_ok:
  assumes "active_catalog_read_only env d = (Inr c, d')" "trust_laws env"
  shows "identity_ok (mc_identity c)"
proof (cases "dk_directory d")
  case True
  then obtain r embedded where l: "load_active_trust_root env True d = (Inr r, d')" "embedded_catalog env = Inr embedded"
      "load_active_catalog_locked env embedded r d' = Inr c"
    using assms(1) by (auto simp: active_catalog_read_only_def st_then_Inr_iff)
  have "valid_root env r" using loaded_root [OF l(1) assms(2)] by metis
  then show ?thesis by (rule loaded_identity_ok [OF l(3,2) assms(2)])
next
  case False
  then have "embedded_catalog env = Inr c" using assms(1) by (simp add: active_catalog_read_only_def)
  then show ?thesis using embedded_identity [OF _ assms(2)] by metis
qed

section \<open>Writing the floor of the catalog\<close>

lemma write_catalog_state_cases:
  assumes "identity_ok i"
  shows "load_state (snd (write_catalog_identity_state i d)) = load_state d
    \<or> (\<exists>s. load_state (snd (write_catalog_identity_state i d)) = Inr (Some s) \<and> cs_highest s = ci_sequence i)"
proof -
  let ?s = "\<lparr>cs_version = 2, cs_highest = ci_sequence i, cs_sha256 = ci_sha256 i,
    cs_signing_key_id = ci_signing_key_id i, cs_root_version = ci_root_version i\<rparr>"
  have "load_state (d\<lparr>dk_catalog := Stored ?s\<rparr>) = Inr (Some ?s)"
    using assms by (simp add: load_state_def validate_state_def identity_ok_def)
  then show ?thesis
    using write_file_cases [of "\<lambda>d. d\<lparr>dk_catalog := Stored ?s\<rparr>" d] by (auto simp: write_catalog_identity_state_def)
qed

lemma keeps_catalog_write:
  assumes "identity_ok i" "catalog_floor d \<le> ci_sequence i"
  shows "keeps_floors d (snd (write_catalog_identity_state i d))"
  using write_catalog_state_cases [OF assms(1), of d] assms(2)
  by (auto simp: keeps_floors_def root_floor_def time_floor_def catalog_floor_def)

lemma candidate_floor:
  assumes "validate_catalog_candidate_floor c embedded d = Inr u"
  shows "catalog_floor d \<le> mc_sequence c" "mc_sequence embedded \<le> mc_sequence c"
  using assms by (auto simp: validate_catalog_candidate_floor_def catalog_floor_def res_simps not_less split: option.splits)

lemma keeps_activate_locked:
  assumes "trust_laws env"
  shows "keeps_floors d (snd (activate_locked env bytes signature source d))"
  unfolding activate_locked_def
proof (rule keeps_st_then [OF keeps_load [OF assms]])
  fix r d1
  assume "load_active_trust_root env False d = (Inr r, d1)"
  then have r: "valid_root env r" using loaded_root [OF _ assms] by metis
  show "keeps_floors d1 (snd (st_then (effective_now_and_record_locked env r d1) (\<lambda>now d.
    st_then (require_fresh_root r now, d) (\<lambda>_ d.
    st_then (verify_signed_catalog_with_root env bytes signature (SignedCatalog source) r (Current now), d) (\<lambda>c d.
    st_then (embedded_catalog env, d) (\<lambda>embedded d.
    st_then (validate_catalog_candidate_floor c embedded d, d) (\<lambda>_ d.
    if mc_sequence c = mc_sequence embedded then
      st_then (write_catalog_state embedded d) (\<lambda>_ d. (Inr (Some embedded), d))
    else
      st_then (write_catalog_state c d) (\<lambda>_ d.
      st_then (fail_if (\<not> utf8_text signature) (Signing SignatureNotUtf8), d) (\<lambda>_ d.
      st_then (write_envelope (catalog_envelope_of env bytes signature source) d) (\<lambda>_ d.
      (Inr None, d)))))))))))"
  proof (rule keeps_st_then [OF keeps_effective_now [OF assms r]], rule keeps_pure, rule keeps_pure, rule keeps_pure, rule keeps_pure)
    fix now d2 c embedded u
    assume c: "verify_signed_catalog_with_root env bytes signature (SignedCatalog source) r (Current now) = Inr c"
      and embedded: "embedded_catalog env = Inr embedded"
      and floor: "validate_catalog_candidate_floor c embedded d2 = Inr u"
    have ok: "identity_ok (mc_identity c)" "identity_ok (mc_identity embedded)"
      using verified_identity_ok [OF c assms r] valid_root_document(1,2) [OF r] embedded_identity [OF embedded assms]
      by (auto simp: accepted_version_def)
    have write_c: "keeps_floors d2 (snd (write_catalog_state c d2))"
      unfolding write_catalog_state_def
      by (rule keeps_catalog_write [OF ok(1)]) (use candidate_floor(1) [OF floor] in \<open>simp add: mc_sequence_def\<close>)
    have write_e: "keeps_floors d2 (snd (write_catalog_state embedded d2))" if "mc_sequence c = mc_sequence embedded"
      unfolding write_catalog_state_def
      by (rule keeps_catalog_write [OF ok(2)]) (use candidate_floor(1) [OF floor] that in \<open>simp add: mc_sequence_def\<close>)
    show "keeps_floors d2 (snd (if mc_sequence c = mc_sequence embedded then
        st_then (write_catalog_state embedded d2) (\<lambda>_ d. (Inr (Some embedded), d))
      else st_then (write_catalog_state c d2) (\<lambda>_ d.
        st_then (fail_if (\<not> utf8_text signature) (Signing SignatureNotUtf8), d) (\<lambda>_ d.
        st_then (write_envelope (catalog_envelope_of env bytes signature source) d) (\<lambda>_ d. (Inr None, d))))))"
      using write_c write_e by (auto intro!: keeps_st_then keeps_pure)
  qed
qed

lemma keeps_active_catalog: "trust_laws env \<Longrightarrow> keeps_floors d (snd (active_catalog env d))"
  unfolding active_catalog_def by (auto intro!: keeps_st_then keeps_pure keeps_load)

lemma keeps_activate: "trust_laws env \<Longrightarrow> keeps_floors d (snd (activate_signed_catalog env bytes signature source d))"
  unfolding activate_signed_catalog_def
  by (intro keeps_pure keeps_st_then)
    (auto intro: keeps_trans [OF keeps_make_directory keeps_activate_locked] keeps_active_catalog split: option.splits)

lemma keeps_require:
  assumes "trust_laws env" "identity_ok i"
  shows "keeps_floors d (snd (require_catalog_acquisition env i d))"
  unfolding require_catalog_acquisition_def
proof (rule keeps_st_then [OF keeps_trans [OF keeps_make_directory keeps_load [OF assms(1)]]])
  fix r d1
  assume "load_active_trust_root env False (make_directory d) = (Inr r, d1)"
  then have r: "valid_root env r" using loaded_root [OF _ assms(1)] by metis
  show "keeps_floors d1 (snd (st_then (effective_now_and_record_locked env r d1) (\<lambda>now d.
    st_then (load_state d, d) (\<lambda>state d.
    st_then (authority_for i r now state, d) (\<lambda>_ d.
    if advances_embedded_floor i state then write_catalog_identity_state i d else (Inr (), d))))))"
  proof (rule keeps_st_then [OF keeps_effective_now [OF assms(1) r]], rule keeps_pure, rule keeps_pure)
    fix d2 state
    assume state: "load_state d2 = Inr state"
    have "keeps_floors d2 (snd (write_catalog_identity_state i d2))" if "advances_embedded_floor i state"
      by (rule keeps_catalog_write [OF assms(2)])
        (use that state in \<open>auto simp: advances_embedded_floor_def catalog_floor_def split: option.splits\<close>)
    then show "keeps_floors d2 (snd (if advances_embedded_floor i state then write_catalog_identity_state i d2 else (Inr (), d2)))"
      by simp
  qed
qed

end
