(* ===== verification/Trust_Machine.thy ===== *)
theory Trust_Machine
  imports Catalog_Operations
begin

text \<open>
  The trust store and the catalog over time (\<open>src/src/models/catalog/trust.rs\<close>, \<open>src/src/models/catalog.rs\<close>):
  any sequence of operations, each by any binary, with any of its writes failing. The binary, its
  embedded root and catalog and the clock are the \<open>trust_env\<close> of the step.
\<close>

section \<open>Steps\<close>

datatype trust_command =
    TrustStatus | ImportRoot string string | RecoverRoot | ResetTime
  | LoadCatalog | PlanCatalog | ImportCatalog string string | ActivateCatalog string string string
  | VerifyBundle string string | RequireAcquisition model_catalog | AskAcquisition model_catalog | CatalogStatus

definition run_command :: "trust_env \<Rightarrow> trust_command \<Rightarrow> trust_disk \<Rightarrow> trust_disk" where
  "run_command env command d = (case command of
     TrustStatus \<Rightarrow> snd (trust_root_status_of env d)
   | ImportRoot bytes bundle \<Rightarrow> snd (import_trust_root env bytes bundle d)
   | RecoverRoot \<Rightarrow> snd (recover_embedded_trust_root env d)
   | ResetTime \<Rightarrow> snd (reset_trust_time_floor env d)
   | LoadCatalog \<Rightarrow> snd (active_catalog env d)
   | PlanCatalog \<Rightarrow> snd (active_catalog_read_only env d)
   | ImportCatalog bytes signature \<Rightarrow> snd (import_catalog env bytes signature d)
   | ActivateCatalog bytes signature source \<Rightarrow> snd (activate_signed_catalog env bytes signature source d)
   | VerifyBundle bytes signature \<Rightarrow> snd (verify_bundle_catalog env bytes signature d)
   | RequireAcquisition c \<Rightarrow> snd (require_catalog_acquisition env (mc_identity c) d)
   | AskAcquisition c \<Rightarrow> snd (catalog_acquisition_allowed env c d)
   | CatalogStatus \<Rightarrow> snd (catalog_status env d))"

text \<open>The catalogs that the program holds come from one of its own loads, at any earlier time.\<close>

definition obtained :: "model_catalog \<Rightarrow> bool" where
  "obtained c \<longleftrightarrow> (\<exists>env d d'. trust_laws env
     \<and> (active_catalog env d = (Inr c, d') \<or> active_catalog_read_only env d = (Inr c, d')
        \<or> (\<exists>bytes signature source. activate_signed_catalog env bytes signature source d = (Inr c, d'))))"

definition permitted :: "bool \<Rightarrow> trust_command \<Rightarrow> bool" where
  "permitted resets command \<longleftrightarrow>
    (case command of ResetTime \<Rightarrow> resets | RequireAcquisition c \<Rightarrow> obtained c | _ \<Rightarrow> True)"

inductive trust_reaches :: "bool \<Rightarrow> trust_disk \<Rightarrow> trust_disk \<Rightarrow> bool" for resets and d :: trust_disk where
  start: "trust_reaches resets d d"
| step: "trust_reaches resets d d1 \<Longrightarrow> trust_laws env \<Longrightarrow> permitted resets command
    \<Longrightarrow> trust_reaches resets d ((run_command env command d1)\<lparr>dk_writes := n, dk_torn := torn\<rparr>)"

section \<open>Catalogs in hand\<close>

lemma activated_catalog_ok:
  assumes "activate_signed_catalog env bytes signature source d = (Inr c, d')" "trust_laws env"
  shows "identity_ok (mc_identity c)"
proof -
  obtain d1 res where a: "activate_locked env bytes signature source (make_directory d) = (Inr res, d1)"
    and c: "(case res of Some embedded \<Rightarrow> (Inr embedded, d1) | None \<Rightarrow> active_catalog env d1) = (Inr c, d')"
    using assms(1) by (auto simp: activate_signed_catalog_def st_then_Inr_iff)
  show ?thesis
  proof (cases res)
    case None
    then show ?thesis using c active_catalog_ok(1) [OF _ assms(2)] by simp
  next
    case (Some embedded)
    then have "embedded_catalog env = Inr embedded"
      using a by (auto simp: activate_locked_def st_then_Inr_iff split: if_splits)
    then show ?thesis using c Some embedded_identity [OF _ assms(2)] by fastforce
  qed
qed

lemma obtained_ok: "obtained c \<Longrightarrow> identity_ok (mc_identity c)"
  unfolding obtained_def using active_catalog_ok(1) read_only_catalog_ok activated_catalog_ok by blast

section \<open>Every command keeps the floors\<close>

lemma read_only_load: "snd (load_active_trust_root env True d) = d"
proof (cases "load_active_trust_root env True d")
  case (Pair res d')
  from Pair have "d' = d" by (cases rule: load_active_cases) simp_all
  then show ?thesis using Pair by simp
qed

lemma keeps_read_only: "snd (active_catalog_read_only env d) = d"
  using read_only_load [of env d]
  by (auto simp: active_catalog_read_only_def snd_st_then split: sum.splits)

lemma keeps_status: "trust_laws env \<Longrightarrow> keeps_floors d (snd (trust_root_status_of env d))"
  unfolding trust_root_status_of_def by (auto intro!: keeps_st_then keeps_load)

lemma keeps_verify: "trust_laws env \<Longrightarrow> keeps_floors d (snd (verify_bundle_catalog env bytes signature d))"
  unfolding verify_bundle_catalog_def by (auto intro!: keeps_st_then keeps_load)

lemma keeps_allowed: "trust_laws env \<Longrightarrow> keeps_floors d (snd (catalog_acquisition_allowed env c d))"
  unfolding catalog_acquisition_allowed_def by (auto intro!: keeps_st_then keeps_pure keeps_load)

lemma keeps_catalog_status: "trust_laws env \<Longrightarrow> keeps_floors d (snd (catalog_status env d))"
  unfolding catalog_status_def
  by (intro keeps_st_then [OF keeps_active_catalog] keeps_st_then [OF keeps_status] keeps_st_then [OF keeps_allowed]) simp_all

lemma keeps_import_catalog: "trust_laws env \<Longrightarrow> keeps_floors d (snd (import_catalog env bytes signature d))"
  unfolding import_catalog_def by (intro keeps_pure keeps_activate)

lemma command_keeps:
  assumes "trust_laws env" "permitted resets command" "command \<noteq> ResetTime"
  shows "keeps_floors d (run_command env command d)"
  using assms
  by (cases command)
    (simp_all add: run_command_def permitted_def keeps_status keeps_import keeps_recover keeps_active_catalog
      keeps_read_only keeps_import_catalog keeps_activate keeps_verify keeps_require obtained_ok keeps_allowed
      keeps_catalog_status)

lemma command_keeps_versions:
  assumes "trust_laws env" "permitted resets command"
  shows "root_floor d \<le> root_floor (run_command env command d) \<and> catalog_floor d \<le> catalog_floor (run_command env command d)
    \<and> (dk_directory d \<longrightarrow> dk_directory (run_command env command d))"
proof (cases "command = ResetTime")
  case True
  then show ?thesis using reset_keeps_versions [OF assms(1), of d] by (simp add: run_command_def)
next
  case False
  then show ?thesis using command_keeps [OF assms] by (simp add: keeps_floors_def)
qed

section \<open>A store without a directory has no files\<close>

definition disk_ok :: "trust_disk \<Rightarrow> bool" where
  "disk_ok d \<longleftrightarrow> dk_directory d
     \<or> (dk_state d = Absent \<and> dk_chain d = Absent \<and> dk_catalog d = Absent \<and> dk_envelope d = Absent)"

lemma disk_ok_absent:
  assumes "disk_ok d" "\<not> dk_directory d"
  shows "load_trust_state d = Inr None" "load_trust_chain env d = Inr None" "load_state d = Inr None"
    "load_envelope env d = Inr None" "catalog_floor d = 0"
  using assms
  by (simp_all add: disk_ok_def load_trust_state_def load_trust_chain_def load_state_def load_envelope_def catalog_floor_def)

definition makes_directory :: "(trust_disk \<Rightarrow> ('e + 'a) \<times> trust_disk) \<Rightarrow> bool" where
  "makes_directory f \<longleftrightarrow> (\<forall>d. snd (f d) = d \<or> dk_directory (snd (f d)))"

lemma directory_kept: "keeps_floors (make_directory d) d' \<Longrightarrow> dk_directory d'"
  by (simp add: keeps_floors_def)

lemma import_makes: "trust_laws env \<Longrightarrow> makes_directory (import_trust_root env bytes bundle)"
proof -
  assume laws: "trust_laws env"
  have "snd (import_trust_root env bytes bundle d) = d \<or> dk_directory (snd (import_trust_root env bytes bundle d))" for d
  proof (cases "is_ok (and_then (fail_if (MAX_TRUST_ROOT_BYTES < length bytes) (Root RootTooLarge)) (\<lambda>_.
      and_then (fail_if (MAX_TRUST_SIGNATURE_BUNDLE_BYTES < length bundle) (Signing BadBundle)) (\<lambda>_.
      parse_signature_bundle env bundle)))")
    case False
    then show ?thesis
      by (auto simp: import_trust_root_def is_ok_def fail_if_def split: sum.splits)
  next
    case True
    then have same: "snd (import_trust_root env bytes bundle d) = snd (import_trust_root env bytes bundle (make_directory d))"
      by (auto simp: import_trust_root_def is_ok_iff res_simps make_directory_def)
    have "dk_directory (snd (import_trust_root env bytes bundle (make_directory d)))"
      by (rule directory_kept [OF keeps_import [OF laws]])
    then show ?thesis using same by simp
  qed
  then show ?thesis by (simp add: makes_directory_def)
qed

lemma made_directory_again [simp]: "make_directory (make_directory d) = make_directory d"
  by (simp add: make_directory_def)

lemma recover_makes: "trust_laws env \<Longrightarrow> makes_directory (recover_embedded_trust_root env)"
proof -
  assume laws: "trust_laws env"
  have "recover_embedded_trust_root env (make_directory d) = recover_embedded_trust_root env d" for d
    by (simp add: recover_embedded_trust_root_def)
  then show ?thesis using directory_kept [OF keeps_recover [OF laws]] by (metis makes_directory_def)
qed

lemma activate_makes: "trust_laws env \<Longrightarrow> makes_directory (activate_signed_catalog env bytes signature source)"
proof -
  assume laws: "trust_laws env"
  have "snd (activate_signed_catalog env bytes signature source d) = d
      \<or> activate_signed_catalog env bytes signature source d = activate_signed_catalog env bytes signature source (make_directory d)" for d
    by (cases "validate_catalog_source env source") (auto simp: activate_signed_catalog_def)
  then show ?thesis using directory_kept [OF keeps_activate [OF laws]] by (metis makes_directory_def)
qed

lemma require_makes:
  assumes "trust_laws env" "identity_ok i"
  shows "makes_directory (require_catalog_acquisition env i)"
proof -
  have "require_catalog_acquisition env i (make_directory d) = require_catalog_acquisition env i d" for d
    by (simp add: require_catalog_acquisition_def)
  then show ?thesis using directory_kept [OF keeps_require [OF assms]] by (metis makes_directory_def)
qed

lemma import_catalog_makes: "trust_laws env \<Longrightarrow> makes_directory (import_catalog env bytes signature)"
proof -
  assume laws: "trust_laws env"
  have "snd (import_catalog env bytes signature d) = d
      \<or> import_catalog env bytes signature d = activate_signed_catalog env bytes signature ''local-import'' d" for d
    by (auto simp: import_catalog_def fail_if_def)
  then show ?thesis using activate_makes [OF laws] by (metis makes_directory_def)
qed

lemma command_directory:
  assumes "trust_laws env" "permitted resets command" "\<not> dk_directory d"
  shows "run_command env command d = d \<or> dk_directory (run_command env command d)"
proof (cases command)
  case CatalogStatus
  have "snd (active_catalog env d) = d" using assms(3) by (simp add: active_catalog_def)
  moreover have "snd (trust_root_status_of env d) = d"
    using assms(3) by (simp add: trust_root_status_of_def snd_st_then split: sum.splits)
  moreover have "snd (catalog_acquisition_allowed env c d) = d" for c
    using assms(3) by (simp add: catalog_acquisition_allowed_def snd_st_then split: sum.splits)
  ultimately show ?thesis
    using CatalogStatus by (simp add: run_command_def catalog_status_def snd_st_then split: sum.splits)
next
  case (RequireAcquisition c)
  then have "identity_ok (mc_identity c)" using assms(2) obtained_ok by (simp add: permitted_def)
  from require_makes [OF assms(1) this] show ?thesis
    using RequireAcquisition by (simp add: run_command_def makes_directory_def)
qed (use assms import_makes recover_makes import_catalog_makes activate_makes reset_keeps_versions in
    \<open>simp_all add: run_command_def makes_directory_def keeps_read_only trust_root_status_of_def active_catalog_def
      verify_bundle_catalog_def catalog_acquisition_allowed_def snd_st_then split: sum.splits\<close>)

lemma reached_disk_ok: "trust_reaches resets d d' \<Longrightarrow> disk_ok d \<Longrightarrow> disk_ok d'"
proof (induction rule: trust_reaches.induct)
  case (step d1 env command torn n)
  then show ?case
    using command_directory [OF step.hyps(2,3), of d1] command_keeps_versions [OF step.hyps(2,3), of d1]
    by (auto simp: disk_ok_def)
qed

lemma reached_floors:
  assumes "trust_reaches resets d d'"
  shows "root_floor d \<le> root_floor d' \<and> catalog_floor d \<le> catalog_floor d' \<and> (\<not> resets \<longrightarrow> time_floor d \<le> time_floor d')"
  using assms
proof (induction rule: trust_reaches.induct)
  case (step d1 env command torn n)
  have versions: "root_floor d1 \<le> root_floor (run_command env command d1)" "catalog_floor d1 \<le> catalog_floor (run_command env command d1)"
    using command_keeps_versions [OF step.hyps(2,3)] by simp_all
  have time: "time_floor d1 \<le> time_floor (run_command env command d1)" if "\<not> resets"
  proof -
    have "command \<noteq> ResetTime" using that step.hyps(3) by (auto simp: permitted_def)
    then show ?thesis using command_keeps [OF step.hyps(2,3)] by (simp add: keeps_floors_def)
  qed
  have same: "root_floor (d\<lparr>dk_writes := n, dk_torn := torn\<rparr>) = root_floor d"
      "catalog_floor (d\<lparr>dk_writes := n, dk_torn := torn\<rparr>) = catalog_floor d"
      "time_floor (d\<lparr>dk_writes := n, dk_torn := torn\<rparr>) = time_floor d" for d
    by (simp_all add: root_floor_def catalog_floor_def time_floor_def)
  show ?case using step.IH versions time unfolding same by auto
qed simp

section \<open>Properties\<close>

text \<open>C3: Over any sequence of operations by any binaries, with any of their writes failing or lost, the
  accepted root version and catalog sequence never decrease, nor does the observed time unless it is reset; no
  root below the version and no catalog below the sequence that were accepted before is ever loaded.\<close>

theorem floors_never_drop:
  assumes "trust_reaches resets d d'" "disk_ok d" "trust_laws env"
  shows "root_floor d \<le> root_floor d' \<and> catalog_floor d \<le> catalog_floor d'
    \<and> (\<not> resets \<longrightarrow> time_floor d \<le> time_floor d')
    \<and> (load_active_trust_root env read_only d' = (Inr r, d1) \<longrightarrow> root_floor d \<le> root_version r)
    \<and> (active_catalog env d' = (Inr c, d2) \<longrightarrow> catalog_floor d \<le> mc_sequence c)"
proof -
  note floors = reached_floors [OF assms(1)]
  have "root_floor d \<le> root_version r" if "load_active_trust_root env read_only d' = (Inr r, d1)"
    using loaded_root [OF that assms(3)] floors by (metis le_trans)
  moreover have "catalog_floor d \<le> mc_sequence c" if l: "active_catalog env d' = (Inr c, d2)"
  proof (cases "dk_directory d'")
    case True
    then show ?thesis using active_catalog_ok(2) [OF l assms(3)] floors by linarith
  next
    case False
    then have "catalog_floor d' = 0" by (rule disk_ok_absent(5) [OF reached_disk_ok [OF assms(1,2)]])
    then show ?thesis using floors by simp
  qed
  ultimately show ?thesis using floors by blast
qed

end
