(* ===== verification/Catalog_Outcomes.thy ===== *)
theory Catalog_Outcomes
  imports Trust_Machine
begin

text \<open>
  What the operations on roots and catalogs guarantee when they succeed (\<open>src/src/models/catalog/trust.rs\<close>,
  \<open>src/src/models/catalog.rs\<close>): roots are signed rotations of the embedded root, an activated catalog is the
  one that was signed, and acquisition happens only under fresh, unrevoked authority.
\<close>

section \<open>Roots\<close>


section \<open>Activation\<close>

lemma fresh_root:
  assumes "require_fresh_root r now = Inr u"
  shows "now < root_expires_at r" "td_issued_at (ar_document r) \<le> now + 24 * 60 * 60"
  using assms
  by (auto simp: require_fresh_root_def is_expired_at_def MAX_ISSUED_AT_FUTURE_SKEW_SECONDS_def add_saturating_def
      res_simps not_less split: if_splits)

lemma valid_now:
  assumes "validate_catalog_validity d r (Current now) = Inr u"
  shows "\<forall>t. cd_expires_at d = Some t \<longrightarrow> now < t"
    "td_expiration_required_from (ar_document r) \<le> cd_sequence d \<longrightarrow> cd_expires_at d \<noteq> None"
  using assms
  by (auto simp: validate_catalog_validity_def res_simps not_less not_le split: option.splits prod.splits)

lemma write_catalog_state_Inr:
  assumes "write_catalog_identity_state i d = (Inr u, d')" "identity_ok i"
  shows "load_state d' = Inr (Some \<lparr>cs_version = 2, cs_highest = ci_sequence i, cs_sha256 = ci_sha256 i,
    cs_signing_key_id = ci_signing_key_id i, cs_root_version = ci_root_version i\<rparr>)" "catalog_floor d' = ci_sequence i"
proof -
  let ?s = "\<lparr>cs_version = 2, cs_highest = ci_sequence i, cs_sha256 = ci_sha256 i,
    cs_signing_key_id = ci_signing_key_id i, cs_root_version = ci_root_version i\<rparr>"
  have "load_state (d\<lparr>dk_catalog := Stored ?s\<rparr>) = Inr (Some ?s)"
    using assms(2) by (simp add: load_state_def validate_state_def identity_ok_def)
  then show l: "load_state d' = Inr (Some ?s)"
    using assms(1) by (auto simp: write_catalog_identity_state_def write_file_Inr)
  show "catalog_floor d' = ci_sequence i" using loaded_catalog_state_valid(3) [OF l] by simp
qed

definition acceptance ::
  "trust_env \<Rightarrow> trust_disk \<Rightarrow> string \<Rightarrow> string \<Rightarrow> catalog_document \<Rightarrow> bool" where
  "acceptance env d bytes signature_bytes document \<longleftrightarrow>
    (\<exists>e r now key signature. embedded_trust_root env = Inr e \<and> rotated env e r \<and> root_floor d \<le> root_version r
       \<and> time_floor d \<le> now \<and> now < root_expires_at r
       \<and> te_parse_catalog env bytes = Some document
       \<and> find_catalog_key r (cd_signing_key_id document) = Some key \<and> accepts key (cd_sequence document)
       \<and> decode_signature_text env signature_bytes = Inr signature \<and> te_verify env (ck_public_key key) bytes signature
       \<and> (\<forall>t. cd_expires_at document = Some t \<longrightarrow> now < t)
       \<and> (td_expiration_required_from (ar_document r) \<le> cd_sequence document \<longrightarrow> cd_expires_at document \<noteq> None))"

lemma activated_locked:
  assumes "activate_locked env bytes signature source d = (Inr res, d')" "trust_laws env"
  obtains document c embedded where "acceptance env d bytes signature document" "embedded_catalog env = Inr embedded"
    "mc_sequence c = cd_sequence document" "mc_sha256 c = te_sha256 env bytes" "mc_sequence embedded \<le> mc_sequence c"
    "res = Some embedded \<and> mc_sequence embedded = mc_sequence c \<and> mc_sha256 embedded = mc_sha256 c
      \<or> res = None \<and> mc_sequence embedded < mc_sequence c"
    "\<exists>s. load_state d' = Inr (Some s) \<and> cs_highest s = mc_sequence c \<and> cs_sha256 s = mc_sha256 c"
    "catalog_floor d \<le> mc_sequence c"
proof -
  obtain r d1 now d2 c embedded where load: "load_active_trust_root env False d = (Inr r, d1)"
    and now: "effective_now_and_record_locked env r d1 = (Inr now, d2)" and fresh: "require_fresh_root r now = Inr ()"
    and c: "verify_signed_catalog_with_root env bytes signature (SignedCatalog source) r (Current now) = Inr c"
    and embedded: "embedded_catalog env = Inr embedded" and floor: "validate_catalog_candidate_floor c embedded d2 = Inr ()"
    and written: "(if mc_sequence c = mc_sequence embedded then
        st_then (write_catalog_state embedded d2) (\<lambda>_ d. (Inr (Some embedded), d))
      else st_then (write_catalog_state c d2) (\<lambda>_ d.
        st_then (fail_if (\<not> utf8_text signature) (Signing SignatureNotUtf8), d) (\<lambda>_ d.
        st_then (write_envelope (catalog_envelope_of env bytes signature source) d) (\<lambda>_ d. (Inr None, d))))) = (Inr res, d')"
    using assms(1) unfolding activate_locked_def st_then_Inr_iff by auto
  obtain e where e: "embedded_trust_root env = Inr e" "rotated env e r" "valid_root env r" "root_floor d \<le> root_version r"
      "load_state d1 = load_state d" "time_floor d1 = time_floor d"
    by (rule loaded_root [OF load assms(2)]) blast
  note n = effective_now_and_record_Inr [OF now assms(2) e(3)]
  have time: "time_floor d \<le> now" using effective_now(3) [OF n(1) assms(2)] e(6) by simp
  obtain document key sig where v: "te_parse_catalog env bytes = Some document" "require_key r document (Current now) = Inr key"
      "decode_signature_text env signature = Inr sig" "te_verify env (ck_public_key key) bytes sig"
      "validate_document env document bytes (SignedCatalog source) r key (Current now) = Inr c"
    by (rule verified_catalog [OF c])
  note id = validated_identity [OF v(5)]
  have accepted: "acceptance env d bytes signature document"
    unfolding acceptance_def
    using e time fresh_root(1) [OF fresh] v required_key [OF v(2)] valid_now [OF id(4)]
    by (intro exI [of _ e] exI [of _ r] exI [of _ now] exI [of _ key] exI [of _ sig]) (simp add: enforces_policy_def)
  have seq: "mc_sequence c = cd_sequence document" "mc_sha256 c = te_sha256 env bytes"
    using id(1) by (simp_all add: mc_sequence_def mc_sha256_def document_identity_def)
  have ok: "identity_ok (mc_identity c)" "identity_ok (mc_identity embedded)"
    using verified_identity_ok [OF c assms(2) e(3)] valid_root_document(1,2) [OF e(3)] embedded_identity [OF embedded assms(2)]
    by (auto simp: accepted_version_def)
  have floors: "mc_sequence embedded \<le> mc_sequence c" "catalog_floor d \<le> mc_sequence c"
    using candidate_floor [OF floor] n(2) e(5) by (simp_all add: catalog_floor_def)
  show thesis
  proof (cases "mc_sequence c = mc_sequence embedded")
    case True
    then have w: "write_catalog_identity_state (mc_identity embedded) d2 = (Inr (), d')" and res: "res = Some embedded"
      using written by (auto simp: st_then_Inr_iff write_catalog_state_def)
    have "mc_sha256 embedded = mc_sha256 c"
      using floor True by (simp add: validate_catalog_candidate_floor_def res_simps)
    then show thesis
      using that [OF accepted embedded seq floors(1) _ _ floors(2)] True res write_catalog_state_Inr(1) [OF w ok(2)]
      by (simp add: mc_sequence_def mc_sha256_def)
  next
    case False
    then obtain d3 where w: "write_catalog_identity_state (mc_identity c) d2 = (Inr (), d3)"
      and env_w: "write_envelope (catalog_envelope_of env bytes signature source) d3 = (Inr (), d')" and res: "res = None"
      using written by (auto simp: st_then_Inr_iff write_catalog_state_def)
    have "load_state d' = load_state d3" using env_w write_catalog_keeps(3) by (metis snd_conv)
    then show thesis
      using that [OF accepted embedded seq floors(1) _ _ floors(2)] False floors(1) res write_catalog_state_Inr(1) [OF w ok(1)]
      by (simp add: mc_sequence_def mc_sha256_def)
  qed
qed

text \<open>C14: A catalog that is activated has the sequence and the digest of the given bytes; a fresh, signed root
  names the key that signed them, for that sequence; the catalog is not expired, not below the floor, and its
  sequence is the floor afterwards.\<close>

theorem activated_catalog_is_signed:
  assumes "activate_signed_catalog env bytes signature source d = (Inr c, d')" "trust_laws env"
  shows "\<exists>document. acceptance env d bytes signature document \<and> mc_sequence c = cd_sequence document
    \<and> mc_sha256 c = te_sha256 env bytes \<and> catalog_floor d \<le> mc_sequence c \<and> catalog_floor d' = mc_sequence c"
proof -
  obtain res d1 where a: "activate_locked env bytes signature source (make_directory d) = (Inr res, d1)"
    and rest: "(case res of Some embedded \<Rightarrow> (Inr embedded, d1) | None \<Rightarrow> active_catalog env d1) = (Inr c, d')"
    using assms(1) by (auto simp: activate_signed_catalog_def st_then_Inr_iff)
  obtain document k embedded s where k: "acceptance env (make_directory d) bytes signature document"
      "embedded_catalog env = Inr embedded" "mc_sequence k = cd_sequence document" "mc_sha256 k = te_sha256 env bytes"
      "mc_sequence embedded \<le> mc_sequence k"
      "res = Some embedded \<and> mc_sequence embedded = mc_sequence k \<and> mc_sha256 embedded = mc_sha256 k
        \<or> res = None \<and> mc_sequence embedded < mc_sequence k"
      "load_state d1 = Inr (Some s)" "cs_highest s = mc_sequence k" "cs_sha256 s = mc_sha256 k"
      "catalog_floor (make_directory d) \<le> mc_sequence k"
    by (rule activated_locked [OF a assms(2)]) blast
  have here: "acceptance env d bytes signature document" "catalog_floor d \<le> mc_sequence k"
    using k(1,10) by (simp_all add: acceptance_def root_floor_def time_floor_def catalog_floor_def)
  have floor: "catalog_floor d1 = mc_sequence k" using loaded_catalog_state_valid(3) [OF k(7)] k(8) by simp
  show ?thesis
  proof (cases res)
    case (Some other)
    then have "c = embedded" "d' = d1" using rest k(6) by auto
    then show ?thesis using here k Some floor by (intro exI [of _ document]) auto
  next
    case None
    then have newer: "mc_sequence embedded < mc_sequence k" using k(6) by simp
    from None have active: "active_catalog env d1 = (Inr c, d')" using rest by simp
    have made: "dk_directory d1"
      using keeps_activate_locked [OF assms(2), of "make_directory d" bytes signature source] a by (simp add: keeps_floors_def)
    have "mc_sequence c = mc_sequence k \<and> mc_sha256 c = mc_sha256 k \<and> catalog_floor d' = mc_sequence k"
      using active assms(2)
    proof (cases rule: active_catalog_Inr)
      case (directory r embedded')
      have same: "load_state d' = load_state d1" using loaded_root [OF directory(2) assms(2)] by metis
      have "\<not> cs_highest s < mc_sequence embedded" "\<not> state_matches_catalog s embedded"
        using newer k(8) by (simp_all add: state_matches_catalog_def)
      then obtain e where "cached_catalog env embedded r s e = Inr c"
        using directory(3,4) k(2,7) same by (auto simp: load_active_catalog_locked_def res_simps split: option.splits if_splits)
      then have "mc_sequence c = cs_highest s" "mc_sha256 c = cs_sha256 s"
        using cached_catalog_Inr by metis+
      then show ?thesis using k(8,9) same floor by (simp add: catalog_floor_def)
    qed (use made in simp)
    then show ?thesis using here k(3,4) by (intro exI [of _ document]) auto
  qed
qed

section \<open>Acquisition\<close>

lemma acquisition_authority:
  assumes "validate_acquisition_authority i r now state = Inr u"
  obtains key where "now < root_expires_at r" "find_catalog_key r (ci_signing_key_id i) = Some key"
    "ck_public_key key = ci_public_key i" "accepts key (ci_sequence i)" "\<forall>t. ci_expires_at i = Some t \<longrightarrow> now < t"
    "td_expiration_required_from (ar_document r) \<le> ci_sequence i \<longrightarrow> ci_expires_at i \<noteq> None"
    "case state of None \<Rightarrow> ci_origin i = EmbeddedCatalog
       | Some s \<Rightarrow> cs_highest s = ci_sequence i \<and> cs_sha256 s = ci_sha256 i"
  using assms fresh_root(1) [of r now]
  by (auto simp: validate_acquisition_authority_def res_simps not_le split: option.splits)

lemma acquisition_floor:
  assumes "(if advances_embedded_floor (mc_identity c) state then write_catalog_identity_state (mc_identity c) d else (Inr (), d)) = (Inr u, d')"
    and "load_state d = Inr state" "identity_ok (mc_identity c)"
    and "case if advances_embedded_floor (mc_identity c) state then None else state of None \<Rightarrow> ci_origin (mc_identity c) = EmbeddedCatalog
       | Some s \<Rightarrow> cs_highest s = ci_sequence (mc_identity c) \<and> cs_sha256 s = ci_sha256 (mc_identity c)"
  shows "catalog_floor d \<le> mc_sequence c
      \<and> (catalog_floor d' = mc_sequence c \<or> ci_origin (mc_identity c) = EmbeddedCatalog \<and> mc_sequence c = 1 \<and> catalog_floor d' = 0)"
proof (cases "advances_embedded_floor (mc_identity c) state")
  case True
  then have w: "write_catalog_identity_state (mc_identity c) d = (Inr u, d')" using assms(1) by simp
  have "catalog_floor d \<le> mc_sequence c"
    using True assms(2) by (auto simp: advances_embedded_floor_def mc_sequence_def catalog_floor_def split: option.splits)
  then show ?thesis using write_catalog_state_Inr(2) [OF w assms(3)] by (simp add: mc_sequence_def)
next
  case False
  then have same: "d' = d" using assms(1) by simp
  show ?thesis
  proof (cases state)
    case None
    then have origin: "ci_origin (mc_identity c) = EmbeddedCatalog" using assms(4) by (simp split: if_splits)
    then have "mc_sequence c = 1"
      using False None assms(3) by (simp add: advances_embedded_floor_def identity_ok_def mc_sequence_def)
    then show ?thesis using origin same None assms(2) by (simp add: catalog_floor_def)
  next
    case (Some s)
    then show ?thesis using assms(2,4) False same by (simp add: mc_sequence_def catalog_floor_def)
  qed
qed

text \<open>C8: Models are acquired from a catalog only while a signed root that is not expired at the latest
  observed time names its key, unrevoked, for its sequence, the catalog itself is not expired, and it is the
  one the floor on disk names, or it is embedded in the binary and not below the floor, which it then raises.\<close>

theorem acquisition_is_authorized:
  assumes "require_catalog_acquisition env (mc_identity c) d = (Inr u, d')" "trust_laws env" "obtained c"
  shows "\<exists>e r now key. embedded_trust_root env = Inr e \<and> rotated env e r \<and> root_floor d \<le> root_version r
    \<and> time_floor d \<le> now \<and> (\<exists>t. te_now env = Some t \<and> t \<le> now) \<and> now < root_expires_at r
    \<and> find_catalog_key r (mc_signing_key_id c) = Some key \<and> ck_public_key key = ci_public_key (mc_identity c)
    \<and> accepts key (mc_sequence c)
    \<and> (\<forall>t. ci_expires_at (mc_identity c) = Some t \<longrightarrow> now < t)
    \<and> (td_expiration_required_from (ar_document r) \<le> mc_sequence c \<longrightarrow> ci_expires_at (mc_identity c) \<noteq> None)
    \<and> catalog_floor d \<le> mc_sequence c
    \<and> (catalog_floor d' = mc_sequence c \<or> ci_origin (mc_identity c) = EmbeddedCatalog \<and> mc_sequence c = 1 \<and> catalog_floor d' = 0)"
proof -
  let ?i = "mc_identity c"
  obtain r d1 now d2 state where load: "load_active_trust_root env False (make_directory d) = (Inr r, d1)"
    and now: "effective_now_and_record_locked env r d1 = (Inr now, d2)" and state: "load_state d2 = Inr state"
    and authority: "authority_for ?i r now state = Inr ()"
    and written: "(if advances_embedded_floor ?i state then write_catalog_identity_state ?i d2 else (Inr (), d2)) = (Inr u, d')"
    using assms(1) unfolding require_catalog_acquisition_def st_then_Inr_iff by auto
  obtain e where e: "embedded_trust_root env = Inr e" "rotated env e r" "valid_root env r"
      "root_floor (make_directory d) \<le> root_version r" "load_state d1 = load_state (make_directory d)"
      "time_floor d1 = time_floor (make_directory d)"
    by (rule loaded_root [OF load assms(2)]) blast
  note n = effective_now_and_record_Inr [OF now assms(2) e(3)]
  note t = effective_now [OF n(1) assms(2)]
  have here: "root_floor d \<le> root_version r" "time_floor d \<le> now"
    using e(4,6) t(3) by (simp_all add: root_floor_def time_floor_def)
  obtain key where k: "now < root_expires_at r" "find_catalog_key r (ci_signing_key_id ?i) = Some key"
      "ck_public_key key = ci_public_key ?i" "accepts key (ci_sequence ?i)" "\<forall>t. ci_expires_at ?i = Some t \<longrightarrow> now < t"
      "td_expiration_required_from (ar_document r) \<le> ci_sequence ?i \<longrightarrow> ci_expires_at ?i \<noteq> None"
      "case if advances_embedded_floor ?i state then None else state of None \<Rightarrow> ci_origin ?i = EmbeddedCatalog
       | Some s \<Rightarrow> cs_highest s = ci_sequence ?i \<and> cs_sha256 s = ci_sha256 ?i"
    by (rule acquisition_authority [OF authority [unfolded authority_for_def]])
  have ok: "identity_ok ?i" by (rule obtained_ok [OF assms(3)])
  have before: "catalog_floor d = catalog_floor d2" using n(2) e(5) by (simp add: catalog_floor_def)
  note floors = acquisition_floor [OF written state ok k(7), folded before]
  show ?thesis
    using e(1,2) here t(4) k(1-6) floors
    by (intro exI [of _ e] exI [of _ r] exI [of _ now] exI [of _ key]) (simp add: mc_sequence_def mc_signing_key_id_def)
qed

end
