(* ===== verification/Trust_Recovery.thy ===== *)
theory Trust_Recovery
  imports Catalog_Outcomes
begin

text \<open>
  Interrupted and inconsistent stores (\<open>src/src/models/catalog/trust.rs\<close>, \<open>src/src/models/catalog.rs\<close>): an
  import that is interrupted can be repeated, the question whether models may be acquired has the
  answer that acquiring them gives, and two ways in which a store stops working.
\<close>

section \<open>The answer on acquisition\<close>

lemma load_writes:
  assumes "load_active_trust_root env False d = (Inr r, d')"
  shows "dk_writes d \<le> dk_writes d' + 2" "load_state d' = load_state d"
proof -
  have "dk_writes d \<le> dk_writes d' + 2 \<and> load_state d' = load_state d"
    using assms
  proof (cases rule: load_active_cases)
    case (upgrade e s)
    then show ?thesis
      by (auto simp: upgrade_root_def write_trust_state_def write_trust_chain_def write_file_def st_then_def
          split: if_splits)
  qed simp_all
  then show "dk_writes d \<le> dk_writes d' + 2" "load_state d' = load_state d" by simp_all
qed

lemma record_now:
  assumes "0 < dk_writes d" "effective_now_locked env r d = Inr now"
  shows "\<exists>d'. effective_now_and_record_locked env r d = (Inr now, d') \<and> load_state d' = load_state d
    \<and> dk_writes d \<le> dk_writes d' + 1"
proof -
  obtain state where state: "load_trust_state d = Inr state"
    using assms(2) by (auto simp: effective_now_locked_def res_simps)
  show ?thesis
  proof (cases "case state of None \<Rightarrow> True | Some s \<Rightarrow> ts_observed s < now")
    case True
    then have "effective_now_and_record_locked env r d = (Inr now, snd (write_trust_state r now d))"
      using assms state by (simp add: effective_now_and_record_locked_def write_trust_state_def write_file_def)
    then show ?thesis using assms(1) by (simp add: write_trust_state_def write_file_def)
  next
    case False
    then show ?thesis using assms state by (simp add: effective_now_and_record_locked_def)
  qed
qed

lemma record_refused: "effective_now_locked env r d = Inl e \<Longrightarrow> fst (effective_now_and_record_locked env r d) = Inl e"
  by (simp add: effective_now_and_record_locked_def)

text \<open>Both operations, from the loaded root on.\<close>

lemma same_answer:
  assumes "2 \<le> dk_writes d"
  shows "(case effective_now_locked env r d of Inl _ \<Rightarrow> False
      | Inr now \<Rightarrow> (case load_state d of Inl _ \<Rightarrow> False | Inr state \<Rightarrow> is_ok (authority_for i r now state)))
    \<longleftrightarrow> is_ok (fst (st_then (effective_now_and_record_locked env r d) (\<lambda>now d.
        st_then (load_state d, d) (\<lambda>state d.
        st_then (authority_for i r now state, d) (\<lambda>_ d.
        if advances_embedded_floor i state then write_catalog_identity_state i d else (Inr (), d))))))"
proof (cases "effective_now_locked env r d")
  case (Inl e)
  obtain d' where "effective_now_and_record_locked env r d = (Inl e, d')"
    using record_refused [OF Inl] by (cases "effective_now_and_record_locked env r d") auto
  then show ?thesis using Inl by simp
next
  case (Inr now)
  obtain d' where d': "effective_now_and_record_locked env r d = (Inr now, d')" "load_state d' = load_state d"
      "dk_writes d \<le> dk_writes d' + 1"
    using record_now [OF _ Inr] assms by auto
  have writes: "fst (write_catalog_identity_state i d') = Inr ()"
    using d'(3) assms by (simp add: write_catalog_identity_state_def write_file_def)
  show ?thesis
  proof (cases "load_state d")
    case (Inl e)
    then show ?thesis using Inr d' by simp
  next
    case state: (Inr state)
    then show ?thesis using Inr d' writes by (cases "authority_for i r now state") auto
  qed
qed

lemma unit_answer: "m = (Inr () :: 'e + unit) \<longleftrightarrow> is_ok m"
  by (cases m) auto

text \<open>C39: The answer whether models may be acquired from a catalog is positive exactly when acquiring one from
  it would be permitted, on every store that can be written.\<close>

theorem acquisition_answer_exact:
  assumes "disk_ok d" "4 \<le> dk_writes d"
  shows "fst (catalog_acquisition_allowed env c d) = Inr True \<longleftrightarrow>
    fst (require_catalog_acquisition env (mc_identity c) d) = Inr ()"
proof (cases "dk_directory d")
  case True
  then have made: "make_directory d = d" by (simp add: make_directory_def)
  show ?thesis
  proof (cases "load_active_trust_root env False d")
    case (Pair res d1)
    show ?thesis
    proof (cases res)
      case (Inl e)
      then show ?thesis using Pair True made by (simp add: catalog_acquisition_allowed_def require_catalog_acquisition_def)
    next
      case (Inr r)
      have "2 \<le> dk_writes d1" using load_writes(1) [OF Pair [unfolded Inr]] assms(2) by simp
      from same_answer [OF this, where env = env and r = r and i = "mc_identity c"] show ?thesis
        unfolding unit_answer catalog_acquisition_allowed_def require_catalog_acquisition_def made Pair Inr
        using True by (auto simp: st_then_def split: sum.splits)
    qed
  qed
next
  case False
  note absent = disk_ok_absent [OF assms(1) False]
  show ?thesis
  proof (cases "embedded_trust_root env")
    case (Inl e)
    then show ?thesis using False
      by (simp add: catalog_acquisition_allowed_def require_catalog_acquisition_def load_active_trust_root_def)
  next
    case (Inr e)
    have load: "load_active_trust_root env False (make_directory d) = (Inr e, make_directory d)"
      using Inr absent by (simp add: load_active_trust_root_def)
    have "2 \<le> dk_writes (make_directory d)" using assms(2) by (simp add: make_directory_def)
    note same = same_answer [OF this, where env = env and r = e and i = "mc_identity c"]
    have now: "effective_now_locked env e (make_directory d) = effective_now_locked env e d"
      by (simp add: effective_now_locked_def)
    have none: "authority_for i r now None = validate_acquisition_authority i r now None" for i r now
      by (simp add: authority_for_def)
    show ?thesis
      unfolding unit_answer require_catalog_acquisition_def load
      using same False Inr absent
      by (auto simp: catalog_acquisition_allowed_def now none split: sum.splits)
  qed
qed

section \<open>Interrupted imports\<close>

text \<open>The chain of a store with the embedded root is empty, and its floor is not older than the binary.\<close>

definition settled :: "trust_env \<Rightarrow> trust_disk \<Rightarrow> bool" where
  "settled env d \<longleftrightarrow> (\<forall>e s. embedded_trust_root env = Inr e \<longrightarrow> load_trust_state d = Inr (Some s) \<longrightarrow>
     root_version e < ts_highest s
     \<or> ts_highest s = root_version e \<and> load_trust_chain env d \<in> {Inr None, Inr (Some no_roots)})"

lemma empty_chain: "verify_chain_from_embedded env e no_roots = Inr e"
  by (simp add: verify_chain_from_embedded_def chain_shape_def no_roots_def)

lemma start_settled:
  assumes "start_import env candidate d = (Inr start, d')" "settled env d"
  obtains (active) r where "start = AlreadyActive r" "d' = d"
  | (extend) e r chain where "start = ExtendFrom r chain" "d' = d" "embedded_trust_root env = Inr e"
      "chain_or_empty env d = Inr chain" "verify_chain_from_embedded env e chain = Inr r"
proof (cases "load_active_trust_root env False d")
  case (Pair res d1)
  have same: "d1 = d"
    using Pair
  proof (cases rule: load_active_cases)
    case (upgrade e s)
    then show ?thesis using assms(2) unfolding settled_def by fastforce
  qed simp_all
  show thesis
  proof (cases res)
    case (Inl original)
    then have "resume_import env candidate original d = Inr start" "d' = d"
      using assms(1) Pair same by (auto simp: start_import_def)
    then show thesis using extend by (auto simp: resume_import_def res_simps)
  next
    case (Inr current)
    show thesis
    proof (cases "root_version current = root_version candidate \<and> ar_sha256 current = ar_sha256 candidate")
      case True
      then have "start = AlreadyActive current" "d' = d"
        using assms(1) Pair Inr same by (auto simp: start_import_def)
      then show thesis by (rule active)
    next
      case False
      then obtain chain where chain: "start = ExtendFrom current chain" "chain_or_empty env d = Inr chain" "d' = d"
        using assms(1) Pair Inr same by (cases "chain_or_empty env d") (auto simp: start_import_def)
      have "\<exists>e. embedded_trust_root env = Inr e \<and> verify_chain_from_embedded env e chain = Inr current"
        using Pair
      proof (cases rule: load_active_cases)
        case (fresh e)
        then show ?thesis using chain(2) Inr empty_chain by (simp add: chain_or_empty_def)
      next
        case (upgrade e s)
        then show ?thesis using assms(2) unfolding settled_def by fastforce
      next
        case (same e s)
        then have "load_trust_chain env d \<in> {Inr None, Inr (Some no_roots)}"
          using assms(2) by (auto simp: settled_def matches_root_def)
        then have "chain = no_roots" using chain(2) by (auto simp: chain_or_empty_def)
        then show ?thesis using same Inr empty_chain by simp
      next
        case (newer e s c r)
        then show ?thesis using chain(2) Inr by (simp add: chain_or_empty_def)
      qed (use Inr in simp_all)
      then show thesis using extend chain by blast
    qed
  qed
qed

lemma settled_load:
  assumes "settled env d" "load_trust_state d' = load_trust_state d" "load_trust_chain env d' = load_trust_chain env d"
  shows "load_active_trust_root env False d' = (fst (load_active_trust_root env False d), d')"
proof (cases "embedded_trust_root env")
  case (Inr e)
  show ?thesis
  proof (cases "load_trust_state d")
    case state: (Inr state)
    show ?thesis
    proof (cases "load_trust_chain env d")
      case chain: (Inr chain)
      show ?thesis
      proof (cases state)
        case (Some s)
        have "\<not> ts_highest s < root_version e"
          using assms(1) Inr state Some by (auto simp: settled_def)
        then show ?thesis
          using Inr state chain Some assms(2,3) loaded_state_valid(2) [OF state [unfolded Some]]
          by (simp add: load_active_trust_root_def)
      qed (use Inr state chain assms(2,3) in \<open>simp add: load_active_trust_root_def\<close>)
    qed (use Inr state assms(2,3) in \<open>simp add: load_active_trust_root_def\<close>)
  qed (use Inr assms(2,3) in \<open>simp add: load_active_trust_root_def\<close>)
qed (simp add: load_active_trust_root_def)

lemma settled_start:
  assumes "settled env d" "load_trust_state d' = load_trust_state d" "load_trust_chain env d' = load_trust_chain env d"
  shows "start_import env candidate d' = (fst (start_import env candidate d), d')"
proof -
  have here: "load_active_trust_root env False d = (fst (load_active_trust_root env False d), d)"
    using settled_load [OF assms(1) refl refl] .
  have same: "resume_import env candidate original d' = resume_import env candidate original d"
      "chain_or_empty env d' = chain_or_empty env d" for original
    using assms(2,3) by (simp_all add: resume_import_def chain_or_empty_def)
  show ?thesis
    unfolding start_import_def settled_load [OF assms]
    by (subst here) (auto simp: same split: sum.splits)
qed

section \<open>The stages of an import\<close>

lemma import_run:
  assumes "import_trust_root env bytes bundle d = (Inr r, finished)"
  obtains signatures candidate start where "parse_signature_bundle env bundle = Inr signatures"
    "parse_trust_root env bytes (SignedRoot ''local-import'') = Inr candidate"
    "fst (start_import env candidate (make_directory d)) = Inr start"
    "\<And>d. import_trust_root env bytes bundle d = st_then (start_import env candidate (make_directory d)) (\<lambda>start d. case start of
      AlreadyActive current \<Rightarrow> (Inr current, d)
    | ExtendFrom current chain \<Rightarrow> publish_root env bytes signatures candidate current chain d)"
proof -
  obtain signatures candidate where c: "\<not> MAX_TRUST_ROOT_BYTES < length bytes" "\<not> MAX_TRUST_SIGNATURE_BUNDLE_BYTES < length bundle"
      "parse_signature_bundle env bundle = Inr signatures" "parse_trust_root env bytes (SignedRoot ''local-import'') = Inr candidate"
    using assms by (auto simp: import_trust_root_def st_then_Inr_iff)
  have run: "import_trust_root env bytes bundle d = st_then (start_import env candidate (make_directory d)) (\<lambda>start d. case start of
      AlreadyActive current \<Rightarrow> (Inr current, d)
    | ExtendFrom current chain \<Rightarrow> publish_root env bytes signatures candidate current chain d)" for d
    unfolding import_trust_root_def using c by simp
  obtain start d1 where "start_import env candidate (make_directory d) = (Inr start, d1)"
    using assms unfolding run st_then_Inr_iff by blast
  then show thesis using that [OF c(3,4) _ run] by simp
qed

definition publishable ::
  "trust_env \<Rightarrow> string \<Rightarrow> signature_record list \<Rightarrow> active_root \<Rightarrow> active_root \<Rightarrow> trust_chain \<Rightarrow> trust_disk \<Rightarrow> nat \<Rightarrow> bool" where
  "publishable env bytes signatures candidate current chain d now \<longleftrightarrow>
    verify_root_transition env current candidate bytes signatures = Inr () \<and> observed_now_locked env d = Inr now
    \<and> require_fresh_root candidate now = Inr () \<and> length (tc_roots chain) < MAX_ROOT_CHAIN_LENGTH"

lemma publish_run:
  assumes "publishable env bytes signatures candidate current chain d now"
  shows "publish_root env bytes signatures candidate current chain d =
    st_then (write_trust_state candidate now d) (\<lambda>_ d.
    st_then (write_trust_chain (extend_chain env bytes signatures chain) d) (\<lambda>_ d. (Inr candidate, d)))"
  using assms by (simp add: publish_root_def publishable_def not_le [symmetric])

lemma publish_Inr:
  assumes "publish_root env bytes signatures candidate current chain d = (Inr r, d')"
  obtains now where "publishable env bytes signatures candidate current chain d now" "r = candidate"
    "d' = d\<lparr>dk_state := Stored (state_of_root candidate now), dk_chain := Stored (extend_chain env bytes signatures chain),
      dk_writes := dk_writes d - 2\<rparr>"
proof -
  obtain now where p: "publishable env bytes signatures candidate current chain d now"
    using assms by (auto simp: publish_root_def publishable_def st_then_Inr_iff)
  show thesis
    using assms that [OF p] unfolding publish_run [OF p]
    by (auto simp: st_then_Inr_iff write_trust_state_def write_file_Inr write_trust_chain_Inr state_of_root_def)
qed

lemma publish_stages:
  assumes "publishable env bytes signatures candidate current chain d now"
  shows "let d' = snd (publish_root env bytes signatures candidate current chain d) in
    (dk_state d' = dk_state d \<and> dk_chain d' = dk_chain d)
    \<or> (dk_state d' = Stored (state_of_root candidate now) \<and> dk_chain d' = dk_chain d)
    \<or> (dk_state d' = Stored (state_of_root candidate now) \<and> dk_chain d' = Stored (extend_chain env bytes signatures chain))"
  unfolding publish_run [OF assms]
  by (simp add: snd_st_then write_trust_state_def write_trust_chain_def write_file_def state_of_root_def Let_def)

lemma publish_enough:
  assumes "publishable env bytes signatures candidate current chain d now" "2 \<le> dk_writes d"
  shows "publish_root env bytes signatures candidate current chain d = (Inr candidate,
    d\<lparr>dk_state := Stored (state_of_root candidate now), dk_chain := Stored (extend_chain env bytes signatures chain),
      dk_writes := dk_writes d - 2\<rparr>)"
  unfolding publish_run [OF assms(1)]
  using assms(2) by (simp add: write_trust_state_def write_trust_chain_def write_file_def state_of_root_def)

section \<open>Repeating an import\<close>

text \<open>Base64 of the standard alphabet decodes what it encoded.\<close>

definition base64_law :: "trust_env \<Rightarrow> bool" where
  "base64_law env \<longleftrightarrow> (\<forall>bytes. te_base64 env (te_base64_encode env bytes) = Some bytes)"

lemma same_state: "dk_state d' = dk_state d \<Longrightarrow> load_trust_state d' = load_trust_state d"
  by (simp add: load_trust_state_def)

lemma same_chain: "dk_chain d' = dk_chain d \<Longrightarrow> load_trust_chain env d' = load_trust_chain env d"
  by (simp add: load_trust_chain_def)

lemma stored_root:
  assumes "trust_laws env" "valid_root env r" "0 < observed" "observed \<le> MAX_JSON_SAFE_INTEGER"
    and "dk_state d = Stored (state_of_root r observed)"
  shows "load_trust_state d = Inr (Some (state_of_root r observed))"
  using state_of_root_valid [OF assms(1-4), of d] assms(5) by (simp add: load_trust_state_def)

lemma extended_chain:
  assumes "verify_chain_from_embedded env e chain = Inr current" "length (tc_roots chain) < MAX_ROOT_CHAIN_LENGTH"
    and "verify_root_transition env current candidate bytes signatures = Inr ()" "base64_law env"
    and "parse_trust_root env bytes (SignedRoot ''local-import'') = Inr candidate"
    and "validate_signature_records env signatures = Inr ()"
  shows "verify_chain_from_embedded env e (extend_chain env bytes signatures chain) = Inr candidate"
proof -
  note chain = verified_chain(2,3) [OF assms(1)]
  have newer: "\<not> root_version candidate \<le> root_version current"
    using verified_transition(2) [OF assms(3,5) rotated.stay] by simp
  have shape: "chain_shape (extend_chain env bytes signatures chain) = Inr ()"
    using chain(1) assms(2) by (simp add: chain_shape_def extend_chain_def)
  have "follow_envelope env current \<lparr>en_root_base64 = te_base64_encode env bytes, en_signatures = signatures,
      en_source = ''local-import''\<rparr> = Inr candidate"
    using assms(3-6) newer by (simp add: follow_envelope_def validate_catalog_source_def base64_law_def)
  then have "try_fold (follow_envelope env) e (tc_roots (extend_chain env bytes signatures chain)) = Inr candidate"
    using chain(2) by (simp add: extend_chain_def try_fold_append)
  then show ?thesis using shape by (simp add: verify_chain_from_embedded_def)
qed

lemma completed_store_loads:
  assumes "trust_laws env" "embedded_trust_root env = Inr e" "0 < observed" "observed \<le> MAX_JSON_SAFE_INTEGER"
    and "verify_chain_from_embedded env e chain = Inr r" "root_version e < root_version r" "valid_root env r"
    and "dk_state d = Stored (state_of_root r observed)" "load_trust_chain env d = Inr (Some chain)"
  shows "load_active_trust_root env read_only d = (Inr r, d)"
  using assms(2,5,6,9) stored_root [OF assms(1,7,3,4,8)] loaded_state_valid(2) [OF stored_root [OF assms(1,7,3,4,8)]]
  by (simp add: load_active_trust_root_def active_from_chain_def)

lemma interrupted_store_resumes:
  assumes "trust_laws env" "embedded_trust_root env = Inr e" "0 < observed" "observed \<le> MAX_JSON_SAFE_INTEGER"
    and "verify_chain_from_embedded env e chain = Inr current" "root_version candidate = Suc (root_version current)"
    and "valid_root env candidate" "chain_or_empty env d = Inr chain" "dk_state d = Stored (state_of_root candidate observed)"
  shows "start_import env candidate d = (Inr (ExtendFrom current chain), d)"
proof -
  let ?s = "state_of_root candidate observed"
  note state = stored_root [OF assms(1,7,3,4,9)]
  note valid = loaded_state_valid(2) [OF state]
  have version: "root_version e \<le> root_version current" by (rule rotated_version [OF verified_chain(1) [OF assms(5)]])
  obtain c where c: "load_trust_chain env d = Inr c" "chain = (case c of None \<Rightarrow> no_roots | Some c \<Rightarrow> c)"
    using assms(8) by (auto simp: chain_or_empty_def res_simps)
  have load: "load_active_trust_root env False d = (active_from_chain env e ?s c, d)"
    using assms(2,6) state valid c(1) version by (simp add: load_active_trust_root_def)
  have "\<exists>error. active_from_chain env e ?s c = Inl error"
    using assms(5,6) c(2) by (cases c) (auto simp: active_from_chain_def)
  then obtain error where "active_from_chain env e ?s c = Inl error" by blast
  then have "load_active_trust_root env False d = (Inl error, d)" using load by simp
  then show ?thesis
    using assms(2,5,8) state by (simp add: start_import_def resume_import_def)
qed

text \<open>What an import of \<open>candidate\<close> at the time \<open>now\<close> has checked before its first write.\<close>

definition import_ready ::
  "trust_env \<Rightarrow> string \<Rightarrow> string \<Rightarrow> signature_record list \<Rightarrow> active_root \<Rightarrow> active_root \<Rightarrow> trust_chain \<Rightarrow> nat \<Rightarrow> bool" where
  "import_ready env bytes bundle signatures candidate current chain now \<longleftrightarrow>
    (\<exists>e. embedded_trust_root env = Inr e \<and> verify_chain_from_embedded env e chain = Inr current)
    \<and> verify_root_transition env current candidate bytes signatures = Inr () \<and> require_fresh_root candidate now = Inr ()
    \<and> length (tc_roots chain) < MAX_ROOT_CHAIN_LENGTH \<and> 0 < now \<and> now \<le> MAX_JSON_SAFE_INTEGER
    \<and> parse_trust_root env bytes (SignedRoot ''local-import'') = Inr candidate
    \<and> validate_signature_records env signatures = Inr ()
    \<and> te_chain_size env (tc_roots (extend_chain env bytes signatures chain)) \<le> MAX_TRUST_CHAIN_BYTES
    \<and> (\<forall>d. import_trust_root env bytes bundle d = st_then (start_import env candidate (make_directory d)) (\<lambda>start d. case start of
      AlreadyActive current \<Rightarrow> (Inr current, d)
    | ExtendFrom current chain \<Rightarrow> publish_root env bytes signatures candidate current chain d))"

definition repeats :: "trust_env \<Rightarrow> string \<Rightarrow> string \<Rightarrow> active_root \<Rightarrow> trust_disk \<Rightarrow> bool" where
  "repeats env bytes bundle r d \<longleftrightarrow> fst (import_trust_root env bytes bundle d) = Inr r
     \<and> fst (load_active_trust_root env False (snd (import_trust_root env bytes bundle d))) = Inr r"

lemma ready_versions:
  assumes "import_ready env bytes bundle signatures candidate current chain now"
  shows "root_version candidate = Suc (root_version current)" "valid_root env candidate"
    "embedded_trust_root env = Inr e \<Longrightarrow> root_version e < root_version candidate"
proof -
  have t: "verify_root_transition env current candidate bytes signatures = Inr ()"
    and c: "parse_trust_root env bytes (SignedRoot ''local-import'') = Inr candidate"
    using assms by (simp_all add: import_ready_def)
  show v: "root_version candidate = Suc (root_version current)" by (rule verified_transition(2) [OF t c rotated.stay])
  show "valid_root env candidate" by (rule parsed_root(5) [OF c])
  show "root_version e < root_version candidate" if "embedded_trust_root env = Inr e"
    using assms that v rotated_version [OF verified_chain(1)] by (fastforce simp: import_ready_def)
qed

lemma ready_loads:
  assumes "import_ready env bytes bundle signatures candidate current chain now" "trust_laws env" "base64_law env"
    and "dk_state d = Stored (state_of_root candidate now)" "dk_chain d = Stored (extend_chain env bytes signatures chain)"
  shows "load_active_trust_root env False d = (Inr candidate, d)"
proof -
  obtain e where e: "embedded_trust_root env = Inr e" "verify_chain_from_embedded env e chain = Inr current"
    using assms(1) by (auto simp: import_ready_def)
  have r: "length (tc_roots chain) < MAX_ROOT_CHAIN_LENGTH" "verify_root_transition env current candidate bytes signatures = Inr ()"
      "parse_trust_root env bytes (SignedRoot ''local-import'') = Inr candidate" "validate_signature_records env signatures = Inr ()"
      "0 < now" "now \<le> MAX_JSON_SAFE_INTEGER"
    using assms(1) by (simp_all add: import_ready_def)
  note ext = extended_chain [OF e(2) r(1,2) assms(3) r(3,4)]
  have "load_trust_chain env d = Inr (Some (extend_chain env bytes signatures chain))"
    using assms(1,5) verified_chain(2) [OF ext] by (simp add: load_trust_chain_def import_ready_def)
  then show ?thesis
    by (rule completed_store_loads [OF assms(2) e(1) r(5,6) ext ready_versions(3) [OF assms(1) e(1)] ready_versions(2) [OF assms(1)] assms(4)])
qed

lemma ready_publishes:
  assumes "import_ready env bytes bundle signatures candidate current chain now" "trust_laws env" "base64_law env"
    and "start_import env candidate (make_directory d) = (Inr (ExtendFrom current chain), make_directory d)"
    and "observed_now_locked env (make_directory d) = Inr now" "2 \<le> dk_writes d"
  shows "repeats env bytes bundle candidate d"
proof -
  have "publishable env bytes signatures candidate current chain (make_directory d) now"
    using assms(1,5) by (simp add: publishable_def import_ready_def)
  note out = publish_enough [OF this]
  have run: "import_trust_root env bytes bundle d = publish_root env bytes signatures candidate current chain (make_directory d)"
    using assms(1,4) by (simp add: import_ready_def)
  show ?thesis
    unfolding repeats_def run using out assms(6) ready_loads [OF assms(1-3)] by (simp add: make_directory_def)
qed

lemma ready_resumes:
  assumes "import_ready env bytes bundle signatures candidate current chain now" "trust_laws env" "base64_law env"
    and "dk_state d = Stored (state_of_root candidate now)" "chain_or_empty env d = Inr chain"
    and "te_now env = Some t" "t \<le> now" "2 \<le> dk_writes d"
  shows "repeats env bytes bundle candidate d"
proof -
  obtain e where e: "embedded_trust_root env = Inr e" "verify_chain_from_embedded env e chain = Inr current"
    using assms(1) by (auto simp: import_ready_def)
  have time: "0 < now" "now \<le> MAX_JSON_SAFE_INTEGER" using assms(1) by (simp_all add: import_ready_def)
  have state: "dk_state (make_directory d) = Stored (state_of_root candidate now)" using assms(4) by (simp add: make_directory_def)
  have chain: "chain_or_empty env (make_directory d) = Inr chain" using assms(5) by (simp add: chain_or_empty_def)
  note v = ready_versions [OF assms(1)]
  have "observed_now_locked env (make_directory d) = Inr now"
    using assms(6,7) stored_root [OF assms(2) v(2) time state]
    by (simp add: observed_now_locked_def system_unix_seconds_def max_absorb2)
  then show ?thesis
    by (rule ready_publishes [OF assms(1-3) interrupted_store_resumes [OF assms(2) e(1) time e(2) v(1,2) chain state] _ assms(8)])
qed

lemma ready_active:
  assumes "import_ready env bytes bundle signatures candidate current chain now" "trust_laws env" "base64_law env"
    and "dk_state d = Stored (state_of_root candidate now)" "dk_chain d = Stored (extend_chain env bytes signatures chain)"
  shows "repeats env bytes bundle candidate d"
proof -
  have files: "dk_state (make_directory d) = dk_state d" "dk_chain (make_directory d) = dk_chain d" by (simp_all add: make_directory_def)
  note load = ready_loads [OF assms(1-3), of "make_directory d", unfolded files, OF assms(4,5)]
  have "import_trust_root env bytes bundle d = (Inr candidate, make_directory d)"
    using assms(1) load by (simp add: import_ready_def start_import_def)
  then show ?thesis using load by (simp add: repeats_def)
qed

lemma started_again:
  assumes "settled env d" "fst (start_import env candidate (make_directory d)) = Inr start"
    and "dk_state d' = dk_state d" "dk_chain d' = dk_chain d"
  shows "start_import env candidate (make_directory d') = (Inr start, make_directory d')"
proof -
  have settled: "settled env (make_directory d)" using assms(1) by (simp add: settled_def)
  have "load_trust_state (make_directory d') = load_trust_state (make_directory d)"
      "load_trust_chain env (make_directory d') = load_trust_chain env (make_directory d)"
    using same_state [OF assms(3)] same_chain [OF assms(4)] by simp_all
  then show ?thesis using settled_start [OF settled, of "make_directory d'" candidate] assms(2) by simp
qed

text \<open>An import of the root that is active changes nothing, so it can be repeated.\<close>

lemma active_repeats:
  assumes "settled env d" "start_import env candidate (make_directory d) = (Inr (AlreadyActive r), make_directory d)"
    and "\<And>d. import_trust_root env bytes bundle d = st_then (start_import env candidate (make_directory d)) (\<lambda>start d. case start of
      AlreadyActive current \<Rightarrow> (Inr current, d)
    | ExtendFrom current chain \<Rightarrow> publish_root env bytes signatures candidate current chain d)"
    and "dk_state d' = dk_state d" "dk_chain d' = dk_chain d"
  shows "import_trust_root env bytes bundle d' = (Inr r, make_directory d')" "repeats env bytes bundle r d'"
proof -
  show run: "import_trust_root env bytes bundle d' = (Inr r, make_directory d')"
    unfolding assms(3) using started_again [OF assms(1) _ assms(4,5)] assms(2) by simp
  have "fst (load_active_trust_root env False (make_directory d)) = Inr r"
    using assms(2) unfolding start_import_def
    by (auto simp: resume_import_def res_simps split: prod.splits sum.splits if_splits)
  moreover have "settled env (make_directory d)" using assms(1) by (simp add: settled_def)
  ultimately have "fst (load_active_trust_root env False (make_directory d')) = Inr r"
    using settled_load [of env "make_directory d" "make_directory d'"] same_state [OF assms(4)] same_chain [OF assms(5)] by simp
  then show "repeats env bytes bundle r d'" using run by (simp add: repeats_def)
qed

lemma publish_is_ready:
  assumes "publish_root env bytes signatures candidate current chain (make_directory d) = (Inr r, finished)"
    and "is_ok (load_trust_chain env finished)" "trust_laws env"
    and "embedded_trust_root env = Inr e" "verify_chain_from_embedded env e chain = Inr current"
    and "parse_trust_root env bytes (SignedRoot ''local-import'') = Inr candidate" "parse_signature_bundle env bundle = Inr signatures"
    and "\<And>d. import_trust_root env bytes bundle d = st_then (start_import env candidate (make_directory d)) (\<lambda>start d. case start of
      AlreadyActive current \<Rightarrow> (Inr current, d)
    | ExtendFrom current chain \<Rightarrow> publish_root env bytes signatures candidate current chain d)"
  obtains now t where "import_ready env bytes bundle signatures candidate current chain now" "r = candidate"
    "publishable env bytes signatures candidate current chain (make_directory d) now" "te_now env = Some t" "t \<le> now"
    "observed_now_locked env (make_directory d) = Inr now"
proof -
  obtain now where p: "publishable env bytes signatures candidate current chain (make_directory d) now" and r: "r = candidate"
    and fin: "dk_chain finished = Stored (extend_chain env bytes signatures chain)"
    using assms(1) by (rule publish_Inr) simp
  have now: "observed_now_locked env (make_directory d) = Inr now" using p by (simp add: publishable_def)
  have size: "te_chain_size env (tc_roots (extend_chain env bytes signatures chain)) \<le> MAX_TRUST_CHAIN_BYTES"
    using assms(2) fin by (auto simp: load_trust_chain_def is_ok_iff res_simps not_less)
  have "validate_signature_records env signatures = Inr ()" using assms(7) by (auto simp: parse_signature_bundle_def res_simps)
  then have ready: "import_ready env bytes bundle signatures candidate current chain now"
    using p size observed_now [OF now assms(3)] assms(4-6) unfolding import_ready_def publishable_def
    by (intro conjI allI assms(8)) auto
  obtain t where "te_now env = Some t" "t \<le> now"
    using now by (auto simp: observed_now_locked_def system_unix_seconds_def res_simps split: option.splits)
  then show thesis using that [OF ready r p _ _ now] by blast
qed


end
