(* ===== verification/Trust_Limits.thy ===== *)
theory Trust_Limits
  imports Trust_Recovery
begin

text \<open>
  Two ways in which the store of roots and catalogs stops working although every operation succeeded
  (\<open>src/src/models/catalog/trust.rs\<close>, \<open>src/src/models/catalog.rs\<close>), and a concrete program on which the
  hypotheses of the properties of roots and catalogs hold.
\<close>

section \<open>Chains that outgrow their limit\<close>

lemma imported_floor:
  assumes "import_trust_root env bytes bundle d = (Inr r, d')" "dk_chain d' = Stored chain" "trust_laws env"
  shows "\<exists>s. load_trust_state d' = Inr (Some s) \<and> ts_highest s = root_version r"
  using assms(1)
proof (rule import_run)
  fix signatures candidate start
  assume candidate: "parse_trust_root env bytes (SignedRoot ''local-import'') = Inr candidate"
    and first: "fst (start_import env candidate (make_directory d)) = Inr start"
    and run: "\<And>d. import_trust_root env bytes bundle d = st_then (start_import env candidate (make_directory d)) (\<lambda>start d. case start of
      AlreadyActive current \<Rightarrow> (Inr current, d)
    | ExtendFrom current chain \<Rightarrow> publish_root env bytes signatures candidate current chain d)"
  obtain d1 where start: "start_import env candidate (make_directory d) = (Inr start, d1)"
    using first by (cases "start_import env candidate (make_directory d)") auto
  note rest = assms(1) [unfolded run start st_then_simps]
  show ?thesis
  proof (cases start)
    case (AlreadyActive current)
    then have d': "d' = d1" "current = r" using rest by simp_all
    have load: "load_active_trust_root env False (make_directory d) = (Inr r, d')"
      using start AlreadyActive d'
      by (auto simp: start_import_def resume_import_def res_simps split: prod.splits sum.splits if_splits)
    then show ?thesis
    proof (cases rule: load_active_cases)
      case (fresh e)
      then show ?thesis using assms(2) by (auto simp: load_trust_chain_def res_simps split: stored.splits)
    next
      case (upgrade e s)
      then show ?thesis using upgrade_Inr [OF assms(3) embedded_valid [OF upgrade(1)] upgrade(2,5)] by auto
    next
      case (same e s)
      then show ?thesis by (auto simp: matches_root_def)
    next
      case (newer e s c t)
      then show ?thesis by (auto simp: matches_root_def)
    qed simp_all
  next
    case (ExtendFrom current chain)
    then have "publish_root env bytes signatures candidate current chain d1 = (Inr r, d')" using rest by simp
    then obtain now where p: "publishable env bytes signatures candidate current chain d1 now" "r = candidate"
        "dk_state d' = Stored (state_of_root candidate now)"
      by (rule publish_Inr) simp
    have "observed_now_locked env d1 = Inr now" using p(1) by (simp add: publishable_def)
    note time = observed_now [OF this assms(3)]
    show ?thesis using stored_root [OF assms(3) parsed_root(5) [OF candidate] time(1,2) p(3)] p(2) by simp
  qed
qed

text \<open>C40: An import may succeed and leave a chain of roots above the size limit of its reader: from then on no
  root loads, in this binary or in any other with the same limit, no import succeeds, and the recovery refuses
  unless the binary embeds a root at least as new.\<close>

theorem oversized_chain_is_final:
  assumes "import_trust_root env bytes bundle d = (Inr r, d')" "trust_laws env"
    and "dk_chain d' = Stored chain" "MAX_TRUST_CHAIN_BYTES < te_chain_size later (tc_roots chain)"
    and "embedded_trust_root later = Inr e"
  shows "fst (load_active_trust_root later read_only d') = Inl (Storage ChainTooLarge)
    \<and> \<not> is_ok (fst (import_trust_root later other_bytes other_bundle d'))
    \<and> (root_version e < root_version r \<longrightarrow> \<not> is_ok (fst (recover_embedded_trust_root later d')))"
proof -
  obtain s where s: "load_trust_state d' = Inr (Some s)" "ts_highest s = root_version r"
    using imported_floor [OF assms(1,3,2)] by blast
  have chain: "load_trust_chain later d' = Inl (Storage ChainTooLarge)"
    using assms(3,4) by (simp add: load_trust_chain_def)
  have load: "load_active_trust_root later ro (if b then make_directory d' else d') =
      (Inl (Storage ChainTooLarge), if b then make_directory d' else d')" for ro b
    using assms(5) s chain by (simp add: load_active_trust_root_def)
  have start: "\<not> is_ok (fst (start_import later candidate (make_directory d')))" for candidate
    using load [of False True] chain
    by (auto simp: start_import_def resume_import_def chain_or_empty_def is_ok_iff res_simps)
  have "\<not> is_ok (fst (import_trust_root later other_bytes other_bundle d'))"
  proof
    assume "is_ok (fst (import_trust_root later other_bytes other_bundle d'))"
    then obtain x where "fst (import_trust_root later other_bytes other_bundle d') = Inr x" by (auto simp: is_ok_iff)
    then have "import_trust_root later other_bytes other_bundle d' =
        (Inr x, snd (import_trust_root later other_bytes other_bundle d'))"
      by (metis prod.collapse)
    then show False
      by (rule import_run) (use start in \<open>auto simp: is_ok_iff\<close>)
  qed
  moreover have "\<not> is_ok (fst (recover_embedded_trust_root later d'))" if "root_version e < root_version r"
    using assms(5) s that
    by (cases "catalog_state_trust_root_version_for_recovery (make_directory d')")
      (auto simp: recover_embedded_trust_root_def st_then_def fail_if_def split: option.splits)
  ultimately show ?thesis using load [of read_only False] by simp
qed

section \<open>A newer root with the same catalog\<close>

definition blank :: "trust_disk \<Rightarrow> bool" where
  "blank d \<longleftrightarrow> dk_state d = Absent \<and> dk_chain d = Absent \<and> dk_catalog d = Absent \<and> dk_envelope d = Absent"

lemma keeps_envelope_record:
  assumes "effective_now_and_record_locked env r d = (Inr now, d')"
  shows "dk_envelope d' = dk_envelope d" "dk_chain d' = dk_chain d" "dk_catalog d' = dk_catalog d"
    "dk_directory d' = dk_directory d"
  using assms
  by (auto simp: effective_now_and_record_locked_def st_then_Inr_iff write_trust_state_def write_file_Inr split: if_splits)

lemma first_acquisition:
  assumes "require_catalog_acquisition env (mc_identity c) d = (Inr u, d')" "blank d" "trust_laws env"
    and "embedded_trust_root env = Inr e" "embedded_catalog env = Inr c" "1 < mc_sequence c"
  obtains s t where "load_trust_state d' = Inr (Some t)" "ts_highest t = root_version e" "load_state d' = Inr (Some s)"
    "cs_highest s = mc_sequence c" "cs_root_version s = root_version e"
    "dk_envelope d' = Absent" "dk_chain d' = Absent" "dk_directory d'"
proof -
  let ?d = "make_directory d" and ?i = "mc_identity c"
  have blank: "load_trust_state ?d = Inr None" "load_trust_chain env ?d = Inr None" "load_state ?d = Inr None"
      "dk_envelope ?d = Absent" "dk_chain ?d = Absent"
    using assms(2) by (simp_all add: blank_def load_trust_state_def load_trust_chain_def load_state_def make_directory_def)
  have load: "load_active_trust_root env False ?d = (Inr e, ?d)"
    using assms(4) blank by (simp add: load_active_trust_root_def)
  obtain e' where "embedded_trust_root env = Inr e'" and ok: "identity_ok ?i" and origin: "ci_origin ?i = EmbeddedCatalog"
    and version: "ci_root_version ?i = root_version e'"
    by (rule embedded_identity [OF assms(5,3)])
  then have version: "ci_root_version ?i = root_version e" using assms(4) by simp
  obtain now d1 where now: "effective_now_and_record_locked env e ?d = (Inr now, d1)"
    and rest: "st_then (load_state d1, d1) (\<lambda>state d.
      st_then (authority_for ?i e now state, d) (\<lambda>_ d.
      if advances_embedded_floor ?i state then write_catalog_identity_state ?i d else (Inr (), d))) = (Inr u, d')"
    using assms(1) unfolding require_catalog_acquisition_def load st_then_simps st_then_Inr_iff by blast
  note n = effective_now_and_record_Inr [OF now assms(3) embedded_valid [OF assms(4)]]
  have "advances_embedded_floor ?i None"
    using origin assms(6) by (simp add: advances_embedded_floor_def mc_sequence_def)
  then have w: "write_catalog_identity_state ?i d1 = (Inr u, d')"
    using rest n(2) blank(3) by (auto simp: st_then_Inr_iff)
  have d': "dk_envelope d' = dk_envelope d1" "dk_chain d' = dk_chain d1" "load_trust_state d' = load_trust_state d1"
      "dk_directory d' = dk_directory d1"
    using w by (auto simp: write_catalog_identity_state_def write_file_Inr)
  show thesis
    using that [OF _ _ write_catalog_state_Inr(1) [OF w ok]] n(4) d' keeps_envelope_record [OF now] blank version
    by (auto simp: matches_root_def mc_sequence_def)
qed

text \<open>C15: Once a model was acquired from the embedded catalog, a binary that embeds a newer root and the same
  catalog finds no active catalog: the floor names the older root, so it does not match the embedded catalog,
  and no signed copy was ever stored.\<close>

theorem root_upgrade_loses_catalog:
  assumes "require_catalog_acquisition env (mc_identity c) d = (Inr u, d1)" "blank d" "trust_laws env"
    and "embedded_trust_root env = Inr e" "embedded_catalog env = Inr c" "1 < mc_sequence c"
    and "embedded_trust_root later = Inr e'" "root_version e < root_version e'"
    and "embedded_catalog later = Inr c'" "mc_sequence c' = mc_sequence c" "trust_laws later" "2 \<le> n"
  shows "fst (active_catalog later (d1\<lparr>dk_writes := n\<rparr>)) = Inl (Storage EnvelopeMissing)
    \<and> fst (active_catalog_read_only later (d1\<lparr>dk_writes := n\<rparr>)) = Inl (Storage EnvelopeMissing)"
proof -
  let ?d = "d1\<lparr>dk_writes := n\<rparr>"
  obtain s t where t: "load_trust_state d1 = Inr (Some t)" "ts_highest t = root_version e" and s: "load_state d1 = Inr (Some s)"
      "cs_highest s = mc_sequence c" "cs_root_version s = root_version e"
    and files: "dk_envelope d1 = Absent" "dk_chain d1 = Absent" "dk_directory d1"
    by (rule first_acquisition [OF assms(1-6)])
  have none: "load_trust_chain later ?d = Inr None" using files(2) by (simp add: load_trust_chain_def)
  have load: "load_active_trust_root later ro ?d = (if ro then (Inr e', ?d) else upgrade_root e' (ts_observed t) ?d)" for ro
    using assms(7,8) t none loaded_state_valid(2) [OF t(1)] by (simp add: load_active_trust_root_def upgrade_root_def)
  obtain d2 where d2: "upgrade_root e' (ts_observed t) ?d = (Inr e', d2)" "load_state d2 = load_state d1" "dk_envelope d2 = Absent"
  proof -
    have "fst (upgrade_root e' (ts_observed t) ?d) = Inr e'"
      using assms(12) by (simp add: upgrade_root_def write_trust_state_def write_trust_chain_def write_file_def)
    then obtain d2 where u: "(Inr e', d2) = upgrade_root e' (ts_observed t) ?d"
      by (metis prod.collapse)
    have tt: "load_trust_state ?d = Inr (Some t)" using t(1) by simp
    show thesis
      using that [OF u [symmetric]] upgrade_Inr(3,4) [OF assms(11) embedded_valid [OF assms(7)] tt u] files(1) by simp
  qed
  obtain e0 where "embedded_trust_root later = Inr e0" "ci_root_version (mc_identity c') = root_version e0"
    by (rule embedded_identity [OF assms(9,11)])
  then have "ci_root_version (mc_identity c') = root_version e'" using assms(7) by simp
  then have "\<not> state_matches_catalog s c'" "\<not> cs_highest s < mc_sequence c'"
    using s(2,3) assms(8,10) by (simp_all add: state_matches_catalog_def)
  then have missing: "load_active_catalog_locked later c' e' d = Inl (Storage EnvelopeMissing)"
    if "load_state d = Inr (Some s)" "dk_envelope d = Absent" for d
    using that by (simp add: load_active_catalog_locked_def load_envelope_def)
  have "load_active_catalog_locked later c' e' d2 = Inl (Storage EnvelopeMissing)"
    "load_active_catalog_locked later c' e' ?d = Inl (Storage EnvelopeMissing)"
    using missing [of d2] missing [of ?d] d2 s(1) files(1) by simp_all
  then show ?thesis
    using files(3) assms(9) d2(1) by (simp add: active_catalog_def active_catalog_read_only_def load)
qed

end
