(* ===== verification/Trust_Examples.thy ===== *)
theory Trust_Examples
  imports Trust_Limits
begin

text \<open>
  A concrete program on which the hypotheses of the properties of roots and catalogs hold. The root of
  version \<open>n\<close> is the text of \<open>n\<close> letters \<open>r\<close>, the catalog of sequence \<open>n + 1\<close> the text of \<open>n\<close> letters
  \<open>c\<close>; a signature names the key and repeats the text that is signed. An envelope takes 300,000 bytes,
  less than the largest root and bundle that an import accepts.
\<close>

section \<open>The program\<close>

definition demo_key_id :: string where "demo_key_id = replicate 16 CHR ''0''"

definition demo_digest :: "nat \<Rightarrow> string" where
  "demo_digest n = replicate 64 (''0123456789abcdef'' ! (n mod 16))"

definition demo_document :: "nat \<Rightarrow> trust_document" where
  "demo_document n =
     \<lparr>td_schema = ''denoize-model-trust-root-v1'', td_version = n,
      td_previous = (if n = 1 then None else Some (demo_digest (n - 1))),
      td_issued_at = 10, td_expires_at = 1000, td_threshold = 1,
      td_root_keys = [\<lparr>kr_key_id = demo_key_id, kr_public_key = ''KEY''\<rparr>],
      td_expiration_required_from = 5, td_max_validity = 500,
      td_catalog_keys = [\<lparr>ck_key_id = demo_key_id, ck_public_key = ''KEY'', ck_first_sequence = 1,
        ck_last_sequence = None, ck_revoked_at = None\<rparr>]\<rparr>"

definition demo_model :: model_document where
  "demo_model = \<lparr>md_name = ''small'', md_backend = ''onnx'', md_filename = ''small.bin'', md_url = ''https://a/b'',
     md_revision = ''1'', md_sha256 = demo_digest 0, md_size = 10, md_license = ''MIT'', md_sample_rate = 16000,
     md_offline_bundle = None\<rparr>"

definition demo_catalog :: "nat \<Rightarrow> catalog_document" where
  "demo_catalog n =
     \<lparr>cd_schema = ''denoize-model-catalog-v1'', cd_sequence = Suc n, cd_signing_key_id = demo_key_id,
      cd_issued_at = Some 10, cd_expires_at = Some 400, cd_models = [demo_model]\<rparr>"

definition demo_signature :: "string \<Rightarrow> string" where
  "demo_signature bytes = ''untrusted comment: a'' @ CHR 0x0A # (''KEY'' @ bytes) @ CHR 0x0A
     # ''trusted comment: b'' @ CHR 0x0A # ''Z''"

definition demo_env :: trust_env where
  "demo_env = \<lparr>te_embedded_root = ''r'', te_embedded_catalog = ''c'',
     te_parse_root = (\<lambda>bytes. if bytes = [] then None else Some (demo_document (length bytes))),
     te_parse_bundle = (\<lambda>bytes. Some \<lparr>sb_schema = ''denoize-model-trust-signatures-v1'',
       sb_signatures = [\<lparr>sr_key_id = demo_key_id, sr_signature = bytes\<rparr>]\<rparr>),
     te_parse_catalog = (\<lambda>bytes. if bytes = [] then None else Some (demo_catalog (length bytes))),
     te_chain_size = (\<lambda>roots. 10 + 300000 * length roots),
     te_public_key = (\<lambda>key. key = ''KEY''), te_signature = (\<lambda>_. True),
     te_verify = (\<lambda>key bytes signature. lines_of signature ! 1 = key @ bytes),
     te_base64 = (\<lambda>s. Some (if s \<noteq> [] \<and> hd s = CHR ''='' then tl s else ''Ed'' @ replicate 8 CHR 0x00)),
     te_base64_encode = (\<lambda>bytes. CHR ''='' # bytes), te_sha256 = (\<lambda>bytes. demo_digest (length bytes)),
     te_url = (\<lambda>_. Some \<lparr>url_scheme = ''https'', url_host = True, url_username = [], url_password = False,
       url_query = False, url_fragment = False\<rparr>),
     te_now = Some 100\<rparr>"

text \<open>A later binary, with the next root and the same catalog.\<close>

definition demo_later :: trust_env where "demo_later = demo_env\<lparr>te_embedded_root := ''rr''\<rparr>"

definition demo_disk :: trust_disk where
  "demo_disk = \<lparr>dk_directory = False, dk_state = Absent, dk_chain = Absent, dk_catalog = Absent, dk_envelope = Absent,
     dk_writes = 9, dk_torn = False\<rparr>"

section \<open>Its digests and signatures\<close>

lemma demo_digest_valid: "valid_sha256 (demo_digest n)"
proof -
  let ?hex = "''0123456789abcdef''"
  have "?hex ! (n mod 16) \<in> set ?hex" by (rule nth_mem) simp
  moreover have "\<forall>c \<in> set ?hex. is_ascii_digit c \<or> CHR ''a'' \<le> c \<and> c \<le> CHR ''f''" by code_simp
  ultimately have "is_ascii_digit (?hex ! (n mod 16)) \<or> CHR ''a'' \<le> ?hex ! (n mod 16) \<and> ?hex ! (n mod 16) \<le> CHR ''f''"
    by (rule bspec [rotated])
  then show ?thesis unfolding valid_sha256_def demo_digest_def list_all_iff set_replicate_conv_if length_replicate by simp
qed

lemma demo_laws: "trust_laws demo_env" "trust_laws demo_later" "base64_law demo_env"
  by (simp_all add: trust_laws_def base64_law_def demo_later_def demo_env_def demo_digest_valid MAX_JSON_SAFE_INTEGER_def)

lemma demo_disk_ok: "disk_ok demo_disk" "blank demo_disk" "settled demo_env demo_disk"
  by (simp_all add: disk_ok_def blank_def demo_disk_def settled_def load_trust_state_def)

lemma demo_key: "validate_public_key_identity demo_env demo_key_id ''KEY'' = Inr ()"
proof -
  have zero: "of_le (as_bytes (replicate 8 CHR 0x00)) = (0 :: u64)" by (simp add: as_bytes_def numeral_eq_Suc)
  have digit: "is_ascii_digit CHR ''0''" by code_simp
  have "valid_key_id demo_key_id"
    by (simp add: valid_key_id_def demo_key_id_def list_all_iff digit)
  moreover have "upper_hex16 0 = demo_key_id" by (simp add: upper_hex16_def demo_key_id_def map_replicate_const)
  ultimately show ?thesis
    using zero by (simp add: validate_public_key_identity_def demo_env_def)
qed

lemma demo_key_later: "validate_public_key_identity demo_later = validate_public_key_identity demo_env"
  by (simp add: validate_public_key_identity_def fun_eq_iff demo_later_def)

lemma no_leading: "s \<noteq> [] \<Longrightarrow> list_all (\<lambda>w. w \<noteq> [] \<and> hd w \<noteq> hd s) ws \<Longrightarrow> strip_one ws s = None"
proof (induction ws)
  case (Cons w ws)
  then show ?case by (cases w; cases s) auto
qed simp

lemma demo_white: "list_all (\<lambda>w. w \<noteq> [] \<and> hd w \<noteq> CHR ''u'') white_space"
  "list_all (\<lambda>w. w \<noteq> [] \<and> hd w \<noteq> CHR ''Z'') (map rev white_space)"
  by (simp_all add: white_space_def upt_rec char_of_eq_iff)

lemma demo_trim: "trim (demo_signature bytes) = demo_signature bytes"
proof -
  have "strip_all white_space (demo_signature bytes) = demo_signature bytes"
    by (subst strip_all.simps) (simp add: no_leading demo_signature_def demo_white(1))
  moreover have "strip_all (map rev white_space) (rev (demo_signature bytes)) = rev (demo_signature bytes)"
    by (subst strip_all.simps) (simp add: no_leading demo_signature_def demo_white(2))
  ultimately show ?thesis by (simp add: trim_def)
qed

lemma demo_lines:
  assumes "CHR 0x0A \<notin> set bytes"
  shows "lines_of (demo_signature bytes) = [''untrusted comment: a'', strip_cr (''KEY'' @ bytes), ''trusted comment: b'', ''Z'']"
proof -
  have "split_on CHR 0x0A (demo_signature bytes) = [''untrusted comment: a'', ''KEY'' @ bytes, ''trusted comment: b'', ''Z'']"
    using assms unfolding demo_signature_def
    by (subst split_on_append, simp, subst split_on_append, simp, subst split_on_append, simp, simp)
  then show ?thesis by (simp add: lines_of_def strip_cr_def)
qed

lemma demo_signature_decodes:
  assumes "set bytes \<subseteq> {CHR ''r'', CHR ''c''}"
  shows "decode_signature_text env (demo_signature bytes) = Inr (demo_signature bytes)"
    "te_verify demo_env ''KEY'' bytes (demo_signature bytes)" "te_verify demo_later ''KEY'' bytes (demo_signature bytes)"
    "utf8_text (demo_signature bytes)" "length (demo_signature bytes) = length bytes + 45"
proof -
  have nl: "CHR 0x0A \<notin> set bytes" using assms by auto
  note lines = demo_lines [OF nl]
  have "\<forall>b \<in> set (char_codes (demo_signature bytes)). b < 128"
    using assms by (auto simp: demo_signature_def char_codes_def)
  then show utf8: "utf8_text (demo_signature bytes)" unfolding utf8_text_def by (rule utf8_valid_ascii)
  have prefix: "is_prefix ''untrusted comment:'' (demo_signature bytes)" by (simp add: demo_signature_def)
  show "decode_signature_text env (demo_signature bytes) = Inr (demo_signature bytes)"
    by (simp add: decode_signature_text_def utf8 demo_trim prefix validate_signature_text_def lines)
  have "strip_cr (''KEY'' @ bytes) = ''KEY'' @ bytes" using assms by (cases bytes rule: rev_cases) (auto simp: strip_cr_def)
  then show "te_verify demo_env ''KEY'' bytes (demo_signature bytes)" "te_verify demo_later ''KEY'' bytes (demo_signature bytes)"
    using lines by (simp_all add: demo_env_def demo_later_def)
  show "length (demo_signature bytes) = length bytes + 45" by (simp add: demo_signature_def)
qed

section \<open>Its roots\<close>

definition demo_active :: "nat \<Rightarrow> root_origin \<Rightarrow> active_root" where
  "demo_active n origin = \<lparr>ar_document = demo_document n, ar_sha256 = demo_digest n, ar_origin = origin\<rparr>"

abbreviation letters_r :: "nat \<Rightarrow> string" where "letters_r n \<equiv> replicate n CHR ''r''"

lemma demo_document_valid:
  assumes "0 < n" "n \<le> 1000" "env = demo_env \<or> env = demo_later"
  shows "validate_trust_root_document env (demo_document n) = Inr ()"
proof -
  have key: "validate_public_key_identity env demo_key_id ''KEY'' = Inr ()"
    using assms(3) demo_key by (auto simp: demo_key_later)
  show ?thesis
    using assms(1,2) demo_digest_valid [of "n - 1"]
    by (cases "n = 1")
      (simp_all add: validate_trust_root_document_def demo_document_def validate_validity_window_def
        validate_trust_key_def validate_catalog_key_def admit_key_def key MAX_JSON_SAFE_INTEGER_def
        MAX_ROOT_VALIDITY_SECONDS_def MAX_ROOT_KEYS_def MAX_CATALOG_KEYS_def MAX_CATALOG_VALIDITY_SECONDS_def)
qed

lemma demo_parsed:
  assumes "0 < n" "n \<le> 1000" "env = demo_env \<or> env = demo_later"
  shows "parse_trust_root env (letters_r n) origin = Inr (demo_active n origin)"
proof -
  have fields: "te_parse_root env (letters_r n) = Some (demo_document n)" "te_sha256 env (letters_r n) = demo_digest n"
    using assms(1,3) by (auto simp: demo_env_def demo_later_def)
  show ?thesis
    using assms(2) by (simp add: parse_trust_root_def MAX_TRUST_ROOT_BYTES_def fields demo_active_def demo_document_valid [OF assms])
qed

lemma demo_embedded_roots: "embedded_trust_root demo_env = Inr (demo_active 1 EmbeddedRoot)"
  "embedded_trust_root demo_later = Inr (demo_active 2 EmbeddedRoot)"
proof -
  have embedded: "te_embedded_root demo_env = letters_r 1" "te_embedded_root demo_later = letters_r 2"
    by (simp_all add: demo_env_def demo_later_def numeral_2_eq_2)
  show "embedded_trust_root demo_env = Inr (demo_active 1 EmbeddedRoot)"
    "embedded_trust_root demo_later = Inr (demo_active 2 EmbeddedRoot)"
    unfolding embedded_trust_root_def embedded by (rule demo_parsed; simp)+
qed

definition demo_records :: "string \<Rightarrow> signature_record list" where
  "demo_records bytes = [\<lparr>sr_key_id = demo_key_id, sr_signature = demo_signature bytes\<rparr>]"

lemma demo_records_valid:
  assumes "set bytes \<subseteq> {CHR ''r'', CHR ''c''}" "length bytes \<le> 1000"
  shows "validate_signature_records demo_env (demo_records bytes) = Inr ()"
    "parse_signature_bundle demo_env (demo_signature bytes) = Inr (demo_records bytes)"
proof -
  have "valid_key_id demo_key_id" using demo_key by (auto simp: validate_public_key_identity_def res_simps)
  then show r: "validate_signature_records demo_env (demo_records bytes) = Inr ()"
    using assms(2)
    by (simp add: validate_signature_records_def demo_records_def admit_signature_def demo_signature_decodes [OF assms(1)]
        MAX_ROOT_SIGNATURES_def MAX_SIGNATURE_BYTES_def)
  have "te_parse_bundle demo_env (demo_signature bytes) =
      Some \<lparr>sb_schema = ''denoize-model-trust-signatures-v1'', sb_signatures = demo_records bytes\<rparr>"
    by (simp add: demo_env_def demo_records_def)
  then show "parse_signature_bundle demo_env (demo_signature bytes) = Inr (demo_records bytes)"
    using r by (simp add: parse_signature_bundle_def) (simp add: demo_records_def MAX_ROOT_SIGNATURES_def)
qed

lemma demo_threshold:
  assumes "set bytes \<subseteq> {CHR ''r'', CHR ''c''}"
  shows "verify_signature_threshold demo_env bytes (demo_records bytes) (td_root_keys (demo_document n)) 1 = Inr ()"
proof -
  have "te_signature demo_env s" "te_public_key demo_env ''KEY''" for s by (simp_all add: demo_env_def)
  then show ?thesis
    using demo_signature_decodes(1,2) [OF assms]
    by (simp add: verify_signature_threshold_def demo_records_def verify_record_def demo_document_def)
qed

lemma demo_transition:
  assumes "0 < n" "n \<le> 1000"
  shows "verify_root_transition demo_env (demo_active n a) (demo_active (Suc n) b) (letters_r (Suc n))
    (demo_records (letters_r (Suc n))) = Inr ()"
proof -
  have letters: "set (letters_r (Suc n)) \<subseteq> {CHR ''r'', CHR ''c''}" by auto
  have keys: "td_threshold (demo_document k) = 1" for k by (simp add: demo_document_def)
  have history: "ensure_catalog_history_is_retained (demo_active n a) (demo_active (Suc n) b) = Inr ()"
    by (simp add: ensure_catalog_history_is_retained_def demo_active_def demo_document_def retains_key_def
        find_catalog_key_def widens_optional_ceiling_def)
  have fields: "td_previous (demo_document (Suc n)) = Some (demo_digest n)" "td_issued_at (demo_document k) = 10"
      "td_version (demo_document k) = k" for k
    using assms by (simp_all add: demo_document_def)
  have version: "root_version (demo_active k c) = k" for k c by (simp add: root_version_def demo_active_def fields)
  have "n + 1 < 2 ^ 64" using assms(2) by simp
  then show ?thesis
    using demo_threshold [OF letters] history
    by (simp add: verify_root_transition_def version keys) (simp add: demo_active_def fields keys)
qed

section \<open>Its catalogs\<close>

abbreviation letters_c :: "nat \<Rightarrow> string" where "letters_c n \<equiv> replicate n CHR ''c''"

lemma demo_names: "validate_identifier ''small'' = Inr ()" "validate_windows_device_name ''small'' = Inr ()"
  "validate_identifier ''onnx'' = Inr ()" "validate_filename ''small.bin'' = Inr ()"
proof -
  have chars: "list_all (\<lambda>b. is_ascii_lowercase b) ''small''" "list_all (\<lambda>b. is_ascii_lowercase b) ''onnx''"
    "list_all (\<lambda>b. is_ascii_alphanumeric b \<or> b = CHR ''.'') ''small.bin''"
    "is_ascii_alphanumeric CHR ''s''" "is_ascii_alphanumeric CHR ''o''"
    by code_simp+
  have upper: "map to_ascii_uppercase ''small'' = ''SMALL''" by code_simp
  show "validate_identifier ''small'' = Inr ()" "validate_identifier ''onnx'' = Inr ()"
    using chars by (auto simp: validate_identifier_def list_all_iff)
  have stem: "hd (split_on CHR ''.'' ''small'') = ''small''" "hd (split_on CHR ''.'' ''small.bin'') = ''small''" by simp_all
  have device: "validate_windows_device_name ''small.bin'' = Inr ()" "validate_windows_device_name ''small'' = Inr ()"
    unfolding validate_windows_device_name_def stem upper Let_def by simp_all
  then show "validate_windows_device_name ''small'' = Inr ()" by simp
  have "path_of ''small.bin'' = [Normal ''small.bin'']" by (rule path_of_piece) simp_all
  then show "validate_filename ''small.bin'' = Inr ()"
    using chars device by (auto simp: validate_filename_def list_all_iff)
qed

lemma demo_texts: "validate_bounded_text ''1'' 128 = Inr ()" "validate_bounded_text ''MIT'' 128 = Inr ()"
proof -
  have "\<not> has_control ''1''" "\<not> has_control ''MIT''" by code_simp+
  then show "validate_bounded_text ''1'' 128 = Inr ()" "validate_bounded_text ''MIT'' 128 = Inr ()"
    by (simp_all add: validate_bounded_text_def)
qed

lemma demo_admitted:
  assumes "env = demo_env \<or> env = demo_later"
  shows "\<exists>models. admit_model env identity ([], []) demo_model = Inr ([''small''], models)"
proof -
  have fields: "md_name demo_model = ''small''" "md_backend demo_model = ''onnx''" "md_filename demo_model = ''small.bin''"
    "md_revision demo_model = ''1''" "md_license demo_model = ''MIT''" "md_sha256 demo_model = demo_digest 0"
    "md_size demo_model = 10" "md_sample_rate demo_model = 16000" "md_offline_bundle demo_model = None"
    by (simp_all add: demo_model_def)
  have url: "validate_model_url env (md_url demo_model) = Inr ()"
    using assms by (auto simp: validate_model_url_def demo_env_def demo_later_def)
  show ?thesis
    by (simp add: admit_model_def fields demo_names demo_texts demo_digest_valid validate_offline_bundle_def url MAX_MODEL_BYTES_def)
qed

definition demo_catalog_key :: catalog_key where
  "demo_catalog_key = \<lparr>ck_key_id = demo_key_id, ck_public_key = ''KEY'', ck_first_sequence = 1, ck_last_sequence = None,
     ck_revoked_at = None\<rparr>"

lemma demo_key_found: "find_catalog_key (demo_active n origin) demo_key_id = Some demo_catalog_key"
  "0 < k \<Longrightarrow> accepts demo_catalog_key k"
  by (simp_all add: find_catalog_key_def demo_active_def demo_document_def demo_catalog_key_def accepts_def)

lemma demo_catalog_valid:
  assumes "env = demo_env \<or> env = demo_later" "k \<le> 3" "origin \<in> {EmbeddedCatalog, SignedCatalog ''local-import''}"
    and "mode = Current 100 \<or> mode = Historical v"
  obtains c where "validate_document env (demo_catalog k) bytes origin (demo_active n root) demo_catalog_key mode = Inr c"
    "mc_sequence c = Suc k"
proof -
  let ?r = "demo_active n root" and ?d = "demo_catalog k"
  have fields: "cd_schema ?d = ''denoize-model-catalog-v1''" "cd_sequence ?d = Suc k" "cd_issued_at ?d = Some 10"
    "cd_expires_at ?d = Some 400" "cd_models ?d = [demo_model]" by (simp_all add: demo_catalog_def)
  have root: "td_max_validity (ar_document ?r) = 500" "td_expiration_required_from (ar_document ?r) = 5"
    by (simp_all add: demo_active_def demo_document_def)
  have safe: "catalog_origin_is_safe env origin"
    using assms(3) by (auto simp: catalog_origin_is_safe_def validate_catalog_source_def)
  have window: "validate_catalog_validity ?d ?r mode = Inr ()"
    using assms(4)
    by (auto simp: validate_catalog_validity_def fields root MAX_JSON_SAFE_INTEGER_def enforces_policy_def add_saturating_def)
  let ?i = "document_identity env ?d bytes origin ?r demo_catalog_key mode"
  obtain models where "admit_model env ?i ([], []) demo_model = Inr ([''small''], models)"
    using demo_admitted [OF assms(1), of ?i] by blast
  then have "validate_document env ?d bytes origin ?r demo_catalog_key mode = Inr \<lparr>mc_identity = ?i, mc_models = models\<rparr>"
    using assms(2)
    by (simp add: validate_document_def safe window fields MAX_MODELS_def MAX_JSON_SAFE_INTEGER_def)
  then show thesis using that by (simp add: mc_sequence_def document_identity_def fields)
qed

lemma demo_embedded_catalogs:
  assumes "env = demo_env \<or> env = demo_later"
  obtains c where "embedded_catalog env = Inr c" "mc_sequence c = 2"
proof -
  obtain n where root: "embedded_trust_root env = Inr (demo_active n EmbeddedRoot)"
    using assms demo_embedded_roots by auto
  have parsed: "te_parse_catalog env (te_embedded_catalog env) = Some (demo_catalog 1)"
    using assms by (auto simp: demo_env_def demo_later_def)
  have key: "require_key (demo_active n EmbeddedRoot) (demo_catalog 1) mode = Inr demo_catalog_key" for mode
    using demo_key_found by (simp add: require_key_def demo_catalog_def)
  obtain c where "validate_document env (demo_catalog 1) (te_embedded_catalog env) EmbeddedCatalog (demo_active n EmbeddedRoot)
      demo_catalog_key (Historical (root_version (demo_active n EmbeddedRoot))) = Inr c" "mc_sequence c = Suc 1"
    by (rule demo_catalog_valid [OF assms, where k = 1 and origin = EmbeddedCatalog
        and mode = "Historical (root_version (demo_active n EmbeddedRoot))" and v = "root_version (demo_active n EmbeddedRoot)"]) auto
  then show thesis using that root parsed key by (simp add: embedded_catalog_def parse_catalog_with_root_def)
qed

lemma demo_verified:
  assumes "mode = Current 100 \<or> mode = Historical v"
  obtains c where "verify_signed_catalog_with_root demo_env (letters_c 2) (demo_signature (letters_c 2))
      (SignedCatalog ''local-import'') (demo_active n EmbeddedRoot) mode = Inr c" "mc_sequence c = 3"
    "mc_sha256 c = demo_digest 2" "mc_signing_key_id c = demo_key_id"
proof -
  have letters: "set (letters_c 2) \<subseteq> {CHR ''r'', CHR ''c''}" by auto
  have fields: "te_parse_catalog demo_env (letters_c 2) = Some (demo_catalog 2)" "te_signature demo_env s" "te_public_key demo_env ''KEY''" for s
    by (simp_all add: demo_env_def)
  have key: "require_key (demo_active n EmbeddedRoot) (demo_catalog 2) mode = Inr demo_catalog_key"
    using demo_key_found by (simp add: require_key_def demo_catalog_def)
  obtain c where c: "validate_document demo_env (demo_catalog 2) (letters_c 2) (SignedCatalog ''local-import'') (demo_active n EmbeddedRoot)
      demo_catalog_key mode = Inr c" "mc_sequence c = Suc 2"
    by (rule demo_catalog_valid [OF _ _ _ assms, where env = demo_env and k = 2 and origin = "SignedCatalog ''local-import''"]) auto
  have "mc_sha256 c = demo_digest 2" "mc_signing_key_id c = demo_key_id"
    using validated_identity(1) [OF c(1)]
    by (simp_all add: mc_sha256_def mc_signing_key_id_def document_identity_def demo_catalog_def demo_env_def)
  moreover have "ck_public_key demo_catalog_key = ''KEY''" by (simp add: demo_catalog_key_def)
  ultimately show thesis
    using that c key fields demo_signature_decodes [OF letters]
    by (simp add: verify_signed_catalog_with_root_def MAX_CATALOG_BYTES_def MAX_SIGNATURE_BYTES_def)
qed

end
