(* ===== verification/Trust_Witnesses.thy ===== *)
theory Trust_Witnesses
  imports Trust_Examples
begin

text \<open>
  The properties of roots and catalogs on the program of \<open>Trust_Examples\<close>: a first import, an import that
  outgrows the chain, an activation and an acquisition.
\<close>

section \<open>Imports\<close>

definition demo_envelope :: "nat \<Rightarrow> envelope" where
  "demo_envelope n = \<lparr>en_root_base64 = CHR ''='' # letters_r n, en_signatures = demo_records (letters_r n), en_source = ''local-import''\<rparr>"

definition demo_chain :: "nat \<Rightarrow> trust_chain" where
  "demo_chain n = \<lparr>tc_version = 1, tc_roots = map demo_envelope [2..<Suc n]\<rparr>"

abbreviation imported :: "nat \<Rightarrow> active_root" where "imported n \<equiv> demo_active n (SignedRoot ''local-import'')"

text \<open>The store after the imports of the roots up to \<open>n\<close>.\<close>

definition demo_store :: "nat \<Rightarrow> trust_disk" where
  "demo_store n = demo_disk\<lparr>dk_directory := True, dk_state := Stored (state_of_root (imported n) 100), dk_chain := Stored (demo_chain n)\<rparr>"

lemma letters: "set (letters_r n) \<subseteq> {CHR ''r'', CHR ''c''}"
  by auto

lemma demo_follow:
  assumes "0 < n" "n < 1000"
  shows "follow_envelope demo_env (demo_active n origin) (demo_envelope (Suc n)) = Inr (imported (Suc n))"
proof -
  have base64: "te_base64 demo_env (CHR ''='' # s) = Some s" for s by (simp add: demo_env_def)
  have version: "root_version (demo_active k c) = k" for k c by (simp add: root_version_def demo_active_def demo_document_def)
  note parsed = demo_parsed [of "Suc n" demo_env "SignedRoot ''local-import''"]
  have fields: "en_root_base64 (demo_envelope (Suc n)) = CHR ''='' # letters_r (Suc n)"
    "en_signatures (demo_envelope (Suc n)) = demo_records (letters_r (Suc n))" "en_source (demo_envelope (Suc n)) = ''local-import''"
    by (simp_all add: demo_envelope_def)
  have valid: "validate_signature_records demo_env (demo_records (letters_r (Suc n))) = Inr ()"
    by (rule demo_records_valid(1) [OF letters]) (use assms in simp)
  have transition: "verify_root_transition demo_env (demo_active n origin) (imported (Suc n)) (letters_r (Suc n))
      (demo_records (letters_r (Suc n))) = Inr ()"
    by (rule demo_transition) (use assms in simp_all)
  show ?thesis
    unfolding follow_envelope_def fields validate_catalog_source_def valid base64 map_err_const if_True simp_thms and_then_simps ok_or_const
    using parsed transition assms by (simp add: version del: replicate_Suc)
qed

lemma demo_followed:
  assumes "n < 31"
  shows "\<exists>origin. try_fold (follow_envelope demo_env) (demo_active 1 EmbeddedRoot) (map demo_envelope [2..<Suc (Suc n)])
    = Inr (demo_active (Suc n) origin) \<and> (0 < n \<longrightarrow> origin = SignedRoot ''local-import'')"
  using assms
proof (induction n)
  case (Suc n)
  then obtain origin where before: "try_fold (follow_envelope demo_env) (demo_active 1 EmbeddedRoot) (map demo_envelope [2..<Suc (Suc n)])
      = Inr (demo_active (Suc n) origin)" by auto
  have split: "map demo_envelope [2..<Suc (Suc (Suc n))] = map demo_envelope [2..<Suc (Suc n)] @ [demo_envelope (Suc (Suc n))]"
    by simp
  show ?case
    unfolding split try_fold_append before and_then_simps try_fold.simps
    using demo_follow [of "Suc n" origin] Suc.prems by simp
qed auto

lemma demo_chain_verified:
  assumes "1 < n" "n < 32"
  shows "verify_chain_from_embedded demo_env (demo_active 1 EmbeddedRoot) (demo_chain n) = Inr (imported n)"
proof -
  have "chain_shape (demo_chain n) = Inr ()" using assms by (simp add: chain_shape_def demo_chain_def MAX_ROOT_CHAIN_LENGTH_def)
  then show ?thesis
    using demo_followed [of "n - 1"] assms by (auto simp: verify_chain_from_embedded_def demo_chain_def)
qed

lemma demo_published:
  assumes "0 < n" "n < 1000" "observed_now_locked demo_env d = Inr 100" "length (tc_roots chain) < 32" "2 \<le> dk_writes d"
  shows "publish_root demo_env (letters_r (Suc n)) (demo_records (letters_r (Suc n))) (imported (Suc n)) (demo_active n a) chain d =
    (Inr (imported (Suc n)), d\<lparr>dk_state := Stored (state_of_root (imported (Suc n)) 100),
      dk_chain := Stored (extend_chain demo_env (letters_r (Suc n)) (demo_records (letters_r (Suc n))) chain),
      dk_writes := dk_writes d - 2\<rparr>)"
proof (rule publish_enough [OF _ assms(5)])
  have "verify_root_transition demo_env (demo_active n a) (imported (Suc n)) (letters_r (Suc n)) (demo_records (letters_r (Suc n))) = Inr ()"
    by (rule demo_transition) (use assms in simp_all)
  moreover have "require_fresh_root (imported (Suc n)) 100 = Inr ()"
    by (simp add: require_fresh_root_def is_expired_at_def root_expires_at_def demo_active_def demo_document_def add_saturating_def
        MAX_ISSUED_AT_FUTURE_SKEW_SECONDS_def)
  ultimately show "publishable demo_env (letters_r (Suc n)) (demo_records (letters_r (Suc n))) (imported (Suc n)) (demo_active n a) chain d 100"
    unfolding publishable_def using assms by (simp add: MAX_ROOT_CHAIN_LENGTH_def)
qed

lemma demo_import:
  assumes "0 < n" "n < 900"
    and "start_import demo_env (imported (Suc n)) (make_directory d) = (Inr (ExtendFrom (demo_active n a) chain), make_directory d)"
    and "observed_now_locked demo_env (make_directory d) = Inr 100" "length (tc_roots chain) < 32" "2 \<le> dk_writes d"
  shows "import_trust_root demo_env (letters_r (Suc n)) (demo_signature (letters_r (Suc n))) d =
    (Inr (imported (Suc n)), (make_directory d)\<lparr>dk_state := Stored (state_of_root (imported (Suc n)) 100),
      dk_chain := Stored (extend_chain demo_env (letters_r (Suc n)) (demo_records (letters_r (Suc n))) chain),
      dk_writes := dk_writes d - 2\<rparr>)"
proof -
  have parsed: "parse_trust_root demo_env (letters_r (Suc n)) (SignedRoot ''local-import'') = Inr (imported (Suc n))"
    by (rule demo_parsed) (use assms in simp_all)
  have records: "parse_signature_bundle demo_env (demo_signature (letters_r (Suc n))) = Inr (demo_records (letters_r (Suc n)))"
    by (rule demo_records_valid(2) [OF letters]) (use assms in simp)
  have sizes: "\<not> MAX_TRUST_ROOT_BYTES < length (letters_r (Suc n))"
    "\<not> MAX_TRUST_SIGNATURE_BUNDLE_BYTES < length (demo_signature (letters_r (Suc n)))"
    using assms(2) demo_signature_decodes(5) [OF letters, of "Suc n"]
    by (simp_all add: MAX_TRUST_ROOT_BYTES_def MAX_TRUST_SIGNATURE_BUNDLE_BYTES_def)
  have writes: "dk_writes (make_directory d) = dk_writes d" by (simp add: make_directory_def)
  have published: "publish_root demo_env (letters_r (Suc n)) (demo_records (letters_r (Suc n))) (imported (Suc n)) (demo_active n a) chain (make_directory d) =
    (Inr (imported (Suc n)), (make_directory d)\<lparr>dk_state := Stored (state_of_root (imported (Suc n)) 100),
      dk_chain := Stored (extend_chain demo_env (letters_r (Suc n)) (demo_records (letters_r (Suc n))) chain),
      dk_writes := dk_writes d - 2\<rparr>)"
    using demo_published [OF _ _ assms(4,5), of n a] assms(1,2,6) unfolding writes by simp
  show ?thesis
    unfolding import_trust_root_def
    using sizes by (simp add: records parsed assms(3) published del: replicate_Suc)
qed

section \<open>The first import and one too many\<close>

lemma demo_fresh_load:
  assumes "env = demo_env \<and> n = 1 \<or> env = demo_later \<and> n = 2" "blank d"
  shows "load_active_trust_root env read_only d = (Inr (demo_active n EmbeddedRoot), d)"
  using assms demo_embedded_roots
  by (auto simp: load_active_trust_root_def load_trust_state_def load_trust_chain_def blank_def)

lemma demo_version [simp]: "root_version (demo_active n origin) = n"
  by (simp add: root_version_def demo_active_def demo_document_def)

lemma demo_blank: "blank (make_directory demo_disk)" "blank (make_directory (demo_disk\<lparr>dk_writes := k, dk_torn := b\<rparr>))"
  by (simp_all add: blank_def make_directory_def demo_disk_def)

lemma demo_first_import:
  "import_trust_root demo_env (letters_r 2) (demo_signature (letters_r 2)) demo_disk =
    (Inr (imported 2), (make_directory demo_disk)\<lparr>dk_state := Stored (state_of_root (imported 2) 100),
      dk_chain := Stored (extend_chain demo_env (letters_r 2) (demo_records (letters_r 2)) no_roots), dk_writes := 7\<rparr>)"
proof -
  have chain: "chain_or_empty demo_env (make_directory demo_disk) = Inr no_roots"
    by (simp add: chain_or_empty_def load_trust_chain_def demo_disk_def make_directory_def)
  have start: "start_import demo_env (imported (Suc 1)) (make_directory demo_disk) =
      (Inr (ExtendFrom (demo_active 1 EmbeddedRoot) no_roots), make_directory demo_disk)"
    using demo_fresh_load [of demo_env 1, OF _ demo_blank(1)] chain by (simp add: start_import_def)
  have now: "observed_now_locked demo_env (make_directory demo_disk) = Inr 100"
    by (simp add: observed_now_locked_def system_unix_seconds_def load_trust_state_def demo_disk_def demo_env_def make_directory_def)
  have "length (tc_roots no_roots) < 32" "2 \<le> dk_writes demo_disk" "dk_writes demo_disk - 2 = 7"
    by (simp_all add: no_roots_def demo_disk_def)
  from demo_import [OF _ _ start now this(1,2), unfolded this(3)] show ?thesis by (simp add: numeral_2_eq_2)
qed

lemma demo_store_state:
  assumes "0 < n" "n \<le> 1000"
  shows "load_trust_state (demo_store n) = Inr (Some (state_of_root (imported n) 100))"
proof (rule stored_root [OF demo_laws(1)])
  show "valid_root demo_env (imported n)" by (rule parsed_root(5) [OF demo_parsed]) (use assms in simp_all)
qed (simp_all add: demo_store_def MAX_JSON_SAFE_INTEGER_def)

lemma demo_store_load:
  assumes "1 < n" "n < 8"
  shows "load_active_trust_root demo_env read_only (demo_store n) = (Inr (imported n), demo_store n)"
    "load_trust_chain demo_env (demo_store n) = Inr (Some (demo_chain n))"
proof -
  have n: "1 < n" "n < 32" "0 < n" "n \<le> 1000" using assms by simp_all
  have "te_chain_size demo_env (tc_roots (demo_chain n)) \<le> MAX_TRUST_CHAIN_BYTES"
    using assms by (simp add: demo_env_def demo_chain_def MAX_TRUST_CHAIN_BYTES_def)
  then show chain: "load_trust_chain demo_env (demo_store n) = Inr (Some (demo_chain n))"
    using assms by (auto simp: load_trust_chain_def demo_store_def chain_shape_def demo_chain_def MAX_ROOT_CHAIN_LENGTH_def fail_if_def)
  show "load_active_trust_root demo_env read_only (demo_store n) = (Inr (imported n), demo_store n)"
  proof (rule completed_store_loads [OF demo_laws(1) demo_embedded_roots(1) _ _ demo_chain_verified [OF n(1,2)] _ _ _ chain])
    show "valid_root demo_env (imported n)" by (rule parsed_root(5) [OF demo_parsed]) (use assms in simp_all)
    show "dk_state (demo_store n) = Stored (state_of_root (imported n) 100)" by (simp add: demo_store_def)
  qed (use assms in \<open>simp_all add: MAX_JSON_SAFE_INTEGER_def\<close>)
qed

lemma demo_seventh_import:
  "\<exists>d'. import_trust_root demo_env (letters_r 8) (demo_signature (letters_r 8)) (demo_store 7) = (Inr (imported 8), d')
    \<and> dk_chain d' = Stored (extend_chain demo_env (letters_r 8) (demo_records (letters_r 8)) (demo_chain 7))"
proof -
  have made: "make_directory (demo_store 7) = demo_store 7" by (simp add: make_directory_def demo_store_def)
  have start: "start_import demo_env (imported (Suc 7)) (make_directory (demo_store 7)) =
      (Inr (ExtendFrom (imported 7) (demo_chain 7)), make_directory (demo_store 7))"
    unfolding made using demo_store_load [of 7] by (simp add: start_import_def chain_or_empty_def)
  have "te_now demo_env = Some 100" by (simp add: demo_env_def)
  then have now: "observed_now_locked demo_env (make_directory (demo_store 7)) = Inr 100"
    unfolding made using demo_store_state [of 7] by (simp add: observed_now_locked_def system_unix_seconds_def)
  have "length (tc_roots (demo_chain 7)) < 32" "2 \<le> dk_writes (demo_store 7)"
    by (simp_all add: demo_chain_def demo_store_def demo_disk_def)
  from demo_import [OF _ _ start now this] show ?thesis by simp
qed

section \<open>Witnesses for imports\<close>

theorem floors_never_drop_witness:
  "root_floor (demo_store 7) \<le> root_floor ((run_command demo_env RecoverRoot (demo_store 7))\<lparr>dk_writes := 0, dk_torn := True\<rparr>)
    \<and> root_floor (demo_store 7) = 7"
proof -
  have "trust_reaches False (demo_store 7) ((run_command demo_env RecoverRoot (demo_store 7))\<lparr>dk_writes := 0, dk_torn := True\<rparr>)"
    by (rule trust_reaches.step [OF trust_reaches.start demo_laws(1)]) (simp add: permitted_def)
  moreover have "disk_ok (demo_store 7)" by (simp add: disk_ok_def demo_store_def)
  moreover have "root_floor (demo_store 7) = 7" using loaded_state_valid(6) [OF demo_store_state] by simp
  ultimately show ?thesis using floors_never_drop [OF _ _ demo_laws(1)] by blast
qed



theorem oversized_chain_is_final_witness:
  "\<exists>d'. fst (import_trust_root demo_env (letters_r 8) (demo_signature (letters_r 8)) (demo_store 7)) = Inr (imported 8)
    \<and> fst (load_active_trust_root demo_env False d') = Inl (Storage ChainTooLarge)
    \<and> d' = snd (import_trust_root demo_env (letters_r 8) (demo_signature (letters_r 8)) (demo_store 7))
    \<and> \<not> is_ok (fst (recover_embedded_trust_root demo_env d'))"
proof -
  obtain d' where d': "import_trust_root demo_env (letters_r 8) (demo_signature (letters_r 8)) (demo_store 7) = (Inr (imported 8), d')"
      "dk_chain d' = Stored (extend_chain demo_env (letters_r 8) (demo_records (letters_r 8)) (demo_chain 7))"
    using demo_seventh_import by blast
  have "MAX_TRUST_CHAIN_BYTES < te_chain_size demo_env (tc_roots (extend_chain demo_env (letters_r 8) (demo_records (letters_r 8)) (demo_chain 7)))"
    by (simp add: extend_chain_def demo_chain_def MAX_TRUST_CHAIN_BYTES_def) (simp add: demo_env_def)
  from oversized_chain_is_final [OF d'(1) demo_laws(1) d'(2) this demo_embedded_roots(1)] show ?thesis
    using d'(1) by auto
qed

section \<open>Acquisition\<close>

lemma demo_obtained:
  assumes "embedded_catalog demo_env = Inr c"
  shows "obtained c"
proof -
  have "active_catalog demo_env demo_disk = (Inr c, demo_disk)"
    using assms by (simp add: active_catalog_def demo_disk_def)
  then show ?thesis unfolding obtained_def using demo_laws(1) by blast
qed

lemma demo_first_acquisition:
  assumes "embedded_catalog demo_env = Inr c"
  shows "fst (require_catalog_acquisition demo_env (mc_identity c) demo_disk) = Inr ()"
proof -
  obtain d key where d: "d = demo_catalog 1" and key: "require_key (demo_active 1 EmbeddedRoot) d (Historical 1) = Inr key"
    and c: "validate_document demo_env d (te_embedded_catalog demo_env) EmbeddedCatalog (demo_active 1 EmbeddedRoot) key (Historical 1) = Inr c"
    using assms demo_embedded_roots(1)
    by (auto simp: embedded_catalog_def parse_catalog_with_root_def res_simps demo_env_def)
  have k: "key = demo_catalog_key"
    using required_key(1) [OF key] demo_key_found(1) [of 1 EmbeddedRoot] by (simp add: d demo_catalog_def)
  have i: "ci_sequence (mc_identity c) = 2" "ci_signing_key_id (mc_identity c) = demo_key_id" "ci_public_key (mc_identity c) = ''KEY''"
      "ci_issued_at (mc_identity c) = Some 10" "ci_expires_at (mc_identity c) = Some 400" "ci_origin (mc_identity c) = EmbeddedCatalog"
    using validated_identity(1) [OF c] by (simp_all add: document_identity_def d k demo_catalog_def demo_catalog_key_def)
  have fresh: "require_fresh_root (demo_active 1 EmbeddedRoot) 100 = Inr ()"
    by (simp add: require_fresh_root_def is_expired_at_def root_expires_at_def demo_active_def demo_document_def add_saturating_def
        MAX_ISSUED_AT_FUTURE_SKEW_SECONDS_def)
  have pk: "ck_public_key demo_catalog_key = ''KEY''" by (simp add: demo_catalog_key_def)
  have root: "td_max_validity (ar_document (demo_active 1 EmbeddedRoot)) = 500"
      "td_expiration_required_from (ar_document (demo_active 1 EmbeddedRoot)) = 5"
    by (simp_all add: demo_active_def demo_document_def)
  have authority: "authority_for (mc_identity c) (demo_active 1 EmbeddedRoot) 100 None = Inr ()"
    using demo_key_found(2) [of 2] root
    by (simp add: authority_for_def validate_acquisition_authority_def fresh i demo_key_found(1) pk add_saturating_def
        del: One_nat_def)
  have advance: "advances_embedded_floor (mc_identity c) None" by (simp add: advances_embedded_floor_def i)
  let ?d = "make_directory demo_disk"
  have load: "load_active_trust_root demo_env False ?d = (Inr (demo_active 1 EmbeddedRoot), ?d)"
    by (rule demo_fresh_load [OF _ demo_blank(1)]) simp
  have now: "effective_now_locked demo_env (demo_active 1 EmbeddedRoot) ?d = Inr 100"
    by (simp add: effective_now_locked_def system_unix_seconds_def load_trust_state_def demo_disk_def demo_env_def make_directory_def)
  have "0 < dk_writes ?d" by (simp add: demo_disk_def make_directory_def)
  from record_now [OF this now] obtain d' where d': "effective_now_and_record_locked demo_env (demo_active 1 EmbeddedRoot) ?d = (Inr 100, d')"
      "load_state d' = load_state ?d" "dk_writes ?d \<le> dk_writes d' + 1" by blast
  have "load_state ?d = Inr None" "8 \<le> dk_writes d'"
    using d'(3) by (simp_all add: load_state_def demo_disk_def make_directory_def)
  then have state: "load_state d' = Inr None" and writes: "fst (write_catalog_identity_state i d') = Inr ()" for i
    using d'(2) by (simp_all add: write_catalog_identity_state_def write_file_def)
  show ?thesis
    unfolding require_catalog_acquisition_def load d'(1) st_then_simps state authority using advance writes by simp
qed

lemma unit_result: "fst m = Inr () \<Longrightarrow> m = (Inr (), snd m)"
  by (cases m) simp

theorem acquisition_is_authorized_witness:
  "\<exists>c r now key. embedded_catalog demo_env = Inr c \<and> rotated demo_env (demo_active 1 EmbeddedRoot) r \<and> now < root_expires_at r
    \<and> find_catalog_key r (mc_signing_key_id c) = Some key \<and> accepts key (mc_sequence c)"
proof -
  obtain c where c: "embedded_catalog demo_env = Inr c" by (rule demo_embedded_catalogs [of demo_env]) simp_all
  from acquisition_is_authorized [OF unit_result [OF demo_first_acquisition [OF c]] demo_laws(1) demo_obtained [OF c]]
  show ?thesis using c demo_embedded_roots(1) by auto
qed

theorem acquisition_answer_exact_witness:
  "\<exists>c. embedded_catalog demo_env = Inr c \<and> fst (catalog_acquisition_allowed demo_env c demo_disk) = Inr True"
proof -
  obtain c where c: "embedded_catalog demo_env = Inr c" by (rule demo_embedded_catalogs [of demo_env]) simp_all
  have "4 \<le> dk_writes demo_disk" by (simp add: demo_disk_def)
  from acquisition_answer_exact [OF demo_disk_ok(1) this, of demo_env c] show ?thesis
    using demo_first_acquisition [OF c] c by blast
qed

theorem root_upgrade_loses_catalog_witness:
  "\<exists>c. embedded_catalog demo_env = Inr c \<and> fst (active_catalog demo_later
    ((snd (require_catalog_acquisition demo_env (mc_identity c) demo_disk))\<lparr>dk_writes := 2\<rparr>)) = Inl (Storage EnvelopeMissing)"
proof -
  obtain c where c: "embedded_catalog demo_env = Inr c" "mc_sequence c = 2" by (rule demo_embedded_catalogs [of demo_env]) simp_all
  obtain c' where c': "embedded_catalog demo_later = Inr c'" "mc_sequence c' = 2" by (rule demo_embedded_catalogs [of demo_later]) simp_all
  have "1 < mc_sequence c" "root_version (demo_active 1 EmbeddedRoot) < root_version (demo_active 2 EmbeddedRoot)"
    "mc_sequence c' = mc_sequence c" using c(2) c'(2) by simp_all
  from root_upgrade_loses_catalog [OF unit_result [OF demo_first_acquisition [OF c(1)]] demo_disk_ok(2) demo_laws(1)
      demo_embedded_roots(1) c(1) this(1) demo_embedded_roots(2) this(2) c'(1) this(3) demo_laws(2), of 2]
  show ?thesis using c(1) by auto
qed

section \<open>Activation\<close>

lemma demo_activation:
  "is_ok (fst (activate_signed_catalog demo_env (letters_c 2) (demo_signature (letters_c 2)) ''local-import'' demo_disk))"
proof -
  let ?d = "make_directory demo_disk" and ?r = "demo_active 1 EmbeddedRoot"
  have letters: "set (letters_c 2) \<subseteq> {CHR ''r'', CHR ''c''}" by auto
  have load: "load_active_trust_root demo_env False ?d = (Inr ?r, ?d)" by (rule demo_fresh_load [OF _ demo_blank(1)]) simp
  have t: "te_now demo_env = Some 100" by (simp add: demo_env_def)
  let ?d1 = "?d\<lparr>dk_state := Stored (state_of_root ?r 100), dk_writes := 8\<rparr>"
  have now: "effective_now_and_record_locked demo_env ?r ?d = (Inr 100, ?d1)"
    by (simp add: effective_now_and_record_locked_def effective_now_locked_def system_unix_seconds_def load_trust_state_def
        write_trust_state_def write_file_def state_of_root_def t demo_disk_def make_directory_def)
  have fresh: "require_fresh_root ?r 100 = Inr ()"
    by (simp add: require_fresh_root_def is_expired_at_def root_expires_at_def demo_active_def demo_document_def add_saturating_def
        MAX_ISSUED_AT_FUTURE_SKEW_SECONDS_def)
  obtain c where c: "verify_signed_catalog_with_root demo_env (letters_c 2) (demo_signature (letters_c 2))
      (SignedCatalog ''local-import'') ?r (Current 100) = Inr c" "mc_sequence c = 3" "mc_sha256 c = demo_digest 2" "mc_signing_key_id c = demo_key_id"
    by (rule demo_verified [of "Current 100"]) auto
  obtain e where e: "embedded_catalog demo_env = Inr e" "mc_sequence e = 2" by (rule demo_embedded_catalogs [of demo_env]) simp_all
  have none: "load_state ?d1 = Inr None" by (simp add: load_state_def demo_disk_def make_directory_def)
  have floor: "validate_catalog_candidate_floor c e ?d1 = Inr ()"
    unfolding validate_catalog_candidate_floor_def none using c(2) e(2) by simp
  have ok: "identity_ok (mc_identity c)"
  proof (rule verified_identity_ok [OF c(1) demo_laws(1)])
    show "valid_root demo_env ?r" by (rule embedded_valid [OF demo_embedded_roots(1)])
  qed (simp_all add: accepted_version_def MAX_JSON_SAFE_INTEGER_def)
  let ?e = "catalog_envelope_of demo_env (letters_c 2) (demo_signature (letters_c 2)) ''local-import''"
  obtain d2 where w: "write_catalog_identity_state (mc_identity c) ?d1 = (Inr (), d2)" and d2: "0 < dk_writes d2"
      "dk_state d2 = dk_state ?d1" "dk_chain d2 = dk_chain ?d1" "dk_directory d2"
    by (simp add: write_catalog_identity_state_def write_file_def make_directory_def)
  obtain d3 where w3: "write_envelope ?e d2 = (Inr (), d3)" and d3: "dk_envelope d3 = Stored ?e" "dk_state d3 = dk_state d2"
      "dk_chain d3 = dk_chain d2" "dk_directory d3" "load_state d3 = load_state d2"
    using d2(1,4) by (simp add: write_envelope_def write_file_def)
  have activated: "activate_locked demo_env (letters_c 2) (demo_signature (letters_c 2)) ''local-import'' ?d = (Inr None, d3)"
    unfolding activate_locked_def load st_then_simps now fresh c(1) e(1) floor c(2) e(2) write_catalog_state_def w
    using w3 demo_signature_decodes(4) [OF letters] by simp
  let ?s = "\<lparr>cs_version = 2, cs_highest = 3, cs_sha256 = demo_digest 2, cs_signing_key_id = demo_key_id,
    cs_root_version = ci_root_version (mc_identity c)\<rparr>"
  have state: "load_state d3 = Inr (Some ?s)"
    using write_catalog_state_Inr(1) [OF w ok] d3(5) c(2-4) by (simp add: mc_sequence_def mc_sha256_def mc_signing_key_id_def)
  have valid: "load_trust_state d3 = Inr (Some (state_of_root ?r 100))"
    by (rule stored_root [OF demo_laws(1) embedded_valid [OF demo_embedded_roots(1)]])
      (simp_all add: d3(2) d2(2) MAX_JSON_SAFE_INTEGER_def)
  have "load_trust_chain demo_env d3 = Inr None"
    by (simp add: load_trust_chain_def d3(3) d2(3) demo_disk_def make_directory_def)
  then have load3: "load_active_trust_root demo_env False d3 = (Inr ?r, d3)"
    using valid loaded_state_valid(2) [OF valid] demo_embedded_roots(1)
    by (simp add: load_active_trust_root_def)
  have env_ok: "load_envelope demo_env d3 = Inr (Some ?e)"
    using demo_signature_decodes(5) [OF letters]
    by (simp add: load_envelope_def d3(1) catalog_envelope_of_def MAX_SIGNATURE_BYTES_def validate_catalog_source_def)
  obtain c' where c': "verify_signed_catalog_with_root demo_env (letters_c 2) (demo_signature (letters_c 2))
      (SignedCatalog ''local-import'') ?r (Historical (cs_root_version ?s)) = Inr c'" "mc_sequence c' = 3" "mc_sha256 c' = demo_digest 2"
      "mc_signing_key_id c' = demo_key_id"
    by (rule demo_verified [of "Historical (cs_root_version ?s)"]) auto
  have base64: "te_base64 demo_env (ce_catalog_base64 ?e) = Some (letters_c 2)"
    by (simp add: catalog_envelope_of_def demo_env_def)
  have "cached_catalog demo_env e ?r ?s ?e = Inr c'"
    unfolding cached_catalog_def loaded_catalog_state_valid(2) [OF state] base64
    using c' e(2) by (simp add: catalog_envelope_of_def MAX_CATALOG_BYTES_def)
  then have "load_active_catalog_locked demo_env e ?r d3 = Inr c'"
    using state env_ok e(2) by (simp add: load_active_catalog_locked_def state_matches_catalog_def)
  then have "active_catalog demo_env d3 = (Inr c', d3)"
    using d3(4) load3 e(1) by (simp add: active_catalog_def)
  then show ?thesis
    unfolding activate_signed_catalog_def by (simp add: validate_catalog_source_def activated)
qed

theorem activated_catalog_is_signed_witness:
  "\<exists>c d' document. activate_signed_catalog demo_env (letters_c 2) (demo_signature (letters_c 2)) ''local-import'' demo_disk = (Inr c, d')
    \<and> acceptance demo_env demo_disk (letters_c 2) (demo_signature (letters_c 2)) document \<and> catalog_floor d' = mc_sequence c"
proof -
  obtain c where c: "activate_signed_catalog demo_env (letters_c 2) (demo_signature (letters_c 2)) ''local-import'' demo_disk =
      (Inr c, snd (activate_signed_catalog demo_env (letters_c 2) (demo_signature (letters_c 2)) ''local-import'' demo_disk))"
    using demo_activation unfolding is_ok_iff by (metis prod.collapse)
  from activated_catalog_is_signed [OF c demo_laws(1)] show ?thesis using c by blast
qed

end
