(* ===== verification/Spec2Isabelle.thy ===== *)
theory Spec2Isabelle
  imports Channel_Layout Resource_Governor Decode_Budget Receipts Ipc_Races Ogg_Rewrite_Correct Flac_Outcomes Trust_Witnesses
begin

text \<open>
  A verification library for denoize (Rust, \<open>src/src\<close>), a noise reduction program with a command
  line, a desktop application, audio plugins and a local job server. The library models the parts
  that decide what may run, what is recorded about a run and what is written into the files of the
  user: the program text is translated function by function, its machine integers kept at their
  width and every early return a branch of the model, and the properties below are proved of these
  translations.

  THE PROGRAM AND ITS PARTS.
  A run of the program is described by an execution plan (\<open>execution.rs\<close>): the recipe, the inputs
  with their fingerprints, and what is to be done with each. A plan is admitted by the resource
  governor (\<open>resource.rs\<close>) under process-wide limits, whole files are decoded within a working-set
  budget (\<open>decode/budget.rs\<close>), channels are laid out by the WAVE mask (\<open>channel_layout.rs\<close>), and the tags
  of the source are carried over to the output (\<open>metadata.rs\<close>, \<open>metadata/ogg.rs\<close>,
  \<open>metadata/flac.rs\<close>). When the run is over a signed receipt attests what was produced
  (\<open>execution.rs\<close>). The job server (\<open>ipc/contracts.rs\<close>, \<open>ipc/storage.rs\<close>, \<open>ipc/server.rs\<close>)
  accepts such plans from local clients that hold capability grants, keeps them in a durable queue,
  runs them one at a time in child processes and records their receipts in its history. The neural
  models a run uses come from a signed catalog (\<open>models/catalog.rs\<close>), whose keys are named by a trust
  root that can be rotated (\<open>models/catalog/trust.rs\<close>); both are kept on disk with a floor against
  rollback.

  THE THEORIES.
    \<^item> Shared layer. \<open>Prelude\<close>: results of fallible code (\<open>Ok\<close> and \<open>Err\<close> of a sum, \<open>and_then\<close>),
      checked and saturating arithmetic on words, sorting by a key, and the collections of rewrite
      rules used by all proofs. \<open>Wire_Text\<close>: ASCII classes, hexadecimal and trimmed text.
      \<open>Paths\<close>: UTF-8 and Unix paths. \<open>Ordered_Map\<close>: the \<open>BTreeMap\<close> of the state of the server as
      a sorted association list. \<open>Byte_Streams\<close>: little- and big-endian numbers and sequential
      readers. \<open>Fingerprint\<close>: digests as content identities (\<open>batch_resume.rs\<close>).
    \<^item> \<open>Channel_Layout\<close> (\<open>channel_layout.rs\<close>): masks, positions, pans and layouts.
    \<^item> \<open>Resource_Governor\<close> (\<open>resource.rs\<close>): limits, requests, permits, waiting and cancellation; the
      governor with any number of workers is the step relation \<open>gov_step\<close>.
    \<^item> \<open>Decode_Budget\<close> (\<open>decode/budget.rs\<close>): the checks of a working set against its budget.
    \<^item> \<open>Execution_Plan\<close> and \<open>Receipts\<close> (\<open>execution.rs\<close>): plans, their canonical order and digest,
      locators; payloads, signatures, trust policies, verification of receipts and outputs.
    \<^item> \<open>Ipc_Contracts\<close> (\<open>ipc/contracts.rs\<close>): the documents of the protocol and their validation.
    \<^item> \<open>Ipc_Store\<close>, \<open>Ipc_Queue\<close>, \<open>Ipc_Grants\<close> (\<open>ipc/storage.rs\<close>): the registry of grants and the job
      queue, in memory and on disk, with saves that may fail. \<open>Ipc_Lifecycle\<close> is the step relation
      over all their operations and restarts (\<open>store_step\<close>) with its invariants; \<open>Ipc_Once\<close> and
      \<open>Ipc_Outcomes\<close> show what reachable stores guarantee about starts, order and ends of jobs.
    \<^item> \<open>Ipc_Access\<close>, \<open>Ipc_Planning\<close>, \<open>Ipc_Requests\<close> (\<open>ipc/server.rs\<close>): capability checks, planning in
      a bounded child and the dispatch of requests. \<open>Ipc_Scheduler\<close>: the scheduler loop, execution of
      a job and recovery. \<open>Ipc_Service\<close>: requests, scheduler and crashes interleaved as one machine.
      \<open>Ipc_Races\<close>: what happens when a request meets the scheduler between two of its steps.
    \<^item> \<open>Vorbis_Comments\<close> (\<open>metadata.rs\<close>): the metadata budget and comment bodies.
    \<^item> \<open>Ogg_Pages\<close>, \<open>Ogg_Packets\<close>, \<open>Ogg_Scan\<close>, \<open>Ogg_Rewrite\<close> (\<open>metadata/ogg.rs\<close>): pages with their
      checksum, packets, the scan of all logical streams and the rewriting of the comments;
      \<open>Ogg_Scan_Correct\<close> and \<open>Ogg_Rewrite_Correct\<close> relate them to packets and streams as the format
      defines them.
    \<^item> \<open>Flac_Metadata\<close> (\<open>metadata/flac.rs\<close>): the blocks of a FLAC file, the plan of a rewrite and the
      rewrite itself; \<open>Flac_Correct\<close> relates them to files as sequences of blocks and audio, and
      \<open>Flac_Outcomes\<close> lists how a rewrite can fail.
    \<^item> \<open>Signature_Text\<close>, \<open>Trust_Root\<close>, \<open>Trust_Store\<close> (\<open>models/catalog/trust.rs\<close>): trust roots, rotations,
      the chain and the floor on disk. \<open>Catalog_Document\<close>, \<open>Model_Catalog\<close> (\<open>models/catalog.rs\<close>):
      catalogs, their activation and the permission to acquire models. \<open>Trust_Rotation\<close> relates roots to
      an inductive relation of signed rotations; \<open>Trust_Floors\<close>, \<open>Trust_Operations\<close> and
      \<open>Catalog_Operations\<close> show that each operation keeps the floors (through the locale
      \<open>state_preorder\<close>), and \<open>Trust_Machine\<close> that all sequences of them do. \<open>Catalog_Outcomes\<close>: what success
      means. \<open>Trust_Recovery\<close>: interrupted imports. \<open>Trust_Limits\<close>: two ways in which the store stops
      working. \<open>Trust_Examples\<close> and \<open>Trust_Witnesses\<close>: a concrete program on which the hypotheses hold.

  HOW THE MODEL CORRESPONDS TO THE CODE.
  A struct is a record, an enum a datatype, a function of the source a definition of the same name
  (with a prefix where several files use one name). Results are \<open>Err e + Ok v\<close>; the error types are
  datatypes with one constructor per message of the code. \<open>u8\<close>, \<open>u16\<close>, \<open>u32\<close>, \<open>u64\<close> and \<open>usize\<close> are
  words of that width (\<open>usize\<close> has 64 bits); where the code uses checked or saturating operations the
  model uses the ones of \<open>Prelude\<close>; where the code checks a value of \<open>u64\<close> against a bound far below
  \<open>2^64\<close> before any arithmetic (versions, sequences and times of the catalog) it is a natural number. Files of audio metadata are lists of bytes. State that the server
  keeps behind a lock is a record that the operations return updated, the file behind it a second
  field, and a save that fails is an input of the operation. What threads and connections do to this
  state are the rules of inductive step relations, and properties of reachable states are proved by
  rule induction. Code outside \<open>src\<close> is a parameter: SHA-256, Ed25519, minisign, base64,
  the parsers of JSON and of addresses and the clock are fields of the environment records
  (\<open>receipt_env\<close>, \<open>store_env\<close>, \<open>trust_env\<close>), serializers as functions to byte strings, the
  operating system as the results of its calls. Laws about them that a proof needs (an encoding can
  be decoded, a verified signature was made by the key) are hypotheses of the theorem or assumptions
  of a locale that is interpreted on the model's own definitions.

  WHAT THE LEMMAS SHOW.
  For the pure components: construction gives canonical and valid values, validation decides a stated
  predicate, word arithmetic decides the arithmetic of naturals, and printing and parsing are inverse.
  For the job server: every reachable store is valid and can be opened again, jobs move only along
  allowed transitions, a job that cannot be resumed is started at most once, revocation is
  permanent, and completed jobs are attested; requests refine the steps of the store, and a refused
  request changes nothing. For the metadata: scans find exactly what the format defines whatever the
  layout over pages, never fail by their own bookkeeping, and stay within their limits; a rewrite
  changes comments (and pictures) and nothing else, and reads back as written. For roots and catalogs:
  every root rests on signed rotations of the embedded one, nothing below an accepted version is ever
  loaded whatever writes fail, models are acquired only under fresh and unrevoked authority, and an
  interrupted import can be repeated.

  BOUNDS AND FUEL.
  Loops over files are functions whose measure is the number of bytes left, so they need no fuel:
  every page has at least 27 bytes and every block at least 4. The reader of comment records
  recurses on the declared count of the code, which the budget limits. \<open>read_records\<close>, which states what a
  whole stream of records is, takes the length of the stream as fuel: every record takes a byte. Waiting in the governor
  and the loops of the server are step relations, of which only finite runs are considered; so are the
  operations on the trust store, where each step fixes how many of its writes succeed. The limits
  of the code (bytes of metadata, fields, pages, jobs, history entries, grants, sizes of documents)
  are constants or fields of the model with the values of the source.

  NOT MODELLED.
    \<^item> The command line (\<open>main.rs\<close>), the desktop application, the updater and live processing: they
      consist of argument parsing, user interface, network, installers, devices and real-time threads
      around the library calls.
    \<^item> Codecs, filters and neural backends: floating-point samples, third-party decoders and runtimes.
    \<^item> Audio plugins: host interfaces over the same processing.
    \<^item> The journal of a batch run beyond its fingerprints, the journal of edit projects and the
      sockets of the job server.
    \<^item> Downloads of catalogs and models, and model bundles and their maintenance.
    \<^item> Permissions of files and directories, atomic replacement and the lock of the server appear only
      as the result of an operation that may fail.
\<close>

end
